(* ===== verification/Prelude.thy ===== *)
theory Prelude
  imports Complex_Main "HOL-Library.AList"
begin

text \<open>
  Shared by every component. A Python \<open>dict\<close> is an association list: iteration follows
  insertion order, \<open>AList.update\<close> overwrites in place or appends at the end, and
  \<open>AList.delete\<close> is \<open>pop\<close>. A raised exception is the left side of a sum. A component
  with mutable state is a step function run over a list of events; the locale
  \<open>invariant_run\<close> lifts a one-step invariant to every run.
\<close>

named_theorems dict_simps \<open>lookup, keys and values of an updated dictionary\<close>
named_theorems inv_intros \<open>operations that keep a component's invariant\<close>

section \<open>Dictionaries\<close>

type_synonym ('k, 'v) dict = "('k \<times> 'v) list"

abbreviation keys :: "('k, 'v) dict \<Rightarrow> 'k list" where
  "keys d \<equiv> map fst d"

abbreviation vals :: "('k, 'v) dict \<Rightarrow> 'v list" where
  "vals d \<equiv> map snd d"

definition dict_get :: "('k, 'v) dict \<Rightarrow> 'k \<Rightarrow> 'v \<Rightarrow> 'v" where
  "dict_get d k x = (case map_of d k of None \<Rightarrow> x | Some v \<Rightarrow> v)"

definition has_key :: "('k, 'v) dict \<Rightarrow> 'k \<Rightarrow> bool" where
  "has_key d k \<longleftrightarrow> map_of d k \<noteq> None"

lemma has_key_iff [dict_simps]: "has_key d k \<longleftrightarrow> k \<in> set (keys d)"
  by (simp add: has_key_def map_of_eq_None_iff)

lemma map_of_update [dict_simps]:
  "map_of (AList.update k v d) k' = (if k' = k then Some v else map_of d k')"
  by (simp add: AList.update_conv')

lemma map_of_delete [dict_simps]:
  "map_of (AList.delete k d) k' = (if k' = k then None else map_of d k')"
  by (simp add: AList.delete_conv')

lemma distinct_keys_update [inv_intros]: "distinct (keys d) \<Longrightarrow> distinct (keys (AList.update k v d))"
  by (rule AList.distinct_update)

lemma distinct_keys_delete [inv_intros]: "distinct (keys d) \<Longrightarrow> distinct (keys (AList.delete k d))"
  by (rule AList.distinct_delete)

lemma update_new: "k \<notin> set (keys d) \<Longrightarrow> AList.update k v d = d @ [(k, v)]"
  by (induction d) auto

lemma mem_update:
  "(k', v') \<in> set (AList.update k v d) \<Longrightarrow> (k', v') = (k, v) \<or> (k', v') \<in> set d"
  by (induction d) (auto split: if_splits)

lemma mem_delete: "(k', v') \<in> set (AList.delete k d) \<Longrightarrow> (k', v') \<in> set d \<and> k' \<noteq> k"
  by (induction d) (auto split: if_splits)

lemma map_of_split:
  assumes "map_of d k = Some v"
  obtains xs ys where "d = xs @ (k, v) # ys" "k \<notin> set (keys xs)"
  using assms
proof (induction d arbitrary: thesis)
  case Nil
  then show ?case by simp
next
  case (Cons a d)
  obtain k' v' where a: "a = (k', v')" by (cases a)
  show ?case
  proof (cases "k' = k")
    case True
    with Cons.prems a show ?thesis by (intro Cons.prems(1) [of "[]" d]) auto
  next
    case False
    with Cons.prems(2) a have "map_of d k = Some v" by simp
    then obtain xs ys where "d = xs @ (k, v) # ys" "k \<notin> set (keys xs)" by (rule Cons.IH [rotated])
    with a False show ?thesis by (intro Cons.prems(1) [of "a # xs" ys]) auto
  qed
qed

lemma delete_split:
  assumes "distinct (keys (xs @ (k, v) # ys))"
  shows "AList.delete k (xs @ (k, v) # ys) = xs @ ys"
  using assms by (induction xs) (auto simp: AList.delete_id split: prod.splits)

section \<open>Exceptions\<close>

text \<open>The exceptions the modelled code raises, by class; messages are not kept.\<close>

datatype exn =
    ValueError
  | TypeError
  | KeyError
  | IndexError
  | AssertionError
  | RuntimeError
  | ValidationError
  | ServiceUnavailableError
  | NotFoundError
  | BinanceException
  | DatabaseError
  | AttributeError
  | WebSocketDisconnect
  | ConfigurationError

lemma map_sum_Inr_cases:
  assumes "map_sum f g r = Inr y"
  obtains x where "r = Inr x" "y = g x"
  using assms by (cases r) auto

section \<open>Runs of a state machine\<close>

locale invariant_run =
  fixes step :: "'s \<Rightarrow> 'e \<Rightarrow> 's" and inv :: "'s \<Rightarrow> bool"
  assumes step_inv: "inv s \<Longrightarrow> inv (step s e)"
begin

lemma run_inv: "inv s \<Longrightarrow> inv (foldl step s es)"
  by (induction es arbitrary: s) (auto intro: step_inv)

lemma prefix_inv: "inv s \<Longrightarrow> inv (foldl step s (take n es))"
  by (rule run_inv)

end

end
