(* ===== verification/Rounding.thy ===== *)
theory Rounding
  imports Prelude
begin

text \<open>
  Python's two kinds of fractional numbers. A \<open>decimal.Decimal\<close> operation computes the
  exact result and rounds it to the context precision, 28 significant digits, half to even
  (the code never changes the default context). A \<open>float\<close> operation does the same with 53
  significant bits. Both are one function here, \<open>rnd b p\<close>, on exact rationals: base
  \<open>b\<close>, \<open>p\<close> significant digits, exponent unbounded (the limits of the exponent range,
  10 to the 999999 and 2 to the 1023, are not modelled). The locale \<open>rounding\<close> names what
  the components rely on; it is interpreted for both formats at the end of the theory.
\<close>

section \<open>The order of magnitude of a positive rational\<close>

lemma nat_floor_div_less:
  fixes y :: rat
  assumes "1 \<le> y" "2 \<le> b"
  shows "nat \<lfloor>y / of_nat b\<rfloor> < nat \<lfloor>y\<rfloor>"
proof -
  have "y / of_nat b \<le> y / 2"
    using assms by (intro divide_left_mono) auto
  then have "\<lfloor>y / of_nat b\<rfloor> \<le> \<lfloor>y / 2\<rfloor>"
    by (rule floor_mono)
  moreover have "\<lfloor>y / 2\<rfloor> < \<lfloor>y\<rfloor>"
  proof -
    have "(1::rat) \<le> of_int \<lfloor>y\<rfloor>" "y < of_int \<lfloor>y\<rfloor> + 1"
      using assms(1) floor_correct [of y] by (simp_all del: floor_correct)
    then have "y / 2 < of_int \<lfloor>y\<rfloor>" by linarith
    then show ?thesis by (simp add: floor_less_iff)
  qed
  moreover have "1 \<le> \<lfloor>y\<rfloor>"
    using assms(1) by simp
  ultimately show ?thesis by linarith
qed

function ilog :: "nat \<Rightarrow> rat \<Rightarrow> int" where
  "ilog b x =
     (if b < 2 \<or> x \<le> 0 then 0
      else if x < 1 then ilog b (x * of_nat b) - 1
      else if x \<ge> of_nat b then ilog b (x / of_nat b) + 1
      else 0)"
  by pat_completeness auto

termination
proof (relation "measure (\<lambda>(b, x). if x < 1 then nat \<lfloor>1 / x\<rfloor> else if x \<ge> of_nat b then nat \<lfloor>x\<rfloor> else 0)", goal_cases)
  case 1
  show ?case by simp
next
  case (2 b x)
  then have b: "2 \<le> b" and x: "0 < x" "x < 1" by auto
  have inv: "1 \<le> 1 / x" using x by (simp add: field_simps)
  have "1 \<le> \<lfloor>1 / x\<rfloor>" using inv by simp
  moreover have "nat \<lfloor>1 / (x * of_nat b)\<rfloor> < nat \<lfloor>1 / x\<rfloor>"
    using nat_floor_div_less [OF inv b] by (simp add: field_simps)
  moreover have "\<not> of_nat b \<le> x * of_nat b"
    using x b by (simp add: not_le)
  ultimately show ?case using x by auto
next
  case (3 b x)
  then have b: "2 \<le> b" and x: "of_nat b \<le> x" by auto
  have "(2::rat) \<le> of_nat b"
    using b by (metis of_nat_le_iff of_nat_numeral)
  with x have x1: "1 \<le> x" by linarith
  have "1 \<le> x / of_nat b" using x b by simp
  moreover have "nat \<lfloor>x / of_nat b\<rfloor> < nat \<lfloor>x\<rfloor>" by (rule nat_floor_div_less [OF x1 b])
  ultimately show ?case using x x1 by auto
qed

declare ilog.simps [simp del]

lemma ilog_bounds:
  assumes "2 \<le> b" "0 < x"
  shows "of_nat b powi ilog b x \<le> x \<and> x < of_nat b powi (ilog b x + 1)"
  using assms
proof (induction b x rule: ilog.induct)
  case (1 b x)
  then have b: "(0::rat) < of_nat b" by auto
  show ?case
  proof (cases "x < 1")
    case True
    define k where "k = ilog b (x * of_nat b)"
    have e: "ilog b x = k - 1"
      using True "1.prems" by (subst ilog.simps) (simp add: k_def)
    have "of_nat b powi k \<le> x * of_nat b \<and> x * of_nat b < of_nat b powi (k + 1)"
      unfolding k_def using "1.prems" True b by (intro "1.IH"(1)) auto
    moreover have "of_nat b powi k = of_nat b powi (k - 1) * (of_nat b::rat)"
      using b power_int_add_1 [of "of_nat b::rat" "k - 1"] by simp
    moreover have "of_nat b powi (k + 1) = of_nat b powi k * (of_nat b::rat)"
      using b power_int_add_1 [of "of_nat b::rat" k] by simp
    ultimately show ?thesis using b by (simp add: e)
  next
    case False
    show ?thesis
    proof (cases "of_nat b \<le> x")
      case True
      define k where "k = ilog b (x / of_nat b)"
      have e: "ilog b x = k + 1"
        using True False "1.prems" by (subst ilog.simps) (simp add: k_def)
      have "of_nat b powi k \<le> x / of_nat b \<and> x / of_nat b < of_nat b powi (k + 1)"
        unfolding k_def using "1.prems" True False b by (intro "1.IH"(2)) auto
      moreover have "of_nat b powi (k + 1) = of_nat b powi k * (of_nat b::rat)"
        using b power_int_add_1 [of "of_nat b::rat" k] by simp
      moreover have "of_nat b powi (k + 1 + 1) = of_nat b powi (k + 1) * (of_nat b::rat)"
        using b power_int_add_1 [of "of_nat b::rat" "k + 1"] by simp
      ultimately show ?thesis using b by (simp add: e field_simps)
    next
      assume n: "\<not> of_nat b \<le> x"
      have "ilog b x = 0"
        using n False "1.prems" by (subst ilog.simps) simp
      with n False show ?thesis by simp
    qed
  qed
qed

lemma ilog_less:
  assumes "2 \<le> b" "0 < x" "x < of_nat b powi k"
  shows "ilog b x < k"
proof -
  have "of_nat b powi ilog b x < (of_nat b::rat) powi k"
    using ilog_bounds [OF assms(1,2)] assms(3) by linarith
  then show ?thesis
    using assms(1) power_int_le_imp_less_exp [of "of_nat b::rat" "ilog b x" k]
    by (cases "k \<le> ilog b x") (auto dest: power_int_increasing [of k _ "of_nat b::rat"])
qed

lemma ilog_ge:
  assumes "2 \<le> b" "of_nat b powi k \<le> x"
  shows "k \<le> ilog b x"
proof (rule ccontr)
  assume "\<not> k \<le> ilog b x"
  then have "ilog b x + 1 \<le> k" by simp
  then have "of_nat b powi (ilog b x + 1) \<le> (of_nat b::rat) powi k"
    using assms(1) by (intro power_int_increasing) auto
  moreover have "0 < x"
    using assms by (meson le_less_trans less_le_trans of_nat_0_less_iff zero_less_numeral
        zero_less_power_int order_less_le_trans zero_less_iff_neq_zero not_numeral_le_zero)
  ultimately show False
    using ilog_bounds [OF assms(1), of x] assms(2) by linarith
qed

lemma ilog_mono: "2 \<le> b \<Longrightarrow> 0 < x \<Longrightarrow> x \<le> y \<Longrightarrow> ilog b x \<le> ilog b y"
  using ilog_bounds [of b x] by (intro ilog_ge) auto

section \<open>Round half to even\<close>

definition rhe :: "rat \<Rightarrow> int" where
  "rhe q = (let f = \<lfloor>q\<rfloor>; r = q - of_int f in
     if r < 1 / 2 then f else if 1 / 2 < r then f + 1 else if even f then f else f + 1)"

lemma rhe_of_int [simp]: "rhe (of_int n) = n"
  by (simp add: rhe_def)

lemma rhe_near: "of_int (rhe q) \<le> q + 1 / 2 \<and> q - 1 / 2 \<le> of_int (rhe q)"
  using of_int_floor_le [of q] floor_correct [of q, THEN conjunct2]
  by (auto simp: rhe_def Let_def field_simps simp del: of_int_floor_le)

lemma rhe_between:
  assumes "of_int m \<le> q"
  shows "m \<le> rhe q"
proof -
  have "m \<le> \<lfloor>q\<rfloor>" using assms by (simp add: le_floor_iff)
  then show ?thesis by (auto simp: rhe_def Let_def)
qed

lemma rhe_mono:
  assumes "q \<le> r"
  shows "rhe q \<le> rhe r"
proof (cases "\<lfloor>q\<rfloor> = \<lfloor>r\<rfloor>")
  case True
  with assms show ?thesis by (auto simp: rhe_def Let_def)
next
  case False
  with assms have "\<lfloor>q\<rfloor> + 1 \<le> \<lfloor>r\<rfloor>" using floor_mono [OF assms] by linarith
  moreover have "rhe q \<le> \<lfloor>q\<rfloor> + 1" by (auto simp: rhe_def Let_def)
  moreover have "\<lfloor>r\<rfloor> \<le> rhe r" by (auto simp: rhe_def Let_def)
  ultimately show ?thesis by linarith
qed

lemma rhe_minus: "rhe (- q) = - rhe q"
proof (cases "q = of_int \<lfloor>q\<rfloor>")
  case True
  then show ?thesis by (metis of_int_minus rhe_of_int)
next
  case False
  then have "of_int \<lfloor>q\<rfloor> < q" using of_int_floor_le [of q] by linarith
  then have "\<lfloor>- q\<rfloor> = - \<lfloor>q\<rfloor> - 1"
    using floor_correct [of q] by (intro floor_unique) (auto simp del: floor_correct)
  then show ?thesis by (auto simp: rhe_def Let_def field_simps; presburger)
qed

section \<open>Rounding to \<open>p\<close> significant digits\<close>

definition rnd_exp :: "nat \<Rightarrow> nat \<Rightarrow> rat \<Rightarrow> int" where
  "rnd_exp b p x = ilog b \<bar>x\<bar> - (int p - 1)"

definition rnd :: "nat \<Rightarrow> nat \<Rightarrow> rat \<Rightarrow> rat" where
  "rnd b p x = (if x = 0 then 0
     else of_int (rhe (x / of_nat b powi rnd_exp b p x)) * of_nat b powi rnd_exp b p x)"

lemma rnd_zero [simp]: "rnd b p 0 = 0"
  by (simp add: rnd_def)

lemma rnd_minus: "rnd b p (- x) = - rnd b p x"
  by (simp add: rnd_def rnd_exp_def rhe_minus)

text \<open>A value \<open>m * b^k\<close> with at most \<open>p\<close> digits in \<open>m\<close> is left alone.\<close>

lemma rnd_exact:
  assumes b: "2 \<le> b" and x: "x = of_int m * of_nat b powi k" and m: "\<bar>m\<bar> < int b ^ p"
  shows "rnd b p x = x"
proof (cases "x = 0")
  case False
  have bp: "(0::rat) < of_nat b powi k" using b by simp
  have "\<bar>x\<bar> = of_int \<bar>m\<bar> * of_nat b powi k" using bp by (simp add: x abs_mult)
  moreover have "(of_int \<bar>m\<bar>::rat) < of_nat b ^ p"
    using m by (metis of_int_less_iff of_int_of_nat_eq of_int_power)
  ultimately have "\<bar>x\<bar> < of_nat b ^ p * of_nat b powi k" using bp by simp
  then have "\<bar>x\<bar> < of_nat b powi (int p + k)" using b by (simp add: power_int_add)
  then have "ilog b \<bar>x\<bar> < int p + k" using False b by (intro ilog_less) auto
  then have e: "rnd_exp b p x \<le> k" by (simp add: rnd_exp_def)
  define d where "d = nat (k - rnd_exp b p x)"
  define E where "E = (of_nat b powi rnd_exp b p x :: rat)"
  have E: "E \<noteq> 0" using b by (simp add: E_def)
  have "of_nat b powi k = E * of_nat b ^ d"
    using e b power_int_add [of "of_nat b::rat" "rnd_exp b p x" "int d"]
    by (simp add: d_def E_def power_int_nonneg_exp)
  then have "x = of_int m * (E * of_nat b ^ d)" by (simp add: x)
  then have "x / E = of_int (m * int b ^ d)" using E by (simp add: field_simps)
  moreover have "rnd b p x = of_int (rhe (x / E)) * E" using False by (simp add: rnd_def E_def)
  ultimately show ?thesis using E by (metis nonzero_eq_divide_eq rhe_of_int)
qed simp

lemma rnd_digits:
  assumes b: "2 \<le> b" and x: "x \<noteq> 0"
  shows "\<bar>rhe (x / of_nat b powi rnd_exp b p x)\<bar> \<le> int b ^ p"
proof -
  let ?e = "rnd_exp b p x"
  have "\<bar>x\<bar> < of_nat b powi (ilog b \<bar>x\<bar> + 1)" using ilog_bounds [OF b, of "\<bar>x\<bar>"] x by simp
  also have "ilog b \<bar>x\<bar> + 1 = int p + ?e" by (simp add: rnd_exp_def)
  also have "of_nat b powi (int p + ?e) = of_nat b ^ p * (of_nat b powi ?e :: rat)"
    using b by (simp add: power_int_add)
  finally have "\<bar>x / of_nat b powi ?e\<bar> < of_nat b ^ p" using b by (simp add: field_simps)
  then have "x / of_nat b powi ?e < of_nat b ^ p \<and> - (x / of_nat b powi ?e) < of_nat b ^ p"
    by (simp only: abs_less_iff)
  then have "x / of_nat b powi ?e \<le> of_int (int b ^ p)" "of_int (- (int b ^ p)) \<le> x / of_nat b powi ?e"
    by simp_all
  then have "rhe (x / of_nat b powi ?e) \<le> int b ^ p" "- (int b ^ p) \<le> rhe (x / of_nat b powi ?e)"
    using rhe_mono rhe_of_int by metis+
  then show ?thesis by linarith
qed

lemma rnd_idem:
  assumes b: "2 \<le> b" and p: "1 \<le> p"
  shows "rnd b p (rnd b p x) = rnd b p x"
proof (cases "x = 0")
  case False
  let ?e = "rnd_exp b p x" and ?m = "rhe (x / of_nat b powi rnd_exp b p x)"
  have v: "rnd b p x = of_int ?m * of_nat b powi ?e" using False by (simp add: rnd_def)
  show ?thesis
  proof (cases "\<bar>?m\<bar> = int b ^ p")
    case True
    have "?m = sgn ?m * int b ^ p" using True by (metis abs_mult_sgn mult.commute)
    then have "(of_int ?m :: rat) = of_int (sgn ?m) * of_nat b ^ p"
      by (metis of_int_mult of_int_of_nat_eq of_int_power)
    then have "of_int ?m * of_nat b powi ?e = (of_int (sgn ?m) * of_nat b powi (int p + ?e) :: rat)"
      using b by (simp add: power_int_add)
    moreover have "\<bar>sgn ?m\<bar> < int b ^ p"
      using b p by (auto simp: sgn_if intro: one_less_power)
    ultimately show ?thesis unfolding v by (metis rnd_exact [OF b])
  next
    case False
    then show ?thesis unfolding v using rnd_digits [OF b \<open>x \<noteq> 0\<close>, of p] by (intro rnd_exact [OF b refl]) simp
  qed
qed simp

lemma rnd_lower:
  assumes b: "2 \<le> b" and p: "1 \<le> p" and x: "0 < x"
  shows "of_nat b powi (int p - 1 + rnd_exp b p x) \<le> rnd b p x"
proof -
  let ?E = "of_nat b powi rnd_exp b p x :: rat"
  have E: "0 < ?E" using b by simp
  have s: "of_nat b powi (int p - 1 + rnd_exp b p x) = of_nat b ^ (p - 1) * ?E"
    using b p power_int_add [of "of_nat b::rat" "int p - 1" "rnd_exp b p x"]
      power_int_of_nat [of "of_nat b::rat" "p - 1"]
    by (simp add: of_nat_diff del: power_int_of_nat)
  have "of_nat b powi (int p - 1 + rnd_exp b p x) \<le> x"
    using ilog_bounds [OF b x] x by (simp add: rnd_exp_def)
  then have "of_nat b ^ (p - 1) * ?E \<le> x" by (simp only: s)
  then have "of_int (int b ^ (p - 1)) \<le> x / ?E" by (simp add: pos_le_divide_eq [OF E])
  then have "int b ^ (p - 1) \<le> rhe (x / ?E)" by (rule rhe_between)
  then have "(of_nat b :: rat) ^ (p - 1) \<le> of_int (rhe (x / ?E))"
    by (metis of_int_le_iff of_int_of_nat_eq of_int_power)
  then show ?thesis using E x by (simp add: rnd_def s)
qed

lemma rnd_pos: "2 \<le> b \<Longrightarrow> 1 \<le> p \<Longrightarrow> 0 < x \<Longrightarrow> 0 < rnd b p x"
  using rnd_lower [of b p x] by (rule less_le_trans [rotated]) simp_all

lemma rnd_mono_pos:
  assumes b: "2 \<le> b" and p: "1 \<le> p" and x: "0 < x" and xy: "x \<le> y"
  shows "rnd b p x \<le> rnd b p y"
proof (cases "rnd_exp b p x = rnd_exp b p y")
  case True
  let ?E = "of_nat b powi rnd_exp b p x :: rat"
  have E: "0 < ?E" using b by simp
  have "x / ?E \<le> y / ?E" using E xy by (simp add: divide_right_mono)
  then have "(of_int (rhe (x / ?E)) :: rat) \<le> of_int (rhe (y / ?E))" by (simp add: rhe_mono)
  with E x xy True show ?thesis by (simp add: rnd_def)
next
  case False
  have "rnd_exp b p x \<le> rnd_exp b p y"
    using ilog_mono [OF b x xy] x xy by (simp add: rnd_exp_def)
  with False have e: "int p + rnd_exp b p x \<le> int p - 1 + rnd_exp b p y" by simp
  have "rhe (x / of_nat b powi rnd_exp b p x) \<le> int b ^ p"
    using rnd_digits [OF b, of x p] x by linarith
  then have "(of_int (rhe (x / of_nat b powi rnd_exp b p x)) :: rat) \<le> of_nat b ^ p"
    by (metis of_int_le_iff of_int_of_nat_eq of_int_power)
  then have "rnd b p x \<le> of_nat b ^ p * of_nat b powi rnd_exp b p x"
    using b x by (simp add: rnd_def)
  also have "\<dots> = of_nat b powi (int p + rnd_exp b p x)"
    using b by (simp add: power_int_add)
  also have "\<dots> \<le> of_nat b powi (int p - 1 + rnd_exp b p y)"
    using b e by (intro power_int_increasing) auto
  also have "\<dots> \<le> rnd b p y" using b p x xy by (intro rnd_lower) auto
  finally show ?thesis .
qed

lemma rnd_mono:
  assumes b: "2 \<le> b" and p: "1 \<le> p" and xy: "x \<le> y"
  shows "rnd b p x \<le> rnd b p y"
proof -
  consider "0 < x" | "x \<le> 0" "0 \<le> y" | "y < 0" using xy by linarith
  then show ?thesis
  proof cases
    case 1
    with assms show ?thesis by (intro rnd_mono_pos)
  next
    case 2
    have "rnd b p x \<le> 0"
      using 2 rnd_pos [OF b p, of "- x"] by (cases "x = 0") (auto simp: rnd_minus)
    moreover have "0 \<le> rnd b p y"
      using 2 rnd_pos [OF b p, of y] by (cases "y = 0") auto
    ultimately show ?thesis by simp
  next
    case 3
    with assms have "rnd b p (- y) \<le> rnd b p (- x)" by (intro rnd_mono_pos) auto
    then show ?thesis by (simp add: rnd_minus)
  qed
qed

text \<open>The relative error of one operation: half a unit in the last of \<open>p\<close> digits.\<close>

lemma rnd_error:
  assumes b: "2 \<le> b"
  shows "\<bar>rnd b p x - x\<bar> \<le> \<bar>x\<bar> * (of_nat b powi (1 - int p) / 2)"
proof (cases "x = 0")
  case False
  let ?E = "of_nat b powi rnd_exp b p x :: rat"
  have E: "0 < ?E" using b by simp
  have "rnd b p x - x = (of_int (rhe (x / ?E)) - x / ?E) * ?E"
    using E False nonzero_eq_divide_eq [of ?E "x / ?E" x]
    by (simp add: rnd_def left_diff_distrib del: power_int_eq_0_iff)
  moreover have "\<bar>of_int (rhe (x / ?E)) - x / ?E\<bar> \<le> 1 / 2" using rhe_near [of "x / ?E"] by linarith
  ultimately have "\<bar>rnd b p x - x\<bar> \<le> 1 / 2 * ?E"
    using E by (simp only: abs_mult abs_of_pos) (intro mult_right_mono; simp)
  moreover have "?E \<le> \<bar>x\<bar> * of_nat b powi (1 - int p)"
  proof -
    have "rnd_exp b p x = ilog b \<bar>x\<bar> + (1 - int p)" by (simp add: rnd_exp_def)
    then have "?E = of_nat b powi ilog b \<bar>x\<bar> * of_nat b powi (1 - int p)"
      using b power_int_add [of "of_nat b::rat" "ilog b \<bar>x\<bar>" "1 - int p"] by simp
    moreover have "of_nat b powi ilog b \<bar>x\<bar> \<le> \<bar>x\<bar>"
      using ilog_bounds [OF b, of "\<bar>x\<bar>"] False by simp
    ultimately show ?thesis by (simp add: mult_right_mono)
  qed
  ultimately show ?thesis by linarith
qed simp

text \<open>Scaling by a power of the base commutes with rounding.\<close>

lemma ilog_scale:
  assumes "2 \<le> b" "0 < x"
  shows "ilog b (x * of_nat b powi k) = ilog b x + k"
proof -
  have p: "(0::rat) < of_nat b powi k" using assms by simp
  have e: "of_nat b powi (ilog b x + k) = of_nat b powi ilog b x * (of_nat b powi k :: rat)"
    "of_nat b powi (ilog b x + k + 1) = of_nat b powi (ilog b x + 1) * (of_nat b powi k :: rat)"
    using assms(1) power_int_add [of "of_nat b::rat" "ilog b x" k]
      power_int_add [of "of_nat b::rat" "ilog b x + 1" k] by (simp_all add: add_ac)
  have "ilog b x + k \<le> ilog b (x * of_nat b powi k)"
    using assms p ilog_bounds [OF assms] by (intro ilog_ge) (auto simp: e)
  moreover have "ilog b (x * of_nat b powi k) < ilog b x + k + 1"
    using assms p ilog_bounds [OF assms] by (intro ilog_less) (auto simp: e)
  ultimately show ?thesis by simp
qed

lemma rnd_scale:
  assumes "2 \<le> b"
  shows "rnd b p (x * of_nat b powi k) = rnd b p x * of_nat b powi k"
proof (cases "x = 0")
  case False
  have n: "(of_nat b powi k :: rat) \<noteq> 0" using assms by simp
  have "\<bar>x * of_nat b powi k\<bar> = \<bar>x\<bar> * of_nat b powi k" by (simp add: abs_mult)
  then have e: "rnd_exp b p (x * of_nat b powi k) = rnd_exp b p x + k"
    using False assms ilog_scale [of b "\<bar>x\<bar>" k] by (simp add: rnd_exp_def)
  have "(of_nat b powi (rnd_exp b p x + k) :: rat) = of_nat b powi rnd_exp b p x * of_nat b powi k"
    using assms by (simp add: power_int_add)
  with e False n show ?thesis by (simp add: rnd_def)
qed simp

section \<open>What the components rely on\<close>

text \<open>
  Nothing in the components' proofs looks inside \<open>rnd\<close>: they use that rounding is
  monotone, leaves representable values alone, and commutes with the sign. This is the
  interface, proved once and interpreted for \<open>Decimal\<close> and for \<open>float\<close>.
\<close>

locale rounding =
  fixes rd :: "rat \<Rightarrow> rat"
  assumes rd_mono: "x \<le> y \<Longrightarrow> rd x \<le> rd y"
    and rd_idem: "rd (rd x) = rd x"
    and rd_minus: "rd (- x) = - rd x"
    and rd_pos: "0 < x \<Longrightarrow> 0 < rd x"
    and rd_one: "rd 1 = 1"
begin

lemma rd_zero: "rd 0 = 0"
  using rd_minus [of 0] by simp

lemma rd_nonneg: "0 \<le> x \<Longrightarrow> 0 \<le> rd x"
  using rd_mono [of 0 x] by (simp add: rd_zero)

lemma rd_nonpos: "x \<le> 0 \<Longrightarrow> rd x \<le> 0"
  using rd_mono [of x 0] by (simp add: rd_zero)

lemma rd_pos_iff: "0 < rd x \<longleftrightarrow> 0 < x"
  using rd_pos rd_nonpos by (meson not_less)

lemma rd_nonpos_iff: "rd x \<le> 0 \<longleftrightarrow> x \<le> 0"
  using rd_pos_iff by (meson not_less)

lemma rd_neg_iff: "rd x < 0 \<longleftrightarrow> x < 0"
  using rd_pos_iff [of "- x"] by (simp add: rd_minus)

lemma rd_nonneg_iff: "0 \<le> rd x \<longleftrightarrow> 0 \<le> x"
  using rd_neg_iff by (meson not_less)

lemma rd_zero_iff: "rd x = 0 \<longleftrightarrow> x = 0"
  using rd_pos_iff [of x] rd_neg_iff [of x] by (cases x "0::rat" rule: linorder_cases) auto

lemmas rd_signs = rd_zero rd_pos_iff rd_nonpos_iff rd_neg_iff rd_nonneg_iff rd_zero_iff

text \<open>A representable bound survives rounding.\<close>

lemma rd_le: "x \<le> y \<Longrightarrow> rd y = y \<Longrightarrow> rd x \<le> y"
  using rd_mono by metis

lemma rd_ge: "y \<le> x \<Longrightarrow> rd y = y \<Longrightarrow> y \<le> rd x"
  using rd_mono by metis

lemma rd_abs: "\<bar>rd x\<bar> = rd \<bar>x\<bar>"
  by (cases "0 \<le> x") (auto simp: rd_minus rd_nonneg_iff rd_nonpos)

lemma rd_abs_le: "\<bar>x\<bar> \<le> y \<Longrightarrow> rd y = y \<Longrightarrow> \<bar>rd x\<bar> \<le> y"
  unfolding rd_abs by (rule rd_le)

lemma rd_le_one: "x \<le> 1 \<Longrightarrow> rd x \<le> 1"
  by (rule rd_le) (simp_all add: rd_one)

lemma rd_ge_minus_one: "- 1 \<le> x \<Longrightarrow> - 1 \<le> rd x"
  by (rule rd_ge) (simp_all add: rd_one rd_minus)

lemma rd_mult_frac: "0 \<le> s \<Longrightarrow> s \<le> 1 \<Longrightarrow> 0 \<le> w \<Longrightarrow> rd w = w \<Longrightarrow> rd (s * w) \<le> w"
  by (rule rd_le) (auto intro: mult_left_le_one_le)

lemma rd_ratio: "0 \<le> a \<Longrightarrow> a \<le> b \<Longrightarrow> 0 \<le> rd (a / b) \<and> rd (a / b) \<le> 1"
  by (auto simp: rd_nonneg_iff divide_le_eq_1 intro!: rd_le_one)

end

section \<open>Decimal and float\<close>

definition dec :: "rat \<Rightarrow> rat" where
  "dec = rnd 10 28"

definition flt :: "rat \<Rightarrow> rat" where
  "flt = rnd 2 53"

lemma rnd_one: "2 \<le> b \<Longrightarrow> 1 \<le> p \<Longrightarrow> rnd b p 1 = 1"
  by (rule rnd_exact [of b 1 1 0]) (auto intro: one_less_power)

interpretation dec: rounding dec
  by unfold_locales (auto simp: dec_def rnd_mono rnd_idem rnd_minus rnd_pos rnd_one)

interpretation flt: rounding flt
  by unfold_locales (auto simp: flt_def rnd_mono rnd_idem rnd_minus rnd_pos rnd_one)

declare dec.rd_zero [simp] dec.rd_one [simp] dec.rd_idem [simp]
declare flt.rd_zero [simp] flt.rd_one [simp] flt.rd_idem [simp]

lemma dec_error: "\<bar>dec x - x\<bar> \<le> \<bar>x\<bar> / (2 * 10 ^ 27)"
proof -
  have "(of_nat 10 :: rat) powi (1 - int 28) = 1 / 10 ^ 27"
    by (simp add: power_int_def power_one_over)
  then show ?thesis using rnd_error [of 10 28 x] by (simp add: dec_def)
qed

lemma dec_scale: "dec (x * 10 powi k) = dec x * 10 powi k"
  using rnd_scale [of 10 28 x k] by (simp add: dec_def)

text \<open>The same bounds for a non-negative value, as upper and lower estimates.\<close>

definition ulp28 :: rat where
  "ulp28 = 1 / (2 * 10 ^ 27)"

lemma dec_near: "0 \<le> x \<Longrightarrow> \<bar>dec x - x\<bar> \<le> x * ulp28"
  using dec_error [of x] by (simp add: ulp28_def)

lemma dec_upper: "0 \<le> x \<Longrightarrow> dec x \<le> x * (1 + ulp28)"
  using abs_le_D1 [OF dec_near, of x] by (simp add: distrib_left)

lemma dec_lower: "0 \<le> x \<Longrightarrow> x * (1 - ulp28) \<le> dec x"
  using abs_le_D2 [OF dec_near, of x] by (simp add: right_diff_distrib)

lemma ulp28_pos [simp]: "0 < ulp28" "0 \<le> ulp28"
  by (simp_all add: ulp28_def)

lemma dec_upper_le: "0 \<le> x \<Longrightarrow> x \<le> y \<Longrightarrow> dec x \<le> y * (1 + ulp28)"
  using dec_upper [of x] mult_right_mono [of x y "1 + ulp28"] by simp

text \<open>
  One more operation on a value known to \<open>k\<close> units: the errors of a chain of operations on
  amounts of size at most \<open>j\<close> times \<open>m\<close> add up.
\<close>

lemma dec_step:
  assumes x: "\<bar>x - y\<bar> \<le> k * (m * ulp28)" and y: "\<bar>y\<bar> \<le> j * m" and k: "k \<le> 10 ^ 20" "0 \<le> m"
  shows "\<bar>dec x - y\<bar> \<le> (k + j + 1) * (m * ulp28)"
proof -
  have "\<bar>dec x - x\<bar> \<le> \<bar>x\<bar> * ulp28" using dec_error [of x] by (simp add: ulp28_def)
  moreover have "\<bar>x\<bar> * ulp28 \<le> (k * (m * ulp28) + j * m) * ulp28"
    using x y by (intro mult_right_mono) (auto simp: abs_le_iff)
  moreover have "k * ulp28 * (m * ulp28) \<le> 1 * (m * ulp28)"
    using k by (intro mult_right_mono) (simp_all add: ulp28_def)
  moreover have "(k * (m * ulp28) + j * m) * ulp28 = k * ulp28 * (m * ulp28) + j * (m * ulp28)"
    by (simp add: algebra_simps)
  moreover have "(k + j + 1) * (m * ulp28) = k * (m * ulp28) + j * (m * ulp28) + 1 * (m * ulp28)"
    by (simp add: distrib_right)
  ultimately show ?thesis using x unfolding abs_le_iff by linarith
qed

text \<open>A representable value of more than 28 digits before the point is an integer.\<close>

lemma dec_floor:
  assumes "0 \<le> y" "dec y = y"
  shows "dec (of_int \<lfloor>y\<rfloor>) = of_int \<lfloor>y\<rfloor>"
proof (cases "y < 10 ^ 28")
  case True
  then have "\<lfloor>y\<rfloor> < 10 ^ 28" by (simp add: floor_less_iff)
  moreover have "0 \<le> \<lfloor>y\<rfloor>" using assms(1) by simp
  ultimately have "\<bar>\<lfloor>y\<rfloor>\<bar> < int 10 ^ 28" by (simp add: abs_of_nonneg)
  then show ?thesis unfolding dec_def by (intro rnd_exact [where k = 0]) simp_all
next
  case False
  have "(of_nat 10 :: rat) powi 28 = 10 ^ 28" by (simp add: power_int_def)
  then have "28 \<le> ilog 10 y" using False by (intro ilog_ge) simp_all
  then have e: "0 \<le> rnd_exp 10 28 y" using assms(1) by (simp add: rnd_exp_def)
  have "y \<noteq> 0" using False by auto
  then have "y = of_int (rhe (y / of_nat 10 powi rnd_exp 10 28 y)) * of_nat 10 powi rnd_exp 10 28 y"
    using assms(2) by (simp add: dec_def rnd_def)
  also have "\<dots> = of_int (rhe (y / of_nat 10 powi rnd_exp 10 28 y) * 10 ^ nat (rnd_exp 10 28 y))"
    using e by (simp add: power_int_nonneg_exp)
  finally have "of_int \<lfloor>y\<rfloor> = y" by (metis floor_of_int)
  then show ?thesis by (simp only: assms(2))
qed

definition dadd :: "rat \<Rightarrow> rat \<Rightarrow> rat" where "dadd a b = dec (a + b)"
definition dsub :: "rat \<Rightarrow> rat \<Rightarrow> rat" where "dsub a b = dec (a - b)"
definition dmul :: "rat \<Rightarrow> rat \<Rightarrow> rat" where "dmul a b = dec (a * b)"
definition ddiv :: "rat \<Rightarrow> rat \<Rightarrow> rat" where "ddiv a b = dec (a / b)"
definition dneg :: "rat \<Rightarrow> rat" where "dneg a = dec (- a)"
definition dabs :: "rat \<Rightarrow> rat" where "dabs a = dec \<bar>a\<bar>"

definition fadd :: "rat \<Rightarrow> rat \<Rightarrow> rat" where "fadd a b = flt (a + b)"
definition fsub :: "rat \<Rightarrow> rat \<Rightarrow> rat" where "fsub a b = flt (a - b)"
definition fmul :: "rat \<Rightarrow> rat \<Rightarrow> rat" where "fmul a b = flt (a * b)"
definition fdiv :: "rat \<Rightarrow> rat \<Rightarrow> rat" where "fdiv a b = flt (a / b)"

text \<open>
  \<open>sum(xs, Decimal(0))\<close> and, in Python 3.11, \<open>sum(xs)\<close> over floats: a left fold
  that rounds after every addition.
\<close>

definition dsum :: "rat list \<Rightarrow> rat" where "dsum xs = foldl dadd 0 xs"
definition fsum :: "rat list \<Rightarrow> rat" where "fsum xs = foldl fadd 0 xs"

lemma dsum_snoc: "dsum (xs @ [x]) = dadd (dsum xs) x"
  by (simp add: dsum_def)

lemma dsum_nonneg: "\<forall>x\<in>set xs. 0 \<le> x \<Longrightarrow> 0 \<le> dsum xs"
proof (induction xs rule: rev_induct)
  case (snoc x xs)
  then show ?case by (simp add: dsum_snoc dadd_def dec.rd_nonneg_iff)
qed (simp add: dsum_def)

lemmas dec_ops = dadd_def dsub_def dmul_def ddiv_def dneg_def dabs_def
lemmas flt_ops = fadd_def fsub_def fmul_def fdiv_def

text \<open>Integers below \<open>2^53\<close> are floats, and dividing a count by one loses little.\<close>

lemma flt_int: "\<bar>k\<bar> < 2 ^ 53 \<Longrightarrow> flt (of_int k) = of_int k"
  unfolding flt_def by (rule rnd_exact [where k = 0 and m = k]) simp_all

lemma flt_upper: "0 \<le> x \<Longrightarrow> flt x \<le> x * (1 + 1 / 2 ^ 53)"
proof -
  assume "0 \<le> x"
  have "(of_nat 2 :: rat) powi (1 - int 53) = 1 / 2 ^ 52" by (simp add: power_int_def power_one_over)
  then have "\<bar>flt x - x\<bar> \<le> x * (1 / 2 ^ 53)"
    using rnd_error [of 2 53 x] \<open>0 \<le> x\<close> by (simp add: flt_def)
  then have "flt x - x \<le> x * (1 / 2 ^ 53)" by (rule abs_le_D1 [THEN order_trans, rotated]) simp
  then show ?thesis by (simp add: distrib_left)
qed

text \<open>A value that is an integer multiple of \<open>10^-18\<close> below \<open>10^10\<close> is exact.\<close>

lemma dec_fixed:
  assumes "of_int \<lfloor>x * 10 ^ 18\<rfloor> = x * 10 ^ 18" "\<bar>x\<bar> < 10 ^ 10"
  shows "dec x = x"
proof -
  define m where "m = \<lfloor>x * 10 ^ 18\<rfloor>"
  have m: "of_int m = x * 10 ^ 18" using assms(1) by (simp only: m_def)
  have "\<bar>x * 10 ^ 18\<bar> = \<bar>x\<bar> * 10 ^ 18" by (simp only: abs_mult) simp
  also have "\<dots> < 10 ^ 10 * 10 ^ 18" using assms(2) by (rule mult_strict_right_mono) simp
  finally have "of_int \<bar>m\<bar> < (of_int (int 10 ^ 28) :: rat)" by (simp add: m)
  then have "\<bar>m\<bar> < int 10 ^ 28" by (simp only: of_int_less_iff)
  moreover have "x = of_int m * of_nat 10 powi (- 18)"
  proof -
    have "(of_nat 10 :: rat) powi (- 18) = 1 / 10 ^ 18"
      by (simp add: power_int_def power_one_over)
    then show ?thesis unfolding m by simp
  qed
  ultimately show ?thesis unfolding dec_def by (intro rnd_exact [where k = "- 18"]) simp_all
qed

end
