(* ===== verification/RiskConfig.thy ===== *)
theory RiskConfig
  imports Rounding
begin

text \<open>
  \<open>config/risk_config.py\<close>: the authoritative limits, the constraints pydantic checks when
  the (frozen) model is built, and the default configuration; and
  \<open>binance/exchange_metadata.py\<close>'s \<open>SymbolFilters\<close>, whose \<open>None\<close> means
  "no constraint".
\<close>

record risk_config =
  max_risk_per_trade :: rat
  max_position_size :: rat
  max_asset_exposure :: rat
  max_portfolio_exposure :: rat
  max_simultaneous_positions :: int
  max_daily_loss :: rat
  max_drawdown :: rat
  max_consecutive_losses :: int
  max_slippage :: rat
  spread_protection :: rat
  volatility_protection :: rat
  stale_data_protection_seconds :: int
  api_failure_protection_threshold :: int
  model_health_protection :: bool
  cooldown_period_seconds :: int

text \<open>The \<open>Field\<close> bounds (\<open>gt\<close>, \<open>ge\<close>, \<open>le\<close>) of every field.\<close>

definition fraction :: "rat \<Rightarrow> bool" where
  "fraction x \<longleftrightarrow> 0 < x \<and> x \<le> 1"

definition valid_risk :: "risk_config \<Rightarrow> bool" where
  "valid_risk r \<longleftrightarrow>
     fraction (max_risk_per_trade r) \<and> fraction (max_position_size r) \<and>
     fraction (max_asset_exposure r) \<and> fraction (max_portfolio_exposure r) \<and>
     1 \<le> max_simultaneous_positions r \<and>
     fraction (max_daily_loss r) \<and> fraction (max_drawdown r) \<and>
     1 \<le> max_consecutive_losses r \<and>
     0 \<le> max_slippage r \<and> max_slippage r \<le> 1 \<and>
     0 \<le> spread_protection r \<and> spread_protection r \<le> 1 \<and>
     0 \<le> volatility_protection r \<and>
     1 \<le> stale_data_protection_seconds r \<and>
     1 \<le> api_failure_protection_threshold r \<and>
     0 \<le> cooldown_period_seconds r"

definition DEFAULT_RISK_CONFIG :: risk_config where
  "DEFAULT_RISK_CONFIG = \<lparr>
     max_risk_per_trade = 1 / 100,
     max_position_size = 35 / 100,
     max_asset_exposure = 50 / 100,
     max_portfolio_exposure = 80 / 100,
     max_simultaneous_positions = 1,
     max_daily_loss = 3 / 100,
     max_drawdown = 15 / 100,
     max_consecutive_losses = 4,
     max_slippage = 2 / 1000,
     spread_protection = 1 / 1000,
     volatility_protection = 8 / 100,
     stale_data_protection_seconds = 120,
     api_failure_protection_threshold = 5,
     model_health_protection = True,
     cooldown_period_seconds = 900\<rparr>"

lemma valid_default: "valid_risk DEFAULT_RISK_CONFIG"
  by (simp add: valid_risk_def fraction_def DEFAULT_RISK_CONFIG_def)

record symbol_filters =
  min_price :: "rat option"
  max_price :: "rat option"
  tick_size :: "rat option"
  min_qty :: "rat option"
  max_qty :: "rat option"
  step_size :: "rat option"
  min_notional :: "rat option"
  apply_min_to_market :: bool

text \<open>\<open>SymbolFilters()\<close>: the fallback without exchange metadata, no constraint at all.\<close>

definition no_filters :: symbol_filters where
  "no_filters = \<lparr>min_price = None, max_price = None, tick_size = None, min_qty = None,
     max_qty = None, step_size = None, min_notional = None, apply_min_to_market = True\<rparr>"

end
