(* ===== verification/Enums.thy ===== *)
theory Enums
  imports Prelude
begin

text \<open>
  \<open>models/enums.py\<close>: the domain enumerations, one datatype each, with the source's
  members in the source's order (a prefix keeps members of different classes apart).
\<close>

datatype signal_action = ActBUY | ActSELL | ActEXIT | ActWAIT | NO_VALID_SETUP

datatype risk_decision = APPROVED | REJECTED | PAUSED

datatype order_side = BUY | SELL

datatype order_type = MARKET | LIMIT | STOP_LOSS_LIMIT | TAKE_PROFIT_LIMIT

datatype order_status =
    OrdNEW | OrdPARTIALLY_FILLED | OrdFILLED | OrdCANCELED | OrdREJECTED | OrdEXPIRED

datatype position_status = PosOPEN | PosCLOSING | PosCLOSED

datatype trade_lifecycle_state =
    SCAN | ANALYZE | LcWAIT | SIGNAL | RISK_CHECK | ORDER | FILL | POSITION | MONITOR | LcEXIT
  | CLOSE | COOLDOWN | POST_TRADE_ANALYSIS

datatype market_regime_state =
    TRENDING_BULL | TRENDING_BEAR | RANGING | HIGH_VOLATILITY | LOW_VOLATILITY | CRASH | RECOVERY
  | UNCERTAIN

datatype model_status = CANDIDATE | VALIDATED | PRODUCTION | ARCHIVED | ModREJECTED

datatype job_status = PENDING | JobRUNNING | SUCCEEDED | FAILED | CANCELLED

datatype engine_state = EngRUNNING | EngPAUSED | EMERGENCY_STOP

datatype component_health = ONLINE | OFFLINE | DEGRADED | ERROR | DISABLED | NOT_IMPLEMENTED

datatype signal_component_kind =
    TECHNICAL | PATTERN | REGIME | LIGHTGBM | TRANSFORMER | NEWS | FUNDAMENTAL | LOCAL_LLM | CLAUDE

datatype execution_venue = VenBACKTEST | VenPAPER | VenBINANCE_TESTNET | VenLIVE

datatype trading_mode = ModeBACKTEST | ModePAPER | ModeBINANCE_TESTNET | ModeLIVE

end
