(* ===== verification/Settings.thy ===== *)
theory Settings
  imports RiskConfig Enums
begin

text \<open>
  \<open>config/settings.py\<close>: the sections of the settings with their defaults, the trimming and
  splitting of environment values, and the start-up validation. Defaults written as float
  literals are the nearest float. URLs and directories are in \<open>ServerConfig\<close>.
\<close>

section \<open>Decimal(str(x)) of a float\<close>

text \<open>
  \<open>str\<close> of a float is its shortest decimal that reads back as the same float: the first of
  1 to 17 significant digits whose nearest decimal rounds to it.
\<close>

fun shortest :: "nat list \<Rightarrow> rat \<Rightarrow> rat" where
  "shortest [] x = x"
| "shortest (n # ns) x = (let d = rnd 10 n x in if flt d = x then d else shortest ns x)"

definition decimal_of_float :: "rat \<Rightarrow> rat" where
  "decimal_of_float x = shortest [1, 2, 3, 4, 5, 6, 7, 8, 9, 10, 11, 12, 13, 14, 15, 16, 17] x"

lemma shortest_reads_back: "flt x = x \<Longrightarrow> flt (shortest ns x) = x"
  by (induction ns) (auto simp: Let_def)

lemma shortest_zero: "shortest ns 0 = 0"
  by (induction ns) (auto simp: Let_def rnd_zero)

lemma decimal_of_float_sign: "flt x = x \<Longrightarrow> 0 < decimal_of_float x \<longleftrightarrow> 0 < x"
  using shortest_reads_back [of x] unfolding decimal_of_float_def by (metis flt.rd_pos_iff)

section \<open>Sections\<close>

datatype app_env = EnvDEVELOPMENT | EnvTESTING | EnvPAPER | EnvPRODUCTION

datatype timeframe = D1 | H4 | H1 | M15

record binance_config =
  bn_api_key :: string
  bn_api_secret :: string
  bn_testnet :: bool
  bn_rest_timeout_seconds :: rat
  bn_recv_window_ms :: int
  bn_fallback_request_weight_per_minute :: int
  bn_fallback_orders_per_second :: int
  bn_max_retries :: int
  bn_retry_backoff_seconds :: rat

definition default_binance_config :: binance_config where
  "default_binance_config = \<lparr>bn_api_key = '''', bn_api_secret = '''', bn_testnet = True,
     bn_rest_timeout_seconds = 10, bn_recv_window_ms = 5000,
     bn_fallback_request_weight_per_minute = 1000, bn_fallback_orders_per_second = 5,
     bn_max_retries = 4, bn_retry_backoff_seconds = 2\<rparr>"

definition has_credentials :: "binance_config \<Rightarrow> bool" where
  "has_credentials b \<longleftrightarrow> bn_api_key b \<noteq> '''' \<and> bn_api_secret b \<noteq> ''''"

record trading_config =
  tc_assets :: "string list"
  tc_timeframes :: "timeframe list"
  tc_decision_timeframe :: timeframe
  tc_entry_timeframe :: timeframe
  tc_mode :: trading_mode
  tc_live_trading_enabled :: bool
  tc_minimum_confidence :: rat
  tc_maker_fee :: rat
  tc_taker_fee :: rat

definition default_trading_config :: trading_config where
  "default_trading_config = \<lparr>tc_assets = [''BTCUSDT'', ''ETHUSDT'', ''BNBUSDT''],
     tc_timeframes = [D1, H4, H1, M15], tc_decision_timeframe = H4, tc_entry_timeframe = M15,
     tc_mode = ModePAPER, tc_live_trading_enabled = False, tc_minimum_confidence = flt (62 / 100),
     tc_maker_fee = flt (1 / 1000), tc_taker_fee = flt (1 / 1000)\<rparr>"

record paper_trading_config =
  pt_initial_balance :: rat
  pt_quote_asset :: string
  pt_simulated_latency_ms :: int
  pt_slippage_bps :: rat
  pt_allow_partial_fills :: bool

definition default_paper_config :: paper_trading_config where
  "default_paper_config = \<lparr>pt_initial_balance = 50, pt_quote_asset = ''USDT'',
     pt_simulated_latency_ms = 250, pt_slippage_bps = 5, pt_allow_partial_fills = True\<rparr>"

record backtest_config =
  bt_initial_capital :: rat
  bt_maker_fee :: rat
  bt_taker_fee :: rat
  bt_slippage_bps :: rat
  bt_atr_stop_multiplier :: rat
  bt_atr_reward_multiplier :: rat
  bt_max_bars :: int

definition default_backtest_config :: backtest_config where
  "default_backtest_config = \<lparr>bt_initial_capital = 50, bt_maker_fee = flt (1 / 1000),
     bt_taker_fee = flt (1 / 1000), bt_slippage_bps = 5, bt_atr_stop_multiplier = 3 / 2,
     bt_atr_reward_multiplier = 2, bt_max_bars = 5000\<rparr>"

record scheduler_config =
  sg_enabled :: bool
  sg_interval_seconds :: int

definition default_scheduler_config :: scheduler_config where
  "default_scheduler_config = \<lparr>sg_enabled = True, sg_interval_seconds = 30\<rparr>"

record models_config =
  mc_lightgbm_enabled :: bool
  mc_transformer_enabled :: bool
  mc_ensemble_enabled :: bool
  mc_feature_version :: string
  mc_strategy_version :: string
  mc_label_horizon :: int
  mc_label_threshold :: rat
  mc_train_fraction :: rat
  mc_validation_fraction :: rat
  mc_min_validation_accuracy :: rat
  mc_min_validation_macro_f1 :: rat
  mc_min_training_rows :: int
  mc_technical_component_weight :: rat
  mc_lightgbm_component_weight :: rat
  mc_fusion_min_confidence :: rat
  mc_fusion_action_margin :: rat

definition default_models_config :: models_config where
  "default_models_config = \<lparr>mc_lightgbm_enabled = True, mc_transformer_enabled = False,
     mc_ensemble_enabled = False, mc_feature_version = ''v1'', mc_strategy_version = ''v1'',
     mc_label_horizon = 4, mc_label_threshold = flt (3 / 1000), mc_train_fraction = flt (7 / 10),
     mc_validation_fraction = flt (15 / 100), mc_min_validation_accuracy = flt (34 / 100),
     mc_min_validation_macro_f1 = 1 / 4, mc_min_training_rows = 500,
     mc_technical_component_weight = flt (4 / 10), mc_lightgbm_component_weight = flt (6 / 10),
     mc_fusion_min_confidence = flt (3 / 10), mc_fusion_action_margin = flt (1 / 10)\<rparr>"

record websocket_config =
  wc_heartbeat_interval_seconds :: rat
  wc_client_timeout_seconds :: rat
  wc_outbound_queue_size :: int
  wc_max_connections :: int

definition default_websocket_config :: websocket_config where
  "default_websocket_config = \<lparr>wc_heartbeat_interval_seconds = 20, wc_client_timeout_seconds = 60,
     wc_outbound_queue_size = 500, wc_max_connections = 32\<rparr>"

record database_config =
  dc_user :: string
  dc_password :: string
  dc_db :: string
  dc_host :: string
  dc_port :: int
  dc_pool_size :: int
  dc_max_overflow :: int
  dc_echo :: bool

definition default_database_config :: database_config where
  "default_database_config = \<lparr>dc_user = ''trader'', dc_password = ''trader'', dc_db = ''binance_spot_ai'',
     dc_host = ''postgres'', dc_port = 5432, dc_pool_size = 10, dc_max_overflow = 5, dc_echo = False\<rparr>"

record redis_config =
  rd_host :: string
  rd_port :: int
  rd_db :: int

definition default_redis_config :: redis_config where
  "default_redis_config = \<lparr>rd_host = ''redis'', rd_port = 6379, rd_db = 0\<rparr>"

record llm_config =
  lc_ollama_enabled :: bool
  lc_ollama_base_url :: string
  lc_ollama_model :: string
  lc_ollama_timeout_seconds :: rat
  lc_claude_enabled :: bool
  lc_claude_api_key :: string
  lc_claude_max_calls_per_day :: int

definition default_llm_config :: llm_config where
  "default_llm_config = \<lparr>lc_ollama_enabled = False, lc_ollama_base_url = '''', lc_ollama_model = '''',
     lc_ollama_timeout_seconds = 8, lc_claude_enabled = False, lc_claude_api_key = '''',
     lc_claude_max_calls_per_day = 50\<rparr>"

record news_config =
  nc_enabled :: bool
  nc_poll_interval_seconds :: int

definition default_news_config :: news_config where
  "default_news_config = \<lparr>nc_enabled = False, nc_poll_interval_seconds = 900\<rparr>"

record settings =
  st_app_name :: string
  st_api_v1_prefix :: string
  st_env :: app_env
  st_log_level :: string
  st_api_host :: string
  st_api_port :: int
  st_cors_allow_origins :: "string list"
  st_database :: database_config
  st_redis :: redis_config
  st_binance :: binance_config
  st_trading :: trading_config
  st_risk :: risk_config
  st_paper_trading :: paper_trading_config
  st_backtesting :: backtest_config
  st_scheduler :: scheduler_config
  st_models :: models_config
  st_llm :: llm_config
  st_news :: news_config
  st_websocket :: websocket_config

definition default_settings :: settings where
  "default_settings = \<lparr>st_app_name = ''Automated Binance Spot AI'', st_api_v1_prefix = ''/api/v1'',
     st_env = EnvDEVELOPMENT, st_log_level = ''INFO'', st_api_host = ''0.0.0.0'', st_api_port = 8000,
     st_cors_allow_origins = [''http://localhost:5173''],
     st_database = default_database_config, st_redis = default_redis_config,
     st_binance = default_binance_config, st_trading = default_trading_config,
     st_risk = DEFAULT_RISK_CONFIG, st_paper_trading = default_paper_config,
     st_backtesting = default_backtest_config, st_scheduler = default_scheduler_config,
     st_models = default_models_config, st_llm = default_llm_config, st_news = default_news_config,
     st_websocket = default_websocket_config\<rparr>"

section \<open>Environment values\<close>

text \<open>\<open>value.strip("\r\n")\<close>: both ends, these two characters only.\<close>

definition is_eol :: "char \<Rightarrow> bool" where
  "is_eol c \<longleftrightarrow> c = CHR 0x0D \<or> c = CHR 0x0A"

definition strip_line_endings :: "string \<Rightarrow> string" where
  "strip_line_endings s = rev (dropWhile is_eol (rev (dropWhile is_eol s)))"

text \<open>\<open>str.strip()\<close> on ASCII text, and \<open>text.split(",")\<close>.\<close>

definition is_space :: "char \<Rightarrow> bool" where
  "is_space c \<longleftrightarrow> c \<in> {CHR '' '', CHR 0x09, CHR 0x0A, CHR 0x0B, CHR 0x0C, CHR 0x0D, CHR 0x1C,
     CHR 0x1D, CHR 0x1E, CHR 0x1F}"

definition strip :: "string \<Rightarrow> string" where
  "strip s = rev (dropWhile is_space (rev (dropWhile is_space s)))"

fun split_comma :: "string \<Rightarrow> string list" where
  "split_comma [] = [[]]"
| "split_comma (c # s) =
     (if c = CHR '','' then [] # split_comma s
      else case split_comma s of [] \<Rightarrow> [[c]] | w # ws \<Rightarrow> (c # w) # ws)"

text \<open>
  \<open>json.loads\<close> is the standard library's parser: the list it returns for a text that starts
  with a bracket (\<open>None\<close> for invalid JSON or another value) is an argument.
\<close>

definition parse_str_list :: "(string \<Rightarrow> string list option) \<Rightarrow> string \<Rightarrow> string list" where
  "parse_str_list json_list s =
     (let t = strip s;
          csv = filter (\<lambda>w. w \<noteq> '''') (map strip (split_comma t))
      in if take 1 t = ''['' then
           (case json_list t of Some ws \<Rightarrow> map strip ws | None \<Rightarrow> csv)
         else csv)"

section \<open>Start-up validation\<close>

datatype env_problem = WildcardCors | LiveNotEnabled | CredentialsUnset

definition is_production :: "settings \<Rightarrow> bool" where
  "is_production s \<longleftrightarrow> st_env s = EnvPRODUCTION"

definition docs_enabled :: "settings \<Rightarrow> bool" where
  "docs_enabled s \<longleftrightarrow> \<not> is_production s"

definition validate_environment :: "settings \<Rightarrow> env_problem list" where
  "validate_environment s =
     (if ''*'' \<in> set (st_cors_allow_origins s) \<and> is_production s then [WildcardCors] else []) @
     (if tc_mode (st_trading s) = ModeLIVE \<and> \<not> tc_live_trading_enabled (st_trading s)
      then [LiveNotEnabled] else []) @
     (if tc_live_trading_enabled (st_trading s) \<and> \<not> has_credentials (st_binance s)
      then [CredentialsUnset] else [])"

section \<open>Lemmas\<close>

lemma dropWhile_hd: "xs \<noteq> [] \<Longrightarrow> \<not> P (hd xs) \<Longrightarrow> dropWhile P xs = xs"
  by (cases xs) auto

lemma strip_line_endings_idem: "strip_line_endings (strip_line_endings s) = strip_line_endings s"
proof -
  have ends: "xs \<noteq> [] \<Longrightarrow> \<not> is_eol (hd xs) \<Longrightarrow> \<not> is_eol (last xs) \<Longrightarrow> strip_line_endings xs = xs" for xs
    by (simp add: strip_line_endings_def dropWhile_hd hd_rev)
  show ?thesis
  proof (cases "strip_line_endings s = []")
    case False
    let ?a = "dropWhile is_eol s"
    have l: "\<not> is_eol (last (strip_line_endings s))"
      using False hd_dropWhile [of is_eol "rev ?a"] by (simp add: strip_line_endings_def last_rev)
    obtain p where p: "?a = strip_line_endings s @ p"
      unfolding strip_line_endings_def
      by (metis rev_append rev_rev_ident takeWhile_dropWhile_id)
    have "?a \<noteq> []" using False p by auto
    then have "\<not> is_eol (hd ?a)" by (rule hd_dropWhile)
    then have "\<not> is_eol (hd (strip_line_endings s))" using p False by simp
    with False l show ?thesis by (intro ends)
  next
    case True
    have "strip_line_endings [] = []" by (simp add: strip_line_endings_def)
    with True show ?thesis by simp
  qed
qed

lemma split_comma_nonempty: "split_comma s \<noteq> []"
  by (induction s) (auto split: list.splits)

text \<open>Joining the pieces with commas gives the text back.\<close>

fun join_comma :: "string list \<Rightarrow> string" where
  "join_comma [] = []"
| "join_comma [w] = w"
| "join_comma (w # v # ws) = w @ '','' @ join_comma (v # ws)"

lemma join_split: "join_comma (split_comma s) = s"
proof (induction s)
  case (Cons c s)
  obtain w ws where w: "split_comma s = w # ws" using split_comma_nonempty by (cases "split_comma s") auto
  with Cons show ?case by (cases ws) auto
qed simp

end
