(* ===== verification/Json.thy ===== *)
theory Json
  imports Settings
begin

text \<open>
  Decoded JSON, as \<open>response.json()\<close> returns it, and the conversions the exchange code
  applies to it: \<open>int\<close>, \<open>str\<close>, \<open>str.upper\<close>, \<open>bool\<close> and \<open>Decimal(str(x))\<close>. Text is ASCII;
  \<open>str\<close> is only modelled on the strings, integers, booleans and \<open>null\<close> these fields hold.
\<close>

datatype json =
    JNull
  | JBool bool
  | JInt int
  | JNum rat
  | JStr string
  | JList "json list"
  | JObj "(string \<times> json) list"

type_synonym payload = "(string, json) dict"

section \<open>Text\<close>

definition upper_char :: "char \<Rightarrow> char" where
  "upper_char c = (if (97::nat) \<le> of_char c \<and> of_char c \<le> (122::nat) then char_of (of_char c - (32::nat)) else c)"

definition upper :: "string \<Rightarrow> string" where
  "upper s = map upper_char s"

definition lower_char :: "char \<Rightarrow> char" where
  "lower_char c = (if (65::nat) \<le> of_char c \<and> of_char c \<le> (90::nat) then char_of (of_char c + (32::nat)) else c)"

definition lower :: "string \<Rightarrow> string" where
  "lower s = map lower_char s"

definition is_digit :: "char \<Rightarrow> bool" where
  "is_digit c \<longleftrightarrow> (48::nat) \<le> of_char c \<and> of_char c \<le> (57::nat)"

definition digit_value :: "char \<Rightarrow> int" where
  "digit_value c = int (of_char c) - 48"

definition digits_value :: "string \<Rightarrow> int" where
  "digits_value s = foldl (\<lambda>v c. 10 * v + digit_value c) 0 s"

fun show_nat :: "nat \<Rightarrow> string" where
  "show_nat n = (if n < 10 then [char_of (48 + n)] else show_nat (n div 10) @ [char_of (48 + n mod 10)])"

declare show_nat.simps [simp del]

definition show_int :: "int \<Rightarrow> string" where
  "show_int k = (if k < 0 then ''-'' @ show_nat (nat (- k)) else show_nat (nat k))"

section \<open>Conversions\<close>

text \<open>A sign, then digits only.\<close>

definition split_sign :: "string \<Rightarrow> bool \<times> string" where
  "split_sign s = (case s of [] \<Rightarrow> (False, [])
     | c # t \<Rightarrow> if c = CHR ''-'' then (True, t) else if c = CHR ''+'' then (False, t) else (False, s))"

definition parse_int :: "string \<Rightarrow> int option" where
  "parse_int s = (let (neg, ds) = split_sign (strip s) in
     if ds \<noteq> [] \<and> list_all is_digit ds then Some (if neg then - digits_value ds else digits_value ds)
     else None)"

text \<open>\<open>int(x)\<close>; \<open>None\<close> when it raises \<open>TypeError\<close> or \<open>ValueError\<close>.\<close>

fun py_int :: "json \<Rightarrow> int option" where
  "py_int (JBool b) = Some (if b then 1 else 0)"
| "py_int (JInt k) = Some k"
| "py_int (JNum x) = Some (if 0 \<le> x then \<lfloor>x\<rfloor> else - \<lfloor>- x\<rfloor>)"
| "py_int (JStr s) = parse_int s"
| "py_int _ = None"

fun py_str :: "json \<Rightarrow> string" where
  "py_str (JStr s) = s"
| "py_str (JInt k) = show_int k"
| "py_str (JBool b) = (if b then ''True'' else ''False'')"
| "py_str _ = ''None''"

fun py_bool :: "json \<Rightarrow> bool" where
  "py_bool JNull = False"
| "py_bool (JBool b) = b"
| "py_bool (JInt k) = (k \<noteq> 0)"
| "py_bool (JNum x) = (x \<noteq> 0)"
| "py_bool (JStr s) = (s \<noteq> [])"
| "py_bool (JList xs) = (xs \<noteq> [])"
| "py_bool (JObj d) = (d \<noteq> [])"

text \<open>
  \<open>Decimal(text)\<close>: digits with an optional point and an optional exponent. The texts of
  infinities and NaNs are not modelled: they are no number here.
\<close>

definition parse_exponent :: "string \<Rightarrow> int option" where
  "parse_exponent s = (case s of [] \<Rightarrow> Some 0
     | c # t \<Rightarrow> if c = CHR ''e'' \<or> c = CHR ''E'' then
         (let (neg, ds) = split_sign t in
          if ds \<noteq> [] \<and> list_all is_digit ds
          then Some (if neg then - digits_value ds else digits_value ds) else None)
       else None)"

definition parse_decimal :: "string \<Rightarrow> rat option" where
  "parse_decimal s =
     (let (neg, t) = split_sign (strip s);
          whole = takeWhile is_digit t; rest = dropWhile is_digit t;
          after = (case rest of c # ds \<Rightarrow> if c = CHR ''.'' then ds else [] | [] \<Rightarrow> []);
          frac = takeWhile is_digit after;
          expo = (if rest \<noteq> [] \<and> hd rest = CHR ''.'' then dropWhile is_digit after else rest);
          v = of_int (digits_value (whole @ frac)) / 10 ^ length frac
      in if whole @ frac = [] then None
         else map_option (\<lambda>k. (if neg then - v else v) * 10 powi k) (parse_exponent expo))"

text \<open>\<open>Decimal(str(value))\<close> of a JSON value, \<open>None\<close> when it is not a number.\<close>

fun decimal_str :: "json \<Rightarrow> rat option" where
  "decimal_str (JInt k) = Some (of_int k)"
| "decimal_str (JNum x) = Some (decimal_of_float x)"
| "decimal_str (JStr s) = parse_decimal s"
| "decimal_str _ = None"

section \<open>Printing and reading integers\<close>

lemma of_char_digit: "n < 10 \<Longrightarrow> of_char (char_of (48 + n) :: char) = (48 + n :: nat)"
  by simp

lemma show_nat_digits: "list_all is_digit (show_nat n) \<and> show_nat n \<noteq> []"
proof (induction n rule: show_nat.induct)
  case (1 n)
  moreover have "is_digit (char_of (48 + k))" if "k < 10" for k :: nat
    using that by (simp add: is_digit_def)
  ultimately show ?case by (cases "n < 10") (simp_all add: show_nat.simps [of n])
qed

lemma digits_value_snoc: "digits_value (s @ [c]) = 10 * digits_value s + digit_value c"
  by (simp add: digits_value_def)

lemma digits_value_show: "digits_value (show_nat n) = int n"
proof (induction n rule: show_nat.induct)
  case (1 n)
  show ?case
  proof (cases "n < 10")
    case True
    then show ?thesis
      by (subst show_nat.simps) (simp add: digits_value_def digit_value_def)
  next
    case False
    then have "digits_value (show_nat n) = 10 * int (n div 10) + int (n mod 10)"
      using 1 by (subst show_nat.simps) (simp add: digits_value_snoc digit_value_def)
    also have "\<dots> = int n" by (simp add: zdiv_int zmod_int)
    finally show ?thesis .
  qed
qed

lemma digit_not_space: "is_digit c \<Longrightarrow> \<not> is_space c"
  by (auto simp: is_digit_def is_space_def)

end
