(* ===== verification/Market.thy ===== *)
theory Market
  imports Json
begin

text \<open>
  \<open>models/market.py\<close>: the stored candles and feature rows, and the queries over them that
  several components share. A table is a list of rows; times are microseconds since the epoch.
\<close>

record candle =
  cd_symbol :: string
  cd_timeframe :: string
  cd_open_time :: int
  cd_close_time :: int
  cd_open :: rat
  cd_high :: rat
  cd_low :: rat
  cd_close :: rat
  cd_volume :: rat
  cd_quote_volume :: "rat option"
  cd_trades :: "int option"
  cd_is_closed :: bool
  cd_source :: string

record feature_row =
  ft_symbol :: string
  ft_timeframe :: string
  ft_open_time :: int
  ft_feature_version :: string
  ft_features :: payload

text \<open>Rows of a symbol and timeframe, \<open>ORDER BY open_time ASC\<close>.\<close>

definition candles_of :: "candle list \<Rightarrow> string \<Rightarrow> string \<Rightarrow> candle list" where
  "candles_of db s tf = sort_key cd_open_time (filter (\<lambda>c. cd_symbol c = s \<and> cd_timeframe c = tf) db)"

definition closed_in_range :: "candle list \<Rightarrow> string \<Rightarrow> string \<Rightarrow> int \<Rightarrow> int \<Rightarrow> candle list" where
  "closed_in_range db s tf a b =
     sort_key cd_open_time (filter (\<lambda>c. cd_symbol c = s \<and> cd_timeframe c = tf \<and> cd_is_closed c \<and>
       a \<le> cd_open_time c \<and> cd_open_time c \<le> b) db)"

definition features_in_range :: "feature_row list \<Rightarrow> string \<Rightarrow> string \<Rightarrow> string \<Rightarrow> int \<Rightarrow> int \<Rightarrow> feature_row list" where
  "features_in_range db s tf version a b =
     filter (\<lambda>r. ft_symbol r = s \<and> ft_timeframe r = tf \<and> ft_feature_version r = version \<and>
       a \<le> ft_open_time r \<and> ft_open_time r \<le> b) db"

definition latest_feature :: "feature_row list \<Rightarrow> string \<Rightarrow> string \<Rightarrow> string \<Rightarrow> feature_row option" where
  "latest_feature db s tf version =
     (case rev (sort_key ft_open_time (filter (\<lambda>r. ft_symbol r = s \<and> ft_timeframe r = tf \<and>
        ft_feature_version r = version) db)) of [] \<Rightarrow> None | r # _ \<Rightarrow> Some r)"

lemma closed_in_range_mem:
  "c \<in> set (closed_in_range db s tf a b) \<longleftrightarrow>
   c \<in> set db \<and> cd_symbol c = s \<and> cd_timeframe c = tf \<and> cd_is_closed c \<and> a \<le> cd_open_time c \<and> cd_open_time c \<le> b"
  by (auto simp: closed_in_range_def)

lemma closed_in_range_sorted: "sorted (map cd_open_time (closed_in_range db s tf a b))"
  by (simp add: closed_in_range_def)

lemma latest_feature_mem:
  assumes "latest_feature db s tf version = Some r"
  shows "r \<in> set db \<and> ft_symbol r = s \<and> ft_timeframe r = tf \<and> ft_feature_version r = version \<and>
    (\<forall>r' \<in> set db. ft_symbol r' = s \<longrightarrow> ft_timeframe r' = tf \<longrightarrow> ft_feature_version r' = version \<longrightarrow>
       ft_open_time r' \<le> ft_open_time r)"
proof -
  define xs where "xs = sort_key ft_open_time (filter (\<lambda>r. ft_symbol r = s \<and> ft_timeframe r = tf \<and>
    ft_feature_version r = version) db)"
  obtain ys where ys: "rev xs = r # ys"
    using assms by (auto simp: latest_feature_def xs_def split: list.splits)
  then have xs: "xs = rev ys @ [r]" by (metis rev.simps(2) rev_rev_ident)
  have m: "x \<in> set xs \<longleftrightarrow> x \<in> set db \<and> ft_symbol x = s \<and> ft_timeframe x = tf \<and> ft_feature_version x = version" for x
    by (auto simp: xs_def)
  have "sorted (map ft_open_time xs)" by (simp add: xs_def)
  then have "\<forall>x \<in> set xs. ft_open_time x \<le> ft_open_time r" by (auto simp: xs sorted_append)
  with m show ?thesis using xs by (metis in_set_conv_decomp)
qed

end
