(* ===== verification/Dataset.thy ===== *)
theory Dataset
  imports Market
begin

text \<open>
  \<open>ml/labeling.py\<close> and \<open>ml/dataset.py\<close>: labels from forward returns, the numeric encoding of
  stored features, and the chronological split into training, validation and test rows. A data
  frame is the list of its rows; \<open>NaN\<close> is \<open>None\<close>. Prices are floats here.
\<close>

section \<open>Labels\<close>

definition LABEL_DOWN :: int where "LABEL_DOWN = 0"
definition LABEL_NEUTRAL :: int where "LABEL_NEUTRAL = 1"
definition LABEL_UP :: int where "LABEL_UP = 2"

text \<open>
  One row: the close now and the close \<open>horizon\<close> rows later. A zero close makes the return
  infinite, or undefined when both are zero.
\<close>

definition label_of :: "rat \<Rightarrow> rat \<Rightarrow> rat \<Rightarrow> int option" where
  "label_of threshold close forward_close =
     (if close = 0 then
        (if 0 < forward_close then Some LABEL_UP else if forward_close < 0 then Some LABEL_DOWN else None)
      else let r = fdiv (fsub forward_close close) close in
        if threshold < r then Some LABEL_UP else if r < - threshold then Some LABEL_DOWN
        else Some LABEL_NEUTRAL)"

definition make_labels :: "rat list \<Rightarrow> int \<Rightarrow> rat \<Rightarrow> exn + int option list" where
  "make_labels closes horizon threshold =
     (if horizon < 1 then Inl ValueError
      else if threshold < 0 then Inl ValueError
      else let h = nat horizon in
        Inr (map (\<lambda>i. if i + h < length closes then label_of threshold (closes ! i) (closes ! (i + h)) else None)
               [0..<length closes]))"

section \<open>Encoding features\<close>

definition STRUCTURE_TREND_ENCODING :: "(string, rat) dict" where
  "STRUCTURE_TREND_ENCODING = [(''BULLISH'', 1), (''BEARISH'', - 1), (''UNKNOWN'', 0)]"

text \<open>\<open>float(value)\<close> on the values a feature row holds; \<open>None\<close> inside is NaN.\<close>

definition encode_value :: "string \<Rightarrow> json \<Rightarrow> exn + rat option" where
  "encode_value k v =
     (if k = ''structure_trend'' then Inr (Some (dict_get STRUCTURE_TREND_ENCODING (py_str v) 0))
      else case v of
          JBool b \<Rightarrow> Inr (Some (if b then 1 else 0))
        | JNull \<Rightarrow> Inr None
        | JInt i \<Rightarrow> Inr (Some (flt (of_int i)))
        | JNum x \<Rightarrow> Inr (Some x)
        | JStr s \<Rightarrow> (case parse_decimal s of None \<Rightarrow> Inl ValueError | Some x \<Rightarrow> Inr (Some (flt x)))
        | _ \<Rightarrow> Inl TypeError)"

type_synonym encoded = "(string, rat option) dict"

fun encode_features :: "payload \<Rightarrow> exn + encoded" where
  "encode_features [] = Inr []"
| "encode_features ((k, v) # raw) =
     (case encode_value k v of
        Inl err \<Rightarrow> Inl err
      | Inr x \<Rightarrow> map_sum id (Cons (k, x)) (encode_features raw))"

section \<open>Rows\<close>

record dataset_row =
  dr_open_time :: int
  dr_close :: rat
  dr_values :: encoded

text \<open>The keys \<open>open_time\<close> and \<open>close\<close> of a record are set from the row itself.\<close>

definition own_keys :: "encoded \<Rightarrow> encoded" where
  "own_keys d = filter (\<lambda>kv. fst kv \<notin> {''open_time'', ''close''}) d"

fun join_closes :: "feature_row list \<Rightarrow> (int, rat) dict \<Rightarrow> exn + dataset_row list" where
  "join_closes [] closes = Inr []"
| "join_closes (r # rs) closes =
     (case map_of closes (ft_open_time r) of
        None \<Rightarrow> join_closes rs closes
      | Some c \<Rightarrow>
          (case encode_features (ft_features r) of
             Inl err \<Rightarrow> Inl err
           | Inr d \<Rightarrow> map_sum id (Cons \<lparr>dr_open_time = ft_open_time r, dr_close = c, dr_values = own_keys d\<rparr>)
               (join_closes rs closes)))"

definition features_of :: "feature_row list \<Rightarrow> string \<Rightarrow> string \<Rightarrow> string \<Rightarrow> feature_row list" where
  "features_of db s tf version = sort_key ft_open_time (filter (\<lambda>r. ft_symbol r = s \<and> ft_timeframe r = tf \<and>
     ft_feature_version r = version) db)"

definition closes_of :: "candle list \<Rightarrow> string \<Rightarrow> string \<Rightarrow> (int, rat) dict" where
  "closes_of db s tf = foldl (\<lambda>d c. AList.update (cd_open_time c) (flt (cd_close c)) d) []
     (filter cd_is_closed (candles_of db s tf))"

text \<open>
  The joined rows by time. With feature rows but no matching candle the empty frame has no
  column to sort by, which is a \<open>KeyError\<close>.
\<close>

definition load_features_and_closes ::
  "feature_row list \<Rightarrow> candle list \<Rightarrow> string \<Rightarrow> string \<Rightarrow> string \<Rightarrow> exn + dataset_row list" where
  "load_features_and_closes features candles s tf version =
     (let rows = features_of features s tf version in
      if rows = [] then Inr []
      else case join_closes rows (closes_of candles s tf) of
          Inl err \<Rightarrow> Inl err
        | Inr [] \<Rightarrow> Inl KeyError
        | Inr rs \<Rightarrow> Inr (sort_key dr_open_time rs))"

section \<open>The split\<close>

type_synonym labelled_row = "dataset_row \<times> int"

record training_frame =
  tf_train :: "labelled_row list"
  tf_validation :: "labelled_row list"
  tf_test :: "labelled_row list"
  tf_feature_columns :: "string list"

definition empty_frame :: training_frame where
  "empty_frame = \<lparr>tf_train = [], tf_validation = [], tf_test = [], tf_feature_columns = []\<rparr>"

definition frame_is_empty :: "training_frame \<Rightarrow> bool" where
  "frame_is_empty fr \<longleftrightarrow> tf_train fr = [] \<or> tf_validation fr = [] \<or> tf_test fr = []"

definition trim_boundary :: "int \<Rightarrow> 'a list \<Rightarrow> 'a list" where
  "trim_boundary horizon xs = (if horizon \<le> 0 \<or> xs = [] then xs else take (length xs - nat horizon) xs)"

text \<open>
  The columns of the frame are the keys of its records in the order they first appear. The feature
  columns are taken from this frame; the label is added to a copy of it only.
\<close>

definition frame_columns :: "dataset_row list \<Rightarrow> string list" where
  "frame_columns rows = rev (remdups (rev (concat (map (\<lambda>r. keys (dr_values r) @ [''open_time'', ''close'']) rows))))"

definition columns_of :: "dataset_row list \<Rightarrow> string list" where
  "columns_of rows = filter (\<lambda>col. col \<notin> {''open_time'', ''close''}) (frame_columns rows)"

definition labelled_of :: "dataset_row list \<Rightarrow> int option list \<Rightarrow> labelled_row list" where
  "labelled_of rows labels = map (map_prod id the) (filter (\<lambda>p. snd p \<noteq> None) (zip rows labels))"

text \<open>\<open>int(n * fraction)\<close>.\<close>

definition share :: "nat \<Rightarrow> rat \<Rightarrow> nat" where
  "share n q = nat \<lfloor>fmul (of_nat n) q\<rfloor>"

definition chronological_split :: "dataset_row list \<Rightarrow> int \<Rightarrow> rat \<Rightarrow> rat \<Rightarrow> rat \<Rightarrow> exn + training_frame" where
  "chronological_split rows horizon threshold train_fraction validation_fraction =
     (if \<not> (0 < train_fraction \<and> train_fraction < 1) \<or> \<not> (0 < validation_fraction \<and> validation_fraction < 1)
      then Inl ValidationError
      else if 1 \<le> fadd train_fraction validation_fraction then Inl ValidationError
      else case make_labels (map dr_close rows) horizon threshold of
          Inl err \<Rightarrow> Inl err
        | Inr labels \<Rightarrow>
            (let labelled = labelled_of rows labels; n = length labelled;
                 train_end = share n train_fraction;
                 validation_end = train_end + share n validation_fraction
             in Inr \<lparr>tf_train = trim_boundary horizon (take train_end labelled),
                  tf_validation = trim_boundary horizon (take (validation_end - train_end) (drop train_end labelled)),
                  tf_test = drop validation_end labelled, tf_feature_columns = columns_of rows\<rparr>))"

definition build_training_frame ::
  "feature_row list \<Rightarrow> candle list \<Rightarrow> string \<Rightarrow> string \<Rightarrow> models_config \<Rightarrow> exn + training_frame" where
  "build_training_frame features candles s tf mc =
     (case load_features_and_closes features candles s tf (mc_feature_version mc) of
        Inl err \<Rightarrow> Inl err
      | Inr [] \<Rightarrow> Inr empty_frame
      | Inr rows \<Rightarrow> chronological_split rows (mc_label_horizon mc) (mc_label_threshold mc)
          (mc_train_fraction mc) (mc_validation_fraction mc))"

section \<open>Positions\<close>

definition row_label :: "dataset_row list \<Rightarrow> nat \<Rightarrow> rat \<Rightarrow> nat \<Rightarrow> int option" where
  "row_label rows h threshold k = label_of threshold (dr_close (rows ! k)) (dr_close (rows ! (k + h)))"

lemma label_of_Some: "close \<noteq> 0 \<Longrightarrow> \<exists>l. label_of threshold close fc = Some l"
  by (simp add: label_of_def Let_def)

lemma labelled_positions:
  assumes "make_labels (map dr_close rows) horizon threshold = Inr labels" "\<forall>r \<in> set rows. dr_close r \<noteq> 0"
  shows "labelled_of rows labels = map (\<lambda>k. (rows ! k, the (row_label rows (nat horizon) threshold k)))
    [0..<length rows - nat horizon]"
proof -
  let ?h = "nat horizon" and ?n = "length rows"
  let ?m = "?n - ?h"
  let ?g = "\<lambda>k. row_label rows ?h threshold k"
  have h: "0 < ?h" and ls: "labels = map (\<lambda>i. if i + ?h < ?n then ?g i else None) [0..<?n]"
    using assms(1) by (auto simp: make_labels_def row_label_def Let_def split: if_splits)
  have z: "zip rows labels = map (\<lambda>i. (rows ! i, if i + ?h < ?n then ?g i else None)) [0..<?n]"
    by (rule nth_equalityI) (simp_all add: ls)
  have up: "[0..<?n] = [0..<?m] @ [?m..<?n]" using upt_add_eq_append [of 0 ?m "?n - ?m"] by simp
  have in_range: "i + ?h < ?n \<longleftrightarrow> i < ?m" for i using h by auto
  have some: "?g i \<noteq> None" if "i < ?n" for i
    using label_of_Some assms(2) that by (force simp: row_label_def)
  have "filter (\<lambda>p. snd p \<noteq> None) (zip rows labels) = map (\<lambda>i. (rows ! i, ?g i)) [0..<?m]"
    unfolding z up using some
    by (auto simp: in_range filter_map comp_def filter_empty_conv intro!: filter_True)
  then show ?thesis by (simp add: labelled_of_def)
qed

lemma trim_take: "0 < horizon \<Longrightarrow> trim_boundary horizon xs = take (length xs - nat horizon) xs"
  by (simp add: trim_boundary_def)

section \<open>Properties\<close>

text \<open>
  C15: no label leaks across a split. With non-zero closes the three parts are consecutive runs
  of the rows in time order, each labelled from the close \<open>horizon\<close> rows later, and for a
  training (validation) row that later row still comes before the first validation (test) row.
  The feature columns are the keys of the rows but the time and the close, so the label is one
  of them only where a stored feature bears that very name.
\<close>

theorem labels_do_not_leak:
  assumes "chronological_split rows horizon threshold tf vf = Inr fr" "\<forall>r \<in> set rows. dr_close r \<noteq> 0"
    "h = nat horizon"
  shows "\<exists>a b. a \<le> b \<and> b + h \<le> max h (length rows) \<and>
    (\<forall>k < length (tf_train fr). tf_train fr ! k = (rows ! k, the (row_label rows h threshold k)) \<and> k + h < a) \<and>
    (\<forall>k < length (tf_validation fr). tf_validation fr ! k = (rows ! (a + k), the (row_label rows h threshold (a + k))) \<and>
       a + k + h < b) \<and>
    (\<forall>k < length (tf_test fr). tf_test fr ! k = (rows ! (b + k), the (row_label rows h threshold (b + k))) \<and>
       b + k + h < length rows) \<and>
    set (tf_feature_columns fr) = (\<Union>r \<in> set rows. set (keys (dr_values r))) - {''open_time'', ''close''}"
proof -
  obtain labels where ls: "make_labels (map dr_close rows) horizon threshold = Inr labels"
    using assms(1) by (auto simp: chronological_split_def split: if_splits sum.splits)
  then have hz: "0 < horizon" by (auto simp: make_labels_def split: if_splits)
  define xs where "xs = labelled_of rows labels"
  have xs: "xs = map (\<lambda>k. (rows ! k, the (row_label rows h threshold k))) [0..<length rows - h]"
    unfolding xs_def assms(3) by (rule labelled_positions [OF ls assms(2)])
  define te where "te = share (length xs) tf"
  define ve where "ve = te + share (length xs) vf"
  have fr: "tf_train fr = take (length (take te xs) - h) (take te xs)"
    "tf_validation fr = take (length (take (ve - te) (drop te xs)) - h) (take (ve - te) (drop te xs))"
    "tf_test fr = drop ve xs" "tf_feature_columns fr = columns_of rows"
    using assms(1,3) ls hz
    by (auto simp: chronological_split_def Let_def trim_take xs_def te_def ve_def split: if_splits)
  have cols: "set (columns_of rows) = (\<Union>r \<in> set rows. set (keys (dr_values r))) - {''open_time'', ''close''}"
    by (auto simp: columns_of_def frame_columns_def)
  have n: "length xs = length rows - h" by (simp add: xs)
  define a b where "a = min te (length xs)" and "b = min ve (length xs)"
  have ab: "a \<le> b" "b + h \<le> max h (length rows)" using n by (auto simp: a_def b_def ve_def)
  have nth: "xs ! k = (rows ! k, the (row_label rows h threshold k))" if "k < length xs" for k
    using that by (simp add: xs)
  have train: "tf_train fr ! k = xs ! k \<and> k + h < a \<and> k < length xs" if "k < length (tf_train fr)" for k
    using that by (simp add: fr a_def) linarith
  have val: "tf_validation fr ! k = xs ! (a + k) \<and> a + k + h < b \<and> a + k < length xs"
    if "k < length (tf_validation fr)" for k
  proof -
    from that have "k < min (length xs - te) (ve - te) - h" by (simp add: fr)
    then have k: "k + h < min (length xs - te) (ve - te)" by linarith
    then have "te < length xs" "te + k + h < length xs" "te + k + h < ve" by linarith+
    with k show ?thesis by (simp add: fr a_def b_def)
  qed
  have test: "tf_test fr ! k = xs ! (b + k) \<and> b + k < length xs" if "k < length (tf_test fr)" for k
    using that by (simp add: fr b_def)
  have "\<forall>k < length (tf_train fr). tf_train fr ! k = (rows ! k, the (row_label rows h threshold k)) \<and> k + h < a"
    using train nth by simp
  moreover have "\<forall>k < length (tf_validation fr).
      tf_validation fr ! k = (rows ! (a + k), the (row_label rows h threshold (a + k))) \<and> a + k + h < b"
    using val nth by simp
  moreover have "\<forall>k < length (tf_test fr).
      tf_test fr ! k = (rows ! (b + k), the (row_label rows h threshold (b + k))) \<and> b + k + h < length rows"
    using test nth n by (simp add: less_diff_conv)
  moreover have "set (tf_feature_columns fr) = (\<Union>r \<in> set rows. set (keys (dr_values r))) - {''open_time'', ''close''}"
    using cols by (simp add: fr(4))
  ultimately show ?thesis using ab by blast
qed

definition sample_rows :: "dataset_row list" where
  "sample_rows = map (\<lambda>k. \<lparr>dr_open_time = k, dr_close = of_int (100 + k), dr_values = [(''rsi_14'', Some 50)]\<rparr>) [0..9]"

text \<open>Ten rows, horizon 1: four training rows, and row 4's close decides the last label.\<close>

theorem labels_do_not_leak_witness:
  "\<exists>fr a b. chronological_split sample_rows 1 0 (1 / 2) (1 / 4) = Inr fr \<and> length (tf_train fr) = 3 \<and>
     a \<le> b \<and> (\<forall>k < length (tf_train fr). tf_train fr ! k = (sample_rows ! k, the (row_label sample_rows 1 0 k)) \<and> k + 1 < a) \<and>
     set (tf_feature_columns fr) = {''rsi_14''}"
proof -
  have nz: "\<forall>r \<in> set sample_rows. dr_close r \<noteq> 0"
    by (auto simp: sample_rows_def)
  obtain labels where ls: "make_labels (map dr_close sample_rows) 1 0 = Inr labels"
    by (simp add: make_labels_def Let_def)
  have n: "length (labelled_of sample_rows labels) = 9"
    using labelled_positions [OF ls nz] by (simp add: sample_rows_def)
  have f: "flt (3 / 4) = 3 / 4" "flt (9 / 2) = 9 / 2" "flt (9 / 4) = 9 / 4" by code_simp+
  have "\<lfloor>9 / 2 :: rat\<rfloor> = 4" "\<lfloor>9 / 4 :: rat\<rfloor> = 2" by (rule floor_unique; simp)+
  then have sh: "share 9 (1 / 2) = 4" by (simp add: share_def fmul_def f)
  obtain fr where fr: "chronological_split sample_rows 1 0 (1 / 2) (1 / 4) = Inr fr"
    "tf_train fr = trim_boundary 1 (take 4 (labelled_of sample_rows labels))"
    using n by (simp add: chronological_split_def ls fadd_def f sh Let_def)
  have "labelled_of sample_rows labels \<noteq> []" using n by auto
  then have len: "length (tf_train fr) = 3" using n by (simp add: fr(2) trim_boundary_def)
  have keys: "(\<Union>r \<in> set sample_rows. set (keys (dr_values r))) - {''open_time'', ''close''} = {''rsi_14''}"
    by (auto simp: sample_rows_def)
  from labels_do_not_leak [OF fr(1) nz refl, unfolded keys] fr(1) len show ?thesis by auto
qed

end
