(* ===== verification/TechnicalScore.thy ===== *)
theory TechnicalScore
  imports Json
begin

text \<open>
  \<open>signals/technical_score.py\<close>: the map from a row of technical features to a score and a
  confidence in [0, 1]. Features are the stored JSON object; a missing key and \<open>null\<close> are
  both \<open>None\<close>, as for \<open>dict.get\<close>. All arithmetic is on floats.
\<close>

section \<open>Features\<close>

type_synonym features = payload

text \<open>A number, \<open>None\<close> when missing or \<open>null\<close>.\<close>

definition num :: "features \<Rightarrow> string \<Rightarrow> rat option" where
  "num f k = (case map_of f k of Some (JNum x) \<Rightarrow> Some x | Some (JInt i) \<Rightarrow> Some (of_int i) | _ \<Rightarrow> None)"

text \<open>Python truth of \<open>features.get(k)\<close>.\<close>

definition truthy :: "features \<Rightarrow> string \<Rightarrow> bool" where
  "truthy f k = (case map_of f k of None \<Rightarrow> False | Some v \<Rightarrow> py_bool v)"

definition clamp :: "rat \<Rightarrow> rat \<Rightarrow> rat \<Rightarrow> rat" where
  "clamp lo hi x = max lo (min hi x)"

definition TECHNICAL_SCORE_VERSION :: string where
  "TECHNICAL_SCORE_VERSION = ''v1''"

section \<open>Sub-signals\<close>

type_synonym sub_signal = "string \<times> rat option"

definition trend_subsignal :: "features \<Rightarrow> sub_signal" where
  "trend_subsignal f = (''trend'',
     case (num f ''sma_20'', num f ''sma_50'') of
       (Some a, Some b) \<Rightarrow>
         if b = 0 then None
         else Some (clamp (- 1) 1 (fdiv (fdiv (fsub a b) b) (flt (2 / 100))))
     | _ \<Rightarrow> None)"

definition momentum_parts :: "features \<Rightarrow> rat list" where
  "momentum_parts f =
     (case num f ''rsi_14'' of None \<Rightarrow> []
      | Some rsi \<Rightarrow> [clamp (- 1) 1 (fdiv (fsub rsi 50) 50)]) @
     (case (num f ''macd_histogram'', num f ''macd'') of
        (Some h, Some m) \<Rightarrow> if m \<noteq> 0 then [clamp (- 1) 1 (fdiv h \<bar>m\<bar>)] else []
      | _ \<Rightarrow> [])"

definition momentum_subsignal :: "features \<Rightarrow> sub_signal" where
  "momentum_subsignal f = (''momentum'',
     let parts = momentum_parts f in
     if parts = [] then None else Some (fdiv (fsum parts) (of_nat (length parts))))"

definition directional_movement_subsignal :: "features \<Rightarrow> sub_signal" where
  "directional_movement_subsignal f = (''directional_movement'',
     case (num f ''plus_di'', num f ''minus_di'') of
       (Some p, Some m) \<Rightarrow>
         if fadd p m = 0 then Some 0
         else Some (fmul (fdiv (fsub p m) (fadd p m))
           (case num f ''adx'' of None \<Rightarrow> 1 | Some a \<Rightarrow> clamp 0 1 (fdiv a 40)))
     | _ \<Rightarrow> None)"

definition structure_base :: "features \<Rightarrow> rat option" where
  "structure_base f = (case map_of f ''structure_trend'' of
     None \<Rightarrow> None | Some JNull \<Rightarrow> None
   | Some t \<Rightarrow> Some (if t = JStr ''BULLISH'' then 1 else if t = JStr ''BEARISH'' then - 1 else 0))"

definition structure_event :: "features \<Rightarrow> rat option \<Rightarrow> rat" where
  "structure_event f base =
     (let e1 = (if truthy f ''is_higher_high'' \<or> truthy f ''is_higher_low'' then fadd 0 (1 / 2) else 0);
          e2 = (if truthy f ''is_lower_high'' \<or> truthy f ''is_lower_low'' then fsub e1 (1 / 2) else e1);
          e3 = (if truthy f ''break_of_structure''
                then fadd e2 (case base of None \<Rightarrow> 0
                       | Some b \<Rightarrow> if 0 < b then 1 / 2 else if b < 0 then - 1 / 2 else 0)
                else e2)
      in if truthy f ''false_breakout''
         then fadd (fsub e3 (if truthy f ''breakout'' then flt (3 / 10) else 0))
                (if truthy f ''breakdown'' then flt (3 / 10) else 0)
         else e3)"

definition structure_subsignal :: "features \<Rightarrow> sub_signal" where
  "structure_subsignal f = (''structure'',
     let base = structure_base f; event = structure_event f base in
     if base = None \<and> event = 0 then None
     else Some (clamp (- 1) 1 (fadd (case base of None \<Rightarrow> 0 | Some b \<Rightarrow> b) event)))"

definition volatility_confidence_penalty :: "features \<Rightarrow> rat" where
  "volatility_confidence_penalty f =
     (case num f ''volatility_percentile_100'' of None \<Rightarrow> 1
      | Some p \<Rightarrow> if p \<le> flt (9 / 10) then 1
                  else max (1 / 2) (fsub 1 (fmul (fsub p (flt (9 / 10))) 5)))"

section \<open>The score\<close>

record score_details =
  td_version :: string
  td_subsignals :: "sub_signal list"
  td_available_count :: nat
  td_raw_score :: "rat option"
  td_completeness :: "rat option"

definition subsignals :: "features \<Rightarrow> sub_signal list" where
  "subsignals f = [trend_subsignal f, momentum_subsignal f, directional_movement_subsignal f,
     structure_subsignal f]"

definition available :: "sub_signal list \<Rightarrow> rat list" where
  "available ss = map the (filter (\<lambda>v. v \<noteq> None) (map snd ss))"

definition compute_technical_score :: "features \<Rightarrow> rat \<times> rat \<times> score_details" where
  "compute_technical_score f =
     (let ss = subsignals f; vs = available ss;
          d = \<lparr>td_version = TECHNICAL_SCORE_VERSION, td_subsignals = ss,
               td_available_count = length vs, td_raw_score = None, td_completeness = None\<rparr>
      in if vs = [] then (1 / 2, 0, d)
         else let raw = fdiv (fsum vs) (of_nat (length vs));
                  score = fdiv (fadd raw 1) 2;
                  completeness = fdiv (of_nat (length vs)) (of_nat (length ss));
                  confidence = fmul (fmul \<bar>raw\<bar> completeness) (volatility_confidence_penalty f)
           in (clamp 0 1 score, clamp 0 1 confidence,
               d\<lparr>td_raw_score := Some raw, td_completeness := Some completeness\<rparr>))"

section \<open>Lemmas\<close>

lemma clamp_range: "lo \<le> hi \<Longrightarrow> lo \<le> clamp lo hi x \<and> clamp lo hi x \<le> hi"
  by (auto simp: clamp_def)

lemma clamp_id: "lo \<le> x \<Longrightarrow> x \<le> hi \<Longrightarrow> clamp lo hi x = x"
  by (auto simp: clamp_def)

text \<open>A mean of floats in [-1, 1] is in [-1, 1], rounding included.\<close>

lemma fsum_snoc: "fsum (xs @ [x]) = fadd (fsum xs) x"
  by (simp add: fsum_def)

lemma fsum_bound:
  "\<forall>x \<in> set xs. \<bar>x\<bar> \<le> 1 \<Longrightarrow> int (length xs) < 2 ^ 53 \<Longrightarrow> \<bar>fsum xs\<bar> \<le> of_nat (length xs)"
proof (induction xs rule: rev_induct)
  case (snoc x xs)
  then have b: "\<bar>fsum xs + x\<bar> \<le> of_nat (Suc (length xs))" by auto
  have "flt (of_nat (Suc (length xs))) = of_nat (Suc (length xs))"
    using flt_int [of "int (Suc (length xs))"] snoc.prems by simp
  with b show ?case unfolding fsum_snoc fadd_def by (simp only: length_append_singleton flt.rd_abs_le)
qed (simp add: fsum_def)

lemma mean_bound:
  assumes "\<forall>x \<in> set xs. \<bar>x\<bar> \<le> 1" "xs \<noteq> []" "int (length xs) < 2 ^ 53"
  shows "\<bar>fdiv (fsum xs) (of_nat (length xs))\<bar> \<le> 1"
proof -
  have "\<bar>fsum xs / of_nat (length xs)\<bar> \<le> 1"
    using fsum_bound [OF assms(1,3)] assms(2) by (simp add: divide_le_eq_1)
  then show ?thesis unfolding fdiv_def by (rule flt.rd_abs_le) simp
qed

text \<open>Directional indicators are not negative, so their balance is within [-1, 1].\<close>

definition di_ok :: "features \<Rightarrow> bool" where
  "di_ok f \<longleftrightarrow> (\<forall>p. num f ''plus_di'' = Some p \<longrightarrow> 0 \<le> p) \<and> (\<forall>m. num f ''minus_di'' = Some m \<longrightarrow> 0 \<le> m)"

lemma abs_prod_le_one: "\<bar>a\<bar> \<le> 1 \<Longrightarrow> \<bar>b\<bar> \<le> 1 \<Longrightarrow> \<bar>fmul a b\<bar> \<le> 1"
proof -
  assume "\<bar>a\<bar> \<le> 1" "\<bar>b\<bar> \<le> (1::rat)"
  then have "\<bar>a * b\<bar> \<le> 1" unfolding abs_mult by (intro mult_le_one) auto
  then show ?thesis unfolding fmul_def by (rule flt.rd_abs_le) simp
qed

lemma di_balance: "0 \<le> p \<Longrightarrow> 0 \<le> m \<Longrightarrow> \<bar>fdiv (fsub p m) (fadd p m)\<bar> \<le> 1"
proof -
  assume pm: "0 \<le> p" "0 \<le> (m::rat)"
  have "fsub p m \<le> fadd p m" "- fadd p m \<le> fsub p m" "0 \<le> fadd p m"
    using pm flt.rd_mono [of "p - m" "p + m"] flt.rd_mono [of "- (p + m)" "p - m"]
    unfolding fsub_def fadd_def flt.rd_minus flt.rd_nonneg_iff by simp_all
  then have "\<bar>fsub p m / fadd p m\<bar> \<le> 1"
    by (cases "fadd p m = 0") (auto simp: abs_le_iff divide_le_eq_1 minus_le_iff le_divide_eq)
  then show ?thesis unfolding fdiv_def by (rule flt.rd_abs_le) simp
qed

lemma subsignal_bounds:
  assumes "di_ok f" "(n, Some v) \<in> set (subsignals f)"
  shows "\<bar>v\<bar> \<le> 1"
proof -
  have c: "\<bar>clamp (- 1) 1 x\<bar> \<le> 1" for x using clamp_range [of "- 1" 1 x] by (auto simp: abs_le_iff)
  have c0: "\<bar>clamp 0 1 x\<bar> \<le> 1" for x using clamp_range [of 0 1 x] by auto
  have p: "\<forall>x \<in> set (momentum_parts f). \<bar>x\<bar> \<le> 1" "length (momentum_parts f) \<le> 2"
    using c by (auto simp: momentum_parts_def split: option.splits)
  from assms show ?thesis
    using c c0 mean_bound [OF p(1)] p(2)
    by (auto simp: subsignals_def trend_subsignal_def momentum_subsignal_def structure_subsignal_def
        directional_movement_subsignal_def di_ok_def Let_def di_balance
        split: option.splits if_splits intro!: abs_prod_le_one)
qed

lemma available_bounds: "di_ok f \<Longrightarrow> \<forall>x \<in> set (available (subsignals f)). \<bar>x\<bar> \<le> 1"
  using subsignal_bounds by (fastforce simp: available_def)

lemma available_length: "length (available (subsignals f)) \<le> 4"
  unfolding available_def using length_filter_le [of _ "map snd (subsignals f)"]
  by (simp add: subsignals_def)

lemma flt_half: "flt (1 / 2) = 1 / 2"
  by code_simp

lemma penalty_range: "0 \<le> volatility_confidence_penalty f \<and> volatility_confidence_penalty f \<le> 1"
proof -
  have "fsub 1 (fmul (fsub p q) 5) \<le> 1" if "q < p" for p q
  proof -
    have "0 \<le> fmul (fsub p q) 5" using that by (simp add: fmul_def fsub_def flt.rd_nonneg_iff)
    then show ?thesis unfolding fsub_def [of 1] by (intro flt.rd_le_one) simp
  qed
  then show ?thesis by (auto simp: volatility_confidence_penalty_def split: option.splits)
qed

lemma fmul_frac: "0 \<le> s \<Longrightarrow> s \<le> 1 \<Longrightarrow> 0 \<le> w \<Longrightarrow> flt w = w \<Longrightarrow> 0 \<le> fmul s w \<and> fmul s w \<le> w"
  unfolding fmul_def using flt.rd_mult_frac [of s w] by (simp add: flt.rd_nonneg_iff)

lemma score_side:
  "\<bar>raw\<bar> \<le> 1 \<Longrightarrow> 0 \<le> fdiv (fadd raw 1) 2 \<and> fdiv (fadd raw 1) 2 \<le> 1 \<and>
   (raw \<le> 0 \<longrightarrow> fdiv (fadd raw 1) 2 \<le> 1 / 2) \<and> (0 \<le> raw \<longrightarrow> 1 / 2 \<le> fdiv (fadd raw 1) 2)"
proof -
  assume r: "\<bar>raw\<bar> \<le> (1::rat)"
  have two: "flt 2 = 2" using flt_int [of 2] by simp
  have "0 \<le> fadd raw 1" "fadd raw 1 \<le> 2"
    unfolding fadd_def using r two by (auto simp: flt.rd_nonneg_iff abs_le_iff intro: flt.rd_le)
  moreover have "raw \<le> 0 \<Longrightarrow> fadd raw 1 \<le> 1" "0 \<le> raw \<Longrightarrow> 1 \<le> fadd raw 1"
    unfolding fadd_def by (auto intro: flt.rd_le_one flt.rd_ge)
  moreover have "y \<le> 1 \<Longrightarrow> flt (y / 2) \<le> 1 / 2" "1 \<le> y \<Longrightarrow> 1 / 2 \<le> flt (y / 2)" for y
    using flt.rd_le [OF _ flt_half, of "y / 2"] flt.rd_ge [OF _ flt_half, of "y / 2"] by simp_all
  ultimately show ?thesis
    unfolding fdiv_def by (auto simp: flt.rd_nonneg_iff intro: flt.rd_le_one)
qed

section \<open>Properties\<close>

text \<open>
  The technical score is honest. Score and confidence are in [0, 1]; with nothing
  available they are neutral and zero; otherwise the score is the rescaled mean of the
  available sub-signals, never altered by the final clamp and on the side of neutral its
  sign says, and the confidence is at most the share of sub-signals that were available.
\<close>

theorem technical_score_sound:
  assumes "di_ok f" "compute_technical_score f = (s, c, d)"
  shows "0 \<le> s \<and> s \<le> 1 \<and> 0 \<le> c \<and> c \<le> 1 \<and>
    (td_available_count d = 0 \<longrightarrow> s = 1 / 2 \<and> c = 0) \<and>
    (0 < td_available_count d \<longrightarrow> (\<exists>raw. td_raw_score d = Some raw \<and> \<bar>raw\<bar> \<le> 1 \<and>
       s = fdiv (fadd raw 1) 2 \<and> (raw \<le> 0 \<longrightarrow> s \<le> 1 / 2) \<and> (0 \<le> raw \<longrightarrow> 1 / 2 \<le> s) \<and>
       c \<le> fdiv (of_nat (td_available_count d)) 4))"
proof (cases "available (subsignals f) = []")
  case True
  with assms(2) show ?thesis by (auto simp: compute_technical_score_def Let_def)
next
  case False
  let ?vs = "available (subsignals f)"
  define raw where "raw = fdiv (fsum ?vs) (of_nat (length ?vs))"
  define cp where "cp = fdiv (of_nat (length ?vs)) (4 :: rat)"
  have raw: "\<bar>raw\<bar> \<le> 1"
    unfolding raw_def using available_bounds [OF assms(1)] False available_length [of f]
    by (intro mean_bound) auto
  have cp: "0 \<le> cp" "cp \<le> 1" "flt cp = cp"
    unfolding cp_def fdiv_def using available_length [of f] flt.rd_ratio [of "of_nat (length ?vs)" 4]
    by simp_all
  have conv: "0 \<le> fmul \<bar>raw\<bar> cp" "fmul \<bar>raw\<bar> cp \<le> cp" "flt (fmul \<bar>raw\<bar> cp) = fmul \<bar>raw\<bar> cp"
    using fmul_frac [of "\<bar>raw\<bar>" cp] raw cp by (simp_all add: fmul_def)
  have conf: "0 \<le> fmul (fmul \<bar>raw\<bar> cp) (volatility_confidence_penalty f)"
    "fmul (fmul \<bar>raw\<bar> cp) (volatility_confidence_penalty f) \<le> cp"
    using fmul_frac [of "volatility_confidence_penalty f" "fmul \<bar>raw\<bar> cp"] penalty_range [of f] conv
    by (simp_all add: fmul_def mult.commute)
  have "length (subsignals f) = 4" by (simp add: subsignals_def)
  then have "s = fdiv (fadd raw 1) 2" "c = fmul (fmul \<bar>raw\<bar> cp) (volatility_confidence_penalty f)"
    "td_available_count d = length ?vs" "td_raw_score d = Some raw"
    using assms(2) False score_side [OF raw] conf cp(2)
    by (auto simp: compute_technical_score_def Let_def clamp_id raw_def [symmetric] cp_def [symmetric])
  with False raw score_side [OF raw] conf cp show ?thesis by (auto simp: cp_def [symmetric])
qed

definition sample_features :: features where
  "sample_features = [(''sma_20'', JNum 102), (''sma_50'', JNum 100), (''rsi_14'', JNum 60),
     (''plus_di'', JNum 30), (''minus_di'', JNum 10), (''structure_trend'', JStr ''BULLISH'')]"

theorem technical_score_sound_witness:
  "let (s, c, d) = compute_technical_score sample_features in
   0 \<le> s \<and> s \<le> 1 \<and> 0 < td_available_count d \<and> c \<le> fdiv (of_nat (td_available_count d)) 4"
proof -
  obtain s c d where e: "compute_technical_score sample_features = (s, c, d)" by (rule prod_cases3)
  have "di_ok sample_features" by (simp add: di_ok_def num_def sample_features_def)
  moreover have "trend_subsignal sample_features = (''trend'', Some v) \<Longrightarrow> 0 < td_available_count d" for v
    using arg_cong [OF e, of "\<lambda>x. td_available_count (snd (snd x))"]
    by (auto simp: compute_technical_score_def available_def subsignals_def Let_def split: if_splits)
  moreover have "\<exists>v. trend_subsignal sample_features = (''trend'', Some v)"
    by (simp add: trend_subsignal_def num_def sample_features_def)
  ultimately show ?thesis using technical_score_sound [of sample_features s c d] e by auto
qed

end
