(* ===== verification/Table.thy ===== *)
theory Table
  imports Prelude
begin

text \<open>
  A database table with a unique key and \<open>INSERT ... ON CONFLICT (key) DO UPDATE\<close>, the way every
  component that stores computed rows writes them. The locale states what the update clause of
  a statement must respect and gives what a component may rely on afterwards.
\<close>

definition upsert :: "('r \<Rightarrow> 'k) \<Rightarrow> ('r \<Rightarrow> 'r \<Rightarrow> 'r) \<Rightarrow> 'r \<Rightarrow> 'r list \<Rightarrow> 'r list" where
  "upsert key merge r rows =
     (if key r \<in> set (map key rows)
      then map (\<lambda>q. if key q = key r then merge r q else q) rows else rows @ [r])"

locale keyed_table =
  fixes key :: "'r \<Rightarrow> 'k" and merge :: "'r \<Rightarrow> 'r \<Rightarrow> 'r"
  assumes key_merge: "key (merge new old) = key old"
begin

lemma upsert_keys:
  "map key (upsert key merge r rows) =
     (if key r \<in> set (map key rows) then map key rows else map key rows @ [key r])"
  by (auto simp: upsert_def key_merge)

lemma upsert_key_set: "set (map key (upsert key merge r rows)) = insert (key r) (set (map key rows))"
  unfolding upsert_keys by auto

lemma upsert_distinct: "distinct (map key rows) \<Longrightarrow> distinct (map key (upsert key merge r rows))"
  unfolding upsert_keys by simp

lemma upsert_others: "filter (\<lambda>q. key q \<noteq> key r) (upsert key merge r rows) = filter (\<lambda>q. key q \<noteq> key r) rows"
proof -
  have "filter (\<lambda>q. key q \<noteq> key r) (map (\<lambda>q. if key q = key r then merge r q else q) rows) =
      filter (\<lambda>q. key q \<noteq> key r) rows"
    by (induction rows) (simp_all add: key_merge)
  then show ?thesis by (simp add: upsert_def)
qed

lemma upsert_run_distinct:
  "distinct (map key rows) \<Longrightarrow> distinct (map key (fold (upsert key merge) rs rows))"
  by (induction rs arbitrary: rows) (auto intro: upsert_distinct)

lemma upsert_run_keys: "set (map key (fold (upsert key merge) rs rows)) = key ` set rs \<union> set (map key rows)"
proof (induction rs arbitrary: rows)
  case (Cons r rs)
  show ?case unfolding fold_simps Cons.IH upsert_key_set by auto
qed simp

text \<open>Inside a table with a key only once, the row of that key is the merged or the new one.\<close>

lemma upsert_row:
  assumes "distinct (map key rows)"
  shows "\<exists>q. filter (\<lambda>x. key x = key r) (upsert key merge r rows) = [q] \<and>
    (q = r \<and> key r \<notin> set (map key rows) \<or> (\<exists>old \<in> set rows. key old = key r \<and> q = merge r old))"
proof (cases "key r \<in> set (map key rows)")
  case False
  have "key x \<noteq> key r" if "x \<in> set rows" for x using False imageI [OF that, of key] by auto
  then have "filter (\<lambda>x. key x = key r) rows = []" by simp
  with False show ?thesis by (simp add: upsert_def)
next
  case True
  then obtain old where old: "old \<in> set rows" "key old = key r" by auto
  then obtain xs ys where rows: "rows = xs @ old # ys" by (meson split_list)
  have d: "key old \<notin> key ` set xs" "key old \<notin> key ` set ys" using assms by (auto simp: rows)
  have ne: "key x \<noteq> key r" if "x \<in> set xs \<union> set ys" for x
    using that
  proof (elim UnE)
    assume "x \<in> set xs"
    then have "key x \<in> key ` set xs" by (rule imageI)
    with d(1) old(2) show ?thesis by metis
  next
    assume "x \<in> set ys"
    then have "key x \<in> key ` set ys" by (rule imageI)
    with d(2) old(2) show ?thesis by metis
  qed
  have "\<forall>x \<in> set zs. key x \<noteq> key r \<Longrightarrow>
      filter (\<lambda>x. key x = key r) (map (\<lambda>q. if key q = key r then merge r q else q) zs) = []" for zs
    by (induction zs) auto
  then have "filter (\<lambda>x. key x = key r) (map (\<lambda>q. if key q = key r then merge r q else q) rows) = [merge r old]"
    using ne old(2) by (simp add: rows key_merge)
  with True old show ?thesis by (auto simp: upsert_def)
qed

text \<open>A statement of several rows, each key once.\<close>

lemma upsert_keeps: "q \<in> set rows \<Longrightarrow> key q \<noteq> key r \<Longrightarrow> q \<in> set (upsert key merge r rows)"
  by (force simp: upsert_def)

lemma upsert_run_keeps: "q \<in> set rows \<Longrightarrow> key q \<notin> key ` set rs \<Longrightarrow> q \<in> set (fold (upsert key merge) rs rows)"
  by (induction rs arbitrary: rows) (auto intro: upsert_keeps)

lemma upsert_length:
  "length (upsert key merge r rows) = length rows + (if key r \<in> set (map key rows) then 0 else 1)"
  by (simp add: upsert_def)

lemma upsert_run_length:
  "distinct (map key rs) \<Longrightarrow>
   length (fold (upsert key merge) rs rows) = length rows + length (filter (\<lambda>r. key r \<notin> set (map key rows)) rs)"
proof (induction rs arbitrary: rows)
  case (Cons r rs)
  have "key q \<noteq> key r" if "q \<in> set rs" for q using Cons.prems that by (metis distinct.simps(2) image_eqI list.set_map list.simps(9))
  then have "filter (\<lambda>q. key q \<notin> set (map key (upsert key merge r rows))) rs = filter (\<lambda>q. key q \<notin> set (map key rows)) rs"
    unfolding upsert_key_set by (intro filter_cong) auto
  with Cons.IH [of "upsert key merge r rows"] Cons.prems show ?case by (simp add: upsert_length)
qed simp

lemma upsert_run_row:
  assumes "distinct (map key rs)" "distinct (map key rows)" "r \<in> set rs"
  shows "\<exists>q \<in> set (fold (upsert key merge) rs rows). key q = key r \<and> (q = r \<or> (\<exists>old. q = merge r old))"
  using assms
proof (induction rs arbitrary: rows)
  case (Cons x xs)
  have d: "distinct (map key (upsert key merge x rows))" using Cons.prems(2) by (rule upsert_distinct)
  show ?case
  proof (cases "r \<in> set xs")
    case True
    with Cons d show ?thesis by simp
  next
    case False
    then have x: "x = r" using Cons.prems(3) by simp
    from upsert_row [OF Cons.prems(2), of x] obtain q where
      q: "filter (\<lambda>y. key y = key x) (upsert key merge x rows) = [q]" "q = x \<or> (\<exists>old. q = merge x old)" by auto
    have "q \<in> set (filter (\<lambda>y. key y = key x) (upsert key merge x rows))" by (simp add: q(1))
    then have "q \<in> set (upsert key merge x rows)" "key q = key x" by simp_all
    moreover have "key x \<notin> key ` set xs" using Cons.prems(1) by simp
    ultimately show ?thesis using q(2) x upsert_run_keeps [of q "upsert key merge x rows" xs] by auto
  qed
qed simp

end

end
