(* ===== verification/ModelRegistry.thy ===== *)
theory ModelRegistry
  imports Dataset TechnicalScore Enums Table
begin

text \<open>
  The registry of trained models: \<open>models/ml.py\<close>'s rows, the integrity check of
  \<open>ml/registry.py\<close>, the training job of \<open>ml/training.py\<close> with the acceptance bar of
  \<open>ml/metrics.py\<close>, and inference as in \<open>ml/prediction.py\<close> and \<open>ml/lightgbm_model.py\<close>.
  LightGBM (fitting, evaluating, a booster's predictions), the disk and SHA-256 are arguments.
\<close>

section \<open>Rows\<close>

record model_version =
  mv_model_id :: string
  mv_version :: string
  mv_status :: model_status
  mv_symbol :: "string option"
  mv_timeframe :: "string option"
  mv_feature_version :: string
  mv_artifact_path :: string
  mv_artifact_sha256 :: "string option"
  mv_created_at :: int
  mv_notes :: string

definition mv_key :: "model_version \<Rightarrow> string \<times> string" where
  "mv_key v = (mv_model_id v, mv_version v)"

section \<open>Integrity\<close>

record artifact_problem =
  ap_model_id :: string
  ap_version :: string
  ap_status :: model_status
  ap_artifact_path :: string
  ap_missing :: bool

definition is_absolute :: "string \<Rightarrow> bool" where
  "is_absolute p \<longleftrightarrow> take 1 p = ''/''"

definition resolve_path :: "string \<Rightarrow> string \<Rightarrow> string" where
  "resolve_path base p = (if is_absolute p then p else base @ ''/'' @ p)"

text \<open>The disk maps a file's path to the digest of its content.\<close>

type_synonym disk = "string \<Rightarrow> string option"

definition problem_of :: "disk \<Rightarrow> string \<Rightarrow> model_version \<Rightarrow> artifact_problem option" where
  "problem_of disk base v =
     (let path = resolve_path base (mv_artifact_path v);
          problem = (\<lambda>missing. \<lparr>ap_model_id = mv_model_id v, ap_version = mv_version v,
            ap_status = mv_status v, ap_artifact_path = path, ap_missing = missing\<rparr>)
      in case disk path of
           None \<Rightarrow> Some (problem True)
         | Some digest \<Rightarrow> (case mv_artifact_sha256 v of
               Some sha \<Rightarrow> if sha \<noteq> '''' \<and> digest \<noteq> sha then Some (problem False) else None
             | None \<Rightarrow> None))"

definition checked_statuses :: "model_status list" where
  "checked_statuses = [PRODUCTION, VALIDATED, CANDIDATE]"

definition verify_registry_artifacts :: "disk \<Rightarrow> string \<Rightarrow> model_version list \<Rightarrow> nat \<times> artifact_problem list" where
  "verify_registry_artifacts disk base versions =
     (let rows = filter (\<lambda>v. mv_status v \<in> set checked_statuses) versions
      in (length rows, List.map_filter (problem_of disk base) rows))"

definition report_ok :: "nat \<times> artifact_problem list \<Rightarrow> bool" where
  "report_ok r \<longleftrightarrow> snd r = []"

definition production_broken :: "nat \<times> artifact_problem list \<Rightarrow> bool" where
  "production_broken r \<longleftrightarrow> list_ex (\<lambda>p. ap_status p = PRODUCTION) (snd r)"

definition integrity_note :: "artifact_problem \<Rightarrow> string" where
  "integrity_note p = ''
[integrity] '' @ (if ap_missing p then ''Artifact file is missing on disk.''
     else ''Artifact checksum does not match the registry record.'')"

definition demote_row :: "artifact_problem \<Rightarrow> model_version \<Rightarrow> model_version" where
  "demote_row p v = v\<lparr>mv_status := ModREJECTED, mv_notes := mv_notes v @ integrity_note p\<rparr>"

text \<open>One problem: the row with its key, if any, is demoted.\<close>

definition demote_one :: "artifact_problem \<Rightarrow> model_version list \<times> (string \<times> string) list \<Rightarrow> model_version list \<times> (string \<times> string) list" where
  "demote_one p s =
     (case s of (versions, demoted) \<Rightarrow>
        if ap_status p \<noteq> PRODUCTION then s
        else let k = (ap_model_id p, ap_version p) in
          if k \<in> set (map mv_key versions)
          then (map (\<lambda>v. if mv_key v = k then demote_row p v else v) versions, demoted @ [k])
          else s)"

definition demote_broken_production_models ::
  "model_version list \<Rightarrow> artifact_problem list \<Rightarrow> model_version list \<times> (string \<times> string) list" where
  "demote_broken_production_models versions problems = fold demote_one problems (versions, [])"

section \<open>Training\<close>

definition model_id_for :: "string \<Rightarrow> string \<Rightarrow> string" where
  "model_id_for s tf = ''lightgbm_'' @ lower s @ ''_'' @ tf"

record eval_metrics =
  ev_accuracy :: rat
  ev_macro_f1 :: rat

definition passes_minimum_bar :: "eval_metrics \<Rightarrow> rat \<Rightarrow> rat \<Rightarrow> bool" where
  "passes_minimum_bar m min_accuracy min_macro_f1 \<longleftrightarrow>
     min_accuracy \<le> ev_accuracy m \<and> min_macro_f1 \<le> ev_macro_f1 m"

datatype training_error = InsufficientData | Raised_in_training exn

record training_outcome =
  to_status :: job_status
  to_model_version :: "string option"
  to_registry_status :: "model_status option"
  to_error :: "training_error option"
  to_metrics :: "(eval_metrics \<times> eval_metrics) option"

definition failed_outcome :: "training_error \<Rightarrow> training_outcome" where
  "failed_outcome err = \<lparr>to_status = FAILED, to_model_version = None, to_registry_status = None,
     to_error = Some err, to_metrics = None\<rparr>"

text \<open>Fitting, evaluating on labelled rows, and saving (the path under the base and its digest).\<close>

record 'm learner =
  ln_fit :: "training_frame \<Rightarrow> exn + 'm"
  ln_evaluate :: "'m \<Rightarrow> labelled_row list \<Rightarrow> exn + eval_metrics"
  ln_save :: "'m \<Rightarrow> string \<Rightarrow> exn + string \<times> string"

definition register ::
  "settings \<Rightarrow> string \<Rightarrow> string \<Rightarrow> string \<Rightarrow> int \<Rightarrow> eval_metrics \<Rightarrow> string \<times> string \<Rightarrow> model_version" where
  "register st s tf version now val saved =
     (let mc = st_models st;
          passes = passes_minimum_bar val (mc_min_validation_accuracy mc) (mc_min_validation_macro_f1 mc)
      in \<lparr>mv_model_id = model_id_for s tf, mv_version = version,
          mv_status = (if passes then VALIDATED else CANDIDATE),
          mv_symbol = Some s, mv_timeframe = Some tf, mv_feature_version = mc_feature_version mc,
          mv_artifact_path = fst saved, mv_artifact_sha256 = Some (snd saved), mv_created_at = now,
          mv_notes = (if passes then '''' else
            ''Did not clear the ML-metric bar for VALIDATED; kept as CANDIDATE, not deleted.'')\<rparr>)"

definition train_and_register ::
  "'m learner \<Rightarrow> settings \<Rightarrow> feature_row list \<Rightarrow> candle list \<Rightarrow> string \<Rightarrow> string \<Rightarrow> string \<Rightarrow> int
     \<Rightarrow> exn + training_outcome \<times> model_version option" where
  "train_and_register lrn st features candles s tf version now =
     (case build_training_frame features candles s tf (st_models st) of
        Inl err \<Rightarrow> Inl err
      | Inr fr \<Rightarrow>
          if frame_is_empty fr \<or> int (length (tf_train fr)) < mc_min_training_rows (st_models st)
          then Inr (failed_outcome InsufficientData, None)
          else (case ln_fit lrn fr of Inl err \<Rightarrow> Inl err | Inr m \<Rightarrow>
               (case ln_evaluate lrn m (tf_validation fr) of Inl err \<Rightarrow> Inl err | Inr val \<Rightarrow>
               (case ln_evaluate lrn m (tf_test fr) of Inl err \<Rightarrow> Inl err | Inr test \<Rightarrow>
               (case ln_save lrn m (model_id_for s tf @ ''_'' @ version) of Inl err \<Rightarrow> Inl err | Inr saved \<Rightarrow>
                 (let row = register st s tf version now val saved in
                  Inr (\<lparr>to_status = SUCCEEDED, to_model_version = Some version,
                        to_registry_status = Some (mv_status row), to_error = None,
                        to_metrics = Some (val, test)\<rparr>, Some row)))))))"

record training_run =
  tn_job_id :: string
  tn_model_id :: string
  tn_status :: job_status
  tn_started_at :: int
  tn_finished_at :: "int option"
  tn_outcome :: "training_outcome option"

definition started_run :: "string \<Rightarrow> string \<Rightarrow> string \<Rightarrow> int \<Rightarrow> training_run" where
  "started_run job s tf now = \<lparr>tn_job_id = job, tn_model_id = model_id_for s tf, tn_status = JobRUNNING,
     tn_started_at = now, tn_finished_at = None, tn_outcome = None\<rparr>"

text \<open>The job: the run row it leaves, the registry and the outcome; an exception is an outcome.\<close>

definition run_training_job ::
  "'m learner \<Rightarrow> settings \<Rightarrow> feature_row list \<Rightarrow> candle list \<Rightarrow> model_version list \<Rightarrow> training_run list
     \<Rightarrow> string \<Rightarrow> string \<Rightarrow> string \<Rightarrow> string \<Rightarrow> int \<times> int
     \<Rightarrow> model_version list \<times> training_run list \<times> training_outcome" where
  "run_training_job lrn st features candles versions runs s tf job version clock =
     (let (outcome, row) = (case train_and_register lrn st features candles s tf version (snd clock) of
            Inl err \<Rightarrow> (failed_outcome (Raised_in_training err), None) | Inr r \<Rightarrow> r);
          run = (started_run job s tf (fst clock))\<lparr>tn_status := to_status outcome,
            tn_finished_at := Some (snd clock), tn_outcome := Some outcome\<rparr>
      in (case row of None \<Rightarrow> versions | Some v \<Rightarrow> versions @ [v], runs @ [run], outcome))"

section \<open>Inference\<close>

text \<open>What a model directory holds: the booster (its feature count and prediction) and the columns.\<close>

record model_files =
  mf_booster :: "(nat \<times> (rat list \<Rightarrow> rat list)) option"
  mf_columns :: "string list option"

definition load_model :: "model_files \<Rightarrow> exn + string list \<times> (rat list \<Rightarrow> rat list)" where
  "load_model files =
     (case (mf_booster files, mf_columns files) of
        (Some (n, booster), Some columns) \<Rightarrow>
          if n \<noteq> length columns then Inl ValidationError else Inr (columns, booster)
      | _ \<Rightarrow> Inl ValidationError)"

definition fusion_score_from_probabilities :: "rat \<Rightarrow> rat \<Rightarrow> rat" where
  "fusion_score_from_probabilities prob_up prob_down = fdiv (fadd (fsub prob_up prob_down) 1) 2"

definition confidence_from_probabilities :: "rat list \<Rightarrow> rat" where
  "confidence_from_probabilities proba = fold max (tl proba) (hd proba)"

record prediction =
  mp_model_id :: string
  mp_model_version :: string
  mp_feature_version :: string
  mp_symbol :: string
  mp_timeframe :: string
  mp_open_time :: int
  mp_predicted_at :: int
  mp_prob_up :: rat
  mp_prob_neutral :: rat
  mp_prob_down :: rat
  mp_fusion_score :: rat
  mp_confidence :: rat
  mp_shadow_mode :: bool

definition mp_key :: "prediction \<Rightarrow> string \<times> string \<times> string \<times> int" where
  "mp_key p = (mp_model_version p, mp_symbol p, mp_timeframe p, mp_open_time p)"

text \<open>\<open>INSERT ... ON CONFLICT DO UPDATE\<close> on the unique key.\<close>

definition refresh_prediction :: "prediction \<Rightarrow> prediction \<Rightarrow> prediction" where
  "refresh_prediction new old = old\<lparr>mp_predicted_at := mp_predicted_at new, mp_prob_up := mp_prob_up new,
     mp_prob_neutral := mp_prob_neutral new, mp_prob_down := mp_prob_down new,
     mp_fusion_score := mp_fusion_score new, mp_confidence := mp_confidence new\<rparr>"

definition upsert_prediction :: "prediction \<Rightarrow> prediction list \<Rightarrow> prediction list" where
  "upsert_prediction = upsert mp_key refresh_prediction"

text \<open>
  The row as the columns keep it: \<open>qz scale\<close> rounds to a \<open>Numeric\<close> column. \<open>predict_latest\<close> hands
  out the unrounded object.
\<close>

definition stored_prediction :: "(nat \<Rightarrow> rat \<Rightarrow> rat) \<Rightarrow> prediction \<Rightarrow> prediction" where
  "stored_prediction qz p = p\<lparr>mp_prob_up := qz 6 (mp_prob_up p), mp_prob_neutral := qz 6 (mp_prob_neutral p),
     mp_prob_down := qz 6 (mp_prob_down p), mp_fusion_score := qz 4 (mp_fusion_score p),
     mp_confidence := qz 4 (mp_confidence p)\<rparr>"

lemma stored_prediction_same [simp]:
  "mp_key (stored_prediction qz p) = mp_key p" "mp_shadow_mode (stored_prediction qz p) = mp_shadow_mode p"
  by (simp_all add: stored_prediction_def mp_key_def)

text \<open>PostgreSQL rounds halves away from zero.\<close>

definition numeric_column :: "nat \<Rightarrow> rat \<Rightarrow> rat" where
  "numeric_column scale x = (let r = of_int \<lfloor>\<bar>x\<bar> * 10 ^ scale + 1 / 2\<rfloor> / 10 ^ scale in if x < 0 then - r else r)"

interpretation predictions: keyed_table mp_key refresh_prediction
  by unfold_locales (simp add: mp_key_def refresh_prediction_def)

definition parent_dir :: "string \<Rightarrow> string" where
  "parent_dir p = rev (drop 1 (dropWhile (\<lambda>c. c \<noteq> CHR ''/'') (rev p)))"

text \<open>The model's inputs, \<open>None\<close> when one is missing or NaN.\<close>

fun model_inputs :: "string list \<Rightarrow> encoded \<Rightarrow> rat list option" where
  "model_inputs [] d = Some []"
| "model_inputs (col # cols) d =
     (case map_of d col of
        Some (Some x) \<Rightarrow> map_option (Cons x) (model_inputs cols d)
      | _ \<Rightarrow> None)"

definition predict_latest ::
  "(nat \<Rightarrow> rat \<Rightarrow> rat) \<Rightarrow> (string \<Rightarrow> model_files) \<Rightarrow> string \<Rightarrow> model_version list \<Rightarrow> feature_row list \<Rightarrow> prediction list
     \<Rightarrow> string \<Rightarrow> string \<Rightarrow> int \<Rightarrow> exn + prediction list \<times> prediction option" where
  "predict_latest qz artifacts base versions features preds mid version now =
     (case find (\<lambda>v. mv_key v = (mid, version)) versions of
        None \<Rightarrow> Inl NotFoundError
      | Some v \<Rightarrow>
          (case (mv_symbol v, mv_timeframe v) of
             (Some s, Some tf) \<Rightarrow>
               (case load_model (artifacts (parent_dir (resolve_path base (mv_artifact_path v)))) of
                  Inl err \<Rightarrow> Inl err
                | Inr (columns, booster) \<Rightarrow>
                    (case latest_feature features s tf (mv_feature_version v) of
                       None \<Rightarrow> Inr (preds, None)
                     | Some row \<Rightarrow>
                         (case encode_features (ft_features row) of
                            Inl err \<Rightarrow> Inl err
                          | Inr d \<Rightarrow>
                              (case model_inputs columns d of
                                 None \<Rightarrow> Inr (preds, None)
                               | Some xs \<Rightarrow>
                                   (case booster xs of
                                      down # neutral # up # _ \<Rightarrow>
                                        (let p = \<lparr>mp_model_id = mid, mp_model_version = version,
                                               mp_feature_version = mv_feature_version v, mp_symbol = s,
                                               mp_timeframe = tf, mp_open_time = ft_open_time row,
                                               mp_predicted_at = now, mp_prob_up = up,
                                               mp_prob_neutral = neutral, mp_prob_down = down,
                                               mp_fusion_score = fusion_score_from_probabilities up down,
                                               mp_confidence = confidence_from_probabilities (booster xs),
                                               mp_shadow_mode = True\<rparr>
                                         in Inr (upsert_prediction (stored_prediction qz p) preds, Some p))
                                    | _ \<Rightarrow> Inl IndexError)))))
           | _ \<Rightarrow> Inl ValidationError))"

section \<open>Demotion\<close>

lemma problem_of_key: "problem_of disk base v = Some p \<Longrightarrow>
    ap_model_id p = mv_model_id v \<and> ap_version p = mv_version v \<and> ap_status p = mv_status v"
  by (auto simp: problem_of_def Let_def split: option.splits if_splits)

lemma problem_of_demote [simp]: "problem_of disk base (demote_row p v) = None \<longleftrightarrow> problem_of disk base v = None"
  by (auto simp: problem_of_def demote_row_def Let_def split: option.splits)

lemma demote_row_key [simp]: "mv_key (demote_row p v) = mv_key v"
  by (simp add: mv_key_def demote_row_def)

lemma demote_keys: "map mv_key (fst (fold demote_one ps (vs, ds))) = map mv_key vs"
proof (induction ps arbitrary: vs ds)
  case (Cons p ps)
  have "map mv_key (fst (demote_one p (vs, ds))) = map mv_key vs"
    by (auto simp: demote_one_def Let_def)
  with Cons.IH show ?case by (metis fold_simps(2) prod.collapse)
qed simp

text \<open>A row after the fold: demoted by every production problem with its key, else untouched.\<close>

definition named :: "(string \<times> string) \<Rightarrow> artifact_problem \<Rightarrow> bool" where
  "named k p \<longleftrightarrow> ap_status p = PRODUCTION \<and> (ap_model_id p, ap_version p) = k"

lemma demote_fold:
  "fst (fold demote_one ps (vs, ds)) = map (\<lambda>v. fold demote_row (filter (named (mv_key v)) ps) v) vs"
proof (induction ps arbitrary: vs ds)
  case (Cons p ps)
  have 1: "fst (demote_one p (vs, ds)) = map (\<lambda>v. if named (mv_key v) p then demote_row p v else v) vs"
    by (auto simp: demote_one_def named_def Let_def image_iff intro!: map_idI [symmetric])
  have "fst (fold demote_one (p # ps) (vs, ds)) =
      map (\<lambda>v. fold demote_row (filter (named (mv_key v)) ps) v) (fst (demote_one p (vs, ds)))"
    using Cons.IH [of "fst (demote_one p (vs, ds))" "snd (demote_one p (vs, ds))"] by simp
  also have "\<dots> = map (\<lambda>v. fold demote_row (filter (named (mv_key v)) (p # ps)) v) vs"
    unfolding 1 by (auto simp: named_def)
  finally show ?case .
qed simp

lemma fold_demote: "ps \<noteq> [] \<Longrightarrow> mv_status (fold demote_row ps v) = ModREJECTED"
  by (induction ps rule: rev_induct) (auto simp: demote_row_def)

text \<open>An artifact is intact when it is there and its digest is the recorded one, if one is.\<close>

definition artifact_intact :: "disk \<Rightarrow> string \<Rightarrow> model_version \<Rightarrow> bool" where
  "artifact_intact disk base v \<longleftrightarrow> (case disk (resolve_path base (mv_artifact_path v)) of
     None \<Rightarrow> False | Some digest \<Rightarrow> mv_artifact_sha256 v \<in> {None, Some '''', Some digest})"

lemma intact_iff: "artifact_intact disk base v \<longleftrightarrow> problem_of disk base v = None"
  by (auto simp: artifact_intact_def problem_of_def Let_def split: option.splits)

lemma demotion_exact:
  assumes "distinct (map mv_key versions)"
    "(n, problems) = verify_registry_artifacts disk base versions"
    "(versions', demoted) = demote_broken_production_models versions problems"
  shows "map mv_key versions' = map mv_key versions \<and>
    (\<forall>i < length versions.
       if mv_status (versions ! i) = PRODUCTION \<and> \<not> artifact_intact disk base (versions ! i)
       then mv_status (versions' ! i) = ModREJECTED else versions' ! i = versions ! i)"
  unfolding intact_iff not_not
proof (intro conjI allI impI)
  have vs: "versions' = map (\<lambda>v. fold demote_row (filter (named (mv_key v)) problems) v) versions"
    using assms(3) demote_fold [of problems versions "[]"]
    by (metis demote_broken_production_models_def fst_conv)
  show "map mv_key versions' = map mv_key versions"
    using assms(3) demote_keys [of problems versions "[]"]
    by (metis demote_broken_production_models_def fst_conv)
  fix i
  assume i: "i < length versions"
  let ?v = "versions ! i"
  have ps: "problems = List.map_filter (problem_of disk base) (filter (\<lambda>v. mv_status v \<in> set checked_statuses) versions)"
    using assms(2) by (simp add: verify_registry_artifacts_def Let_def)
  have mem: "p \<in> set problems \<longleftrightarrow> (\<exists>v \<in> set versions. mv_status v \<in> set checked_statuses \<and> problem_of disk base v = Some p)" for p
    by (auto simp: ps List.map_filter_def image_iff)
  have "filter (named (mv_key ?v)) problems \<noteq> [] \<longleftrightarrow> mv_status ?v = PRODUCTION \<and> problem_of disk base ?v \<noteq> None"
  proof
    assume "filter (named (mv_key ?v)) problems \<noteq> []"
    then obtain p where p: "p \<in> set problems" "named (mv_key ?v) p" by (auto simp: filter_empty_conv)
    then obtain v where v: "v \<in> set versions" "problem_of disk base v = Some p" using mem by blast
    from problem_of_key [OF v(2)] p(2) have "mv_key v = mv_key ?v" "mv_status v = PRODUCTION"
      by (auto simp: named_def mv_key_def)
    with assms(1) v(1) i have "v = ?v" by (metis distinct_map inj_onD nth_mem)
    with v(2) \<open>mv_status v = PRODUCTION\<close> show "mv_status ?v = PRODUCTION \<and> problem_of disk base ?v \<noteq> None" by simp
  next
    assume a: "mv_status ?v = PRODUCTION \<and> problem_of disk base ?v \<noteq> None"
    then obtain p where p: "problem_of disk base ?v = Some p" by blast
    with a i mem have "p \<in> set problems" by (auto simp: checked_statuses_def)
    moreover have "named (mv_key ?v) p" using problem_of_key [OF p] a by (auto simp: named_def mv_key_def)
    ultimately show "filter (named (mv_key ?v)) problems \<noteq> []" by (auto simp: filter_empty_conv)
  qed
  then show "if mv_status ?v = PRODUCTION \<and> problem_of disk base ?v \<noteq> None
      then mv_status (versions' ! i) = ModREJECTED else versions' ! i = ?v"
    using i fold_demote by (auto simp: vs)
qed

section \<open>Properties\<close>

text \<open>
  C16: after the start-up check no model whose artifact is missing or altered (its digest is
  not the recorded one) is in production.
  No row disappears, and a row that was not a broken production model is left exactly as it was.
\<close>

theorem broken_models_leave_production:
  assumes "distinct (map mv_key versions)"
    "(n, problems) = verify_registry_artifacts disk base versions"
    "(versions', demoted) = demote_broken_production_models versions problems"
  shows "map mv_key versions' = map mv_key versions \<and>
    (\<forall>i < length versions.
       if mv_status (versions ! i) = PRODUCTION \<and> \<not> artifact_intact disk base (versions ! i)
       then mv_status (versions' ! i) = ModREJECTED else versions' ! i = versions ! i)"
  by (rule demotion_exact [OF assms])

definition prod_model :: "string \<Rightarrow> model_version" where
  "prod_model version = \<lparr>mv_model_id = ''lightgbm_btcusdt_1h'', mv_version = version, mv_status = PRODUCTION,
     mv_symbol = Some ''BTCUSDT'', mv_timeframe = Some ''1h'', mv_feature_version = ''v1'',
     mv_artifact_path = version @ ''/model.txt'', mv_artifact_sha256 = Some ''ab'', mv_created_at = 0, mv_notes = ''''\<rparr>"

text \<open>One artifact is on disk, the other is gone.\<close>

theorem broken_models_leave_production_witness:
  "\<exists>vs ds. demote_broken_production_models [prod_model ''a'', prod_model ''b'']
      (snd (verify_registry_artifacts (\<lambda>p. if p = ''/m/a/model.txt'' then Some ''ab'' else None) ''/m''
        [prod_model ''a'', prod_model ''b''])) = (vs, ds) \<and>
     vs ! 0 = prod_model ''a'' \<and> mv_status (vs ! 1) = ModREJECTED"
proof -
  let ?disk = "\<lambda>p. if p = ''/m/a/model.txt'' then Some ''ab'' else None"
  let ?vs = "[prod_model ''a'', prod_model ''b'']"
  obtain n ps where r: "(n, ps) = verify_registry_artifacts ?disk ''/m'' ?vs"
    by (cases "verify_registry_artifacts ?disk ''/m'' ?vs") simp
  obtain vs ds where d: "(vs, ds) = demote_broken_production_models ?vs ps"
    by (cases "demote_broken_production_models ?vs ps") simp
  have "distinct (map mv_key ?vs)" by (simp add: mv_key_def prod_model_def)
  from broken_models_leave_production [OF this r d] have
    "\<forall>i < 2. if \<not> artifact_intact ?disk ''/m'' (?vs ! i) then mv_status (vs ! i) = ModREJECTED else vs ! i = ?vs ! i"
    by (simp add: numeral_2_eq_2 All_less_Suc prod_model_def)
  moreover have "artifact_intact ?disk ''/m'' (prod_model ''a'')" "\<not> artifact_intact ?disk ''/m'' (prod_model ''b'')"
    by (simp_all add: artifact_intact_def prod_model_def resolve_path_def is_absolute_def)
  ultimately have "vs ! 0 = prod_model ''a''" "mv_status (vs ! 1) = ModREJECTED" by (auto split: if_splits)
  moreover have "ps = snd (verify_registry_artifacts ?disk ''/m'' ?vs)" using r by (metis snd_conv)
  ultimately show ?thesis using d by (intro exI [of _ vs] exI [of _ ds]) simp
qed

text \<open>
  A training job always ends as one finished run row, and no job promotes anything: it adds
  at most one registry row, VALIDATED exactly when the validation metrics clear both bars and
  CANDIDATE otherwise, trained on at least the configured number of rows; a failed job adds
  none and keeps its reason.
\<close>

theorem training_never_promotes:
  assumes "run_training_job lrn st features candles versions runs s tf job version clock = (versions', runs', outcome)"
    "mc = st_models st"
  shows "\<exists>run. runs' = runs @ [run] \<and> tn_status run = to_status outcome \<and> tn_finished_at run \<noteq> None \<and>
    (to_status outcome = FAILED \<and> versions' = versions \<and> to_error outcome \<noteq> None \<or>
     to_status outcome = SUCCEEDED \<and> (\<exists>row val test fr. versions' = versions @ [row] \<and>
       build_training_frame features candles s tf mc = Inr fr \<and>
       mc_min_training_rows mc \<le> int (length (tf_train fr)) \<and>
       to_metrics outcome = Some (val, test) \<and> to_model_version outcome = Some (mv_version row) \<and>
       mv_status row = (if mc_min_validation_accuracy mc \<le> ev_accuracy val \<and>
         mc_min_validation_macro_f1 mc \<le> ev_macro_f1 val then VALIDATED else CANDIDATE)))"
proof (cases "train_and_register lrn st features candles s tf version (snd clock)")
  case (Inl err)
  with assms(1) show ?thesis by (auto simp: run_training_job_def failed_outcome_def Let_def)
next
  case (Inr r)
  obtain o1 row where r: "r = (o1, row)" by (cases r)
  with Inr have "(o1 = failed_outcome InsufficientData \<and> row = None) \<or>
    (\<exists>fr val test v. build_training_frame features candles s tf mc = Inr fr \<and>
       mc_min_training_rows mc \<le> int (length (tf_train fr)) \<and> row = Some v \<and> to_status o1 = SUCCEEDED \<and>
       to_metrics o1 = Some (val, test) \<and> to_model_version o1 = Some (mv_version v) \<and>
       mv_status v = (if mc_min_validation_accuracy mc \<le> ev_accuracy val \<and>
         mc_min_validation_macro_f1 mc \<le> ev_macro_f1 val then VALIDATED else CANDIDATE))"
    unfolding train_and_register_def assms(2)
    by (auto simp: Let_def register_def passes_minimum_bar_def split: sum.splits if_splits)
  with assms(1) Inr r show ?thesis
    by (auto simp: run_training_job_def failed_outcome_def Let_def)
qed

definition no_learner :: "unit learner" where
  "no_learner = \<lparr>ln_fit = (\<lambda>_. Inl ValueError), ln_evaluate = (\<lambda>_ _. Inl ValueError), ln_save = (\<lambda>_ _. Inl ValueError)\<rparr>"

theorem training_never_promotes_witness:
  "\<exists>vs runs o1. run_training_job no_learner default_settings [] [] [] [] ''BTCUSDT'' ''1h'' ''job'' ''v'' (1, 2) = (vs, runs, o1) \<and>
     to_status o1 = FAILED \<and> vs = [] \<and> length runs = 1"
proof -
  obtain vs runs o1 where r: "run_training_job no_learner default_settings [] [] [] [] ''BTCUSDT'' ''1h'' ''job'' ''v'' (1, 2) =
      (vs, runs, o1)" by (rule prod_cases3)
  have "build_training_frame [] [] ''BTCUSDT'' ''1h'' (st_models default_settings) = Inr empty_frame"
    by (simp add: build_training_frame_def load_features_and_closes_def features_of_def)
  with training_never_promotes [OF r refl] r show ?thesis
    by (auto simp: empty_frame_def default_settings_def default_models_config_def)
qed

lemma mv_key_find: "find (\<lambda>v. mv_key v = k) versions = Some v \<Longrightarrow> v \<in> set versions \<and> mv_key v = k"
  by (auto simp: find_Some_iff)

lemma model_inputs_complete: "model_inputs cols d = Some xs \<Longrightarrow> \<forall>col \<in> set cols. \<exists>x. map_of d col = Some (Some x)"
  by (induction cols arbitrary: xs) (auto split: option.splits)

lemma fold_max_ge: "y \<le> fold max xs y \<and> (\<forall>x \<in> set xs. x \<le> fold max xs (y :: rat))"
proof (induction xs arbitrary: y)
  case (Cons x xs)
  from Cons.IH [of "max x y"] show ?case by auto
qed simp

lemma fold_max_le: "y \<le> b \<Longrightarrow> \<forall>x \<in> set xs. x \<le> b \<Longrightarrow> fold max xs y \<le> (b :: rat)"
  by (induction xs arbitrary: y) auto

text \<open>
  A stored prediction is complete and on the fusion scale. It exists only when every column
  the model was trained on has a value in the latest feature row; its score and confidence are
  in [0, 1] when the booster returns probabilities, the score is on the side of the likelier
  direction, it is always in shadow mode, and a repeated prediction replaces the one it repeats
  instead of adding a second.
\<close>

theorem prediction_sound:
  assumes "predict_latest qz artifacts base versions features preds mid version now = Inr (preds', Some p)"
    "\<And>dir n booster xs x. mf_booster (artifacts dir) = Some (n, booster) \<Longrightarrow> x \<in> set (booster xs) \<Longrightarrow> 0 \<le> x \<and> x \<le> 1"
    "distinct (map mp_key preds)"
  shows "0 \<le> mp_fusion_score p \<and> mp_fusion_score p \<le> 1 \<and> 0 \<le> mp_confidence p \<and> mp_confidence p \<le> 1 \<and>
    (mp_prob_down p \<le> mp_prob_up p \<longrightarrow> 1 / 2 \<le> mp_fusion_score p) \<and>
    (mp_prob_up p \<le> mp_prob_down p \<longrightarrow> mp_fusion_score p \<le> 1 / 2) \<and>
    mp_shadow_mode p \<and> distinct (map mp_key preds') \<and> mp_key p \<in> set (map mp_key preds') \<and>
    (\<exists>v row columns booster d. v \<in> set versions \<and> latest_feature features (mp_symbol p) (mp_timeframe p) (mv_feature_version v) = Some row \<and>
       load_model (artifacts (parent_dir (resolve_path base (mv_artifact_path v)))) = Inr (columns, booster) \<and>
       encode_features (ft_features row) = Inr d \<and> (\<forall>col \<in> set columns. \<exists>x. map_of d col = Some (Some x)))"
proof -
  from assms(1) obtain v columns booster row d xs down neutral up rest where
    v: "find (\<lambda>v. mv_key v = (mid, version)) versions = Some v" and
    l: "load_model (artifacts (parent_dir (resolve_path base (mv_artifact_path v)))) = Inr (columns, booster)" and
    row: "latest_feature features (mp_symbol p) (mp_timeframe p) (mv_feature_version v) = Some row" and
    d: "encode_features (ft_features row) = Inr d" "model_inputs columns d = Some xs" and
    b: "booster xs = down # neutral # up # rest" and
    p: "mp_prob_up p = up" "mp_prob_down p = down" "mp_fusion_score p = fusion_score_from_probabilities up down"
      "mp_confidence p = confidence_from_probabilities (booster xs)" "mp_shadow_mode p"
      "preds' = upsert_prediction (stored_prediction qz p) preds"
    unfolding predict_latest_def Let_def
    by (auto split: option.splits sum.splits list.splits prod.splits)
  have probs: "\<forall>x \<in> set (booster xs). 0 \<le> x \<and> x \<le> 1"
    using l assms(2) by (fastforce simp: load_model_def split: option.splits if_splits prod.splits)
  have raw: "\<bar>fsub up down\<bar> \<le> 1"
    unfolding fsub_def using probs b by (intro flt.rd_abs_le) (auto simp: abs_le_iff)
  have side: "fsub up down \<le> 0 \<longleftrightarrow> up \<le> down" "0 \<le> fsub up down \<longleftrightarrow> down \<le> up"
    by (simp_all add: fsub_def flt.rd_nonpos_iff flt.rd_nonneg_iff)
  have conf: "0 \<le> mp_confidence p" "mp_confidence p \<le> 1"
    using probs fold_max_ge [of down "neutral # up # rest"] fold_max_le [of down 1 "neutral # up # rest"]
    by (auto simp: p(4) confidence_from_probabilities_def b)
  have "distinct (map mp_key preds')" "mp_key p \<in> set (map mp_key preds')"
    using assms(3) predictions.upsert_distinct predictions.upsert_key_set [of "stored_prediction qz p" preds]
    by (simp_all add: p(6) upsert_prediction_def)
  with score_side [OF raw] side conf p v l row d mv_key_find [OF v] model_inputs_complete [OF d(2)]
  show ?thesis by (auto simp: fusion_score_from_probabilities_def)
qed

definition rising_model :: model_files where
  "rising_model = \<lparr>mf_booster = Some (1, \<lambda>xs. [1 / 4, 1 / 4, 1 / 2]), mf_columns = Some [''rsi_14'']\<rparr>"

definition rsi_row :: feature_row where
  "rsi_row = \<lparr>ft_symbol = ''BTCUSDT'', ft_timeframe = ''1h'', ft_open_time = 3600, ft_feature_version = ''v1'',
     ft_features = [(''rsi_14'', JNum 60), (''atr_14'', JNull)]\<rparr>"

theorem prediction_sound_witness:
  "\<exists>ps p. predict_latest numeric_column (\<lambda>_. rising_model) ''/m'' [prod_model ''a''] [rsi_row] [] ''lightgbm_btcusdt_1h'' ''a'' 9 =
      Inr (ps, Some p) \<and> 1 / 2 \<le> mp_fusion_score p \<and> mp_confidence p \<le> 1 \<and> mp_shadow_mode p"
proof -
  obtain ps p where r: "predict_latest numeric_column (\<lambda>_. rising_model) ''/m'' [prod_model ''a''] [rsi_row] []
      ''lightgbm_btcusdt_1h'' ''a'' 9 = Inr (ps, Some p)"
    "mp_prob_down p = 1 / 4" "mp_prob_up p = 1 / 2"
    by (simp add: predict_latest_def mv_key_def prod_model_def load_model_def rising_model_def latest_feature_def
        rsi_row_def encode_value_def Let_def)
  have "mf_booster ((\<lambda>_. rising_model) dir) = Some (n, booster) \<Longrightarrow> x \<in> set (booster xs) \<Longrightarrow> 0 \<le> x \<and> x \<le> 1"
    for dir :: string and n booster xs and x :: rat
    by (auto simp: rising_model_def)
  from prediction_sound [OF r(1) this] r show ?thesis by auto
qed

end
