(* ===== verification/Fusion.thy ===== *)
theory Fusion
  imports TechnicalScore
begin

text \<open>
  \<open>signals/fusion.py\<close>: the weighted average of the active components' scores and the
  decision taken on it. Reason codes are the code's strings.
\<close>

datatype component_details =
    TechnicalDetails score_details
  | ProbabilityDetails rat rat rat
  | ReasonDetails string
  | NoDetails

record component_score =
  cs_kind :: signal_component_kind
  cs_score :: rat
  cs_weight :: rat
  cs_confidence :: rat
  cs_version :: string
  cs_active :: bool
  cs_details :: component_details

record fusion_result =
  fr_action :: signal_action
  fr_score :: rat
  fr_confidence :: rat
  fr_reason_codes :: "string list"
  fr_components :: "component_score list"

fun kind_value :: "signal_component_kind \<Rightarrow> string" where
  "kind_value TECHNICAL = ''TECHNICAL''"
| "kind_value PATTERN = ''PATTERN''"
| "kind_value REGIME = ''REGIME''"
| "kind_value LIGHTGBM = ''LIGHTGBM''"
| "kind_value TRANSFORMER = ''TRANSFORMER''"
| "kind_value NEWS = ''NEWS''"
| "kind_value FUNDAMENTAL = ''FUNDAMENTAL''"
| "kind_value LOCAL_LLM = ''LOCAL_LLM''"
| "kind_value CLAUDE = ''CLAUDE''"

fun action_value :: "signal_action \<Rightarrow> string" where
  "action_value ActBUY = ''BUY''"
| "action_value ActSELL = ''SELL''"
| "action_value ActEXIT = ''EXIT''"
| "action_value ActWAIT = ''WAIT''"
| "action_value NO_VALID_SETUP = ''NO_VALID_SETUP''"

definition lean_code :: "component_score \<Rightarrow> string" where
  "lean_code c = ''COMPONENT_'' @ kind_value (cs_kind c) @ ''_'' @
     (if 1 / 2 < cs_score c then ''BULLISH''
      else if cs_score c < 1 / 2 then ''BEARISH'' else ''NEUTRAL'')"

definition weighted :: "(component_score \<Rightarrow> rat) \<Rightarrow> component_score list \<Rightarrow> rat" where
  "weighted g cs = fdiv (fsum (map (\<lambda>c. fmul (g c) (cs_weight c)) cs)) (fsum (map cs_weight cs))"

definition fuse :: "component_score list \<Rightarrow> rat \<Rightarrow> rat \<Rightarrow> fusion_result" where
  "fuse components min_confidence action_margin =
     (let active = filter cs_active components;
          result = (\<lambda>action score confidence codes. \<lparr>fr_action = action, fr_score = score,
            fr_confidence = confidence, fr_reason_codes = codes, fr_components = components\<rparr>)
      in if active = [] then result NO_VALID_SETUP (1 / 2) 0 [''NO_ACTIVE_COMPONENTS'']
         else if fsum (map cs_weight active) \<le> 0 then
           result NO_VALID_SETUP (1 / 2) 0 [''ZERO_TOTAL_WEIGHT'']
         else
           let fused_score = weighted cs_score active;
               fused_confidence = weighted cs_confidence active;
               codes = map lean_code active
           in if fused_confidence < min_confidence then
                result ActWAIT fused_score fused_confidence (''LOW_CONFIDENCE'' # codes)
              else
                let distance_from_neutral = fsub fused_score (1 / 2) in
                if \<bar>distance_from_neutral\<bar> < action_margin then
                  result ActWAIT fused_score fused_confidence (''NEAR_NEUTRAL'' # codes)
                else
                  let action = (if 0 < distance_from_neutral then ActBUY else ActSELL) in
                  result action fused_score fused_confidence
                    ((''THRESHOLD_'' @ action_value action) # codes))"

section \<open>The weighted average\<close>





lemma fsub_half: "0 < fsub x (1 / 2) \<longleftrightarrow> 1 / 2 < x"
  by (simp add: fsub_def flt.rd_pos_iff)

section \<open>Properties\<close>




text \<open>
  The docstring lets the sign of the score decide once it is far enough from neutral; with a margin
  of zero, which the configuration allows, a score without a sign is a SELL.
\<close>

lemma neutral_score_sells:
  assumes "cs_active c" "0 < fsum [cs_weight c]" "weighted cs_score [c] = 1 / 2" "min_conf \<le> weighted cs_confidence [c]"
  shows "fr_action (fuse [c] min_conf 0) = ActSELL"
  using assms by (simp add: fuse_def Let_def fsub_half)

text \<open>
  A single component of weight 1, the backtester's case, passes its score through unchanged.
\<close>

lemma fuse_single:
  "cs_active c \<Longrightarrow> cs_weight c = 1 \<Longrightarrow> flt (cs_score c) = cs_score c \<Longrightarrow> fr_score (fuse [c] mc mg) = cs_score c"
  by (simp add: fuse_def weighted_def fsum_def fadd_def fmul_def fdiv_def Let_def)

end
