(* ===== verification/SignalService.thy ===== *)
theory SignalService
  imports ModelRegistry Fusion
begin

text \<open>
  \<open>signals/service.py\<close>: gathering the components for the latest bar, fusing them and recording
  the decision with its components. The tables are a record; a decision for a bar that already
  has one replaces it. Scores, weights and confidences are stored rounded to four places by \<open>qz 4\<close>.
\<close>

section \<open>Tables\<close>

record signal =
  sn_id :: nat
  sn_symbol :: string
  sn_timeframe :: string
  sn_open_time :: int
  sn_generated_at :: int
  sn_action :: signal_action
  sn_score :: rat
  sn_confidence :: rat
  sn_reason_codes :: "string list"
  sn_strategy_version :: string
  sn_fusion_method :: string
  sn_venue :: execution_venue

definition sn_key :: "signal \<Rightarrow> string \<times> string \<times> int \<times> string \<times> execution_venue" where
  "sn_key s = (sn_symbol s, sn_timeframe s, sn_open_time s, sn_strategy_version s, sn_venue s)"

record signal_db =
  sb_signals :: "signal list"
  sb_components :: "(nat \<times> component_score) list"
  sb_next_id :: nat

definition VENUE :: execution_venue where "VENUE = VenPAPER"

section \<open>Components\<close>

definition best_lightgbm_version :: "model_version list \<Rightarrow> string \<Rightarrow> string \<Rightarrow> model_version option" where
  "best_lightgbm_version versions s tf =
     (let rows = sort_key (\<lambda>v. - mv_created_at v)
            (filter (\<lambda>v. mv_model_id v = model_id_for s tf \<and> mv_status v \<in> {VALIDATED, CANDIDATE}) versions);
          validated = filter (\<lambda>v. mv_status v = VALIDATED) rows
      in if rows = [] then None else if validated \<noteq> [] then Some (hd validated) else Some (hd rows))"

definition inactive :: "signal_component_kind \<Rightarrow> rat \<Rightarrow> string \<Rightarrow> string \<Rightarrow> component_score" where
  "inactive kind weight version reason = \<lparr>cs_kind = kind, cs_score = 1 / 2, cs_weight = weight,
     cs_confidence = 0, cs_version = version, cs_active = False, cs_details = ReasonDetails reason\<rparr>"

definition live_technical_component ::
  "feature_row list \<Rightarrow> string \<Rightarrow> string \<Rightarrow> models_config \<Rightarrow> component_score \<times> feature_row option" where
  "live_technical_component features s tf mc =
     (case latest_feature features s tf (mc_feature_version mc) of
        None \<Rightarrow> (inactive TECHNICAL (mc_technical_component_weight mc) TECHNICAL_SCORE_VERSION
                   ''No technical features computed yet.'', None)
      | Some row \<Rightarrow>
          (case compute_technical_score (ft_features row) of (score, confidence, details) \<Rightarrow>
             (\<lparr>cs_kind = TECHNICAL, cs_score = score, cs_weight = mc_technical_component_weight mc,
               cs_confidence = confidence, cs_version = TECHNICAL_SCORE_VERSION, cs_active = True,
               cs_details = TechnicalDetails details\<rparr>, Some row)))"

definition lightgbm_component ::
  "(nat \<Rightarrow> rat \<Rightarrow> rat) \<Rightarrow> (string \<Rightarrow> model_files) \<Rightarrow> string \<Rightarrow> model_version list \<Rightarrow> feature_row list \<Rightarrow> prediction list
     \<Rightarrow> string \<Rightarrow> string \<Rightarrow> rat \<Rightarrow> int \<Rightarrow> exn + prediction list \<times> component_score" where
  "lightgbm_component qz artifacts base versions features preds s tf weight now =
     (case best_lightgbm_version versions s tf of
        None \<Rightarrow> Inr (preds, inactive LIGHTGBM weight ''none'' ''No registered LightGBM model.'')
      | Some v \<Rightarrow>
          (case predict_latest qz artifacts base versions features preds (mv_model_id v) (mv_version v) now of
             Inl err \<Rightarrow> Inl err
           | Inr (preds', None) \<Rightarrow> Inr (preds', inactive LIGHTGBM weight (mv_version v)
                 ''Model registered but no prediction could be produced.'')
           | Inr (preds', Some p) \<Rightarrow>
               Inr (preds', \<lparr>cs_kind = LIGHTGBM,
                 cs_score = fusion_score_from_probabilities (mp_prob_up p) (mp_prob_down p),
                 cs_weight = weight, cs_confidence = mp_confidence p, cs_version = mv_version v,
                 cs_active = True,
                 cs_details = ProbabilityDetails (mp_prob_up p) (mp_prob_neutral p) (mp_prob_down p)\<rparr>)))"

section \<open>Recording\<close>

text \<open>The \<open>ON CONFLICT\<close> clause keeps the row and its id.\<close>

definition refresh_signal :: "signal \<Rightarrow> signal \<Rightarrow> signal" where
  "refresh_signal new old = old\<lparr>sn_generated_at := sn_generated_at new, sn_action := sn_action new,
     sn_score := sn_score new, sn_confidence := sn_confidence new, sn_reason_codes := sn_reason_codes new\<rparr>"

interpretation signals: keyed_table sn_key refresh_signal
  by unfold_locales (simp add: sn_key_def refresh_signal_def)

definition new_signal :: "(nat \<Rightarrow> rat \<Rightarrow> rat) \<Rightarrow> nat \<Rightarrow> string \<Rightarrow> string \<Rightarrow> int \<Rightarrow> string \<Rightarrow> fusion_result \<Rightarrow> int \<Rightarrow> signal" where
  "new_signal qz i s tf open_time strategy_version r now =
     \<lparr>sn_id = i, sn_symbol = s, sn_timeframe = tf, sn_open_time = open_time, sn_generated_at = now,
      sn_action = fr_action r, sn_score = qz 4 (fr_score r), sn_confidence = qz 4 (fr_confidence r),
      sn_reason_codes = fr_reason_codes r, sn_strategy_version = strategy_version,
      sn_fusion_method = ''weighted_average_v1'', sn_venue = VENUE\<rparr>"

definition stored_component :: "(nat \<Rightarrow> rat \<Rightarrow> rat) \<Rightarrow> component_score \<Rightarrow> component_score" where
  "stored_component qz c = c\<lparr>cs_score := qz 4 (cs_score c), cs_weight := qz 4 (cs_weight c), cs_confidence := qz 4 (cs_confidence c)\<rparr>"

definition persist_signal ::
  "(nat \<Rightarrow> rat \<Rightarrow> rat) \<Rightarrow> signal_db \<Rightarrow> string \<Rightarrow> string \<Rightarrow> int \<Rightarrow> string \<Rightarrow> fusion_result \<Rightarrow> int \<Rightarrow> signal_db \<times> signal option" where
  "persist_signal qz db s tf open_time strategy_version r now =
     (let new = new_signal qz (sb_next_id db) s tf open_time strategy_version r now;
          rows = upsert sn_key refresh_signal new (sb_signals db);
          row = find (\<lambda>x. sn_key x = sn_key new) rows
      in case row of
           None \<Rightarrow> (db, None)
         | Some sig \<Rightarrow>
             (\<lparr>sb_signals = rows,
               sb_components = filter (\<lambda>c. fst c \<noteq> sn_id sig) (sb_components db) @
                 map (\<lambda>c. (sn_id sig, stored_component qz c)) (fr_components r),
               sb_next_id = sb_next_id db + 1\<rparr>, Some sig))"

definition generate_signal ::
  "(nat \<Rightarrow> rat \<Rightarrow> rat) \<Rightarrow> (string \<Rightarrow> model_files) \<Rightarrow> string \<Rightarrow> settings \<Rightarrow> model_version list \<Rightarrow> feature_row list \<Rightarrow> prediction list
     \<Rightarrow> signal_db \<Rightarrow> string \<Rightarrow> string \<Rightarrow> int \<Rightarrow> exn + prediction list \<times> signal_db \<times> signal option" where
  "generate_signal qz artifacts base st versions features preds db s tf now =
     (let mc = st_models st in
      case live_technical_component features s tf mc of
        (_, None) \<Rightarrow> Inr (preds, db, None)
      | (technical, Some row) \<Rightarrow>
          (case lightgbm_component qz artifacts base versions features preds s tf (mc_lightgbm_component_weight mc) now of
             Inl err \<Rightarrow> Inl err
           | Inr (preds', lightgbm) \<Rightarrow>
               (let result = fuse [technical, lightgbm] (mc_fusion_min_confidence mc) (mc_fusion_action_margin mc);
                    (db', sig) = persist_signal qz db s tf (ft_open_time row) (mc_strategy_version mc) result now
                in Inr (preds', db', sig))))"

section \<open>Invariant of the tables\<close>

definition signal_db_ok :: "signal_db \<Rightarrow> bool" where
  "signal_db_ok db \<longleftrightarrow> distinct (map sn_key (sb_signals db)) \<and> distinct (map sn_id (sb_signals db)) \<and>
     (\<forall>s \<in> set (sb_signals db). sn_id s < sb_next_id db)"

lemma find_filter: "find P xs = (case filter P xs of [] \<Rightarrow> None | x # _ \<Rightarrow> Some x)"
  by (induction xs) auto

lemma refresh_id [simp]: "sn_id (refresh_signal new old) = sn_id old"
  by (simp add: refresh_signal_def)

lemma upsert_ids:
  "map sn_id (upsert sn_key refresh_signal new rows) =
     (if sn_key new \<in> set (map sn_key rows) then map sn_id rows else map sn_id rows @ [sn_id new])"
  by (auto simp: upsert_def)

text \<open>What recording a decision does to the tables.\<close>

lemma persist_signal_ok:
  assumes ok: "signal_db_ok db" and p: "persist_signal qz db s tf t sv r now = (db', sig)"
  obtains row where "sig = Some row" "signal_db_ok db'"
    "filter (\<lambda>x. sn_key x = (s, tf, t, sv, VENUE)) (sb_signals db') = [row]"
    "filter (\<lambda>x. sn_key x \<noteq> (s, tf, t, sv, VENUE)) (sb_signals db') = filter (\<lambda>x. sn_key x \<noteq> (s, tf, t, sv, VENUE)) (sb_signals db)"
    "sn_action row = fr_action r" "sn_score row = qz 4 (fr_score r)" "sn_confidence row = qz 4 (fr_confidence r)"
    "sn_reason_codes row = fr_reason_codes r" "sn_generated_at row = now"
    "\<forall>old \<in> set (sb_signals db). sn_key old = (s, tf, t, sv, VENUE) \<longrightarrow> sn_id row = sn_id old"
    "map snd (filter (\<lambda>c. fst c = sn_id row) (sb_components db')) = map (stored_component qz) (fr_components r)"
    "filter (\<lambda>c. fst c \<noteq> sn_id row) (sb_components db') = filter (\<lambda>c. fst c \<noteq> sn_id row) (sb_components db)"
proof -
  define new where "new = new_signal qz (sb_next_id db) s tf t sv r now"
  have key: "sn_key new = (s, tf, t, sv, VENUE)" by (simp add: new_def new_signal_def sn_key_def)
  have d: "distinct (map sn_key (sb_signals db))" using ok by (simp add: signal_db_ok_def)
  let ?rows = "upsert sn_key refresh_signal new (sb_signals db)"
  obtain row where row: "filter (\<lambda>x. sn_key x = sn_key new) ?rows = [row]"
    "row = new \<and> sn_key new \<notin> set (map sn_key (sb_signals db)) \<or>
     (\<exists>old \<in> set (sb_signals db). sn_key old = sn_key new \<and> row = refresh_signal new old)"
    using signals.upsert_row [OF d] by blast
  then have "find (\<lambda>x. sn_key x = sn_key new) ?rows = Some row" by (simp add: find_filter)
  with p have db': "db' = \<lparr>sb_signals = ?rows, sb_components = filter (\<lambda>c. fst c \<noteq> sn_id row) (sb_components db) @
      map (\<lambda>c. (sn_id row, stored_component qz c)) (fr_components r), sb_next_id = sb_next_id db + 1\<rparr>" "sig = Some row"
    by (simp_all add: persist_signal_def new_def [symmetric] Let_def)
  have ids: "sn_id x < sb_next_id db + 1" if "x \<in> set ?rows" for x
  proof -
    have "sn_id x \<in> set (map sn_id ?rows)" using that by simp
    then show ?thesis
      using ok by (auto simp: upsert_ids signal_db_ok_def new_def new_signal_def less_Suc_eq split: if_splits)
  qed
  have "distinct (map sn_id ?rows)"
    using ok by (auto simp: upsert_ids signal_db_ok_def new_def new_signal_def)
  with ids d have ok': "signal_db_ok db'"
    by (simp add: signal_db_ok_def db' signals.upsert_distinct)
  have vals: "sn_action row = fr_action r" "sn_score row = qz 4 (fr_score r)" "sn_confidence row = qz 4 (fr_confidence r)"
    "sn_reason_codes row = fr_reason_codes r" "sn_generated_at row = now"
    using row(2) by (auto simp: new_def new_signal_def refresh_signal_def)
  have inj: "inj_on sn_key (set (sb_signals db))" using d by (simp add: distinct_map)
  have same: "\<forall>old \<in> set (sb_signals db). sn_key old = sn_key new \<longrightarrow> sn_id row = sn_id old"
  proof (intro ballI impI)
    fix old
    assume old: "old \<in> set (sb_signals db)" "sn_key old = sn_key new"
    then have "sn_key new \<in> set (map sn_key (sb_signals db))" by (metis image_eqI list.set_map)
    with row(2) obtain o1 where "o1 \<in> set (sb_signals db)" "sn_key o1 = sn_key new" "row = refresh_signal new o1"
      by blast
    with old inj show "sn_id row = sn_id old" by (metis inj_onD refresh_id)
  qed
  show thesis
    by (rule that [OF db'(2) ok' _ _ vals])
      (use row(1) same signals.upsert_others [of new "sb_signals db"] in \<open>simp_all add: db' key comp_def\<close>)
qed

text \<open>The LightGBM component: the best model's prediction, or a neutral placeholder.\<close>

lemma lightgbm_pinned:
  assumes "lightgbm_component qz artifacts base versions features preds s tf weight now = Inr (preds', c)"
  shows "cs_kind c = LIGHTGBM" "cs_weight c = weight"
    "case best_lightgbm_version versions s tf of
       None \<Rightarrow> preds' = preds \<and> \<not> cs_active c \<and> cs_score c = 1 / 2 \<and> cs_confidence c = 0
     | Some v \<Rightarrow> \<exists>p. predict_latest qz artifacts base versions features preds (mv_model_id v) (mv_version v) now = Inr (preds', p) \<and>
         cs_version c = mv_version v \<and>
         (case p of
            None \<Rightarrow> \<not> cs_active c \<and> cs_score c = 1 / 2 \<and> cs_confidence c = 0
          | Some p \<Rightarrow> cs_active c \<and> cs_score c = fdiv (fadd (fsub (mp_prob_up p) (mp_prob_down p)) 1) 2 \<and>
              cs_confidence c = mp_confidence p \<and>
              cs_details c = ProbabilityDetails (mp_prob_up p) (mp_prob_neutral p) (mp_prob_down p))"
  using assms
  by (auto simp: lightgbm_component_def inactive_def fusion_score_from_probabilities_def
      split: option.splits sum.splits prod.splits)

section \<open>Properties\<close>

text \<open>
  C17: every evaluation of a bar is on record exactly once. Without a feature row nothing is
  written; otherwise the stored decision is the fusion of two components: the technical one, which is the technical
  score of the latest row, and the LightGBM one, which maps the prediction of the pair's best model
  onto the fusion scale as ((up - down) + 1) / 2 with its confidence, and is inactive and neutral when there is no model or
  no prediction. Each carries its configured weight. The fusion sees them unrounded; score, confidence and
  both components are stored rounded to four places. Evaluating the bar again keeps the row's id and replaces its content
  and components; other signals are untouched.
\<close>

theorem signal_recorded:
  assumes "signal_db_ok db"
    "generate_signal qz artifacts base st versions features preds db s tf now = Inr (preds', db', res)"
    "mc = st_models st"
  shows "signal_db_ok db' \<and>
    (case latest_feature features s tf (mc_feature_version mc) of
       None \<Rightarrow> res = None \<and> db' = db \<and> preds' = preds
     | Some row \<Rightarrow> \<exists>sig technical lightgbm r k.
         k = (s, tf, ft_open_time row, mc_strategy_version mc, VENUE) \<and> res = Some sig \<and>
         r = fuse [technical, lightgbm] (mc_fusion_min_confidence mc) (mc_fusion_action_margin mc) \<and>
         technical = (case compute_technical_score (ft_features row) of (score, confidence, details) \<Rightarrow>
           \<lparr>cs_kind = TECHNICAL, cs_score = score, cs_weight = mc_technical_component_weight mc, cs_confidence = confidence,
             cs_version = TECHNICAL_SCORE_VERSION, cs_active = True, cs_details = TechnicalDetails details\<rparr>) \<and>
         cs_kind lightgbm = LIGHTGBM \<and> cs_weight lightgbm = mc_lightgbm_component_weight mc \<and>
         (case best_lightgbm_version versions s tf of
            None \<Rightarrow> preds' = preds \<and> \<not> cs_active lightgbm \<and> cs_score lightgbm = 1 / 2 \<and> cs_confidence lightgbm = 0
          | Some v \<Rightarrow> \<exists>p. predict_latest qz artifacts base versions features preds (mv_model_id v) (mv_version v) now = Inr (preds', p) \<and>
              cs_version lightgbm = mv_version v \<and>
              (case p of
                 None \<Rightarrow> \<not> cs_active lightgbm \<and> cs_score lightgbm = 1 / 2 \<and> cs_confidence lightgbm = 0
               | Some p \<Rightarrow> cs_active lightgbm \<and> cs_score lightgbm = fdiv (fadd (fsub (mp_prob_up p) (mp_prob_down p)) 1) 2 \<and>
                   cs_confidence lightgbm = mp_confidence p \<and>
                   cs_details lightgbm = ProbabilityDetails (mp_prob_up p) (mp_prob_neutral p) (mp_prob_down p))) \<and>
         sn_action sig = fr_action r \<and> sn_score sig = qz 4 (fr_score r) \<and> sn_confidence sig = qz 4 (fr_confidence r) \<and>
         sn_reason_codes sig = fr_reason_codes r \<and> sn_generated_at sig = now \<and>
         filter (\<lambda>x. sn_key x = k) (sb_signals db') = [sig] \<and>
         filter (\<lambda>x. sn_key x \<noteq> k) (sb_signals db') = filter (\<lambda>x. sn_key x \<noteq> k) (sb_signals db) \<and>
         (\<forall>old \<in> set (sb_signals db). sn_key old = k \<longrightarrow> sn_id sig = sn_id old) \<and>
         map snd (filter (\<lambda>c. fst c = sn_id sig) (sb_components db')) = map (stored_component qz) [technical, lightgbm] \<and>
         filter (\<lambda>c. fst c \<noteq> sn_id sig) (sb_components db') = filter (\<lambda>c. fst c \<noteq> sn_id sig) (sb_components db))"
proof (cases "latest_feature features s tf (mc_feature_version mc)")
  case None
  with assms show ?thesis by (simp add: generate_signal_def live_technical_component_def)
next
  case (Some row)
  define technical where "technical = (case compute_technical_score (ft_features row) of (score, confidence, details) \<Rightarrow>
    \<lparr>cs_kind = TECHNICAL, cs_score = score, cs_weight = mc_technical_component_weight mc, cs_confidence = confidence,
      cs_version = TECHNICAL_SCORE_VERSION, cs_active = True, cs_details = TechnicalDetails details\<rparr>)"
  have t: "live_technical_component features s tf mc = (technical, Some row)"
    by (simp add: live_technical_component_def Some technical_def split: prod.split)
  with assms(2,3) obtain lightgbm where
    l: "lightgbm_component qz artifacts base versions features preds s tf (mc_lightgbm_component_weight mc) now = Inr (preds', lightgbm)"
    and p: "persist_signal qz db s tf (ft_open_time row) (mc_strategy_version mc)
       (fuse [technical, lightgbm] (mc_fusion_min_confidence mc) (mc_fusion_action_margin mc)) now = (db', res)"
    by (auto simp: generate_signal_def Let_def split: sum.splits prod.splits)
  note pinned = lightgbm_pinned [OF l]
  have c: "fr_components (fuse cs mc' mg) = cs" for cs mc' mg by (simp add: fuse_def Let_def)
  from assms(1) p show ?thesis
  proof (rule persist_signal_ok)
    fix sig
    assume res: "res = Some sig" and ok: "signal_db_ok db'" and
      rest: "filter (\<lambda>x. sn_key x = (s, tf, ft_open_time row, mc_strategy_version mc, VENUE)) (sb_signals db') = [sig]"
        "filter (\<lambda>x. sn_key x \<noteq> (s, tf, ft_open_time row, mc_strategy_version mc, VENUE)) (sb_signals db') =
           filter (\<lambda>x. sn_key x \<noteq> (s, tf, ft_open_time row, mc_strategy_version mc, VENUE)) (sb_signals db)"
        "sn_action sig = fr_action (fuse [technical, lightgbm] (mc_fusion_min_confidence mc) (mc_fusion_action_margin mc))"
        "sn_score sig = qz 4 (fr_score (fuse [technical, lightgbm] (mc_fusion_min_confidence mc) (mc_fusion_action_margin mc)))"
        "sn_confidence sig = qz 4 (fr_confidence (fuse [technical, lightgbm] (mc_fusion_min_confidence mc) (mc_fusion_action_margin mc)))"
        "sn_reason_codes sig = fr_reason_codes (fuse [technical, lightgbm] (mc_fusion_min_confidence mc) (mc_fusion_action_margin mc))"
        "sn_generated_at sig = now"
        "\<forall>old \<in> set (sb_signals db). sn_key old = (s, tf, ft_open_time row, mc_strategy_version mc, VENUE) \<longrightarrow> sn_id sig = sn_id old"
        "map snd (filter (\<lambda>c. fst c = sn_id sig) (sb_components db')) = map (stored_component qz)
           (fr_components (fuse [technical, lightgbm] (mc_fusion_min_confidence mc) (mc_fusion_action_margin mc)))"
        "filter (\<lambda>c. fst c \<noteq> sn_id sig) (sb_components db') = filter (\<lambda>c. fst c \<noteq> sn_id sig) (sb_components db)"
    show ?thesis unfolding Some option.case
      by (rule conjI [OF ok], rule exI [of _ sig], rule exI [of _ technical], rule exI [of _ lightgbm], rule exI, rule exI,
          intro conjI, rule refl, rule res, rule refl, (rule rest pinned technical_def)+)
        (use rest in \<open>simp_all add: c\<close>)
  qed
qed

text \<open>A validated model that sees the rise with 1/2 against 1/4: its component is stored as 0.625.\<close>

theorem signal_recorded_witness:
  "\<exists>preds db sig technical lightgbm. generate_signal numeric_column (\<lambda>_. rising_model) ''/m'' default_settings
      [(prod_model ''a'')\<lparr>mv_status := VALIDATED\<rparr>] [rsi_row] []
      \<lparr>sb_signals = [], sb_components = [], sb_next_id = 0\<rparr> ''BTCUSDT'' ''1h'' 5 = Inr (preds, db, Some sig) \<and>
     filter (\<lambda>x. sn_key x = (''BTCUSDT'', ''1h'', 3600, ''v1'', VENUE)) (sb_signals db) = [sig] \<and> sn_generated_at sig = 5 \<and>
     map snd (filter (\<lambda>c. fst c = sn_id sig) (sb_components db)) = [technical, lightgbm] \<and>
     cs_kind technical = TECHNICAL \<and> cs_active lightgbm \<and> cs_score lightgbm = 5 / 8 \<and> cs_version lightgbm = ''a''"
proof -
  let ?db = "\<lparr>sb_signals = [], sb_components = [], sb_next_id = 0\<rparr>" and ?v = "(prod_model ''a'')\<lparr>mv_status := VALIDATED\<rparr>"
  have ok: "signal_db_ok ?db" by (simp add: signal_db_ok_def)
  have lf: "latest_feature [rsi_row] ''BTCUSDT'' ''1h'' (mc_feature_version (st_models default_settings)) = Some rsi_row"
    by (simp add: latest_feature_def rsi_row_def default_settings_def default_models_config_def)
  have "model_id_for ''BTCUSDT'' ''1h'' = ''lightgbm_btcusdt_1h''" by code_simp
  then have b: "best_lightgbm_version [?v] ''BTCUSDT'' ''1h'' = Some ?v"
    by (simp add: best_lightgbm_version_def prod_model_def)
  obtain ps p where pl: "predict_latest numeric_column (\<lambda>_. rising_model) ''/m'' [?v] [rsi_row] []
      (mv_model_id ?v) (mv_version ?v) 5 = Inr (ps, Some p)" "mp_prob_down p = 1 / 4" "mp_prob_up p = 1 / 2"
    by (simp add: predict_latest_def mv_key_def prod_model_def load_model_def rising_model_def latest_feature_def
        rsi_row_def encode_value_def Let_def)
  have sc: "fdiv (fadd (fsub (1 / 2) (1 / 4)) 1) 2 = 5 / 8" "numeric_column 4 (5 / 8) = 5 / 8" by code_simp+
  obtain tech where t: "live_technical_component [rsi_row] ''BTCUSDT'' ''1h'' (st_models default_settings) = (tech, Some rsi_row)"
    by (cases "compute_technical_score (ft_features rsi_row)") (simp add: live_technical_component_def lf)
  obtain light where l: "lightgbm_component numeric_column (\<lambda>_. rising_model) ''/m'' [?v] [rsi_row] [] ''BTCUSDT'' ''1h''
      (mc_lightgbm_component_weight (st_models default_settings)) 5 = Inr (ps, light)"
    using pl(1) by (simp add: lightgbm_component_def b)
  obtain db res where g: "generate_signal numeric_column (\<lambda>_. rising_model) ''/m'' default_settings [?v] [rsi_row] [] ?db
      ''BTCUSDT'' ''1h'' 5 = Inr (ps, db, res)"
    by (simp add: generate_signal_def t l Let_def case_prod_beta) (metis prod.collapse)
  have key: "ft_open_time rsi_row = 3600" "mc_strategy_version (st_models default_settings) = ''v1''" "mv_version ?v = ''a''"
    by (simp_all add: rsi_row_def default_settings_def default_models_config_def prod_model_def)
  obtain x y z where e: "compute_technical_score (ft_features rsi_row) = (x, y, z)" by (rule prod_cases3)
  obtain sig technical lightgbm where r: "res = Some sig"
    "map snd (filter (\<lambda>c. fst c = sn_id sig) (sb_components db)) = map (stored_component numeric_column) [technical, lightgbm]"
    "filter (\<lambda>x. sn_key x = (''BTCUSDT'', ''1h'', 3600, ''v1'', VENUE)) (sb_signals db) = [sig]" "sn_generated_at sig = 5"
    "cs_kind technical = TECHNICAL"
    "\<exists>q. Inr (ps, Some p) = (Inr (ps, q) :: exn + prediction list \<times> prediction option) \<and> cs_version lightgbm = ''a'' \<and>
       (case q of None \<Rightarrow> \<not> cs_active lightgbm \<and> cs_score lightgbm = 1 / 2 \<and> cs_confidence lightgbm = 0
        | Some p \<Rightarrow> cs_active lightgbm \<and> cs_score lightgbm = fdiv (fadd (fsub (mp_prob_up p) (mp_prob_down p)) 1) 2 \<and>
            cs_confidence lightgbm = mp_confidence p \<and>
            cs_details lightgbm = ProbabilityDetails (mp_prob_up p) (mp_prob_neutral p) (mp_prob_down p))"
    using signal_recorded [OF ok g refl] unfolding lf b option.case key e prod.case pl(1) [unfolded key]
    by (elim conjE exE, hypsubst) (rule that, assumption+, simp only: component_score.simps, intro exI conjI, assumption+)
  have light: "cs_version lightgbm = ''a''" "cs_active lightgbm"
    "cs_score lightgbm = fdiv (fadd (fsub (mp_prob_up p) (mp_prob_down p)) 1) 2"
    using r(6) by auto
  have "cs_score (stored_component numeric_column lightgbm) = 5 / 8"
  proof -
    have "cs_score (stored_component numeric_column lightgbm) = numeric_column 4 (cs_score lightgbm)"
      by (simp add: stored_component_def)
    then show ?thesis by (simp only: light pl(2,3) sc)
  qed
  with g r(1-5) light(1,2) show ?thesis by (auto simp: stored_component_def)
qed

end
