(* ===== verification/PositionSizing.thy ===== *)
theory PositionSizing
  imports RiskConfig Enums
begin

text \<open>
  \<open>risk/position_sizing.py\<close>: how big a long Spot entry may be, or why it cannot be
  taken. The function is split where its comments split it: the four exposure caps, the
  quantity limited by the tightest cap and by the lot grid, and the checks on the result.
  Decimal arithmetic is written with the rounding operations of \<open>Rounding\<close>.
\<close>

section \<open>Data\<close>

datatype reject_code =
    NO_STOP_DISTANCE
  | TRADE_NOT_ECONOMIC
  | BELOW_MIN_QTY
  | BELOW_MIN_NOTIONAL
  | INSUFFICIENT_BALANCE
  | NO_EQUITY

datatype cap_name =
    CapPositionSize
  | CapAssetExposure
  | CapPortfolioExposure
  | CapAvailableQuote

text \<open>
  The human-readable reason, one constructor per message of the source with the values the
  message interpolates (how Python prints a \<open>Decimal\<close> is not modelled).
\<close>

datatype size_reason =
    NoEquityMsg
  | EntryNotPositiveMsg rat
  | StopNotBelowMsg
  | NoHeadroomMsg cap_name
  | RoundsToZeroMsg
  | BelowMinQtyMsg rat rat
  | BelowMinNotionalMsg rat rat
  | ExceedsBalanceMsg rat
  | FeesExceedRiskMsg rat rat

datatype size_detail =
    DetEntryPrice rat
  | DetStopPrice "rat option"
  | DetBindingCap cap_name
  | DetHeadroom rat
  | DetStepSize "rat option"
  | DetQuantity rat
  | DetMinQty rat
  | DetNotional rat
  | DetMinNotional rat
  | DetRequired rat
  | DetAvailable rat
  | DetRoundTripFee rat
  | DetRiskAmount rat

record position_size =
  ps_approved :: bool
  ps_quantity :: rat
  ps_notional :: rat
  ps_risk_amount :: rat
  ps_estimated_fee :: rat
  ps_reason_code :: "reject_code option"
  ps_reason :: "size_reason option"
  ps_details :: "size_detail list"

definition ps_reject :: "reject_code \<Rightarrow> size_reason \<Rightarrow> size_detail list \<Rightarrow> position_size" where
  "ps_reject code reason ds = \<lparr>ps_approved = False, ps_quantity = 0, ps_notional = 0,
     ps_risk_amount = 0, ps_estimated_fee = 0, ps_reason_code = Some code,
     ps_reason = Some reason, ps_details = ds\<rparr>"

lemma ps_reject_approved [simp]: "\<not> ps_approved (ps_reject c r ds)"
  by (simp add: ps_reject_def)

section \<open>Rounding onto the lot grid\<close>

text \<open>\<open>to_integral_value(rounding=ROUND_DOWN)\<close>: towards zero, exactly.\<close>

definition round_down :: "rat \<Rightarrow> int" where
  "round_down x = (if 0 \<le> x then \<lfloor>x\<rfloor> else - \<lfloor>- x\<rfloor>)"

definition round_down_to_step :: "rat \<Rightarrow> rat option \<Rightarrow> rat" where
  "round_down_to_step value step =
     (case step of None \<Rightarrow> value
      | Some s \<Rightarrow> if s \<le> 0 then value else dmul (of_int (round_down (ddiv value s))) s)"

section \<open>Sizing\<close>

definition size_caps ::
  "rat \<Rightarrow> rat \<Rightarrow> risk_config \<Rightarrow> rat \<Rightarrow> rat \<Rightarrow> (cap_name \<times> rat) list" where
  "size_caps equity available_quote risk current_asset current_portfolio =
     [(CapPositionSize, dmul equity (max_position_size risk)),
      (CapAssetExposure, dsub (dmul equity (max_asset_exposure risk)) current_asset),
      (CapPortfolioExposure, dsub (dmul equity (max_portfolio_exposure risk)) current_portfolio),
      (CapAvailableQuote, available_quote)]"

text \<open>\<open>min(caps, key=lambda item: item[1])\<close>: the first of the smallest.\<close>

fun min_cap :: "cap_name \<times> rat \<Rightarrow> (cap_name \<times> rat) list \<Rightarrow> cap_name \<times> rat" where
  "min_cap best [] = best"
| "min_cap best (c # cs) = min_cap (if snd c < snd best then c else best) cs"

definition limit_quantity :: "rat \<Rightarrow> rat \<Rightarrow> rat \<Rightarrow> symbol_filters \<Rightarrow> rat" where
  "limit_quantity quantity entry_price cap_notional filters =
     (let q1 = (if cap_notional < dmul quantity entry_price
                then ddiv cap_notional entry_price else quantity);
          q2 = (case max_qty filters of None \<Rightarrow> q1 | Some m \<Rightarrow> if m < q1 then m else q1)
      in round_down_to_step q2 (step_size filters))"

text \<open>A declared minimum the value falls below, if any (\<open>None\<close> is "no constraint").\<close>

definition below :: "rat \<Rightarrow> rat option \<Rightarrow> rat option" where
  "below v bound = (case bound of None \<Rightarrow> None | Some b \<Rightarrow> if v < b then Some b else None)"

definition check_funds ::
  "rat \<Rightarrow> rat \<Rightarrow> rat \<Rightarrow> rat \<Rightarrow> rat \<Rightarrow> rat \<Rightarrow> cap_name \<Rightarrow> position_size" where
  "check_funds quantity notional available_quote taker_fee risk_amount stop_distance binding =
     (let estimated_fee = dmul notional taker_fee;
          round_trip_fee = dmul estimated_fee 2
      in if available_quote < dadd notional estimated_fee then
           ps_reject INSUFFICIENT_BALANCE (ExceedsBalanceMsg (dadd notional estimated_fee))
             [DetRequired (dadd notional estimated_fee), DetAvailable available_quote]
         else if risk_amount \<le> round_trip_fee then
           ps_reject TRADE_NOT_ECONOMIC (FeesExceedRiskMsg round_trip_fee risk_amount)
             [DetRoundTripFee round_trip_fee, DetRiskAmount risk_amount]
         else \<lparr>ps_approved = True, ps_quantity = quantity, ps_notional = notional,
           ps_risk_amount = dmul quantity stop_distance, ps_estimated_fee = estimated_fee,
           ps_reason_code = None, ps_reason = None, ps_details = [DetBindingCap binding]\<rparr>)"

definition check_size ::
  "rat \<Rightarrow> rat \<Rightarrow> rat \<Rightarrow> symbol_filters \<Rightarrow> rat \<Rightarrow> rat \<Rightarrow> rat \<Rightarrow> cap_name \<Rightarrow> position_size" where
  "check_size quantity entry_price available_quote filters taker_fee risk_amount stop_distance binding =
     (if quantity \<le> 0 then
        ps_reject TRADE_NOT_ECONOMIC RoundsToZeroMsg [DetStepSize (step_size filters)]
      else case below quantity (min_qty filters) of
        Some mq \<Rightarrow>
          ps_reject BELOW_MIN_QTY (BelowMinQtyMsg quantity mq) [DetQuantity quantity, DetMinQty mq]
      | None \<Rightarrow>
          (let notional = dmul quantity entry_price in
           case (if apply_min_to_market filters then below notional (min_notional filters) else None) of
             Some mn \<Rightarrow> ps_reject BELOW_MIN_NOTIONAL (BelowMinNotionalMsg notional mn)
                           [DetNotional notional, DetMinNotional mn]
           | None \<Rightarrow> check_funds quantity notional available_quote taker_fee risk_amount
                       stop_distance binding))"

definition calculate_position_size ::
  "rat \<Rightarrow> rat \<Rightarrow> rat \<Rightarrow> rat option \<Rightarrow> risk_config \<Rightarrow> symbol_filters \<Rightarrow> rat \<Rightarrow> rat \<Rightarrow> rat \<Rightarrow> position_size"
  where
  "calculate_position_size equity available_quote entry_price stop_price risk filters taker_fee
     current_asset current_portfolio =
     (if equity \<le> 0 then ps_reject NO_EQUITY NoEquityMsg []
      else if entry_price \<le> 0 then ps_reject NO_STOP_DISTANCE (EntryNotPositiveMsg entry_price) []
      else case (case stop_price of Some s \<Rightarrow> if entry_price \<le> s then None else Some s
                 | None \<Rightarrow> None) of
        None \<Rightarrow> ps_reject NO_STOP_DISTANCE StopNotBelowMsg
                  [DetEntryPrice entry_price, DetStopPrice stop_price]
      | Some stop \<Rightarrow>
          (let stop_distance = dsub entry_price stop;
               risk_amount = dmul equity (max_risk_per_trade risk);
               quantity = ddiv risk_amount stop_distance;
               caps = size_caps equity available_quote risk current_asset current_portfolio;
               (binding, cap_notional) = min_cap (hd caps) (tl caps)
           in if cap_notional \<le> 0 then
                ps_reject TRADE_NOT_ECONOMIC (NoHeadroomMsg binding)
                  [DetBindingCap binding, DetHeadroom cap_notional]
              else check_size (limit_quantity quantity entry_price cap_notional filters)
                     entry_price available_quote filters taker_fee risk_amount stop_distance binding))"

text \<open>Past the guards, the sizing is a composition of its three parts.\<close>

definition tightest :: "rat \<Rightarrow> rat \<Rightarrow> risk_config \<Rightarrow> rat \<Rightarrow> rat \<Rightarrow> cap_name \<times> rat" where
  "tightest E A risk ca cp = min_cap (hd (size_caps E A risk ca cp)) (tl (size_caps E A risk ca cp))"

lemma calculate_sized:
  assumes "0 < E" "0 < e" "stop < e" "0 < snd (tightest E A risk ca cp)"
  shows "calculate_position_size E A e (Some stop) risk f fee ca cp =
    check_size (limit_quantity (ddiv (dmul E (max_risk_per_trade risk)) (dsub e stop)) e
        (snd (tightest E A risk ca cp)) f) e A f fee (dmul E (max_risk_per_trade risk)) (dsub e stop)
      (fst (tightest E A risk ca cp))"
  using assms by (simp add: calculate_position_size_def tightest_def Let_def case_prod_beta not_le)

section \<open>The lot grid\<close>

lemma round_down_nonneg: "0 \<le> x \<Longrightarrow> 0 \<le> round_down x"
  by (simp add: round_down_def)

lemma round_down_le: "0 \<le> x \<Longrightarrow> of_int (round_down x) \<le> x"
  by (simp add: round_down_def)

lemma round_down_gt: "0 \<le> x \<Longrightarrow> x < of_int (round_down x) + 1"
  by (simp add: round_down_def) linarith

lemma round_to_step_nonneg: "0 \<le> q \<Longrightarrow> 0 \<le> round_down_to_step q step"
  by (auto simp: round_down_to_step_def dec_ops dec.rd_nonneg_iff round_down_nonneg
      split: option.splits intro!: mult_nonneg_nonneg)

text \<open>
  On a power-of-ten grid, the only kind Binance declares, nothing is lost to the rounding of
  the quotient: the result is the largest multiple of the step that does not exceed the
  quantity.
\<close>

lemma round_down_ten:
  fixes q :: rat and k :: int
  assumes q: "0 \<le> q" "dec q = q"
  defines "n \<equiv> \<lfloor>q * 10 powi (- k)\<rfloor>"
  shows "round_down_to_step q (Some (10 powi k)) = of_int n * 10 powi k"
    and "of_int n * 10 powi k \<le> q"
    and "q < (of_int n + 1) * 10 powi k"
proof -
  have t: "(0::rat) < 10 powi k" "(10::rat) powi k \<noteq> 0" by simp_all
  define y where "y = q * 10 powi (- k)"
  have y: "0 \<le> y" "dec y = y" using q by (simp_all add: y_def dec_scale)
  have "q / 10 powi k = y" "y * 10 powi k = q"
    using t by (simp_all add: y_def power_int_minus field_simps)
  note y = y this
  have "ddiv q (10 powi k) = y" by (simp add: dec_ops y)
  then have "round_down_to_step q (Some (10 powi k)) = dec (of_int n * 10 powi k)"
    using y(1) not_le [THEN iffD2, OF t(1)]
    by (simp only: round_down_to_step_def round_down_def option.case if_False if_True dmul_def n_def
        y_def [symmetric])
  then show "round_down_to_step q (Some (10 powi k)) = of_int n * 10 powi k"
    using dec_floor [OF y(1,2)] by (simp add: dec_scale n_def y_def)
  have "of_int n \<le> y" "y < of_int n + 1"
    using floor_correct [of y] unfolding n_def y_def by linarith+
  then have "of_int n * 10 powi k \<le> y * 10 powi k" "y * 10 powi k < (of_int n + 1) * 10 powi k"
    using t by (auto intro: mult_right_mono mult_strict_right_mono)
  then show "of_int n * 10 powi k \<le> q" "q < (of_int n + 1) * 10 powi k"
    by (simp_all add: y)
qed

text \<open>On any grid the quantity can grow only by the rounding of two operations.\<close>

lemma round_to_step_upper:
  assumes q: "0 \<le> q"
  shows "round_down_to_step q step \<le> q * (1 + ulp28) ^ 2"
proof (cases "case step of None \<Rightarrow> False | Some s \<Rightarrow> 0 < s")
  case True
  then obtain s where s: "step = Some s" "0 < s" by (cases step) auto
  let ?n = "of_int (round_down (ddiv q s)) :: rat"
  have d: "0 \<le> ddiv q s" using q s by (simp add: dec_ops dec.rd_nonneg_iff)
  have "?n \<le> ddiv q s" by (rule round_down_le [OF d])
  also have "\<dots> \<le> q / s * (1 + ulp28)" unfolding ddiv_def using q s by (intro dec_upper) simp
  finally have "?n * s \<le> q / s * (1 + ulp28) * s" using s by (intro mult_right_mono) auto
  then have "?n * s \<le> q * (1 + ulp28)" using s by simp
  then have "dec (?n * s) \<le> q * (1 + ulp28) * (1 + ulp28)"
    using round_down_nonneg [OF d] s by (intro dec_upper_le) auto
  then show ?thesis using s by (simp add: round_down_to_step_def dec_ops power2_eq_square mult.assoc)
next
  case False
  then have "round_down_to_step q step = q" by (auto simp: round_down_to_step_def split: option.splits)
  moreover have "q * 1 \<le> q * (1 + ulp28) ^ 2" using q by (intro mult_left_mono one_le_power) simp_all
  ultimately show ?thesis by simp
qed

lemma round_to_step_pos: "0 < round_down_to_step q step \<Longrightarrow> 0 < q"
proof (rule ccontr)
  assume pos: "0 < round_down_to_step q step" and "\<not> 0 < q"
  then obtain s where s: "step = Some s" "0 < s" 
    by (cases step) (auto simp: round_down_to_step_def split: if_splits)
  have "q / s \<le> 0" using s \<open>\<not> 0 < q\<close> by (simp add: divide_le_0_iff)
  then have "ddiv q s \<le> 0" by (simp only: ddiv_def dec.rd_nonpos_iff)
  then have "round_down (ddiv q s) \<le> 0" by (simp add: round_down_def)
  then have "round_down_to_step q step \<le> 0"
    using s by (simp add: round_down_to_step_def dec_ops dec.rd_nonpos_iff mult_nonpos_nonneg)
  with pos show False by simp
qed

section \<open>The tightest cap\<close>

lemma min_cap_le_best: "snd (min_cap b cs) \<le> snd b"
  by (induction b cs rule: min_cap.induct) (auto split: if_splits)

lemma min_cap_le: "c \<in> set cs \<Longrightarrow> snd (min_cap b cs) \<le> snd c"
proof (induction b cs rule: min_cap.induct)
  case (2 best c' cs)
  then show ?case
    using min_cap_le_best [of "if snd c' < snd best then c' else best" cs] by (auto split: if_splits)
qed simp

lemma min_cap_mem: "min_cap b cs \<in> set (b # cs)"
proof (induction b cs rule: min_cap.induct)
  case (2 best c cs)
  then show ?case by (cases "snd c < snd best") auto
qed simp

lemma min_cap_first: "\<forall>c\<in>set cs. snd b \<le> snd c \<Longrightarrow> min_cap b cs = b"
  by (induction b cs rule: min_cap.induct) auto

text \<open>The tightest of the four caps is below each of them.\<close>

lemma tightest_cap:
  "(n, c) \<in> set (size_caps E A r ca cp) \<Longrightarrow>
   snd (min_cap (hd (size_caps E A r ca cp)) (tl (size_caps E A r ca cp))) \<le> c"
  using min_cap_le min_cap_le_best by (fastforce simp: size_caps_def)

section \<open>What an approved size has passed\<close>

lemma below_None: "below v b = None \<longleftrightarrow> (\<forall>x. b = Some x \<longrightarrow> x \<le> v)"
  by (auto simp: below_def split: option.splits)

lemma calc_approved:
  assumes "ps_approved (calculate_position_size E A e so risk f fee ca cp)"
  obtains stop b cap q where
    "so = Some stop" "0 < E" "0 < e" "stop < e"
    "min_cap (hd (size_caps E A risk ca cp)) (tl (size_caps E A risk ca cp)) = (b, cap)" "0 < cap"
    "q = limit_quantity (ddiv (dmul E (max_risk_per_trade risk)) (dsub e stop)) e cap f" "0 < q"
    "\<forall>m. min_qty f = Some m \<longrightarrow> m \<le> q"
    "\<forall>m. apply_min_to_market f \<longrightarrow> min_notional f = Some m \<longrightarrow> m \<le> dmul q e"
    "dadd (dmul q e) (dmul (dmul q e) fee) \<le> A"
    "dmul (dmul (dmul q e) fee) 2 < dmul E (max_risk_per_trade risk)"
    "calculate_position_size E A e so risk f fee ca cp =
       \<lparr>ps_approved = True, ps_quantity = q, ps_notional = dmul q e,
        ps_risk_amount = dmul q (dsub e stop), ps_estimated_fee = dmul (dmul q e) fee,
        ps_reason_code = None, ps_reason = None, ps_details = [DetBindingCap b]\<rparr>"
proof -
  from assms obtain stop where stop: "so = Some stop" "0 < E" "0 < e" "stop < e"
    by (auto simp: calculate_position_size_def split: if_splits option.splits)
  obtain b cap where mc:
    "min_cap (hd (size_caps E A risk ca cp)) (tl (size_caps E A risk ca cp)) = (b, cap)"
    by (cases "min_cap (hd (size_caps E A risk ca cp)) (tl (size_caps E A risk ca cp))")
  define q where "q = limit_quantity (ddiv (dmul E (max_risk_per_trade risk)) (dsub e stop)) e cap f"
  have cap: "0 < cap"
    using assms stop mc by (auto simp: calculate_position_size_def Let_def split: if_splits)
  then have eq: "calculate_position_size E A e so risk f fee ca cp =
      check_size q e A f fee (dmul E (max_risk_per_trade risk)) (dsub e stop) b"
    using stop mc by (simp add: calculate_position_size_def Let_def q_def)
  have ok: "ps_approved (check_size q e A f fee (dmul E (max_risk_per_trade risk)) (dsub e stop) b)"
    using assms by (simp only: eq)
  have checks: "0 < q" "below q (min_qty f) = None"
    "(if apply_min_to_market f then below (dmul q e) (min_notional f) else None) = None"
    using ok by (auto simp: check_size_def Let_def split: if_splits option.splits)
  then have cf: "check_size q e A f fee (dmul E (max_risk_per_trade risk)) (dsub e stop) b
      = check_funds q (dmul q e) A fee (dmul E (max_risk_per_trade risk)) (dsub e stop) b"
    by (simp add: check_size_def Let_def)
  have funds: "dadd (dmul q e) (dmul (dmul q e) fee) \<le> A"
    "dmul (dmul (dmul q e) fee) 2 < dmul E (max_risk_per_trade risk)"
    using ok unfolding cf by (auto simp: check_funds_def Let_def split: if_splits)
  then have "calculate_position_size E A e so risk f fee ca cp =
       \<lparr>ps_approved = True, ps_quantity = q, ps_notional = dmul q e,
        ps_risk_amount = dmul q (dsub e stop), ps_estimated_fee = dmul (dmul q e) fee,
        ps_reason_code = None, ps_reason = None, ps_details = [DetBindingCap b]\<rparr>"
    by (simp add: eq cf check_funds_def Let_def not_less not_le)
  then show thesis
    using stop mc cap checks funds by (intro that [of stop b cap q]) (auto simp: q_def below_None)
qed

section \<open>The bounds\<close>

lemma ulp28_power: "k \<le> 10 \<Longrightarrow> (1 + ulp28) ^ k \<le> 1 + 1 / 10 ^ 26"
proof -
  assume "k \<le> 10"
  then have "(1 + ulp28) ^ k \<le> (1 + ulp28) ^ 10" by (intro power_increasing) simp_all
  also have "\<dots> \<le> 1 + 1 / 10 ^ 26" by (simp add: ulp28_def power_divide)
  finally show ?thesis .
qed

lemma limit_quantity_cap:
  assumes e: "0 < e" and cap: "0 < cap" and pos: "0 < limit_quantity q e cap f"
  shows "limit_quantity q e cap f * e \<le> cap * (1 + ulp28) ^ 4"
proof -
  define q1 where "q1 = (if cap < dmul q e then ddiv cap e else q)"
  define q2 where "q2 = (case max_qty f of None \<Rightarrow> q1 | Some m \<Rightarrow> if m < q1 then m else q1)"
  have lq: "limit_quantity q e cap f = round_down_to_step q2 (step_size f)"
    by (simp only: limit_quantity_def q1_def q2_def Let_def)
  have "q1 * e \<le> cap * (1 + ulp28) ^ 2"
  proof (cases "cap < dmul q e")
    case True
    have "ddiv cap e \<le> cap / e * (1 + ulp28)" unfolding ddiv_def using e cap by (intro dec_upper) simp
    then have "ddiv cap e * e \<le> cap * (1 + ulp28)" using e by (simp add: field_simps)
    also have "\<dots> \<le> cap * (1 + ulp28) ^ 2"
      using cap by (intro mult_left_mono self_le_power) simp_all
    finally show ?thesis using True by (simp add: q1_def)
  next
    case False
    show ?thesis
    proof (cases "0 \<le> q * e")
      case True
      have "q * e * (1 - ulp28) \<le> cap"
        using dec_lower [OF True] False by (simp add: dec_ops)
      then have "q * e * (1 - ulp28) * (1 + ulp28) ^ 2 \<le> cap * (1 + ulp28) ^ 2"
        by (intro mult_right_mono) simp_all
      moreover have "1 \<le> (1 - ulp28) * (1 + ulp28) ^ 2" by (simp add: ulp28_def power_divide)
      then have "q * e * 1 \<le> q * e * ((1 - ulp28) * (1 + ulp28) ^ 2)"
        using True by (intro mult_left_mono)
      ultimately show ?thesis using False by (simp add: q1_def mult.assoc)
    next
      case neg: False
      have "0 \<le> cap * (1 + ulp28) ^ 2" using cap by simp
      with neg False show ?thesis by (simp add: q1_def)
    qed
  qed
  moreover have "q2 \<le> q1" by (simp add: q2_def split: option.splits)
  ultimately have q2: "q2 * e \<le> cap * (1 + ulp28) ^ 2"
    using e mult_right_mono [of q2 q1 e] by linarith
  have "0 \<le> q2" using pos round_to_step_pos [of q2 "step_size f"] by (simp add: lq)
  then have "limit_quantity q e cap f * e \<le> q2 * (1 + ulp28) ^ 2 * e"
    unfolding lq using e by (intro mult_right_mono round_to_step_upper) auto
  also have "\<dots> \<le> cap * (1 + ulp28) ^ 2 * (1 + ulp28) ^ 2"
    using mult_right_mono [OF q2, of "(1 + ulp28) ^ 2"] by (simp add: mult_ac)
  finally show ?thesis by (simp add: power_add [symmetric] mult.assoc)
qed

lemma limit_quantity_le:
  assumes e: "0 < e" and cap: "0 < cap" and pos: "0 < limit_quantity q e cap f"
  shows "limit_quantity q e cap f \<le> q * (1 + ulp28) ^ 4"
proof -
  define q1 where "q1 = (if cap < dmul q e then ddiv cap e else q)"
  define q2 where "q2 = (case max_qty f of None \<Rightarrow> q1 | Some m \<Rightarrow> if m < q1 then m else q1)"
  have lq: "limit_quantity q e cap f = round_down_to_step q2 (step_size f)"
    by (simp only: limit_quantity_def q1_def q2_def Let_def)
  have q2: "0 < q2" using pos round_to_step_pos [of q2 "step_size f"] by (simp add: lq)
  have "q1 \<le> q * (1 + ulp28) ^ 2"
  proof (cases "cap < dmul q e")
    case True
    then have qe: "0 < q * e" using cap dec.rd_pos_iff [of "q * e"] by (simp add: dec_ops)
    have "cap \<le> q * e * (1 + ulp28)" using True dec_upper [of "q * e"] qe by (simp add: dec_ops)
    then have "cap / e \<le> q * (1 + ulp28)" using e by (simp add: field_simps)
    then have "dec (cap / e) \<le> q * (1 + ulp28) * (1 + ulp28)"
      using cap e by (intro dec_upper_le) auto
    then show ?thesis using True by (simp add: q1_def ddiv_def power2_eq_square mult.assoc)
  next
    case False
    have "0 < q1" using q2 by (auto simp: q2_def split: option.splits if_splits)
    then have "q * 1 \<le> q * (1 + ulp28) ^ 2"
      using False by (intro mult_left_mono one_le_power) (auto simp: q1_def)
    with False show ?thesis by (simp add: q1_def)
  qed
  moreover have "q2 \<le> q1" by (simp add: q2_def split: option.splits)
  ultimately have "q2 \<le> q * (1 + ulp28) ^ 2" by linarith
  then have "q2 * (1 + ulp28) ^ 2 \<le> q * (1 + ulp28) ^ 2 * (1 + ulp28) ^ 2"
    by (intro mult_right_mono) simp_all
  then show ?thesis
    using round_to_step_upper [of q2 "step_size f"] q2 by (simp add: lq power_add [symmetric] mult.assoc)
qed

text \<open>What is lost at the stop, against the risk budget.\<close>

lemma limit_quantity_risk:
  assumes "stop < e" "0 < e" "0 < cap" "0 < E"
    and pos: "0 < limit_quantity (ddiv (dmul E mr) (dsub e stop)) e cap f"
  shows "dmul (limit_quantity (ddiv (dmul E mr) (dsub e stop)) e cap f) (dsub e stop)
    \<le> E * mr * (1 + 1 / 10 ^ 26)"
proof -
  define d where "d = dsub e stop"
  define q where "q = limit_quantity (ddiv (dmul E mr) d) e cap f"
  have d: "0 < d" using assms by (simp add: d_def dec_ops dec.rd_pos_iff)
  have q: "0 < q" "q \<le> ddiv (dmul E mr) d * (1 + ulp28) ^ 4"
    using assms limit_quantity_le [of e cap "ddiv (dmul E mr) d" f] by (auto simp: q_def d_def)
  then have "0 < ddiv (dmul E mr) d * (1 + ulp28) ^ 4" by linarith
  then have p: "0 < ddiv (dmul E mr) d" by (rule zero_less_mult_pos2) (simp add: ulp28_def)
  then have m: "0 < E * mr" using d by (simp add: dec_ops dec.rd_pos_iff zero_less_divide_iff)
  have "ddiv (dmul E mr) d \<le> (E * mr * (1 + ulp28)) / d * (1 + ulp28)"
    unfolding ddiv_def dmul_def using d m dec_upper [of "E * mr"]
    by (intro dec_upper_le) (auto simp: dec.rd_nonneg_iff divide_right_mono zero_le_divide_iff)
  then have "ddiv (dmul E mr) d * (1 + ulp28) ^ 4
      \<le> (E * mr * (1 + ulp28)) / d * (1 + ulp28) * (1 + ulp28) ^ 4"
    by (rule mult_right_mono) simp
  with q(2) have "q * d \<le> (E * mr * (1 + ulp28)) / d * (1 + ulp28) * (1 + ulp28) ^ 4 * d"
    using d by (intro mult_right_mono) auto
  also have "\<dots> = E * mr * ((1 + ulp28) * (1 + ulp28) * (1 + ulp28) ^ 4)" using d by simp
  also have "(1 + ulp28) * (1 + ulp28) * (1 + ulp28) ^ 4 = (1 + ulp28) ^ 6"
    by (simp add: power_Suc2 [symmetric] mult_ac power_numeral_reduce)
  finally have "dmul q d \<le> E * mr * (1 + ulp28) ^ 6 * (1 + ulp28)"
    unfolding dmul_def using q(1) d by (intro dec_upper_le) auto
  also have "\<dots> = E * mr * (1 + ulp28) ^ 7" by (simp add: power_numeral_reduce mult_ac)
  also have "\<dots> \<le> E * mr * (1 + 1 / 10 ^ 26)" using m ulp28_power [of 7] by (intro mult_left_mono) auto
  finally show ?thesis by (simp add: q_def d_def)
qed

lemma approved_notional:
  assumes "ps_approved (calculate_position_size E A e so risk f fee ca cp)"
    and n: "(n, x) \<in> set (size_caps E A risk ca cp)"
  shows "0 < x \<and>
    ps_notional (calculate_position_size E A e so risk f fee ca cp) \<le> x * (1 + 1 / 10 ^ 26)"
  using assms(1)
proof (rule calc_approved)
  fix stop b cap q
  assume c: "0 < e" "0 < cap" "0 < q"
    "min_cap (hd (size_caps E A risk ca cp)) (tl (size_caps E A risk ca cp)) = (b, cap)"
    "q = limit_quantity (ddiv (dmul E (max_risk_per_trade risk)) (dsub e stop)) e cap f"
    and r: "calculate_position_size E A e so risk f fee ca cp =
       \<lparr>ps_approved = True, ps_quantity = q, ps_notional = dmul q e,
        ps_risk_amount = dmul q (dsub e stop), ps_estimated_fee = dmul (dmul q e) fee,
        ps_reason_code = None, ps_reason = None, ps_details = [DetBindingCap b]\<rparr>"
  have "q * e \<le> cap * (1 + ulp28) ^ 4" using limit_quantity_cap c by simp
  then have "dmul q e \<le> cap * (1 + ulp28) ^ 4 * (1 + ulp28)"
    unfolding dmul_def using c by (intro dec_upper_le) auto
  also have "\<dots> = cap * (1 + ulp28) ^ 5" by (simp add: mult.assoc power_Suc2 [symmetric])
  also have "\<dots> \<le> cap * (1 + 1 / 10 ^ 26)"
    using c ulp28_power [of 5] by (intro mult_left_mono) auto
  also have "\<dots> \<le> x * (1 + 1 / 10 ^ 26)"
    using tightest_cap [OF n] c by (intro mult_right_mono) auto
  finally show ?thesis using tightest_cap [OF n] c r by simp
qed

lemma approved_risk:
  assumes "ps_approved (calculate_position_size E A e so risk f fee ca cp)"
  shows "ps_risk_amount (calculate_position_size E A e so risk f fee ca cp)
    \<le> E * max_risk_per_trade risk * (1 + 1 / 10 ^ 26)"
  using assms
proof (rule calc_approved)
  fix stop b cap q
  assume c: "0 < E" "0 < e" "stop < e" "0 < cap" "0 < q"
    "q = limit_quantity (ddiv (dmul E (max_risk_per_trade risk)) (dsub e stop)) e cap f"
    and r: "calculate_position_size E A e so risk f fee ca cp =
       \<lparr>ps_approved = True, ps_quantity = q, ps_notional = dmul q e,
        ps_risk_amount = dmul q (dsub e stop), ps_estimated_fee = dmul (dmul q e) fee,
        ps_reason_code = None, ps_reason = None, ps_details = [DetBindingCap b]\<rparr>"
  then show ?thesis using limit_quantity_risk [of stop e cap E "max_risk_per_trade risk" f] by simp
qed

lemma approved_funds:
  assumes r: "r = calculate_position_size E A e so risk f fee ca cp" and ok: "ps_approved r"
  shows "0 < ps_quantity r" "ps_notional r = dmul (ps_quantity r) e"
    "ps_estimated_fee r = dmul (ps_notional r) fee"
    "dadd (ps_notional r) (ps_estimated_fee r) \<le> A"
    "dmul (ps_estimated_fee r) 2 < dmul E (max_risk_per_trade risk)"
    "\<forall>m. min_qty f = Some m \<longrightarrow> m \<le> ps_quantity r"
    "\<forall>m. apply_min_to_market f \<longrightarrow> min_notional f = Some m \<longrightarrow> m \<le> ps_notional r"
  by (rule calc_approved [OF ok [unfolded r]], simp add: r)+

text \<open>What evaluates a sizing on concrete numbers.\<close>

lemmas sizing_eval = calculate_sized tightest_def size_caps_def limit_quantity_def check_size_def
  check_funds_def round_down_to_step_def round_down_def below_def ps_reject_def Let_def dec_ops
  dec_fixed DEFAULT_RISK_CONFIG_def no_filters_def

section \<open>Properties\<close>

text \<open>
  C1: an approved size respects every limit at once. Its value is within each of the four
  exposure caps and what is lost at the stop is within the risk budget, both up to the
  rounding of the last digits (a relative \<open>10^-26\<close>); value plus fee is covered by the
  available balance, the round trip costs less than the amount risked, and the exchange's
  minimum quantity and minimum notional are met.
\<close>

theorem approved_size_within_limits:
  assumes "r = calculate_position_size E A e so risk f fee ca cp" "ps_approved r"
  shows "0 < ps_quantity r \<and>
    (\<forall>(n, c) \<in> set (size_caps E A risk ca cp). ps_notional r \<le> c * (1 + 1 / 10 ^ 26)) \<and>
    ps_risk_amount r \<le> E * max_risk_per_trade risk * (1 + 1 / 10 ^ 26) \<and>
    dadd (ps_notional r) (ps_estimated_fee r) \<le> A \<and>
    dmul (ps_estimated_fee r) 2 < dmul E (max_risk_per_trade risk) \<and>
    (\<forall>m. min_qty f = Some m \<longrightarrow> m \<le> ps_quantity r) \<and>
    (\<forall>m. apply_min_to_market f \<longrightarrow> min_notional f = Some m \<longrightarrow> m \<le> ps_notional r)"
  using approved_notional [of E A e so risk f fee ca cp, folded assms(1), OF assms(2)]
    approved_risk [of E A e so risk f fee ca cp, folded assms(1), OF assms(2)]
    approved_funds [OF assms]
  by blast

text \<open>
  10000 quote units, entry 100, stop 98, lot size 1/1000: the position-size cap of 35 percent
  binds, and 35 units are approved.
\<close>

theorem approved_size_within_limits_witness:
  "let r = calculate_position_size 10000 10000 100 (Some 98) DEFAULT_RISK_CONFIG
       (no_filters \<lparr>step_size := Some (1 / 1000), min_notional := Some 10\<rparr>) (1 / 1000) 0 0 in
   ps_approved r \<and> ps_quantity r = 35 \<and> ps_notional r \<le> 3500 * (1 + 1 / 10 ^ 26)"
proof -
  define f where "f = no_filters \<lparr>step_size := Some (1 / 1000), min_notional := Some 10\<rparr>"
  define r where "r = calculate_position_size 10000 10000 100 (Some 98) DEFAULT_RISK_CONFIG f (1 / 1000) 0 0"
  have ok: "ps_approved r" "ps_quantity r = 35" by (simp_all add: r_def f_def sizing_eval)
  have "(CapPositionSize, 3500) \<in> set (size_caps 10000 10000 DEFAULT_RISK_CONFIG 0 0)"
    by code_simp
  with approved_size_within_limits [OF r_def ok(1)]
  have "ps_notional r \<le> 3500 * (1 + 1 / 10 ^ 26)" by blast
  with ok show ?thesis by (simp add: r_def f_def)
qed

text \<open>
  On a power-of-ten lot grid (the only kind the exchange declares) the quantity is the
  largest multiple of the lot size that does not exceed the value rounded: rounding is never
  up, loses less than one lot, and the intermediate 28-digit rounding is harmless.
\<close>

theorem lot_grid_floor:
  fixes q :: rat and k :: int
  assumes "0 \<le> q" "dec q = q"
  shows "\<exists>n::int. round_down_to_step q (Some (10 powi k)) = of_int n * 10 powi k \<and>
    of_int n * 10 powi k \<le> q \<and> q < (of_int n + 1) * 10 powi k"
  using round_down_ten [OF assms] by blast

theorem lot_grid_floor_witness:
  "\<exists>n::int. round_down_to_step (123456 / 10000) (Some (10 powi (- 3))) = of_int n * 10 powi (- 3) \<and>
    of_int n * 10 powi (- 3) \<le> (123456 / 10000 :: rat) \<and>
    (123456 / 10000 :: rat) < (of_int n + 1) * 10 powi (- 3)"
  by (rule lot_grid_floor) (simp, code_simp)

text \<open>
  On other grids the 28-digit rounding of the quotient can carry a quantity up to the next
  multiple, which the rounding helper's comment rules out.
\<close>

lemma lot_grid_rounds_up:
  "let q = 8 - 1 / 10 ^ 27 in dec q = q \<and> q < round_down_to_step q (Some 4)"
  by code_simp

text \<open>
  When the available balance is the tightest cap and there is no lot grid, the sized order is
  the whole balance and its fee no longer fits: the entry is always refused.
\<close>

lemma whole_balance_refused:
  "ps_reason_code (calculate_position_size 1000 100 10 (Some 9) DEFAULT_RISK_CONFIG no_filters
     (1 / 1000) 0 0) = Some INSUFFICIENT_BALANCE"
  by (simp add: sizing_eval)

end
