(* ===== verification/TimeUtils.thy ===== *)
theory TimeUtils
  imports PositionSizing
begin

text \<open>
  \<open>core/time_utils.py\<close> and the conversions between a UTC \<open>datetime\<close> and a number of seconds or
  milliseconds that the candle code makes. A \<open>datetime\<close> is its microseconds since the epoch;
  \<open>timestamp()\<close> and \<open>total_seconds()\<close> divide by \<open>10^6\<close> in floating point, and the lemmas say for
  which instants nothing is lost.
\<close>

section \<open>Conversions\<close>

text \<open>\<open>datetime.timestamp()\<close> and \<open>timedelta.total_seconds()\<close>.\<close>

definition seconds_float :: "int \<Rightarrow> rat" where
  "seconds_float us = fdiv (of_int us) (10 ^ 6)"

text \<open>
  \<open>datetime.fromtimestamp(x, tz=UTC)\<close> of a float: the whole seconds, and the fraction times \<open>10^6\<close>
  rounded half to even.
\<close>

definition from_timestamp :: "rat \<Rightarrow> int" where
  "from_timestamp x = (let whole = round_down x in
     whole * 10 ^ 6 + rhe (fmul (x - of_int whole) (10 ^ 6)))"

section \<open>Timeframes\<close>

definition TIMEFRAME_SECONDS :: "(string, int) dict" where
  "TIMEFRAME_SECONDS = [(''1m'', 60), (''5m'', 5 * 60), (''15m'', 15 * 60), (''1h'', 60 * 60),
     (''4h'', 4 * 60 * 60), (''1d'', 24 * 60 * 60)]"

definition timeframe_seconds :: "string \<Rightarrow> exn + int" where
  "timeframe_seconds tf = (case map_of TIMEFRAME_SECONDS tf of None \<Rightarrow> Inl ValueError | Some s \<Rightarrow> Inr s)"

definition floor_to_timeframe :: "int \<Rightarrow> string \<Rightarrow> exn + int" where
  "floor_to_timeframe moment tf =
     (case timeframe_seconds tf of
        Inl err \<Rightarrow> Inl err
      | Inr seconds \<Rightarrow>
          (let epoch_seconds = round_down (seconds_float moment) in
           Inr ((epoch_seconds - epoch_seconds mod seconds) * 10 ^ 6)))"

definition candle_close_time :: "int \<Rightarrow> string \<Rightarrow> exn + int" where
  "candle_close_time open_time tf = map_sum id (\<lambda>s. open_time + s * 10 ^ 6) (timeframe_seconds tf)"

definition is_candle_closed :: "int \<Rightarrow> string \<Rightarrow> int \<Rightarrow> exn + bool" where
  "is_candle_closed open_time tf now = map_sum id (\<lambda>c. c \<le> now) (candle_close_time open_time tf)"

definition last_closed_candle_open :: "string \<Rightarrow> int \<Rightarrow> exn + int" where
  "last_closed_candle_open tf now =
     (case floor_to_timeframe now tf of
        Inl err \<Rightarrow> Inl err
      | Inr f \<Rightarrow> map_sum id (\<lambda>s. f - s * 10 ^ 6) (timeframe_seconds tf))"

definition is_data_stale :: "int \<Rightarrow> int \<Rightarrow> int \<Rightarrow> bool" where
  "is_data_stale last_update max_age_seconds now \<longleftrightarrow> of_int max_age_seconds < seconds_float (now - last_update)"

section \<open>Instants without loss\<close>

text \<open>Up to the year 2096 an instant in microseconds stays in its second.\<close>

definition in_era :: "int \<Rightarrow> bool" where
  "in_era us \<longleftrightarrow> 0 \<le> us \<and> us \<le> 4 * 10 ^ 15"

lemma seconds_whole: "\<bar>s\<bar> < 2 ^ 53 \<Longrightarrow> seconds_float (s * 10 ^ 6) = of_int s"
  by (simp add: seconds_float_def fdiv_def flt_int)

lemma round_down_of_int [simp]: "round_down (of_int k) = k"
  by (simp add: round_down_def)

lemma epoch_seconds:
  assumes "in_era us"
  shows "round_down (seconds_float us) = us div 10 ^ 6"
proof -
  define k where "k = us div 10 ^ 6"
  define r where "r = us mod 10 ^ 6"
  have us: "us = k * 10 ^ 6 + r" "0 \<le> r" "r \<le> 10 ^ 6 - 1" "0 \<le> k"
    using assms pos_mod_bound [of "10 ^ 6" us] by (simp_all add: k_def r_def in_era_def pos_imp_zdiv_nonneg_iff)
  define x :: rat where "x = of_int us / 10 ^ 6"
  have x: "x = of_int k + of_int r / 10 ^ 6" unfolding x_def us(1) by (simp add: add_divide_distrib)
  have "k < 2 ^ 53" using assms us by (simp add: in_era_def)
  then have k: "flt (of_int k) = of_int k" using us(4) by (intro flt_int) simp
  have lower: "of_int k \<le> flt x" using us(2) k by (intro flt.rd_ge) (simp_all add: x)
  have "flt x \<le> x * (1 + 1 / 2 ^ 53)" using us by (intro flt_upper) (simp add: x)
  also have "\<dots> = x + x / 2 ^ 53" by (simp add: distrib_left)
  also have "x / 2 ^ 53 < 1 / 10 ^ 6"
  proof -
    have "of_int us \<le> (4 * 10 ^ 15 :: rat)" using assms by (simp add: in_era_def flip: of_int_le_numeral_iff)
    then show ?thesis by (simp add: x_def)
  qed
  finally have "flt x < x + 1 / 10 ^ 6" by simp
  moreover have "x + 1 / 10 ^ 6 \<le> of_int k + 1"
  proof -
    have "(of_int r :: rat) \<le> 10 ^ 6 - 1" using us(3) by (simp flip: of_int_le_numeral_iff)
    then show ?thesis by (simp add: x field_simps)
  qed
  ultimately have "flt x < of_int k + 1" by simp
  with lower have "\<lfloor>flt x\<rfloor> = k" by (intro floor_unique) simp_all
  moreover have "0 \<le> flt x" using lower us(4) by (meson of_int_0_le_iff order_trans)
  ultimately show ?thesis by (simp add: seconds_float_def fdiv_def round_down_def x_def k_def)
qed
lemma timeframe_pos: "timeframe_seconds tf = Inr s \<Longrightarrow> 60 \<le> s"
  by (auto simp: timeframe_seconds_def TIMEFRAME_SECONDS_def split: option.splits if_splits)

lemma floor_exact:
  assumes "in_era us" "timeframe_seconds tf = Inr s"
  shows "floor_to_timeframe us tf = Inr (us - us mod (s * 10 ^ 6))"
proof -
  have "us mod (10 ^ 6 * s) = 10 ^ 6 * (us div 10 ^ 6 mod s) + us mod 10 ^ 6"
    using timeframe_pos [OF assms(2)] by (intro zmod_zmult2_eq) simp
  moreover have "us = 10 ^ 6 * (us div 10 ^ 6) + us mod 10 ^ 6" by simp
  ultimately have "us - us mod (s * 10 ^ 6) = 10 ^ 6 * (us div 10 ^ 6 - us div 10 ^ 6 mod s)"
    unfolding mult.commute [of s] right_diff_distrib by linarith
  then show ?thesis by (simp add: floor_to_timeframe_def assms(2) epoch_seconds [OF assms(1)] Let_def)
qed

lemma aligned_iff:
  assumes "in_era us" "timeframe_seconds tf = Inr s"
  shows "floor_to_timeframe us tf = Inr us \<longleftrightarrow> s * 10 ^ 6 dvd us"
  by (simp add: floor_exact [OF assms] dvd_eq_mod_eq_0)

text \<open>The last closed candle is closed, and the one after it is not.\<close>

lemma last_closed_is_last:
  assumes "in_era now" "timeframe_seconds tf = Inr s" "last_closed_candle_open tf now = Inr t"
  shows "is_candle_closed t tf now = Inr True" "is_candle_closed (t + s * 10 ^ 6) tf now = Inr False"
    "s * 10 ^ 6 dvd t"
proof -
  have t: "t = now - now mod (s * 10 ^ 6) - s * 10 ^ 6"
    using assms(3) by (simp add: last_closed_candle_open_def floor_exact [OF assms(1,2)] assms(2))
  have m: "0 \<le> now mod (s * 10 ^ 6)" "now mod (s * 10 ^ 6) < s * 10 ^ 6"
    using timeframe_pos [OF assms(2)] by (simp_all add: pos_mod_bound)
  show "is_candle_closed t tf now = Inr True" "is_candle_closed (t + s * 10 ^ 6) tf now = Inr False"
    using m by (simp_all add: is_candle_closed_def candle_close_time_def assms(2) t)
  show "s * 10 ^ 6 dvd t" unfolding t by (intro dvd_diff dvd_minus_mod) simp
qed

lemma rhe_close: "\<bar>x - of_int n\<bar> < 1 / 2 \<Longrightarrow> rhe x = n"
proof -
  assume "\<bar>x - of_int n\<bar> < 1 / 2"
  then have "x - of_int n < 1 / 2" "of_int n - x < 1 / 2" by linarith+
  with rhe_near [of x] have "(of_int (rhe x) :: rat) < of_int (n + 1)" "(of_int n :: rat) < of_int (rhe x + 1)"
    by simp_all
  then show ?thesis unfolding of_int_less_iff by linarith
qed

lemma from_timestamp_exact:
  assumes "0 \<le> ms" "ms \<le> 4 * 10 ^ 12"
  shows "from_timestamp (fdiv (of_int ms) 1000) = ms * 1000"
proof -
  define k where "k = ms div 1000"
  define r where "r = ms mod 1000"
  have ms: "ms = k * 1000 + r" "0 \<le> r" "r \<le> 999" "0 \<le> k"
    using assms pos_mod_bound [of 1000 ms] by (simp_all add: k_def r_def pos_imp_zdiv_nonneg_iff)
  define x :: rat where "x = of_int ms / 1000"
  have x: "x = of_int k + of_int r / 1000" unfolding x_def ms(1) by (simp add: add_divide_distrib)
  have r: "(0 :: rat) \<le> of_int r" "(of_int r :: rat) \<le> 999" using ms by simp_all
  have "k < 2 ^ 53" using assms ms by simp
  then have k: "flt (of_int k) = of_int k" using ms(4) by (intro flt_int) simp
  have lower: "of_int k \<le> flt x" using r k by (intro flt.rd_ge) (simp_all add: x)
  have small: "x / 2 ^ 53 \<le> 45 / 10 ^ 8"
  proof -
    have "of_int ms \<le> (4 * 10 ^ 12 :: rat)" using assms by (simp flip: of_int_le_numeral_iff)
    then show ?thesis by (simp add: x_def)
  qed
  have near: "\<bar>flt x - x\<bar> \<le> 45 / 10 ^ 8"
  proof -
    have "(of_nat 2 :: rat) powi (1 - int 53) = 1 / 2 ^ 52" by (simp add: power_int_def power_one_over)
    then have "\<bar>flt x - x\<bar> \<le> x * (1 / 2 ^ 53)"
      using rnd_error [of 2 53 x] r ms by (simp add: flt_def x)
    with small show ?thesis by simp
  qed
  have "x \<le> of_int k + 999 / 1000" using r by (simp add: x)
  then have "flt x < of_int k + 1" using near [THEN abs_le_D1] by simp
  with lower have "\<lfloor>flt x\<rfloor> = k" by (intro floor_unique) simp_all
  moreover have "0 \<le> flt x" using lower ms(4) by (meson of_int_0_le_iff order_trans)
  ultimately have whole: "round_down (flt x) = k" by (simp add: round_down_def)
  define y where "y = (flt x - of_int k) * 10 ^ 6"
  have y: "\<bar>y - of_int (r * 1000)\<bar> \<le> 45 / 100"
  proof -
    have "y - of_int (r * 1000) = (flt x - x) * 10 ^ 6" unfolding y_def by (simp add: x algebra_simps)
    then have "\<bar>y - of_int (r * 1000)\<bar> = \<bar>flt x - x\<bar> * 10 ^ 6" by (simp only: abs_mult) simp
    also have "\<dots> \<le> 45 / 10 ^ 8 * 10 ^ 6" using near by (rule mult_right_mono) simp
    finally show ?thesis by simp
  qed
  have "y \<le> of_int (r * 1000) + 45 / 100" using abs_le_D1 [OF y] by simp
  then have y0: "0 \<le> y" "y \<le> 10 ^ 6" using lower r by (simp_all add: y_def)
  have "\<bar>flt y - y\<bar> \<le> 1 / 100"
  proof -
    have "(of_nat 2 :: rat) powi (1 - int 53) = 1 / 2 ^ 52" by (simp add: power_int_def power_one_over)
    then have "\<bar>flt y - y\<bar> \<le> y * (1 / 2 ^ 53)" using rnd_error [of 2 53 y] y0 by (simp add: flt_def)
    also have "\<dots> \<le> 1 / 100" using y0 by simp
    finally show ?thesis .
  qed
  with y have "\<bar>flt y - of_int (r * 1000)\<bar> \<le> 46 / 100" by linarith
  then have "rhe (flt y) = r * 1000" by (intro rhe_close) linarith
  then have "from_timestamp (flt x) = k * 10 ^ 6 + r * 1000"
    unfolding from_timestamp_def whole Let_def fmul_def y_def by simp
  then show ?thesis by (simp add: fdiv_def flip: x_def) (simp add: ms(1))
qed

end
