(* ===== verification/Klines.thy ===== *)
theory Klines
  imports TimeUtils Json
begin

text \<open>
  \<open>binance/market_data.py\<close> and \<open>parse_kline_event\<close> of \<open>binance/ws_client.py\<close>: candles as the
  exchange sends them, over REST (rows of an array) and over the stream (a dict). The HTTP
  call itself is \<open>RestClient\<close>; here its result is an argument.
\<close>

record kline =
  kl_symbol :: string
  kl_timeframe :: string
  kl_open_time :: int
  kl_close_time :: int
  kl_open :: rat
  kl_high :: rat
  kl_low :: rat
  kl_close :: rat
  kl_volume :: rat
  kl_quote_volume :: rat
  kl_trades :: int
  kl_is_closed :: bool

text \<open>\<open>_ms_to_utc\<close>; \<open>None\<close> outside the years a \<open>datetime\<close> holds, where it raises.\<close>

definition ms_to_utc :: "int \<Rightarrow> int option" where
  "ms_to_utc ms = (let us = from_timestamp (fdiv (of_int ms) 1000) in
     if - 62135596800 * 10 ^ 6 \<le> us \<and> us < 253402300800 * 10 ^ 6 then Some us else None)"

definition item :: "json list \<Rightarrow> nat \<Rightarrow> json option" where
  "item row i = (if i < length row then Some (row ! i) else None)"

definition kline_of :: "string \<Rightarrow> string \<Rightarrow> int option \<Rightarrow> int option \<Rightarrow> json option list \<Rightarrow> int option \<Rightarrow> (int \<Rightarrow> bool) \<Rightarrow> kline option" where
  "kline_of s tf open_ms close_ms numbers trades over =
     (case (open_ms, close_ms, trades, map (\<lambda>f. Option.bind f decimal_str) numbers) of
        (Some om, Some cm, Some n, [Some o_, Some h, Some l, Some c, Some v, Some q]) \<Rightarrow>
          (case (ms_to_utc om, ms_to_utc (cm + 1)) of
             (Some ot, Some ct) \<Rightarrow> Some \<lparr>kl_symbol = upper s, kl_timeframe = tf, kl_open_time = ot,
               kl_close_time = ct, kl_open = o_, kl_high = h, kl_low = l, kl_close = c, kl_volume = v,
               kl_quote_volume = q, kl_trades = n, kl_is_closed = over cm\<rparr>
           | _ \<Rightarrow> None)
      | _ \<Rightarrow> None)"

definition from_rest_row :: "json list \<Rightarrow> string \<Rightarrow> string \<Rightarrow> int \<Rightarrow> exn + kline" where
  "from_rest_row row s tf now_ms =
     (case kline_of s tf (Option.bind (item row 0) py_int) (Option.bind (item row 6) py_int)
             (map (item row) [1, 2, 3, 4, 5, 7]) (Option.bind (item row 8) py_int) (\<lambda>cm. cm < now_ms) of
        None \<Rightarrow> Inl BinanceException
      | Some k \<Rightarrow> Inr k)"

text \<open>
  A row is subscripted with integers: text gives its characters, an object has no such key, and
  anything else cannot be subscripted.
\<close>

fun from_rest_json :: "json \<Rightarrow> string \<Rightarrow> string \<Rightarrow> int \<Rightarrow> exn + kline" where
  "from_rest_json (JList row) s tf now_ms = from_rest_row row s tf now_ms"
| "from_rest_json (JStr t) s tf now_ms = from_rest_row (map (\<lambda>c. JStr [c]) t) s tf now_ms"
| "from_rest_json (JObj _) s tf now_ms = Inl KeyError"
| "from_rest_json _ s tf now_ms = Inl BinanceException"

fun parse_rows :: "json list \<Rightarrow> string \<Rightarrow> string \<Rightarrow> int \<Rightarrow> exn + kline list" where
  "parse_rows [] s tf now_ms = Inr []"
| "parse_rows (r # rs) s tf now_ms =
     (case from_rest_json r s tf now_ms of
        Inl err \<Rightarrow> Inl err
      | Inr k \<Rightarrow> map_sum id (\<lambda>ks. k # ks) (parse_rows rs s tf now_ms))"

definition MAX_KLINES_PER_REQUEST :: int where
  "MAX_KLINES_PER_REQUEST = 1000"

definition klines :: "(string \<Rightarrow> string \<Rightarrow> int \<Rightarrow> int option \<Rightarrow> int option \<Rightarrow> exn + json) \<Rightarrow> int
    \<Rightarrow> string \<Rightarrow> string \<Rightarrow> int \<Rightarrow> int option \<Rightarrow> int option \<Rightarrow> exn + kline list" where
  "klines get now_ms s tf limit start_ms end_ms =
     (if limit < 1 \<or> MAX_KLINES_PER_REQUEST < limit then Inl BinanceException
      else case get (upper s) tf limit start_ms end_ms of
          Inl err \<Rightarrow> Inl err
        | Inr (JList rows) \<Rightarrow> parse_rows rows s tf now_ms
        | Inr _ \<Rightarrow> Inl BinanceException)"

definition closed_klines :: "(string \<Rightarrow> string \<Rightarrow> int \<Rightarrow> int option \<Rightarrow> int option \<Rightarrow> exn + json) \<Rightarrow> int
    \<Rightarrow> string \<Rightarrow> string \<Rightarrow> int \<Rightarrow> exn + kline list" where
  "closed_klines get now_ms s tf limit = map_sum id (filter kl_is_closed) (klines get now_ms s tf limit None None)"

section \<open>The ticker\<close>

record ticker =
  tk_symbol :: string
  tk_price :: rat
  tk_bid :: "rat option"
  tk_ask :: "rat option"

definition spread_fraction :: "ticker \<Rightarrow> rat option" where
  "spread_fraction t = (case (tk_bid t, tk_ask t) of
     (Some b, Some a) \<Rightarrow>
       if b \<le> 0 then None
       else let mid = ddiv (dadd b a) 2 in if 0 < mid then Some (ddiv (dsub a b) mid) else None
   | _ \<Rightarrow> None)"

text \<open>
  Both endpoints answer an object; a missing price is a \<open>KeyError\<close>, an unparsable one
  \<open>decimal.InvalidOperation\<close>, which is an \<open>ArithmeticError\<close>; it is \<open>ValueError\<close> here.
\<close>

definition ticker_of :: "string \<Rightarrow> payload \<Rightarrow> payload \<Rightarrow> exn + ticker" where
  "ticker_of s book price_payload =
     (case map_of price_payload ''price'' of
        None \<Rightarrow> Inl KeyError
      | Some v \<Rightarrow> (case decimal_str v of
            None \<Rightarrow> Inl ValueError
          | Some p \<Rightarrow> Inr \<lparr>tk_symbol = upper s, tk_price = p,
              tk_bid = Option.bind (map_of book ''bidPrice'') decimal_str,
              tk_ask = Option.bind (map_of book ''askPrice'') decimal_str\<rparr>))"

section \<open>The stream\<close>

record stream_event =
  se_symbol :: string
  se_timeframe :: string
  se_open_time_ms :: int
  se_close_time_ms :: int
  se_open :: json
  se_high :: json
  se_low :: json
  se_close :: json
  se_volume :: json
  se_quote_volume :: json
  se_trades :: int
  se_is_closed :: bool

text \<open>The numbers keep their JSON value: \<open>Decimal(str(str(x)))\<close> is \<open>Decimal(str(x))\<close>.\<close>

definition parse_kline_event :: "payload \<Rightarrow> stream_event option" where
  "parse_kline_event data =
     (case map_of data ''k'' of
        Some (JObj k) \<Rightarrow>
          (case (map_of k ''i'', Option.bind (map_of k ''t'') py_int, Option.bind (map_of k ''T'') py_int,
                 map_of k ''o'', map_of k ''h'', map_of k ''l'', map_of k ''c'', map_of k ''v'',
                 py_int (dict_get k ''n'' (JInt 0)), map_of k ''x'') of
             (Some i, Some t, Some tt, Some o_, Some h, Some l, Some c, Some v, Some n, Some x) \<Rightarrow>
               Some \<lparr>se_symbol = upper (py_str (dict_get data ''s'' (dict_get k ''s'' (JStr '''')))),
                 se_timeframe = py_str i, se_open_time_ms = t, se_close_time_ms = tt, se_open = o_,
                 se_high = h, se_low = l, se_close = c, se_volume = v,
                 se_quote_volume = dict_get k ''q'' (JStr ''0''), se_trades = n, se_is_closed = py_bool x\<rparr>
           | _ \<Rightarrow> None)
      | _ \<Rightarrow> None)"

definition from_stream_event :: "stream_event \<Rightarrow> exn + kline" where
  "from_stream_event e =
     (case kline_of (se_symbol e) (se_timeframe e) (Some (se_open_time_ms e)) (Some (se_close_time_ms e))
             [Some (se_open e), Some (se_high e), Some (se_low e), Some (se_close e), Some (se_volume e),
              Some (se_quote_volume e)] (Some (se_trades e)) (\<lambda>_. se_is_closed e) of
        None \<Rightarrow> Inl BinanceException
      | Some k \<Rightarrow> Inr k)"

section \<open>Lemmas\<close>

lemma ms_to_utc_exact: "0 \<le> ms \<Longrightarrow> ms \<le> 4 * 10 ^ 12 \<Longrightarrow> ms_to_utc ms = Some (ms * 1000)"
  by (simp add: ms_to_utc_def from_timestamp_exact Let_def)

lemma kline_of_cases:
  assumes "kline_of s tf om cm numbers n over = Some k"
  obtains a b where "om = Some a" "cm = Some b" "ms_to_utc a = Some (kl_open_time k)"
    "ms_to_utc (b + 1) = Some (kl_close_time k)" "kl_is_closed k = over b" "kl_symbol k = upper s"
    "kl_timeframe k = tf"
  using assms by (auto simp: kline_of_def split: option.splits list.splits)

text \<open>A REST candle passes as closed exactly when its whole interval is over.\<close>

lemma rest_closed_iff_past:
  assumes "from_rest_row row s tf now_ms = Inr k" "Option.bind (item row 6) py_int = Some cm"
    "0 \<le> cm + 1" "cm + 1 \<le> 4 * 10 ^ 12"
  shows "kl_is_closed k \<longleftrightarrow> kl_close_time k \<le> now_ms * 1000"
proof -
  have "kline_of s tf (Option.bind (item row 0) py_int) (Option.bind (item row 6) py_int)
      (map (item row) [1, 2, 3, 4, 5, 7]) (Option.bind (item row 8) py_int) (\<lambda>cm. cm < now_ms) = Some k"
    using assms(1) by (simp add: from_rest_row_def split: option.splits)
  then show ?thesis
    by (rule kline_of_cases) (use assms(2-4) in \<open>auto simp: ms_to_utc_exact\<close>)
qed

lemma parse_rows_symbol:
  "parse_rows rs s tf now = Inr ks \<Longrightarrow> \<forall>k \<in> set ks. kl_symbol k = upper s \<and> kl_timeframe k = tf"
proof (induction rs arbitrary: ks)
  case (Cons r rs)
  obtain k ks' where k: "from_rest_json r s tf now = Inr k" "parse_rows rs s tf now = Inr ks'" "ks = k # ks'"
    using Cons.prems by (auto split: sum.splits elim: map_sum_Inr_cases)
  have "from_rest_row row s tf now = Inr k \<Longrightarrow> kl_symbol k = upper s \<and> kl_timeframe k = tf" for row
    by (auto simp: from_rest_row_def split: option.splits elim: kline_of_cases)
  then have "kl_symbol k = upper s \<and> kl_timeframe k = tf" using k(1) by (cases r) auto
  with Cons.IH k show ?case by simp
qed simp

text \<open>The same candle over the stream and over REST is the same kline.\<close>

lemma stream_agrees_with_rest:
  assumes "row = [JInt (se_open_time_ms e), se_open e, se_high e, se_low e, se_close e, se_volume e,
      JInt (se_close_time_ms e), se_quote_volume e, JInt (se_trades e)] @ rest"
    "se_is_closed e \<longleftrightarrow> se_close_time_ms e < now_ms"
  shows "from_rest_row row (se_symbol e) (se_timeframe e) now_ms = from_stream_event e"
proof -
  have "Option.bind (item row 0) py_int = Some (se_open_time_ms e)"
    "Option.bind (item row 6) py_int = Some (se_close_time_ms e)"
    "Option.bind (item row 8) py_int = Some (se_trades e)"
    "map (item row) [1, 2, 3, 4, 5, 7] = [Some (se_open e), Some (se_high e), Some (se_low e), Some (se_close e),
       Some (se_volume e), Some (se_quote_volume e)]"
    by (simp_all add: assms(1) item_def eval_nat_numeral)
  then show ?thesis
    by (simp add: from_rest_row_def from_stream_event_def kline_of_def assms(2)
        split: option.split list.split)
qed

end
