(* ===== verification/Ingestion.thy ===== *)
theory Ingestion
  imports Klines Market Table
begin

text \<open>
  \<open>services/historical_ingestion.py\<close>: candles are upserted page by page under their natural key,
  and one coverage row per symbol, timeframe and source says how far the history reaches. A
  backfill is a loop over the pages the exchange serves (\<open>fetch\<close>: the number of the call and
  the start time give a page or an error), bounded by \<open>max_pages\<close>, committed page by page.
\<close>

section \<open>Tables\<close>

record integrity_report =
  rp_symbol :: string
  rp_timeframe :: string
  rp_candle_count :: int
  rp_expected_count :: "int option"
  rp_missing_candles :: int
  rp_duplicate_open_times :: int
  rp_misaligned :: "int list"
  rp_ohlc_violations :: "int list"
  rp_non_positive :: "int list"
  rp_abnormal_moves :: "int list"
  rp_checked_at :: int

record coverage =
  cv_symbol :: string
  cv_timeframe :: string
  cv_source :: string
  cv_first_open :: "int option"
  cv_last_open :: "int option"
  cv_count :: int
  cv_missing :: int
  cv_last_check :: "int option"
  cv_report :: "integrity_report option"

record market_db =
  md_candles :: "candle list"
  md_coverage :: "coverage list"

definition empty_market :: market_db where
  "empty_market = \<lparr>md_candles = [], md_coverage = []\<rparr>"

definition candle_key :: "candle \<Rightarrow> string \<times> string \<times> int" where
  "candle_key c = (cd_symbol c, cd_timeframe c, cd_open_time c)"

definition kline_key :: "kline \<Rightarrow> string \<times> string \<times> int" where
  "kline_key k = (kl_symbol k, kl_timeframe k, kl_open_time k)"

definition covers :: "string \<Rightarrow> string \<Rightarrow> string \<Rightarrow> coverage \<Rightarrow> bool" where
  "covers s tf src m \<longleftrightarrow> cv_symbol m = s \<and> cv_timeframe m = tf \<and> cv_source m = src"

definition coverage_of :: "market_db \<Rightarrow> string \<Rightarrow> string \<Rightarrow> string \<Rightarrow> coverage option" where
  "coverage_of db s tf src = List.find (covers s tf src) (md_coverage db)"

definition new_coverage :: "string \<Rightarrow> string \<Rightarrow> string \<Rightarrow> coverage" where
  "new_coverage s tf src = \<lparr>cv_symbol = s, cv_timeframe = tf, cv_source = src, cv_first_open = None,
     cv_last_open = None, cv_count = 0, cv_missing = 0, cv_last_check = None, cv_report = None\<rparr>"

text \<open>The row of a triple, changed; it is added first when there is none.\<close>

definition edit_coverage :: "string \<Rightarrow> string \<Rightarrow> string \<Rightarrow> (coverage \<Rightarrow> coverage) \<Rightarrow> market_db \<Rightarrow> market_db" where
  "edit_coverage s tf src f db =
     db\<lparr>md_coverage := (case coverage_of db s tf src of
          None \<Rightarrow> md_coverage db @ [f (new_coverage s tf src)]
        | Some _ \<Rightarrow> map (\<lambda>m. if covers s tf src m then f m else m) (md_coverage db))\<rparr>"

section \<open>Resuming\<close>

definition to_ms :: "int \<Rightarrow> int" where
  "to_ms us = round_down (fmul (seconds_float us) 1000)"

definition resume_point :: "market_db \<Rightarrow> string \<Rightarrow> string \<Rightarrow> string \<Rightarrow> exn + int option" where
  "resume_point db s tf src =
     (case Option.bind (coverage_of db s tf src) cv_last_open of
        None \<Rightarrow> Inr None
      | Some t \<Rightarrow> map_sum id (\<lambda>sec. Some (to_ms t + sec * 1000)) (timeframe_seconds tf))"

section \<open>Storing a page\<close>

definition candle_of_kline :: "(nat \<Rightarrow> rat \<Rightarrow> rat) \<Rightarrow> string \<Rightarrow> kline \<Rightarrow> candle" where
  "candle_of_kline qz src k = \<lparr>cd_symbol = kl_symbol k, cd_timeframe = kl_timeframe k,
     cd_open_time = kl_open_time k, cd_close_time = kl_close_time k, cd_open = qz 10 (kl_open k),
     cd_high = qz 10 (kl_high k), cd_low = qz 10 (kl_low k), cd_close = qz 10 (kl_close k),
     cd_volume = qz 10 (kl_volume k), cd_quote_volume = Some (qz 10 (kl_quote_volume k)),
     cd_trades = Some (kl_trades k), cd_is_closed = True, cd_source = src\<rparr>"

text \<open>\<open>ON CONFLICT DO UPDATE\<close>: the eight columns of the statement, not the flag nor the source.\<close>

definition refresh_candle :: "candle \<Rightarrow> candle \<Rightarrow> candle" where
  "refresh_candle new old = old\<lparr>cd_close_time := cd_close_time new, cd_open := cd_open new,
     cd_high := cd_high new, cd_low := cd_low new, cd_close := cd_close new, cd_volume := cd_volume new,
     cd_quote_volume := cd_quote_volume new, cd_trades := cd_trades new\<rparr>"

interpretation candles: keyed_table candle_key refresh_candle
  by unfold_locales (simp add: candle_key_def refresh_candle_def)

text \<open>A statement that would touch a row twice is refused by the database.\<close>

definition upsert_candles ::
  "(nat \<Rightarrow> rat \<Rightarrow> rat) \<Rightarrow> string \<Rightarrow> kline list \<Rightarrow> candle list \<Rightarrow> exn + candle list \<times> int \<times> int" where
  "upsert_candles qz src ks rows =
     (if ks = [] then Inr (rows, 0, 0)
      else if \<not> distinct (map kline_key ks) then Inl DatabaseError
      else let inserted = int (length (filter (\<lambda>k. kline_key k \<notin> set (map candle_key rows)) ks))
           in Inr (fold (upsert candle_key refresh_candle) (map (candle_of_kline qz src) ks) rows,
                   inserted, int (length ks) - inserted))"

definition earlier :: "int option \<Rightarrow> int option \<Rightarrow> int option" where
  "earlier new old = (case new of None \<Rightarrow> old
     | Some n \<Rightarrow> (case old of None \<Rightarrow> new | Some t \<Rightarrow> if n < t then new else old))"

definition later :: "int option \<Rightarrow> int option \<Rightarrow> int option" where
  "later new old = (case new of None \<Rightarrow> old
     | Some n \<Rightarrow> (case old of None \<Rightarrow> new | Some t \<Rightarrow> if t < n then new else old))"

definition update_metadata ::
  "string \<Rightarrow> string \<Rightarrow> string \<Rightarrow> int option \<Rightarrow> int option \<Rightarrow> int \<Rightarrow> market_db \<Rightarrow> market_db" where
  "update_metadata s tf src first_open last_open inserted =
     edit_coverage s tf src (\<lambda>m. m\<lparr>cv_first_open := earlier first_open (cv_first_open m),
       cv_last_open := later last_open (cv_last_open m), cv_count := cv_count m + inserted\<rparr>)"

section \<open>The live candle\<close>

definition persist_closed_candle :: "(nat \<Rightarrow> rat \<Rightarrow> rat) \<Rightarrow> string \<Rightarrow> kline \<Rightarrow> market_db \<Rightarrow> market_db \<times> (exn + unit)" where
  "persist_closed_candle qz src k db =
     (if \<not> kl_is_closed k then (db, Inl ValueError)
      else case upsert_candles qz src [k] (md_candles db) of
          Inl err \<Rightarrow> (db, Inl err)
        | Inr (rows, inserted, updated) \<Rightarrow>
            (update_metadata (kl_symbol k) (kl_timeframe k) src (Some (kl_open_time k)) (Some (kl_open_time k))
               inserted (db\<lparr>md_candles := rows\<rparr>), Inr ()))"

section \<open>The backfill\<close>

record ingestion_result =
  ir_symbol :: string
  ir_timeframe :: string
  ir_pages_fetched :: nat
  ir_inserted :: int
  ir_updated :: int
  ir_reached_present :: bool
  ir_stopped_reason :: string

definition KLINES_PER_PAGE :: nat where
  "KLINES_PER_PAGE = 1000"

definition EARLIEST_POSSIBLE_MS :: int where
  "EARLIEST_POSSIBLE_MS = 1262304000000"

definition DEFAULT_MAX_PAGES :: nat where
  "DEFAULT_MAX_PAGES = 200"

definition new_result :: "string \<Rightarrow> string \<Rightarrow> ingestion_result" where
  "new_result s tf = \<lparr>ir_symbol = s, ir_timeframe = tf, ir_pages_fetched = 0, ir_inserted = 0,
     ir_updated = 0, ir_reached_present = False, ir_stopped_reason = ''in_progress''\<rparr>"

text \<open>One page written and committed, and where the next one starts.\<close>

definition store_page ::
  "(nat \<Rightarrow> rat \<Rightarrow> rat) \<Rightarrow> string \<Rightarrow> string \<Rightarrow> string \<Rightarrow> int \<Rightarrow> kline list \<Rightarrow> int \<Rightarrow> market_db \<Rightarrow> ingestion_result
     \<Rightarrow> exn + market_db \<times> ingestion_result \<times> int" where
  "store_page qz src s tf step_ms page start db res =
     (if page = [] then Inr (db, res, start)
      else case upsert_candles qz src page (md_candles db) of
          Inl err \<Rightarrow> Inl err
        | Inr (rows, inserted, updated) \<Rightarrow>
            Inr (update_metadata s tf src (Some (kl_open_time (hd page))) (Some (kl_open_time (List.last page)))
                   inserted (db\<lparr>md_candles := rows\<rparr>),
                 res\<lparr>ir_inserted := ir_inserted res + inserted, ir_updated := ir_updated res + updated\<rparr>,
                 to_ms (kl_open_time (List.last page)) + step_ms))"

fun backfill_pages ::
  "(nat \<Rightarrow> rat \<Rightarrow> rat) \<Rightarrow> string \<Rightarrow> (nat \<Rightarrow> int \<Rightarrow> exn + kline list) \<Rightarrow> string \<Rightarrow> string \<Rightarrow> int \<Rightarrow> nat \<Rightarrow> int
     \<Rightarrow> market_db \<Rightarrow> ingestion_result \<Rightarrow> market_db \<times> (exn + ingestion_result)" where
  "backfill_pages qz src fetch s tf step_ms 0 start db res =
     (db, Inr (res\<lparr>ir_stopped_reason := ''max_pages_reached''\<rparr>))"
| "backfill_pages qz src fetch s tf step_ms (Suc n) start db res =
     (case fetch (ir_pages_fetched res) start of
        Inl err \<Rightarrow> (db, Inl err)
      | Inr ks \<Rightarrow>
          (let page = filter kl_is_closed ks in
           case store_page qz src s tf step_ms page start db (res\<lparr>ir_pages_fetched := ir_pages_fetched res + 1\<rparr>) of
             Inl err \<Rightarrow> (db, Inl err)
           | Inr (db', res', start') \<Rightarrow>
               if length page < KLINES_PER_PAGE
               then (db', Inr (res'\<lparr>ir_reached_present := True, ir_stopped_reason := ''reached_present''\<rparr>))
               else backfill_pages qz src fetch s tf step_ms n start' db' res'))"

definition backfill_symbol_timeframe ::
  "(nat \<Rightarrow> rat \<Rightarrow> rat) \<Rightarrow> string \<Rightarrow> (nat \<Rightarrow> int \<Rightarrow> exn + kline list) \<Rightarrow> string \<Rightarrow> string \<Rightarrow> nat \<Rightarrow> market_db
     \<Rightarrow> market_db \<times> (exn + ingestion_result)" where
  "backfill_symbol_timeframe qz src fetch s tf max_pages db =
     (case resume_point db s tf src of
        Inl err \<Rightarrow> (db, Inl err)
      | Inr resume \<Rightarrow>
          (case timeframe_seconds tf of
             Inl err \<Rightarrow> (db, Inl err)
           | Inr sec \<Rightarrow>
               backfill_pages qz src fetch s tf (sec * 1000) max_pages
                 (case resume of None \<Rightarrow> EARLIEST_POSSIBLE_MS | Some ms \<Rightarrow> ms) db (new_result s tf)))"

section \<open>What a statement does\<close>

lemma kline_candle_key [simp]: "candle_key (candle_of_kline qz src k) = kline_key k"
  by (simp add: candle_key_def candle_of_kline_def kline_key_def)

lemma candle_keys_of: "map candle_key (map (candle_of_kline qz src) ks) = map kline_key ks"
  by (simp add: comp_def)

text \<open>The columns an upsert of \<open>k\<close> writes hold what \<open>k\<close> says.\<close>

definition holds :: "(nat \<Rightarrow> rat \<Rightarrow> rat) \<Rightarrow> string \<Rightarrow> kline \<Rightarrow> candle \<Rightarrow> bool" where
  "holds qz src k c \<longleftrightarrow> candle_key c = kline_key k \<and> refresh_candle (candle_of_kline qz src k) c = c"

lemma upsert_candles_result:
  assumes "upsert_candles qz src ks rows = Inr (rows', ins, upd)"
  shows "candle_key ` set rows' = kline_key ` set ks \<union> candle_key ` set rows"
    and "distinct (map candle_key rows) \<Longrightarrow> distinct (map candle_key rows')"
    and "int (length rows') = int (length rows) + ins" "ins + upd = int (length ks)"
    and "ins = int (length (filter (\<lambda>k. kline_key k \<notin> candle_key ` set rows) ks))"
    and "c \<in> set rows \<Longrightarrow> candle_key c \<notin> kline_key ` set ks \<Longrightarrow> c \<in> set rows'"
    and "distinct (map candle_key rows) \<Longrightarrow> k \<in> set ks \<Longrightarrow> \<exists>c \<in> set rows'. holds qz src k c"
    and "distinct (map kline_key ks)"
proof -
  let ?cs = "map (candle_of_kline qz src) ks"
  show d: "distinct (map kline_key ks)" using assms by (auto simp: upsert_candles_def Let_def split: if_splits)
  have eq: "rows' = fold (upsert candle_key refresh_candle) ?cs rows"
    and ins: "ins = int (length (filter (\<lambda>k. kline_key k \<notin> candle_key ` set rows) ks))"
    and sum: "ins + upd = int (length ks)"
    using assms by (auto simp: upsert_candles_def Let_def split: if_splits)
  have dc: "distinct (map candle_key ?cs)" using d unfolding candle_keys_of .
  show "candle_key ` set rows' = kline_key ` set ks \<union> candle_key ` set rows"
    using candles.upsert_run_keys [of ?cs rows] by (simp add: eq image_image)
  show "distinct (map candle_key rows) \<Longrightarrow> distinct (map candle_key rows')"
    unfolding eq by (rule candles.upsert_run_distinct)
  show "int (length rows') = int (length rows) + ins"
    using candles.upsert_run_length [OF dc, of rows] by (simp add: eq ins filter_map comp_def)
  show "ins + upd = int (length ks)" "ins = int (length (filter (\<lambda>k. kline_key k \<notin> candle_key ` set rows) ks))"
    by fact+
  show "c \<in> set rows \<Longrightarrow> candle_key c \<notin> kline_key ` set ks \<Longrightarrow> c \<in> set rows'"
    unfolding eq by (intro candles.upsert_run_keeps) (simp_all add: image_image)
  assume "distinct (map candle_key rows)" "k \<in> set ks"
  with candles.upsert_run_row [OF dc, of rows "candle_of_kline qz src k"] obtain q where
    "q \<in> set rows'" "candle_key q = kline_key k"
    "q = candle_of_kline qz src k \<or> (\<exists>old. q = refresh_candle (candle_of_kline qz src k) old)"
    unfolding eq by auto
  then show "\<exists>c \<in> set rows'. holds qz src k c"
    by (intro bexI [of _ q]) (auto simp: holds_def refresh_candle_def)
qed

lemma upsert_candles_closed:
  assumes "upsert_candles qz src ks rows = Inr (rows', ins, upd)" "\<forall>c \<in> set rows. cd_is_closed c \<and> cd_source c = src"
  shows "\<forall>c \<in> set rows'. cd_is_closed c \<and> cd_source c = src"
proof -
  have one: "\<forall>c \<in> set (upsert candle_key refresh_candle (candle_of_kline qz src k) rs). cd_is_closed c \<and> cd_source c = src"
    if "\<forall>c \<in> set rs. cd_is_closed c \<and> cd_source c = src" for k rs
    using that by (auto simp: upsert_def refresh_candle_def candle_of_kline_def)
  have "\<forall>c \<in> set (fold (upsert candle_key refresh_candle) (map (candle_of_kline qz src) ks) rows). cd_is_closed c \<and> cd_source c = src"
    using assms(2)
  proof (induction ks arbitrary: rows)
    case (Cons k ks)
    show ?case using Cons.IH [OF one [OF Cons.prems]] by simp
  qed simp
  with assms show ?thesis by (auto simp: upsert_candles_def Let_def split: if_splits)
qed

text \<open>A stored candle that was open stays open: the update clause leaves the flag.\<close>

lemma refresh_keeps_flag: "cd_is_closed (refresh_candle new old) = cd_is_closed old"
  by (simp add: refresh_candle_def)

section \<open>Coverage is a function of the candles\<close>

definition opens :: "market_db \<Rightarrow> string \<Rightarrow> string \<Rightarrow> int set" where
  "opens db s tf = {t. (s, tf, t) \<in> candle_key ` set (md_candles db)}"

definition min_option :: "int set \<Rightarrow> int option" where
  "min_option A = (if A = {} then None else Some (Min A))"

definition max_option :: "int set \<Rightarrow> int option" where
  "max_option A = (if A = {} then None else Some (Max A))"

lemma finite_opens [simp]: "finite (opens db s tf)"
proof -
  have "opens db s tf \<subseteq> (\<lambda>c. cd_open_time c) ` set (md_candles db)" by (auto simp: opens_def candle_key_def)
  then show ?thesis by (rule finite_subset) simp
qed

lemma earlier_Some [simp]: "earlier (Some a) (Some b) = Some (min a b)" "earlier (Some a) None = Some a"
  by (simp_all add: earlier_def min_def)

lemma later_Some [simp]: "later (Some a) (Some b) = Some (max a b)" "later (Some a) None = Some a"
  by (simp_all add: later_def max_def)

lemma min_option_Un: "finite A \<Longrightarrow> finite B \<Longrightarrow> B \<noteq> {} \<Longrightarrow> min_option (B \<union> A) = earlier (Some (Min B)) (min_option A)"
  by (cases "A = {}") (simp_all add: min_option_def Min_Un)

lemma max_option_Un: "finite A \<Longrightarrow> finite B \<Longrightarrow> B \<noteq> {} \<Longrightarrow> max_option (B \<union> A) = later (Some (Max B)) (max_option A)"
  by (cases "A = {}") (simp_all add: max_option_def Max_Un)

definition describes :: "coverage \<Rightarrow> int set \<Rightarrow> bool" where
  "describes m A \<longleftrightarrow> cv_count m = int (card A) \<and> cv_first_open m = min_option A \<and> cv_last_open m = max_option A"

definition market_ok :: "string \<Rightarrow> market_db \<Rightarrow> bool" where
  "market_ok src db \<longleftrightarrow> distinct (map candle_key (md_candles db)) \<and> (\<forall>c \<in> set (md_candles db). cd_is_closed c \<and> cd_source c = src) \<and>
     (\<forall>s tf. case coverage_of db s tf src of None \<Rightarrow> opens db s tf = {} | Some m \<Rightarrow> describes m (opens db s tf))"

lemma market_ok_coverage:
  "market_ok src db \<Longrightarrow> case coverage_of db s tf src of None \<Rightarrow> opens db s tf = {} | Some m \<Rightarrow> describes m (opens db s tf)"
  by (simp add: market_ok_def)

lemma covers_unique: "covers s tf src m \<Longrightarrow> covers s' tf' src' m \<longleftrightarrow> s' = s \<and> tf' = tf \<and> src' = src"
  by (auto simp: covers_def)

lemma find_edit:
  assumes "\<And>m s' tf' src'. covers s' tf' src' (f m) = covers s' tf' src' m"
  shows "List.find (covers s' tf' src') (map (\<lambda>m. if covers s tf src m then f m else m) ms) =
    (if s' = s \<and> tf' = tf \<and> src' = src then map_option f (List.find (covers s tf src) ms)
     else List.find (covers s' tf' src') ms)"
proof (induction ms)
  case (Cons m ms)
  then show ?case by (cases "covers s tf src m") (auto simp: assms covers_unique)
qed simp

lemma find_snoc: "List.find P (xs @ [y]) = (case List.find P xs of None \<Rightarrow> if P y then Some y else None | Some z \<Rightarrow> Some z)"
  by (induction xs) auto

lemma coverage_of_edit:
  assumes "\<And>m s' tf' src'. covers s' tf' src' (f m) = covers s' tf' src' m"
  shows "coverage_of (edit_coverage s tf src f db) s' tf' src' =
    (if s' = s \<and> tf' = tf \<and> src' = src
     then Some (f (case coverage_of db s tf src of None \<Rightarrow> new_coverage s tf src | Some m \<Rightarrow> m))
     else coverage_of db s' tf' src')"
proof -
  have new: "covers s' tf' src' (new_coverage s tf src) \<longleftrightarrow> s' = s \<and> tf' = tf \<and> src' = src" for s' tf' src'
    by (auto simp: covers_def new_coverage_def)
  show ?thesis
  proof (cases "coverage_of db s tf src")
    case None
    then show ?thesis
      by (auto simp: coverage_of_def edit_coverage_def find_snoc assms new split: option.split)
  next
    case (Some m)
    then show ?thesis by (simp add: coverage_of_def edit_coverage_def find_edit [OF assms])
  qed
qed

section \<open>Storing keeps the coverage true\<close>

text \<open>What the exchange promises of a page: one symbol, one timeframe, ascending open times.\<close>

definition page_ok :: "string \<Rightarrow> string \<Rightarrow> kline list \<Rightarrow> bool" where
  "page_ok s tf ks \<longleftrightarrow> (\<forall>k \<in> set ks. kl_symbol k = s \<and> kl_timeframe k = tf) \<and> sorted_wrt (<) (map kl_open_time ks)"

lemma page_ok_filter: "page_ok s tf ks \<Longrightarrow> page_ok s tf (filter P ks)"
  unfolding page_ok_def by (auto simp: sorted_wrt_map intro: sorted_wrt_filter)

lemma page_ok_single: "page_ok (kl_symbol k) (kl_timeframe k) [k]"
  by (simp add: page_ok_def)

lemma page_keys: "page_ok s tf ks \<Longrightarrow> kline_key ` set ks = (\<lambda>t. (s, tf, t)) ` kl_open_time ` set ks"
  by (auto simp: page_ok_def kline_key_def image_iff)

lemma strict_sorted_ends:
  fixes ts :: "int list"
  assumes "sorted_wrt (<) ts" "ts \<noteq> []"
  shows "Min (set ts) = hd ts" "Max (set ts) = List.last ts" "card (set ts) = length ts"
proof -
  show "Min (set ts) = hd ts" using assms by (cases ts) (simp_all add: Min_insert2 less_imp_le)
  have ts: "ts = butlast ts @ [List.last ts]" using assms(2) by simp
  have "sorted_wrt (<) (butlast ts @ [List.last ts])" using assms by simp
  then have "\<forall>x \<in> set (butlast ts). x < List.last ts" by (simp add: sorted_wrt_append)
  moreover have "set ts = insert (List.last ts) (set (butlast ts))" using ts by (metis list.set_map set_append list.simps(15) empty_set Un_insert_right sup_bot_right)
  ultimately show "Max (set ts) = List.last ts" by (simp add: Max_insert2 less_imp_le)
  show "card (set ts) = length ts" using assms(1) by (simp add: distinct_card strict_sorted_iff)
qed

lemma stored_ok:
  assumes ok: "market_ok src db" and page: "page_ok s tf page" "page \<noteq> []"
    and up: "upsert_candles qz src page (md_candles db) = Inr (rows, ins, upd)"
    and db': "db' = update_metadata s tf src (Some (kl_open_time (hd page))) (Some (kl_open_time (List.last page))) ins
      (db\<lparr>md_candles := rows\<rparr>)"
  shows "market_ok src db'" "opens db' s tf = kl_open_time ` set page \<union> opens db s tf" "md_candles db' = rows"
    "ins = int (card (opens db' s tf)) - int (card (opens db s tf))"
proof -
  note r = upsert_candles_result [OF up]
  let ?T = "kl_open_time ` set page"
  have rows: "md_candles db' = rows" by (simp add: db' update_metadata_def edit_coverage_def)
  have keys: "candle_key ` set rows = (\<lambda>t. (s, tf, t)) ` ?T \<union> candle_key ` set (md_candles db)"
    using r(1) page_keys [OF page(1)] by simp
  have o: "opens db' s' tf' = (if s' = s \<and> tf' = tf then ?T \<union> opens db s tf else opens db s' tf')" for s' tf'
    unfolding opens_def rows keys by auto
  then show o': "opens db' s tf = ?T \<union> opens db s tf" by simp
  show "md_candles db' = rows" by (rule rows)
  have ts: "sorted_wrt (<) (map kl_open_time page)" "map kl_open_time page \<noteq> []"
    using page by (simp_all add: page_ok_def)
  note ends = strict_sorted_ends [OF ts]
  have fresh: "filter (\<lambda>k. kline_key k \<notin> candle_key ` set (md_candles db)) page =
      filter (\<lambda>k. kl_open_time k \<notin> opens db s tf) page"
    using page(1) by (intro filter_cong) (auto simp: page_ok_def opens_def kline_key_def)
  have "card (?T - opens db s tf) = length (filter (\<lambda>k. kl_open_time k \<notin> opens db s tf) page)"
  proof -
    have "?T - opens db s tf = set (filter (\<lambda>t. t \<notin> opens db s tf) (map kl_open_time page))" by auto
    moreover have "distinct (filter (\<lambda>t. t \<notin> opens db s tf) (map kl_open_time page))"
      using ts(1) by (intro distinct_filter) (simp add: strict_sorted_iff)
    ultimately show ?thesis by (simp only: distinct_card) (simp add: filter_map comp_def)
  qed
  then have ins: "ins = int (card (?T - opens db s tf))" using r(5) fresh by simp
  have "card (?T \<union> opens db s tf) = card (opens db s tf) + card (?T - opens db s tf)"
    using card_Un_disjoint [of "opens db s tf" "?T - opens db s tf"] by (simp add: Un_commute Int_commute)
  then show count: "ins = int (card (opens db' s tf)) - int (card (opens db s tf))"
    by (simp add: o' ins)
  let ?f = "\<lambda>m. m\<lparr>cv_first_open := earlier (Some (kl_open_time (hd page))) (cv_first_open m),
       cv_last_open := later (Some (kl_open_time (List.last page))) (cv_last_open m), cv_count := cv_count m + ins\<rparr>"
  have cov: "coverage_of db' s' tf' src = (if s' = s \<and> tf' = tf
      then Some (?f (case coverage_of db s tf src of None \<Rightarrow> new_coverage s tf src | Some m \<Rightarrow> m))
      else coverage_of db s' tf' src)" for s' tf'
    unfolding db' update_metadata_def
    by (subst coverage_of_edit) (simp_all add: covers_def coverage_of_def)
  have T: "finite ?T" "?T \<noteq> {}" "Min ?T = kl_open_time (hd page)" "Max ?T = kl_open_time (List.last page)"
    using ends(1,2) page(2) by (simp_all add: hd_map last_map)
  have "describes (case coverage_of db s tf src of None \<Rightarrow> new_coverage s tf src | Some m \<Rightarrow> m) (opens db s tf)"
  proof -
    have "case coverage_of db s tf src of None \<Rightarrow> opens db s tf = {} | Some m \<Rightarrow> describes m (opens db s tf)"
      using ok by (simp add: market_ok_def)
    then show ?thesis
      by (cases "coverage_of db s tf src")
        (simp_all add: describes_def new_coverage_def min_option_def max_option_def)
  qed
  then have "describes (?f (case coverage_of db s tf src of None \<Rightarrow> new_coverage s tf src | Some m \<Rightarrow> m)) (?T \<union> opens db s tf)"
    using count T by (simp add: describes_def o' min_option_Un max_option_Un)
  note new = this
  have "case coverage_of db' s' tf' src of None \<Rightarrow> opens db' s' tf' = {} | Some m \<Rightarrow> describes m (opens db' s' tf')" for s' tf'
  proof (cases "s' = s \<and> tf' = tf")
    case True
    then have same: "opens db' s' tf' = ?T \<union> opens db s tf" by (simp add: o')
    show ?thesis unfolding same cov using True new by simp
  next
    case False
    then have same: "opens db' s' tf' = opens db s' tf'" "coverage_of db' s' tf' src = coverage_of db s' tf' src"
      by (auto simp: cov o)
    show ?thesis unfolding same using ok by (simp add: market_ok_def)
  qed
  moreover have "distinct (map candle_key rows)" using ok by (intro r(2)) (simp add: market_ok_def)
  moreover have "\<forall>c \<in> set rows. cd_is_closed c \<and> cd_source c = src"
    using ok by (intro upsert_candles_closed [OF up]) (unfold market_ok_def, blast)
  ultimately show "market_ok src db'" by (simp add: market_ok_def rows)
qed

lemma empty_market_ok: "market_ok src empty_market"
  by (simp add: market_ok_def empty_market_def coverage_of_def opens_def)

lemma persist_cases:
  assumes "persist_closed_candle qz src k db = (db', r)"
  obtains (kept) "db' = db" "r \<noteq> Inr ()"
  | (stored) rows ins upd where "kl_is_closed k" "r = Inr ()" "upsert_candles qz src [k] (md_candles db) = Inr (rows, ins, upd)"
      "db' = update_metadata (kl_symbol k) (kl_timeframe k) src (Some (kl_open_time k)) (Some (kl_open_time k)) ins
        (db\<lparr>md_candles := rows\<rparr>)"
  using assms by (auto simp: persist_closed_candle_def split: if_splits sum.splits)

lemma persist_ok: "persist_closed_candle qz src k db = (db', r) \<Longrightarrow> market_ok src db \<Longrightarrow> market_ok src db'"
  by (erule persist_cases) (auto intro: stored_ok(1) [OF _ page_ok_single])

lemma store_page_cases:
  assumes "store_page qz src s tf step_ms page start db res = Inr (db', res', start')"
  obtains (empty) "page = []" "db' = db" "res' = res" "start' = start"
  | (stored) rows ins upd where "page \<noteq> []" "upsert_candles qz src page (md_candles db) = Inr (rows, ins, upd)"
      "db' = update_metadata s tf src (Some (kl_open_time (hd page))) (Some (kl_open_time (List.last page))) ins
        (db\<lparr>md_candles := rows\<rparr>)"
      "res' = res\<lparr>ir_inserted := ir_inserted res + ins, ir_updated := ir_updated res + upd\<rparr>"
      "start' = to_ms (kl_open_time (List.last page)) + step_ms"
  using assms by (auto simp: store_page_def split: if_splits sum.splits)

lemma store_page_ok:
  assumes "store_page qz src s tf step_ms page start db res = Inr (db', res', start')"
    "market_ok src db" "page_ok s tf page"
  shows "market_ok src db'" "opens db' s tf = kl_open_time ` set page \<union> opens db s tf"
    "ir_pages_fetched res' = ir_pages_fetched res"
    "ir_inserted res' - ir_inserted res = int (card (opens db' s tf)) - int (card (opens db s tf))"
  using assms(1) by (cases rule: store_page_cases; use assms(2,3) stored_ok in force)+

text \<open>The exchange keeps its promise on every page of a run.\<close>

definition serves :: "string \<Rightarrow> string \<Rightarrow> (nat \<Rightarrow> int \<Rightarrow> exn + kline list) \<Rightarrow> bool" where
  "serves s tf fetch \<longleftrightarrow> (\<forall>i start ks. fetch i start = Inr ks \<longrightarrow> page_ok s tf ks)"

lemma backfill_pages_ok:
  assumes "backfill_pages qz src fetch s tf step_ms n start db res = (db', r)" "market_ok src db" "serves s tf fetch"
  shows "market_ok src db' \<and> opens db s tf \<subseteq> opens db' s tf \<and>
    (\<forall>res'. r = Inr res' \<longrightarrow> ir_pages_fetched res' \<le> ir_pages_fetched res + n \<and>
       ir_inserted res' - ir_inserted res = int (card (opens db' s tf)) - int (card (opens db s tf)))"
  using assms
proof (induction n arbitrary: start db res)
  case (Suc n)
  show ?case
  proof (cases "fetch (ir_pages_fetched res) start")
    case (Inl err)
    with Suc show ?thesis by auto
  next
    case (Inr ks)
    let ?page = "filter kl_is_closed ks" and ?res = "res\<lparr>ir_pages_fetched := ir_pages_fetched res + 1\<rparr>"
    have page: "page_ok s tf ?page" using Suc.prems(3) Inr by (auto simp: serves_def intro: page_ok_filter)
    show ?thesis
    proof (cases "store_page qz src s tf step_ms ?page start db ?res")
      case (Inl err)
      with Suc Inr show ?thesis by (auto simp: Let_def)
    next
      case stored: (Inr a)
      obtain db1 res1 start1 where a: "a = (db1, res1, start1)" by (cases a)
      note ok = store_page_ok [OF stored [unfolded a] Suc.prems(2) page]
      show ?thesis
      proof (cases "length ?page < KLINES_PER_PAGE")
        case True
        with Suc.prems Inr stored a ok show ?thesis by (auto simp: Let_def)
      next
        case False
        with Suc.prems Inr stored a have "backfill_pages qz src fetch s tf step_ms n start1 db1 res1 = (db', r)"
          by (simp add: Let_def)
        from Suc.IH [OF this ok(1) Suc.prems(3)] ok(2-4) show ?thesis by auto
      qed
    qed
  qed
qed auto

lemma backfill_ok:
  assumes "backfill_symbol_timeframe qz src fetch s tf n db = (db', r)" "market_ok src db" "serves s tf fetch"
  shows "market_ok src db'" "opens db s tf \<subseteq> opens db' s tf"
    "r = Inr res \<Longrightarrow> ir_pages_fetched res \<le> n \<and> ir_inserted res = int (card (opens db' s tf)) - int (card (opens db s tf))"
proof -
  have "market_ok src db' \<and> opens db s tf \<subseteq> opens db' s tf \<and> (\<forall>res. r = Inr res \<longrightarrow> ir_pages_fetched res \<le> n \<and>
      ir_inserted res = int (card (opens db' s tf)) - int (card (opens db s tf)))"
    using assms backfill_pages_ok [OF _ assms(2,3)]
    by (auto simp: backfill_symbol_timeframe_def new_result_def split: sum.splits dest!: backfill_pages_ok)
  then show "market_ok src db'" "opens db s tf \<subseteq> opens db' s tf"
    "r = Inr res \<Longrightarrow> ir_pages_fetched res \<le> n \<and> ir_inserted res = int (card (opens db' s tf)) - int (card (opens db s tf))"
    by auto
qed

section \<open>The pages of a history\<close>

lemma to_ms_whole:
  assumes "in_era us" "10 ^ 6 dvd us"
  shows "to_ms us = us div 1000" "1000 * to_ms us = us"
proof -
  from assms(2) obtain q where q: "us = q * 10 ^ 6" by (auto elim: dvdE simp: mult.commute)
  have q0: "0 \<le> q" "q \<le> 4 * 10 ^ 9" using assms(1) by (simp_all add: in_era_def q)
  then have "seconds_float us = of_int q" unfolding q by (intro seconds_whole) simp
  moreover have "fmul (of_int q) 1000 = of_int (q * 1000)"
    using q0 flt_int [of "q * 1000"] by (simp add: fmul_def)
  ultimately have "to_ms us = q * 1000" by (simp add: to_ms_def del: of_int_mult)
  then show "to_ms us = us div 1000" "1000 * to_ms us = us" by (simp_all add: q)
qed

text \<open>
  A history: ascending candles on the grid of the timeframe, of which only the last may still be
  open. The exchange answers a start time with the first thousand candles from there on.
\<close>

definition history_ok :: "string \<Rightarrow> string \<Rightarrow> int \<Rightarrow> kline list \<Rightarrow> bool" where
  "history_ok s tf sec H \<longleftrightarrow> page_ok s tf H \<and> (\<forall>k \<in> set H. in_era (kl_open_time k) \<and> sec * 10 ^ 6 dvd kl_open_time k) \<and>
     (\<forall>k \<in> set (butlast H). kl_is_closed k)"

definition from_start :: "int \<Rightarrow> kline list \<Rightarrow> kline list" where
  "from_start start H = filter (\<lambda>k. start * 1000 \<le> kl_open_time k) H"

definition serve_history :: "kline list \<Rightarrow> nat \<Rightarrow> int \<Rightarrow> exn + kline list" where
  "serve_history H i start = Inr (take KLINES_PER_PAGE (from_start start H))"

lemma sorted_filter_suffix:
  fixes f :: "'a \<Rightarrow> int"
  assumes "sorted_wrt (<) (map f xs)"
  shows "\<exists>n. filter (\<lambda>x. a \<le> f x) xs = drop n xs"
  using assms
proof (induction xs)
  case (Cons x xs)
  show ?case
  proof (cases "a \<le> f x")
    case True
    then have "\<forall>y \<in> set xs. a \<le> f y" using Cons.prems by force
    with True show ?thesis by (intro exI [of _ 0]) simp
  next
    case False
    with Cons obtain n where "filter (\<lambda>x. a \<le> f x) xs = drop n xs" by auto
    with False show ?thesis by (intro exI [of _ "Suc n"]) simp
  qed
qed simp

lemma from_start_ok: "history_ok s tf sec H \<Longrightarrow> history_ok s tf sec (from_start start H)"
proof -
  assume H: "history_ok s tf sec H"
  then obtain n where n: "from_start start H = drop n H"
    using sorted_filter_suffix [of kl_open_time H "start * 1000"] by (auto simp: history_ok_def page_ok_def from_start_def)
  have "set (butlast (drop n H)) \<subseteq> set (butlast H)"
    by (simp add: butlast_drop) (meson in_set_dropD subsetI)
  with H show ?thesis
    using page_ok_filter [of s tf H "\<lambda>k. start * 1000 \<le> kl_open_time k"]
    by (auto simp: history_ok_def n simp flip: from_start_def dest: in_set_dropD)
qed

lemma serve_history_ok: "history_ok s tf sec H \<Longrightarrow> serves s tf (serve_history H)"
proof -
  assume H: "history_ok s tf sec H"
  have "page_ok s tf (take m (from_start start H))" for m start
    using from_start_ok [OF H, of start]
    by (auto simp: history_ok_def page_ok_def take_map sorted_wrt_take dest: in_set_takeD simp flip: take_map)
  then show ?thesis by (simp add: serves_def serve_history_def)
qed

text \<open>After a full page the next one starts where it ended.\<close>

lemma next_start:
  assumes H: "history_ok s tf sec H" and sec: "0 < sec" and m: "0 < m" "m \<le> length (from_start start H)"
  shows "from_start (to_ms (kl_open_time (from_start start H ! (m - 1))) + sec * 1000) H = drop m (from_start start H)"
proof -
  let ?F = "from_start start H" and ?k = "from_start start H ! (m - 1)"
  have mem: "?k \<in> set ?F" using m by simp
  then have kH: "?k \<in> set H" "start * 1000 \<le> kl_open_time ?k" by (simp_all add: from_start_def)
  have grid: "in_era (kl_open_time k)" "sec * 10 ^ 6 dvd kl_open_time k" if "k \<in> set H" for k
    using H that by (auto simp: history_ok_def)
  have "10 ^ 6 dvd kl_open_time ?k" using grid(2) [OF kH(1)] by (rule dvd_mult_right)
  then have ms: "1000 * to_ms (kl_open_time ?k) = kl_open_time ?k" by (intro to_ms_whole(2) grid(1) kH(1))
  have start: "(to_ms (kl_open_time ?k) + sec * 1000) * 1000 = kl_open_time ?k + sec * 10 ^ 6"
    using ms by (simp add: algebra_simps)
  have after: "kl_open_time ?k + sec * 10 ^ 6 \<le> kl_open_time k \<longleftrightarrow> kl_open_time ?k < kl_open_time k" if "k \<in> set H" for k
  proof
    assume less: "kl_open_time ?k < kl_open_time k"
    have "sec * 10 ^ 6 dvd kl_open_time k - kl_open_time ?k" using grid(2) kH(1) that by (intro dvd_diff)
    with less have "sec * 10 ^ 6 \<le> kl_open_time k - kl_open_time ?k" by (intro zdvd_imp_le) simp_all
    then show "kl_open_time ?k + sec * 10 ^ 6 \<le> kl_open_time k" by simp
  qed (use sec in simp)
  have "from_start (to_ms (kl_open_time ?k) + sec * 1000) H =
      filter (\<lambda>k. (to_ms (kl_open_time ?k) + sec * 1000) * 1000 \<le> kl_open_time k) H" by (rule from_start_def)
  also have "\<dots> = filter (\<lambda>k. kl_open_time ?k < kl_open_time k) H"
    unfolding start by (intro filter_cong refl) (rule after)
  also have "\<dots> = filter (\<lambda>k. kl_open_time ?k < kl_open_time k) ?F"
    using kH(2) by (auto simp: from_start_def intro!: filter_cong)
  also have "\<dots> = drop m ?F"
  proof -
    have sorted: "sorted_wrt (<) (map kl_open_time ?F)"
      using from_start_ok [OF H] by (simp add: history_ok_def page_ok_def)
    have split: "?F = take m ?F @ drop m ?F" by simp
    have lo: "\<not> kl_open_time ?k < kl_open_time k" if k: "k \<in> set (take m ?F)" for k
    proof -
      obtain i where i: "i < m" "k = ?F ! i" using k m by (auto simp: in_set_conv_nth)
      show ?thesis
      proof (cases "i = m - 1")
        case False
        then have "kl_open_time k < kl_open_time ?k"
          using sorted_wrt_nth_less [OF sorted, of i "m - 1"] i m by simp
        then show ?thesis by simp
      qed (simp add: i)
    qed
    have hi: "kl_open_time ?k < kl_open_time k" if k: "k \<in> set (drop m ?F)" for k
    proof -
      obtain j where "j < length ?F - m" "k = ?F ! (m + j)" using k m by (auto simp: in_set_conv_nth)
      then show ?thesis using sorted_wrt_nth_less [OF sorted, of "m - 1" "m + j"] m by simp
    qed
    have "filter (\<lambda>k. kl_open_time ?k < kl_open_time k) (take m ?F @ drop m ?F) = drop m ?F"
      unfolding filter_append using lo hi by (simp add: filter_empty_conv filter_id_conv)
    then show ?thesis by simp
  qed
  finally show ?thesis .
qed

section \<open>A backfill reaches the present\<close>

text \<open>Storing a page of distinct candles cannot fail.\<close>

lemma page_distinct: "page_ok s tf ks \<Longrightarrow> distinct (map kline_key ks)"
proof -
  assume p: "page_ok s tf ks"
  then have "map kline_key ks = map (\<lambda>t. (s, tf, t)) (map kl_open_time ks)"
    by (auto simp: page_ok_def kline_key_def)
  moreover have "distinct (map (\<lambda>t. (s, tf, t)) (map kl_open_time ks))"
    using p unfolding distinct_map [of "\<lambda>t. (s, tf, t)"] by (simp add: page_ok_def strict_sorted_iff inj_on_def)
  ultimately show ?thesis by (simp only:)
qed

lemma store_page_total: "page_ok s tf page \<Longrightarrow> \<exists>x. store_page qz src s tf step page start db res = Inr x"
  using page_distinct by (auto simp: store_page_def upsert_candles_def Let_def)

lemma store_page_holds:
  assumes "store_page qz src s tf step_ms page start db res = Inr (db', res', start')" "market_ok src db" "page_ok s tf page"
  shows "k \<in> set page \<Longrightarrow> \<exists>c \<in> set (md_candles db'). holds qz src k c"
    and "c \<in> set (md_candles db) \<Longrightarrow> candle_key c \<notin> kline_key ` set page \<Longrightarrow> c \<in> set (md_candles db')"
    and "page \<noteq> [] \<Longrightarrow> start' = to_ms (kl_open_time (List.last page)) + step_ms"
proof -
  have d: "distinct (map candle_key (md_candles db))" using assms(2) by (simp add: market_ok_def)
  show "k \<in> set page \<Longrightarrow> \<exists>c \<in> set (md_candles db'). holds qz src k c"
    and "c \<in> set (md_candles db) \<Longrightarrow> candle_key c \<notin> kline_key ` set page \<Longrightarrow> c \<in> set (md_candles db')"
    and "page \<noteq> [] \<Longrightarrow> start' = to_ms (kl_open_time (List.last page)) + step_ms"
    using assms(1)
    by (cases rule: store_page_cases;
        use stored_ok(3) [OF assms(2,3)] upsert_candles_result(6,7) d in \<open>metis empty_iff empty_set\<close>)+
qed

lemma serve_cases:
  assumes "history_ok s tf sec H" and F: "F = from_start start H"
  obtains (present) "length (filter kl_is_closed (take KLINES_PER_PAGE F)) < KLINES_PER_PAGE"
      "filter kl_is_closed (take KLINES_PER_PAGE F) = filter kl_is_closed F"
  | (full) "filter kl_is_closed (take KLINES_PER_PAGE F) = take KLINES_PER_PAGE F" "KLINES_PER_PAGE \<le> length F"
proof -
  let ?n = KLINES_PER_PAGE
  have closed: "\<forall>k \<in> set (butlast F). kl_is_closed k" using from_start_ok [OF assms(1)] by (simp add: history_ok_def F)
  consider (short) "length F < ?n" | (exact) "length F = ?n" | (long) "?n < length F" by linarith
  then show thesis
  proof cases
    case short
    then have "length (filter kl_is_closed F) < ?n" by (rule le_less_trans [OF length_filter_le])
    with short show thesis by (intro present) simp_all
  next
    case exact
    show thesis
    proof (cases "\<forall>k \<in> set F. kl_is_closed k")
      case True
      with exact show thesis by (intro full) (simp_all add: filter_id_conv)
    next
      case False
      then have "length (filter kl_is_closed F) < length F" using length_filter_less by metis
      with exact show thesis by (intro present) simp_all
    qed
  next
    case long
    have "set (take ?n F) \<subseteq> set (butlast F)"
      unfolding butlast_conv_take using long by (intro set_take_subset_set_take) simp
    with closed have "filter kl_is_closed (take ?n F) = take ?n F" by (auto simp: filter_id_conv)
    with long show thesis by (intro full) simp_all
  qed
qed

lemma backfill_pages_complete:
  assumes H: "history_ok s tf sec H" and sec: "0 < sec"
    and ok: "market_ok src db" and n: "length (from_start start H) < n * KLINES_PER_PAGE"
  shows "\<exists>db' res'. backfill_pages qz src (serve_history H) s tf (sec * 1000) n start db res = (db', Inr res') \<and>
    ir_reached_present res' \<and> market_ok src db' \<and>
    (\<forall>k \<in> set (from_start start H). kl_is_closed k \<longrightarrow> (\<exists>c \<in> set (md_candles db'). holds qz src k c)) \<and>
    (\<forall>c \<in> set (md_candles db). candle_key c \<notin> kline_key ` set (from_start start H) \<longrightarrow> c \<in> set (md_candles db')) \<and>
    opens db' s tf = kl_open_time ` set (filter kl_is_closed (from_start start H)) \<union> opens db s tf"
  using ok n
proof (induction n arbitrary: start db res)
  case (Suc n)
  let ?F = "from_start start H" and ?res = "res\<lparr>ir_pages_fetched := ir_pages_fetched res + 1\<rparr>"
  let ?page = "filter kl_is_closed (take KLINES_PER_PAGE ?F)"
  have page: "page_ok s tf ?page"
    using serve_history_ok [OF H] by (auto simp: serves_def serve_history_def intro: page_ok_filter)
  obtain db1 res1 start1 where st: "store_page qz src s tf (sec * 1000) ?page start db ?res = Inr (db1, res1, start1)"
    using store_page_total [OF page] by (metis prod_cases3)
  note stored = store_page_ok [OF st Suc.prems(1) page] and held = store_page_holds [OF st Suc.prems(1) page]
  have sub: "set ?page \<subseteq> set ?F" by (auto dest: in_set_takeD)
  consider (present) "length ?page < KLINES_PER_PAGE" "?page = filter kl_is_closed ?F"
    | (full) "?page = take KLINES_PER_PAGE ?F" "KLINES_PER_PAGE \<le> length ?F"
    by (rule serve_cases [OF H refl, of start])
  then show ?case
  proof cases
    case present
    have "backfill_pages qz src (serve_history H) s tf (sec * 1000) (Suc n) start db res =
        (db1, Inr (res1\<lparr>ir_reached_present := True, ir_stopped_reason := ''reached_present''\<rparr>))"
      using present(1) st by (simp add: serve_history_def Let_def)
    moreover have "\<forall>k \<in> set ?F. kl_is_closed k \<longrightarrow> (\<exists>c \<in> set (md_candles db1). holds qz src k c)"
      using held(1) unfolding present(2) by simp
    moreover have "\<forall>c \<in> set (md_candles db). candle_key c \<notin> kline_key ` set ?F \<longrightarrow> c \<in> set (md_candles db1)"
      using held(2) sub by blast
    ultimately show ?thesis using stored(1,2) unfolding present(2) by auto
  next
    case full
    define m where "m = KLINES_PER_PAGE"
    have m: "0 < m" "m \<le> length ?F" using full(2) by (simp_all add: m_def KLINES_PER_PAGE_def)
    have page_eq: "?page = take m ?F" using full(1) by (simp add: m_def)
    have "List.last (take m ?F) = ?F ! (m - 1)" using m by (subst last_conv_nth) auto
    moreover have "?F \<noteq> []" using m by (metis le_zero_eq less_irrefl list.size(3))
    ultimately have start1: "start1 = to_ms (kl_open_time (?F ! (m - 1))) + sec * 1000"
      using held(3) m unfolding page_eq by simp
    have rest: "from_start start1 H = drop m ?F" unfolding start1 using m by (intro next_start [OF H sec])
    have "length (from_start start1 H) < n * KLINES_PER_PAGE"
      using Suc.prems(2) m unfolding rest by (simp add: m_def)
    from Suc.IH [OF stored(1) this, of res1] obtain db' res' where
      run: "backfill_pages qz src (serve_history H) s tf (sec * 1000) n start1 db1 res1 = (db', Inr res')"
      and ok': "ir_reached_present res'" "market_ok src db'"
      and new: "\<forall>k \<in> set (drop m ?F). kl_is_closed k \<longrightarrow> (\<exists>c \<in> set (md_candles db'). holds qz src k c)"
      and kept: "\<forall>c \<in> set (md_candles db1). candle_key c \<notin> kline_key ` set (drop m ?F) \<longrightarrow> c \<in> set (md_candles db')"
      and opens': "opens db' s tf = kl_open_time ` set (filter kl_is_closed (drop m ?F)) \<union> opens db1 s tf"
      unfolding rest by auto
    have "backfill_pages qz src (serve_history H) s tf (sec * 1000) (Suc n) start db res = (db', Inr res')"
      using st run full by (simp add: serve_history_def Let_def)
    moreover have "\<exists>c \<in> set (md_candles db'). holds qz src k c" if k: "k \<in> set (take m ?F)" for k
    proof -
      obtain c where c: "c \<in> set (md_candles db1)" "holds qz src k c" using held(1) [unfolded page_eq, OF k] by blast
      have "distinct (map kline_key (take m ?F) @ map kline_key (drop m ?F))"
        unfolding map_append [symmetric] append_take_drop_id
        using page_distinct [of s tf ?F] from_start_ok [OF H] by (simp add: history_ok_def)
      then have "kline_key ` set (take m ?F) \<inter> kline_key ` set (drop m ?F) = {}"
        by (simp only: distinct_append set_map)
      then have "kline_key k \<notin> kline_key ` set (drop m ?F)" using k by blast
      with c kept show ?thesis by (auto simp: holds_def)
    qed
    moreover have "set ?F = set (take m ?F) \<union> set (drop m ?F)" by (metis append_take_drop_id set_append)
    moreover have "\<forall>c \<in> set (md_candles db). candle_key c \<notin> kline_key ` set ?F \<longrightarrow> c \<in> set (md_candles db')"
      using kept held(2) [unfolded page_eq] calculation(3) by blast
    moreover have "opens db' s tf = kl_open_time ` set (filter kl_is_closed ?F) \<union> opens db s tf"
    proof -
      have "set (filter kl_is_closed ?F) = set ?page \<union> set (filter kl_is_closed (drop m ?F))"
        by (metis append_take_drop_id filter_append set_append m_def)
      then show ?thesis unfolding opens' stored(2) by auto
    qed
    ultimately show ?thesis using ok' new by blast
  qed
qed simp

section \<open>The first live candle\<close>

text \<open>
  \<open>persist_closed_candle\<close> moves \<open>last_candle_open\<close> like a page does, so the candle the stream
  delivers before any backfill becomes the resume point, and no candle before it is ever asked
  for: whatever the exchange holds, the history stays empty up to that candle.
\<close>

lemma live_candle_hides_history:
  assumes "persist_closed_candle qz src k empty_market = (db, Inr ())" "timeframe_seconds (kl_timeframe k) = Inr sec"
    "history_ok (kl_symbol k) (kl_timeframe k) sec H" "k \<in> set H"
    "length (from_start (to_ms (kl_open_time k) + sec * 1000) H) < n * KLINES_PER_PAGE"
    "backfill_symbol_timeframe qz src (serve_history H) (kl_symbol k) (kl_timeframe k) n db = (db', r)"
  shows "(\<exists>res. r = Inr res \<and> ir_reached_present res) \<and> opens db' (kl_symbol k) (kl_timeframe k) \<subseteq> {kl_open_time k..}"
proof -
  let ?s = "kl_symbol k" and ?tf = "kl_timeframe k"
  from assms(1) show ?thesis
  proof (cases rule: persist_cases)
    case (stored rows ins upd)
    have db: "market_ok src db" "opens db ?s ?tf = {kl_open_time k}"
      using stored_ok(1,2) [OF empty_market_ok page_ok_single _ stored(3), of db] stored(4)
      by (simp_all add: opens_def empty_market_def)
    obtain m where m: "coverage_of db ?s ?tf src = Some m" "cv_last_open m = Some (kl_open_time k)"
    proof -
      have "case coverage_of db ?s ?tf src of None \<Rightarrow> opens db ?s ?tf = {} | Some m \<Rightarrow> describes m (opens db ?s ?tf)"
        using db(1) by (simp add: market_ok_def)
      then show thesis using that by (auto simp: db(2) describes_def max_option_def split: option.splits)
    qed
    have "60 \<le> sec" using assms(2) by (rule timeframe_pos)
    then obtain db2 res where
      run: "backfill_pages qz src (serve_history H) ?s ?tf (sec * 1000) n (to_ms (kl_open_time k) + sec * 1000) db (new_result ?s ?tf) = (db2, Inr res)"
      "ir_reached_present res"
      "opens db2 ?s ?tf = kl_open_time ` set (filter kl_is_closed (from_start (to_ms (kl_open_time k) + sec * 1000) H)) \<union> {kl_open_time k}"
      using backfill_pages_complete [OF assms(3) _ db(1) assms(5), of qz "new_result ?s ?tf"] unfolding db(2) by auto
    have r: "(db', r) = (db2, Inr res)"
      using assms(6) run(1) by (simp add: backfill_symbol_timeframe_def resume_point_def m assms(2))
    have k: "in_era (kl_open_time k)" "sec * 10 ^ 6 dvd kl_open_time k" using assms(3,4) by (auto simp: history_ok_def)
    have "10 ^ 6 dvd kl_open_time k" using k(2) by (rule dvd_mult_right)
    then have "1000 * to_ms (kl_open_time k) = kl_open_time k" by (intro to_ms_whole(2) k(1))
    then have "kl_open_time k \<le> kl_open_time q" if "q \<in> set (from_start (to_ms (kl_open_time k) + sec * 1000) H)" for q
      using that \<open>60 \<le> sec\<close> by (simp add: from_start_def)
    then show ?thesis using r run(2,3) by auto
  qed simp
qed

end
