(* ===== verification/Integrity.thy ===== *)
theory Integrity
  imports Ingestion
begin

text \<open>
  \<open>services/data_integrity.py\<close>: one pass over the closed candles of a symbol and timeframe, in
  time order, that counts gaps and duplicates and lists the bars that are off the grid, not
  positive, inconsistent or jumping. Prices are read with \<open>float\<close>. The report is written into
  the coverage row.
\<close>

definition ABNORMAL_MOVE_FRACTION :: rat where
  "ABNORMAL_MOVE_FRACTION = 1 / 2"

definition new_report :: "string \<Rightarrow> string \<Rightarrow> integrity_report" where
  "new_report s tf = \<lparr>rp_symbol = s, rp_timeframe = tf, rp_candle_count = 0, rp_expected_count = None,
     rp_missing_candles = 0, rp_duplicate_open_times = 0, rp_misaligned = [], rp_ohlc_violations = [],
     rp_non_positive = [], rp_abnormal_moves = [], rp_checked_at = 0\<rparr>"

definition is_clean :: "integrity_report \<Rightarrow> bool" where
  "is_clean r \<longleftrightarrow> \<not> (rp_duplicate_open_times r \<noteq> 0 \<or> rp_misaligned r \<noteq> [] \<or> rp_ohlc_violations r \<noteq> [] \<or>
     rp_non_positive r \<noteq> [])"

text \<open>The stored dict keeps at most twenty entries of each list.\<close>

definition to_dict :: "integrity_report \<Rightarrow> integrity_report" where
  "to_dict r = r\<lparr>rp_misaligned := take 20 (rp_misaligned r), rp_ohlc_violations := take 20 (rp_ohlc_violations r),
     rp_non_positive := take 20 (rp_non_positive r), rp_abnormal_moves := take 20 (rp_abnormal_moves r)\<rparr>"

definition bad_value :: "candle \<Rightarrow> bool" where
  "bad_value c \<longleftrightarrow> flt (cd_open c) \<le> 0 \<or> flt (cd_high c) \<le> 0 \<or> flt (cd_low c) \<le> 0 \<or> flt (cd_close c) \<le> 0 \<or>
     flt (cd_volume c) < 0"

definition bad_ohlc :: "candle \<Rightarrow> bool" where
  "bad_ohlc c \<longleftrightarrow>
     flt (cd_high c) < max (max (flt (cd_open c)) (flt (cd_close c))) (flt (cd_low c)) \<or>
     min (min (flt (cd_open c)) (flt (cd_close c))) (flt (cd_high c)) < flt (cd_low c)"

definition gap_candles :: "int \<Rightarrow> int \<Rightarrow> int" where
  "gap_candles gap_us step = (if of_int step < seconds_float gap_us
     then round_down (fdiv (seconds_float gap_us) (of_int step)) - 1 else 0)"

definition abnormal_move :: "candle \<Rightarrow> candle \<Rightarrow> bool" where
  "abnormal_move prev c \<longleftrightarrow> 0 < flt (cd_close prev) \<and>
     ABNORMAL_MOVE_FRACTION < fdiv \<bar>fsub (flt (cd_close c)) (flt (cd_close prev))\<bar> (flt (cd_close prev))"

text \<open>One row: the open times seen so far, the row before, the report.\<close>

definition check_row :: "string \<Rightarrow> int \<Rightarrow> int set \<Rightarrow> candle option \<Rightarrow> candle \<Rightarrow> integrity_report \<Rightarrow> integrity_report" where
  "check_row tf step seen prev c r =
     (let t = cd_open_time c;
          r1 = (if t \<in> seen then r\<lparr>rp_duplicate_open_times := rp_duplicate_open_times r + 1\<rparr> else r);
          r2 = (if floor_to_timeframe t tf \<noteq> Inr t then r1\<lparr>rp_misaligned := rp_misaligned r1 @ [t]\<rparr> else r1);
          r3 = (if bad_value c then r2\<lparr>rp_non_positive := rp_non_positive r2 @ [t]\<rparr>
                else if bad_ohlc c then r2\<lparr>rp_ohlc_violations := rp_ohlc_violations r2 @ [t]\<rparr> else r2)
      in case prev of
           None \<Rightarrow> r3
         | Some p \<Rightarrow>
             (let r4 = r3\<lparr>rp_missing_candles := rp_missing_candles r3 + gap_candles (t - cd_open_time p) step\<rparr>
              in if abnormal_move p c then r4\<lparr>rp_abnormal_moves := rp_abnormal_moves r4 @ [t]\<rparr> else r4))"

fun check_rows :: "string \<Rightarrow> int \<Rightarrow> int set \<Rightarrow> candle option \<Rightarrow> candle list \<Rightarrow> integrity_report \<Rightarrow> integrity_report" where
  "check_rows tf step seen prev [] r = r"
| "check_rows tf step seen prev (c # cs) r =
     check_rows tf step (insert (cd_open_time c) seen) (Some c) cs (check_row tf step seen prev c r)"

definition closed_rows :: "market_db \<Rightarrow> string \<Rightarrow> string \<Rightarrow> string \<Rightarrow> candle list" where
  "closed_rows db s tf src = sort_key cd_open_time (filter (\<lambda>c. cd_symbol c = s \<and> cd_timeframe c = tf \<and>
     cd_source c = src \<and> cd_is_closed c) (md_candles db))"

definition persist_report :: "string \<Rightarrow> int \<Rightarrow> integrity_report \<Rightarrow> market_db \<Rightarrow> market_db" where
  "persist_report src now r = edit_coverage (rp_symbol r) (rp_timeframe r) src (\<lambda>m. m\<lparr>cv_count := rp_candle_count r,
     cv_missing := rp_missing_candles r, cv_last_check := Some now, cv_report := Some (to_dict r)\<rparr>)"

definition validate_symbol_timeframe ::
  "string \<Rightarrow> string \<Rightarrow> string \<Rightarrow> int \<Rightarrow> market_db \<Rightarrow> market_db \<times> (exn + integrity_report)" where
  "validate_symbol_timeframe s tf src now db =
     (let rows = closed_rows db s tf src;
          r0 = (new_report s tf)\<lparr>rp_candle_count := int (length rows), rp_checked_at := now\<rparr>
      in if rows = [] then (db, Inr r0)
         else case timeframe_seconds tf of
             Inl err \<Rightarrow> (db, Inl err)
           | Inr step \<Rightarrow>
               (let r1 = check_rows tf step {} None rows r0;
                    span = seconds_float (cd_open_time (List.last rows) - cd_open_time (hd rows));
                    r2 = r1\<lparr>rp_expected_count := Some (round_down (fdiv span (of_int step)) + 1)\<rparr>
                in (persist_report src now r2 db, Inr r2)))"

text \<open>Every configured pair, in order; pairs with no candle are skipped, an error ends the sweep.\<close>

fun validate_pairs ::
  "(string \<times> string) list \<Rightarrow> string \<Rightarrow> int \<Rightarrow> market_db \<Rightarrow> market_db \<times> (exn + integrity_report list)" where
  "validate_pairs [] src now db = (db, Inr [])"
| "validate_pairs ((s, tf) # ps) src now db =
     (if \<not> (\<exists>c \<in> set (md_candles db). cd_symbol c = s \<and> cd_timeframe c = tf \<and> cd_source c = src)
      then validate_pairs ps src now db
      else case validate_symbol_timeframe s tf src now db of
          (db', Inl err) \<Rightarrow> (db', Inl err)
        | (db', Inr r) \<Rightarrow> map_prod id (map_sum id (\<lambda>rs. r # rs)) (validate_pairs ps src now db'))"

definition validate_all_configured ::
  "string list \<Rightarrow> string list \<Rightarrow> string \<Rightarrow> int \<Rightarrow> market_db \<Rightarrow> market_db \<times> (exn + integrity_report list)" where
  "validate_all_configured symbols timeframes src now db =
     validate_pairs (List.product symbols timeframes) src now db"

section \<open>What the pass computes\<close>

lemma check_row_fields [simp]:
  "rp_missing_candles (check_row tf step seen prev c r) =
     rp_missing_candles r + (case prev of None \<Rightarrow> 0 | Some p \<Rightarrow> gap_candles (cd_open_time c - cd_open_time p) step)"
  "rp_misaligned (check_row tf step seen prev c r) =
     rp_misaligned r @ (if floor_to_timeframe (cd_open_time c) tf \<noteq> Inr (cd_open_time c) then [cd_open_time c] else [])"
  "rp_symbol (check_row tf step seen prev c r) = rp_symbol r"
  "rp_timeframe (check_row tf step seen prev c r) = rp_timeframe r"
  "rp_candle_count (check_row tf step seen prev c r) = rp_candle_count r"
  by (simp_all add: check_row_def Let_def split: option.split)

lemma check_rows_fields [simp]:
  "rp_symbol (check_rows tf step seen prev cs r) = rp_symbol r"
  "rp_timeframe (check_rows tf step seen prev cs r) = rp_timeframe r"
  "rp_candle_count (check_rows tf step seen prev cs r) = rp_candle_count r"
  by (induction cs arbitrary: seen prev r) simp_all

lemma check_rows_misaligned:
  "rp_misaligned (check_rows tf step seen prev cs r) = rp_misaligned r @
     map cd_open_time (filter (\<lambda>c. floor_to_timeframe (cd_open_time c) tf \<noteq> Inr (cd_open_time c)) cs)"
  by (induction cs arbitrary: seen prev r) simp_all

lemma seconds_of_units:
  assumes "0 < step" "0 \<le> n" "n * step \<le> 4 * 10 ^ 9"
  shows "seconds_float (n * (step * 10 ^ 6)) = of_int (n * step)" "fdiv (of_int (n * step)) (of_int step) = of_int n"
proof -
  have "0 \<le> n * step" using assms by simp
  then have "seconds_float (n * step * 10 ^ 6) = of_int (n * step)"
    using assms(3) by (intro seconds_whole) simp
  then show "seconds_float (n * (step * 10 ^ 6)) = of_int (n * step)" by (simp add: mult.assoc)
  have "n \<le> n * step" using assms(1,2) by (simp add: mult_le_cancel_left1)
  then have "\<bar>n\<bar> < 2 ^ 53" using assms by simp
  then show "fdiv (of_int (n * step)) (of_int step) = of_int n"
    using assms(1) by (simp add: fdiv_def flt_int)
qed

lemma gap_exact:
  assumes "0 < step" "1 \<le> n" "n * step \<le> 4 * 10 ^ 9"
  shows "gap_candles (n * (step * 10 ^ 6)) step = n - 1"
proof -
  have s: "seconds_float (n * (step * 10 ^ 6)) = of_int (n * step)" "fdiv (of_int (n * step)) (of_int step) = of_int n"
    using seconds_of_units assms by simp_all
  have "(of_int step :: rat) < of_int (n * step) \<longleftrightarrow> 1 < n"
    unfolding of_int_less_iff using assms(1) by (simp add: mult_less_cancel_right1)
  then show ?thesis unfolding gap_candles_def s using assms(2) by auto
qed

text \<open>Ascending times on the grid between \<open>a\<close> and \<open>b\<close>, counted in units.\<close>

definition on_grid :: "int \<Rightarrow> int list \<Rightarrow> bool" where
  "on_grid step ts \<longleftrightarrow> sorted_wrt (<) ts \<and> (\<forall>t \<in> set ts. step * 10 ^ 6 dvd t \<and> in_era t)"

lemma on_grid_step:
  assumes "on_grid step (a # b # ts)" "0 < step"
  obtains n where "b - a = n * (step * 10 ^ 6)" "1 \<le> n" "n * step \<le> 4 * 10 ^ 9"
proof -
  have ab: "a < b" "step * 10 ^ 6 dvd b - a" "0 \<le> a" "b \<le> 4 * 10 ^ 15"
    using assms by (auto simp: on_grid_def in_era_def intro: dvd_diff)
  from ab(2) obtain n where "b - a = (step * 10 ^ 6) * n" by (rule dvdE)
  then have n: "b - a = n * (step * 10 ^ 6)" by (simp only: mult.commute)
  have "0 < n" using n ab(1) assms(2) by (metis diff_gt_0_iff_gt mult_pos_pos zero_less_mult_pos2 zero_less_numeral zero_less_power)
  moreover have "n * step * 10 ^ 6 \<le> 4 * 10 ^ 9 * 10 ^ 6" using n ab(3,4) by (simp add: mult.assoc)
  then have "n * step \<le> 4 * 10 ^ 9" by simp
  ultimately show thesis by (intro that [OF n]) simp_all
qed

lemma check_rows_missing:
  assumes "on_grid step (map cd_open_time (p # cs))" "0 < step"
  shows "(rp_missing_candles (check_rows tf step seen (Some p) cs r) - rp_missing_candles r + int (length cs)) * (step * 10 ^ 6) =
    cd_open_time (List.last (p # cs)) - cd_open_time p"
  using assms(1)
proof (induction cs arbitrary: p seen r)
  case (Cons c cs)
  have "on_grid step (cd_open_time p # cd_open_time c # map cd_open_time cs)" using Cons.prems by simp
  then obtain n where n: "cd_open_time c - cd_open_time p = n * (step * 10 ^ 6)" "1 \<le> n" "n * step \<le> 4 * 10 ^ 9"
    using assms(2) by (rule on_grid_step)
  have g: "gap_candles (cd_open_time c - cd_open_time p) step = n - 1"
    unfolding n(1) using assms(2) n(2,3) by (rule gap_exact)
  have "on_grid step (map cd_open_time (c # cs))" using Cons.prems by (simp add: on_grid_def)
  note IH = Cons.IH [OF this, of "insert (cd_open_time c) seen" "check_row tf step seen (Some p) c r"]
  define U where "U = step * 10 ^ 6"
  define X where "X = rp_missing_candles (check_rows tf step seen (Some p) (c # cs) r)"
  have missing: "rp_missing_candles (check_row tf step seen (Some p) c r) = rp_missing_candles r + (n - 1)"
    by (simp add: g)
  have "(X - rp_missing_candles r + int (length (c # cs))) * U =
      (X - (rp_missing_candles r + (n - 1)) + int (length cs)) * U + n * U" by (simp add: algebra_simps)
  also have "\<dots> = cd_open_time (List.last (c # cs)) - cd_open_time c + n * U"
    using IH unfolding missing by (simp add: X_def U_def)
  also have "\<dots> = cd_open_time (List.last (p # c # cs)) - cd_open_time p" using n(1) by (simp add: U_def)
  finally show ?case by (simp only: X_def U_def)
qed simp

section \<open>The rows of a pair\<close>

lemma closed_rows_mem:
  assumes "market_ok src db"
  shows "c \<in> set (closed_rows db s tf src) \<longleftrightarrow> c \<in> set (md_candles db) \<and> cd_symbol c = s \<and> cd_timeframe c = tf"
  using assms by (auto simp: closed_rows_def market_ok_def)

lemma closed_rows_opens:
  assumes "market_ok src db"
  shows "cd_open_time ` set (closed_rows db s tf src) = opens db s tf"
  unfolding opens_def using closed_rows_mem [OF assms] by (auto simp: candle_key_def image_iff)

lemma closed_rows_sorted:
  assumes "market_ok src db"
  shows "sorted_wrt (<) (map cd_open_time (closed_rows db s tf src))"
proof -
  let ?P = "\<lambda>c. cd_symbol c = s \<and> cd_timeframe c = tf \<and> cd_source c = src \<and> cd_is_closed c"
  have "distinct (map candle_key (md_candles db))" using assms by (simp add: market_ok_def)
  then have "inj_on candle_key (set (md_candles db))" "distinct (md_candles db)" by (simp_all add: distinct_map)
  then have "inj_on cd_open_time (set (filter ?P (md_candles db)))" "distinct (filter ?P (md_candles db))"
    by (auto simp: inj_on_def candle_key_def)
  then have "distinct (map cd_open_time (closed_rows db s tf src))"
    by (simp add: closed_rows_def distinct_map)
  moreover have "sorted (map cd_open_time (closed_rows db s tf src))" by (simp add: closed_rows_def)
  ultimately show ?thesis by (simp add: strict_sorted_iff)
qed

lemma closed_rows_length:
  assumes "market_ok src db"
  shows "length (closed_rows db s tf src) = card (opens db s tf)"
proof -
  have "distinct (map cd_open_time (closed_rows db s tf src))"
    using closed_rows_sorted [OF assms] by (simp add: strict_sorted_iff)
  from distinct_card [OF this] show ?thesis by (simp add: closed_rows_opens [OF assms])
qed

lemma validate_cases:
  assumes "validate_symbol_timeframe s tf src now db = (db', r)"
  obtains (kept) "db' = db"
  | (checked) step report where "closed_rows db s tf src \<noteq> []" "timeframe_seconds tf = Inr step" "r = Inr report"
      "db' = persist_report src now report db" "rp_symbol report = s" "rp_timeframe report = tf"
      "rp_candle_count report = int (length (closed_rows db s tf src))"
  using assms by (auto simp: validate_symbol_timeframe_def Let_def new_report_def split: if_splits sum.splits)

lemma persist_report_ok:
  assumes ok: "market_ok src db" and count: "rp_candle_count r = int (card (opens db (rp_symbol r) (rp_timeframe r)))"
    and some: "opens db (rp_symbol r) (rp_timeframe r) \<noteq> {}"
  shows "market_ok src (persist_report src now r db)" "md_candles (persist_report src now r db) = md_candles db"
proof -
  let ?db' = "persist_report src now r db" and ?s = "rp_symbol r" and ?tf = "rp_timeframe r"
  show rows: "md_candles ?db' = md_candles db" by (simp add: persist_report_def edit_coverage_def)
  have o: "opens ?db' s' tf' = opens db s' tf'" for s' tf' by (simp add: opens_def rows)
  have inst: "case coverage_of db s' tf' src of None \<Rightarrow> opens db s' tf' = {} | Some m \<Rightarrow> describes m (opens db s' tf')" for s' tf'
    using ok by (simp add: market_ok_def)
  obtain m where m: "coverage_of db ?s ?tf src = Some m" "describes m (opens db ?s ?tf)"
    using inst [of ?s ?tf] some by (auto split: option.splits)
  let ?f = "\<lambda>m. m\<lparr>cv_count := rp_candle_count r, cv_missing := rp_missing_candles r, cv_last_check := Some now,
      cv_report := Some (to_dict r)\<rparr>"
  have cov: "coverage_of ?db' s' tf' src = (if s' = ?s \<and> tf' = ?tf then Some (?f m) else coverage_of db s' tf' src)" for s' tf'
    unfolding persist_report_def by (subst coverage_of_edit) (auto simp: covers_def m(1))
  have "describes (?f m) (opens db ?s ?tf)" using m(2) count by (simp add: describes_def)
  then have "case coverage_of ?db' s' tf' src of None \<Rightarrow> opens ?db' s' tf' = {} | Some m \<Rightarrow> describes m (opens ?db' s' tf')" for s' tf'
  proof (cases "s' = ?s \<and> tf' = ?tf")
    case False
    then have same: "coverage_of ?db' s' tf' src = coverage_of db s' tf' src" by (auto simp: cov)
    show ?thesis unfolding same o by (rule inst)
  qed (simp add: cov o)
  moreover have "distinct (map candle_key (md_candles db)) \<and> (\<forall>c \<in> set (md_candles db). cd_is_closed c \<and> cd_source c = src)"
    using ok unfolding market_ok_def by blast
  ultimately show "market_ok src ?db'" unfolding market_ok_def rows by blast
qed

lemma validate_ok:
  assumes "validate_symbol_timeframe s tf src now db = (db', r)" "market_ok src db"
  shows "market_ok src db' \<and> md_candles db' = md_candles db"
  using assms(1)
proof (cases rule: validate_cases)
  case (checked step report)
  have len: "length (closed_rows db s tf src) = card (opens db s tf)" using assms(2) by (rule closed_rows_length)
  with checked have "opens db s tf \<noteq> {}" by (metis card.empty length_0_conv)
  with checked len persist_report_ok [OF assms(2), of report now] show ?thesis by simp
qed (use assms(2) in simp)

lemma validate_pairs_ok:
  "validate_pairs ps src now db = (db', r) \<Longrightarrow> market_ok src db \<Longrightarrow> market_ok src db' \<and> md_candles db' = md_candles db"
proof (induction ps arbitrary: db db' r)
  case (Cons p ps)
  obtain s tf where p: "p = (s, tf)" by (cases p)
  obtain db1 x where v: "validate_symbol_timeframe s tf src now db = (db1, x)" by fastforce
  obtain db2 y where rest: "validate_pairs ps src now db1 = (db2, y)" by fastforce
  show ?case
    using Cons.prems Cons.IH [of db db'] Cons.IH [OF rest] validate_ok [OF v]
    by (cases x) (auto simp: p v rest split: if_splits)
qed simp

section \<open>Any interleaving\<close>

inductive market_step :: "(nat \<Rightarrow> rat \<Rightarrow> rat) \<Rightarrow> string \<Rightarrow> market_db \<Rightarrow> market_db \<Rightarrow> bool" for qz src where
  live_candle: "persist_closed_candle qz src k db = (db', r) \<Longrightarrow> market_step qz src db db'"
| backfill: "serves s tf fetch \<Longrightarrow> backfill_symbol_timeframe qz src fetch s tf n db = (db', r') \<Longrightarrow> market_step qz src db db'"
| validation: "validate_all_configured ss tfs src now db = (db', r'') \<Longrightarrow> market_step qz src db db'"

inductive reachable_market :: "(nat \<Rightarrow> rat \<Rightarrow> rat) \<Rightarrow> string \<Rightarrow> market_db \<Rightarrow> bool" for qz src where
  fresh_market: "reachable_market qz src empty_market"
| market_call: "reachable_market qz src db \<Longrightarrow> market_step qz src db db' \<Longrightarrow> reachable_market qz src db'"

inductive_cases market_stepE: "market_step qz src db db'"

lemma market_step_ok: "market_step qz src db db' \<Longrightarrow> market_ok src db \<Longrightarrow> market_ok src db'"
  by (erule market_stepE)
    (auto simp: validate_all_configured_def dest: persist_ok backfill_ok(1) validate_pairs_ok)

lemma reachable_market_ok: "reachable_market qz src db \<Longrightarrow> market_ok src db"
  by (induction rule: reachable_market.induct) (auto intro: empty_market_ok market_step_ok)

lemma grid_card:
  fixes a :: int
  assumes U: "0 < U" and n: "0 \<le> n" "b - a = n * U" and a: "U dvd a"
  shows "{t \<in> {a..b}. U dvd t} = (\<lambda>i. a + i * U) ` {0..n}" "card {t \<in> {a..b}. U dvd t} = nat (n + 1)"
proof -
  show eq: "{t \<in> {a..b}. U dvd t} = (\<lambda>i. a + i * U) ` {0..n}"
  proof (intro equalityI subsetI)
    fix t assume "t \<in> {t \<in> {a..b}. U dvd t}"
    then have t: "a \<le> t" "t \<le> b" "U dvd t - a" using a by (auto intro: dvd_diff)
    from t(3) obtain i where "t - a = U * i" by (rule dvdE)
    then have i: "t = a + i * U" by (simp add: mult.commute)
    have "0 \<le> i * U" "i * U \<le> n * U" using t(1,2) n(2) by (simp_all add: i)
    then have "0 \<le> i" "i \<le> n" using U by (simp_all add: zero_le_mult_iff mult_le_cancel_right)
    with i show "t \<in> (\<lambda>i. a + i * U) ` {0..n}" by auto
  next
    fix t assume "t \<in> (\<lambda>i. a + i * U) ` {0..n}"
    then obtain i where "t = a + i * U" "i \<in> {0..n}" by (rule imageE)
    then have i: "t = a + i * U" "0 \<le> i" "i \<le> n" by simp_all
    have "0 \<le> i * U" "i * U \<le> n * U" using U i by (simp_all add: mult_right_mono)
    then show "t \<in> {t \<in> {a..b}. U dvd t}" using a n(2) by (simp add: i)
  qed
  have "inj_on (\<lambda>i. a + i * U) {0..n}" using U by (simp add: inj_on_def)
  then show "card {t \<in> {a..b}. U dvd t} = nat (n + 1)" unfolding eq by (simp add: card_image)
qed

lemma validate_report:
  assumes "validate_symbol_timeframe s tf src now db = (db', Inr r)" "timeframe_seconds tf = Inr step"
    "closed_rows db s tf src = c # cs"
  shows "rp_missing_candles r = rp_missing_candles (check_rows tf step {cd_open_time c} (Some c) cs
      (check_row tf step {} None c ((new_report s tf)\<lparr>rp_candle_count := int (length (c # cs)), rp_checked_at := now\<rparr>)))"
    "rp_misaligned r = map cd_open_time (filter (\<lambda>c. floor_to_timeframe (cd_open_time c) tf \<noteq> Inr (cd_open_time c)) (c # cs))"
    "rp_expected_count r = Some (round_down (fdiv (seconds_float (cd_open_time (List.last (c # cs)) - cd_open_time c)) (of_int step)) + 1)"
    "rp_candle_count r = int (length (c # cs))" "rp_symbol r = s" "rp_timeframe r = tf" "db' = persist_report src now r db"
proof -
  note def = assms(1) [unfolded validate_symbol_timeframe_def Let_def assms(2,3)]
  show "rp_missing_candles r = rp_missing_candles (check_rows tf step {cd_open_time c} (Some c) cs
      (check_row tf step {} None c ((new_report s tf)\<lparr>rp_candle_count := int (length (c # cs)), rp_checked_at := now\<rparr>)))"
    "rp_expected_count r = Some (round_down (fdiv (seconds_float (cd_open_time (List.last (c # cs)) - cd_open_time c)) (of_int step)) + 1)"
    "rp_candle_count r = int (length (c # cs))" "rp_symbol r = s" "rp_timeframe r = tf" "db' = persist_report src now r db"
    using def by (auto simp: new_report_def)
  show "rp_misaligned r = map cd_open_time (filter (\<lambda>c. floor_to_timeframe (cd_open_time c) tf \<noteq> Inr (cd_open_time c)) (c # cs))"
    using def by (auto simp: new_report_def check_rows_misaligned simp del: check_rows.simps)
qed

section \<open>Properties\<close>

text \<open>
  C37: the integrity report counts exactly the holes. When a validation of stored candles lists
  no misaligned one, all of them are on the timeframe's grid, the missing candles are the grid
  points between the first and the last candle that are not stored, the expected count is the
  stored and the missing together, none is missing exactly when the history is the whole grid,
  and the coverage row carries these counts.
\<close>

theorem integrity_report_exact:
  assumes "reachable_market qz src db" "validate_symbol_timeframe s tf src now db = (db', Inr r)"
    "timeframe_seconds tf = Inr step" "opens db s tf \<noteq> {}" "\<forall>t \<in> opens db s tf. in_era t" "rp_misaligned r = []"
  shows "let A = opens db s tf; grid = {t \<in> {Min A..Max A}. step * 10 ^ 6 dvd t} in A \<subseteq> grid \<and>
    rp_candle_count r = int (card A) \<and> rp_missing_candles r = int (card (grid - A)) \<and>
    rp_expected_count r = Some (rp_candle_count r + rp_missing_candles r) \<and> (rp_missing_candles r = 0 \<longleftrightarrow> A = grid) \<and>
    (\<exists>m. coverage_of db' s tf src = Some m \<and> describes m A \<and> cv_missing m = rp_missing_candles r)"
proof -
  define A where "A = opens db s tf"
  define U where "U = step * 10 ^ 6"
  have ok: "market_ok src db" using assms(1) by (rule reachable_market_ok)
  have A: "A = cd_open_time ` set (closed_rows db s tf src)" using ok by (simp add: A_def closed_rows_opens)
  then obtain c cs where rows: "closed_rows db s tf src = c # cs" using assms(4) by (cases "closed_rows db s tf src") (auto simp: A_def)
  note r = validate_report [OF assms(2,3) rows]
  have step: "0 < step" using timeframe_pos [OF assms(3)] by simp
  have aligned: "U dvd t" if "t \<in> A" for t
  proof -
    from that obtain d where d: "d \<in> set (c # cs)" "t = cd_open_time d" by (auto simp: A rows)
    have "filter (\<lambda>c. floor_to_timeframe (cd_open_time c) tf \<noteq> Inr (cd_open_time c)) (c # cs) = []"
      using r(2) assms(6) by simp
    with d have "floor_to_timeframe t tf = Inr t" by (simp only: filter_empty_conv) blast
    with aligned_iff [OF _ assms(3)] assms(5) that show ?thesis by (simp add: A_def U_def)
  qed
  have sorted: "sorted_wrt (<) (map cd_open_time (c # cs))" using closed_rows_sorted [OF ok, of s tf] by (simp only: rows)
  have set_A: "A = set (map cd_open_time (c # cs))" by (simp add: A rows)
  have ends: "Min A = cd_open_time c" "Max A = cd_open_time (List.last (c # cs))" "card A = length (c # cs)"
    using strict_sorted_ends [OF sorted] by (simp_all add: set_A last_map del: set_map)
  have grid: "on_grid step (map cd_open_time (c # cs))"
    unfolding on_grid_def set_A [symmetric] using sorted aligned assms(5) by (simp add: U_def A_def)
  define n where "n = rp_missing_candles r + int (length cs)"
  have n: "Max A - Min A = n * U"
    using check_rows_missing [OF grid step, of tf "{cd_open_time c}"
        "check_row tf step {} None c ((new_report s tf)\<lparr>rp_candle_count := int (length (c # cs)), rp_checked_at := now\<rparr>)"]
    unfolding n_def r(1) ends(1,2) by (simp add: U_def new_report_def)
  have mem: "Min A \<in> A" "Max A \<in> A" using assms(4) by (simp_all add: A_def)
  have "0 \<le> n * U" using n mem by (metis A_def Max_ge diff_ge_0_iff_ge finite_opens)
  then have n0: "0 \<le> n" using step by (simp add: U_def zero_le_mult_iff)
  note g = grid_card [of U n "Max A" "Min A", OF _ n0 n aligned [OF mem(1)]]
  have U: "0 < U" using step by (simp add: U_def)
  let ?G = "{t \<in> {Min A..Max A}. U dvd t}"
  have sub: "A \<subseteq> ?G" using aligned by (auto simp: A_def)
  have fin: "finite ?G" unfolding g(1) [OF U] by simp
  have "card (?G - A) = card ?G - card A" using sub by (intro card_Diff_subset) (simp_all add: A_def)
  moreover have "card A \<le> card ?G" using fin sub by (rule card_mono)
  ultimately have missing: "rp_missing_candles r = int (card (?G - A))"
    using g(2) [OF U] n0 ends(3) by (simp add: n_def)
  have none: "rp_missing_candles r = 0 \<longleftrightarrow> A = ?G" using sub fin unfolding missing by auto
  have count: "rp_candle_count r = int (card A)" using r(4) ends(3) by simp
  have "n * step \<le> 4 * 10 ^ 9"
  proof -
    have "Max A \<le> 4 * 10 ^ 15" "0 \<le> Min A" using assms(5) mem by (simp_all add: A_def in_era_def)
    then have "n * step * 10 ^ 6 \<le> 4 * 10 ^ 9 * 10 ^ 6" using n by (simp add: U_def mult.assoc)
    then show ?thesis by simp
  qed
  note units = seconds_of_units [OF step n0 this]
  have "fdiv (seconds_float (n * U)) (of_int step) = of_int n" by (simp only: U_def units)
  then have "rp_expected_count r = Some (n + 1)"
    using r(3) unfolding n [unfolded ends(1,2)] by simp
  then have expected: "rp_expected_count r = Some (rp_candle_count r + rp_missing_candles r)"
    using r(4) by (simp add: n_def)
  have "case coverage_of db s tf src of None \<Rightarrow> A = {} | Some m \<Rightarrow> describes m A"
    unfolding A_def using ok by (rule market_ok_coverage)
  then obtain m where m: "coverage_of db s tf src = Some m" "describes m A"
    using assms(4) by (auto simp: A_def split: option.splits)
  have "\<exists>m'. coverage_of db' s tf src = Some m' \<and> describes m' A \<and> cv_missing m' = rp_missing_candles r"
    unfolding r(7) persist_report_def r(5,6)
    by (subst coverage_of_edit) (use m count in \<open>simp_all add: covers_def describes_def\<close>)
  with sub missing none count expected show ?thesis unfolding Let_def A_def U_def by blast
qed

section \<open>Witnesses\<close>

definition new_year :: kline where
  "new_year = \<lparr>kl_symbol = ''BTCUSDT'', kl_timeframe = ''1d'', kl_open_time = 1262304000 * 10 ^ 6,
     kl_close_time = 1262390400 * 10 ^ 6, kl_open = 1, kl_high = 2, kl_low = 1, kl_close = 2, kl_volume = 3,
     kl_quote_volume = 4, kl_trades = 5, kl_is_closed = True\<rparr>"

definition exact :: "nat \<Rightarrow> rat \<Rightarrow> rat" where
  "exact scale x = x"

lemma one_day: "timeframe_seconds ''1d'' = Inr 86400"
  by (simp add: timeframe_seconds_def TIMEFRAME_SECONDS_def)

lemma new_year_history: "history_ok ''BTCUSDT'' ''1d'' 86400 [new_year]"
  by (simp add: history_ok_def page_ok_def new_year_def in_era_def)

lemma new_year_stored:
  obtains db where "persist_closed_candle exact ''BINANCE'' new_year empty_market = (db, Inr ())"
    "reachable_market exact ''BINANCE'' db" "opens db ''BTCUSDT'' ''1d'' = {1262304000 * 10 ^ 6}"
proof -
  obtain db where p: "persist_closed_candle exact ''BINANCE'' new_year empty_market = (db, Inr ())"
    by (auto simp: persist_closed_candle_def upsert_candles_def new_year_def empty_market_def Let_def)
  then have "reachable_market exact ''BINANCE'' db"
    by (blast intro: reachable_market.intros market_step.live_candle)
  moreover from p have "opens db ''BTCUSDT'' ''1d'' = {1262304000 * 10 ^ 6}"
  proof (cases rule: persist_cases)
    case (stored rows ins upd)
    have keys: "kl_symbol new_year = ''BTCUSDT''" "kl_timeframe new_year = ''1d''" "kl_open_time new_year = 1262304000 * 10 ^ 6"
      by (simp_all add: new_year_def)
    have "opens empty_market ''BTCUSDT'' ''1d'' = {}" by (simp add: opens_def empty_market_def)
    with stored_ok(2) [OF empty_market_ok page_ok_single _ stored(3), of db] stored(4) keys show ?thesis by simp
  qed simp
  ultimately show thesis using p that by blast
qed

theorem integrity_report_exact_witness:
  "\<exists>db db' r. validate_symbol_timeframe ''BTCUSDT'' ''1d'' ''BINANCE'' 0 db = (db', Inr r) \<and>
     rp_candle_count r = 1 \<and> rp_expected_count r = Some (1 + rp_missing_candles r) \<and>
     (\<exists>m. coverage_of db' ''BTCUSDT'' ''1d'' ''BINANCE'' = Some m \<and> cv_count m = 1)"
proof -
  let ?T = "1262304000 * 10 ^ 6 :: int"
  obtain db where db: "reachable_market exact ''BINANCE'' db" "opens db ''BTCUSDT'' ''1d'' = {?T}"
    by (rule new_year_stored)
  have ok: "market_ok ''BINANCE'' db" using db(1) by (rule reachable_market_ok)
  have "length (closed_rows db ''BTCUSDT'' ''1d'' ''BINANCE'') = 1" using closed_rows_length [OF ok] db(2) by simp
  then obtain c where c: "closed_rows db ''BTCUSDT'' ''1d'' ''BINANCE'' = [c]" by (auto simp: length_Suc_conv)
  then have time: "cd_open_time c = ?T" using closed_rows_opens [OF ok, of "''BTCUSDT''" "''1d''"] db(2) by simp
  obtain db' r where v: "validate_symbol_timeframe ''BTCUSDT'' ''1d'' ''BINANCE'' 0 db = (db', Inr r)"
    by (simp add: validate_symbol_timeframe_def c one_day Let_def del: check_rows.simps)
  have "floor_to_timeframe ?T ''1d'' = Inr ?T"
    using aligned_iff [OF _ one_day, of ?T] by (simp add: in_era_def)
  then have "rp_misaligned r = []" using validate_report(2) [OF v one_day c] time by simp
  moreover have "\<forall>t \<in> opens db ''BTCUSDT'' ''1d''. in_era t" by (simp add: db(2) in_era_def)
  ultimately have "rp_candle_count r = 1 \<and> rp_expected_count r = Some (1 + rp_missing_candles r) \<and>
      (\<exists>m. coverage_of db' ''BTCUSDT'' ''1d'' ''BINANCE'' = Some m \<and> cv_count m = 1)"
    using integrity_report_exact [OF db(1) v one_day] unfolding Let_def by (auto simp: describes_def db(2))
  with v show ?thesis by blast
qed

text \<open>
  C40: a backfill is complete. If the exchange serves a history of candles on the timeframe's
  grid, page by page, and the page bound is enough for it, then backfilling ends by reaching the
  present, and exactly the closed candles from the resume point on (or from 2010) have been
  added to what was stored, each with the values the exchange gave; the bar still forming is
  never stored, no other candle is lost, and the coverage row says how many there are and where
  they begin and end. The database may be any that live candles, earlier backfills over pages of
  one symbol, failed ones included, and validations have left.
\<close>

theorem backfill_complete:
  assumes "reachable_market qz src db" "timeframe_seconds tf = Inr sec" "history_ok s tf sec H"
    and "resume_point db s tf src = Inr resume" "start = (case resume of None \<Rightarrow> EARLIEST_POSSIBLE_MS | Some ms \<Rightarrow> ms)"
    and "length (from_start start H) < n * KLINES_PER_PAGE"
  shows "\<exists>db' res. backfill_symbol_timeframe qz src (serve_history H) s tf n db = (db', Inr res) \<and>
    ir_reached_present res \<and>
    opens db' s tf = kl_open_time ` {k \<in> set H. kl_is_closed k \<and> start * 1000 \<le> kl_open_time k} \<union> opens db s tf \<and>
    (\<forall>k \<in> set H. kl_is_closed k \<and> start * 1000 \<le> kl_open_time k \<longrightarrow> (\<exists>c \<in> set (md_candles db'). holds qz src k c)) \<and>
    (\<forall>c \<in> set (md_candles db). candle_key c \<notin> kline_key ` set H \<longrightarrow> c \<in> set (md_candles db')) \<and>
    (opens db' s tf \<noteq> {} \<longrightarrow> (\<exists>m. coverage_of db' s tf src = Some m \<and> describes m (opens db' s tf)))"
proof -
  have ok: "market_ok src db" using assms(1) by (rule reachable_market_ok)
  have "0 < sec" using timeframe_pos [OF assms(2)] by simp
  from backfill_pages_complete [OF assms(3) this ok assms(6), of qz "new_result s tf"] obtain db' res where
    run: "backfill_pages qz src (serve_history H) s tf (sec * 1000) n start db (new_result s tf) = (db', Inr res)"
    "ir_reached_present res" "market_ok src db'"
    and stored: "\<forall>k \<in> set (from_start start H). kl_is_closed k \<longrightarrow> (\<exists>c \<in> set (md_candles db'). holds qz src k c)"
    and kept: "\<forall>c \<in> set (md_candles db). candle_key c \<notin> kline_key ` set (from_start start H) \<longrightarrow> c \<in> set (md_candles db')"
    and opens': "opens db' s tf = kl_open_time ` set (filter kl_is_closed (from_start start H)) \<union> opens db s tf" by auto
  have "backfill_symbol_timeframe qz src (serve_history H) s tf n db = (db', Inr res)"
    using run(1) by (simp add: backfill_symbol_timeframe_def assms(2,4) flip: assms(5))
  moreover have "opens db' s tf = kl_open_time ` {k \<in> set H. kl_is_closed k \<and> start * 1000 \<le> kl_open_time k} \<union> opens db s tf"
    unfolding opens' by (auto simp: from_start_def)
  moreover have "\<forall>k \<in> set H. kl_is_closed k \<and> start * 1000 \<le> kl_open_time k \<longrightarrow> (\<exists>c \<in> set (md_candles db'). holds qz src k c)"
    using stored by (simp add: from_start_def)
  moreover have "set (from_start start H) \<subseteq> set H" by (auto simp: from_start_def)
  then have "\<forall>c \<in> set (md_candles db). candle_key c \<notin> kline_key ` set H \<longrightarrow> c \<in> set (md_candles db')"
    using kept by blast
  moreover have "opens db' s tf \<noteq> {} \<longrightarrow> (\<exists>m. coverage_of db' s tf src = Some m \<and> describes m (opens db' s tf))"
    using market_ok_coverage [OF run(3), of s tf] by (auto split: option.splits)
  ultimately show ?thesis using run(2) by blast
qed


theorem backfill_complete_witness:
  "\<exists>db' res. backfill_symbol_timeframe exact ''BINANCE'' (serve_history [new_year]) ''BTCUSDT'' ''1d'' 1 empty_market = (db', Inr res) \<and>
     opens db' ''BTCUSDT'' ''1d'' = {1262304000 * 10 ^ 6} \<and> ir_reached_present res"
proof -
  have resume: "resume_point empty_market ''BTCUSDT'' ''1d'' ''BINANCE'' = Inr None"
    by (simp add: resume_point_def coverage_of_def empty_market_def)
  have "length (from_start EARLIEST_POSSIBLE_MS [new_year]) < 1 * KLINES_PER_PAGE"
    by (simp add: from_start_def KLINES_PER_PAGE_def)
  from backfill_complete [OF reachable_market.fresh_market one_day new_year_history resume _ this, of exact]
  obtain db' res where "backfill_symbol_timeframe exact ''BINANCE'' (serve_history [new_year]) ''BTCUSDT'' ''1d'' 1 empty_market = (db', Inr res)"
    "ir_reached_present res"
    "opens db' ''BTCUSDT'' ''1d'' = kl_open_time ` {k \<in> set [new_year]. kl_is_closed k \<and> EARLIEST_POSSIBLE_MS * 1000 \<le> kl_open_time k} \<union>
      opens empty_market ''BTCUSDT'' ''1d''" by auto
  moreover have "{k \<in> set [new_year]. kl_is_closed k \<and> EARLIEST_POSSIBLE_MS * 1000 \<le> kl_open_time k} = {new_year}"
    by (auto simp: new_year_def EARLIEST_POSSIBLE_MS_def)
  moreover have "kl_open_time new_year = 1262304000 * 10 ^ 6" by (simp add: new_year_def)
  moreover have "opens empty_market ''BTCUSDT'' ''1d'' = {}" by (simp add: opens_def empty_market_def)
  ultimately show ?thesis by simp
qed

end
