(* ===== verification/RiskEngine.thy ===== *)
theory RiskEngine
  imports PositionSizing
begin

text \<open>
  \<open>risk/engine.py\<close> and \<open>risk/events.py\<close>: the gate every proposed entry passes. A check
  returns the blocking assessment or \<open>None\<close>; \<open>evaluate\<close> runs system health, account halts,
  trade conditions and sizing in the code's order. \<open>assessed_at\<close> (the wall clock) is not part
  of an assessment; where it is stored it is an argument. Logging is left out.
\<close>

section \<open>Data\<close>

record account_state =
  ac_equity :: rat
  ac_available_quote :: rat
  ac_peak_equity :: rat
  ac_realised_pnl_today :: rat
  ac_unrealised_pnl :: rat
  ac_consecutive_losses :: int
  ac_open_positions :: int
  ac_asset_exposure :: "(string, rat) dict"

record system_state =
  sy_engine_state :: engine_state
  sy_market_data_stale :: bool
  sy_consecutive_api_failures :: int
  sy_model_healthy :: bool
  sy_last_market_data_at :: "int option"

text \<open>\<open>SystemState()\<close>: the dataclass defaults.\<close>

definition default_system :: system_state where
  "default_system = \<lparr>sy_engine_state = EngRUNNING, sy_market_data_stale = False,
     sy_consecutive_api_failures = 0, sy_model_healthy = True, sy_last_market_data_at = None\<rparr>"

record trade_request =
  tr_symbol :: string
  tr_entry_price :: rat
  tr_stop_price :: "rat option"
  tr_filters :: symbol_filters
  tr_taker_fee :: rat
  tr_spread_fraction :: "rat option"
  tr_atr_fraction :: "rat option"
  tr_seconds_since_last_exit :: "int option"
  tr_expected_slippage :: "rat option"
  tr_signal_id :: "int option"

datatype risk_rule =
    RULE_EMERGENCY_STOP
  | RULE_ENGINE_PAUSED
  | RULE_MAX_DAILY_LOSS
  | RULE_MAX_DRAWDOWN
  | RULE_MAX_CONSECUTIVE_LOSSES
  | RULE_STALE_DATA
  | RULE_API_FAILURE
  | RULE_MODEL_HEALTH
  | RULE_SPREAD
  | RULE_VOLATILITY
  | RULE_COOLDOWN
  | RULE_MAX_POSITIONS
  | RULE_ASSET_EXPOSURE
  | RULE_PORTFOLIO_EXPOSURE
  | RULE_POSITION_SIZE
  | RULE_SLIPPAGE
  | RULE_APPROVED

text \<open>The explanation shown verbatim: one constructor per message, with its values.\<close>

datatype risk_reason =
    DailyLossMsg rat rat
  | DrawdownMsg rat rat
  | LossStreakMsg int int
  | EmergencyStopMsg
  | EnginePausedMsg
  | StaleDataMsg
  | ApiFailureMsg int int
  | ModelUnhealthyMsg
  | SpreadMsg rat rat
  | VolatilityMsg rat rat
  | SlippageMsg rat rat
  | CooldownMsg string int
  | MaxPositionsMsg int int
  | AssetExposureMsg string rat
  | PortfolioExposureMsg rat
  | SizeMsg "size_reason option"
  | ApprovedMsg rat string rat rat

datatype risk_detail =
    RdDailyLossFraction rat
  | RdLimit rat
  | RdDrawdownFraction rat
  | RdConsecutiveLosses int
  | RdCountLimit int
  | RdLastMarketDataAt "int option"
  | RdMaxAgeSeconds int
  | RdConsecutiveApiFailures int
  | RdSpreadFraction rat
  | RdAtrFraction rat
  | RdExpectedSlippage rat
  | RdRemainingSeconds int
  | RdOpenPositions int
  | RdAssetExposure rat
  | RdTotalExposure rat
  | RdReasonCode "reject_code option"
  | RdSize size_detail

record risk_assessment =
  ra_decision :: risk_decision
  ra_rule :: risk_rule
  ra_reason :: risk_reason
  ra_size :: "position_size option"
  ra_details :: "risk_detail list"

definition approved :: "risk_assessment \<Rightarrow> bool" where
  "approved a \<longleftrightarrow> ra_decision a = APPROVED"

definition paused :: "risk_rule \<Rightarrow> risk_reason \<Rightarrow> risk_detail list \<Rightarrow> risk_assessment" where
  "paused rule reason ds = \<lparr>ra_decision = PAUSED, ra_rule = rule, ra_reason = reason,
     ra_size = None, ra_details = ds\<rparr>"

definition rejected :: "risk_rule \<Rightarrow> risk_reason \<Rightarrow> risk_detail list \<Rightarrow> risk_assessment" where
  "rejected rule reason ds = \<lparr>ra_decision = REJECTED, ra_rule = rule, ra_reason = reason,
     ra_size = None, ra_details = ds\<rparr>"

section \<open>Account figures\<close>

definition total_exposure :: "account_state \<Rightarrow> rat" where
  "total_exposure a = dsum (vals (ac_asset_exposure a))"

definition drawdown_fraction :: "account_state \<Rightarrow> rat" where
  "drawdown_fraction a =
     (if ac_peak_equity a \<le> 0 then 0
      else max 0 (ddiv (dsub (ac_peak_equity a) (ac_equity a)) (ac_peak_equity a)))"

definition daily_loss_fraction :: "account_state \<Rightarrow> rat" where
  "daily_loss_fraction a =
     (if ac_equity a \<le> 0 then 1
      else let combined = dadd (ac_realised_pnl_today a) (ac_unrealised_pnl a) in
           if 0 \<le> combined then 0 else ddiv (dneg combined) (ac_equity a))"

section \<open>The checks\<close>

definition check_account_halts :: "risk_config \<Rightarrow> account_state \<Rightarrow> risk_assessment option" where
  "check_account_halts risk a =
     (if max_daily_loss risk \<le> daily_loss_fraction a then
        Some (paused RULE_MAX_DAILY_LOSS (DailyLossMsg (daily_loss_fraction a) (max_daily_loss risk))
          [RdDailyLossFraction (daily_loss_fraction a), RdLimit (max_daily_loss risk)])
      else if max_drawdown risk \<le> drawdown_fraction a then
        Some (paused RULE_MAX_DRAWDOWN (DrawdownMsg (drawdown_fraction a) (max_drawdown risk))
          [RdDrawdownFraction (drawdown_fraction a), RdLimit (max_drawdown risk)])
      else if max_consecutive_losses risk \<le> ac_consecutive_losses a then
        Some (paused RULE_MAX_CONSECUTIVE_LOSSES
          (LossStreakMsg (ac_consecutive_losses a) (max_consecutive_losses risk))
          [RdConsecutiveLosses (ac_consecutive_losses a), RdCountLimit (max_consecutive_losses risk)])
      else None)"

definition check_system_health :: "risk_config \<Rightarrow> system_state \<Rightarrow> risk_assessment option" where
  "check_system_health risk s =
     (if sy_engine_state s = EMERGENCY_STOP then
        Some (paused RULE_EMERGENCY_STOP EmergencyStopMsg [])
      else if sy_engine_state s = EngPAUSED then
        Some (paused RULE_ENGINE_PAUSED EnginePausedMsg [])
      else if sy_market_data_stale s then
        Some (paused RULE_STALE_DATA StaleDataMsg
          [RdLastMarketDataAt (sy_last_market_data_at s),
           RdMaxAgeSeconds (stale_data_protection_seconds risk)])
      else if api_failure_protection_threshold risk \<le> sy_consecutive_api_failures s then
        Some (paused RULE_API_FAILURE
          (ApiFailureMsg (sy_consecutive_api_failures s) (api_failure_protection_threshold risk))
          [RdConsecutiveApiFailures (sy_consecutive_api_failures s)])
      else if model_health_protection risk \<and> \<not> sy_model_healthy s then
        Some (paused RULE_MODEL_HEALTH ModelUnhealthyMsg [])
      else None)"

text \<open>\<open>x is not None and x > limit\<close>.\<close>

definition exceeds :: "rat option \<Rightarrow> rat \<Rightarrow> bool" where
  "exceeds x limit = (case x of None \<Rightarrow> False | Some v \<Rightarrow> limit < v)"

definition cooling :: "int option \<Rightarrow> int \<Rightarrow> bool" where
  "cooling x period = (case x of None \<Rightarrow> False | Some s \<Rightarrow> s < period)"

definition check_exposure :: "risk_config \<Rightarrow> trade_request \<Rightarrow> account_state \<Rightarrow> risk_assessment option" where
  "check_exposure risk req a =
     (let asset_exposure = dict_get (ac_asset_exposure a) (tr_symbol req) 0 in
      if 0 < ac_equity a \<and> dmul (ac_equity a) (max_asset_exposure risk) \<le> asset_exposure then
        Some (rejected RULE_ASSET_EXPOSURE
          (AssetExposureMsg (tr_symbol req) (max_asset_exposure risk)) [RdAssetExposure asset_exposure])
      else if 0 < ac_equity a \<and> dmul (ac_equity a) (max_portfolio_exposure risk) \<le> total_exposure a then
        Some (rejected RULE_PORTFOLIO_EXPOSURE
          (PortfolioExposureMsg (max_portfolio_exposure risk)) [RdTotalExposure (total_exposure a)])
      else None)"

definition check_trade_conditions ::
  "risk_config \<Rightarrow> trade_request \<Rightarrow> account_state \<Rightarrow> risk_assessment option" where
  "check_trade_conditions risk req a =
     (if exceeds (tr_spread_fraction req) (spread_protection risk) then
        Some (rejected RULE_SPREAD (SpreadMsg (the (tr_spread_fraction req)) (spread_protection risk))
          [RdSpreadFraction (the (tr_spread_fraction req)), RdLimit (spread_protection risk)])
      else if exceeds (tr_atr_fraction req) (volatility_protection risk) then
        Some (rejected RULE_VOLATILITY
          (VolatilityMsg (the (tr_atr_fraction req)) (volatility_protection risk))
          [RdAtrFraction (the (tr_atr_fraction req)), RdLimit (volatility_protection risk)])
      else if exceeds (tr_expected_slippage req) (max_slippage risk) then
        Some (rejected RULE_SLIPPAGE
          (SlippageMsg (the (tr_expected_slippage req)) (max_slippage risk))
          [RdExpectedSlippage (the (tr_expected_slippage req)), RdLimit (max_slippage risk)])
      else if cooling (tr_seconds_since_last_exit req) (cooldown_period_seconds risk) then
        (let remaining = cooldown_period_seconds risk - the (tr_seconds_since_last_exit req) in
         Some (rejected RULE_COOLDOWN (CooldownMsg (tr_symbol req) remaining)
           [RdRemainingSeconds remaining]))
      else if max_simultaneous_positions risk \<le> ac_open_positions a then
        Some (rejected RULE_MAX_POSITIONS
          (MaxPositionsMsg (ac_open_positions a) (max_simultaneous_positions risk))
          [RdOpenPositions (ac_open_positions a), RdCountLimit (max_simultaneous_positions risk)])
      else check_exposure risk req a)"

section \<open>The single entry point\<close>

definition size_request :: "risk_config \<Rightarrow> trade_request \<Rightarrow> account_state \<Rightarrow> position_size" where
  "size_request risk req a =
     calculate_position_size (ac_equity a) (ac_available_quote a) (tr_entry_price req)
       (tr_stop_price req) risk (tr_filters req) (tr_taker_fee req)
       (dict_get (ac_asset_exposure a) (tr_symbol req) 0) (total_exposure a)"

definition assess_size :: "trade_request \<Rightarrow> position_size \<Rightarrow> risk_assessment" where
  "assess_size req sz =
     (if \<not> ps_approved sz then
        \<lparr>ra_decision = REJECTED, ra_rule = RULE_POSITION_SIZE, ra_reason = SizeMsg (ps_reason sz),
         ra_size = Some sz,
         ra_details = RdReasonCode (ps_reason_code sz) # map RdSize (ps_details sz)\<rparr>
      else
        \<lparr>ra_decision = APPROVED, ra_rule = RULE_APPROVED,
         ra_reason = ApprovedMsg (ps_quantity sz) (tr_symbol req) (ps_notional sz) (ps_risk_amount sz),
         ra_size = Some sz, ra_details = []\<rparr>)"

definition evaluate ::
  "risk_config \<Rightarrow> trade_request \<Rightarrow> account_state \<Rightarrow> system_state \<Rightarrow> risk_assessment" where
  "evaluate risk req a s =
     (case check_system_health risk s of
        Some halt \<Rightarrow> halt
      | None \<Rightarrow>
          (case check_account_halts risk a of
             Some halt \<Rightarrow> halt
           | None \<Rightarrow>
               (case check_trade_conditions risk req a of
                  Some rejection \<Rightarrow> rejection
                | None \<Rightarrow> assess_size req (size_request risk req a))))"

section \<open>Recording a blocking decision\<close>

record risk_event =
  re_timestamp :: int
  re_venue :: string
  re_symbol :: "string option"
  re_decision :: risk_decision
  re_rule :: risk_rule
  re_reason :: risk_reason
  re_signal_id :: "int option"
  re_details :: "risk_detail list"

definition record_risk_event ::
  "risk_event list \<Rightarrow> risk_assessment \<Rightarrow> int \<Rightarrow> string option \<Rightarrow> string \<Rightarrow> int option
     \<Rightarrow> risk_event list \<times> risk_event option" where
  "record_risk_event table a assessed_at symbol venue signal_id =
     (if ra_decision a = APPROVED then (table, None)
      else let event = \<lparr>re_timestamp = assessed_at, re_venue = venue, re_symbol = symbol,
             re_decision = ra_decision a, re_rule = ra_rule a, re_reason = ra_reason a,
             re_signal_id = signal_id, re_details = ra_details a\<rparr>
           in (table @ [event], Some event))"

section \<open>The two predicates the gate decides\<close>

text \<open>
  What the module promises, stated without the order of the checks: the system can be
  trusted, the account is in action, this trade is allowed.
\<close>

definition system_ok :: "risk_config \<Rightarrow> system_state \<Rightarrow> bool" where
  "system_ok risk s \<longleftrightarrow> sy_engine_state s = EngRUNNING \<and> \<not> sy_market_data_stale s \<and>
     sy_consecutive_api_failures s < api_failure_protection_threshold risk \<and>
     (model_health_protection risk \<longrightarrow> sy_model_healthy s)"

definition account_ok :: "risk_config \<Rightarrow> account_state \<Rightarrow> bool" where
  "account_ok risk a \<longleftrightarrow> daily_loss_fraction a < max_daily_loss risk \<and>
     drawdown_fraction a < max_drawdown risk \<and>
     ac_consecutive_losses a < max_consecutive_losses risk"

definition trade_ok :: "risk_config \<Rightarrow> trade_request \<Rightarrow> account_state \<Rightarrow> bool" where
  "trade_ok risk req a \<longleftrightarrow>
     (\<forall>v. tr_spread_fraction req = Some v \<longrightarrow> v \<le> spread_protection risk) \<and>
     (\<forall>v. tr_atr_fraction req = Some v \<longrightarrow> v \<le> volatility_protection risk) \<and>
     (\<forall>v. tr_expected_slippage req = Some v \<longrightarrow> v \<le> max_slippage risk) \<and>
     (\<forall>v. tr_seconds_since_last_exit req = Some v \<longrightarrow> cooldown_period_seconds risk \<le> v) \<and>
     ac_open_positions a < max_simultaneous_positions risk \<and>
     (0 < ac_equity a \<longrightarrow>
        dict_get (ac_asset_exposure a) (tr_symbol req) 0 < dmul (ac_equity a) (max_asset_exposure risk) \<and>
        total_exposure a < dmul (ac_equity a) (max_portfolio_exposure risk))"

lemma system_check: "check_system_health risk s = None \<longleftrightarrow> system_ok risk s"
  by (cases "sy_engine_state s") (auto simp: check_system_health_def system_ok_def)

lemma account_check: "check_account_halts risk a = None \<longleftrightarrow> account_ok risk a"
  by (auto simp: check_account_halts_def account_ok_def)

lemma exceeds_iff: "\<not> exceeds x l \<longleftrightarrow> (\<forall>v. x = Some v \<longrightarrow> v \<le> l)"
  by (auto simp: exceeds_def split: option.splits)

lemma cooling_iff: "\<not> cooling x p \<longleftrightarrow> (\<forall>v. x = Some v \<longrightarrow> p \<le> v)"
  by (auto simp: cooling_def split: option.splits)

lemma trade_check: "check_trade_conditions risk req a = None \<longleftrightarrow> trade_ok risk req a"
  unfolding trade_ok_def exceeds_iff [symmetric] cooling_iff [symmetric]
  by (auto simp: check_trade_conditions_def check_exposure_def Let_def)

lemma system_paused: "check_system_health risk s = Some x \<Longrightarrow> ra_decision x = PAUSED"
  by (auto simp: check_system_health_def paused_def split: if_splits)

lemma account_paused: "check_account_halts risk a = Some x \<Longrightarrow> ra_decision x = PAUSED"
  by (auto simp: check_account_halts_def paused_def split: if_splits)

lemma trade_rejected: "check_trade_conditions risk req a = Some x \<Longrightarrow> ra_decision x = REJECTED"
  by (auto simp: check_trade_conditions_def check_exposure_def rejected_def Let_def split: if_splits)

lemmas gate_checks = system_check account_check trade_check
lemmas gate_decisions = system_paused account_paused trade_rejected

text \<open>The whole decision, as a function of the predicates.\<close>

lemma evaluate_decision:
  "ra_decision (evaluate risk req a s) =
     (if \<not> system_ok risk s \<or> \<not> account_ok risk a then PAUSED
      else if trade_ok risk req a \<and> ps_approved (size_request risk req a) then APPROVED
      else REJECTED)"
  unfolding gate_checks [symmetric]
  by (auto simp: evaluate_def assess_size_def gate_decisions split: option.splits)

lemma evaluate_approved:
  assumes "approved (evaluate risk req a s)"
  shows "evaluate risk req a s = assess_size req (size_request risk req a)"
    and "ps_approved (size_request risk req a)"
    and "system_ok risk s" "account_ok risk a" "trade_ok risk req a"
proof -
  show *: "ps_approved (size_request risk req a)"
    "system_ok risk s" "account_ok risk a" "trade_ok risk req a"
    using assms by (auto simp: approved_def evaluate_decision split: if_splits)
  then show "evaluate risk req a s = assess_size req (size_request risk req a)"
    unfolding gate_checks [symmetric] by (simp add: evaluate_def)
qed

section \<open>Account figures\<close>

lemma drawdown_nonneg: "0 \<le> drawdown_fraction a"
  by (simp add: drawdown_fraction_def)

lemma daily_loss_nonneg: "0 \<le> daily_loss_fraction a"
  by (auto simp: daily_loss_fraction_def Let_def dec_ops dec.rd_signs dec.rd_nonneg_iff
      zero_le_divide_iff intro: dec.rd_nonneg)

text \<open>An exhausted account halts: no equity counts as a full day's loss.\<close>

lemma no_equity_halts: "ac_equity a \<le> 0 \<Longrightarrow> max_daily_loss risk \<le> 1 \<Longrightarrow> \<not> account_ok risk a"
  by (simp add: account_ok_def daily_loss_fraction_def)

section \<open>Exposure after an approved trade\<close>

lemma headroom_bound:
  assumes "0 \<le> cur" "0 \<le> E" "0 \<le> m" "0 < dsub (dmul E m) cur"
    and n: "n \<le> dsub (dmul E m) cur * (1 + 1 / 10 ^ 26)"
  shows "cur + n \<le> E * m * (1 + 1 / 10 ^ 25)"
proof -
  let ?X = "dmul E m"
  have X: "?X \<le> E * m * (1 + ulp28)" unfolding dmul_def using assms by (intro dec_upper) simp
  have pos: "0 < ?X - cur" using assms(4) by (simp add: dsub_def dec.rd_pos_iff)
  then have "dsub ?X cur \<le> (?X - cur) * (1 + ulp28)" unfolding dsub_def by (intro dec_upper) simp
  then have "n \<le> (?X - cur) * (1 + ulp28) * (1 + 1 / 10 ^ 26)"
    using n mult_right_mono [of "dsub ?X cur" _ "1 + 1 / 10 ^ 26"] by fastforce
  moreover have "cur * 1 \<le> cur * ((1 + ulp28) * (1 + 1 / 10 ^ 26))"
    using assms(1) by (intro mult_left_mono) (simp_all add: ulp28_def)
  ultimately have "cur + n \<le> ?X * ((1 + ulp28) * (1 + 1 / 10 ^ 26))"
    by (simp add: left_diff_distrib mult.assoc)
  also have "\<dots> \<le> E * m * (1 + ulp28) * ((1 + ulp28) * (1 + 1 / 10 ^ 26))"
    using X by (intro mult_right_mono) (simp_all add: ulp28_def)
  also have "\<dots> = E * m * ((1 + ulp28) * ((1 + ulp28) * (1 + 1 / 10 ^ 26)))" by simp
  also have "\<dots> \<le> E * m * (1 + 1 / 10 ^ 25)"
    using assms by (intro mult_left_mono) (simp_all add: ulp28_def)
  finally show ?thesis .
qed

text \<open>The rule a blocking decision names, and the condition it claims.\<close>

fun rule_holds :: "risk_rule \<Rightarrow> risk_config \<Rightarrow> trade_request \<Rightarrow> account_state \<Rightarrow> system_state \<Rightarrow> bool" where
  "rule_holds RULE_EMERGENCY_STOP risk req a s = (sy_engine_state s = EMERGENCY_STOP)"
| "rule_holds RULE_ENGINE_PAUSED risk req a s = (sy_engine_state s = EngPAUSED)"
| "rule_holds RULE_STALE_DATA risk req a s = sy_market_data_stale s"
| "rule_holds RULE_API_FAILURE risk req a s =
     (api_failure_protection_threshold risk \<le> sy_consecutive_api_failures s)"
| "rule_holds RULE_MODEL_HEALTH risk req a s = (model_health_protection risk \<and> \<not> sy_model_healthy s)"
| "rule_holds RULE_MAX_DAILY_LOSS risk req a s = (max_daily_loss risk \<le> daily_loss_fraction a)"
| "rule_holds RULE_MAX_DRAWDOWN risk req a s = (max_drawdown risk \<le> drawdown_fraction a)"
| "rule_holds RULE_MAX_CONSECUTIVE_LOSSES risk req a s =
     (max_consecutive_losses risk \<le> ac_consecutive_losses a)"
| "rule_holds RULE_SPREAD risk req a s = exceeds (tr_spread_fraction req) (spread_protection risk)"
| "rule_holds RULE_VOLATILITY risk req a s = exceeds (tr_atr_fraction req) (volatility_protection risk)"
| "rule_holds RULE_SLIPPAGE risk req a s = exceeds (tr_expected_slippage req) (max_slippage risk)"
| "rule_holds RULE_COOLDOWN risk req a s =
     cooling (tr_seconds_since_last_exit req) (cooldown_period_seconds risk)"
| "rule_holds RULE_MAX_POSITIONS risk req a s = (max_simultaneous_positions risk \<le> ac_open_positions a)"
| "rule_holds RULE_ASSET_EXPOSURE risk req a s =
     (dmul (ac_equity a) (max_asset_exposure risk) \<le> dict_get (ac_asset_exposure a) (tr_symbol req) 0)"
| "rule_holds RULE_PORTFOLIO_EXPOSURE risk req a s =
     (dmul (ac_equity a) (max_portfolio_exposure risk) \<le> total_exposure a)"
| "rule_holds RULE_POSITION_SIZE risk req a s = (\<not> ps_approved (size_request risk req a))"
| "rule_holds RULE_APPROVED risk req a s = ps_approved (size_request risk req a)"

lemma system_rule:
  "check_system_health risk s = Some x \<Longrightarrow> rule_holds (ra_rule x) risk req a s"
  by (auto simp: check_system_health_def paused_def split: if_splits)

lemma account_rule:
  "check_account_halts risk a = Some x \<Longrightarrow> rule_holds (ra_rule x) risk req a s"
  by (auto simp: check_account_halts_def paused_def split: if_splits)

lemma trade_rule:
  "check_trade_conditions risk req a = Some x \<Longrightarrow> rule_holds (ra_rule x) risk req a s"
  by (auto simp: check_trade_conditions_def check_exposure_def rejected_def Let_def split: if_splits)

section \<open>Properties\<close>

text \<open>
  C2: the gate decides exactly what it promises. A trade is APPROVED if and only if the
  system is healthy, the account is in action, every per-trade limit holds and the position
  can be sized; PAUSED if and only if the system or the account is out of action, so a
  per-trade rejection never masks a halt; REJECTED otherwise.
\<close>

theorem gate_decision:
  "(ra_decision (evaluate risk req a s) = APPROVED \<longleftrightarrow>
      system_ok risk s \<and> account_ok risk a \<and> trade_ok risk req a \<and>
      ps_approved (size_request risk req a)) \<and>
   (ra_decision (evaluate risk req a s) = PAUSED \<longleftrightarrow> \<not> (system_ok risk s \<and> account_ok risk a)) \<and>
   (ra_decision (evaluate risk req a s) = REJECTED \<longleftrightarrow>
      system_ok risk s \<and> account_ok risk a \<and>
      \<not> (trade_ok risk req a \<and> ps_approved (size_request risk req a)))"
  by (auto simp: evaluate_decision)

text \<open>
  The rule an assessment names is one whose condition really holds for that request,
  account and system, so the explanation shown to the operator is never about another limit.
\<close>

theorem named_rule_holds:
  "rule_holds (ra_rule (evaluate risk req a s)) risk req a s"
  by (auto simp: evaluate_def assess_size_def system_rule account_rule trade_rule split: option.splits)

text \<open>
  C3: with a valid risk configuration and exposures that are not negative, an approved trade
  leaves the exposure to the asset and the whole portfolio's exposure, existing exposure included,
  within their fractions of equity up to a relative 10 ^ -25: the 28-digit
  rounding of the quantity may exceed a fraction in the last digits; and the rounded sum of the order and its fee is
  covered by the available balance.
\<close>

theorem approved_exposure:
  assumes "approved (evaluate risk req a s)" "valid_risk risk"
    "0 \<le> dict_get (ac_asset_exposure a) (tr_symbol req) 0" "0 \<le> total_exposure a"
  shows "\<exists>sz. ra_size (evaluate risk req a s) = Some sz \<and> 0 < ps_quantity sz \<and>
    dict_get (ac_asset_exposure a) (tr_symbol req) 0 + ps_notional sz
      \<le> ac_equity a * max_asset_exposure risk * (1 + 1 / 10 ^ 25) \<and>
    total_exposure a + ps_notional sz
      \<le> ac_equity a * max_portfolio_exposure risk * (1 + 1 / 10 ^ 25) \<and>
    dadd (ps_notional sz) (ps_estimated_fee sz) \<le> ac_available_quote a"
proof -
  let ?sz = "size_request risk req a"
  note ok = evaluate_approved(2) [OF assms(1)]
  have size: "ra_size (evaluate risk req a s) = Some ?sz"
    using ok by (simp add: evaluate_approved(1) [OF assms(1)] assess_size_def)
  have E: "0 \<le> ac_equity a"
    using no_equity_halts [of a risk] evaluate_approved(4) [OF assms(1)] assms(2)
    by (force simp: valid_risk_def fraction_def)
  note caps = approved_notional [OF ok [unfolded size_request_def], folded size_request_def]
  have "dict_get (ac_asset_exposure a) (tr_symbol req) 0 + ps_notional ?sz
      \<le> ac_equity a * max_asset_exposure risk * (1 + 1 / 10 ^ 25)"
    using caps [of CapAssetExposure] assms E
    by (intro headroom_bound) (auto simp: size_caps_def valid_risk_def fraction_def)
  moreover have "total_exposure a + ps_notional ?sz
      \<le> ac_equity a * max_portfolio_exposure risk * (1 + 1 / 10 ^ 25)"
    using caps [of CapPortfolioExposure] assms E
    by (intro headroom_bound) (auto simp: size_caps_def valid_risk_def fraction_def)
  ultimately show ?thesis
    using size approved_funds [OF size_request_def ok] by blast
qed

text \<open>1000 units already held in the asset, 10000 of equity: 3500 more are approved.\<close>

definition sample_request :: trade_request where
  "sample_request = \<lparr>tr_symbol = ''BTCUSDT'', tr_entry_price = 100, tr_stop_price = Some 98,
     tr_filters = no_filters, tr_taker_fee = 1 / 1000, tr_spread_fraction = None,
     tr_atr_fraction = Some (2 / 100), tr_seconds_since_last_exit = None,
     tr_expected_slippage = None, tr_signal_id = None\<rparr>"

definition sample_account :: account_state where
  "sample_account = \<lparr>ac_equity = 10000, ac_available_quote = 9000, ac_peak_equity = 10000,
     ac_realised_pnl_today = 0, ac_unrealised_pnl = 0, ac_consecutive_losses = 0,
     ac_open_positions = 0, ac_asset_exposure = [(''BTCUSDT'', 1000)]\<rparr>"

theorem approved_exposure_witness:
  "approved (evaluate DEFAULT_RISK_CONFIG sample_request sample_account default_system) \<and>
   (\<exists>sz. ra_size (evaluate DEFAULT_RISK_CONFIG sample_request sample_account default_system) = Some sz \<and>
      0 < ps_quantity sz \<and> 1000 + ps_notional sz \<le> 10000 * (50 / 100) * (1 + 1 / 10 ^ 25) \<and>
      total_exposure sample_account + ps_notional sz \<le> 10000 * (80 / 100) * (1 + 1 / 10 ^ 25) \<and>
      dadd (ps_notional sz) (ps_estimated_fee sz) \<le> 9000)"
proof -
  have dsum: "total_exposure sample_account = 1000"
    by (simp add: total_exposure_def sample_account_def dsum_def dec_ops dec_fixed)
  have "ps_approved (size_request DEFAULT_RISK_CONFIG sample_request sample_account)"
    unfolding size_request_def dsum
    by (simp add: sample_request_def sample_account_def dict_get_def sizing_eval)
  moreover have "system_ok DEFAULT_RISK_CONFIG default_system"
    by (simp add: system_ok_def DEFAULT_RISK_CONFIG_def default_system_def)
  moreover have "account_ok DEFAULT_RISK_CONFIG sample_account"
    by (simp add: account_ok_def DEFAULT_RISK_CONFIG_def sample_account_def daily_loss_fraction_def
        drawdown_fraction_def dec_ops)
  moreover have "trade_ok DEFAULT_RISK_CONFIG sample_request sample_account"
    unfolding trade_ok_def dsum
    by (simp add: DEFAULT_RISK_CONFIG_def sample_account_def sample_request_def dict_get_def
        dec_ops dec_fixed)
  ultimately have ok: "approved (evaluate DEFAULT_RISK_CONFIG sample_request sample_account default_system)"
    by (simp add: approved_def evaluate_decision)
  have eval: "dict_get (ac_asset_exposure sample_account) (tr_symbol sample_request) 0 = 1000"
    "ac_equity sample_account = 10000" "ac_available_quote sample_account = 9000"
    "max_asset_exposure DEFAULT_RISK_CONFIG = 50 / 100" "max_portfolio_exposure DEFAULT_RISK_CONFIG = 80 / 100"
    by (simp_all add: sample_account_def sample_request_def dict_get_def DEFAULT_RISK_CONFIG_def)
  from approved_exposure [OF ok valid_default, unfolded eval dsum] show ?thesis
    unfolding dsum using ok by simp
qed

text \<open>
  A blocking decision leaves exactly one row with its rule and reason; an approval leaves none.
\<close>

lemma record_blocking:
  assumes "record_risk_event table x now symbol venue sid = (table', ev)"
  shows "table' = table @ (case ev of None \<Rightarrow> [] | Some e \<Rightarrow> [e])"
    and "ev = None \<longleftrightarrow> approved x"
    and "ev = Some e \<Longrightarrow> re_rule e = ra_rule x \<and> re_reason e = ra_reason x \<and>
      re_decision e \<noteq> APPROVED \<and> re_timestamp e = now"
  using assms by (auto simp: record_risk_event_def approved_def Let_def split: if_splits)

end
