(* ===== verification/Fills.thy ===== *)
theory Fills
  imports RiskEngine
begin

text \<open>
  \<open>paper_trading/fills.py\<close>: slippage, fees, partial fills, the exit a bar triggers and the
  trailing stop; pure functions shared by paper trading and the backtester.
\<close>

section \<open>Fills\<close>

definition BPS :: rat where "BPS = 10000"

record fill_result =
  fl_filled_quantity :: rat
  fl_average_price :: rat
  fl_fee :: rat
  fl_slippage_cost :: rat
  fl_is_partial :: bool

definition gross_value :: "fill_result \<Rightarrow> rat" where
  "gross_value f = dmul (fl_filled_quantity f) (fl_average_price f)"

definition is_empty :: "fill_result \<Rightarrow> bool" where
  "is_empty f \<longleftrightarrow> fl_filled_quantity f \<le> 0"

definition no_fill :: fill_result where
  "no_fill = \<lparr>fl_filled_quantity = 0, fl_average_price = 0, fl_fee = 0, fl_slippage_cost = 0,
     fl_is_partial = False\<rparr>"

definition apply_slippage :: "rat \<Rightarrow> order_side \<Rightarrow> rat \<Rightarrow> rat" where
  "apply_slippage reference_price side slippage_bps =
     (let adjustment = ddiv (dmul reference_price slippage_bps) BPS in
      if side = BUY then dadd reference_price adjustment else dsub reference_price adjustment)"

text \<open>The quantity that fills: capped by the liquidity, then put on the lot grid.\<close>

definition fill_quantity :: "rat \<Rightarrow> rat option \<Rightarrow> rat option \<Rightarrow> rat" where
  "fill_quantity requested liquidity step =
     round_down_to_step
       (case liquidity of None \<Rightarrow> requested | Some l \<Rightarrow> if l < requested then l else requested) step"

definition simulate_fill ::
  "rat \<Rightarrow> rat \<Rightarrow> order_side \<Rightarrow> rat \<Rightarrow> rat \<Rightarrow> rat option \<Rightarrow> rat option \<Rightarrow> fill_result" where
  "simulate_fill requested reference_price side fee_rate slippage_bps liquidity step =
     (if requested \<le> 0 \<or> reference_price \<le> 0 then no_fill
      else let q = fill_quantity requested liquidity step in
        if q \<le> 0 then no_fill
        else let fill_price = apply_slippage reference_price side slippage_bps;
                 gross = dmul q fill_price
          in \<lparr>fl_filled_quantity = q, fl_average_price = fill_price, fl_fee = dmul gross fee_rate,
              fl_slippage_cost = dmul (dabs (dsub fill_price reference_price)) q,
              fl_is_partial = q < requested\<rparr>)"

section \<open>Exits\<close>

datatype exit_reason =
    STOP_LOSS
  | TAKE_PROFIT
  | FORCED_EXIT
  | BACKTEST_END
  | STRATEGY_EXIT
  | OtherExit string

definition exit_reason_for_bar :: "rat \<Rightarrow> rat \<Rightarrow> rat option \<Rightarrow> rat option \<Rightarrow> exit_reason option" where
  "exit_reason_for_bar high low stop_loss take_profit =
     (let hit_stop = (case stop_loss of None \<Rightarrow> False | Some s \<Rightarrow> low \<le> s);
          hit_target = (case take_profit of None \<Rightarrow> False | Some t \<Rightarrow> t \<le> high)
      in if hit_stop then Some STOP_LOSS else if hit_target then Some TAKE_PROFIT else None)"

definition update_trailing_stop :: "rat option \<Rightarrow> rat \<Rightarrow> rat option \<Rightarrow> rat option" where
  "update_trailing_stop current high trailing =
     (case trailing of None \<Rightarrow> current
      | Some d \<Rightarrow> if d \<le> 0 then current
          else let candidate = dsub high d in
            (case current of None \<Rightarrow> Some candidate | Some s \<Rightarrow> Some (max s candidate)))"

section \<open>Lemmas\<close>

lemma slippage_buy: "0 \<le> p \<Longrightarrow> 0 \<le> bps \<Longrightarrow> dec p = p \<Longrightarrow> p \<le> apply_slippage p BUY bps"
  by (auto simp: apply_slippage_def dec_ops BPS_def dec.rd_nonneg_iff intro!: dec.rd_ge)

lemma slippage_sell: "0 \<le> p \<Longrightarrow> 0 \<le> bps \<Longrightarrow> dec p = p \<Longrightarrow> apply_slippage p SELL bps \<le> p"
  by (auto simp: apply_slippage_def dec_ops BPS_def dec.rd_nonneg_iff intro!: dec.rd_le)

lemma slippage_buy_pos: "0 < p \<Longrightarrow> 0 \<le> bps \<Longrightarrow> 0 < apply_slippage p BUY bps"
  by (auto simp: apply_slippage_def dec_ops BPS_def dec.rd_nonneg_iff dec.rd_pos_iff
      intro!: add_pos_nonneg)

text \<open>A sale below full slippage leaves a positive price.\<close>

lemma slippage_sell_pos:
  assumes "0 < p" "0 \<le> bps" "bps \<le> 9999"
  shows "0 < apply_slippage p SELL bps"
proof -
  have "p * bps \<le> p * 9999" using assms by (intro mult_left_mono) auto
  then have "dmul p bps \<le> p * 9999 * (1 + ulp28)"
    unfolding dmul_def using assms by (intro dec_upper_le) auto
  then have "dmul p bps / BPS \<le> p * 9999 * (1 + ulp28) / BPS"
    by (intro divide_right_mono) (simp_all add: BPS_def)
  moreover have "0 \<le> dmul p bps / BPS" using assms by (simp add: dec_ops BPS_def dec.rd_nonneg_iff)
  ultimately have "ddiv (dmul p bps) BPS \<le> p * 9999 * (1 + ulp28) / BPS * (1 + ulp28)"
    unfolding ddiv_def by (intro dec_upper_le)
  also have "\<dots> = p * (9999 * (1 + ulp28) / BPS * (1 + ulp28))" by simp
  also have "\<dots> < p * 1" using assms by (intro mult_strict_left_mono) (simp_all add: ulp28_def BPS_def)
  finally show ?thesis by (simp add: apply_slippage_def dsub_def dec.rd_pos_iff)
qed

lemma slippage_pos:
  "0 < p \<Longrightarrow> 0 \<le> bps \<Longrightarrow> bps \<le> 9999 \<Longrightarrow> 0 < apply_slippage p side bps"
  by (cases side) (auto intro: slippage_buy_pos slippage_sell_pos)

lemma fill_quantity_upper:
  "0 < requested \<Longrightarrow> 0 < fill_quantity requested liq step \<Longrightarrow>
   fill_quantity requested liq step \<le> requested * (1 + ulp28) ^ 2"
proof -
  assume r: "0 < requested" and p: "0 < fill_quantity requested liq step"
  define q where "q = (case liq of None \<Rightarrow> requested | Some l \<Rightarrow> if l < requested then l else requested)"
  have q: "0 < q" using p round_to_step_pos by (simp add: fill_quantity_def q_def)
  have "q \<le> requested" by (simp add: q_def split: option.splits)
  then have "q * (1 + ulp28) ^ 2 \<le> requested * (1 + ulp28) ^ 2" by (intro mult_right_mono) simp_all
  with round_to_step_upper [of q step] q show ?thesis by (simp add: fill_quantity_def q_def)
qed

text \<open>A fill that is not empty, with what it is made of.\<close>

lemma simulate_fill_cases:
  assumes "f = simulate_fill req p side fee bps liq step" "\<not> is_empty f"
  obtains "0 < req" "0 < p" "0 < fill_quantity req liq step"
    "f = \<lparr>fl_filled_quantity = fill_quantity req liq step,
          fl_average_price = apply_slippage p side bps,
          fl_fee = dmul (dmul (fill_quantity req liq step) (apply_slippage p side bps)) fee,
          fl_slippage_cost = dmul (dabs (dsub (apply_slippage p side bps) p)) (fill_quantity req liq step),
          fl_is_partial = fill_quantity req liq step < req\<rparr>"
  using assms by (auto simp: simulate_fill_def is_empty_def no_fill_def Let_def split: if_splits)

lemma fill_upper:
  assumes "f = simulate_fill req p side fee bps liq step" "\<not> is_empty f"
  shows "0 < req" "fl_filled_quantity f \<le> req * (1 + ulp28) ^ 2"
  by (rule simulate_fill_cases [OF assms]; simp add: fill_quantity_upper)+

section \<open>Properties\<close>

text \<open>
  C4: every fill costs the trader. A fill that is not empty buys at or above and sells at or
  below the reference price, pays a fee and a slippage cost that are not negative, and
  without a lot grid never fills more than was asked or than the book holds.
\<close>

theorem fill_never_flatters:
  assumes "f = simulate_fill req p side fee bps liq step" "\<not> is_empty f"
    "dec p = p" "0 \<le> fee" "0 \<le> bps" "bps \<le> 9999"
  shows "(side = BUY \<longrightarrow> p \<le> fl_average_price f) \<and> (side = SELL \<longrightarrow> fl_average_price f \<le> p) \<and>
    0 < fl_average_price f \<and> 0 \<le> fl_fee f \<and> 0 \<le> fl_slippage_cost f \<and>
    (step = None \<longrightarrow> fl_filled_quantity f \<le> req \<and> (\<forall>l. liq = Some l \<longrightarrow> fl_filled_quantity f \<le> l))"
  by (rule simulate_fill_cases [OF assms(1,2)])
    (use assms(3-) in \<open>auto simp: slippage_buy slippage_sell slippage_pos dmul_def dabs_def
       fill_quantity_def round_down_to_step_def dec.rd_nonneg_iff less_imp_le split: option.splits\<close>)

theorem fill_never_flatters_witness:
  "let f = simulate_fill 2 100 BUY (1 / 1000) 5 (Some 1) None in
   \<not> is_empty f \<and> fl_filled_quantity f = 1 \<and> fl_average_price f = 10005 / 100 \<and>
   fl_is_partial f \<and> 100 \<le> fl_average_price f"
proof -
  define f where "f = simulate_fill 2 100 BUY (1 / 1000) 5 (Some 1) None"
  have f: "\<not> is_empty f" "fl_filled_quantity f = 1" "fl_average_price f = 10005 / 100" "fl_is_partial f"
    by (simp_all add: f_def simulate_fill_def is_empty_def no_fill_def fill_quantity_def
        round_down_to_step_def apply_slippage_def BPS_def dec_ops dec_fixed)
  have "100 \<le> fl_average_price f"
    using fill_never_flatters [OF f_def f(1)] by (simp add: dec_fixed)
  with f show ?thesis by (simp add: f_def)
qed

text \<open>
  Exits are pessimistic and the trail only tightens. A bar that reaches both levels
  reports the stop; no exit means neither level was reached; a trailing stop is never below
  the stop it replaces nor below the trail from the bar's high.
\<close>

theorem exits_pessimistic:
  "(exit_reason_for_bar high low (Some s) tp = Some STOP_LOSS \<longleftrightarrow> low \<le> s) \<and>
   (exit_reason_for_bar high low (Some s) (Some t) = Some TAKE_PROFIT \<longleftrightarrow> s < low \<and> t \<le> high) \<and>
   (exit_reason_for_bar high low (Some s) (Some t) = None \<longleftrightarrow> s < low \<and> high < t) \<and>
   (\<exists>s'. update_trailing_stop (Some s) high trail = Some s' \<and> s \<le> s' \<and>
     (case trail of Some d \<Rightarrow> (if d \<le> 0 then s' = s else dsub high d \<le> s' \<and> s' \<in> {s, dsub high d})
      | None \<Rightarrow> s' = s))"
  by (auto simp: exit_reason_for_bar_def update_trailing_stop_def Let_def max_def split: option.splits)

end
