(* ===== verification/Portfolio.thy ===== *)
theory Portfolio
  imports Fills
begin

text \<open>
  \<open>paper_trading/portfolio.py\<close>: cash, open positions, and the realised record. Positions
  are the code's dictionary in insertion order; an update of a position object held in it is
  an update at its key. Money is \<open>Decimal\<close>, so every operation rounds.
\<close>

section \<open>Data\<close>

record open_position =
  op_symbol :: string
  op_quantity :: rat
  op_entry_price :: rat
  op_entry_time :: int
  op_stop_loss :: "rat option"
  op_take_profit :: "rat option"
  op_trailing_distance :: "rat option"
  op_fees_paid :: rat
  op_highest_price :: "rat option"
  op_lowest_price :: "rat option"
  op_signal_id :: "int option"
  op_status :: position_status

definition cost_basis :: "open_position \<Rightarrow> rat" where
  "cost_basis p = dmul (op_quantity p) (op_entry_price p)"

definition market_value :: "open_position \<Rightarrow> rat \<Rightarrow> rat" where
  "market_value p price = dmul (op_quantity p) price"

definition position_unrealised_pnl :: "open_position \<Rightarrow> rat \<Rightarrow> rat" where
  "position_unrealised_pnl p price =
     dsub (dmul (dsub price (op_entry_price p)) (op_quantity p)) (op_fees_paid p)"

definition observe :: "open_position \<Rightarrow> rat \<Rightarrow> rat \<Rightarrow> open_position" where
  "observe p high low = p
     \<lparr>op_highest_price := Some (case op_highest_price p of None \<Rightarrow> high | Some h \<Rightarrow> max h high),
      op_lowest_price := Some (case op_lowest_price p of None \<Rightarrow> low | Some l \<Rightarrow> min l low)\<rparr>"

definition excursion :: "rat option \<Rightarrow> rat \<Rightarrow> rat option" where
  "excursion extreme entry =
     (case extreme of None \<Rightarrow> None
      | Some x \<Rightarrow> if entry \<le> 0 then None else Some (ddiv (dsub x entry) entry))"

definition mae :: "open_position \<Rightarrow> rat option" where
  "mae p = excursion (op_lowest_price p) (op_entry_price p)"

definition mfe :: "open_position \<Rightarrow> rat option" where
  "mfe p = excursion (op_highest_price p) (op_entry_price p)"

record closed_trade =
  ct_symbol :: string
  ct_quantity :: rat
  ct_entry_price :: rat
  ct_exit_price :: rat
  ct_entry_time :: int
  ct_exit_time :: int
  ct_gross_pnl :: rat
  ct_fees :: rat
  ct_slippage_cost :: rat
  ct_net_pnl :: rat
  ct_return_pct :: rat
  ct_exit_reason :: exit_reason
  ct_mae :: "rat option"
  ct_mfe :: "rat option"
  ct_signal_id :: "int option"

definition is_win :: "closed_trade \<Rightarrow> bool" where
  "is_win t \<longleftrightarrow> 0 < ct_net_pnl t"

record portfolio =
  pf_quote_balance :: rat
  pf_initial_balance :: rat
  pf_positions :: "(string, open_position) dict"
  pf_closed_trades :: "closed_trade list"
  pf_realised_pnl :: rat
  pf_total_fees :: rat
  pf_peak_equity :: rat

text \<open>\<open>__post_init__\<close>: a peak that was not given starts at the initial balance.\<close>

definition post_init :: "portfolio \<Rightarrow> portfolio" where
  "post_init p = (if pf_peak_equity p \<le> 0 then p\<lparr>pf_peak_equity := pf_initial_balance p\<rparr> else p)"

definition new_portfolio :: "rat \<Rightarrow> rat \<Rightarrow> portfolio" where
  "new_portfolio quote initial = post_init \<lparr>pf_quote_balance = quote, pf_initial_balance = initial,
     pf_positions = [], pf_closed_trades = [], pf_realised_pnl = 0, pf_total_fees = 0,
     pf_peak_equity = 0\<rparr>"

section \<open>Valuation\<close>

type_synonym prices = "(string, rat) dict"

definition price_of :: "prices \<Rightarrow> string \<times> open_position \<Rightarrow> rat" where
  "price_of prices kp = dict_get prices (fst kp) (op_entry_price (snd kp))"

definition positions_value :: "portfolio \<Rightarrow> prices \<Rightarrow> rat" where
  "positions_value p prices =
     dsum (map (\<lambda>kp. market_value (snd kp) (price_of prices kp)) (pf_positions p))"

definition equity :: "portfolio \<Rightarrow> prices \<Rightarrow> rat" where
  "equity p prices = dadd (pf_quote_balance p) (positions_value p prices)"

definition unrealised_pnl :: "portfolio \<Rightarrow> prices \<Rightarrow> rat" where
  "unrealised_pnl p prices =
     dsum (map (\<lambda>kp. position_unrealised_pnl (snd kp) (price_of prices kp)) (pf_positions p))"

definition update_peak_equity :: "portfolio \<Rightarrow> prices \<Rightarrow> portfolio" where
  "update_peak_equity p prices = p\<lparr>pf_peak_equity := max (pf_peak_equity p) (equity p prices)\<rparr>"

definition pf_drawdown_fraction :: "portfolio \<Rightarrow> prices \<Rightarrow> rat" where
  "pf_drawdown_fraction p prices =
     (if pf_peak_equity p \<le> 0 then 0
      else max 0 (ddiv (dsub (pf_peak_equity p) (equity p prices)) (pf_peak_equity p)))"

section \<open>Opening and closing\<close>

definition portfolio_open ::
  "portfolio \<Rightarrow> string \<Rightarrow> rat \<Rightarrow> rat \<Rightarrow> rat \<Rightarrow> int \<Rightarrow> rat option \<Rightarrow> rat option \<Rightarrow> rat option
     \<Rightarrow> int option \<Rightarrow> exn + portfolio \<times> open_position" where
  "portfolio_open p symb quantity price fee timestamp stop_loss take_profit trailing signal_id =
     (let cost = dadd (dmul quantity price) fee in
      if pf_quote_balance p < cost then Inl ValueError
      else if has_key (pf_positions p) symb then Inl ValueError
      else let pos = \<lparr>op_symbol = symb, op_quantity = quantity, op_entry_price = price,
             op_entry_time = timestamp, op_stop_loss = stop_loss, op_take_profit = take_profit,
             op_trailing_distance = trailing, op_fees_paid = fee, op_highest_price = Some price,
             op_lowest_price = Some price, op_signal_id = signal_id, op_status = PosOPEN\<rparr>
        in Inr (p\<lparr>pf_quote_balance := dsub (pf_quote_balance p) cost,
                  pf_total_fees := dadd (pf_total_fees p) fee,
                  pf_positions := AList.update symb pos (pf_positions p)\<rparr>, pos))"

definition closed_trade_of ::
  "open_position \<Rightarrow> string \<Rightarrow> rat \<Rightarrow> rat \<Rightarrow> rat \<Rightarrow> int \<Rightarrow> exit_reason \<Rightarrow> closed_trade" where
  "closed_trade_of pos symb price fee slippage_cost timestamp reason =
     (let gross_pnl = dmul (dsub price (op_entry_price pos)) (op_quantity pos);
          total_fees = dadd (op_fees_paid pos) fee;
          net_pnl = dsub gross_pnl total_fees
      in \<lparr>ct_symbol = symb, ct_quantity = op_quantity pos, ct_entry_price = op_entry_price pos,
          ct_exit_price = price, ct_entry_time = op_entry_time pos, ct_exit_time = timestamp,
          ct_gross_pnl = gross_pnl, ct_fees = total_fees, ct_slippage_cost = slippage_cost,
          ct_net_pnl = net_pnl,
          ct_return_pct = (if 0 < cost_basis pos then ddiv net_pnl (cost_basis pos) else 0),
          ct_exit_reason = reason, ct_mae = mae pos, ct_mfe = mfe pos,
          ct_signal_id = op_signal_id pos\<rparr>)"

definition portfolio_close ::
  "portfolio \<Rightarrow> string \<Rightarrow> rat \<Rightarrow> rat \<Rightarrow> rat \<Rightarrow> int \<Rightarrow> exit_reason \<Rightarrow> exn + portfolio \<times> closed_trade" where
  "portfolio_close p symb price fee slippage_cost timestamp reason =
     (case map_of (pf_positions p) symb of
        None \<Rightarrow> Inl ValueError
      | Some pos \<Rightarrow>
          (let trade = closed_trade_of pos symb price fee slippage_cost timestamp reason in
           Inr (p\<lparr>pf_positions := AList.delete symb (pf_positions p),
                  pf_quote_balance :=
                    dadd (pf_quote_balance p) (dsub (dmul (op_quantity pos) price) fee),
                  pf_total_fees := dadd (pf_total_fees p) fee,
                  pf_realised_pnl := dadd (pf_realised_pnl p) (ct_net_pnl trade),
                  pf_closed_trades := pf_closed_trades p @ [trade]\<rparr>, trade)))"

section \<open>Risk-engine inputs\<close>

fun loss_streak :: "closed_trade list \<Rightarrow> int" where
  "loss_streak [] = 0"
| "loss_streak (t # ts) = (if is_win t then 0 else 1 + loss_streak ts)"

definition consecutive_losses :: "portfolio \<Rightarrow> int" where
  "consecutive_losses p = loss_streak (rev (pf_closed_trades p))"

definition asset_exposure :: "portfolio \<Rightarrow> prices \<Rightarrow> (string, rat) dict" where
  "asset_exposure p prices =
     map (\<lambda>kp. (fst kp, market_value (snd kp) (price_of prices kp))) (pf_positions p)"

section \<open>The invariant\<close>

text \<open>
  Every open position is filed under its own symbol, long, at a positive price, and its
  extremes enclose the entry; cash never goes negative; the realised profit is exactly the
  sum of the closed trades' net results.
\<close>

definition position_ok :: "string \<Rightarrow> open_position \<Rightarrow> bool" where
  "position_ok k pos \<longleftrightarrow> op_symbol pos = k \<and> 0 < op_quantity pos \<and> 0 < op_entry_price pos \<and>
     0 \<le> op_fees_paid pos \<and>
     (\<exists>h. op_highest_price pos = Some h \<and> op_entry_price pos \<le> h) \<and>
     (\<exists>l. op_lowest_price pos = Some l \<and> l \<le> op_entry_price pos)"

definition closed_ok :: "closed_trade \<Rightarrow> bool" where
  "closed_ok t \<longleftrightarrow> 0 < ct_quantity t \<and> 0 \<le> ct_fees t \<and>
     (\<exists>a. ct_mae t = Some a \<and> a \<le> 0) \<and> (\<exists>f. ct_mfe t = Some f \<and> 0 \<le> f)"

definition portfolio_inv :: "portfolio \<Rightarrow> bool" where
  "portfolio_inv p \<longleftrightarrow> distinct (keys (pf_positions p)) \<and>
     (\<forall>kp \<in> set (pf_positions p). position_ok (fst kp) (snd kp)) \<and>
     0 \<le> pf_quote_balance p \<and> 0 \<le> pf_total_fees p \<and>
     pf_realised_pnl p = dsum (map ct_net_pnl (pf_closed_trades p)) \<and>
     (\<forall>t \<in> set (pf_closed_trades p). closed_ok t)"

lemma new_portfolio_inv: "0 \<le> b \<Longrightarrow> portfolio_inv (new_portfolio b i)"
  by (simp add: portfolio_inv_def new_portfolio_def post_init_def dsum_def)

lemma position_of:
  "portfolio_inv p \<Longrightarrow> map_of (pf_positions p) s = Some pos \<Longrightarrow> position_ok s pos"
  by (metis portfolio_inv_def map_of_SomeD fst_conv snd_conv)

lemma observe_ok [inv_intros]: "position_ok k pos \<Longrightarrow> position_ok k (observe pos high low)"
  by (auto simp: position_ok_def observe_def max_def min_def)

lemma set_stop_ok [inv_intros]: "position_ok k pos \<Longrightarrow> position_ok k (pos\<lparr>op_stop_loss := x\<rparr>)"
  by (simp add: position_ok_def)

text \<open>Replacing a position under its own key keeps the invariant.\<close>

lemma update_position_inv [inv_intros]:
  assumes "portfolio_inv p" "position_ok s pos"
  shows "portfolio_inv (p\<lparr>pf_positions := AList.update s pos (pf_positions p)\<rparr>)"
  using assms mem_update [of _ _ s pos "pf_positions p"] distinct_keys_update
  by (fastforce simp: portfolio_inv_def)

lemma update_peak_inv [inv_intros]: "portfolio_inv p \<Longrightarrow> portfolio_inv (update_peak_equity p prices)"
  by (simp add: portfolio_inv_def update_peak_equity_def)

lemma portfolio_open_cases:
  assumes "portfolio_open p s q price fee t sl tp tr sid = Inr (p', pos)"
  obtains "dadd (dmul q price) fee \<le> pf_quote_balance p" "s \<notin> set (keys (pf_positions p))"
    "p' = p\<lparr>pf_quote_balance := dsub (pf_quote_balance p) (dadd (dmul q price) fee),
            pf_total_fees := dadd (pf_total_fees p) fee,
            pf_positions := pf_positions p @ [(s, pos)]\<rparr>"
    "op_symbol pos = s" "op_quantity pos = q" "op_entry_price pos = price" "op_fees_paid pos = fee"
    "op_highest_price pos = Some price" "op_lowest_price pos = Some price" "op_stop_loss pos = sl"
  using assms by (auto simp: portfolio_open_def Let_def has_key_iff update_new split: if_splits)

lemma portfolio_open_inv:
  assumes inv: "portfolio_inv p" and pre: "0 < q" "0 < price" "0 \<le> fee"
    and res: "portfolio_open p s q price fee t sl tp tr sid = Inr (p', pos)"
  shows "portfolio_inv p'"
  by (rule portfolio_open_cases [OF res])
    (use inv pre in \<open>auto simp: portfolio_inv_def position_ok_def dsub_def dadd_def dec.rd_nonneg_iff\<close>)

lemma excursion_sign:
  "0 < e \<Longrightarrow> \<exists>a. excursion (Some x) e = Some a \<and> (x \<le> e \<longrightarrow> a \<le> 0) \<and> (e \<le> x \<longrightarrow> 0 \<le> a)"
  by (auto simp: excursion_def dec_ops dec.rd_nonneg_iff dec.rd_nonpos_iff divide_le_0_iff
      zero_le_divide_iff)

lemma closed_trade_ok:
  assumes "position_ok s pos" "0 \<le> fee"
  shows "closed_ok (closed_trade_of pos s price fee slip t r)"
proof -
  obtain h l where "op_highest_price pos = Some h" "op_entry_price pos \<le> h"
    "op_lowest_price pos = Some l" "l \<le> op_entry_price pos" and e: "0 < op_entry_price pos"
    using assms by (auto simp: position_ok_def)
  then show ?thesis
    using assms excursion_sign [OF e, of h] excursion_sign [OF e, of l]
    by (auto simp: closed_ok_def closed_trade_of_def Let_def mae_def mfe_def position_ok_def
        dadd_def dec.rd_nonneg_iff)
qed

lemma portfolio_close_cases:
  assumes "portfolio_close p s price fee slip t r = Inr (p', trade)"
  obtains pos where "map_of (pf_positions p) s = Some pos"
    "trade = closed_trade_of pos s price fee slip t r"
    "p' = p\<lparr>pf_positions := AList.delete s (pf_positions p),
       pf_quote_balance := dadd (pf_quote_balance p) (dsub (dmul (op_quantity pos) price) fee),
       pf_total_fees := dadd (pf_total_fees p) fee,
       pf_realised_pnl := dadd (pf_realised_pnl p) (ct_net_pnl trade),
       pf_closed_trades := pf_closed_trades p @ [trade]\<rparr>"
  using assms by (auto simp: portfolio_close_def Let_def split: option.splits)

lemma portfolio_close_inv:
  assumes inv: "portfolio_inv p" and fee: "0 \<le> fee"
    and paid: "\<And>pos. map_of (pf_positions p) s = Some pos \<Longrightarrow> fee \<le> dmul (op_quantity pos) price"
    and res: "portfolio_close p s price fee slip t r = Inr (p', trade)"
  shows "portfolio_inv p'"
proof (rule portfolio_close_cases [OF res])
  fix pos
  assume pos: "map_of (pf_positions p) s = Some pos"
    and t: "trade = closed_trade_of pos s price fee slip t r"
    and p': "p' = p\<lparr>pf_positions := AList.delete s (pf_positions p),
       pf_quote_balance := dadd (pf_quote_balance p) (dsub (dmul (op_quantity pos) price) fee),
       pf_total_fees := dadd (pf_total_fees p) fee,
       pf_realised_pnl := dadd (pf_realised_pnl p) (ct_net_pnl trade),
       pf_closed_trades := pf_closed_trades p @ [trade]\<rparr>"
  have "0 \<le> dsub (dmul (op_quantity pos) price) fee"
    using paid [OF pos] by (simp add: dsub_def dec.rd_nonneg_iff)
  moreover have "closed_ok trade"
    unfolding t using position_of [OF inv pos] fee by (rule closed_trade_ok)
  ultimately show ?thesis
    using inv fee distinct_keys_delete mem_delete unfolding p'
    by (fastforce simp: portfolio_inv_def dsum_snoc dadd_def dec.rd_nonneg_iff)
qed

text \<open>The two valuations the risk engine receives agree: exposure plus cash is equity.\<close>

lemma exposure_value: "dsum (vals (asset_exposure p prices)) = positions_value p prices"
  by (simp add: asset_exposure_def positions_value_def comp_def)

section \<open>No drift\<close>

text \<open>
  What the books must balance to, in exact arithmetic: cash, plus what the open positions
  cost, less the net results booked so far.
\<close>

definition committed :: "open_position \<Rightarrow> rat" where
  "committed pos = op_quantity pos * op_entry_price pos + op_fees_paid pos"

definition ledger :: "portfolio \<Rightarrow> rat" where
  "ledger p = pf_quote_balance p + sum_list (map (committed \<circ> snd) (pf_positions p))
     - sum_list (map ct_net_pnl (pf_closed_trades p))"

text \<open>An amount is at most \<open>m\<close>.\<close>

definition upto_size :: "rat \<Rightarrow> rat \<Rightarrow> bool" where
  "upto_size m x \<longleftrightarrow> 0 \<le> x \<and> x \<le> m"

lemma open_ledger:
  assumes res: "portfolio_open p s q price fee t sl tp tr sid = Inr (p', pos)"
    and m: "upto_size m (pf_quote_balance p)" "upto_size m (q * price)" "upto_size m fee"
  shows "\<bar>ledger p' - ledger p\<bar> \<le> m / 10 ^ 26"
proof -
  have z: "0 \<le> m" using m by (auto simp: upto_size_def)
  have "\<bar>dmul q price - q * price\<bar> \<le> (0 + 1 + 1) * (m * ulp28)"
    unfolding dmul_def using m z by (intro dec_step) (auto simp: upto_size_def)
  then have "\<bar>dadd (dmul q price) fee - (q * price + fee)\<bar> \<le> (2 + 2 + 1) * (m * ulp28)"
    unfolding dadd_def using m z by (intro dec_step) (auto simp: upto_size_def)
  then have "\<bar>dsub (pf_quote_balance p) (dadd (dmul q price) fee) -
      (pf_quote_balance p - (q * price + fee))\<bar> \<le> (5 + 2 + 1) * (m * ulp28)"
    unfolding dsub_def using m z by (intro dec_step) (auto simp: upto_size_def abs_le_iff)
  also have "\<dots> \<le> m / 10 ^ 26" using z by (simp add: ulp28_def)
  finally show ?thesis
    by (rule_tac portfolio_open_cases [OF res]) (simp add: ledger_def committed_def algebra_simps)
qed

lemma committed_split:
  assumes "distinct (keys d)" "map_of d s = Some pos"
  shows "sum_list (map (committed \<circ> snd) d) =
    sum_list (map (committed \<circ> snd) (AList.delete s d)) + committed pos"
proof (rule map_of_split [OF assms(2)])
  fix xs ys
  assume d: "d = xs @ (s, pos) # ys"
  with assms(1) delete_split [of xs s pos ys] show ?thesis by simp
qed

lemma close_ledger:
  assumes inv: "portfolio_inv p"
    and res: "portfolio_close p s price fee slip t r = Inr (p', trade)"
    and pos: "map_of (pf_positions p) s = Some pos"
    and m: "upto_size m (pf_quote_balance p)" "upto_size m (op_quantity pos * price)"
      "upto_size m (op_quantity pos * op_entry_price pos)" "upto_size m (op_fees_paid pos)" "upto_size m fee"
  shows "\<bar>ledger p' - ledger p\<bar> \<le> m / 10 ^ 26"
proof -
  let ?q = "op_quantity pos" and ?e = "op_entry_price pos" and ?u = "m * ulp28"
  have z: "0 \<le> m" using m by (auto simp: upto_size_def)
  have q: "0 < ?q" using position_of [OF inv pos] by (simp add: position_ok_def)
  have "\<bar>dmul ?q price - ?q * price\<bar> \<le> (0 + 1 + 1) * ?u"
    unfolding dmul_def using m z by (intro dec_step) (auto simp: upto_size_def)
  then have "\<bar>dsub (dmul ?q price) fee - (?q * price - fee)\<bar> \<le> (2 + 1 + 1) * ?u"
    unfolding dsub_def using m z by (intro dec_step) (auto simp: upto_size_def abs_le_iff)
  then have cash: "\<bar>dadd (pf_quote_balance p) (dsub (dmul ?q price) fee) -
      (pf_quote_balance p + (?q * price - fee))\<bar> \<le> (4 + 2 + 1) * ?u"
    unfolding dadd_def using m z by (intro dec_step) (auto simp: upto_size_def abs_le_iff)
  have aq: "\<bar>x\<bar> * ?q = \<bar>x * ?q\<bar>" for x using q by (simp add: abs_mult)
  have "\<bar>dsub price ?e - (price - ?e)\<bar> * ?q \<le> \<bar>price - ?e\<bar> * ulp28 * ?q"
    using q dec_error [of "price - ?e"] by (intro mult_right_mono) (auto simp: dsub_def ulp28_def)
  also have "\<dots> = \<bar>(price - ?e) * ?q\<bar> * ulp28" using aq [of "price - ?e"] by simp
  also have "\<dots> \<le> m * ulp28"
    using m by (intro mult_right_mono) (auto simp: upto_size_def abs_le_iff algebra_simps)
  finally have "\<bar>dsub price ?e * ?q - (?q * price - ?q * ?e)\<bar> \<le> 1 * ?u"
    unfolding aq by (simp add: algebra_simps)
  then have "\<bar>dmul (dsub price ?e) ?q - (?q * price - ?q * ?e)\<bar> \<le> (1 + 1 + 1) * ?u"
    unfolding dmul_def using m z by (intro dec_step) (auto simp: upto_size_def abs_le_iff)
  moreover have "\<bar>dadd (op_fees_paid pos) fee - (op_fees_paid pos + fee)\<bar> \<le> (0 + 2 + 1) * ?u"
    unfolding dadd_def using m z by (intro dec_step) (auto simp: upto_size_def abs_le_iff)
  ultimately have "\<bar>dsub (dmul (dsub price ?e) ?q) (dadd (op_fees_paid pos) fee) -
      (?q * price - ?q * ?e - (op_fees_paid pos + fee))\<bar> \<le> (6 + 3 + 1) * ?u"
    unfolding dsub_def using m z by (intro dec_step) (auto simp: upto_size_def abs_le_iff)
  then have net: "\<bar>ct_net_pnl trade - (?q * price - ?q * ?e - (op_fees_paid pos + fee))\<bar> \<le> 10 * ?u"
    by (rule_tac portfolio_close_cases [OF res]) (use pos in \<open>auto simp: closed_trade_of_def Let_def\<close>)
  have "ledger p' - ledger p = dadd (pf_quote_balance p) (dsub (dmul ?q price) fee)
      - pf_quote_balance p - committed pos - ct_net_pnl trade"
    by (rule portfolio_close_cases [OF res])
      (use pos inv committed_split [of "pf_positions p" s pos] in \<open>auto simp: ledger_def portfolio_inv_def\<close>)
  with cash net have "\<bar>ledger p' - ledger p\<bar> \<le> 20 * ?u"
    using z by (simp add: committed_def abs_le_iff)
  also have "\<dots> = m / 10 ^ 26" by (simp add: ulp28_def)
  finally show ?thesis .
qed

section \<open>Properties\<close>

text \<open>
  C5: the books do not drift. Opening or closing a position changes the exact balance of the
  books (cash, plus the cost of open positions, less the results booked) by at most
  \<open>10^-26\<close> of the amounts involved: no money appears or disappears beyond the last digits.
\<close>

theorem books_do_not_drift:
  assumes "portfolio_inv p" "upto_size m (pf_quote_balance p)" "upto_size m fee"
  shows "(upto_size m (q * price) \<longrightarrow>
      portfolio_open p s q price fee t sl tp tr sid = Inr (p', pos) \<longrightarrow>
      \<bar>ledger p' - ledger p\<bar> \<le> m / 10 ^ 26) \<and>
    (map_of (pf_positions p) s = Some held \<longrightarrow> upto_size m (op_quantity held * price) \<longrightarrow>
      upto_size m (op_quantity held * op_entry_price held) \<longrightarrow> upto_size m (op_fees_paid held) \<longrightarrow>
      portfolio_close p s price fee slip t r = Inr (p'', trade) \<longrightarrow>
      \<bar>ledger p'' - ledger p\<bar> \<le> m / 10 ^ 26)"
  using assms open_ledger [of p s q price fee t sl tp tr sid p' pos m]
    close_ledger [of p s price fee slip t r p'' trade held m] by blast

text \<open>A round trip: buy 2 at 100, sell at 110, with fees of a tenth of a percent.\<close>

definition sample_position :: open_position where
  "sample_position = \<lparr>op_symbol = ''BTC'', op_quantity = 2, op_entry_price = 100, op_entry_time = 0,
     op_stop_loss = Some 95, op_take_profit = None, op_trailing_distance = None,
     op_fees_paid = 1 / 5, op_highest_price = Some 100, op_lowest_price = Some 100,
     op_signal_id = None, op_status = PosOPEN\<rparr>"

definition sample_portfolio :: portfolio where
  "sample_portfolio = (new_portfolio 1000 1000)
     \<lparr>pf_quote_balance := 7998 / 10, pf_total_fees := 1 / 5,
      pf_positions := [(''BTC'', sample_position)]\<rparr>"

lemma sample_portfolio_inv: "portfolio_inv sample_portfolio"
  by (simp add: sample_portfolio_def sample_position_def portfolio_inv_def new_portfolio_def
      post_init_def position_ok_def dsum_def)

theorem books_do_not_drift_witness:
  "(\<exists>p' pos. portfolio_open (new_portfolio 1000 1000) ''BTC'' 2 100 (1 / 5) 0 (Some 95) None None None
      = Inr (p', pos) \<and> \<bar>ledger p' - ledger (new_portfolio 1000 1000)\<bar> \<le> 1000 / 10 ^ 26) \<and>
   (\<exists>p' trade. portfolio_close sample_portfolio ''BTC'' 110 (22 / 100) 0 1 TAKE_PROFIT = Inr (p', trade) \<and>
      \<bar>ledger p' - ledger sample_portfolio\<bar> \<le> 1000 / 10 ^ 26)"
proof
  obtain p' pos where o:
    "portfolio_open (new_portfolio 1000 1000) ''BTC'' 2 100 (1 / 5) 0 (Some 95) None None None = Inr (p', pos)"
    by (simp add: portfolio_open_def new_portfolio_def post_init_def has_key_iff Let_def dec_ops dec_fixed)
  have "portfolio_inv (new_portfolio 1000 1000)" "upto_size 1000 (pf_quote_balance (new_portfolio 1000 1000))"
    by (simp_all add: new_portfolio_inv) (simp add: upto_size_def new_portfolio_def post_init_def)
  from books_do_not_drift [where fee = "1 / 5" and q = 2 and price = 100 and s = "''BTC''" and t = 0
      and sl = "Some 95" and tp = None and tr = None and sid = None and p' = p' and pos = pos, OF this] o
  show "\<exists>p' pos. portfolio_open (new_portfolio 1000 1000) ''BTC'' 2 100 (1 / 5) 0 (Some 95) None None None
      = Inr (p', pos) \<and> \<bar>ledger p' - ledger (new_portfolio 1000 1000)\<bar> \<le> 1000 / 10 ^ 26"
    by (simp add: upto_size_def)
next
  obtain p' trade where c:
    "portfolio_close sample_portfolio ''BTC'' 110 (22 / 100) 0 1 TAKE_PROFIT = Inr (p', trade)"
    by (simp add: portfolio_close_def sample_portfolio_def Let_def)
  have "map_of (pf_positions sample_portfolio) ''BTC'' = Some sample_position"
    "upto_size 1000 (pf_quote_balance sample_portfolio)"
    by (simp_all add: sample_portfolio_def upto_size_def)
  with books_do_not_drift [where m = 1000 and fee = "22 / 100" and s = "''BTC''" and price = 110
      and slip = 0 and t = 1 and r = TAKE_PROFIT and held = sample_position and p'' = p'
      and trade = trade, OF sample_portfolio_inv this(2)] c
  show "\<exists>p' trade. portfolio_close sample_portfolio ''BTC'' 110 (22 / 100) 0 1 TAKE_PROFIT = Inr (p', trade) \<and>
      \<bar>ledger p' - ledger sample_portfolio\<bar> \<le> 1000 / 10 ^ 26"
    by (simp add: upto_size_def sample_position_def)
qed

end
