(* ===== verification/Simulator.thy ===== *)
theory Simulator
  imports Portfolio
begin

text \<open>
  \<open>paper_trading/simulator.py\<close>: the simulated venue. The engine's mutable attributes are
  one record passed through every method; a method that raises returns the exception, and its
  caller keeps the state it had (no method changes anything before it raises).
\<close>

section \<open>State\<close>

record bar =
  bar_symbol :: string
  bar_timestamp :: int
  bar_open :: rat
  bar_high :: rat
  bar_low :: rat
  bar_close :: rat

record simulator_config =
  sc_fee_rate :: rat
  sc_slippage_bps :: rat
  sc_allow_partial_fills :: bool

definition default_simulator_config :: simulator_config where
  "default_simulator_config =
     \<lparr>sc_fee_rate = 1 / 1000, sc_slippage_bps = 5, sc_allow_partial_fills = True\<rparr>"

record paper_engine =
  pe_portfolio :: portfolio
  pe_risk :: risk_config
  pe_config :: simulator_config
  pe_rejected_count :: int
  pe_last_exit_time :: "(string, int) dict"

definition init_engine :: "portfolio \<Rightarrow> risk_config \<Rightarrow> simulator_config option \<Rightarrow> paper_engine" where
  "init_engine pf risk config = \<lparr>pe_portfolio = pf, pe_risk = risk,
     pe_config = (case config of None \<Rightarrow> default_simulator_config | Some c \<Rightarrow> c),
     pe_rejected_count = 0, pe_last_exit_time = []\<rparr>"

definition build_engine :: "rat \<Rightarrow> risk_config \<Rightarrow> rat \<Rightarrow> rat \<Rightarrow> bool \<Rightarrow> paper_engine" where
  "build_engine initial_balance risk fee_rate slippage_bps allow_partial =
     init_engine (new_portfolio initial_balance initial_balance) risk
       (Some \<lparr>sc_fee_rate = fee_rate, sc_slippage_bps = slippage_bps,
              sc_allow_partial_fills = allow_partial\<rparr>)"

section \<open>Asking the risk engine\<close>

definition account_state_of :: "paper_engine \<Rightarrow> prices \<Rightarrow> account_state" where
  "account_state_of e prices = (let p = pe_portfolio e in
     \<lparr>ac_equity = equity p prices, ac_available_quote = pf_quote_balance p,
      ac_peak_equity = pf_peak_equity p, ac_realised_pnl_today = pf_realised_pnl p,
      ac_unrealised_pnl = unrealised_pnl p prices, ac_consecutive_losses = consecutive_losses p,
      ac_open_positions = int (length (pf_positions p)),
      ac_asset_exposure = asset_exposure p prices\<rparr>)"

text \<open>
  \<open>int((now - last).total_seconds())\<close>: the microseconds divided by \<open>10^6\<close> as a float,
  then cut towards zero.
\<close>

definition total_seconds :: "int \<Rightarrow> int" where
  "total_seconds microseconds = round_down (fdiv (of_int microseconds) (10 ^ 6))"

definition seconds_since_last_exit :: "paper_engine \<Rightarrow> string \<Rightarrow> int \<Rightarrow> int option" where
  "seconds_since_last_exit e s now =
     (case map_of (pe_last_exit_time e) s of None \<Rightarrow> None
      | Some last_exit \<Rightarrow> Some (total_seconds (now - last_exit)))"

definition entry_request ::
  "paper_engine \<Rightarrow> string \<Rightarrow> rat \<Rightarrow> rat option \<Rightarrow> symbol_filters \<Rightarrow> int \<Rightarrow> rat option \<Rightarrow> rat option
     \<Rightarrow> int option \<Rightarrow> trade_request" where
  "entry_request e s entry_price stop_price filters now spread atr signal_id =
     \<lparr>tr_symbol = s, tr_entry_price = entry_price, tr_stop_price = stop_price, tr_filters = filters,
      tr_taker_fee = sc_fee_rate (pe_config e), tr_spread_fraction = spread, tr_atr_fraction = atr,
      tr_seconds_since_last_exit = seconds_since_last_exit e s now,
      tr_expected_slippage = None, tr_signal_id = signal_id\<rparr>"

definition evaluate_entry ::
  "paper_engine \<Rightarrow> string \<Rightarrow> rat \<Rightarrow> rat option \<Rightarrow> symbol_filters \<Rightarrow> prices \<Rightarrow> int \<Rightarrow> system_state option
     \<Rightarrow> rat option \<Rightarrow> rat option \<Rightarrow> int option \<Rightarrow> paper_engine \<times> risk_assessment" where
  "evaluate_entry e s entry_price stop_price filters prices now system spread atr signal_id =
     (let a = evaluate (pe_risk e)
            (entry_request e s entry_price stop_price filters now spread atr signal_id)
            (account_state_of e prices)
            (case system of None \<Rightarrow> default_system | Some sy \<Rightarrow> sy)
      in (if approved a then e else e\<lparr>pe_rejected_count := pe_rejected_count e + 1\<rparr>, a))"

section \<open>Execution\<close>

definition sim_open_position ::
  "paper_engine \<Rightarrow> risk_assessment \<Rightarrow> string \<Rightarrow> rat \<Rightarrow> int \<Rightarrow> symbol_filters \<Rightarrow> rat option \<Rightarrow> rat option
     \<Rightarrow> rat option \<Rightarrow> rat option \<Rightarrow> int option \<Rightarrow> exn + paper_engine \<times> open_position option" where
  "sim_open_position e a s reference_price timestamp filters stop_loss take_profit trailing
     liquidity signal_id =
     (case ra_size a of
        None \<Rightarrow> Inl ValueError
      | Some sz \<Rightarrow>
          if ra_decision a \<noteq> APPROVED then Inl ValueError
          else let fill = simulate_fill (ps_quantity sz) reference_price BUY
                 (sc_fee_rate (pe_config e)) (sc_slippage_bps (pe_config e))
                 (if sc_allow_partial_fills (pe_config e) then liquidity else None)
                 (step_size filters)
            in if is_empty fill then Inr (e, None)
               else (case portfolio_open (pe_portfolio e) s (fl_filled_quantity fill)
                      (fl_average_price fill) (fl_fee fill) timestamp stop_loss take_profit
                      trailing signal_id of
                   Inl err \<Rightarrow> Inl err
                 | Inr (p, pos) \<Rightarrow> Inr (e\<lparr>pe_portfolio := p\<rparr>, Some pos)))"

definition sim_close_position ::
  "paper_engine \<Rightarrow> string \<Rightarrow> rat \<Rightarrow> int \<Rightarrow> exit_reason \<Rightarrow> symbol_filters option
     \<Rightarrow> exn + paper_engine \<times> closed_trade option" where
  "sim_close_position e s reference_price timestamp reason filters =
     (case map_of (pf_positions (pe_portfolio e)) s of
        None \<Rightarrow> Inr (e, None)
      | Some pos \<Rightarrow>
          (let fill = simulate_fill (op_quantity pos) reference_price SELL
                 (sc_fee_rate (pe_config e)) (sc_slippage_bps (pe_config e)) None
                 (case filters of None \<Rightarrow> None | Some f \<Rightarrow> step_size f)
           in if is_empty fill then Inr (e, None)
              else (case portfolio_close (pe_portfolio e) s (fl_average_price fill)
                     (fl_fee fill) (fl_slippage_cost fill) timestamp reason of
                  Inl err \<Rightarrow> Inl err
                | Inr (p, trade) \<Rightarrow>
                    Inr (e\<lparr>pe_portfolio := p,
                           pe_last_exit_time := AList.update s timestamp (pe_last_exit_time e)\<rparr>,
                         Some trade))))"

section \<open>One bar\<close>

definition set_position :: "paper_engine \<Rightarrow> string \<Rightarrow> open_position \<Rightarrow> paper_engine" where
  "set_position e s pos = e\<lparr>pe_portfolio := (pe_portfolio e)
     \<lparr>pf_positions := AList.update s pos (pf_positions (pe_portfolio e))\<rparr>\<rparr>"

definition mark_peak :: "paper_engine \<Rightarrow> prices \<Rightarrow> paper_engine" where
  "mark_peak e prices = e\<lparr>pe_portfolio := update_peak_equity (pe_portfolio e) prices\<rparr>"

definition process_bar ::
  "paper_engine \<Rightarrow> bar \<Rightarrow> symbol_filters option \<Rightarrow> exn + paper_engine \<times> closed_trade option" where
  "process_bar e b filters =
     (let s = bar_symbol b; marks = [(s, bar_close b)] in
      case map_of (pf_positions (pe_portfolio e)) s of
        None \<Rightarrow> Inr (mark_peak e marks, None)
      | Some pos0 \<Rightarrow>
          (let pos = observe pos0 (bar_high b) (bar_low b); e1 = set_position e s pos in
           case exit_reason_for_bar (bar_high b) (bar_low b) (op_stop_loss pos) (op_take_profit pos) of
             None \<Rightarrow>
               Inr (mark_peak (set_position e1 s (pos\<lparr>op_stop_loss :=
                   update_trailing_stop (op_stop_loss pos) (bar_high b) (op_trailing_distance pos)\<rparr>))
                 marks, None)
           | Some reason \<Rightarrow>
               (case (if reason = STOP_LOSS then op_stop_loss pos else op_take_profit pos) of
                  None \<Rightarrow> Inl AssertionError
                | Some exit_price \<Rightarrow>
                    (case sim_close_position e1 s exit_price (bar_timestamp b) reason filters of
                       Inl err \<Rightarrow> Inl err
                     | Inr (e2, trade) \<Rightarrow> Inr (mark_peak e2 marks, trade)))))"

section \<open>Closing everything\<close>

fun close_each ::
  "paper_engine \<Rightarrow> string list \<Rightarrow> prices \<Rightarrow> int \<Rightarrow> exit_reason \<Rightarrow> closed_trade list
     \<Rightarrow> exn + paper_engine \<times> closed_trade list" where
  "close_each e [] prices timestamp reason trades = Inr (e, trades)"
| "close_each e (s # ss) prices timestamp reason trades =
     (case map_of (pf_positions (pe_portfolio e)) s of
        None \<Rightarrow> Inl KeyError
      | Some pos \<Rightarrow>
          (case sim_close_position e s (dict_get prices s (op_entry_price pos)) timestamp reason None of
             Inl err \<Rightarrow> Inl err
           | Inr (e', trade) \<Rightarrow>
               close_each e' ss prices timestamp reason
                 (case trade of None \<Rightarrow> trades | Some t \<Rightarrow> trades @ [t])))"

definition force_close_all ::
  "paper_engine \<Rightarrow> prices \<Rightarrow> int \<Rightarrow> exit_reason \<Rightarrow> exn + paper_engine \<times> closed_trade list" where
  "force_close_all e prices timestamp reason =
     close_each e (keys (pf_positions (pe_portfolio e))) prices timestamp reason []"

section \<open>Every operation, as a step\<close>

text \<open>
  The public calls. A call that raises leaves the engine as it was, which is what
  \<open>keep_on_error\<close> says.
\<close>

datatype engine_op =
    EvaluateEntry string rat "rat option" symbol_filters prices int "system_state option"
      "rat option" "rat option" "int option"
  | OpenPosition risk_assessment string rat int symbol_filters "rat option" "rat option"
      "rat option" "rat option" "int option"
  | ClosePosition string rat int exit_reason "symbol_filters option"
  | ProcessBar bar "symbol_filters option"
  | ForceCloseAll prices int exit_reason

definition keep_on_error :: "paper_engine \<Rightarrow> exn + paper_engine \<times> 'a \<Rightarrow> paper_engine" where
  "keep_on_error e r = (case r of Inl _ \<Rightarrow> e | Inr (e', _) \<Rightarrow> e')"

fun engine_step :: "paper_engine \<Rightarrow> engine_op \<Rightarrow> paper_engine" where
  "engine_step e (EvaluateEntry s price stop f prices now sys spread atr sid) =
     fst (evaluate_entry e s price stop f prices now sys spread atr sid)"
| "engine_step e (OpenPosition a s price t f sl tp tr liq sid) =
     keep_on_error e (sim_open_position e a s price t f sl tp tr liq sid)"
| "engine_step e (ClosePosition s price t r f) = keep_on_error e (sim_close_position e s price t r f)"
| "engine_step e (ProcessBar b f) = keep_on_error e (process_bar e b f)"
| "engine_step e (ForceCloseAll prices t r) = keep_on_error e (force_close_all e prices t r)"

section \<open>The invariant of the engine\<close>

definition config_ok :: "simulator_config \<Rightarrow> bool" where
  "config_ok c \<longleftrightarrow> 0 \<le> sc_fee_rate c \<and> sc_fee_rate c \<le> 1 / 2 \<and>
     0 \<le> sc_slippage_bps c \<and> sc_slippage_bps c \<le> 9999"

definition engine_inv :: "paper_engine \<Rightarrow> bool" where
  "engine_inv e \<longleftrightarrow> portfolio_inv (pe_portfolio e) \<and> config_ok (pe_config e) \<and> 0 \<le> pe_rejected_count e"

lemma engine_invD:
  assumes "engine_inv e"
  shows "portfolio_inv (pe_portfolio e)" "config_ok (pe_config e)"
    "0 \<le> sc_fee_rate (pe_config e)" "sc_fee_rate (pe_config e) \<le> 1 / 2"
    "0 \<le> sc_slippage_bps (pe_config e)" "sc_slippage_bps (pe_config e) \<le> 9999"
  using assms by (auto simp: engine_inv_def config_ok_def)

lemma build_engine_inv:
  "0 \<le> b \<Longrightarrow> 0 \<le> fee \<Longrightarrow> fee \<le> 1 / 2 \<Longrightarrow> 0 \<le> bps \<Longrightarrow> bps \<le> 9999 \<Longrightarrow>
   engine_inv (build_engine b risk fee bps partial)"
  by (simp add: build_engine_def init_engine_def engine_inv_def config_ok_def new_portfolio_inv)

lemma evaluate_entry_inv [inv_intros]:
  "engine_inv e \<Longrightarrow> engine_inv (fst (evaluate_entry e s price stop f prices now sys spread atr sid))"
  by (simp add: evaluate_entry_def engine_inv_def Let_def)

lemma set_position_inv [inv_intros]:
  "engine_inv e \<Longrightarrow> position_ok s pos \<Longrightarrow> engine_inv (set_position e s pos)"
  by (simp add: set_position_def engine_inv_def update_position_inv)

lemma mark_peak_inv [inv_intros]: "engine_inv e \<Longrightarrow> engine_inv (mark_peak e prices)"
  by (simp add: mark_peak_def engine_inv_def update_peak_inv)

lemma sim_open_cases:
  assumes "sim_open_position e a s price t f sl tp tr liq sid = Inr (e', res)"
  obtains "res = None" "e' = e" "approved a"
  | sz fill pos p where "res = Some pos" "approved a" "ra_size a = Some sz"
    "fill = simulate_fill (ps_quantity sz) price BUY (sc_fee_rate (pe_config e))
       (sc_slippage_bps (pe_config e)) (if sc_allow_partial_fills (pe_config e) then liq else None)
       (step_size f)" "\<not> is_empty fill"
    "portfolio_open (pe_portfolio e) s (fl_filled_quantity fill) (fl_average_price fill)
       (fl_fee fill) t sl tp tr sid = Inr (p, pos)" "e' = e\<lparr>pe_portfolio := p\<rparr>"
proof -
  obtain sz where sz: "ra_size a = Some sz" "approved a"
    using assms by (cases "ra_size a") (simp_all add: sim_open_position_def approved_def split: if_splits)
  define fill where "fill = simulate_fill (ps_quantity sz) price BUY (sc_fee_rate (pe_config e))
    (sc_slippage_bps (pe_config e)) (if sc_allow_partial_fills (pe_config e) then liq else None)
    (step_size f)"
  have eq: "sim_open_position e a s price t f sl tp tr liq sid =
    (if is_empty fill then Inr (e, None)
     else (case portfolio_open (pe_portfolio e) s (fl_filled_quantity fill)
            (fl_average_price fill) (fl_fee fill) t sl tp tr sid of
         Inl err \<Rightarrow> Inl err | Inr (p, pos) \<Rightarrow> Inr (e\<lparr>pe_portfolio := p\<rparr>, Some pos)))"
    using sz by (simp add: sim_open_position_def approved_def fill_def Let_def)
  show thesis
  proof (cases "is_empty fill")
    case True
    then show thesis using assms sz by (intro that(1)) (simp_all add: eq)
  next
    case False
    then obtain p pos where "portfolio_open (pe_portfolio e) s (fl_filled_quantity fill)
        (fl_average_price fill) (fl_fee fill) t sl tp tr sid = Inr (p, pos)"
      "res = Some pos" "e' = e\<lparr>pe_portfolio := p\<rparr>"
      using assms unfolding eq by (simp split: sum.splits prod.splits)
    with False sz fill_def show thesis by (intro that(2))
  qed
qed

lemma sim_close_cases:
  assumes "sim_close_position e s price t r f = Inr (e', res)"
  obtains "res = None" "e' = e"
  | pos fill trade p where "res = Some trade" "map_of (pf_positions (pe_portfolio e)) s = Some pos"
    "fill = simulate_fill (op_quantity pos) price SELL (sc_fee_rate (pe_config e))
       (sc_slippage_bps (pe_config e)) None (case f of None \<Rightarrow> None | Some f \<Rightarrow> step_size f)"
    "\<not> is_empty fill"
    "portfolio_close (pe_portfolio e) s (fl_average_price fill) (fl_fee fill)
       (fl_slippage_cost fill) t r = Inr (p, trade)"
    "e' = e\<lparr>pe_portfolio := p, pe_last_exit_time := AList.update s t (pe_last_exit_time e)\<rparr>"
proof (cases "map_of (pf_positions (pe_portfolio e)) s")
  case None
  then show thesis using assms by (intro that(1)) (simp_all add: sim_close_position_def)
next
  case (Some pos)
  define fill where "fill = simulate_fill (op_quantity pos) price SELL (sc_fee_rate (pe_config e))
    (sc_slippage_bps (pe_config e)) None (case f of None \<Rightarrow> None | Some f \<Rightarrow> step_size f)"
  have eq: "sim_close_position e s price t r f =
    (if is_empty fill then Inr (e, None)
     else (case portfolio_close (pe_portfolio e) s (fl_average_price fill) (fl_fee fill)
            (fl_slippage_cost fill) t r of
         Inl err \<Rightarrow> Inl err
       | Inr (p, trade) \<Rightarrow> Inr (e\<lparr>pe_portfolio := p,
           pe_last_exit_time := AList.update s t (pe_last_exit_time e)\<rparr>, Some trade)))"
    using Some by (simp add: sim_close_position_def fill_def Let_def)
  show thesis
  proof (cases "is_empty fill")
    case True
    then show thesis using assms by (intro that(1)) (simp_all add: eq)
  next
    case False
    then obtain p trade where "portfolio_close (pe_portfolio e) s (fl_average_price fill)
        (fl_fee fill) (fl_slippage_cost fill) t r = Inr (p, trade)" "res = Some trade"
      "e' = e\<lparr>pe_portfolio := p, pe_last_exit_time := AList.update s t (pe_last_exit_time e)\<rparr>"
      using assms unfolding eq by (simp split: sum.splits prod.splits)
    with False Some fill_def show thesis by (intro that(2))
  qed
qed

text \<open>A fill has a positive price and a fee that is not negative.\<close>

lemma fill_signs:
  assumes "fill = simulate_fill q price side fee bps liq step" "\<not> is_empty fill"
    "0 \<le> fee" "0 \<le> bps" "bps \<le> 9999"
  shows "0 < fl_filled_quantity fill" "0 < fl_average_price fill" "0 \<le> fl_fee fill"
proof -
  have "0 < fl_filled_quantity fill \<and> 0 < fl_average_price fill \<and> 0 \<le> fl_fee fill"
    by (rule simulate_fill_cases [OF assms(1,2)])
      (use assms(3-) in \<open>auto simp: slippage_pos dmul_def dec.rd_nonneg_iff less_imp_le\<close>)
  then show "0 < fl_filled_quantity fill" "0 < fl_average_price fill" "0 \<le> fl_fee fill" by auto
qed

text \<open>The exit fee is paid out of the proceeds.\<close>

lemma exit_fee_covered:
  assumes "fill = simulate_fill q price side fee bps None step" "\<not> is_empty fill"
    "0 \<le> fee" "fee \<le> 1 / 2" "0 \<le> bps" "bps \<le> 9999"
  shows "fl_fee fill \<le> dmul q (fl_average_price fill)"
proof (rule simulate_fill_cases [OF assms(1,2)])
  let ?f = "fill_quantity q None step" and ?p = "apply_slippage price side bps"
  assume q: "0 < q" "0 < price" "0 < ?f"
    and f: "fill = \<lparr>fl_filled_quantity = ?f, fl_average_price = ?p,
          fl_fee = dmul (dmul ?f ?p) fee, fl_slippage_cost = dmul (dabs (dsub ?p price)) ?f,
          fl_is_partial = ?f < q\<rparr>"
  have p: "0 < ?p" using assms q by (intro slippage_pos)
  have "?f * ?p \<le> q * (1 + ulp28) ^ 2 * ?p"
    using p fill_quantity_upper [OF q(1,3)] by (intro mult_right_mono) auto
  then have "dmul ?f ?p \<le> q * (1 + ulp28) ^ 2 * ?p * (1 + ulp28)"
    unfolding dmul_def using p q by (intro dec_upper_le) auto
  then have "dmul ?f ?p * fee \<le> q * (1 + ulp28) ^ 2 * ?p * (1 + ulp28) * (1 / 2)"
    using assms p q by (intro mult_mono) (auto simp: dmul_def dec.rd_nonneg_iff)
  then have "dmul (dmul ?f ?p) fee \<le> q * (1 + ulp28) ^ 2 * ?p * (1 + ulp28) * (1 / 2) * (1 + ulp28)"
    using assms p q unfolding dmul_def [of "dmul ?f ?p"]
    by (intro dec_upper_le) (auto simp: dmul_def dec.rd_nonneg_iff)
  also have "\<dots> = q * ?p * ((1 + ulp28) ^ 2 * (1 + ulp28) * (1 / 2) * (1 + ulp28))"
    by (simp only: mult_ac)
  also have "\<dots> \<le> q * ?p * (1 - ulp28)"
    using p q by (intro mult_left_mono) (simp_all add: ulp28_def power_divide)
  also have "\<dots> \<le> dmul q ?p" unfolding dmul_def using p q by (intro dec_lower) simp
  finally show ?thesis by (simp add: f)
qed

lemma sim_open_inv [inv_intros]:
  assumes inv: "engine_inv e" and res: "sim_open_position e a s price t f sl tp tr liq sid = Inr (e', r)"
  shows "engine_inv e'"
proof (rule sim_open_cases [OF res])
  fix sz fill pos p
  assume fill: "fill = simulate_fill (ps_quantity sz) price BUY (sc_fee_rate (pe_config e))
       (sc_slippage_bps (pe_config e)) (if sc_allow_partial_fills (pe_config e) then liq else None)
       (step_size f)" "\<not> is_empty fill"
    and o: "portfolio_open (pe_portfolio e) s (fl_filled_quantity fill)
       (fl_average_price fill) (fl_fee fill) t sl tp tr sid = Inr (p, pos)"
    and e': "e' = e\<lparr>pe_portfolio := p\<rparr>"
  have "portfolio_inv p"
    using fill_signs [OF fill] engine_invD [OF inv] by (intro portfolio_open_inv [OF _ _ _ _ o]) simp_all
  with inv show ?thesis by (simp add: e' engine_inv_def)
qed (use inv in auto)

lemma sim_close_inv [inv_intros]:
  assumes inv: "engine_inv e" and res: "sim_close_position e s price t r f = Inr (e', x)"
  shows "engine_inv e'"
proof (rule sim_close_cases [OF res])
  fix pos fill trade p
  assume c: "map_of (pf_positions (pe_portfolio e)) s = Some pos"
    "fill = simulate_fill (op_quantity pos) price SELL (sc_fee_rate (pe_config e))
       (sc_slippage_bps (pe_config e)) None (case f of None \<Rightarrow> None | Some f \<Rightarrow> step_size f)"
    "\<not> is_empty fill"
    "portfolio_close (pe_portfolio e) s (fl_average_price fill) (fl_fee fill)
       (fl_slippage_cost fill) t r = Inr (p, trade)"
    and e': "e' = e\<lparr>pe_portfolio := p, pe_last_exit_time := AList.update s t (pe_last_exit_time e)\<rparr>"
  have "0 \<le> fl_fee fill" using fill_signs(3) [OF c(2,3)] engine_invD [OF inv] by simp
  moreover have "fl_fee fill \<le> dmul (op_quantity pos) (fl_average_price fill)"
    using exit_fee_covered [OF c(2,3)] engine_invD [OF inv] by simp
  ultimately have "portfolio_inv p"
    using portfolio_close_inv [OF engine_invD(1) [OF inv] _ _ c(4)] c(1) by simp
  with inv show ?thesis by (simp add: e' engine_inv_def)
qed (use inv in auto)

lemma process_bar_cases:
  assumes "process_bar e b f = Inr (e', res)"
  obtains (flat) "map_of (pf_positions (pe_portfolio e)) (bar_symbol b) = None" "res = None"
    "e' = mark_peak e [(bar_symbol b, bar_close b)]"
  | (hold) pos where "map_of (pf_positions (pe_portfolio e)) (bar_symbol b) = Some pos" "res = None"
    "exit_reason_for_bar (bar_high b) (bar_low b) (op_stop_loss pos) (op_take_profit pos) = None"
    "e' = mark_peak (set_position (set_position e (bar_symbol b) (observe pos (bar_high b) (bar_low b)))
        (bar_symbol b) ((observe pos (bar_high b) (bar_low b))\<lparr>op_stop_loss :=
          update_trailing_stop (op_stop_loss pos) (bar_high b) (op_trailing_distance pos)\<rparr>))
      [(bar_symbol b, bar_close b)]"
  | (exit) pos reason price e2 where
    "map_of (pf_positions (pe_portfolio e)) (bar_symbol b) = Some pos"
    "exit_reason_for_bar (bar_high b) (bar_low b) (op_stop_loss pos) (op_take_profit pos) = Some reason"
    "(if reason = STOP_LOSS then op_stop_loss pos else op_take_profit pos) = Some price"
    "sim_close_position (set_position e (bar_symbol b) (observe pos (bar_high b) (bar_low b)))
       (bar_symbol b) price (bar_timestamp b) reason f = Inr (e2, res)"
    "e' = mark_peak e2 [(bar_symbol b, bar_close b)]"
proof (cases "map_of (pf_positions (pe_portfolio e)) (bar_symbol b)")
  case None
  then show thesis using assms by (intro flat) (simp_all add: process_bar_def Let_def)
next
  case (Some pos)
  let ?r = "exit_reason_for_bar (bar_high b) (bar_low b) (op_stop_loss pos) (op_take_profit pos)"
  have obs: "op_stop_loss (observe pos h l) = op_stop_loss pos"
    "op_take_profit (observe pos h l) = op_take_profit pos"
    "op_trailing_distance (observe pos h l) = op_trailing_distance pos" for h l
    by (simp_all add: observe_def)
  show thesis
  proof (cases ?r)
    case None
    with Some assms show thesis by (intro hold) (auto simp: process_bar_def Let_def obs)
  next
    case (Some reason)
    let ?p = "if reason = STOP_LOSS then op_stop_loss pos else op_take_profit pos"
    let ?c = "\<lambda>price. sim_close_position (set_position e (bar_symbol b)
      (observe pos (bar_high b) (bar_low b))) (bar_symbol b) price (bar_timestamp b) reason f"
    have eq: "process_bar e b f = (case ?p of None \<Rightarrow> Inl AssertionError | Some price \<Rightarrow>
        (case ?c price of Inl err \<Rightarrow> Inl err
         | Inr (e2, t) \<Rightarrow> Inr (mark_peak e2 [(bar_symbol b, bar_close b)], t)))"
      using Some \<open>map_of _ _ = Some pos\<close> by (simp add: process_bar_def Let_def obs)
    from assms obtain price where price: "?p = Some price" unfolding eq by (cases ?p) simp_all
    with assms obtain e2 t where "?c price = Inr (e2, t)" unfolding eq by (cases "?c price") auto
    with price assms Some \<open>map_of _ _ = Some pos\<close> show thesis unfolding eq by (intro exit) auto
  qed
qed

lemma set_position_observe_inv [inv_intros]:
  assumes "engine_inv e" "map_of (pf_positions (pe_portfolio e)) s = Some pos"
  shows "engine_inv (set_position e s (observe pos h l))"
  using assms position_of engine_invD(1) by (intro set_position_inv observe_ok) auto

lemma process_bar_inv [inv_intros]:
  assumes inv: "engine_inv e" and res: "process_bar e b f = Inr (e', x)"
  shows "engine_inv e'"
  using res
proof (cases rule: process_bar_cases)
  case flat
  with inv show ?thesis by (simp add: mark_peak_inv)
next
  case (hold pos)
  then have "position_ok (bar_symbol b) pos" using inv position_of engine_invD(1) by blast
  with inv hold show ?thesis by (simp add: mark_peak_inv set_position_inv observe_ok set_stop_ok)
next
  case (exit pos reason price e2)
  then show ?thesis
    using mark_peak_inv [OF sim_close_inv [OF set_position_observe_inv [OF inv exit(1)] exit(4)]] by simp
qed

lemma close_each_inv:
  "engine_inv e \<Longrightarrow> close_each e ss prices t r ts = Inr (e', ts') \<Longrightarrow> engine_inv e'"
proof (induction ss arbitrary: e ts)
  case (Cons s ss)
  from Cons.prems(2) obtain pos where pos: "map_of (pf_positions (pe_portfolio e)) s = Some pos"
    by (cases "map_of (pf_positions (pe_portfolio e)) s") simp_all
  with Cons.prems(2) obtain e1 x where c:
    "sim_close_position e s (dict_get prices s (op_entry_price pos)) t r None = Inr (e1, x)"
    by (cases "sim_close_position e s (dict_get prices s (op_entry_price pos)) t r None") auto
  from Cons.prems(2) pos c Cons.IH [OF sim_close_inv [OF Cons.prems(1) c]] show ?case by simp
qed simp

lemma engine_step_inv: "engine_inv e \<Longrightarrow> engine_inv (engine_step e op)"
  by (cases op)
    (auto simp: keep_on_error_def force_close_all_def evaluate_entry_inv
      split: sum.splits prod.splits intro: sim_open_inv sim_close_inv process_bar_inv close_each_inv)

interpretation paper: invariant_run engine_step engine_inv
  by unfold_locales (rule engine_step_inv)

section \<open>What an operation does to the open positions\<close>

abbreviation held :: "paper_engine \<Rightarrow> string \<Rightarrow> open_position option" where
  "held e \<equiv> map_of (pf_positions (pe_portfolio e))"

text \<open>The same position later: only the stop may have moved, and only up.\<close>

definition tightens :: "open_position \<Rightarrow> open_position \<Rightarrow> bool" where
  "tightens a b \<longleftrightarrow> op_quantity b = op_quantity a \<and> op_entry_price b = op_entry_price a \<and>
     op_entry_time b = op_entry_time a \<and> op_fees_paid b = op_fees_paid a \<and>
     op_take_profit b = op_take_profit a \<and> op_trailing_distance b = op_trailing_distance a \<and>
     (\<forall>s. op_stop_loss a = Some s \<longrightarrow> (\<exists>s'. op_stop_loss b = Some s' \<and> s \<le> s'))"

lemma tightens_refl [simp]: "tightens a a"
  by (simp add: tightens_def)

lemma tightens_trans: "tightens a b \<Longrightarrow> tightens b c \<Longrightarrow> tightens a c"
  by (force simp: tightens_def)

lemma trail_up: "\<exists>s'. update_trailing_stop (Some s) h d = Some s' \<and> s \<le> s'"
  by (auto simp: update_trailing_stop_def Let_def split: option.splits)

lemma observe_tightens: "tightens a (observe a h l)"
  by (simp add: tightens_def observe_def)

lemma trail_tightens:
  "tightens a ((observe a h l)\<lparr>op_stop_loss := update_trailing_stop (op_stop_loss a) h d\<rparr>)"
  using trail_up by (auto simp: tightens_def observe_def)

lemma held_mark [simp]: "pf_positions (pe_portfolio (mark_peak e m)) = pf_positions (pe_portfolio e)"
  by (simp add: mark_peak_def update_peak_equity_def)

lemma held_set [simp]: "held (set_position e s pos) = (held e)(s \<mapsto> pos)"
  by (auto simp: set_position_def map_of_update)

lemma held_close:
  assumes "sim_close_position e s price t r f = Inr (e', res)"
  shows "(res = None \<and> e' = e) \<or> (res \<noteq> None \<and> held e s \<noteq> None \<and> held e' = (held e)(s := None))"
  by (rule sim_close_cases [OF assms])
    (auto elim!: portfolio_close_cases simp: AList.delete_conv')

lemma held_open:
  assumes "sim_open_position e a s price t f sl tp tr liq sid = Inr (e', res)"
  shows "(res = None \<and> e' = e) \<or>
    (\<exists>pos. res = Some pos \<and> held e s = None \<and> held e' = (held e)(s \<mapsto> pos))"
proof (rule sim_open_cases [OF assms])
  fix sz fill pos p
  assume o: "portfolio_open (pe_portfolio e) s (fl_filled_quantity fill)
      (fl_average_price fill) (fl_fee fill) t sl tp tr sid = Inr (p, pos)"
    and e': "e' = e\<lparr>pe_portfolio := p\<rparr>" and r: "res = Some pos"
  then show ?thesis
    by (rule_tac portfolio_open_cases [OF o])
      (simp add: map_of_eq_None_iff update_new [symmetric] AList.update_conv')
qed auto

lemma held_bar:
  assumes "process_bar e b f = Inr (e', res)"
  shows "held e' s = None \<or> (\<exists>a b. held e s = Some a \<and> held e' s = Some b \<and> tightens a b)"
  using assms
proof (cases rule: process_bar_cases)
  case (hold pos)
  then show ?thesis using trail_tightens by (cases "held e s"; cases "s = bar_symbol b") auto
next
  case (exit pos reason price e2)
  then show ?thesis using held_close [OF exit(4)] observe_tightens
    by (cases "held e s"; cases "s = bar_symbol b") auto
qed (cases "held e s"; simp)

lemma held_close_each:
  "close_each e ss prices t r ts = Inr (e', ts') \<Longrightarrow> held e' s = None \<or> held e' s = held e s"
proof (induction ss arbitrary: e ts)
  case (Cons k ss)
  from Cons.prems obtain pos where pos: "held e k = Some pos" by (cases "held e k") simp_all
  with Cons.prems obtain e1 x where c:
    "sim_close_position e k (dict_get prices k (op_entry_price pos)) t r None = Inr (e1, x)"
    by (cases "sim_close_position e k (dict_get prices k (op_entry_price pos)) t r None") auto
  with Cons.prems pos have "held e' s = None \<or> held e' s = held e1 s"
    using Cons.IH [of e1] by simp
  moreover have "held e1 s = None \<or> held e1 s = held e s" using held_close [OF c] by auto
  ultimately show ?case by auto
qed simp

text \<open>
  One step, seen from one symbol: its position is gone, or the same one with a tighter stop,
  or a new one, which only an approved opening makes.
\<close>

lemma step_position:
  assumes "held (engine_step e op) s = Some b"
  shows "(\<exists>a. held e s = Some a \<and> tightens a b) \<or>
    (held e s = None \<and> (\<exists>a price t f sl tp tr liq sid. op = OpenPosition a s price t f sl tp tr liq sid \<and>
       (\<exists>e'. sim_open_position e a s price t f sl tp tr liq sid = Inr (e', Some b))))"
proof (cases op)
  case (EvaluateEntry s price stop f prices now sys spread atr sid)
  with assms show ?thesis by (auto simp: evaluate_entry_def Let_def split: if_splits)
next
  case (OpenPosition a k price t f sl tp tr liq sid)
  show ?thesis
  proof (cases "sim_open_position e a k price t f sl tp tr liq sid")
    case (Inr r)
    obtain e' res where r: "r = (e', res)" by (cases r)
    from held_open [OF Inr [unfolded r]] assms Inr show ?thesis
      by (auto simp: OpenPosition keep_on_error_def r split: if_splits)
  qed (use assms OpenPosition in \<open>simp add: keep_on_error_def\<close>)
next
  case (ClosePosition k price t r f)
  show ?thesis
  proof (cases "sim_close_position e k price t r f")
    case (Inr r)
    obtain e' res where r: "r = (e', res)" by (cases r)
    from held_close [OF Inr [unfolded r]] assms Inr show ?thesis
      by (auto simp: ClosePosition keep_on_error_def r split: if_splits)
  qed (use assms ClosePosition in \<open>simp add: keep_on_error_def\<close>)
next
  case (ProcessBar bar f)
  show ?thesis
  proof (cases "process_bar e bar f")
    case (Inr r)
    obtain e' res where r: "r = (e', res)" by (cases r)
    from held_bar [OF Inr [unfolded r], of s] assms Inr show ?thesis
      by (auto simp: ProcessBar keep_on_error_def r)
  qed (use assms ProcessBar in \<open>simp add: keep_on_error_def\<close>)
next
  case (ForceCloseAll prices t r)
  show ?thesis
  proof (cases "force_close_all e prices t r")
    case (Inr x)
    obtain e' res where r: "x = (e', res)" by (cases x)
    from held_close_each [OF Inr [unfolded r force_close_all_def], of s] assms Inr show ?thesis
      by (cases "held e s") (auto simp: ForceCloseAll keep_on_error_def r)
  qed (use assms ForceCloseAll in \<open>simp add: keep_on_error_def\<close>)
qed

text \<open>As long as a position stays open it only tightens.\<close>

lemma run_tightens:
  "held e s = Some a \<Longrightarrow> (\<forall>n \<le> length ops. held (foldl engine_step e (take n ops)) s \<noteq> None) \<Longrightarrow>
   \<exists>b. held (foldl engine_step e ops) s = Some b \<and> tightens a b"
proof (induction ops arbitrary: e a)
  case (Cons op ops)
  from Cons.prems(2) have "held (engine_step e op) s \<noteq> None" by (auto dest: spec [of _ 1])
  then obtain b where b: "held (engine_step e op) s = Some b" by auto
  with step_position [OF b] Cons.prems(1) have ab: "tightens a b" by auto
  have "\<forall>n \<le> length ops. held (foldl engine_step (engine_step e op) (take n ops)) s \<noteq> None"
    using Cons.prems(2) by (metis Suc_le_mono foldl_Cons length_Cons take_Suc_Cons)
  from Cons.IH [OF b this] ab show ?case by (auto intro: tightens_trans)
qed simp

section \<open>Exits succeed\<close>

lemma sim_close_ok:
  assumes inv: "engine_inv e" and pos: "held e s = Some pos" and price: "0 < price"
    and q: "0 < fill_quantity (op_quantity pos) None (case f of None \<Rightarrow> None | Some f \<Rightarrow> step_size f)"
  shows "\<exists>e' fee slip. sim_close_position e s price t r f = Inr (e', Some (closed_trade_of pos s
      (apply_slippage price SELL (sc_slippage_bps (pe_config e))) fee slip t r)) \<and>
    engine_inv e' \<and> pf_positions (pe_portfolio e') = AList.delete s (pf_positions (pe_portfolio e))"
proof -
  have "0 < op_quantity pos" using position_of [OF engine_invD(1) [OF inv] pos] by (simp add: position_ok_def)
  with pos price q obtain e' fee slip where c:
    "sim_close_position e s price t r f = Inr (e', Some (closed_trade_of pos s
      (apply_slippage price SELL (sc_slippage_bps (pe_config e))) fee slip t r))"
    "pf_positions (pe_portfolio e') = AList.delete s (pf_positions (pe_portfolio e))"
    by (simp add: sim_close_position_def simulate_fill_def is_empty_def portfolio_close_def Let_def)
  with sim_close_inv [OF inv c(1)] show ?thesis by blast
qed

lemma sim_close_total: "\<exists>e' r. sim_close_position e s p t x f = Inr (e', r)"
  by (cases "held e s") (auto simp: sim_close_position_def portfolio_close_def Let_def)

lemma process_bar_total: "\<exists>e' r. process_bar e b f = Inr (e', r)"
  using sim_close_total
  by (auto simp: process_bar_def exit_reason_for_bar_def Let_def split: option.splits sum.splits)
    (metis Inl_Inr_False)+

lemma close_each_all:
  "engine_inv e \<Longrightarrow> pf_positions (pe_portfolio e) = ps \<Longrightarrow> \<forall>kv \<in> set prices. 0 < snd kv \<Longrightarrow>
   \<exists>e' ts'. close_each e (keys ps) prices t r ts = Inr (e', ts') \<and>
     pf_positions (pe_portfolio e') = [] \<and> map ct_symbol ts' = map ct_symbol ts @ keys ps"
proof (induction ps arbitrary: e ts)
  case (Cons kp ps)
  obtain k pos where kp: "kp = (k, pos)" by (cases kp)
  have h: "held e k = Some pos" using Cons.prems(2) kp by simp
  have ok: "position_ok k pos" using position_of [OF engine_invD(1) [OF Cons.prems(1)] h] .
  then have p: "0 < dict_get prices k (op_entry_price pos)"
    using Cons.prems(3) by (force simp: dict_get_def position_ok_def dest: map_of_SomeD split: option.splits)
  have q: "0 < fill_quantity (op_quantity pos) None None"
    using ok by (simp add: fill_quantity_def round_down_to_step_def position_ok_def)
  obtain e1 trade where c: "sim_close_position e k (dict_get prices k (op_entry_price pos)) t r None =
      Inr (e1, Some trade)" "ct_symbol trade = k"
    "engine_inv e1" "pf_positions (pe_portfolio e1) = AList.delete k (pf_positions (pe_portfolio e))"
    using sim_close_ok [OF Cons.prems(1) h p, of None t r] q by (auto simp: closed_trade_of_def Let_def)
  have "k \<notin> set (keys ps)"
    using engine_invD(1) [OF Cons.prems(1)] Cons.prems(2) kp by (simp add: portfolio_inv_def)
  then have "pf_positions (pe_portfolio e1) = ps"
    using c(4) Cons.prems(2) kp by (simp add: AList.delete_id)
  from Cons.IH [OF c(3) this Cons.prems(3), of "ts @ [trade]"] show ?case
    using c(1,2) h kp by auto
qed simp

section \<open>Properties\<close>

text \<open>
  C6: after any sequence of calls the account is sound. From a new engine with sane costs,
  whatever is evaluated, opened, closed, stepped or liquidated and whatever prices come in,
  cash is never negative, positions are long, at most one per symbol and filed under their
  own symbol, and realised profit is exactly the sum of the closed trades' net results.
\<close>

theorem account_always_sound:
  assumes "0 \<le> balance" "0 \<le> fee" "fee \<le> 1 / 2" "0 \<le> bps" "bps \<le> 9999"
    and "p = pe_portfolio (foldl engine_step (build_engine balance risk fee bps partial) ops)"
  shows "0 \<le> pf_quote_balance p \<and> distinct (keys (pf_positions p)) \<and>
    (\<forall>(s, pos) \<in> set (pf_positions p). op_symbol pos = s \<and> 0 < op_quantity pos \<and> 0 < op_entry_price pos) \<and>
    pf_realised_pnl p = dsum (map ct_net_pnl (pf_closed_trades p)) \<and>
    (\<forall>t \<in> set (pf_closed_trades p). 0 < ct_quantity t \<and> 0 \<le> ct_fees t)"
proof -
  have "engine_inv (foldl engine_step (build_engine balance risk fee bps partial) ops)"
    using assms by (intro paper.run_inv build_engine_inv)
  then show ?thesis
    unfolding assms(6) by (force simp: engine_inv_def portfolio_inv_def position_ok_def closed_ok_def)
qed

text \<open>Two units bought at 100 with a stop at 95, by a default engine.\<close>

definition sample_engine :: paper_engine where
  "sample_engine = init_engine sample_portfolio DEFAULT_RISK_CONFIG None"

lemma sample_engine_inv: "engine_inv sample_engine"
  by (simp add: sample_engine_def init_engine_def engine_inv_def config_ok_def
      default_simulator_config_def sample_portfolio_inv)

lemma sample_engine_held:
  "held sample_engine = [''BTC'' \<mapsto> sample_position]" "pe_config sample_engine = default_simulator_config"
  by (simp_all add: sample_engine_def init_engine_def sample_portfolio_def)

definition dip :: bar where
  "dip = \<lparr>bar_symbol = ''BTC'', bar_timestamp = 60, bar_open = 99, bar_high = 130, bar_low = 94, bar_close = 120\<rparr>"

definition rise :: bar where
  "rise = \<lparr>bar_symbol = ''BTC'', bar_timestamp = 60, bar_open = 100, bar_high = 110, bar_low = 99, bar_close = 108\<rparr>"

theorem account_always_sound_witness:
  "0 \<le> pf_quote_balance (pe_portfolio (foldl engine_step
     (build_engine 1000 DEFAULT_RISK_CONFIG (1 / 1000) 5 True)
     [ProcessBar dip None, ClosePosition ''BTC'' 100 0 STRATEGY_EXIT None, ForceCloseAll [] 1 FORCED_EXIT]))"
  using account_always_sound [where balance = 1000 and fee = "1 / 1000" and bps = 5 and
      risk = DEFAULT_RISK_CONFIG and partial = True and
      ops = "[ProcessBar dip None, ClosePosition ''BTC'' 100 0 STRATEGY_EXIT None, ForceCloseAll [] 1 FORCED_EXIT]",
      OF _ _ _ _ _ refl]
  by (simp del: foldl.simps)

text \<open>
  The risk gate cannot be bypassed. Whatever call made a position appear, it was an
  opening with an APPROVED assessment that carried a size, and what was bought is no more
  than the approved quantity (but for the last digits when a lot grid is applied).
\<close>

theorem entries_are_approved:
  assumes "held e s = None" "held (engine_step e op) s = Some pos"
  shows "\<exists>a price t f sl tp tr liq sid sz. op = OpenPosition a s price t f sl tp tr liq sid \<and>
    approved a \<and> ra_size a = Some sz \<and> op_quantity pos \<le> ps_quantity sz * (1 + 1 / 10 ^ 26)"
proof -
  from step_position [OF assms(2)] assms(1) obtain a price t f sl tp tr liq sid e' where
    op: "op = OpenPosition a s price t f sl tp tr liq sid"
    and o: "sim_open_position e a s price t f sl tp tr liq sid = Inr (e', Some pos)" by auto
  from o show ?thesis
  proof (cases rule: sim_open_cases)
    case (2 sz fill pos' p)
    have "op_quantity pos = fl_filled_quantity fill"
      using 2(1) by (rule_tac portfolio_open_cases [OF 2(6)]) simp
    then have "op_quantity pos \<le> ps_quantity sz * (1 + ulp28) ^ 2" and pos: "0 < ps_quantity sz"
      using fill_upper [OF 2(4,5)] by simp_all
    moreover have "ps_quantity sz * (1 + ulp28) ^ 2 \<le> ps_quantity sz * (1 + 1 / 10 ^ 26)"
      using pos ulp28_power [of 2] by (intro mult_left_mono) auto
    ultimately have "op_quantity pos \<le> ps_quantity sz * (1 + 1 / 10 ^ 26)" by linarith
    with op 2(2,3) show ?thesis by blast
  qed simp
qed

definition sample_approval :: risk_assessment where
  "sample_approval = assess_size sample_request \<lparr>ps_approved = True, ps_quantity = 2, ps_notional = 200,
     ps_risk_amount = 10, ps_estimated_fee = 1 / 5, ps_reason_code = None, ps_reason = None,
     ps_details = []\<rparr>"

theorem entries_are_approved_witness:
  "\<exists>pos. held (engine_step sample_engine (OpenPosition sample_approval ''ETH'' 50 9 no_filters
       (Some 45) None None None None)) ''ETH'' = Some pos \<and>
     approved sample_approval \<and> op_quantity pos \<le> 2 * (1 + 1 / 10 ^ 26)"
proof -
  let ?op = "OpenPosition sample_approval ''ETH'' 50 9 no_filters (Some 45) None None None None"
  have none: "held sample_engine ''ETH'' = None" by (simp add: sample_engine_held)
  obtain pos where pos: "held (engine_step sample_engine ?op) ''ETH'' = Some pos"
    by (simp add: sample_approval_def assess_size_def sim_open_position_def sample_engine_def
        init_engine_def sample_portfolio_def simulate_fill_def fill_quantity_def is_empty_def no_fill_def
        round_down_to_step_def apply_slippage_def BPS_def default_simulator_config_def
        portfolio_open_def has_key_iff keep_on_error_def no_filters_def new_portfolio_def
        post_init_def dec_ops dec_fixed Let_def)
  from entries_are_approved [OF none pos] pos show ?thesis
    by (auto simp: sample_approval_def assess_size_def)
qed

text \<open>
  C7: a position that stays open is never given more room. Over any run during which a
  symbol's position is not closed, its quantity, entry and costs are unchanged and its stop
  has not moved down.
\<close>

theorem stop_never_loosens:
  assumes "held e s = Some a" "op_stop_loss a = Some stop"
    "\<forall>n \<le> length ops. held (foldl engine_step e (take n ops)) s \<noteq> None"
  shows "\<exists>b stop'. held (foldl engine_step e ops) s = Some b \<and> op_stop_loss b = Some stop' \<and>
    stop \<le> stop' \<and> op_quantity b = op_quantity a \<and> op_entry_price b = op_entry_price a \<and>
    op_fees_paid b = op_fees_paid a"
  using run_tightens [OF assms(1,3)] assms(2) by (auto simp: tightens_def)

theorem stop_never_loosens_witness:
  "\<exists>b stop'. held (foldl engine_step sample_engine [ProcessBar rise None]) ''BTC'' = Some b \<and>
     op_stop_loss b = Some stop' \<and> 95 \<le> stop'"
proof -
  have "held (engine_step sample_engine (ProcessBar rise None)) ''BTC'' \<noteq> None"
    by (simp add: process_bar_def rise_def sample_engine_held exit_reason_for_bar_def observe_def
        sample_position_def keep_on_error_def Let_def)
  then have "\<forall>n \<le> length [ProcessBar rise None].
      held (foldl engine_step sample_engine (take n [ProcessBar rise None])) ''BTC'' \<noteq> None"
    by (auto simp: le_Suc_eq sample_engine_held)
  from stop_never_loosens [OF _ _ this, of sample_position 95] show ?thesis
    by (auto simp: sample_engine_held sample_position_def)
qed

text \<open>
  A bar that trades through the stop closes the position at the stop it had entering
  the bar, less slippage, whatever the bar's close and even if the bar also reached the
  target; the symbol is flat afterwards, and stepping a bar never raises.
\<close>

theorem stop_exit:
  assumes "engine_inv e" "held e (bar_symbol b) = Some pos" "op_stop_loss pos = Some stop"
    "bar_low b \<le> stop" "0 < stop" "dec stop = stop"
    "0 < fill_quantity (op_quantity pos) None (case f of None \<Rightarrow> None | Some f \<Rightarrow> step_size f)"
  shows "\<exists>e' trade. process_bar e b f = Inr (e', Some trade) \<and> held e' (bar_symbol b) = None \<and>
    ct_exit_reason trade = STOP_LOSS \<and> ct_quantity trade = op_quantity pos \<and>
    ct_exit_price trade = apply_slippage stop SELL (sc_slippage_bps (pe_config e)) \<and>
    ct_exit_price trade \<le> stop \<and> ct_exit_time trade = bar_timestamp b"
proof -
  let ?s = "bar_symbol b" and ?o = "observe pos (bar_high b) (bar_low b)"
  let ?e = "set_position e ?s ?o"
  have inv: "engine_inv ?e" using set_position_observe_inv [OF assms(1,2)] .
  have o: "op_quantity ?o = op_quantity pos" "op_stop_loss ?o = Some stop"
    using assms(3) by (simp_all add: observe_def)
  obtain e' fee slip where c: "sim_close_position ?e ?s stop (bar_timestamp b) STOP_LOSS f =
      Inr (e', Some (closed_trade_of ?o ?s (apply_slippage stop SELL (sc_slippage_bps (pe_config ?e)))
        fee slip (bar_timestamp b) STOP_LOSS))"
    "pf_positions (pe_portfolio e') = AList.delete ?s (pf_positions (pe_portfolio ?e))"
    using sim_close_ok [OF inv _ assms(5), of ?s ?o f "bar_timestamp b" STOP_LOSS] assms(7) o by auto
  have config: "pe_config ?e = pe_config e" by (simp add: set_position_def)
  have "exit_reason_for_bar (bar_high b) (bar_low b) (Some stop) (op_take_profit ?o) = Some STOP_LOSS"
    using assms(4) by (simp add: exit_reason_for_bar_def Let_def)
  then have "process_bar e b f = Inr (mark_peak e' [(?s, bar_close b)],
      Some (closed_trade_of ?o ?s (apply_slippage stop SELL (sc_slippage_bps (pe_config e)))
        fee slip (bar_timestamp b) STOP_LOSS))"
    using assms(2) o c(1) by (simp add: process_bar_def Let_def config)
  moreover have "apply_slippage stop SELL (sc_slippage_bps (pe_config e)) \<le> stop"
    using slippage_sell assms(5,6) engine_invD(5) [OF assms(1)] by simp
  ultimately show ?thesis
    using c(2) by (auto simp: closed_trade_of_def Let_def map_of_delete o)
qed

theorem stop_exit_witness:
  "\<exists>e' trade. process_bar sample_engine dip None = Inr (e', Some trade) \<and>
     held e' ''BTC'' = None \<and> ct_exit_reason trade = STOP_LOSS \<and> ct_exit_price trade \<le> 95"
  using stop_exit [OF sample_engine_inv, of dip sample_position 95 None]
  by (auto simp: sample_engine_held dip_def sample_position_def dec_fixed fill_quantity_def
      round_down_to_step_def)

text \<open>
  A position smaller than the lot size never closes: its stop is hit and it stays open.
\<close>

lemma dust_never_closes:
  "\<exists>e'. process_bar sample_engine dip (Some (no_filters\<lparr>step_size := Some 5\<rparr>)) = Inr (e', None) \<and>
     held e' ''BTC'' \<noteq> None"
  by (simp add: process_bar_def dip_def sample_engine_held exit_reason_for_bar_def observe_def
      sample_position_def sim_close_position_def simulate_fill_def fill_quantity_def is_empty_def
      no_fill_def round_down_to_step_def round_down_def dec_ops dec_fixed Let_def)

text \<open>
  C8: liquidation is complete. Forcing every position closed at positive prices never fails,
  leaves no position open, and books exactly one trade per position, in order.
\<close>

theorem liquidation_complete:
  assumes "engine_inv e" "\<forall>kv \<in> set prices. 0 < snd kv"
  shows "\<exists>e' trades. force_close_all e prices t reason = Inr (e', trades) \<and>
    pf_positions (pe_portfolio e') = [] \<and>
    map ct_symbol trades = keys (pf_positions (pe_portfolio e))"
  using close_each_all [OF assms(1) refl assms(2), of t reason "[]"] by (simp add: force_close_all_def)

theorem liquidation_complete_witness:
  "\<exists>e' trades. force_close_all sample_engine [(''BTC'', 90)] 7 FORCED_EXIT = Inr (e', trades) \<and>
     pf_positions (pe_portfolio e') = [] \<and> map ct_symbol trades = [''BTC'']"
  using liquidation_complete [OF sample_engine_inv, of "[(''BTC'', 90)]" 7 FORCED_EXIT]
  by (auto simp: sample_engine_def init_engine_def sample_portfolio_def)

end
