(* ===== verification/BacktestMetrics.thy ===== *)
theory BacktestMetrics
  imports Portfolio
begin

text \<open>
  \<open>backtesting/metrics.py\<close>: the performance metrics of a list of closed trades and an equity
  curve. Decimals are averaged with 28 digits, ratios reported as floats; \<open>math.sqrt\<close> is
  the correctly rounded square root, computed from an integer square root.
\<close>

section \<open>Square roots\<close>

function isqrt :: "nat \<Rightarrow> nat" where
  "isqrt n = (if n = 0 then 0 else
     let r = 2 * isqrt (n div 4) in if (r + 1) * (r + 1) \<le> n then r + 1 else r)"
  by pat_completeness auto
termination by (relation "measure id") auto

declare isqrt.simps [simp del]

lemma isqrt_bounds: "isqrt n * isqrt n \<le> n \<and> n < (isqrt n + 1) * (isqrt n + 1)"
proof (induction n rule: isqrt.induct)
  case (1 n)
  show ?case
  proof (cases "n = 0")
    case False
    define r where "r = isqrt (n div 4)"
    have ih: "r * r \<le> n div 4" "n div 4 < (r + 1) * (r + 1)" using 1 False by (auto simp: r_def)
    then have "4 * (r * r) \<le> n" by linarith
    moreover have "n div 4 + 1 \<le> (r + 1) * (r + 1)" using ih(2) by simp
    then have "n < 4 * ((r + 1) * (r + 1))" by linarith
    moreover have "isqrt n = (if (2 * r + 1) * (2 * r + 1) \<le> n then 2 * r + 1 else 2 * r)"
      using False by (subst isqrt.simps) (simp add: r_def Let_def)
    ultimately show ?thesis by (auto simp: algebra_simps)
  qed (simp add: isqrt.simps)
qed

text \<open>
  The root is read off an integer root of at least 60 bits; the half added when it is not
  exact keeps it on the right side of every rounding boundary.
\<close>

definition fsqrt :: "rat \<Rightarrow> rat" where
  "fsqrt x = (if x \<le> 0 then 0 else
     let e = 60 - ilog 2 x div 2; m = x * 4 powi e; n = isqrt (nat \<lfloor>m\<rfloor>);
         v = of_nat n + (if of_nat (n * n) = m then 0 else 1 / 2)
     in flt (v / 2 powi e))"

lemma fsqrt_pos: "0 < x \<Longrightarrow> 0 < fsqrt x"
proof -
  assume x: "0 < x"
  define m where "m = x * 4 powi (60 - ilog 2 x div 2)"
  define n where "n = isqrt (nat \<lfloor>m\<rfloor>)"
  have "0 < m" using x by (simp add: m_def)
  then have "0 < (of_nat n :: rat) + (if of_nat (n * n) = m then 0 else 1 / 2)"
    by (cases "n = 0") auto
  then show ?thesis using x by (simp add: fsqrt_def Let_def m_def n_def flt.rd_pos_iff)
qed

lemma fsqrt_zero_iff: "fsqrt x = 0 \<longleftrightarrow> x \<le> 0"
  using fsqrt_pos [of x] by (auto simp: fsqrt_def)

section \<open>Metrics\<close>

definition BARS_PER_YEAR :: "(string, int) dict" where
  "BARS_PER_YEAR = [(''15m'', 365 * 24 * 4), (''1h'', 365 * 24), (''4h'', 365 * 6), (''1d'', 365)]"

record performance_metrics =
  pm_trade_count :: int
  pm_win_count :: int
  pm_loss_count :: int
  pm_win_rate :: "rat option"
  pm_loss_rate :: "rat option"
  pm_gross_pnl :: rat
  pm_net_pnl :: rat
  pm_total_fees :: rat
  pm_total_slippage :: rat
  pm_average_trade :: "rat option"
  pm_average_win :: "rat option"
  pm_average_loss :: "rat option"
  pm_expectancy :: "rat option"
  pm_profit_factor :: "rat option"
  pm_sharpe_ratio :: "rat option"
  pm_sortino_ratio :: "rat option"
  pm_max_drawdown :: "rat option"
  pm_return_pct :: "rat option"
  pm_exposure :: "rat option"
  pm_equity_curve :: "rat list"

fun drawdown_scan :: "rat \<Rightarrow> rat \<Rightarrow> rat list \<Rightarrow> rat" where
  "drawdown_scan peak worst [] = worst"
| "drawdown_scan peak worst (v # vs) =
     (let peak' = max peak v in
      drawdown_scan peak' (if 0 < peak' then max worst (ddiv (dsub peak' v) peak') else worst) vs)"

definition max_drawdown_of :: "rat list \<Rightarrow> rat option" where
  "max_drawdown_of curve =
     (if length curve < 2 then None else Some (flt (drawdown_scan (hd curve) 0 curve)))"

fun returns_from_equity :: "rat list \<Rightarrow> rat list" where
  "returns_from_equity (p # c # rest) =
     (if 0 < p then [flt (ddiv (dsub c p) p)] else []) @ returns_from_equity (c # rest)"
| "returns_from_equity _ = []"

definition mean_of :: "rat list \<Rightarrow> rat" where
  "mean_of xs = fdiv (fsum xs) (of_nat (length xs))"

definition sharpe_ratio :: "rat list \<Rightarrow> int \<Rightarrow> rat option" where
  "sharpe_ratio curve periods_per_year =
     (let returns = returns_from_equity curve in
      if length returns < 2 then None
      else let mean = mean_of returns;
               variance = fdiv (fsum (map (\<lambda>r. fmul (fsub r mean) (fsub r mean)) returns))
                            (of_nat (length returns - 1));
               stdev = fsqrt variance
        in if stdev = 0 then None
           else Some (fmul (fdiv mean stdev) (fsqrt (of_int periods_per_year))))"

definition sortino_ratio :: "rat list \<Rightarrow> int \<Rightarrow> rat option" where
  "sortino_ratio curve periods_per_year =
     (let returns = returns_from_equity curve in
      if length returns < 2 then None
      else let mean = mean_of returns; downside = filter (\<lambda>r. r < 0) returns
        in if downside = [] then None
           else let downside_dev = fsqrt (fdiv (fsum (map (\<lambda>r. fmul r r) downside))
                                            (of_nat (length downside)))
             in if downside_dev = 0 then None
                else Some (fmul (fdiv mean downside_dev) (fsqrt (of_int periods_per_year))))"

definition no_metrics :: performance_metrics where
  "no_metrics = \<lparr>pm_trade_count = 0, pm_win_count = 0, pm_loss_count = 0, pm_win_rate = None,
     pm_loss_rate = None, pm_gross_pnl = 0, pm_net_pnl = 0, pm_total_fees = 0, pm_total_slippage = 0,
     pm_average_trade = None, pm_average_win = None, pm_average_loss = None, pm_expectancy = None,
     pm_profit_factor = None, pm_sharpe_ratio = None, pm_sortino_ratio = None,
     pm_max_drawdown = None, pm_return_pct = None, pm_exposure = None, pm_equity_curve = []\<rparr>"

definition net_sum :: "closed_trade list \<Rightarrow> rat" where
  "net_sum ts = dsum (map ct_net_pnl ts)"

definition average :: "closed_trade list \<Rightarrow> rat option" where
  "average ts = (if ts = [] then None else Some (ddiv (net_sum ts) (of_nat (length ts))))"

definition trade_metrics :: "closed_trade list \<Rightarrow> performance_metrics \<Rightarrow> performance_metrics" where
  "trade_metrics trades m =
     (if trades = [] then m
      else let wins = filter is_win trades; losses = filter (\<lambda>t. \<not> is_win t) trades;
               gross_loss = dneg (net_sum losses)
        in m\<lparr>pm_win_count := int (length wins), pm_loss_count := int (length losses),
             pm_win_rate := Some (fdiv (of_nat (length wins)) (of_nat (length trades))),
             pm_loss_rate := Some (fdiv (of_nat (length losses)) (of_nat (length trades))),
             pm_gross_pnl := dsum (map ct_gross_pnl trades), pm_net_pnl := net_sum trades,
             pm_total_fees := dsum (map ct_fees trades),
             pm_total_slippage := dsum (map ct_slippage_cost trades),
             pm_average_trade := average trades, pm_average_win := average wins,
             pm_average_loss := average losses, pm_expectancy := average trades,
             pm_profit_factor :=
               (if 0 < gross_loss then Some (flt (ddiv (net_sum wins) gross_loss)) else None)\<rparr>)"

definition compute_metrics ::
  "closed_trade list \<Rightarrow> rat list \<Rightarrow> rat \<Rightarrow> string \<Rightarrow> int \<Rightarrow> int \<Rightarrow> performance_metrics" where
  "compute_metrics trades curve initial_capital timeframe bars_in_market total_bars =
     (let m0 = no_metrics\<lparr>pm_equity_curve := map flt curve, pm_trade_count := int (length trades)\<rparr>;
          m1 = trade_metrics trades m0;
          periods = dict_get BARS_PER_YEAR timeframe (365 * 24);
          m2 = (if curve = [] then m1
                else m1\<lparr>pm_max_drawdown := max_drawdown_of curve,
                        pm_sharpe_ratio := sharpe_ratio curve periods,
                        pm_sortino_ratio := sortino_ratio curve periods,
                        pm_return_pct := (if 0 < initial_capital
                          then Some (flt (ddiv (dsub (last curve) initial_capital) initial_capital))
                          else None)\<rparr>)
      in if 0 < total_bars
         then m2\<lparr>pm_exposure := Some (fdiv (of_int bars_in_market) (of_int total_bars))\<rparr> else m2)"

section \<open>Drawdown\<close>

lemma drawdown_scan_ge: "worst \<le> drawdown_scan peak worst vs"
proof (induction vs arbitrary: peak worst)
  case (Cons v vs)
  then show ?case by (simp add: Let_def) (meson max.cobounded1 order_trans)
qed simp

lemma drawdown_scan_le_one:
  "0 \<le> worst \<Longrightarrow> worst \<le> 1 \<Longrightarrow> dec peak = peak \<Longrightarrow> \<forall>v\<in>set vs. 0 \<le> v \<and> dec v = v \<Longrightarrow>
   drawdown_scan peak worst vs \<le> 1"
proof (induction vs arbitrary: peak worst)
  case (Cons v vs)
  let ?p = "max peak v"
  have v: "0 \<le> v" "dec v = v" and p: "dec ?p = ?p" using Cons.prems by (auto simp: max_def)
  have "ddiv (dsub ?p v) ?p \<le> 1" if "0 < ?p"
  proof -
    have "dsub ?p v \<le> ?p" unfolding dsub_def using v p by (intro dec.rd_le) auto
    then show ?thesis
      unfolding ddiv_def using that by (intro dec.rd_le_one) (simp add: divide_le_eq_1)
  qed
  moreover have "0 \<le> (if 0 < ?p then max worst (ddiv (dsub ?p v) ?p) else worst)"
    using Cons.prems(1) by auto
  ultimately show ?case
    using Cons.prems p by (auto simp: Let_def intro!: Cons.IH)
qed simp

text \<open>No drawdown means the curve never fell.\<close>

lemma drawdown_scan_zero:
  assumes "0 < peak"
  shows "drawdown_scan peak 0 vs \<le> 0 \<longleftrightarrow> sorted (peak # vs)"
  using assms
proof (induction vs arbitrary: peak)
  case (Cons v vs)
  show ?case
  proof (cases "peak \<le> v")
    case True
    then show ?thesis
      using Cons.prems Cons.IH [of v] order_trans [OF True] less_le_trans [OF Cons.prems True] by (auto simp: Let_def max_def dec_ops)
  next
    case False
    then have "0 < ddiv (dsub peak v) peak"
      using Cons.prems by (simp add: dec_ops dec.rd_pos_iff zero_less_divide_iff)
    also have "\<dots> \<le> drawdown_scan peak (max 0 (ddiv (dsub peak v) peak)) vs"
      using drawdown_scan_ge [of "max 0 (ddiv (dsub peak v) peak)" peak vs] by simp
    finally show ?thesis using False Cons.prems by (auto simp: Let_def max_def)
  qed
qed simp

lemma drawdown_scan_nonneg: "0 \<le> drawdown_scan peak 0 vs"
  using drawdown_scan_ge [of 0 peak vs] .

section \<open>Properties\<close>

text \<open>
  The reported maximum drawdown is a fraction between 0 and 1 and is 0 exactly when the
  equity curve never fell.
\<close>

theorem drawdown_meaning:
  assumes "2 \<le> length curve" "0 < hd curve" "\<forall>v \<in> set curve. 0 \<le> v \<and> dec v = v"
  shows "\<exists>d. max_drawdown_of curve = Some d \<and> 0 \<le> d \<and> d \<le> 1 \<and> (d = 0 \<longleftrightarrow> sorted curve)"
proof -
  obtain x xs where c: "curve = x # xs" using assms(1) by (cases curve) auto
  have x: "0 < x" "dec x = x" using assms c by auto
  have z: "drawdown_scan x 0 (x # xs) = drawdown_scan x 0 xs"
    using x by (simp add: Let_def dec_ops)
  have "drawdown_scan x 0 xs \<le> 1" using assms c by (intro drawdown_scan_le_one) auto
  moreover have "drawdown_scan x 0 xs = 0 \<longleftrightarrow> sorted curve"
    using drawdown_scan_zero [OF x(1), of xs] drawdown_scan_nonneg [of x xs] by (auto simp: c)
  ultimately show ?thesis
    using assms(1) drawdown_scan_nonneg [of x xs] c z
    by (auto simp: max_drawdown_of_def flt.rd_nonneg_iff flt.rd_zero_iff intro!: flt.rd_le_one)
qed

theorem drawdown_meaning_witness:
  "\<exists>d. max_drawdown_of [100, 120, 90] = Some d \<and> 0 \<le> d \<and> d \<le> 1 \<and> d \<noteq> 0"
  using drawdown_meaning [of "[100, 120, 90]"] by (auto simp: dec_fixed)

lemma net_loss_sign:
  "\<forall>t \<in> set ts. \<not> is_win t \<Longrightarrow> net_sum ts \<le> 0 \<and> (net_sum ts = 0 \<longleftrightarrow> (\<forall>t \<in> set ts. ct_net_pnl t = 0))"
proof (induction ts rule: rev_induct)
  case (snoc t ts)
  then have "ct_net_pnl t \<le> 0" "net_sum ts \<le> 0" by (auto simp: is_win_def)
  with snoc show ?case
    by (auto simp: net_sum_def dsum_snoc dadd_def dec.rd_nonpos_iff dec.rd_zero_iff
        add_nonpos_eq_0_iff)
qed (simp add: net_sum_def dsum_def)

text \<open>
  The trade statistics are consistent: wins and losses partition the trades, the rates
  are fractions, profit and expectancy are computed net of fees from the trades' net
  results, and a profit factor is reported exactly when some net loss was made.
\<close>

theorem trade_statistics:
  assumes "m = compute_metrics trades curve capital timeframe in_market bars" "trades \<noteq> []"
  shows "pm_trade_count m = int (length trades) \<and>
    pm_win_count m + pm_loss_count m = pm_trade_count m \<and>
    (\<exists>w l. pm_win_rate m = Some w \<and> pm_loss_rate m = Some l \<and> 0 \<le> w \<and> w \<le> 1 \<and> 0 \<le> l \<and> l \<le> 1) \<and>
    pm_net_pnl m = dsum (map ct_net_pnl trades) \<and>
    pm_expectancy m = Some (ddiv (pm_net_pnl m) (of_nat (length trades))) \<and>
    (pm_profit_factor m \<noteq> None \<longleftrightarrow> (\<exists>t \<in> set trades. ct_net_pnl t < 0))"
proof -
  let ?w = "filter is_win trades" and ?l = "filter (\<lambda>t. \<not> is_win t) trades"
  have rate: "0 \<le> fdiv (of_nat a) (of_nat b) \<and> fdiv (of_nat a) (of_nat b) \<le> 1" if "a \<le> b" for a b :: nat
    unfolding fdiv_def using that by (intro flt.rd_ratio) simp_all
  have "0 < dneg (net_sum ?l) \<longleftrightarrow> net_sum ?l \<noteq> 0"
    using net_loss_sign [of ?l] by (auto simp: dneg_def dec.rd_pos_iff)
  also have "\<dots> \<longleftrightarrow> (\<exists>t \<in> set trades. ct_net_pnl t < 0)"
    using net_loss_sign [of ?l] by (force simp: is_win_def)
  finally have pf: "0 < dneg (net_sum ?l) \<longleftrightarrow> (\<exists>t \<in> set trades. ct_net_pnl t < 0)" .
  have "length ?w + length ?l = length trades" by (rule sum_length_filter_compl)
  then show ?thesis
    using assms(2) rate [of "length ?w" "length trades"] rate [of "length ?l" "length trades"] pf
    by (simp add: assms(1) compute_metrics_def trade_metrics_def no_metrics_def average_def
        net_sum_def Let_def)
qed

definition sample_trade :: "rat \<Rightarrow> closed_trade" where
  "sample_trade net = (closed_trade_of sample_position ''BTC'' 110 0 0 1 TAKE_PROFIT)
     \<lparr>ct_net_pnl := net\<rparr>"

theorem trade_statistics_witness:
  "let m = compute_metrics [sample_trade 5, sample_trade (- 2)] [] 100 ''1h'' 0 0 in
   pm_trade_count m = 2 \<and> pm_profit_factor m \<noteq> None \<and>
   pm_win_count m + pm_loss_count m = pm_trade_count m"
  using trade_statistics [OF refl, of "[sample_trade 5, sample_trade (- 2)]" "[]" 100 "''1h''" 0 0]
  by (simp add: Let_def sample_trade_def)

end
