(* ===== verification/BacktestEngine.thy ===== *)
theory BacktestEngine
  imports Simulator BacktestMetrics
begin

text \<open>
  \<open>backtesting/engine.py\<close>: the replay of historical bars through the paper-trading engine.
  The strategy is the code's callback, a function of the bars seen so far; an exception
  raised on a bar ends the run. The disclosure texts of a result are not modelled.
\<close>

section \<open>Data\<close>

record historical_bar =
  hb_timestamp :: int
  hb_open :: rat
  hb_high :: rat
  hb_low :: rat
  hb_close :: rat
  hb_volume :: rat

record strategy_decision =
  sd_action :: string
  sd_stop_price :: "rat option"
  sd_take_profit :: "rat option"
  sd_trailing_distance :: "rat option"
  sd_reason :: string

type_synonym strategy = "historical_bar list \<Rightarrow> strategy_decision option"

record backtest_engine =
  be_symbol :: string
  be_timeframe :: string
  be_initial_capital :: rat
  be_fee_rate :: rat
  be_slippage_bps :: rat
  be_filters :: symbol_filters
  be_engine :: paper_engine

definition new_backtest ::
  "string \<Rightarrow> string \<Rightarrow> rat \<Rightarrow> risk_config \<Rightarrow> rat \<Rightarrow> rat \<Rightarrow> symbol_filters \<Rightarrow> backtest_engine" where
  "new_backtest s timeframe initial_capital risk fee_rate slippage_bps filters =
     \<lparr>be_symbol = s, be_timeframe = timeframe, be_initial_capital = initial_capital,
      be_fee_rate = fee_rate, be_slippage_bps = slippage_bps, be_filters = filters,
      be_engine = build_engine initial_capital risk fee_rate slippage_bps False\<rparr>"

record backtest_result =
  br_symbol :: string
  br_timeframe :: string
  br_initial_capital :: rat
  br_final_equity :: rat
  br_trades :: "closed_trade list"
  br_metrics :: performance_metrics
  br_bars_processed :: int
  br_risk_rejections :: int
  br_equity_curve :: "rat list"

section \<open>One bar\<close>

definition bt_apply ::
  "backtest_engine \<Rightarrow> paper_engine \<Rightarrow> strategy_decision \<Rightarrow> historical_bar \<Rightarrow> exn + paper_engine" where
  "bt_apply c e d b =
     (let s = be_symbol c; holding = has_key (pf_positions (pe_portfolio e)) s in
      if sd_action d = ''EXIT'' \<and> holding then
        map_sum id fst (sim_close_position e s (hb_close b) (hb_timestamp b)
          (if sd_reason d = '''' then STRATEGY_EXIT else OtherExit (sd_reason d)) (Some (be_filters c)))
      else if sd_action d \<noteq> ''BUY'' \<or> holding then Inr e
      else
        (let (e1, a) = evaluate_entry e s (hb_close b) (sd_stop_price d) (be_filters c)
               [(s, hb_close b)] (hb_timestamp b) (Some default_system) None None None
         in if \<not> approved a then Inr e1
            else map_sum id fst (sim_open_position e1 a s (hb_close b) (hb_timestamp b) (be_filters c)
              (sd_stop_price d) (sd_take_profit d) (sd_trailing_distance d) None None)))"

definition simulator_bar :: "string \<Rightarrow> historical_bar \<Rightarrow> bar" where
  "simulator_bar s b = \<lparr>bar_symbol = s, bar_timestamp = hb_timestamp b, bar_open = hb_open b,
     bar_high = hb_high b, bar_low = hb_low b, bar_close = hb_close b\<rparr>"

text \<open>One turn of the loop, given the bars seen before.\<close>

definition bt_step ::
  "backtest_engine \<Rightarrow> strategy \<Rightarrow> historical_bar list \<Rightarrow> paper_engine \<Rightarrow> historical_bar \<Rightarrow> exn + paper_engine" where
  "bt_step c strategy seen e b =
     (case process_bar e (simulator_bar (be_symbol c) b) (Some (be_filters c)) of
        Inl err \<Rightarrow> Inl err
      | Inr (e1, _) \<Rightarrow>
          map_sum id (\<lambda>e2. mark_peak e2 [(be_symbol c, hb_close b)])
            (case strategy (seen @ [b]) of None \<Rightarrow> Inr e1 | Some d \<Rightarrow> bt_apply c e1 d b))"

text \<open>The loop, with the equity curve and the number of bars spent in the market.\<close>

fun bt_loop ::
  "backtest_engine \<Rightarrow> strategy \<Rightarrow> historical_bar list \<Rightarrow> paper_engine \<times> rat list \<times> int
     \<Rightarrow> historical_bar list \<Rightarrow> exn + paper_engine \<times> rat list \<times> int" where
  "bt_loop c strategy seen (e, curve, n) [] = Inr (e, curve, n)"
| "bt_loop c strategy seen (e, curve, n) (b # bs) =
     (case bt_step c strategy seen e b of
        Inl err \<Rightarrow> Inl err
      | Inr e' \<Rightarrow>
          bt_loop c strategy (seen @ [b])
            (e', curve @ [equity (pe_portfolio e') [(be_symbol c, hb_close b)]],
             if has_key (pf_positions (pe_portfolio e')) (be_symbol c) then n + 1 else n) bs)"

definition bt_run :: "backtest_engine \<Rightarrow> historical_bar list \<Rightarrow> strategy \<Rightarrow> exn + backtest_result" where
  "bt_run c bars strategy =
     (if bars = [] then Inl ValueError
      else case bt_loop c strategy [] (be_engine c, [], 0) bars of
        Inl err \<Rightarrow> Inl err
      | Inr (e, curve, n) \<Rightarrow>
          (let final = last bars; prices = [(be_symbol c, hb_close final)] in
           case force_close_all e prices (hb_timestamp final) BACKTEST_END of
             Inl err \<Rightarrow> Inl err
           | Inr (e', _) \<Rightarrow>
               (let final_equity = equity (pe_portfolio e') prices;
                    curve' = (if curve = [] then curve else butlast curve @ [final_equity]);
                    trades = pf_closed_trades (pe_portfolio e')
                in Inr \<lparr>br_symbol = be_symbol c, br_timeframe = be_timeframe c,
                     br_initial_capital = be_initial_capital c, br_final_equity = final_equity,
                     br_trades = trades,
                     br_metrics = compute_metrics trades curve' (be_initial_capital c)
                       (be_timeframe c) n (int (length bars)),
                     br_bars_processed = int (length bars),
                     br_risk_rejections = pe_rejected_count e', br_equity_curve = curve'\<rparr>)))"

section \<open>A bar is a run of engine operations\<close>

lemma bt_apply_inv:
  assumes inv: "engine_inv e" and res: "bt_apply c e d b = Inr e'"
  shows "engine_inv e'"
proof -
  obtain e1 a where ev: "evaluate_entry e (be_symbol c) (hb_close b) (sd_stop_price d) (be_filters c)
      [(be_symbol c, hb_close b)] (hb_timestamp b) (Some default_system) None None None = (e1, a)"
    by (cases "evaluate_entry e (be_symbol c) (hb_close b) (sd_stop_price d) (be_filters c)
      [(be_symbol c, hb_close b)] (hb_timestamp b) (Some default_system) None None None")
  then have "engine_inv e1" using evaluate_entry_inv [OF inv] by (metis fst_conv)
  with inv res ev show ?thesis
    by (auto simp: bt_apply_def Let_def split: if_splits elim!: map_sum_Inr_cases
        intro: sim_close_inv sim_open_inv)
qed

lemma bt_step_inv:
  assumes "engine_inv e" "bt_step c strategy seen e b = Inr e'"
  shows "engine_inv e'"
proof -
  obtain e1 r where p: "process_bar e (simulator_bar (be_symbol c) b) (Some (be_filters c)) = Inr (e1, r)"
    using process_bar_total by blast
  have "engine_inv e1" using process_bar_inv [OF assms(1) p] .
  with p assms(2) show ?thesis
    by (auto simp: bt_step_def split: option.splits elim!: map_sum_Inr_cases
        intro: mark_peak_inv bt_apply_inv)
qed

section \<open>The loop\<close>

lemma bt_loop_append:
  "bt_loop c st seen s (xs @ ys) =
     (case bt_loop c st seen s xs of Inl err \<Rightarrow> Inl err | Inr s' \<Rightarrow> bt_loop c st (seen @ xs) s' ys)"
  by (induction c st seen s xs rule: bt_loop.induct) (auto split: sum.splits)

lemma bt_loop_cong:
  "\<forall>k < length bs. st (seen @ take (Suc k) bs) = st' (seen @ take (Suc k) bs) \<Longrightarrow>
   bt_loop c st seen s bs = bt_loop c st' seen s bs"
proof (induction bs arbitrary: seen s)
  case (Cons b bs)
  obtain e curve n where s: "s = (e, curve, n)" by (cases s)
  have "st (seen @ [b]) = st' (seen @ [b])" using Cons.prems by force
  moreover have "\<forall>k < length bs. st ((seen @ [b]) @ take (Suc k) bs) = st' ((seen @ [b]) @ take (Suc k) bs)"
    using Cons.prems by force
  ultimately show ?case
    using Cons.IH [of "seen @ [b]"] by (auto simp: s bt_step_def split: sum.splits)
qed (metis bt_loop.simps(1) prod_cases3)

lemma bt_loop_run:
  "bt_loop c st seen (e, curve, n) bs = Inr (e', curve', n') \<Longrightarrow> engine_inv e \<Longrightarrow>
   engine_inv e' \<and> n \<le> n' \<and> n' \<le> n + int (length bs)"
proof (induction bs arbitrary: seen e curve n)
  case (Cons b bs)
  from Cons.prems(1) obtain e1 where e1: "bt_step c st seen e b = Inr e1"
    by (cases "bt_step c st seen e b") simp_all
  with Cons.prems(1) have
    "bt_loop c st (seen @ [b]) (e1, curve @ [equity (pe_portfolio e1) [(be_symbol c, hb_close b)]],
       if has_key (pf_positions (pe_portfolio e1)) (be_symbol c) then n + 1 else n) bs = Inr (e', curve', n')"
    by simp
  from Cons.IH [OF this bt_step_inv [OF Cons.prems(2) e1]] show ?case by (auto split: if_splits)
qed simp

lemma bt_loop_curve:
  "bt_loop c st seen (e, curve, n) bs = Inr (e', curve', n') \<Longrightarrow>
   \<exists>cs. curve' = curve @ cs \<and> length cs = length bs"
proof (induction bs arbitrary: seen e curve n)
  case (Cons b bs)
  from Cons.prems show ?case by (cases "bt_step c st seen e b") (auto dest!: Cons.IH)
qed simp

lemma bt_run_cases:
  assumes "bt_run c bars st = Inr r"
  obtains e curve n e' ts where "bars \<noteq> []" "bt_loop c st [] (be_engine c, [], 0) bars = Inr (e, curve, n)"
    "force_close_all e [(be_symbol c, hb_close (last bars))] (hb_timestamp (last bars)) BACKTEST_END = Inr (e', ts)"
    "br_final_equity r = equity (pe_portfolio e') [(be_symbol c, hb_close (last bars))]"
    "br_equity_curve r = (if curve = [] then curve else butlast curve @ [br_final_equity r])"
    "br_trades r = pf_closed_trades (pe_portfolio e')"
    "br_metrics r = compute_metrics (br_trades r) (br_equity_curve r) (be_initial_capital c)
       (be_timeframe c) n (int (length bars))"
    "br_bars_processed r = int (length bars)"
  using assms
  by (auto simp: bt_run_def Let_def split: if_splits sum.splits prod.splits)

lemma equity_flat:
  "pf_positions (pe_portfolio e) = [] \<Longrightarrow> equity (pe_portfolio e) prices = dec (pf_quote_balance (pe_portfolio e))"
  by (simp add: equity_def positions_value_def dsum_def dadd_def)

text \<open>Only an entry can raise: a strategy that never buys always gets a result.\<close>

lemma bt_step_returns:
  assumes "\<And>bs d. st bs = Some d \<Longrightarrow> sd_action d \<noteq> ''BUY''"
  shows "\<exists>e'. bt_step c st seen e b = Inr e'"
proof -
  obtain e1 r where p: "process_bar e (simulator_bar (be_symbol c) b) (Some (be_filters c)) = Inr (e1, r)"
    using process_bar_total by blast
  show ?thesis
  proof (cases "st (seen @ [b])")
    case (Some d)
    have "\<exists>e2. bt_apply c e1 d b = Inr e2"
      using assms [OF Some] sim_close_total [of e1 "be_symbol c" "hb_close b" "hb_timestamp b"
          "if sd_reason d = '''' then STRATEGY_EXIT else OtherExit (sd_reason d)" "Some (be_filters c)"]
      by (auto simp: bt_apply_def Let_def)
    with p Some show ?thesis by (auto simp: bt_step_def)
  qed (simp add: bt_step_def p)
qed

lemma bt_loop_returns:
  assumes "\<And>bs d. st bs = Some d \<Longrightarrow> sd_action d \<noteq> ''BUY''"
  shows "\<exists>x. bt_loop c st seen (e, curve, n) bs = Inr x"
proof (induction bs arbitrary: seen e curve n)
  case (Cons b bs)
  obtain e' where "bt_step c st seen e b = Inr e'" using bt_step_returns assms by blast
  with Cons.IH show ?case by simp
qed simp

lemma bt_run_returns:
  assumes "engine_inv (be_engine c)" "bars \<noteq> []" "0 < hb_close (last bars)"
    "\<And>bs d. st bs = Some d \<Longrightarrow> sd_action d \<noteq> ''BUY''"
  shows "\<exists>r. bt_run c bars st = Inr r"
proof -
  obtain e curve n where loop: "bt_loop c st [] (be_engine c, [], 0) bars = Inr (e, curve, n)"
    using bt_loop_returns [of st] assms(4) by (metis prod_cases3)
  have "\<forall>kv \<in> set [(be_symbol c, hb_close (last bars))]. 0 < snd kv" using assms(3) by simp
  from close_each_all [OF conjunct1 [OF bt_loop_run [OF loop assms(1)]] refl this]
  obtain e' ts where "force_close_all e [(be_symbol c, hb_close (last bars))] (hb_timestamp (last bars))
      BACKTEST_END = Inr (e', ts)"
    unfolding force_close_all_def by blast
  with loop assms(2) show ?thesis by (simp add: bt_run_def Let_def)
qed

section \<open>Properties\<close>

text \<open>
  C9: no lookahead. Two runs whose bars agree on the first \<open>k\<close> and whose strategies agree
  on those prefixes have the same equity curve up to there, whatever follows: no later bar
  can influence an earlier decision, fill or valuation.
\<close>

theorem no_lookahead:
  assumes "take k bars = take k bars'" "k < length bars" "k < length bars'"
    "\<forall>j < k. st (take (Suc j) bars) = st' (take (Suc j) bars)"
    "bt_run c bars st = Inr r" "bt_run c bars' st' = Inr r'"
  shows "take k (br_equity_curve r) = take k (br_equity_curve r')"
proof -
  have prefix: "\<exists>e1 c1 n1 cs. bt_loop c s [] (be_engine c, [], 0) (take k bs) = Inr (e1, c1, n1) \<and>
      length c1 = k \<and> take k (br_equity_curve x) = c1"
    if run: "bt_run c bs s = Inr x" and k: "k < length bs" for s bs x
  proof (rule bt_run_cases [OF run])
    fix e curve n
    assume loop: "bt_loop c s [] (be_engine c, [], 0) bs = Inr (e, curve, n)"
      and curve: "br_equity_curve x = (if curve = [] then curve else butlast curve @ [br_final_equity x])"
    obtain e1 c1 n1 where p: "bt_loop c s [] (be_engine c, [], 0) (take k bs) = Inr (e1, c1, n1)"
      and q: "bt_loop c s (take k bs) (e1, c1, n1) (drop k bs) = Inr (e, curve, n)"
      using loop bt_loop_append [of c s "[]" "(be_engine c, [], 0)" "take k bs" "drop k bs"]
      by (auto split: sum.splits)
    have c1: "length c1 = k" using bt_loop_curve [OF p] k by simp
    obtain cs where cs: "curve = c1 @ cs" "length cs = length bs - k"
      using bt_loop_curve [OF q] k by auto
    then have "cs \<noteq> []" using k by auto
    then have "take k (br_equity_curve x) = c1" using cs c1 by (simp add: curve butlast_append)
    with p c1 show ?thesis by blast
  qed
  have "bt_loop c st [] (be_engine c, [], 0) (take k bars) = bt_loop c st' [] (be_engine c, [], 0) (take k bars)"
    using assms(2,4) by (intro bt_loop_cong) (auto simp: min_def)
  then show ?thesis
    using prefix [OF assms(5,2)] prefix [OF assms(6,3)] assms(1) by auto
qed

definition flat_bar :: "int \<Rightarrow> rat \<Rightarrow> historical_bar" where
  "flat_bar t p = \<lparr>hb_timestamp = t, hb_open = p, hb_high = p, hb_low = p, hb_close = p, hb_volume = 1\<rparr>"

definition sample_backtest :: backtest_engine where
  "sample_backtest = new_backtest ''BTC'' ''1h'' 1000 DEFAULT_RISK_CONFIG (1 / 1000) 5 no_filters"

definition late_exit :: strategy where
  "late_exit bars = (if length bars \<le> 1 then None
     else Some \<lparr>sd_action = ''EXIT'', sd_stop_price = None, sd_take_profit = None,
       sd_trailing_distance = None, sd_reason = ''''\<rparr>)"

lemma late_exit_action: "late_exit bs = Some d \<Longrightarrow> sd_action d \<noteq> ''BUY''"
  by (auto simp: late_exit_def split: if_splits)

lemma sample_run:
  assumes "bars \<noteq> []" "0 < hb_close (last bars)" "\<And>bs d. st bs = Some d \<Longrightarrow> sd_action d \<noteq> ''BUY''"
  shows "\<exists>r. bt_run sample_backtest bars st = Inr r"
proof (rule bt_run_returns [OF _ assms])
  show "engine_inv (be_engine sample_backtest)"
    by (simp add: sample_backtest_def new_backtest_def build_engine_inv)
qed

theorem no_lookahead_witness:
  "\<exists>r r'. bt_run sample_backtest [flat_bar 0 100, flat_bar 1 110] (\<lambda>_. None) = Inr r \<and>
     bt_run sample_backtest [flat_bar 0 100, flat_bar 1 50] late_exit = Inr r' \<and>
     take 1 (br_equity_curve r) = take 1 (br_equity_curve r')"
proof -
  obtain r where r: "bt_run sample_backtest [flat_bar 0 100, flat_bar 1 110] (\<lambda>_. None) = Inr r"
    using sample_run [of "[flat_bar 0 100, flat_bar 1 110]" "\<lambda>_. None"] by (auto simp: flat_bar_def)
  have "\<exists>r'. bt_run sample_backtest [flat_bar 0 100, flat_bar 1 50] late_exit = Inr r'"
    by (rule sample_run) (auto dest: late_exit_action simp: flat_bar_def)
  then obtain r' where r': "bt_run sample_backtest [flat_bar 0 100, flat_bar 1 50] late_exit = Inr r'" ..
  have "take 1 (br_equity_curve r) = take 1 (br_equity_curve r')"
    by (rule no_lookahead [OF _ _ _ _ r r']) (simp_all add: late_exit_def)
  with r r' show ?thesis by blast
qed

text \<open>
  A backtest that returns has closed its books. The curve has one value per bar and ends
  in the final equity, which is cash only and not negative; the trades, the net result and
  the time in the market reported are those of the engine it drove.
\<close>

theorem backtest_closes_books:
  assumes "c = new_backtest s timeframe capital risk fee bps f" "bt_run c bars st = Inr r"
    "0 \<le> capital" "0 \<le> fee" "fee \<le> 1 / 2" "0 \<le> bps" "bps \<le> 9999" "0 < hb_close (last bars)"
  shows "\<exists>e. engine_inv e \<and> pf_positions (pe_portfolio e) = [] \<and>
    br_final_equity r = dec (pf_quote_balance (pe_portfolio e)) \<and> 0 \<le> br_final_equity r \<and>
    br_trades r = pf_closed_trades (pe_portfolio e) \<and>
    (br_trades r \<noteq> [] \<longrightarrow> pm_net_pnl (br_metrics r) = pf_realised_pnl (pe_portfolio e)) \<and>
    length (br_equity_curve r) = length bars \<and> last (br_equity_curve r) = br_final_equity r \<and>
    (\<exists>x. pm_exposure (br_metrics r) = Some x \<and> 0 \<le> x \<and> x \<le> 1)"
  using assms(2)
proof (rule bt_run_cases)
  fix e curve n e' ts
  assume bars: "bars \<noteq> []" and loop: "bt_loop c st [] (be_engine c, [], 0) bars = Inr (e, curve, n)"
    and close: "force_close_all e [(be_symbol c, hb_close (last bars))] (hb_timestamp (last bars)) BACKTEST_END
      = Inr (e', ts)"
    and r: "br_final_equity r = equity (pe_portfolio e') [(be_symbol c, hb_close (last bars))]"
      "br_equity_curve r = (if curve = [] then curve else butlast curve @ [br_final_equity r])"
      "br_trades r = pf_closed_trades (pe_portfolio e')"
      "br_metrics r = compute_metrics (br_trades r) (br_equity_curve r) (be_initial_capital c)
         (be_timeframe c) n (int (length bars))"
  have "engine_inv (be_engine c)" using assms by (simp add: new_backtest_def build_engine_inv)
  note run = bt_loop_run [OF loop this]
  have curve: "length curve = length bars" using bt_loop_curve [OF loop] by auto
  then have ne: "curve \<noteq> []" using bars by auto
  have inv: "engine_inv e'"
    using close_each_inv run close unfolding force_close_all_def by blast
  have price: "\<forall>kv \<in> set [(be_symbol c, hb_close (last bars))]. 0 < snd kv" using assms(8) by simp
  have flat: "pf_positions (pe_portfolio e') = []"
    using close_each_all [OF conjunct1 [OF run] refl price, of "hb_timestamp (last bars)" BACKTEST_END "[]"]
      close by (auto simp: force_close_all_def)
  have eq: "br_final_equity r = dec (pf_quote_balance (pe_portfolio e'))"
    using equity_flat [OF flat] r(1) by simp
  have "0 \<le> br_final_equity r"
    using inv by (simp add: eq dec.rd_nonneg_iff engine_inv_def portfolio_inv_def)
  moreover have "0 \<le> fdiv (of_int n) (of_nat (length bars)) \<and> fdiv (of_int n) (of_nat (length bars)) \<le> 1"
    unfolding fdiv_def using run by (intro flt.rd_ratio) auto
  then have "\<exists>x. pm_exposure (br_metrics r) = Some x \<and> 0 \<le> x \<and> x \<le> 1"
    using bars by (simp add: r(4) compute_metrics_def Let_def)
  moreover have "pm_net_pnl (br_metrics r) = pf_realised_pnl (pe_portfolio e')" if "br_trades r \<noteq> []"
    using inv that r(3)
    by (simp add: r(4) compute_metrics_def trade_metrics_def net_sum_def Let_def engine_inv_def
        portfolio_inv_def)
  moreover have "length (br_equity_curve r) = length bars" "last (br_equity_curve r) = br_final_equity r"
    using curve bars ne by (simp_all add: r(2))
  ultimately show ?thesis using inv flat eq r(3) by blast
qed

theorem backtest_closes_books_witness:
  "\<exists>r. bt_run sample_backtest [flat_bar 0 100, flat_bar 1 110] (\<lambda>_. None) = Inr r \<and>
     0 \<le> br_final_equity r \<and> length (br_equity_curve r) = 2"
proof -
  obtain r where r: "bt_run sample_backtest [flat_bar 0 100, flat_bar 1 110] (\<lambda>_. None) = Inr r"
    using sample_run [of "[flat_bar 0 100, flat_bar 1 110]" "\<lambda>_. None"] by (auto simp: flat_bar_def)
  from backtest_closes_books [OF sample_backtest_def r] r show ?thesis
    by (auto simp: flat_bar_def)
qed

end
