(* ===== verification/ExchangeMetadata.thy ===== *)
theory ExchangeMetadata
  imports Json
begin

text \<open>
  \<open>binance/exchange_metadata.py\<close>: reading a symbol's rules from the decoded \<open>exchangeInfo\<close>
  and the table of symbols; and \<open>binance/filters.py\<close>, the filters used when the table is not
  available. A \<open>BinanceRequestError\<close> is \<open>BinanceException\<close>; the time of a load is an argument.
\<close>

section \<open>Reading values\<close>

text \<open>Iterating \<open>payload.get(key, []) or []\<close>; \<open>None\<close> when the value is not iterable.\<close>

fun py_iter :: "json \<Rightarrow> json list option" where
  "py_iter (JList xs) = Some xs"
| "py_iter (JStr s) = Some (map (\<lambda>c. JStr [c]) s)"
| "py_iter (JObj d) = Some (map (\<lambda>kv. JStr (fst kv)) d)"
| "py_iter v = (if py_bool v then None else Some [])"

definition get_list :: "payload \<Rightarrow> string \<Rightarrow> json list option" where
  "get_list p k = py_iter (dict_get p k (JList []))"

definition pos_decimal :: "json option \<Rightarrow> rat option" where
  "pos_decimal v = (case v of None \<Rightarrow> None
     | Some j \<Rightarrow> (case decimal_str j of Some x \<Rightarrow> if 0 < x then Some x else None | None \<Rightarrow> None))"

section \<open>A symbol's filters\<close>

text \<open>The entries of \<open>filters\<close> by type; a later entry of a type replaces an earlier one.\<close>

fun by_type :: "json list \<Rightarrow> (string, payload) dict \<Rightarrow> (string, payload) dict" where
  "by_type [] d = d"
| "by_type (JObj e # es) d =
     by_type es (case map_of e ''filterType'' of None \<Rightarrow> d | Some t \<Rightarrow> AList.update (py_str t) e d)"
| "by_type (_ # es) d = by_type es d"

text \<open>\<open>by_type.get("NOTIONAL") or by_type.get("MIN_NOTIONAL") or {}\<close>.\<close>

definition notional_entry :: "(string, payload) dict \<Rightarrow> payload" where
  "notional_entry d = (let n = dict_get d ''NOTIONAL'' [] in if n \<noteq> [] then n else dict_get d ''MIN_NOTIONAL'' [])"

definition min_notional_of :: "payload \<Rightarrow> json option" where
  "min_notional_of n = (case map_of n ''minNotional'' of
     Some v \<Rightarrow> if py_bool v then Some v else map_of n ''notional''
   | None \<Rightarrow> map_of n ''notional'')"

definition filters_of_entries :: "json list \<Rightarrow> symbol_filters" where
  "filters_of_entries entries =
     (let d = by_type entries []; price = dict_get d ''PRICE_FILTER'' []; lot = dict_get d ''LOT_SIZE'' [];
          n = notional_entry d
      in \<lparr>min_price = pos_decimal (map_of price ''minPrice''),
          max_price = pos_decimal (map_of price ''maxPrice''),
          tick_size = pos_decimal (map_of price ''tickSize''),
          min_qty = pos_decimal (map_of lot ''minQty''),
          max_qty = pos_decimal (map_of lot ''maxQty''),
          step_size = pos_decimal (map_of lot ''stepSize''),
          min_notional = pos_decimal (min_notional_of n),
          apply_min_to_market =
            py_bool (dict_get n ''applyMinToMarket'' (dict_get n ''applyToMarket'' (JBool True)))\<rparr>)"

definition from_symbol_payload :: "payload \<Rightarrow> symbol_filters option" where
  "from_symbol_payload p = map_option filters_of_entries (get_list p ''filters'')"

section \<open>A symbol\<close>

record symbol_info =
  si_symbol :: string
  si_base_asset :: string
  si_quote_asset :: string
  si_status :: string
  si_base_precision :: int
  si_quote_precision :: int
  si_is_spot_trading_allowed :: bool
  si_order_types :: "string list"
  si_filters :: symbol_filters
  si_raw_filters :: "json list"

definition tradable :: "symbol_info \<Rightarrow> bool" where
  "tradable i \<longleftrightarrow> si_status i = ''TRADING'' \<and> si_is_spot_trading_allowed i"

text \<open>\<open>None\<close> when the payload is unparsable, which the code turns into an exchange error.\<close>

definition from_payload :: "payload \<Rightarrow> symbol_info option" where
  "from_payload p =
     (case (map_of p ''symbol'', map_of p ''baseAsset'', map_of p ''quoteAsset'') of
        (Some s, Some b, Some q) \<Rightarrow>
          (case (py_int (dict_get p ''baseAssetPrecision'' (JInt 8)),
                 py_int (dict_get p ''quoteAssetPrecision'' (JInt 8)),
                 get_list p ''orderTypes'', from_symbol_payload p, get_list p ''filters'') of
             (Some bp, Some qp, Some types, Some fs, Some raw) \<Rightarrow>
               Some \<lparr>si_symbol = upper (py_str s), si_base_asset = upper (py_str b),
                 si_quote_asset = upper (py_str q),
                 si_status = upper (py_str (dict_get p ''status'' (JStr ''UNKNOWN''))),
                 si_base_precision = bp, si_quote_precision = qp,
                 si_is_spot_trading_allowed = py_bool (dict_get p ''isSpotTradingAllowed'' (JBool False)),
                 si_order_types = map py_str types, si_filters = fs, si_raw_filters = raw\<rparr>
           | _ \<Rightarrow> None)
      | _ \<Rightarrow> None)"

section \<open>The table of symbols\<close>

record exchange_metadata =
  em_symbols :: "(string, symbol_info) dict"
  em_loaded_at :: "int option"

definition new_metadata :: exchange_metadata where
  "new_metadata = \<lparr>em_symbols = [], em_loaded_at = None\<rparr>"

fun parse_symbols :: "json list \<Rightarrow> symbol_info list option" where
  "parse_symbols [] = Some []"
| "parse_symbols (JObj e # es) =
     (case from_payload e of None \<Rightarrow> None | Some i \<Rightarrow> map_option (Cons i) (parse_symbols es))"
| "parse_symbols (_ # es) = parse_symbols es"

definition index_symbols :: "symbol_info list \<Rightarrow> (string, symbol_info) dict" where
  "index_symbols infos = foldl (\<lambda>d i. AList.update (si_symbol i) i d) [] infos"

definition em_load :: "exchange_metadata \<Rightarrow> payload \<Rightarrow> int \<Rightarrow> exn + exchange_metadata \<times> symbol_info list" where
  "em_load m p now =
     (case get_list p ''symbols'' of
        None \<Rightarrow> Inl TypeError
      | Some es \<Rightarrow> (case parse_symbols es of
            None \<Rightarrow> Inl BinanceException
          | Some infos \<Rightarrow> Inr (m\<lparr>em_symbols := index_symbols infos, em_loaded_at := Some now\<rparr>, infos)))"

definition em_get :: "exchange_metadata \<Rightarrow> string \<Rightarrow> exn + symbol_info" where
  "em_get m s = (case map_of (em_symbols m) (upper s) of None \<Rightarrow> Inl BinanceException | Some i \<Rightarrow> Inr i)"

definition em_has :: "exchange_metadata \<Rightarrow> string \<Rightarrow> bool" where
  "em_has m s \<longleftrightarrow> has_key (em_symbols m) (upper s)"

definition em_all :: "exchange_metadata \<Rightarrow> symbol_info list" where
  "em_all m = vals (em_symbols m)"

definition em_is_loaded :: "exchange_metadata \<Rightarrow> bool" where
  "em_is_loaded m \<longleftrightarrow> em_symbols m \<noteq> []"

section \<open>Filters with a fallback\<close>

datatype filters_source = LiveMetadata | DefaultNoConstraint

definition resolve_symbol_filters :: "exchange_metadata option \<Rightarrow> string \<Rightarrow> symbol_filters \<times> filters_source" where
  "resolve_symbol_filters service s =
     (case service of
        None \<Rightarrow> (no_filters, DefaultNoConstraint)
      | Some m \<Rightarrow> (case map_of (em_symbols m) (upper s) of
            None \<Rightarrow> (no_filters, DefaultNoConstraint)
          | Some i \<Rightarrow> (si_filters i, LiveMetadata)))"

section \<open>What a table holds\<close>

text \<open>Declared bounds only: none is zero or negative.\<close>

definition bound_ok :: "rat option \<Rightarrow> bool" where
  "bound_ok b \<longleftrightarrow> (case b of None \<Rightarrow> True | Some x \<Rightarrow> 0 < x)"

definition filters_ok :: "symbol_filters \<Rightarrow> bool" where
  "filters_ok f \<longleftrightarrow> list_all bound_ok [min_price f, max_price f, tick_size f, min_qty f, max_qty f,
     step_size f, min_notional f]"

lemma pos_decimal_ok [simp]: "bound_ok (pos_decimal v)"
  by (auto simp: pos_decimal_def bound_ok_def split: option.splits)

lemma filters_of_entries_ok: "filters_ok (filters_of_entries es)"
  by (simp add: filters_of_entries_def filters_ok_def Let_def)

lemma no_filters_ok: "filters_ok no_filters"
  by (simp add: filters_ok_def no_filters_def bound_ok_def)

lemma upper_char_idem [simp]: "upper_char (upper_char c) = upper_char c"
proof (cases "(97::nat) \<le> of_char c \<and> of_char c \<le> (122::nat)")
  case True
  then have "(of_char c - (32 :: nat)) mod 256 = of_char c - 32" by (intro mod_less) linarith
  moreover have "\<not> (97::nat) \<le> of_char c - 32" using True by linarith
  ultimately show ?thesis using True by (simp add: upper_char_def)
next
  case False
  then have "upper_char c = c" unfolding upper_char_def by (rule if_not_P)
  then show ?thesis by simp
qed

lemma upper_idem [simp]: "upper (upper s) = upper s"
  by (simp add: upper_def)

definition info_ok :: "symbol_info \<Rightarrow> bool" where
  "info_ok i \<longleftrightarrow> filters_ok (si_filters i) \<and> upper (si_symbol i) = si_symbol i"

lemma from_payload_ok: "from_payload p = Some i \<Longrightarrow> info_ok i"
  by (auto simp: from_payload_def from_symbol_payload_def info_ok_def filters_of_entries_ok
      split: option.splits)

lemma parse_symbols_ok: "parse_symbols es = Some infos \<Longrightarrow> \<forall>i \<in> set infos. info_ok i"
  by (induction es arbitrary: infos rule: parse_symbols.induct)
    (auto split: option.splits dest: from_payload_ok)

definition last_named :: "string \<Rightarrow> symbol_info list \<Rightarrow> symbol_info option" where
  "last_named s infos = map_of (rev (map (\<lambda>i. (si_symbol i, i)) infos)) s"

lemma index_symbols_lookup: "map_of (index_symbols infos) s = last_named s infos"
proof (induction infos rule: rev_induct)
  case (snoc i infos)
  then show ?case by (simp add: index_symbols_def last_named_def dict_simps)
qed (simp add: index_symbols_def last_named_def)

lemma last_named_mem: "last_named s infos = Some i \<Longrightarrow> i \<in> set infos \<and> si_symbol i = s"
  unfolding last_named_def by (drule map_of_SomeD) auto

text \<open>The states a table goes through: loads that succeed, from the empty table.\<close>

inductive loaded :: "exchange_metadata \<Rightarrow> bool" where
  fresh: "loaded new_metadata"
| reload: "loaded m \<Longrightarrow> em_load m p now = Inr (m', infos) \<Longrightarrow> loaded m'"

lemma loaded_entries:
  "loaded m \<Longrightarrow> map_of (em_symbols m) s = Some i \<Longrightarrow> info_ok i \<and> si_symbol i = s"
proof (induction rule: loaded.induct)
  case (reload m p now m' infos)
  then obtain es where "parse_symbols es = Some infos" "em_symbols m' = index_symbols infos"
    by (auto simp: em_load_def split: option.splits)
  with reload.prems show ?case
    using parse_symbols_ok last_named_mem by (fastforce simp: index_symbols_lookup)
qed (simp add: new_metadata_def)

section \<open>Properties\<close>

text \<open>
  After a load, looking a symbol up in any letter case finds the last entry the exchange
  listed under that name, and fails exactly when there is none; \<open>has\<close> agrees with it. Nothing
  of the earlier table survives.
\<close>

theorem metadata_lookup:
  assumes "em_load m p now = Inr (m', infos)"
  shows "em_get m' s = (case last_named (upper s) infos of None \<Rightarrow> Inl BinanceException | Some i \<Rightarrow> Inr i) \<and>
    (em_has m' s \<longleftrightarrow> (\<exists>i \<in> set infos. si_symbol i = upper s)) \<and> em_get m' (upper s) = em_get m' s"
proof -
  have t: "em_symbols m' = index_symbols infos"
    using assms by (auto simp: em_load_def split: option.splits)
  have "last_named (upper s) infos = None \<longleftrightarrow> (\<forall>i \<in> set infos. si_symbol i \<noteq> upper s)"
    unfolding last_named_def by (force simp: map_of_eq_None_iff)
  then show ?thesis by (auto simp: em_get_def em_has_def has_key_def t index_symbols_lookup)
qed

definition sample_symbol :: payload where
  "sample_symbol = [(''symbol'', JStr ''ETHUSDT''), (''baseAsset'', JStr ''ETH''), (''quoteAsset'', JStr ''USDT''),
     (''status'', JStr ''TRADING''), (''isSpotTradingAllowed'', JBool True),
     (''filters'', JList [JObj [(''filterType'', JStr ''LOT_SIZE''), (''minQty'', JStr ''0.0001''),
        (''maxQty'', JStr ''0''), (''stepSize'', JStr ''1e-4'')]])]"

theorem metadata_lookup_witness:
  "\<exists>m' infos i. em_load new_metadata [(''symbols'', JList [JObj sample_symbol])] 7 = Inr (m', infos) \<and>
     em_get m' ''ethusdt'' = Inr i \<and> step_size (si_filters i) = Some (1 / 10000) \<and>
     max_qty (si_filters i) = None \<and> \<not> em_has m' ''BTCUSDT''"
proof -
  let ?r = "em_load new_metadata [(''symbols'', JList [JObj sample_symbol])] 7"
  have "case ?r of Inr (m', infos) \<Rightarrow> length infos = 1 \<and> si_symbol (hd infos) = ''ETHUSDT'' \<and>
      step_size (si_filters (hd infos)) = Some (1 / 10000) \<and> max_qty (si_filters (hd infos)) = None
    | _ \<Rightarrow> False" by code_simp
  then obtain m' i where l: "?r = Inr (m', [i])"
    and i: "si_symbol i = ''ETHUSDT''" "step_size (si_filters i) = Some (1 / 10000)" "max_qty (si_filters i) = None"
    by (cases ?r) (auto simp: length_Suc_conv)
  have u: "upper ''ethusdt'' = ''ETHUSDT''" "upper ''BTCUSDT'' = ''BTCUSDT''" by code_simp+
  show ?thesis
    using metadata_lookup [OF l, of "''ethusdt''"] metadata_lookup [OF l, of "''BTCUSDT''"] l i
    by (auto simp: u last_named_def)
qed

text \<open>
  Whatever the exchange has sent, the filters sizing works with constrain by strictly
  positive bounds only, and without an entry for the symbol they constrain nothing and say so.
\<close>

theorem resolved_filters_sound:
  assumes "\<forall>m. service = Some m \<longrightarrow> loaded m" "resolve_symbol_filters service s = (f, src)"
  shows "filters_ok f \<and>
    (src = DefaultNoConstraint \<longleftrightarrow> (\<forall>m. service = Some m \<longrightarrow> \<not> em_has m s)) \<and>
    (src = DefaultNoConstraint \<longrightarrow> f = no_filters)"
  using assms loaded_entries
  by (auto simp: resolve_symbol_filters_def em_has_def has_key_def no_filters_ok info_ok_def
      split: option.splits)

theorem resolved_filters_sound_witness:
  "filters_ok no_filters \<and> resolve_symbol_filters (Some new_metadata) ''BTCUSDT'' = (no_filters, DefaultNoConstraint)"
proof -
  have r: "resolve_symbol_filters (Some new_metadata) ''BTCUSDT'' = (no_filters, DefaultNoConstraint)"
    by (simp add: resolve_symbol_filters_def new_metadata_def)
  with resolved_filters_sound [OF _ r] loaded.fresh show ?thesis by simp
qed

end
