(* ===== verification/BacktestService.thy ===== *)
theory BacktestService
  imports BacktestEngine Fusion ExchangeMetadata Market
begin

text \<open>
  \<open>backtesting/service.py\<close>: the reference strategy, and a backtest from the stored candles and
  features to the stored run. The tables are arguments; what a run commits is part of the
  result. A text longer than its column makes PostgreSQL refuse the commit, the length of
  \<open>exit_reason\<close> being declared in \<open>models/backtesting.py\<close>.
\<close>

section \<open>The reference strategy\<close>

text \<open>\<open>",".join(codes)\<close>.\<close>

fun join_codes :: "string list \<Rightarrow> string" where
  "join_codes [] = ''''"
| "join_codes [c] = c"
| "join_codes (c # cs) = c @ '','' @ join_codes cs"

definition technical_component :: "features \<Rightarrow> rat \<Rightarrow> component_score" where
  "technical_component f weight =
     (case compute_technical_score f of (score, confidence, details) \<Rightarrow>
        \<lparr>cs_kind = TECHNICAL, cs_score = score, cs_weight = weight, cs_confidence = confidence,
         cs_version = TECHNICAL_SCORE_VERSION, cs_active = True, cs_details = TechnicalDetails details\<rparr>)"

text \<open>\<open>features.get("atr_14")\<close> is a number or missing.\<close>

definition make_strategy ::
  "(int, features) dict \<Rightarrow> rat \<Rightarrow> rat \<Rightarrow> rat \<Rightarrow> rat \<Rightarrow> strategy" where
  "make_strategy features_by_time min_confidence action_margin stop_mult reward_mult bars =
     (case map_of features_by_time (hb_timestamp (last bars)) of
        None \<Rightarrow> None
      | Some f \<Rightarrow>
          (let result = fuse [technical_component f 1] min_confidence action_margin;
               reason = join_codes (fr_reason_codes result); close = hb_close (last bars)
           in if fr_action result = ActBUY then
                (case Option.bind (map_of f ''atr_14'') decimal_str of
                   None \<Rightarrow> None
                 | Some atr \<Rightarrow>
                     if atr \<le> 0 then None
                     else let stop = dsub close (dmul atr stop_mult) in
                       if stop \<le> 0 then None
                       else Some \<lparr>sd_action = ''BUY'', sd_stop_price = Some stop,
                              sd_take_profit = Some (dadd close (dmul atr reward_mult)),
                              sd_trailing_distance = None, sd_reason = reason\<rparr>)
              else if fr_action result \<in> {ActSELL, ActEXIT} then
                Some \<lparr>sd_action = ''EXIT'', sd_stop_price = None, sd_take_profit = None,
                       sd_trailing_distance = None, sd_reason = reason\<rparr>
              else None))"

section \<open>Stored runs\<close>

record backtest_trade =
  bk_symbol :: string
  bk_side :: string
  bk_quantity :: rat
  bk_entry_time :: int
  bk_entry_price :: rat
  bk_exit_time :: int
  bk_exit_price :: rat
  bk_gross_pnl :: rat
  bk_fees :: rat
  bk_slippage_cost :: rat
  bk_net_pnl :: rat
  bk_return_pct :: rat
  bk_mae :: "rat option"
  bk_mfe :: "rat option"
  bk_exit_reason :: string

fun exit_reason_value :: "exit_reason \<Rightarrow> string" where
  "exit_reason_value STOP_LOSS = ''STOP_LOSS''"
| "exit_reason_value TAKE_PROFIT = ''TAKE_PROFIT''"
| "exit_reason_value FORCED_EXIT = ''FORCED_EXIT''"
| "exit_reason_value BACKTEST_END = ''BACKTEST_END''"
| "exit_reason_value STRATEGY_EXIT = ''STRATEGY_EXIT''"
| "exit_reason_value (OtherExit s) = s"

definition backtest_trade_of :: "closed_trade \<Rightarrow> backtest_trade" where
  "backtest_trade_of t = \<lparr>bk_symbol = ct_symbol t, bk_side = ''BUY'', bk_quantity = ct_quantity t,
     bk_entry_time = ct_entry_time t, bk_entry_price = ct_entry_price t, bk_exit_time = ct_exit_time t,
     bk_exit_price = ct_exit_price t, bk_gross_pnl = ct_gross_pnl t, bk_fees = ct_fees t,
     bk_slippage_cost = ct_slippage_cost t, bk_net_pnl = ct_net_pnl t, bk_return_pct = ct_return_pct t,
     bk_mae = ct_mae t, bk_mfe = ct_mfe t, bk_exit_reason = exit_reason_value (ct_exit_reason t)\<rparr>"

datatype run_status = RunFAILED | RunCOMPLETED

record backtest_run =
  bu_job_id :: string
  bu_status :: run_status
  bu_symbols :: "string list"
  bu_timeframe :: string
  bu_range_start :: int
  bu_range_end :: int
  bu_initial_capital :: rat
  bu_maker_fee :: rat
  bu_taker_fee :: rat
  bu_slippage_bps :: rat
  bu_strategy_version :: string
  bu_feature_version :: "string option"
  bu_config :: "(rat \<times> rat \<times> rat \<times> rat) option"
  bu_metrics :: "performance_metrics option"
  bu_filters_source :: "filters_source option"
  bu_started_at :: int
  bu_finished_at :: int
  bu_error :: "exn option"
  bu_trades :: "backtest_trade list"

definition historical_bar_of :: "candle \<Rightarrow> historical_bar" where
  "historical_bar_of c = \<lparr>hb_timestamp = cd_open_time c, hb_open = cd_open c, hb_high = cd_high c,
     hb_low = cd_low c, hb_close = cd_close c, hb_volume = cd_volume c\<rparr>"

definition features_by_time_of :: "feature_row list \<Rightarrow> (int, features) dict" where
  "features_by_time_of rows = foldl (\<lambda>d r. AList.update (ft_open_time r) (ft_features r) d) [] rows"

text \<open>The engine and the strategy a request builds from the settings.\<close>

definition backtest_of :: "settings \<Rightarrow> symbol_filters \<Rightarrow> string \<Rightarrow> string \<Rightarrow> backtest_engine" where
  "backtest_of st filters s tf =
     (let bt = st_backtesting st in
      new_backtest s tf (decimal_of_float (bt_initial_capital bt)) (st_risk st)
        (decimal_of_float (bt_taker_fee bt)) (decimal_of_float (bt_slippage_bps bt)) filters)"

definition strategy_of :: "settings \<Rightarrow> feature_row list \<Rightarrow> strategy" where
  "strategy_of st rows =
     make_strategy (features_by_time_of rows) (mc_fusion_min_confidence (st_models st))
       (mc_fusion_action_margin (st_models st))
       (decimal_of_float (bt_atr_stop_multiplier (st_backtesting st)))
       (decimal_of_float (bt_atr_reward_multiplier (st_backtesting st)))"

definition base_run ::
  "settings \<Rightarrow> string \<Rightarrow> string \<Rightarrow> int \<Rightarrow> int \<Rightarrow> string \<Rightarrow> int \<Rightarrow> int \<Rightarrow> backtest_run" where
  "base_run st s tf range_start range_end job started finished =
     (let bt = st_backtesting st in
      \<lparr>bu_job_id = job, bu_status = RunFAILED, bu_symbols = [s], bu_timeframe = tf,
       bu_range_start = range_start, bu_range_end = range_end,
       bu_initial_capital = decimal_of_float (bt_initial_capital bt),
       bu_maker_fee = decimal_of_float (bt_maker_fee bt), bu_taker_fee = decimal_of_float (bt_taker_fee bt),
       bu_slippage_bps = decimal_of_float (bt_slippage_bps bt),
       bu_strategy_version = mc_strategy_version (st_models st), bu_feature_version = None,
       bu_config = None, bu_metrics = None, bu_filters_source = None, bu_started_at = started,
       bu_finished_at = finished, bu_error = None, bu_trades = []\<rparr>)"

definition completed_run :: "settings \<Rightarrow> filters_source \<Rightarrow> backtest_result \<Rightarrow> backtest_run \<Rightarrow> backtest_run" where
  "completed_run st src r run =
     run\<lparr>bu_status := RunCOMPLETED, bu_feature_version := Some (mc_feature_version (st_models st)),
       bu_config := Some (bt_atr_stop_multiplier (st_backtesting st), bt_atr_reward_multiplier (st_backtesting st),
         mc_fusion_min_confidence (st_models st), mc_fusion_action_margin (st_models st)),
       bu_metrics := Some (br_metrics r), bu_filters_source := Some src,
       bu_trades := map backtest_trade_of (br_trades r)\<rparr>"

text \<open>\<open>exit_reason: String(32)\<close>.\<close>

definition EXIT_REASON_LENGTH :: nat where "EXIT_REASON_LENGTH = 32"

definition storable :: "backtest_run \<Rightarrow> bool" where
  "storable run \<longleftrightarrow> list_all (\<lambda>t. length (bk_exit_reason t) \<le> EXIT_REASON_LENGTH) (bu_trades run)"

text \<open>What is committed, and what the call returns or raises.\<close>

definition run_backtest ::
  "settings \<Rightarrow> candle list \<Rightarrow> feature_row list \<Rightarrow> exchange_metadata option \<Rightarrow> string \<Rightarrow> string \<Rightarrow> int \<Rightarrow> int
     \<Rightarrow> string \<Rightarrow> int \<Rightarrow> int \<Rightarrow> backtest_run option \<times> (exn + backtest_run)" where
  "run_backtest st candles features service s tf range_start range_end job started finished =
     (if range_end \<le> range_start then (None, Inl ValidationError)
      else let rows = closed_in_range candles s tf range_start range_end in
        if length rows < 2 \<or> bt_max_bars (st_backtesting st) < int (length rows) then (None, Inl ValidationError)
        else
          (case resolve_symbol_filters service s of (filters, src) \<Rightarrow>
            (let feats = features_in_range features s tf (mc_feature_version (st_models st)) range_start range_end;
                 base = base_run st s tf range_start range_end job started finished
             in case bt_run (backtest_of st filters s tf) (map historical_bar_of rows) (strategy_of st feats) of
                  Inl err \<Rightarrow> (Some (base\<lparr>bu_error := Some err\<rparr>), Inl err)
                | Inr r \<Rightarrow>
                    (let run = completed_run st src r base in
                     if storable run then (Some run, Inr run) else (None, Inl DatabaseError)))))"

section \<open>When the reference strategy acts\<close>

lemma clamp_flt: "flt (clamp 0 1 (flt x)) = clamp 0 1 (flt x)"
  by (simp add: clamp_def max_def min_def)

lemma technical_score_flt: "compute_technical_score f = (s, c, d) \<Longrightarrow> flt s = s \<and> flt c = c"
proof (cases "available (subsignals f) = []")
  case True
  moreover assume "compute_technical_score f = (s, c, d)"
  ultimately have "s = 1 / 2" "c = 0" by (auto simp: compute_technical_score_def Let_def)
  then show ?thesis by (simp only: flt_half) simp
qed (auto simp: compute_technical_score_def Let_def fdiv_def fmul_def clamp_flt)

lemma fuse_technical:
  assumes "compute_technical_score f = (s, c, d)"
  shows "fuse [technical_component f 1] mc mg =
    (let lean = (if 1 / 2 < s then ''BULLISH'' else if s < 1 / 2 then ''BEARISH'' else ''NEUTRAL'');
         code = ''COMPONENT_TECHNICAL_'' @ lean;
         res = (\<lambda>a cs. \<lparr>fr_action = a, fr_score = s, fr_confidence = c, fr_reason_codes = cs @ [code],
                        fr_components = [technical_component f 1]\<rparr>)
     in if c < mc then res ActWAIT [''LOW_CONFIDENCE'']
        else if \<bar>fsub s (1 / 2)\<bar> < mg then res ActWAIT [''NEAR_NEUTRAL'']
        else if 0 < fsub s (1 / 2) then res ActBUY [''THRESHOLD_BUY'']
        else res ActSELL [''THRESHOLD_SELL''])"
  using technical_score_flt [OF assms]
  by (simp add: fuse_def technical_component_def assms weighted_def fsum_def fadd_def fmul_def fdiv_def
      lean_code_def Let_def)

lemma strategy_cases:
  assumes "make_strategy feats mc mg sm rm bars = Some d"
  obtains (buy) f s c det atr where "map_of feats (hb_timestamp (last bars)) = Some f"
    "compute_technical_score f = (s, c, det)" "mc \<le> c" "mg \<le> \<bar>fsub s (1 / 2)\<bar>" "0 < fsub s (1 / 2)"
    "Option.bind (map_of f ''atr_14'') decimal_str = Some atr" "0 < atr"
    "0 < dsub (hb_close (last bars)) (dmul atr sm)"
    "sd_action d = ''BUY''" "sd_stop_price d = Some (dsub (hb_close (last bars)) (dmul atr sm))"
    "sd_take_profit d = Some (dadd (hb_close (last bars)) (dmul atr rm))"
  | (exit) f s c det where "map_of feats (hb_timestamp (last bars)) = Some f"
    "compute_technical_score f = (s, c, det)" "mc \<le> c" "mg \<le> \<bar>fsub s (1 / 2)\<bar>" "fsub s (1 / 2) \<le> 0"
    "sd_action d = ''EXIT''" "sd_stop_price d = None" "EXIT_REASON_LENGTH < length (sd_reason d)"
proof -
  from assms obtain f where f: "map_of feats (hb_timestamp (last bars)) = Some f"
    by (auto simp: make_strategy_def split: option.splits)
  obtain s c det where s: "compute_technical_score f = (s, c, det)" by (rule prod_cases3)
  show thesis
    using assms f s buy [OF f s] exit [OF f s]
    by (auto simp: make_strategy_def fuse_technical Let_def EXIT_REASON_LENGTH_def not_less
        split: if_splits option.splits)
qed

section \<open>Where the trades of a run come from\<close>

text \<open>
  Positions and trades of the one symbol, entered and left at the times of bars in \<open>T\<close>, in
  that order, and left for a reason in \<open>R\<close>.
\<close>

definition hist_ok :: "string \<Rightarrow> int set \<Rightarrow> exit_reason set \<Rightarrow> int \<Rightarrow> paper_engine \<Rightarrow> bool" where
  "hist_ok s T R now e \<longleftrightarrow>
     (\<forall>kp \<in> set (pf_positions (pe_portfolio e)). fst kp = s \<and> op_entry_time (snd kp) \<in> T \<and>
        op_entry_time (snd kp) \<le> now) \<and>
     (\<forall>t \<in> set (pf_closed_trades (pe_portfolio e)). ct_symbol t = s \<and> ct_entry_time t \<in> T \<and>
        ct_exit_time t \<in> T \<and> ct_entry_time t \<le> ct_exit_time t \<and> ct_exit_reason t \<in> R)"

lemma hist_later: "hist_ok s T R now e \<Longrightarrow> now \<le> t \<Longrightarrow> hist_ok s T R t e"
  by (auto simp: hist_ok_def)

lemma hist_mark [simp]: "hist_ok s T R now (mark_peak e prices) \<longleftrightarrow> hist_ok s T R now e"
  by (simp add: hist_ok_def mark_peak_def update_peak_equity_def)

lemma hist_set:
  assumes "hist_ok s T R now e" "map_of (pf_positions (pe_portfolio e)) k = Some pos"
    "op_entry_time pos' = op_entry_time pos"
  shows "hist_ok s T R now (set_position e k pos')"
  using assms map_of_SomeD [OF assms(2)]
  by (force simp: hist_ok_def set_position_def dest!: mem_update)

lemma hist_open:
  assumes "sim_open_position e a s price t f sl tp tr liq sid = Inr (e', r)" "hist_ok s T R t e" "t \<in> T"
  shows "hist_ok s T R t e'"
proof (rule sim_open_cases [OF assms(1)])
  fix sz fill pos p
  assume o: "portfolio_open (pe_portfolio e) s (fl_filled_quantity fill) (fl_average_price fill)
       (fl_fee fill) t sl tp tr sid = Inr (p, pos)" and e': "e' = e\<lparr>pe_portfolio := p\<rparr>"
  have "op_entry_time pos = t" "pf_positions p = AList.update s pos (pf_positions (pe_portfolio e))"
    "pf_closed_trades p = pf_closed_trades (pe_portfolio e)"
    using o by (auto simp: portfolio_open_def Let_def split: if_splits)
  with assms show ?thesis by (auto simp: hist_ok_def e' dest!: mem_update)
qed (use assms in auto)

lemma hist_close:
  assumes "sim_close_position e s price t r f = Inr (e', x)" "hist_ok s T R t e" "t \<in> T" "r \<in> R"
  shows "hist_ok s T R t e'"
proof (rule sim_close_cases [OF assms(1)])
  fix pos fill trade p
  assume c: "portfolio_close (pe_portfolio e) s (fl_average_price fill) (fl_fee fill)
       (fl_slippage_cost fill) t r = Inr (p, trade)"
    and e': "e' = e\<lparr>pe_portfolio := p, pe_last_exit_time := AList.update s t (pe_last_exit_time e)\<rparr>"
  show ?thesis
    by (rule portfolio_close_cases [OF c])
      (use assms(2-4) in \<open>auto simp: hist_ok_def e' closed_trade_of_def Let_def dest!: mem_delete map_of_SomeD\<close>)
qed (use assms in auto)

lemma exit_reasons: "exit_reason_for_bar h l sl tp = Some r \<Longrightarrow> r = STOP_LOSS \<or> r = TAKE_PROFIT"
  by (auto simp: exit_reason_for_bar_def Let_def split: if_splits)

lemma hist_bar:
  assumes "process_bar e b f = Inr (e', x)" "hist_ok s T R (bar_timestamp b) e" "bar_symbol b = s"
    "bar_timestamp b \<in> T" "{STOP_LOSS, TAKE_PROFIT} \<subseteq> R"
  shows "hist_ok s T R (bar_timestamp b) e'"
  using assms(1)
proof (cases rule: process_bar_cases)
  case (hold pos)
  let ?o = "observe pos (bar_high b) (bar_low b)"
  let ?e1 = "set_position e (bar_symbol b) ?o"
  have "hist_ok s T R (bar_timestamp b) ?e1"
    by (rule hist_set [OF assms(2) hold(1)]) (simp add: observe_def)
  moreover have "map_of (pf_positions (pe_portfolio ?e1)) (bar_symbol b) = Some ?o"
    by (simp add: set_position_def dict_simps)
  ultimately have "hist_ok s T R (bar_timestamp b) (set_position ?e1 (bar_symbol b)
      (?o\<lparr>op_stop_loss := update_trailing_stop (op_stop_loss pos) (bar_high b) (op_trailing_distance pos)\<rparr>))"
    by (rule hist_set) simp
  then show ?thesis by (simp add: hold(4))
next
  case (exit pos reason price e2)
  have "hist_ok s T R (bar_timestamp b) (set_position e (bar_symbol b) (observe pos (bar_high b) (bar_low b)))"
    by (rule hist_set [OF assms(2) exit(1)]) (simp add: observe_def)
  from hist_close [OF exit(4) [unfolded assms(3)] this [unfolded assms(3)] assms(4)] show ?thesis
    using exit_reasons [OF exit(2)] assms(5) by (auto simp: exit(5))
qed (use assms in simp)

definition run_reasons :: "exit_reason set" where
  "run_reasons = {STOP_LOSS, TAKE_PROFIT, BACKTEST_END} \<union> {OtherExit x | x. EXIT_REASON_LENGTH < length x}"

definition long_exits :: "strategy \<Rightarrow> bool" where
  "long_exits st \<longleftrightarrow> (\<forall>bars d. st bars = Some d \<longrightarrow> sd_action d = ''EXIT'' \<longrightarrow> EXIT_REASON_LENGTH < length (sd_reason d))"

lemma make_strategy_long: "long_exits (make_strategy feats mc mg sm rm)"
  unfolding long_exits_def by (auto elim: strategy_cases)

lemma hist_apply:
  assumes "bt_apply c e d b = Inr e'" "hist_ok (be_symbol c) T run_reasons (hb_timestamp b) e"
    "hb_timestamp b \<in> T" "sd_action d = ''EXIT'' \<Longrightarrow> EXIT_REASON_LENGTH < length (sd_reason d)"
  shows "hist_ok (be_symbol c) T run_reasons (hb_timestamp b) e'"
proof -
  obtain e1 a where ev: "evaluate_entry e (be_symbol c) (hb_close b) (sd_stop_price d) (be_filters c)
      [(be_symbol c, hb_close b)] (hb_timestamp b) (Some default_system) None None None = (e1, a)"
    by (cases "evaluate_entry e (be_symbol c) (hb_close b) (sd_stop_price d) (be_filters c)
      [(be_symbol c, hb_close b)] (hb_timestamp b) (Some default_system) None None None")
  then have "pe_portfolio e1 = pe_portfolio e" by (auto simp: evaluate_entry_def Let_def)
  with assms(2) have h1: "hist_ok (be_symbol c) T run_reasons (hb_timestamp b) e1"
    by (simp add: hist_ok_def)
  show ?thesis
    using assms ev h1
    by (auto simp: bt_apply_def Let_def run_reasons_def split: if_splits elim!: map_sum_Inr_cases
        intro: hist_open hist_close)
qed

lemma hist_step:
  assumes "bt_step c st seen e b = Inr e'" "hist_ok (be_symbol c) T run_reasons (hb_timestamp b) e"
    "hb_timestamp b \<in> T" "long_exits st"
  shows "hist_ok (be_symbol c) T run_reasons (hb_timestamp b) e'"
proof -
  obtain e1 r where p: "process_bar e (simulator_bar (be_symbol c) b) (Some (be_filters c)) = Inr (e1, r)"
    using process_bar_total by blast
  have "hist_ok (be_symbol c) T run_reasons (hb_timestamp b) e1"
    using hist_bar [OF p] assms by (auto simp: simulator_bar_def run_reasons_def)
  then show ?thesis
    using p assms(1,3,4) hist_apply
    by (fastforce simp: bt_step_def long_exits_def split: option.splits elim!: map_sum_Inr_cases)
qed

lemma hist_loop:
  "bt_loop c st seen (e, curve, n) bs = Inr (e', curve', n') \<Longrightarrow> long_exits st \<Longrightarrow>
   hist_ok (be_symbol c) T run_reasons now e \<Longrightarrow> sorted (now # map hb_timestamp bs) \<Longrightarrow>
   hb_timestamp ` set bs \<subseteq> T \<Longrightarrow> hist_ok (be_symbol c) T run_reasons (last (now # map hb_timestamp bs)) e'"
proof (induction bs arbitrary: seen e curve n now)
  case (Cons b bs)
  from Cons.prems(1) obtain e1 where e1: "bt_step c st seen e b = Inr e1"
    by (cases "bt_step c st seen e b") simp_all
  have "hist_ok (be_symbol c) T run_reasons (hb_timestamp b) e1"
    using hist_step [OF e1 hist_later [OF Cons.prems(3)]] Cons.prems by auto
  with Cons.prems e1 Cons.IH show ?case by simp
qed simp

lemma hist_close_each:
  "close_each e ss prices t r ts = Inr (e', ts') \<Longrightarrow> hist_ok s T R t e \<Longrightarrow> t \<in> T \<Longrightarrow> r \<in> R \<Longrightarrow>
   hist_ok s T R t e'"
proof (induction ss arbitrary: e ts)
  case (Cons k ss)
  from Cons.prems(1) obtain pos e1 trade where p: "map_of (pf_positions (pe_portfolio e)) k = Some pos"
    "sim_close_position e k (dict_get prices k (op_entry_price pos)) t r None = Inr (e1, trade)"
    and rest: "close_each e1 ss prices t r (case trade of None \<Rightarrow> ts | Some x \<Rightarrow> ts @ [x]) = Inr (e', ts')"
    by (auto split: option.splits sum.splits prod.splits)
  have "k = s" using Cons.prems(2) map_of_SomeD [OF p(1)] by (auto simp: hist_ok_def)
  with hist_close p(2) Cons.prems have "hist_ok s T R t e1" by blast
  with Cons.IH rest Cons.prems show ?case by blast
qed simp

lemma run_trades:
  assumes "bt_run c bars st = Inr r" "long_exits st" "sorted (map hb_timestamp bars)"
    "pf_positions (pe_portfolio (be_engine c)) = []" "pf_closed_trades (pe_portfolio (be_engine c)) = []"
    "t \<in> set (br_trades r)"
  shows "ct_symbol t = be_symbol c \<and> ct_entry_time t \<in> hb_timestamp ` set bars \<and>
    ct_exit_time t \<in> hb_timestamp ` set bars \<and> ct_entry_time t \<le> ct_exit_time t \<and> ct_exit_reason t \<in> run_reasons"
proof (rule bt_run_cases [OF assms(1)])
  let ?T = "hb_timestamp ` set bars"
  fix e curve n e' ts
  assume ne: "bars \<noteq> []" and loop: "bt_loop c st [] (be_engine c, [], 0) bars = Inr (e, curve, n)"
    and fc: "force_close_all e [(be_symbol c, hb_close (last bars))] (hb_timestamp (last bars)) BACKTEST_END = Inr (e', ts)"
    and tr: "br_trades r = pf_closed_trades (pe_portfolio e')"
  have "hist_ok (be_symbol c) ?T run_reasons (hb_timestamp (hd bars)) (be_engine c)"
    using assms(4,5) by (simp add: hist_ok_def)
  moreover have "sorted (hb_timestamp (hd bars) # map hb_timestamp bars)"
    using ne assms(3) by (cases bars) auto
  moreover have "last (hb_timestamp (hd bars) # map hb_timestamp bars) = hb_timestamp (last bars)"
    using ne by (simp add: last_map)
  ultimately have "hist_ok (be_symbol c) ?T run_reasons (hb_timestamp (last bars)) e"
    using hist_loop [OF loop assms(2)] by force
  then have "hist_ok (be_symbol c) ?T run_reasons (hb_timestamp (last bars)) e'"
    using hist_close_each [OF fc [unfolded force_close_all_def]] ne by (auto simp: run_reasons_def)
  with assms(6) tr show ?thesis by (auto simp: hist_ok_def)
qed

lemma stored_reason:
  "x \<in> run_reasons \<Longrightarrow> length (exit_reason_value x) \<le> EXIT_REASON_LENGTH \<longleftrightarrow> x \<in> {STOP_LOSS, TAKE_PROFIT, BACKTEST_END}"
  by (auto simp: run_reasons_def EXIT_REASON_LENGTH_def)

section \<open>Properties\<close>

text \<open>
  The reference strategy acts on the last bar's own features only, when the technical score
  is confident and clearly off neutral: on a bullish score it buys with a positive stop at or
  below the close and a target at or above it; on a bearish one it asks to leave, never to
  open anything (there is no short side).
\<close>

theorem reference_strategy:
  assumes "make_strategy feats mc mg sm rm bars = Some d" "0 < mg" "0 \<le> sm" "0 \<le> rm"
    "close = hb_close (last bars)" "dec close = close"
  shows "\<exists>f s c det. map_of feats (hb_timestamp (last bars)) = Some f \<and>
    compute_technical_score f = (s, c, det) \<and> mc \<le> c \<and>
    (sd_action d = ''BUY'' \<and> mg \<le> fsub s (1 / 2) \<and>
       (\<exists>stop target. sd_stop_price d = Some stop \<and> sd_take_profit d = Some target \<and>
          0 < stop \<and> stop \<le> close \<and> close \<le> target) \<or>
     sd_action d = ''EXIT'' \<and> fsub s (1 / 2) \<le> - mg \<and> sd_stop_price d = None)"
  using assms(1)
proof (cases rule: strategy_cases)
  case (buy f s c det atr)
  have "dsub close (dmul atr sm) \<le> close" "close \<le> dadd close (dmul atr rm)"
    unfolding dsub_def dadd_def dmul_def using buy(7) assms(3,4,6)
    by (auto intro!: dec.rd_le dec.rd_ge simp: dec.rd_nonneg_iff)
  with buy assms(2,5) show ?thesis by (intro exI [of _ f]) auto
qed (use assms(2) in auto)

definition buy_features :: features where
  "buy_features = [(''plus_di'', JNum 30), (''minus_di'', JNum 10), (''rsi_14'', JNum 75), (''atr_14'', JInt 2)]"

definition quiet_bar :: historical_bar where
  "quiet_bar = \<lparr>hb_timestamp = 60, hb_open = 100, hb_high = 101, hb_low = 99, hb_close = 100, hb_volume = 5\<rparr>"


lemma buy_score: "\<exists>det. compute_technical_score buy_features = (3 / 4, 1 / 4, det)"
proof -
  have v: "available (subsignals buy_features) = [1 / 2, 1 / 2]" by code_simp
  have p: "volatility_confidence_penalty buy_features = 1" by code_simp
  have n: "length (subsignals buy_features) = 4" by (simp add: subsignals_def)
  have f: "flt (1 / 2) = 1 / 2" "flt (1 / 4) = 1 / 4" "flt (3 / 4) = 3 / 4" "flt (3 / 2) = 3 / 2" by code_simp+
  show ?thesis
    by (simp add: compute_technical_score_def v p n fsum_def fadd_def fdiv_def fmul_def f Let_def clamp_def)
qed

theorem reference_strategy_witness:
  "\<exists>d stop target. make_strategy [(60, buy_features)] (1 / 8) (1 / 8) (3 / 2) 2 [quiet_bar] = Some d \<and>
     sd_stop_price d = Some stop \<and> sd_take_profit d = Some target \<and> 0 < stop \<and> stop \<le> 100 \<and> 100 \<le> target"
proof -
  obtain det where s: "compute_technical_score buy_features = (3 / 4, 1 / 4, det)" using buy_score by blast
  have f: "flt (1 / 4) = 1 / 4" by code_simp
  have a: "map_of buy_features ''atr_14'' = Some (JInt 2)" by (simp add: buy_features_def)
  obtain d where d: "make_strategy [(60, buy_features)] (1 / 8) (1 / 8) (3 / 2) 2 [quiet_bar] = Some d"
    "sd_action d = ''BUY''"
    by (simp add: make_strategy_def quiet_bar_def fuse_technical [OF s] a fsub_def f Let_def dec_ops dec_fixed)
  have "dec 100 = 100" by (simp add: dec_fixed)
  with reference_strategy [OF d(1) _ _ _ refl] d show ?thesis by (auto simp: quiet_bar_def)
qed


text \<open>
  C14: what a backtest request leaves behind. A reversed range, fewer than two closed candles
  or more than the cap is refused before anything is stored. An engine error is stored as a
  failed run and raised again. A finished run is stored as completed, with every trade entered
  and left at the time of one of the stored candles of the range, in that order, unless the
  strategy itself closed a position: its exit reason does not fit the column and the commit
  fails, leaving no trace of the run.
\<close>

theorem backtest_recorded:
  assumes "run_backtest st candles feats service s tf a b job t0 t1 = (stored, res)"
    "rows = closed_in_range candles s tf a b" "(filters, src) = resolve_symbol_filters service s"
    "engine_result = bt_run (backtest_of st filters s tf) (map historical_bar_of rows)
       (strategy_of st (features_in_range feats s tf (mc_feature_version (st_models st)) a b))"
  shows "if b \<le> a \<or> length rows < 2 \<or> bt_max_bars (st_backtesting st) < int (length rows)
    then stored = None \<and> res = Inl ValidationError
    else case engine_result of
        Inl err \<Rightarrow> res = Inl err \<and> (\<exists>run. stored = Some run \<and> bu_status run = RunFAILED \<and>
          bu_error run = Some err \<and> bu_trades run = [])
      | Inr r \<Rightarrow>
          if \<exists>t \<in> set (br_trades r). ct_exit_reason t \<notin> {STOP_LOSS, TAKE_PROFIT, BACKTEST_END}
          then stored = None \<and> res = Inl DatabaseError
          else \<exists>run. stored = Some run \<and> res = Inr run \<and> bu_status run = RunCOMPLETED \<and>
            bu_trades run = map backtest_trade_of (br_trades r) \<and>
            (\<forall>t \<in> set (bu_trades run). bk_symbol t = s \<and> bk_entry_time t \<le> bk_exit_time t \<and>
               {bk_entry_time t, bk_exit_time t} \<subseteq> cd_open_time ` set rows)"
proof (cases "b \<le> a \<or> length rows < 2 \<or> bt_max_bars (st_backtesting st) < int (length rows)")
  case True
  with assms(1,2) show ?thesis by (auto simp: run_backtest_def Let_def split: if_splits)
next
  case False
  let ?base = "base_run st s tf a b job t0 t1"
  have eq: "(stored, res) = (case engine_result of Inl err \<Rightarrow> (Some (?base\<lparr>bu_error := Some err\<rparr>), Inl err)
      | Inr r \<Rightarrow> (let run = completed_run st src r ?base in
          if storable run then (Some run, Inr run) else (None, Inl DatabaseError)))"
    using False assms(1) unfolding assms(4) run_backtest_def Let_def assms(3) [symmetric]
    by (simp add: assms(2))
  show ?thesis
  proof (cases engine_result)
    case (Inl err)
    with False eq show ?thesis by (simp add: base_run_def Let_def)
  next
    case (Inr r)
    let ?eng = "backtest_of st filters s tf"
    have eng: "be_symbol ?eng = s" "pf_positions (pe_portfolio (be_engine ?eng)) = []"
      "pf_closed_trades (pe_portfolio (be_engine ?eng)) = []"
      by (simp_all add: backtest_of_def new_backtest_def build_engine_def init_engine_def
          new_portfolio_def post_init_def Let_def)
    have ts: "map hb_timestamp (map historical_bar_of rows) = map cd_open_time rows"
      by (simp add: historical_bar_of_def)
    have "sorted (map hb_timestamp (map historical_bar_of rows))"
      unfolding ts unfolding assms(2) by (rule closed_in_range_sorted)
    from run_trades [OF Inr [unfolded assms(4)] _ this eng(2,3)]
    have tr: "\<forall>t \<in> set (br_trades r). ct_symbol t = s \<and> ct_entry_time t \<in> cd_open_time ` set rows \<and>
        ct_exit_time t \<in> cd_open_time ` set rows \<and> ct_entry_time t \<le> ct_exit_time t \<and> ct_exit_reason t \<in> run_reasons"
      using make_strategy_long by (auto simp: eng(1) strategy_of_def historical_bar_of_def image_image)
    then have "storable (completed_run st src r run) \<longleftrightarrow>
        \<not> (\<exists>t \<in> set (br_trades r). ct_exit_reason t \<notin> {STOP_LOSS, TAKE_PROFIT, BACKTEST_END})" for run
      using stored_reason
      by (auto simp: storable_def completed_run_def backtest_trade_of_def list_all_iff)
    note st = this [of ?base]
    show ?thesis
    proof (cases "\<exists>t \<in> set (br_trades r). ct_exit_reason t \<notin> {STOP_LOSS, TAKE_PROFIT, BACKTEST_END}")
      case True
      then have "\<not> storable (completed_run st src r ?base)" using st by blast
      with eq Inr have "stored = None" "res = Inl DatabaseError" by (simp_all add: Let_def)
      with False Inr True show ?thesis by simp
    next
      case ok: False
      then have "storable (completed_run st src r ?base)" using st by blast
      with eq Inr have *: "stored = Some (completed_run st src r ?base)" "res = Inr (completed_run st src r ?base)"
        by (simp_all add: Let_def)
      have "\<exists>run. stored = Some run \<and> res = Inr run \<and> bu_status run = RunCOMPLETED \<and>
            bu_trades run = map backtest_trade_of (br_trades r) \<and>
            (\<forall>t \<in> set (bu_trades run). bk_symbol t = s \<and> bk_entry_time t \<le> bk_exit_time t \<and>
               {bk_entry_time t, bk_exit_time t} \<subseteq> cd_open_time ` set rows)"
        unfolding * by (intro exI conjI, rule refl, rule refl)
          (use tr in \<open>auto simp: completed_run_def backtest_trade_of_def\<close>)
      with False Inr ok show ?thesis by simp
    qed
  qed
qed

definition flat_candle :: "int \<Rightarrow> candle" where
  "flat_candle t = \<lparr>cd_symbol = ''BTCUSDT'', cd_timeframe = ''1h'', cd_open_time = t, cd_close_time = t + 3599,
     cd_open = 100, cd_high = 100, cd_low = 100, cd_close = 100, cd_volume = 1, cd_quote_volume = None,
     cd_trades = None, cd_is_closed = True, cd_source = ''BINANCE''\<rparr>"

text \<open>Two candles pass the checks; a third after the range does not count.\<close>

theorem backtest_recorded_witness:
  "\<exists>stored res. run_backtest default_settings [flat_candle 7200, flat_candle 0, flat_candle 3600] [] None
      ''BTCUSDT'' ''1h'' 0 3600 ''job'' 1 2 = (stored, res) \<and> (stored = None \<longrightarrow> res = Inl DatabaseError)"
proof -
  let ?db = "[flat_candle 7200, flat_candle 0, flat_candle 3600]"
  obtain stored res where r: "run_backtest default_settings ?db [] None ''BTCUSDT'' ''1h'' 0 3600 ''job'' 1 2 =
      (stored, res)" by (cases "run_backtest default_settings ?db [] None ''BTCUSDT'' ''1h'' 0 3600 ''job'' 1 2")
  have n: "length (closed_in_range ?db ''BTCUSDT'' ''1h'' 0 3600) = 2"
    by (simp add: closed_in_range_def flat_candle_def)
  have m: "bt_max_bars (st_backtesting default_settings) = 5000"
    by (simp add: default_settings_def default_backtest_config_def)
  from backtest_recorded [OF r refl surjective_pairing [symmetric] refl] n m
  have "stored = None \<longrightarrow> res = Inl DatabaseError"
    by (auto split: sum.splits if_splits)
  with r show ?thesis by blast
qed

end
