(* ===== verification/ServerConfig.thy ===== *)
theory ServerConfig
  imports Json "HOL-Library.Sublist"
begin

text \<open>
  The sections of \<open>config/settings.py\<close> that describe where things are: the database and Redis URLs with
  their percent-encoding, and the directories. A character is a byte of UTF-8, which is what
  \<open>urllib.parse.quote\<close> encodes.
\<close>

section \<open>Percent-encoding\<close>

definition always_safe :: "char \<Rightarrow> bool" where
  "always_safe c \<longleftrightarrow> (let n = of_char c :: nat in
     65 \<le> n \<and> n \<le> 90 \<or> 97 \<le> n \<and> n \<le> 122 \<or> 48 \<le> n \<and> n \<le> 57 \<or> c \<in> set ''_.-~'')"

definition hex_digit :: "nat \<Rightarrow> char" where
  "hex_digit n = (if n < 10 then char_of (48 + n) else char_of (55 + n))"

definition hex_value :: "char \<Rightarrow> nat option" where
  "hex_value c = (let n = of_char c in
     if 48 \<le> n \<and> n \<le> 57 then Some (n - 48)
     else if 65 \<le> n \<and> n \<le> 70 then Some (n - 55)
     else if 97 \<le> n \<and> n \<le> 102 then Some (n - 87)
     else None)"

definition quote_char :: "char \<Rightarrow> string" where
  "quote_char c = (if always_safe c then [c]
     else [CHR ''%'', hex_digit (of_char c div 16), hex_digit (of_char c mod 16)])"

text \<open>\<open>quote(s, safe="")\<close>, and its inverse of the standard library, which keeps a percent sign without two digits.\<close>

definition quote :: "string \<Rightarrow> string" where
  "quote s = concat (map quote_char s)"

fun unquote :: "string \<Rightarrow> string" where
  "unquote (c # a # b # s) = (case (if c = CHR ''%'' then hex_value a else None, hex_value b) of
     (Some m, Some n) \<Rightarrow> char_of (16 * m + n) # unquote s
   | _ \<Rightarrow> c # unquote (a # b # s))"
| "unquote s = s"

section \<open>URLs\<close>

definition database_url :: "string \<Rightarrow> database_config \<Rightarrow> string" where
  "database_url driver c = ''postgresql+'' @ driver @ ''://'' @ quote (dc_user c) @ '':'' @ quote (dc_password c) @
     ''@'' @ dc_host c @ '':'' @ show_int (dc_port c) @ ''/'' @ dc_db c"

definition async_url :: "database_config \<Rightarrow> string" where
  "async_url c = database_url ''asyncpg'' c"

definition sync_url :: "database_config \<Rightarrow> string" where
  "sync_url c = database_url ''psycopg'' c"

definition redis_url :: "redis_config \<Rightarrow> string" where
  "redis_url c = ''redis://'' @ rd_host c @ '':'' @ show_int (rd_port c) @ ''/'' @ show_int (rd_db c)"

section \<open>Directories\<close>

record paths_config =
  pa_root :: string
  pa_data :: string
  pa_models :: string
  pa_artifacts :: string
  pa_logs :: string
  pa_backups :: string

definition below_path :: "string \<Rightarrow> string \<Rightarrow> string" where
  "below_path p name = p @ ''/'' @ name"

definition default_paths :: "string \<Rightarrow> paths_config" where
  "default_paths project_root = \<lparr>pa_root = project_root, pa_data = below_path project_root ''data'',
     pa_models = below_path project_root ''models'', pa_artifacts = below_path project_root ''artifacts'',
     pa_logs = below_path project_root ''logs'', pa_backups = below_path project_root ''backups''\<rparr>"

definition models_production :: "paths_config \<Rightarrow> string" where
  "models_production p = below_path (pa_models p) ''production''"

definition models_candidates :: "paths_config \<Rightarrow> string" where
  "models_candidates p = below_path (pa_models p) ''candidates''"

definition models_archive :: "paths_config \<Rightarrow> string" where
  "models_archive p = below_path (pa_models p) ''archive''"

text \<open>The directories \<open>ensure\<close> makes, with their parents.\<close>

definition ensured_paths :: "paths_config \<Rightarrow> string list" where
  "ensured_paths p = [pa_data p, below_path (pa_data p) ''market'', below_path (pa_data p) ''news'',
     below_path (pa_data p) ''cache'', models_production p, models_candidates p, models_archive p,
     below_path (pa_artifacts p) ''backtests'', below_path (pa_artifacts p) ''reports'',
     below_path (pa_artifacts p) ''metrics'', pa_logs p, pa_backups p]"

section \<open>Lemmas\<close>

lemma hex_digit_value: "n < 16 \<Longrightarrow> hex_value (hex_digit n) = Some n"
  by (auto simp: hex_value_def hex_digit_def Let_def)

lemma hex_digit_safe: "n < 16 \<Longrightarrow> always_safe (hex_digit n)"
  by (auto simp: always_safe_def hex_digit_def Let_def)

lemma unquote_safe: "c \<noteq> CHR ''%'' \<Longrightarrow> unquote (c # s) = c # unquote s"
  by (cases s; cases "tl s") (auto simp: neq_Nil_conv)

lemma percent_unsafe: "\<not> always_safe (CHR ''%'')"
  by (simp add: always_safe_def Let_def)

lemma byte_halves: "of_char c div 16 < (16::nat)" "of_char c mod 16 < (16::nat)"
  using nat_of_char_less_256 [of c] by (simp_all add: less_mult_imp_div_less)

lemma unquote_quote: "unquote (quote s) = s"
proof (induction s)
  case (Cons c s)
  show ?case
  proof (cases "always_safe c")
    case True
    then have "c \<noteq> CHR ''%''" using percent_unsafe by metis
    with True Cons show ?thesis by (simp add: quote_def quote_char_def unquote_safe)
  next
    case False
    have "unquote (quote (c # s)) = char_of (16 * (of_char c div 16) + of_char c mod 16 :: nat) # unquote (quote s)"
      using False by (simp add: quote_def quote_char_def hex_digit_value byte_halves)
    then show ?thesis using Cons by (simp only: mult_div_mod_eq char_of_char)
  qed
qed (simp add: quote_def)

text \<open>What is encoded holds no delimiter.\<close>

definition delimiter :: "char \<Rightarrow> bool" where
  "delimiter c \<longleftrightarrow> c \<in> set '':/@?#''"

lemma quote_clean: "c \<in> set (quote s) \<Longrightarrow> \<not> delimiter c"
proof -
  have safe: "always_safe c \<Longrightarrow> \<not> delimiter c" for c
    by (auto simp: always_safe_def delimiter_def Let_def)
  have hex: "\<not> delimiter (hex_digit (of_char d div 16))" "\<not> delimiter (hex_digit (of_char d mod 16))" for d
    using hex_digit_safe byte_halves safe by blast+
  have "\<not> delimiter (CHR ''%'')" by (simp add: delimiter_def)
  then have "c \<in> set (quote_char d) \<Longrightarrow> \<not> delimiter c" for d
    using safe [of d] hex [of d] by (auto simp: quote_char_def split: if_splits)
  then show "c \<in> set (quote s) \<Longrightarrow> \<not> delimiter c" by (auto simp: quote_def)
qed

lemma clean_split:
  assumes "filter delimiter u = []" "filter delimiter u' = []" "delimiter d"
  shows "u @ d # r = u' @ d # r' \<longleftrightarrow> u = u' \<and> r = r'"
proof
  assume eq: "u @ d # r = u' @ d # r'"
  have clean: "\<And>x. x \<in> set u \<Longrightarrow> \<not> delimiter x" "\<And>x. x \<in> set u' \<Longrightarrow> \<not> delimiter x"
    using assms(1,2) by (auto simp: filter_empty_conv)
  have "takeWhile (\<lambda>x. \<not> delimiter x) (v @ d # w) = v" if "\<And>x. x \<in> set v \<Longrightarrow> \<not> delimiter x" for v w
    using that assms(3) by (subst takeWhile_append2) auto
  from this [of u r, OF clean(1)] this [of u' r', OF clean(2)] eq have "u = u'" by simp
  with eq show "u = u' \<and> r = r'" by simp
qed simp

lemma quote_no_delimiter: "filter delimiter (quote s) = []"
  using quote_clean by (auto simp: filter_empty_conv)

lemma quote_eq_iff: "quote s = quote t \<longleftrightarrow> s = t"
  by (metis unquote_quote)

lemma ensured_below_root:
  "list_all (\<lambda>p. prefix (root_dir @ ''/'') p) (ensured_paths (default_paths root_dir))"
  by (simp add: ensured_paths_def default_paths_def below_path_def models_production_def models_candidates_def
      models_archive_def)

section \<open>Properties\<close>

text \<open>
  C38: no credential can spill into the rest of a database URL. Whatever bytes the user name and the
  password hold, what is written for them holds none of the delimiters : / @ ? # and \<open>unquote\<close> gives them
  back; so two configurations have the same URL exactly when they have the same user name, the same password and the
  same text after the at sign. The host and the database name are written as they are, by both URLs.
\<close>

theorem database_url_unambiguous:
  "filter delimiter (quote (dc_user c) @ quote (dc_password c)) = [] \<and>
   unquote (quote (dc_user c)) = dc_user c \<and> unquote (quote (dc_password c)) = dc_password c \<and>
   async_url c = ''postgresql+asyncpg://'' @ quote (dc_user c) @ '':'' @ quote (dc_password c) @ ''@'' @
     dc_host c @ '':'' @ show_int (dc_port c) @ ''/'' @ dc_db c \<and>
   sync_url c = ''postgresql+psycopg://'' @ quote (dc_user c) @ '':'' @ quote (dc_password c) @ ''@'' @
     dc_host c @ '':'' @ show_int (dc_port c) @ ''/'' @ dc_db c \<and>
   (async_url c = async_url c' \<longleftrightarrow> dc_user c = dc_user c' \<and> dc_password c = dc_password c' \<and>
     dc_host c @ '':'' @ show_int (dc_port c) @ ''/'' @ dc_db c = dc_host c' @ '':'' @ show_int (dc_port c') @ ''/'' @ dc_db c') \<and>
   (sync_url c = sync_url c' \<longleftrightarrow> async_url c = async_url c')"
proof -
  have d: "delimiter (CHR '':'')" "delimiter (CHR ''@'')" by (simp_all add: delimiter_def)
  have iff: "database_url driver c = database_url driver c' \<longleftrightarrow> dc_user c = dc_user c' \<and> dc_password c = dc_password c' \<and>
      dc_host c @ '':'' @ show_int (dc_port c) @ ''/'' @ dc_db c = dc_host c' @ '':'' @ show_int (dc_port c') @ ''/'' @ dc_db c'"
    for driver
    using clean_split [OF quote_no_delimiter quote_no_delimiter d(1)] clean_split [OF quote_no_delimiter quote_no_delimiter d(2)]
    by (simp add: database_url_def quote_eq_iff)
  show ?thesis
    unfolding async_url_def sync_url_def iff
    by (simp add: quote_no_delimiter unquote_quote) (simp add: database_url_def)
qed

end
