(* ===== verification/AppState.thy ===== *)
theory AppState
  imports Json Enums
begin

text \<open>
  \<open>services/app_state.py\<close>: the \<open>system_settings\<close> table and the state that is read back from it at
  startup. A session is the table before and after it; the key has a unique constraint, and
  \<open>scalar_one_or_none\<close> raises on two rows.
\<close>

record system_setting =
  ss_key :: string
  ss_value :: payload
  ss_description :: "string option"

definition KEY_TRADING_MODE :: string where "KEY_TRADING_MODE = ''trading.mode''"
definition KEY_ENGINE_STATE :: string where "KEY_ENGINE_STATE = ''trading.engine_state''"
definition KEY_LIVE_ARMED :: string where "KEY_LIVE_ARMED = ''trading.live_armed''"
definition KEY_LAST_SHUTDOWN :: string where "KEY_LAST_SHUTDOWN = ''system.last_shutdown_at''"
definition KEY_LAST_STARTUP :: string where "KEY_LAST_STARTUP = ''system.last_startup_at''"

definition setting_rows :: "system_setting list \<Rightarrow> string \<Rightarrow> system_setting list" where
  "setting_rows table k = filter (\<lambda>r. ss_key r = k) table"

text \<open>No row, or a row without a value, is \<open>None\<close>, the JSON \<open>null\<close>.\<close>

definition get_setting :: "system_setting list \<Rightarrow> string \<Rightarrow> exn + json" where
  "get_setting table k = (case setting_rows table k of
     [] \<Rightarrow> Inr JNull
   | [r] \<Rightarrow> Inr (dict_get (ss_value r) ''value'' JNull)
   | _ \<Rightarrow> Inl DatabaseError)"

definition set_setting ::
  "string \<Rightarrow> json \<Rightarrow> string option \<Rightarrow> system_setting list \<Rightarrow> exn + system_setting list" where
  "set_setting k v description table = (case setting_rows table k of
     [] \<Rightarrow> Inr (table @ [\<lparr>ss_key = k, ss_value = [(''value'', v)], ss_description = description\<rparr>])
   | [_] \<Rightarrow> Inr (map (\<lambda>r. if ss_key r = k
         then r\<lparr>ss_value := [(''value'', v)],
           ss_description := (case description of None \<Rightarrow> ss_description r | Some d \<Rightarrow> Some d)\<rparr>
         else r) table)
   | _ \<Rightarrow> Inl DatabaseError)"

section \<open>The persisted state\<close>

fun trading_mode_value :: "trading_mode \<Rightarrow> string" where
  "trading_mode_value ModeBACKTEST = ''BACKTEST''"
| "trading_mode_value ModePAPER = ''PAPER''"
| "trading_mode_value ModeBINANCE_TESTNET = ''BINANCE_TESTNET''"
| "trading_mode_value ModeLIVE = ''LIVE''"

definition parse_trading_mode :: "json \<Rightarrow> trading_mode option" where
  "parse_trading_mode j = (case j of
     JStr s \<Rightarrow> List.find (\<lambda>m. trading_mode_value m = s) [ModeBACKTEST, ModePAPER, ModeBINANCE_TESTNET, ModeLIVE]
   | _ \<Rightarrow> None)"

fun engine_state_value :: "engine_state \<Rightarrow> string" where
  "engine_state_value EngRUNNING = ''RUNNING''"
| "engine_state_value EngPAUSED = ''PAUSED''"
| "engine_state_value EMERGENCY_STOP = ''EMERGENCY_STOP''"

definition parse_engine_state :: "json \<Rightarrow> engine_state option" where
  "parse_engine_state j = (case j of
     JStr s \<Rightarrow> List.find (\<lambda>m. engine_state_value m = s) [EngRUNNING, EngPAUSED, EMERGENCY_STOP]
   | _ \<Rightarrow> None)"

record application_state =
  ap_mode :: trading_mode
  ap_engine_state :: engine_state
  ap_live_armed :: bool
  ap_live_trading_enabled :: bool
  ap_last_shutdown_at :: json

definition restored_mode :: "trading_config \<Rightarrow> json \<Rightarrow> bool \<Rightarrow> trading_mode \<times> bool" where
  "restored_mode t stored_mode live_armed =
     (let mode = (if py_bool stored_mode
         then (case parse_trading_mode stored_mode of Some m \<Rightarrow> m | None \<Rightarrow> tc_mode t) else tc_mode t)
      in if mode = ModeLIVE \<and> \<not> (live_armed \<and> tc_live_trading_enabled t) then (ModePAPER, False)
         else (mode, live_armed))"

definition restored_engine :: "json \<Rightarrow> engine_state" where
  "restored_engine stored_engine =
     (if py_bool stored_engine
      then (case parse_engine_state stored_engine of Some s \<Rightarrow> s | None \<Rightarrow> EngPAUSED) else EngPAUSED)"

definition load_application_state :: "settings \<Rightarrow> system_setting list \<Rightarrow> exn + application_state" where
  "load_application_state st table =
     (case (get_setting table KEY_TRADING_MODE, get_setting table KEY_ENGINE_STATE,
            get_setting table KEY_LIVE_ARMED, get_setting table KEY_LAST_SHUTDOWN) of
        (Inr stored_mode, Inr stored_engine, Inr armed, Inr last_shutdown) \<Rightarrow>
          (let (mode, live_armed) = restored_mode (st_trading st) stored_mode (py_bool armed) in
           Inr \<lparr>ap_mode = mode, ap_engine_state = restored_engine stored_engine, ap_live_armed = live_armed,
             ap_live_trading_enabled = tc_live_trading_enabled (st_trading st), ap_last_shutdown_at = last_shutdown\<rparr>)
      | _ \<Rightarrow> Inl DatabaseError)"

definition record_startup :: "string \<Rightarrow> system_setting list \<Rightarrow> exn + system_setting list" where
  "record_startup now = set_setting KEY_LAST_STARTUP (JStr now)
     (Some ''Timestamp of the most recent backend startup.'')"

definition record_shutdown :: "string \<Rightarrow> system_setting list \<Rightarrow> exn + system_setting list" where
  "record_shutdown now = set_setting KEY_LAST_SHUTDOWN (JStr now)
     (Some ''Timestamp of the most recent clean backend shutdown.'')"

section \<open>Lemmas\<close>

lemma setting_rows_cases:
  assumes "distinct (map ss_key table)"
  obtains (none) "setting_rows table k = []" "k \<notin> ss_key ` set table"
  | (one) r where "setting_rows table k = [r]" "r \<in> set table" "ss_key r = k"
proof (cases "setting_rows table k")
  case Nil
  then have "k \<notin> ss_key ` set table" by (auto simp: setting_rows_def filter_empty_conv)
  with Nil none show ?thesis by blast
next
  case (Cons r rs)
  have "length (setting_rows table k) \<le> 1"
    using assms by (induction table) (auto simp: setting_rows_def filter_empty_conv image_iff)
  with Cons have rows: "setting_rows table k = [r]" by simp
  then have "r \<in> set (setting_rows table k)" by simp
  then have "r \<in> set table" "ss_key r = k" by (auto simp: setting_rows_def)
  with rows one show ?thesis by blast
qed

lemma setting_rows_map:
  assumes "\<And>r. ss_key (f r) = ss_key r"
  shows "setting_rows (map f table) k = map f (setting_rows table k)"
  by (induction table) (simp_all add: setting_rows_def assms)

lemma set_setting_rows:
  assumes "set_setting k v d table = Inr table'"
  shows "k' \<noteq> k \<Longrightarrow> setting_rows table' k' = setting_rows table k'"
    and "\<exists>r. setting_rows table' k = [r] \<and> ss_value r = [(''value'', v)] \<and>
      (d = None \<longrightarrow> ss_description r = (case setting_rows table k of [] \<Rightarrow> None | q # _ \<Rightarrow> ss_description q))"
    and "distinct (map ss_key table) \<Longrightarrow> distinct (map ss_key table')"
proof -
  let ?f = "\<lambda>r. if ss_key r = k then r\<lparr>ss_value := [(''value'', v)],
     ss_description := (case d of None \<Rightarrow> ss_description r | Some d \<Rightarrow> Some d)\<rparr> else r"
  consider (none) "setting_rows table k = []" | (one) q where "setting_rows table k = [q]" "ss_key q = k"
    "table' = map ?f table"
  proof (cases "setting_rows table k")
    case (Cons q qs)
    then have "q \<in> set (setting_rows table k)" by simp
    then have "ss_key q = k" by (simp add: setting_rows_def)
    with Cons assms one show ?thesis by (cases qs) (auto simp: set_setting_def)
  qed
  note cases = this
  have "(k' \<noteq> k \<longrightarrow> setting_rows table' k' = setting_rows table k') \<and>
    (\<exists>r. setting_rows table' k = [r] \<and> ss_value r = [(''value'', v)] \<and>
      (d = None \<longrightarrow> ss_description r = (case setting_rows table k of [] \<Rightarrow> None | q # _ \<Rightarrow> ss_description q))) \<and>
    (distinct (map ss_key table) \<longrightarrow> distinct (map ss_key table'))"
    using cases
  proof cases
    case none
    then have t: "table' = table @ [\<lparr>ss_key = k, ss_value = [(''value'', v)], ss_description = d\<rparr>]"
      using assms by (simp add: set_setting_def)
    from none have "k \<notin> ss_key ` set table" by (auto simp: setting_rows_def filter_empty_conv)
    with none show ?thesis by (simp add: t setting_rows_def)
  next
    case one
    have key: "ss_key (?f r) = ss_key r" for r by simp
    have keys: "map ss_key (map ?f table) = map ss_key table" by simp
    have same: "k' \<noteq> k \<Longrightarrow> map ?f (setting_rows table k') = setting_rows table k'"
      by (auto simp: setting_rows_def intro: map_idI)
    show ?thesis unfolding one(3) setting_rows_map [of ?f, OF key] keys using one(1,2) same
      by (auto split: option.split)
  qed
  then show "k' \<noteq> k \<Longrightarrow> setting_rows table' k' = setting_rows table k'"
    "\<exists>r. setting_rows table' k = [r] \<and> ss_value r = [(''value'', v)] \<and>
      (d = None \<longrightarrow> ss_description r = (case setting_rows table k of [] \<Rightarrow> None | q # _ \<Rightarrow> ss_description q))"
    "distinct (map ss_key table) \<Longrightarrow> distinct (map ss_key table')" by blast+
qed

lemma get_setting_cong: "setting_rows table k = setting_rows table' k \<Longrightarrow> get_setting table k = get_setting table' k"
  by (simp add: get_setting_def)

lemma setting_total:
  assumes "distinct (map ss_key table)"
  shows "\<exists>v. get_setting table k = Inr v" "\<exists>table'. set_setting k v d table = Inr table'"
  using assms by (cases rule: setting_rows_cases [of table k]; simp add: get_setting_def set_setting_def)+

lemma parse_mode_value [simp]: "parse_trading_mode (JStr (trading_mode_value m)) = Some m"
  by (cases m) (simp_all add: parse_trading_mode_def)

lemma parse_trading_mode_iff: "parse_trading_mode j = Some m \<longleftrightarrow> j = JStr (trading_mode_value m)"
  by (cases m; cases j) (auto simp: parse_trading_mode_def)

lemma parse_engine_state_iff: "parse_engine_state j = Some s \<longleftrightarrow> j = JStr (engine_state_value s)"
  by (cases s; cases j) (auto simp: parse_engine_state_def)

lemma restored_live:
  assumes "restored_mode t stored armed = (ModeLIVE, a)"
  shows "armed" "a" "tc_live_trading_enabled t"
    "stored = JStr ''LIVE'' \<or> tc_mode t = ModeLIVE"
  using assms
  by (auto simp: restored_mode_def Let_def parse_trading_mode_iff split: if_splits option.splits)

lemma restored_running: "restored_engine stored = EngRUNNING \<longleftrightarrow> stored = JStr ''RUNNING''"
  by (cases stored) (auto simp: restored_engine_def parse_engine_state_def)

lemma load_cases:
  assumes "load_application_state st table = Inr s"
  obtains stored_mode stored_engine armed where "get_setting table KEY_TRADING_MODE = Inr stored_mode"
    "get_setting table KEY_ENGINE_STATE = Inr stored_engine" "get_setting table KEY_LIVE_ARMED = Inr armed"
    "restored_mode (st_trading st) stored_mode (py_bool armed) = (ap_mode s, ap_live_armed s)"
    "ap_engine_state s = restored_engine stored_engine"
  using assms by (auto simp: load_application_state_def split: sum.splits prod.splits)

section \<open>Properties\<close>

text \<open>
  What is set is what is read back. In a table whose keys are unique \<open>set_setting\<close> succeeds, the
  value read under its key is the one set, every other key reads as before, a description is only replaced by
  a given one, and the keys stay unique.
\<close>

theorem setting_roundtrip:
  assumes "distinct (map ss_key table)"
  shows "\<exists>table'. set_setting k v d table = Inr table' \<and> get_setting table' k = Inr v \<and>
    (\<forall>k'. k' = k \<or> get_setting table' k' = get_setting table k') \<and> distinct (map ss_key table') \<and>
    (d = None \<longrightarrow> map ss_description (setting_rows table' k) =
       (if setting_rows table k = [] then [None] else map ss_description (setting_rows table k)))"
proof -
  obtain table' where t: "set_setting k v d table = Inr table'" using setting_total(2) [OF assms] by blast
  note r = set_setting_rows [OF t]
  have "get_setting table' k = Inr v" using r(2) by (auto simp: get_setting_def dict_get_def)
  moreover have "d = None \<longrightarrow> map ss_description (setting_rows table' k) =
       (if setting_rows table k = [] then [None] else map ss_description (setting_rows table k))"
    using assms by (cases rule: setting_rows_cases [of table k]) (use r(2) in auto)
  ultimately show ?thesis using t r(3) [OF assms] get_setting_cong [OF r(1)] by blast
qed

theorem setting_roundtrip_witness:
  "\<exists>table'. set_setting KEY_ENGINE_STATE (JStr ''PAUSED'') None
      [\<lparr>ss_key = KEY_LIVE_ARMED, ss_value = [(''value'', JBool True)], ss_description = None\<rparr>] = Inr table' \<and>
    get_setting table' KEY_ENGINE_STATE = Inr (JStr ''PAUSED'') \<and> get_setting table' KEY_LIVE_ARMED = Inr (JBool True)"
proof -
  let ?table = "[\<lparr>ss_key = KEY_LIVE_ARMED, ss_value = [(''value'', JBool True)], ss_description = None\<rparr>]"
  have "KEY_LIVE_ARMED \<noteq> KEY_ENGINE_STATE" by (simp add: KEY_LIVE_ARMED_def KEY_ENGINE_STATE_def)
  moreover have "get_setting ?table KEY_LIVE_ARMED = Inr (JBool True)" by (simp add: get_setting_def setting_rows_def dict_get_def)
  ultimately show ?thesis using setting_roundtrip [of ?table KEY_ENGINE_STATE "JStr ''PAUSED''" None] by fastforce
qed

text \<open>
  A restart never enables live trading by itself. The restored mode is LIVE only if the stored arm flag is set, live
  trading is enabled in the configuration and LIVE was stored or configured; an engine runs only if running was what was
  stored; and whatever is stored, loading a table with unique keys succeeds.
\<close>

theorem live_never_implicit:
  assumes "distinct (map ss_key table)"
  shows "\<exists>s. load_application_state st table = Inr s \<and>
    (ap_mode s = ModeLIVE \<longrightarrow> (\<exists>armed. get_setting table KEY_LIVE_ARMED = Inr armed \<and> py_bool armed) \<and> ap_live_armed s \<and>
       tc_live_trading_enabled (st_trading st) \<and>
       (get_setting table KEY_TRADING_MODE = Inr (JStr ''LIVE'') \<or> tc_mode (st_trading st) = ModeLIVE)) \<and>
    (ap_engine_state s = EngRUNNING \<longleftrightarrow> get_setting table KEY_ENGINE_STATE = Inr (JStr ''RUNNING''))"
proof -
  obtain s where s: "load_application_state st table = Inr s"
    using setting_total(1) [OF assms, of KEY_TRADING_MODE] setting_total(1) [OF assms, of KEY_ENGINE_STATE]
      setting_total(1) [OF assms, of KEY_LIVE_ARMED] setting_total(1) [OF assms, of KEY_LAST_SHUTDOWN]
    by (auto simp: load_application_state_def split_beta)
  then show ?thesis
  proof (rule load_cases)
    fix mode engine armed
    assume m: "get_setting table KEY_TRADING_MODE = Inr mode" "get_setting table KEY_ENGINE_STATE = Inr engine"
      "get_setting table KEY_LIVE_ARMED = Inr armed"
      "restored_mode (st_trading st) mode (py_bool armed) = (ap_mode s, ap_live_armed s)"
      "ap_engine_state s = restored_engine engine"
    have "ap_mode s = ModeLIVE \<longrightarrow> py_bool armed \<and> ap_live_armed s \<and> tc_live_trading_enabled (st_trading st) \<and>
        (mode = JStr ''LIVE'' \<or> tc_mode (st_trading st) = ModeLIVE)"
      using m(4) restored_live by metis
    with s m show ?thesis by (intro exI [of _ s]) (simp add: restored_running)
  qed
qed

theorem live_never_implicit_witness:
  "\<exists>s. load_application_state default_settings
      [\<lparr>ss_key = KEY_TRADING_MODE, ss_value = [(''value'', JStr ''LIVE'')], ss_description = None\<rparr>,
       \<lparr>ss_key = KEY_LIVE_ARMED, ss_value = [(''value'', JBool True)], ss_description = None\<rparr>] = Inr s \<and>
    ap_mode s \<noteq> ModeLIVE \<and> ap_engine_state s \<noteq> EngRUNNING"
proof -
  let ?table = "[\<lparr>ss_key = KEY_TRADING_MODE, ss_value = [(''value'', JStr ''LIVE'')], ss_description = None\<rparr>,
       \<lparr>ss_key = KEY_LIVE_ARMED, ss_value = [(''value'', JBool True)], ss_description = None\<rparr>]"
  have "distinct (map ss_key ?table)" by (simp add: KEY_TRADING_MODE_def KEY_LIVE_ARMED_def)
  moreover have "\<not> tc_live_trading_enabled (st_trading default_settings)"
    by (simp add: default_settings_def default_trading_config_def)
  moreover have "get_setting ?table KEY_ENGINE_STATE = Inr JNull"
    by (simp add: get_setting_def setting_rows_def KEY_TRADING_MODE_def KEY_LIVE_ARMED_def KEY_ENGINE_STATE_def)
  ultimately show ?thesis using live_never_implicit [of ?table default_settings] by auto
qed

end
