(* ===== verification/Account.thy ===== *)
theory Account
  imports BacktestService
begin

text \<open>
  \<open>paper_trading/account.py\<close>: the paper account in the database. Every request rebuilds the
  portfolio and the engine from the position and trade rows, runs the engine, and writes the
  result back. The tables are a record; \<open>qz\<close> is the rounding of a \<open>Numeric\<close> column to its
  scale on writing (PostgreSQL's). The unrealised result of a position row, which no code fills,
  the fields of an order the paper venue leaves empty and the strategy version of orders and
  trades are left out. The exchange is the symbol table together with the ticker, which may fail. A call
  runs to its end before the next: requests that interleave at an \<open>await\<close> are not modelled, but
  \<open>double_open_never_closes\<close> says what they can do.
\<close>

section \<open>Tables\<close>

record paper_position =
  pp_id :: nat
  pp_symbol :: string
  pp_status :: position_status
  pp_quantity :: rat
  pp_entry_price :: rat
  pp_entry_time :: int
  pp_exit_price :: "rat option"
  pp_exit_time :: "int option"
  pp_stop_loss :: "rat option"
  pp_take_profit :: "rat option"
  pp_trailing_stop :: "rat option"
  pp_realised_pnl :: "rat option"
  pp_fees_paid :: rat
  pp_signal_id :: "int option"
  pp_strategy_version :: string

record paper_order =
  po_exit :: bool
  po_signal_id :: "int option"
  po_symbol :: string
  po_side :: order_side
  po_type :: order_type
  po_status :: order_status
  po_quantity :: rat
  po_price :: rat
  po_filled_quantity :: rat
  po_average_fill_price :: rat
  po_fee :: rat
  po_submitted_at :: int

record trade_row =
  tw_position_id :: nat
  tw_trade :: closed_trade

record snapshot =
  sp_timestamp :: int
  sp_quote_balance :: rat
  sp_positions_value :: rat
  sp_equity :: rat
  sp_realised_pnl :: rat
  sp_unrealised_pnl :: rat
  sp_open_positions :: nat

record account_db =
  ad_positions :: "paper_position list"
  ad_orders :: "paper_order list"
  ad_trades :: "trade_row list"
  ad_snapshots :: "snapshot list"
  ad_risk_events :: "risk_event list"

definition empty_account :: account_db where
  "empty_account = \<lparr>ad_positions = [], ad_orders = [], ad_trades = [], ad_snapshots = [], ad_risk_events = []\<rparr>"

text \<open>The exchange as a request sees it; \<open>None\<close> when the service was never initialised.\<close>

record exchange =
  ex_metadata :: exchange_metadata
  ex_ticker :: "string \<Rightarrow> exn + rat"

section \<open>Rebuilding the account\<close>

definition load_closed_trades :: "account_db \<Rightarrow> closed_trade list" where
  "load_closed_trades db = sort_key ct_exit_time (map tw_trade (ad_trades db))"

definition open_rows :: "account_db \<Rightarrow> paper_position list" where
  "open_rows db = filter (\<lambda>r. pp_status r = PosOPEN) (ad_positions db)"

definition snapshot_peak :: "account_db \<Rightarrow> rat" where
  "snapshot_peak db = (case map sp_equity (ad_snapshots db) of [] \<Rightarrow> 0 | x # xs \<Rightarrow> fold max xs x)"

fun last_exit_times :: "closed_trade list \<Rightarrow> (string, int) dict \<Rightarrow> (string, int) dict" where
  "last_exit_times [] acc = acc"
| "last_exit_times (t # ts) acc =
     last_exit_times ts
       (case map_of acc (ct_symbol t) of
          None \<Rightarrow> AList.update (ct_symbol t) (ct_exit_time t) acc
        | Some current \<Rightarrow> if current < ct_exit_time t
            then AList.update (ct_symbol t) (ct_exit_time t) acc else acc)"

definition position_of_row :: "paper_position \<Rightarrow> open_position" where
  "position_of_row r = \<lparr>op_symbol = pp_symbol r, op_quantity = pp_quantity r, op_entry_price = pp_entry_price r,
     op_entry_time = pp_entry_time r, op_stop_loss = pp_stop_loss r, op_take_profit = pp_take_profit r,
     op_trailing_distance = pp_trailing_stop r, op_fees_paid = pp_fees_paid r,
     op_highest_price = Some (pp_entry_price r), op_lowest_price = Some (pp_entry_price r),
     op_signal_id = pp_signal_id r, op_status = PosOPEN\<rparr>"

definition row_cost :: "paper_position \<Rightarrow> rat" where
  "row_cost r = dadd (dmul (pp_quantity r) (pp_entry_price r)) (pp_fees_paid r)"

definition initial_balance_of :: "settings \<Rightarrow> rat" where
  "initial_balance_of st = decimal_of_float (pt_initial_balance (st_paper_trading st))"

definition load_portfolio :: "settings \<Rightarrow> account_db \<Rightarrow> portfolio" where
  "load_portfolio st db =
     (let initial = initial_balance_of st; trades = load_closed_trades db; rows = open_rows db;
          positions = foldl (\<lambda>d r. AList.update (pp_symbol r) (position_of_row r) d) [] rows;
          open_cost = foldl (\<lambda>acc r. dadd acc (row_cost r)) 0 rows;
          realised = dsum (map ct_net_pnl trades);
          fees = dadd (dsum (map ct_fees trades)) (dsum (map (\<lambda>kp. op_fees_paid (snd kp)) positions));
          quote = dsub (dadd initial realised) open_cost
      in post_init \<lparr>pf_quote_balance = quote, pf_initial_balance = initial, pf_positions = positions,
           pf_closed_trades = trades, pf_realised_pnl = realised, pf_total_fees = fees,
           pf_peak_equity = max (max initial (dadd quote open_cost)) (snapshot_peak db)\<rparr>)"

definition account_engine :: "settings \<Rightarrow> portfolio \<Rightarrow> paper_engine" where
  "account_engine st pf =
     (init_engine pf (st_risk st) (Some \<lparr>sc_fee_rate = decimal_of_float (tc_taker_fee (st_trading st)),
        sc_slippage_bps = decimal_of_float (pt_slippage_bps (st_paper_trading st)),
        sc_allow_partial_fills = pt_allow_partial_fills (st_paper_trading st)\<rparr>))
     \<lparr>pe_last_exit_time := last_exit_times (pf_closed_trades pf) []\<rparr>"

section \<open>Writing\<close>

definition reference_price_of :: "exchange option \<Rightarrow> string \<Rightarrow> exn + rat" where
  "reference_price_of ex s = (case ex of None \<Rightarrow> Inl ServiceUnavailableError | Some x \<Rightarrow> ex_ticker x s)"

definition snapshot_of :: "(nat \<Rightarrow> rat \<Rightarrow> rat) \<Rightarrow> portfolio \<Rightarrow> prices \<Rightarrow> int \<Rightarrow> snapshot" where
  "snapshot_of qz pf prices now = \<lparr>sp_timestamp = now, sp_quote_balance = qz 10 (pf_quote_balance pf),
     sp_positions_value = qz 10 (positions_value pf prices), sp_equity = qz 10 (equity pf prices),
     sp_realised_pnl = qz 10 (pf_realised_pnl pf), sp_unrealised_pnl = qz 10 (unrealised_pnl pf prices),
     sp_open_positions = length (pf_positions pf)\<rparr>"

definition order_of ::
  "(nat \<Rightarrow> rat \<Rightarrow> rat) \<Rightarrow> bool \<Rightarrow> int option \<Rightarrow> string \<Rightarrow> order_side \<Rightarrow> rat \<Rightarrow> rat \<Rightarrow> rat \<Rightarrow> rat \<Rightarrow> int \<Rightarrow> paper_order" where
  "order_of qz is_exit sid s side quantity price fill_price fee now =
     \<lparr>po_exit = is_exit, po_signal_id = sid, po_symbol = s, po_side = side, po_type = MARKET,
      po_status = OrdFILLED, po_quantity = qz 12 quantity, po_price = qz 10 price,
      po_filled_quantity = qz 12 quantity, po_average_fill_price = qz 10 fill_price,
      po_fee = qz 10 fee, po_submitted_at = now\<rparr>"

definition row_of_position :: "(nat \<Rightarrow> rat \<Rightarrow> rat) \<Rightarrow> nat \<Rightarrow> settings \<Rightarrow> open_position \<Rightarrow> paper_position" where
  "row_of_position qz i st p = \<lparr>pp_id = i, pp_symbol = op_symbol p, pp_status = PosOPEN,
     pp_quantity = qz 12 (op_quantity p), pp_entry_price = qz 10 (op_entry_price p),
     pp_entry_time = op_entry_time p, pp_exit_price = None, pp_exit_time = None,
     pp_stop_loss = map_option (qz 10) (op_stop_loss p), pp_take_profit = map_option (qz 10) (op_take_profit p),
     pp_trailing_stop = map_option (qz 10) (op_trailing_distance p), pp_realised_pnl = None,
     pp_fees_paid = qz 10 (op_fees_paid p), pp_signal_id = op_signal_id p,
     pp_strategy_version = mc_strategy_version (st_models st)\<rparr>"

definition closed_row :: "(nat \<Rightarrow> rat \<Rightarrow> rat) \<Rightarrow> closed_trade \<Rightarrow> paper_position \<Rightarrow> paper_position" where
  "closed_row qz t r = r\<lparr>pp_status := PosCLOSED, pp_exit_price := Some (qz 10 (ct_exit_price t)),
     pp_exit_time := Some (ct_exit_time t), pp_realised_pnl := Some (qz 10 (ct_net_pnl t)),
     pp_fees_paid := qz 10 (ct_fees t)\<rparr>"

definition stored_trade :: "(nat \<Rightarrow> rat \<Rightarrow> rat) \<Rightarrow> closed_trade \<Rightarrow> closed_trade" where
  "stored_trade qz t = t\<lparr>ct_quantity := qz 12 (ct_quantity t), ct_entry_price := qz 10 (ct_entry_price t),
     ct_exit_price := qz 10 (ct_exit_price t), ct_gross_pnl := qz 10 (ct_gross_pnl t),
     ct_fees := qz 10 (ct_fees t), ct_slippage_cost := qz 10 (ct_slippage_cost t),
     ct_net_pnl := qz 10 (ct_net_pnl t), ct_return_pct := qz 8 (ct_return_pct t),
     ct_mae := map_option (qz 8) (ct_mae t), ct_mfe := map_option (qz 8) (ct_mfe t)\<rparr>"

section \<open>Opening\<close>

text \<open>
  The objects returned are the ones in memory (\<open>expire_on_commit=False\<close>), not the rounded rows.
\<close>

definition unrounded :: "nat \<Rightarrow> rat \<Rightarrow> rat" where
  "unrounded scale x = x"

record open_trade_result =
  ot_approved :: bool
  ot_position :: "paper_position option"
  ot_order :: "paper_order option"
  ot_rejection_rule :: "risk_rule option"
  ot_rejection_reason :: "risk_reason option"

definition entry_prices :: "portfolio \<Rightarrow> string \<Rightarrow> rat \<Rightarrow> prices" where
  "entry_prices pf s price = AList.update s price (map (\<lambda>kp. (fst kp, op_entry_price (snd kp))) (pf_positions pf))"

definition assess_entry ::
  "settings \<Rightarrow> account_db \<Rightarrow> exchange option \<Rightarrow> string \<Rightarrow> rat \<Rightarrow> rat \<Rightarrow> int option \<Rightarrow> int \<Rightarrow> paper_engine \<times> risk_assessment" where
  "assess_entry st db ex s price stop sid now =
     (let pf = load_portfolio st db in
      evaluate_entry (account_engine st pf) s price (Some stop)
        (fst (resolve_symbol_filters (map_option ex_metadata ex) s)) (entry_prices pf s price) now
        (Some default_system) None None sid)"

definition open_paper_trade ::
  "(nat \<Rightarrow> rat \<Rightarrow> rat) \<Rightarrow> settings \<Rightarrow> exchange option \<Rightarrow> account_db \<Rightarrow> string \<Rightarrow> rat \<Rightarrow> rat option \<Rightarrow> rat option
     \<Rightarrow> int option \<Rightarrow> int \<Rightarrow> account_db \<times> (exn + open_trade_result)" where
  "open_paper_trade qz st ex db s stop take_profit trailing sid now =
     (let pf = load_portfolio st db in
      if has_key (pf_positions pf) s then (db, Inl ValidationError)
      else case reference_price_of ex s of
          Inl err \<Rightarrow> (db, Inl err)
        | Inr price \<Rightarrow>
            (case assess_entry st db ex s price stop sid now of
               (e, a) \<Rightarrow>
                 if \<not> approved a then
                   (db\<lparr>ad_risk_events := fst (record_risk_event (ad_risk_events db) a now (Some s) ''PAPER'' sid)\<rparr>,
                    Inr \<lparr>ot_approved = False, ot_position = None, ot_order = None,
                         ot_rejection_rule = Some (ra_rule a), ot_rejection_reason = Some (ra_reason a)\<rparr>)
                 else
                   (case sim_open_position e a s price now
                           (fst (resolve_symbol_filters (map_option ex_metadata ex) s)) (Some stop) take_profit trailing None sid of
                      Inl err \<Rightarrow> (db, Inl err)
                    | Inr (e', None) \<Rightarrow> (db, Inl ValidationError)
                    | Inr (e', Some p) \<Rightarrow>
                        (let order = (\<lambda>q. order_of q False sid s BUY (op_quantity p) price (op_entry_price p) (op_fees_paid p) now);
                             row = (\<lambda>q. row_of_position q (length (ad_positions db)) st p)
                         in (db\<lparr>ad_orders := ad_orders db @ [order qz], ad_positions := ad_positions db @ [row qz],
                               ad_snapshots := ad_snapshots db @
                                 [snapshot_of qz (pe_portfolio e') (entry_prices pf s price) now]\<rparr>,
                             Inr \<lparr>ot_approved = True, ot_position = Some (row unrounded), ot_order = Some (order unrounded),
                                  ot_rejection_rule = None, ot_rejection_reason = None\<rparr>)))))"

section \<open>Closing\<close>

text \<open>\<open>scalar_one_or_none\<close> over the open rows of a symbol raises on two rows.\<close>

definition close_paper_trade ::
  "(nat \<Rightarrow> rat \<Rightarrow> rat) \<Rightarrow> settings \<Rightarrow> exchange option \<Rightarrow> account_db \<Rightarrow> string \<Rightarrow> exit_reason \<Rightarrow> rat option \<Rightarrow> int
     \<Rightarrow> account_db \<times> (exn + paper_position)" where
  "close_paper_trade qz st ex db s reason price_opt now =
     (case filter (\<lambda>r. pp_symbol r = s) (open_rows db) of
        [] \<Rightarrow> (db, Inl ValidationError)
      | [r] \<Rightarrow>
          (case (case price_opt of None \<Rightarrow> reference_price_of ex s | Some p \<Rightarrow> Inr p) of
             Inl err \<Rightarrow> (db, Inl err)
           | Inr price \<Rightarrow>
               (case sim_close_position (account_engine st (load_portfolio st db)) s price now reason
                       (Some (fst (resolve_symbol_filters (map_option ex_metadata ex) s))) of
                  Inl err \<Rightarrow> (db, Inl err)
                | Inr (e', None) \<Rightarrow> (db, Inl ValidationError)
                | Inr (e', Some t) \<Rightarrow>
                    (let order = order_of qz True (pp_signal_id r) s SELL (ct_quantity t) price (ct_exit_price t)
                           (dsub (ct_fees t) (pp_fees_paid r)) now;
                         row = closed_row qz t r
                     in (db\<lparr>ad_orders := ad_orders db @ [order],
                           ad_positions := map (\<lambda>x. if pp_id x = pp_id r then row else x) (ad_positions db),
                           ad_trades := ad_trades db @ [\<lparr>tw_position_id = pp_id r, tw_trade = stored_trade qz t\<rparr>],
                           ad_snapshots := ad_snapshots db @ [snapshot_of qz (pe_portfolio e') [(s, price)] now]\<rparr>,
                         Inr row))))
      | _ \<Rightarrow> (db, Inl DatabaseError))"

section \<open>Monitoring\<close>

definition set_stop :: "nat \<Rightarrow> rat \<Rightarrow> account_db \<Rightarrow> account_db" where
  "set_stop i stop db =
     db\<lparr>ad_positions := map (\<lambda>x. if pp_id x = i then x\<lparr>pp_stop_loss := Some stop\<rparr> else x) (ad_positions db)\<rparr>"

definition trail_row :: "(nat \<Rightarrow> rat \<Rightarrow> rat) \<Rightarrow> paper_position \<Rightarrow> rat \<Rightarrow> account_db \<Rightarrow> account_db" where
  "trail_row qz r price db =
     (case pp_trailing_stop r of
        None \<Rightarrow> db
      | Some d \<Rightarrow>
          if d \<le> 0 then db
          else (case update_trailing_stop (pp_stop_loss r) price (Some d) of
                  None \<Rightarrow> db
                | Some new_stop \<Rightarrow>
                    if (case pp_stop_loss r of None \<Rightarrow> True | Some s \<Rightarrow> s < new_stop)
                    then set_stop (pp_id r) (qz 10 new_stop) db else db))"

text \<open>
  The rows found open at the start of a tick, one after the other. A commit happens with every
  close; the second database is the one an exception falls back to.
\<close>

fun monitor_rows ::
  "(nat \<Rightarrow> rat \<Rightarrow> rat) \<Rightarrow> settings \<Rightarrow> exchange \<Rightarrow> int \<Rightarrow> paper_position list \<Rightarrow> account_db \<Rightarrow> account_db \<Rightarrow> prices \<Rightarrow> int
     \<Rightarrow> account_db \<times> (exn + prices \<times> int)" where
  "monitor_rows qz st ex now [] db durable prices n = (db, Inr (prices, n))"
| "monitor_rows qz st ex now (r # rs) db durable prices n =
     (case ex_ticker ex (pp_symbol r) of
        Inl _ \<Rightarrow> monitor_rows qz st ex now rs db durable prices n
      | Inr price \<Rightarrow>
          (let prices' = AList.update (pp_symbol r) price prices in
           case exit_reason_for_bar price price (pp_stop_loss r) (pp_take_profit r) of
             Some reason \<Rightarrow>
               (case close_paper_trade qz st (Some ex) db (pp_symbol r) reason
                       (if reason = STOP_LOSS then pp_stop_loss r else pp_take_profit r) now of
                  (db', Inr _) \<Rightarrow> monitor_rows qz st ex now rs db' db' prices' (n + 1)
                | (db', Inl err) \<Rightarrow>
                    if err = ValidationError then monitor_rows qz st ex now rs db' durable prices' n
                    else (durable, Inl err))
           | None \<Rightarrow> monitor_rows qz st ex now rs (trail_row qz r price db) durable prices' n))"

definition monitor_open_positions ::
  "(nat \<Rightarrow> rat \<Rightarrow> rat) \<Rightarrow> settings \<Rightarrow> exchange option \<Rightarrow> account_db \<Rightarrow> int \<Rightarrow> account_db \<times> (exn + int)" where
  "monitor_open_positions qz st ex db now =
     (case ex of
        None \<Rightarrow> (db, Inr 0)
      | Some x \<Rightarrow>
          if open_rows db = [] then (db, Inr 0)
          else (case monitor_rows qz st x now (open_rows db) db db [] 0 of
                  (db', Inl err) \<Rightarrow> (db', Inl err)
                | (db', Inr (prices, n)) \<Rightarrow>
                    (if prices = [] then db'
                     else db'\<lparr>ad_snapshots := ad_snapshots db' @ [snapshot_of qz (load_portfolio st db') prices now]\<rparr>,
                     Inr n)))"

section \<open>What a call does\<close>

lemma open_cases:
  assumes "open_paper_trade qz st ex db s stop tp tr sid now = (db', r)"
  obtains
    (failed) err where "db' = db" "r = Inl err"
  | (refused) price e a where "has_key (pf_positions (load_portfolio st db)) s = False"
      "reference_price_of ex s = Inr price" "assess_entry st db ex s price stop sid now = (e, a)"
      "\<not> approved a"
      "db' = db\<lparr>ad_risk_events := fst (record_risk_event (ad_risk_events db) a now (Some s) ''PAPER'' sid)\<rparr>"
      "\<exists>x. r = Inr x \<and> \<not> ot_approved x \<and> ot_rejection_rule x = Some (ra_rule a)"
  | (bought) price e a e' p o_row where "has_key (pf_positions (load_portfolio st db)) s = False"
      "reference_price_of ex s = Inr price" "assess_entry st db ex s price stop sid now = (e, a)"
      "approved a"
      "sim_open_position e a s price now (fst (resolve_symbol_filters (map_option ex_metadata ex) s))
         (Some stop) tp tr None sid = Inr (e', Some p)"
      "db' = db\<lparr>ad_orders := ad_orders db @ [o_row],
         ad_positions := ad_positions db @ [row_of_position qz (length (ad_positions db)) st p],
         ad_snapshots := ad_snapshots db @ [snapshot_of qz (pe_portfolio e') (entry_prices (load_portfolio st db) s price) now]\<rparr>"
      "\<exists>x. r = Inr x \<and> ot_approved x"
proof (cases "has_key (pf_positions (load_portfolio st db)) s")
  case True
  then show thesis using assms by (auto simp: open_paper_trade_def intro: failed)
next
  case False
  show thesis
  proof (cases "reference_price_of ex s")
    case (Inl err)
    then show thesis using assms False by (auto simp: open_paper_trade_def intro: failed)
  next
    case (Inr price)
    obtain e a where ea: "assess_entry st db ex s price stop sid now = (e, a)" by fastforce
    let ?f = "fst (resolve_symbol_filters (map_option ex_metadata ex) s)"
    let ?o = "sim_open_position e a s price now ?f (Some stop) tp tr None sid"
    show thesis
    proof (cases "approved a")
      case no: False
      then show thesis using assms False Inr ea
        by (intro refused [OF _ Inr ea no]) (auto simp: open_paper_trade_def)
    next
      case yes: True
      consider err where "?o = Inl err" | e' where "?o = Inr (e', None)" | e' p where "?o = Inr (e', Some p)"
        by (metis not_Some_eq obj_sumE surj_pair)
      then show thesis
      proof cases
        case 3
        then show thesis using assms False Inr ea yes
          by (intro bought [OF _ Inr ea yes 3]) (auto simp: open_paper_trade_def Let_def)
      qed (use assms False Inr ea yes in \<open>auto simp: open_paper_trade_def intro: failed\<close>)
    qed
  qed
qed

lemma close_cases:
  assumes "close_paper_trade qz st ex db s reason price_opt now = (db', r)"
  obtains
    (failed) err where "db' = db" "r = Inl err"
  | (sold) row price e' t o_row snap where "filter (\<lambda>r. pp_symbol r = s) (open_rows db) = [row]"
      "(case price_opt of None \<Rightarrow> reference_price_of ex s | Some p \<Rightarrow> Inr p) = Inr price"
      "sim_close_position (account_engine st (load_portfolio st db)) s price now reason
         (Some (fst (resolve_symbol_filters (map_option ex_metadata ex) s))) = Inr (e', Some t)"
      "db' = db\<lparr>ad_orders := ad_orders db @ [o_row],
         ad_positions := map (\<lambda>x. if pp_id x = pp_id row then closed_row qz t row else x) (ad_positions db),
         ad_trades := ad_trades db @ [\<lparr>tw_position_id = pp_id row, tw_trade = stored_trade qz t\<rparr>],
         ad_snapshots := ad_snapshots db @ [snap]\<rparr>"
      "r = Inr (closed_row qz t row)"
proof -
  consider (none) "filter (\<lambda>r. pp_symbol r = s) (open_rows db) = []"
    | (one) row where "filter (\<lambda>r. pp_symbol r = s) (open_rows db) = [row]"
    | (more) x y zs where "filter (\<lambda>r. pp_symbol r = s) (open_rows db) = x # y # zs"
    by (metis list.exhaust)
  then show thesis
  proof cases
    case one
    let ?p = "case price_opt of None \<Rightarrow> reference_price_of ex s | Some p \<Rightarrow> Inr p"
    show thesis
    proof (cases ?p)
      case (Inl err)
      then show thesis using assms one by (auto simp: close_paper_trade_def intro: failed)
    next
      case (Inr price)
      let ?c = "sim_close_position (account_engine st (load_portfolio st db)) s price now reason
         (Some (fst (resolve_symbol_filters (map_option ex_metadata ex) s)))"
      consider err where "?c = Inl err" | e' where "?c = Inr (e', None)" | e' t where "?c = Inr (e', Some t)"
        by (metis not_Some_eq obj_sumE surj_pair)
      then show thesis
      proof cases
        case 3
        then show thesis using assms one Inr
          by (intro sold [OF one Inr 3,
                where o_row = "order_of qz True (pp_signal_id row) s SELL (ct_quantity t) price
                  (ct_exit_price t) (dsub (ct_fees t) (pp_fees_paid row)) now"
                and snap = "snapshot_of qz (pe_portfolio e') [(s, price)] now"])
            (auto simp: close_paper_trade_def Let_def)
      qed (use assms one Inr in \<open>auto simp: close_paper_trade_def intro: failed\<close>)
    qed
  qed (use assms in \<open>auto simp: close_paper_trade_def intro: failed\<close>)
qed

section \<open>The book a database stands for\<close>

definition book :: "settings \<Rightarrow> account_db \<Rightarrow> string \<Rightarrow> open_position option" where
  "book st db = map_of (pf_positions (load_portfolio st db))"

lemma load_positions:
  "pf_positions (load_portfolio st db) =
     foldl (\<lambda>d r. AList.update (pp_symbol r) (position_of_row r) d) [] (open_rows db)"
  by (simp add: load_portfolio_def Let_def post_init_def)

lemma foldl_update_map_of:
  "map_of (foldl (\<lambda>d r. AList.update (f r) (g r) d) d0 rows) k =
     (case filter (\<lambda>r. f r = k) rows of [] \<Rightarrow> map_of d0 k | r # rs \<Rightarrow> Some (g (List.last (r # rs))))"
  by (induction rows arbitrary: d0) (auto simp: map_of_update split: list.splits)

lemma book_row:
  "book st db s = (case filter (\<lambda>r. pp_symbol r = s) (open_rows db) of [] \<Rightarrow> None
     | r # rs \<Rightarrow> Some (position_of_row (List.last (r # rs))))"
  by (simp add: book_def load_positions foldl_update_map_of split: list.split)

lemma book_none: "book st db s = None \<longleftrightarrow> s \<notin> pp_symbol ` set (open_rows db)"
proof (cases "filter (\<lambda>r. pp_symbol r = s) (open_rows db)")
  case Nil
  then show ?thesis by (auto simp: book_row filter_empty_conv)
next
  case (Cons r rs)
  then have "r \<in> set (filter (\<lambda>r. pp_symbol r = s) (open_rows db))" by simp
  then have "s \<in> pp_symbol ` set (open_rows db)" by auto
  with Cons show ?thesis by (simp add: book_row)
qed

lemma has_key_book: "has_key (pf_positions (load_portfolio st db)) s \<longleftrightarrow> book st db s \<noteq> None"
  by (simp add: has_key_def book_def)

lemma open_length: "length (pf_positions (load_portfolio st db)) = card (pp_symbol ` set (open_rows db))"
proof -
  have d: "distinct (keys (foldl (\<lambda>d r. AList.update (pp_symbol r) (position_of_row r) d) d0 rows))"
    if "distinct (keys d0)" for d0 and rows :: "paper_position list"
    using that by (induction rows arbitrary: d0) (auto intro: inv_intros)
  have "set (keys (pf_positions (load_portfolio st db))) = {s. book st db s \<noteq> None}"
    by (auto simp: book_def map_of_eq_None_iff domIff dest: map_of_SomeD)
  moreover have "\<dots> = pp_symbol ` set (open_rows db)" by (auto simp: book_none)
  ultimately show ?thesis
    using distinct_card [OF d [of "[]" "open_rows db"]] by (simp add: load_positions)
qed

section \<open>The ledger invariant\<close>

text \<open>A row and the trade that closed it tell the same story.\<close>

definition row_ok :: "paper_position \<Rightarrow> bool" where
  "row_ok r \<longleftrightarrow> (pp_status r = PosOPEN \<and> pp_exit_price r = None \<and> pp_exit_time r = None \<and> pp_realised_pnl r = None) \<or>
     (pp_status r = PosCLOSED \<and> pp_exit_price r \<noteq> None \<and> pp_exit_time r \<noteq> None \<and> pp_realised_pnl r \<noteq> None)"

definition settles :: "closed_trade \<Rightarrow> paper_position \<Rightarrow> bool" where
  "settles t r \<longleftrightarrow> pp_status r = PosCLOSED \<and> pp_exit_price r = Some (ct_exit_price t) \<and>
     pp_exit_time r = Some (ct_exit_time t) \<and> pp_realised_pnl r = Some (ct_net_pnl t) \<and>
     pp_fees_paid r = ct_fees t \<and> pp_symbol r = ct_symbol t"

definition ledger_ok :: "account_db \<Rightarrow> bool" where
  "ledger_ok db \<longleftrightarrow>
     map pp_id (ad_positions db) = [0..<length (ad_positions db)] \<and>
     distinct (map pp_symbol (open_rows db)) \<and>
     (\<forall>r \<in> set (ad_positions db). row_ok r) \<and>
     distinct (map tw_position_id (ad_trades db)) \<and>
     (\<forall>t \<in> set (ad_trades db). \<exists>r \<in> set (ad_positions db). pp_id r = tw_position_id t \<and> settles (tw_trade t) r) \<and>
     length (ad_orders db) = length (ad_positions db) + length (ad_trades db) \<and>
     length (ad_trades db) + length (open_rows db) = length (ad_positions db)"

lemma empty_ledger: "ledger_ok empty_account"
  by (simp add: ledger_ok_def empty_account_def open_rows_def)

lemma ledger_ids: "ledger_ok db \<Longrightarrow> distinct (map pp_id (ad_positions db))"
  by (simp add: ledger_ok_def)

lemma same_row:
  "distinct (map pp_id rows) \<Longrightarrow> x \<in> set rows \<Longrightarrow> y \<in> set rows \<Longrightarrow> pp_id x = pp_id y \<Longrightarrow> x = y"
  by (auto simp: distinct_map dest: inj_onD)

lemma open_row_mem: "r \<in> set (open_rows db) \<longleftrightarrow> r \<in> set (ad_positions db) \<and> pp_status r = PosOPEN"
  by (auto simp: open_rows_def)

text \<open>A new row.\<close>

lemma ledger_add:
  assumes ok: "ledger_ok db" and new: "row_ok row" "pp_status row = PosOPEN"
    "pp_id row = length (ad_positions db)" "pp_symbol row \<notin> pp_symbol ` set (open_rows db)"
  shows "ledger_ok (db\<lparr>ad_orders := ad_orders db @ [o_row], ad_positions := ad_positions db @ [row],
    ad_snapshots := snaps\<rparr>)"
  using assms by (auto simp: ledger_ok_def open_rows_def)

text \<open>An open row replaced by its closed form, with its trade.\<close>

definition replace_row :: "paper_position \<Rightarrow> paper_position list \<Rightarrow> paper_position list" where
  "replace_row row rows = map (\<lambda>x. if pp_id x = pp_id row then row else x) rows"

lemma replace_row_ids: "map pp_id (replace_row row rows) = map pp_id rows"
  by (auto simp: replace_row_def)

lemma replace_row_mem:
  "x \<in> set rows \<Longrightarrow> pp_id x = pp_id row \<Longrightarrow> row \<in> set (replace_row row rows)"
  "x \<in> set rows \<Longrightarrow> pp_id x \<noteq> pp_id row \<Longrightarrow> x \<in> set (replace_row row rows)"
  "y \<in> set (replace_row row rows) \<Longrightarrow> y = row \<or> (y \<in> set rows \<and> pp_id y \<noteq> pp_id row)"
  by (auto simp: replace_row_def image_iff split: if_splits)

lemma replace_row_split:
  assumes "distinct (map pp_id rows)" "old \<in> set rows" "pp_id old = pp_id row"
  obtains xs ys where "rows = xs @ old # ys" "replace_row row rows = xs @ row # ys"
proof -
  obtain xs ys where r: "rows = xs @ old # ys" using assms(2) by (auto simp: in_set_conv_decomp)
  with assms have "pp_id row \<notin> pp_id ` (set xs \<union> set ys)" by auto
  then have "\<forall>x \<in> set xs \<union> set ys. pp_id x \<noteq> pp_id row" by (metis image_eqI)
  then have "map (\<lambda>x. if pp_id x = pp_id row then row else x) xs = xs"
    "map (\<lambda>x. if pp_id x = pp_id row then row else x) ys = ys" by (force intro: map_idI)+
  with r assms(3) show thesis by (intro that) (simp_all add: replace_row_def)
qed

lemma ledger_settle:
  assumes ok: "ledger_ok db" and old: "old \<in> set (open_rows db)" and id: "pp_id row = pp_id old"
    and sym: "pp_symbol row = pp_symbol old" and s: "settles t row"
  shows "ledger_ok (db\<lparr>ad_orders := ad_orders db @ [o_row], ad_positions := replace_row row (ad_positions db),
    ad_trades := ad_trades db @ [\<lparr>tw_position_id = pp_id old, tw_trade = t\<rparr>], ad_snapshots := snaps\<rparr>)"
proof -
  have mem: "old \<in> set (ad_positions db)" "pp_status old = PosOPEN" using old by (auto simp: open_row_mem)
  obtain xs ys where r: "ad_positions db = xs @ old # ys" and r': "replace_row row (ad_positions db) = xs @ row # ys"
    using replace_row_split [OF ledger_ids [OF ok] mem(1)] id by metis
  have closed: "pp_status row = PosCLOSED" using s by (simp add: settles_def)
  have fresh: "pp_id old \<notin> tw_position_id ` set (ad_trades db)"
  proof
    assume "pp_id old \<in> tw_position_id ` set (ad_trades db)"
    then obtain x where "x \<in> set (ad_positions db)" "pp_id x = pp_id old" "pp_status x = PosCLOSED"
      using ok by (auto simp: ledger_ok_def settles_def)
    with same_row [OF ledger_ids [OF ok]] mem show False by fastforce
  qed
  have keep: "\<exists>q \<in> set (xs @ row # ys). pp_id q = tw_position_id u \<and> settles (tw_trade u) q"
    if "u \<in> set (ad_trades db)" for u
  proof -
    obtain q where "q \<in> set (ad_positions db)" "pp_id q = tw_position_id u" "settles (tw_trade u) q"
      using ok \<open>u \<in> set (ad_trades db)\<close> by (auto simp: ledger_ok_def)
    moreover from this have "q \<noteq> old" using mem(2) by (auto simp: settles_def)
    ultimately show ?thesis using r by auto
  qed
  have "row_ok row" using s by (simp add: settles_def row_ok_def)
  then show ?thesis
    using ok fresh keep closed mem(2) s id
    unfolding ledger_ok_def by (simp add: r' open_rows_def) (auto simp: r)
qed

text \<open>The facts a caller needs of the engine's results.\<close>

lemma bought_row:
  assumes "sim_open_position e a s price now f stop tp tr liq sid = Inr (e', Some p)"
  shows "op_symbol p = s" "row_ok (row_of_position qz i st p)" "pp_status (row_of_position qz i st p) = PosOPEN"
    "pp_id (row_of_position qz i st p) = i" "pp_symbol (row_of_position qz i st p) = s"
proof -
  show sym: "op_symbol p = s"
    by (rule sim_open_cases [OF assms]) (auto elim: portfolio_open_cases)
  show "row_ok (row_of_position qz i st p)" by (simp add: row_ok_def row_of_position_def)
  show "pp_status (row_of_position qz i st p) = PosOPEN" "pp_id (row_of_position qz i st p) = i"
    "pp_symbol (row_of_position qz i st p) = s"
    by (simp_all add: row_of_position_def sym)
qed

lemma sold_trade:
  assumes "sim_close_position e s price now reason f = Inr (e', Some t)"
  shows "ct_symbol t = s" "ct_exit_reason t = reason" "ct_exit_time t = now"
    "ct_exit_price t = apply_slippage price SELL (sc_slippage_bps (pe_config e))"
proof -
  have "ct_symbol t = s \<and> ct_exit_reason t = reason \<and> ct_exit_time t = now \<and>
    ct_exit_price t = apply_slippage price SELL (sc_slippage_bps (pe_config e))"
  proof (rule sim_close_cases [OF assms])
    fix pos fill trade p
    assume "Some t = Some trade"
      "portfolio_close (pe_portfolio e) s (fl_average_price fill) (fl_fee fill) (fl_slippage_cost fill) now reason = Inr (p, trade)"
      and f: "fill = simulate_fill (op_quantity pos) price SELL (sc_fee_rate (pe_config e))
        (sc_slippage_bps (pe_config e)) None (case f of None \<Rightarrow> None | Some f \<Rightarrow> step_size f)" "\<not> is_empty fill"
    moreover have "fl_average_price fill = apply_slippage price SELL (sc_slippage_bps (pe_config e))"
      by (rule simulate_fill_cases [OF f]) simp
    ultimately show ?thesis by (auto elim!: portfolio_close_cases simp: closed_trade_of_def Let_def)
  qed simp
  then show "ct_symbol t = s" "ct_exit_reason t = reason" "ct_exit_time t = now"
    "ct_exit_price t = apply_slippage price SELL (sc_slippage_bps (pe_config e))" by auto
qed

lemma closed_row_settles:
  "pp_symbol r = ct_symbol t \<Longrightarrow> settles (stored_trade qz t) (closed_row qz t r)"
  by (simp add: settles_def stored_trade_def closed_row_def)

lemma closed_row_keys [simp]:
  "pp_id (closed_row qz t r) = pp_id r" "pp_symbol (closed_row qz t r) = pp_symbol r"
  "pp_status (closed_row qz t r) = PosCLOSED"
  by (simp_all add: closed_row_def)

lemma open_ledger_ok:
  assumes "ledger_ok db" "open_paper_trade qz st ex db s stop tp tr sid now = (db', r)"
  shows "ledger_ok db'"
  using assms(2)
proof (cases rule: open_cases)
  case (refused price e a)
  then show ?thesis using assms(1) by (simp add: ledger_ok_def open_rows_def)
next
  case (bought price e a e' p o_row)
  have "s \<notin> pp_symbol ` set (open_rows db)" using bought(1) by (simp add: has_key_book book_none)
  then show ?thesis
    unfolding bought(6) using assms(1) bought_row [OF bought(5)] by (intro ledger_add) simp_all
qed (use assms(1) in simp)

lemma sold_old:
  assumes "filter (\<lambda>r. pp_symbol r = s) (open_rows db) = [row]"
  shows "row \<in> set (open_rows db)" "pp_symbol row = s"
proof -
  have "row \<in> set (filter (\<lambda>r. pp_symbol r = s) (open_rows db))" by (simp add: assms)
  then show "row \<in> set (open_rows db)" "pp_symbol row = s" by simp_all
qed

lemma close_ledger_ok:
  assumes "ledger_ok db" "close_paper_trade qz st ex db s reason p now = (db', r)"
  shows "ledger_ok db'"
  using assms(2)
proof (cases rule: close_cases)
  case (sold row price e' t o_row snap)
  note old = sold_old [OF sold(1)] and t = sold_trade [OF sold(3)]
  have eq: "map (\<lambda>x. if pp_id x = pp_id row then closed_row qz t row else x) (ad_positions db) =
      replace_row (closed_row qz t row) (ad_positions db)"
    by (simp add: replace_row_def)
  have "settles (stored_trade qz t) (closed_row qz t row)"
    using old t by (intro closed_row_settles) simp
  then show ?thesis
    unfolding sold(4) eq using assms(1) old by (intro ledger_settle) simp_all
qed (use assms(1) in simp)

text \<open>A stop written over an open row.\<close>

lemma set_stop_ledger_ok: "ledger_ok db \<Longrightarrow> ledger_ok (set_stop i stop db)"
proof -
  assume ok: "ledger_ok db"
  define f :: "paper_position \<Rightarrow> paper_position" where "f = (\<lambda>x. if pp_id x = i then x\<lparr>pp_stop_loss := Some stop\<rparr> else x)"
  have same: "pp_id (f x) = pp_id x" "pp_status (f x) = pp_status x" "pp_symbol (f x) = pp_symbol x"
    "row_ok (f x) = row_ok x" "settles t (f x) = settles t x" for x t
    by (simp_all add: f_def row_ok_def settles_def)
  have db: "set_stop i stop db = db\<lparr>ad_positions := map f (ad_positions db)\<rparr>"
    by (simp add: set_stop_def f_def)
  show ?thesis
    using ok unfolding db ledger_ok_def by (simp add: open_rows_def filter_map comp_def same)
qed

lemma trail_ledger_ok: "ledger_ok db \<Longrightarrow> ledger_ok (trail_row qz r price db)"
  by (auto simp: trail_row_def set_stop_ledger_ok split: option.split)

lemma monitor_rows_ledger_ok:
  assumes "monitor_rows qz st ex now rs db durable prices n = (db', res)" "ledger_ok db" "ledger_ok durable"
  shows "ledger_ok db'"
  using assms
proof (induction rs arbitrary: db durable prices n)
  case (Cons r rs)
  show ?case
  proof (cases "ex_ticker ex (pp_symbol r)")
    case (Inl err)
    with Cons show ?thesis by simp
  next
    case (Inr price)
    show ?thesis
    proof (cases "exit_reason_for_bar price price (pp_stop_loss r) (pp_take_profit r)")
      case None
      with Cons Inr trail_ledger_ok show ?thesis by simp
    next
      case (Some reason)
      obtain db1 x where c: "close_paper_trade qz st (Some ex) db (pp_symbol r) reason
          (if reason = STOP_LOSS then pp_stop_loss r else pp_take_profit r) now = (db1, x)" by fastforce
      then have "ledger_ok db1" using Cons.prems(2) by (rule close_ledger_ok [rotated])
      with Cons Inr Some c show ?thesis by (cases x) (simp_all split: if_splits)
    qed
  qed
qed simp

lemma monitor_result:
  assumes "monitor_open_positions qz st ex db now = (db', res)"
  obtains
    (idle) "db' = db" "ex = None \<or> open_rows db = []"
  | (ran) x db1 y snaps where "ex = Some x"
      "monitor_rows qz st x now (open_rows db) db db [] 0 = (db1, y)"
      "db' = db1\<lparr>ad_snapshots := snaps\<rparr>"
proof (cases "ex = None \<or> open_rows db = []")
  case True
  then show thesis using assms by (intro idle) (auto simp: monitor_open_positions_def split: option.splits)
next
  case False
  then obtain x where x: "ex = Some x" by auto
  obtain db1 y where m: "monitor_rows qz st x now (open_rows db) db db [] 0 = (db1, y)" by fastforce
  have same: "db1 = db1\<lparr>ad_snapshots := ad_snapshots db1\<rparr>" by simp
  have eq: "fst (monitor_open_positions qz st ex db now) = (case y of Inl err \<Rightarrow> db1
      | Inr (prices, n) \<Rightarrow> if prices = [] then db1
          else db1\<lparr>ad_snapshots := ad_snapshots db1 @ [snapshot_of qz (load_portfolio st db1) prices now]\<rparr>)"
    using False x m by (simp add: monitor_open_positions_def split: sum.split prod.split)
  have "\<exists>snaps. db' = db1\<lparr>ad_snapshots := snaps\<rparr>"
  proof (cases y)
    case (Inl err)
    then show ?thesis using eq assms same by (metis fst_conv sum.case(1))
  next
    case (Inr pn)
    then have "db' = db1 \<or> (\<exists>snaps. db' = db1\<lparr>ad_snapshots := snaps\<rparr>)"
      using eq by (auto simp: assms split: prod.splits if_splits)
    with same show ?thesis by metis
  qed
  with x m show thesis by (auto intro: ran)
qed

lemma monitor_ledger_ok:
  assumes "ledger_ok db" "monitor_open_positions qz st ex db now = (db', res)"
  shows "ledger_ok db'"
  using assms(2)
proof (cases rule: monitor_result)
  case (ran x db1 y snaps)
  have "ledger_ok db1" using ran(2) assms(1) by (rule monitor_rows_ledger_ok) (rule assms(1))
  then show ?thesis by (simp add: ran(3) ledger_ok_def open_rows_def)
qed (use assms(1) in simp)

section \<open>Any order of calls\<close>

text \<open>
  Requests and scheduler ticks, each from its own exchange state, in any order.
\<close>

inductive account_step :: "(nat \<Rightarrow> rat \<Rightarrow> rat) \<Rightarrow> settings \<Rightarrow> account_db \<Rightarrow> account_db \<Rightarrow> bool" for qz st where
  entry: "open_paper_trade qz st ex db s stop tp tr sid now = (db', r) \<Longrightarrow> account_step qz st db db'"
| leaving: "close_paper_trade qz st ex db s reason p now = (db', r') \<Longrightarrow> account_step qz st db db'"
| tick: "monitor_open_positions qz st ex db now = (db', r'') \<Longrightarrow> account_step qz st db db'"

inductive reachable_account :: "(nat \<Rightarrow> rat \<Rightarrow> rat) \<Rightarrow> settings \<Rightarrow> account_db \<Rightarrow> bool" for qz st where
  fresh: "reachable_account qz st empty_account"
| next_call: "reachable_account qz st db \<Longrightarrow> account_step qz st db db' \<Longrightarrow> reachable_account qz st db'"

inductive_cases account_stepE: "account_step qz st db db'"

lemma account_step_ok: "account_step qz st db db' \<Longrightarrow> ledger_ok db \<Longrightarrow> ledger_ok db'"
  by (erule account_stepE) (blast intro: open_ledger_ok close_ledger_ok monitor_ledger_ok)+

lemma reachable_ok: "reachable_account qz st db \<Longrightarrow> ledger_ok db"
  by (induction rule: reachable_account.induct) (auto intro: empty_ledger account_step_ok)

section \<open>What a tick may do to a row\<close>

text \<open>
  A row at the end of a tick, given the row at its start: the same; or its trailing stop moved
  up; or the price was at its stop or target and it closed at that level, less slippage.
\<close>

definition trigger_of :: "paper_position \<Rightarrow> exit_reason \<Rightarrow> rat option" where
  "trigger_of r reason = (if reason = STOP_LOSS then pp_stop_loss r else pp_take_profit r)"

definition trailed :: "(nat \<Rightarrow> rat \<Rightarrow> rat) \<Rightarrow> rat \<Rightarrow> paper_position \<Rightarrow> paper_position \<Rightarrow> bool" where
  "trailed qz price x y \<longleftrightarrow>
     (\<exists>d. pp_trailing_stop x = Some d \<and> 0 < d \<and> y = x\<lparr>pp_stop_loss := Some (qz 10 (dsub price d))\<rparr> \<and>
        (\<forall>s. pp_stop_loss x = Some s \<longrightarrow> s < dsub price d))"

definition stopped_out :: "(nat \<Rightarrow> rat \<Rightarrow> rat) \<Rightarrow> settings \<Rightarrow> exit_reason \<Rightarrow> paper_position \<Rightarrow> paper_position \<Rightarrow> bool" where
  "stopped_out qz st reason x y \<longleftrightarrow>
     (\<exists>t level. y = closed_row qz t x \<and> trigger_of x reason = Some level \<and> ct_exit_reason t = reason \<and>
        ct_exit_price t = apply_slippage level SELL (decimal_of_float (pt_slippage_bps (st_paper_trading st))))"

definition tick_moves :: "(nat \<Rightarrow> rat \<Rightarrow> rat) \<Rightarrow> settings \<Rightarrow> exchange \<Rightarrow> paper_position \<Rightarrow> paper_position \<Rightarrow> bool" where
  "tick_moves qz st ex x y \<longleftrightarrow> y = x \<or>
     (pp_status x = PosOPEN \<and> (\<exists>price. ex_ticker ex (pp_symbol x) = Inr price \<and>
        (case exit_reason_for_bar price price (pp_stop_loss x) (pp_take_profit x) of
           None \<Rightarrow> trailed qz price x y
         | Some reason \<Rightarrow> stopped_out qz st reason x y)))"

text \<open>
  The loop invariant: every row of the database the tick began with has a successor, and the
  rows still to be visited are untouched.
\<close>

definition tick_inv :: "(nat \<Rightarrow> rat \<Rightarrow> rat) \<Rightarrow> settings \<Rightarrow> exchange \<Rightarrow> account_db \<Rightarrow> account_db \<Rightarrow> bool" where
  "tick_inv qz st ex db0 db \<longleftrightarrow> map pp_id (ad_positions db) = map pp_id (ad_positions db0) \<and>
     list_all2 (tick_moves qz st ex) (ad_positions db0) (ad_positions db)"

lemma tick_inv_refl: "tick_inv qz st ex db db"
  by (simp add: tick_inv_def list_all2_refl tick_moves_def)

lemma tick_inv_replace:
  assumes inv: "tick_inv qz st ex db0 db" and d: "distinct (map pp_id (ad_positions db0))"
    and old: "old \<in> set (ad_positions db)" "old \<in> set (ad_positions db0)"
    and row: "pp_id row = pp_id old" "tick_moves qz st ex old row"
    and db': "ad_positions db' = replace_row row (ad_positions db)"
  shows "tick_inv qz st ex db0 db'"
proof -
  have ids: "map pp_id (ad_positions db) = map pp_id (ad_positions db0)"
    and moves: "list_all2 (tick_moves qz st ex) (ad_positions db0) (ad_positions db)"
    using inv by (auto simp: tick_inv_def)
  have "tick_moves qz st ex (ad_positions db0 ! i) (replace_row row (ad_positions db) ! i)"
    if i: "i < length (ad_positions db0)" for i
  proof (cases "pp_id (ad_positions db ! i) = pp_id row")
    case True
    have "pp_id (ad_positions db0 ! i) = pp_id (ad_positions db ! i)"
      using ids i by (metis length_map nth_map)
    then have "ad_positions db0 ! i = old"
      using True row(1) i old(2) by (intro same_row [OF d]) simp_all
    then show ?thesis
      using True i row(2) list_all2_lengthD [OF moves] by (simp add: replace_row_def)
  next
    case False
    then show ?thesis
      using i list_all2_nthD [OF moves i] list_all2_lengthD [OF moves] by (simp add: replace_row_def)
  qed
  then show ?thesis
    using ids list_all2_lengthD [OF moves]
    by (simp add: tick_inv_def db' replace_row_ids list_all2_conv_all_nth) (simp add: replace_row_def)
qed

lemma map_row_replace:
  assumes "distinct (map pp_id rows)" "r \<in> set rows" "pp_id (f r) = pp_id r"
  shows "map (\<lambda>x. if pp_id x = pp_id r then f x else x) rows = replace_row (f r) rows"
  using assms by (auto simp: replace_row_def dest: same_row)

lemma trail_cases:
  assumes "distinct (map pp_id (ad_positions db))" "r \<in> set (ad_positions db)"
  obtains (kept) "trail_row qz r price db = db"
  | (moved) row where "trailed qz price r row" "pp_id row = pp_id r"
      "ad_positions (trail_row qz r price db) = replace_row row (ad_positions db)"
proof (cases "trail_row qz r price db = db")
  case False
  then obtain d where d: "pp_trailing_stop r = Some d" "0 < d"
    and up: "\<forall>s. pp_stop_loss r = Some s \<longrightarrow> s < dsub price d"
    and eq: "trail_row qz r price db = set_stop (pp_id r) (qz 10 (dsub price d)) db"
    by (cases "pp_stop_loss r")
      (auto simp: trail_row_def update_trailing_stop_def Let_def max_def split: option.splits if_splits)
  let ?row = "r\<lparr>pp_stop_loss := Some (qz 10 (dsub price d))\<rparr>"
  show thesis
    using d up eq map_row_replace [OF assms, of "pp_stop_loss_update (\<lambda>_. Some (qz 10 (dsub price d)))"]
    by (intro moved [of ?row]) (auto simp: trailed_def set_stop_def)
qed (rule kept)

lemma closed_in_tick:
  assumes c: "close_paper_trade qz st (Some ex) db (pp_symbol r) reason (trigger_of r reason) now = (db', Inr x)"
    and r: "r \<in> set (open_rows db)"
    and hit: "exit_reason_for_bar price price (pp_stop_loss r) (pp_take_profit r) = Some reason"
  shows "\<exists>row. stopped_out qz st reason r row \<and> pp_id row = pp_id r \<and>
    ad_positions db' = replace_row row (ad_positions db)"
  using c
proof (cases rule: close_cases)
  case (sold row price' e' t o_row snap)
  have "r \<in> set (filter (\<lambda>q. pp_symbol q = pp_symbol r) (open_rows db))" using r by simp
  then have row: "row = r" by (simp add: sold(1))
  obtain level where level: "trigger_of r reason = Some level"
    using hit by (auto simp: trigger_of_def exit_reason_for_bar_def Let_def split: option.splits if_splits)
  have "sc_slippage_bps (pe_config (account_engine st (load_portfolio st db))) =
      decimal_of_float (pt_slippage_bps (st_paper_trading st))"
    by (simp add: account_engine_def init_engine_def)
  with sold level sold_trade [OF sold(3)] row show ?thesis
    by (auto simp: stopped_out_def replace_row_def intro!: exI [of _ "closed_row qz t r"])
qed simp

lemma monitor_rows_tick:
  assumes "monitor_rows qz st ex now rs db durable prices n = (db', res)"
    and "tick_inv qz st ex db0 db" "tick_inv qz st ex db0 durable" "distinct (map pp_id (ad_positions db0))"
    and "distinct (map pp_id rs)" "set rs \<subseteq> set (open_rows db0)" "set rs \<subseteq> set (open_rows db)"
  shows "tick_inv qz st ex db0 db'"
  using assms
proof (induction rs arbitrary: db durable prices n)
  case (Cons r rs)
  note prems = Cons.prems
  have ids: "distinct (map pp_id (ad_positions db))" using prems(2,4) by (simp add: tick_inv_def)
  have r: "r \<in> set (ad_positions db)" "r \<in> set (ad_positions db0)" "pp_status r = PosOPEN"
    and ropen: "r \<in> set (open_rows db)"
    using prems(6,7) by (auto simp: open_row_mem)
  have rest: "set rs \<subseteq> set (open_rows D)" if "ad_positions D = replace_row row (ad_positions db)" "pp_id row = pp_id r" for D row
  proof
    fix q assume q: "q \<in> set rs"
    have "pp_id r \<notin> pp_id ` set rs" using prems(5) by simp
    then have "pp_id q \<noteq> pp_id row" using q that(2) by (metis imageI)
    moreover have "q \<in> set (ad_positions db)" "pp_status q = PosOPEN"
      using prems(7) q by (auto simp: open_row_mem)
    ultimately show "q \<in> set (open_rows D)" using that(1) replace_row_mem(2) by (simp add: open_row_mem)
  qed
  have step: "tick_inv qz st ex db0 D" if "ad_positions D = replace_row row (ad_positions db)" "pp_id row = pp_id r"
    "tick_moves qz st ex r row" for D row
    using tick_inv_replace [OF prems(2,4) r(1,2) that(2,3,1)] .
  have same: "tick_inv qz st ex db0 D" "set rs \<subseteq> set (open_rows D)" if "D = db" for D
    using prems that by auto
  show ?case
  proof (cases "ex_ticker ex (pp_symbol r)")
    case (Inl err)
    then show ?thesis using prems Cons.IH [of db durable prices n] by simp
  next
    case (Inr price)
    show ?thesis
    proof (cases "exit_reason_for_bar price price (pp_stop_loss r) (pp_take_profit r)")
      case None
      let ?D = "trail_row qz r price db"
      have run: "monitor_rows qz st ex now rs ?D durable (AList.update (pp_symbol r) price prices) n = (db', res)"
        using prems(1) Inr None by simp
      have "tick_inv qz st ex db0 ?D \<and> set rs \<subseteq> set (open_rows ?D)"
      proof (rule trail_cases [OF ids r(1), of qz price])
        fix row assume moved: "trailed qz price r row" "pp_id row = pp_id r"
          "ad_positions ?D = replace_row row (ad_positions db)"
        then have "tick_moves qz st ex r row" using r(3) Inr None by (simp add: tick_moves_def)
        with moved step rest show "tick_inv qz st ex db0 ?D \<and> set rs \<subseteq> set (open_rows ?D)" by blast
      qed (use same in simp)
      with run prems Cons.IH show ?thesis by simp
    next
      case (Some reason)
      obtain D x where c: "close_paper_trade qz st (Some ex) db (pp_symbol r) reason (trigger_of r reason) now = (D, x)"
        by fastforce
      note c' = c [unfolded trigger_of_def]
      show ?thesis
      proof (cases x)
        case (Inl err)
        then have "D = db" using c by (auto elim: close_cases)
        with prems c' Inl Inr Some Cons.IH same show ?thesis by (simp split: if_splits)
      next
        case (Inr y)
        obtain row where row: "stopped_out qz st reason r row" "pp_id row = pp_id r"
          "ad_positions D = replace_row row (ad_positions db)"
          using closed_in_tick [OF c [unfolded Inr] ropen Some] by blast
        then have "tick_moves qz st ex r row"
          using r(3) Some \<open>ex_ticker ex (pp_symbol r) = Inr price\<close> by (auto simp: tick_moves_def)
        with row step rest have "tick_inv qz st ex db0 D" "set rs \<subseteq> set (open_rows D)" by blast+
        with prems c' Inr Some \<open>ex_ticker ex (pp_symbol r) = Inr price\<close> Cons.IH show ?thesis by simp
      qed
    qed
  qed
qed simp

text \<open>
  Nothing in the schema keeps a symbol to one open row, and the check before an insertion reads
  before it awaits the ticker. With two open rows, which two concurrent requests can leave, no
  closing succeeds any more, whatever the price.
\<close>

lemma double_open_never_closes:
  assumes "x \<in> set (open_rows db)" "y \<in> set (open_rows db)" "pp_id x \<noteq> pp_id y" "pp_symbol x = s" "pp_symbol y = s"
  shows "close_paper_trade qz st ex db s reason price now = (db, Inl DatabaseError)"
proof -
  have "x \<in> set (filter (\<lambda>r. pp_symbol r = s) (open_rows db))" "y \<in> set (filter (\<lambda>r. pp_symbol r = s) (open_rows db))"
    using assms by simp_all
  then obtain a b zs where "filter (\<lambda>r. pp_symbol r = s) (open_rows db) = a # b # zs"
    using assms(3) by (metis empty_iff empty_set list.exhaust set_ConsD)
  then show ?thesis by (simp add: close_paper_trade_def)
qed

text \<open>The shipped settings without a fee, and an exchange where everything trades at 100.\<close>

definition free_settings :: settings where
  "free_settings = default_settings\<lparr>st_trading := default_trading_config\<lparr>tc_taker_fee := 0\<rparr>\<rparr>"

definition calm :: exchange where
  "calm = \<lparr>ex_metadata = new_metadata, ex_ticker = (\<lambda>s. Inr 100)\<rparr>"

lemma decimal_of_50: "decimal_of_float 50 = 50"
  by code_simp

lemma decimal_of_5: "decimal_of_float 5 = 5"
  by code_simp

lemma decimal_of_0: "decimal_of_float 0 = 0"
  by (simp add: decimal_of_float_def shortest_zero)

lemmas sample_floats = decimal_of_50 decimal_of_5 decimal_of_0

lemma free_initial: "initial_balance_of free_settings = 50"
  unfolding initial_balance_of_def
  by (simp add: free_settings_def default_settings_def default_paper_config_def decimal_of_50)

lemma empty_portfolio: "load_portfolio free_settings empty_account = new_portfolio 50 50"
proof -
  have "load_closed_trades empty_account = []" "open_rows empty_account = []" "snapshot_peak empty_account = 0"
    by (simp_all add: empty_account_def load_closed_trades_def open_rows_def snapshot_peak_def)
  moreover have "dadd 50 0 = 50" "dsub 50 0 = 50" "dadd 0 0 = 0" by (simp_all add: dec_ops dec_fixed)
  ultimately show ?thesis
    unfolding load_portfolio_def free_initial by (simp add: dsum_def new_portfolio_def post_init_def)
qed

lemma free_config: "st_risk free_settings = DEFAULT_RISK_CONFIG" "tc_taker_fee (st_trading free_settings) = 0"
  "pt_slippage_bps (st_paper_trading free_settings) = 5" "pt_allow_partial_fills (st_paper_trading free_settings)"
  by (simp_all add: free_settings_def default_settings_def default_paper_config_def)

definition calm_engine :: paper_engine where
  "calm_engine = init_engine (new_portfolio 50 50) DEFAULT_RISK_CONFIG
     (Some \<lparr>sc_fee_rate = 0, sc_slippage_bps = 5, sc_allow_partial_fills = True\<rparr>)"

lemma calm_engine: "account_engine free_settings (new_portfolio 50 50) = calm_engine"
  unfolding account_engine_def free_config calm_engine_def sample_floats
  by (simp add: free_config new_portfolio_def post_init_def init_engine_def)

lemma calm_entry:
  obtains a sz where "assess_entry free_settings empty_account (Some calm) ''BTC'' 100 98 None 0 = (calm_engine, a)"
    "approved a" "ra_size a = Some sz" "ps_quantity sz = 7 / 40"
proof -
  define req where "req = entry_request calm_engine ''BTC'' 100 (Some 98) no_filters 0 None None None"
  define a where "a = account_state_of calm_engine [(''BTC'', 100)]"
  have aa: "a = \<lparr>ac_equity = 50, ac_available_quote = 50, ac_peak_equity = 50, ac_realised_pnl_today = 0, ac_unrealised_pnl = 0,
     ac_consecutive_losses = 0, ac_open_positions = 0, ac_asset_exposure = []\<rparr>"
    unfolding a_def calm_engine_def by (simp add: account_state_of_def init_engine_def new_portfolio_def post_init_def equity_def positions_value_def unrealised_pnl_def consecutive_losses_def asset_exposure_def dsum_def dec_ops dec_fixed)
  have r: "req = \<lparr>tr_symbol = ''BTC'', tr_entry_price = 100, tr_stop_price = Some 98, tr_filters = no_filters, tr_taker_fee = 0,
    tr_spread_fraction = None, tr_atr_fraction = None, tr_seconds_since_last_exit = None, tr_expected_slippage = None, tr_signal_id = None\<rparr>"
    unfolding req_def calm_engine_def by (simp add: entry_request_def seconds_since_last_exit_def init_engine_def)
  have x: "total_exposure a = 0" by (simp add: aa total_exposure_def dsum_def)
  have "ps_approved (size_request DEFAULT_RISK_CONFIG req a) \<and> ps_quantity (size_request DEFAULT_RISK_CONFIG req a) = 7 / 40"
    unfolding size_request_def x by (simp add: r aa dict_get_def sizing_eval)
  moreover have "system_ok DEFAULT_RISK_CONFIG default_system"
    by (simp add: system_ok_def DEFAULT_RISK_CONFIG_def default_system_def)
  moreover have "account_ok DEFAULT_RISK_CONFIG a"
    by (simp add: aa account_ok_def DEFAULT_RISK_CONFIG_def daily_loss_fraction_def drawdown_fraction_def dec_ops)
  moreover have "trade_ok DEFAULT_RISK_CONFIG req a"
    unfolding trade_ok_def x by (simp add: aa r DEFAULT_RISK_CONFIG_def dict_get_def dec_ops dec_fixed)
  ultimately have "approved (evaluate DEFAULT_RISK_CONFIG req a default_system)"
    "ps_quantity (size_request DEFAULT_RISK_CONFIG req a) = 7 / 40"
    by (simp_all add: approved_def evaluate_decision)
  moreover from this have "ra_size (evaluate DEFAULT_RISK_CONFIG req a default_system) =
      Some (size_request DEFAULT_RISK_CONFIG req a)"
    using evaluate_approved(1,2) [of DEFAULT_RISK_CONFIG req a default_system] by (simp add: assess_size_def)
  moreover have "pe_risk calm_engine = DEFAULT_RISK_CONFIG" by (simp add: calm_engine_def init_engine_def)
  moreover have "pf_positions (new_portfolio 50 50) = []" by (simp add: new_portfolio_def post_init_def)
  ultimately show thesis
    unfolding assess_entry_def empty_portfolio Let_def calm_engine
    by (intro that [of "evaluate DEFAULT_RISK_CONFIG req a default_system"])
      (simp_all add: assess_entry_def empty_portfolio Let_def calm_engine evaluate_entry_def
        resolve_symbol_filters_def calm_def new_metadata_def entry_prices_def req_def a_def)
qed

lemma calm_opens:
  obtains db1 x where
    "open_paper_trade unrounded free_settings (Some calm) empty_account ''BTC'' 98 None (Some 2) None 0 = (db1, Inr x)"
    "ot_approved x"
proof -
  obtain a sz where a: "assess_entry free_settings empty_account (Some calm) ''BTC'' 100 98 None 0 = (calm_engine, a)"
    "approved a" "ra_size a = Some sz" "ps_quantity sz = 7 / 40" by (rule calm_entry)
  have "\<exists>e' p. sim_open_position calm_engine a ''BTC'' 100 0 no_filters (Some 98) None (Some 2) None None = Inr (e', Some p)"
    using a(2) by (simp add: a(3,4) sim_open_position_def calm_engine_def
        init_engine_def simulate_fill_def fill_quantity_def is_empty_def no_fill_def approved_def
        round_down_to_step_def apply_slippage_def BPS_def 
        portfolio_open_def has_key_iff no_filters_def new_portfolio_def
        post_init_def dec_ops dec_fixed Let_def)
  moreover have "fst (resolve_symbol_filters (Some (ex_metadata calm)) ''BTC'') = no_filters"
    "reference_price_of (Some calm) ''BTC'' = Inr 100" "pf_positions (new_portfolio 50 50) = []"
    by (simp_all add: resolve_symbol_filters_def calm_def new_metadata_def reference_price_of_def new_portfolio_def post_init_def)
  ultimately show thesis
    using a(1,2) by (auto simp: open_paper_trade_def empty_portfolio has_key_def intro: that)
qed

text \<open>The same account after that entry, and the tick that finds the price at 97.\<close>

lemma calm_row:
  assumes "open_paper_trade unrounded free_settings (Some calm) empty_account ''BTC'' 98 None (Some 2) None 0 = (db1, Inr x)"
    "ot_approved x"
  obtains p where "ad_positions db1 = [row_of_position unrounded 0 free_settings p]" "op_symbol p = ''BTC''"
    "op_stop_loss p = Some 98"
  using assms
proof (cases rule: open_cases)
  case (bought price e a e' p o_row)
  have "op_symbol p = ''BTC'' \<and> op_stop_loss p = Some 98"
    by (rule sim_open_cases [OF bought(5)]) (auto elim: portfolio_open_cases)
  with bought(6) that show thesis by (simp add: empty_account_def)
qed simp_all

text \<open>A single open row of positive quantity is sold at any positive price when no filter binds.\<close>

lemma close_sells:
  assumes "filter (\<lambda>r. pp_symbol r = s) (open_rows db) = [row]" "0 < pp_quantity row" "0 < price"
    "step_size (fst (resolve_symbol_filters (map_option ex_metadata ex) s)) = None"
  shows "\<exists>db' r. close_paper_trade qz st ex db s reason (Some price) now = (db', Inr r)"
proof -
  let ?e = "account_engine st (load_portfolio st db)" and ?f = "fst (resolve_symbol_filters (map_option ex_metadata ex) s)"
  have "map_of (pf_positions (load_portfolio st db)) s = Some (position_of_row row)"
    using assms(1) book_row [of st db s] by (simp add: book_def)
  then have held: "map_of (pf_positions (pe_portfolio ?e)) s = Some (position_of_row row)"
    by (simp add: account_engine_def init_engine_def)
  have "\<not> is_empty (simulate_fill (pp_quantity row) price SELL fee bps None None)" for fee bps
    using assms(2,3) by (simp add: simulate_fill_def is_empty_def fill_quantity_def round_down_to_step_def Let_def)
  then have "\<exists>e' t. sim_close_position ?e s price now reason (Some ?f) = Inr (e', Some t)"
    by (simp add: sim_close_position_def held assms(4) portfolio_close_def position_of_row_def Let_def)
  with assms(1) show ?thesis by (auto simp: close_paper_trade_def Let_def)
qed

lemma calm_closes:
  assumes "open_paper_trade unrounded free_settings (Some calm) empty_account ''BTC'' 98 None (Some 2) None 0 = (db1, Inr x)"
    "ot_approved x" "0 < price"
  shows "\<exists>db2 r. close_paper_trade unrounded free_settings (Some calm) db1 ''BTC'' reason (Some price) now = (db2, Inr r)"
  using assms(1)
proof (cases rule: open_cases)
  case (bought pr e a e' p o_row)
  have p: "op_symbol p = ''BTC'' \<and> 0 < op_quantity p"
    by (rule sim_open_cases [OF bought(5)]) (auto elim: portfolio_open_cases simp: is_empty_def)
  have row: "filter (\<lambda>r. pp_symbol r = ''BTC'') (open_rows db1) = [row_of_position unrounded 0 free_settings p]"
    using p by (simp add: bought(6) empty_account_def open_rows_def row_of_position_def)
  show ?thesis
    by (rule close_sells [OF row _ assms(3)])
      (use p in \<open>simp_all add: row_of_position_def unrounded_def resolve_symbol_filters_def calm_def new_metadata_def no_filters_def\<close>)
qed (use assms(2) in auto)

section \<open>Properties\<close>

text \<open>
  C20: the ledger of the paper account stays consistent under every sequence of openings,
  closings and scheduler ticks, failed ones included, as long as each call runs to its end before the
  next begins (two openings of one symbol that overlap at an \<open>await\<close> can leave two open rows; see
  \<open>double_open_never_closes\<close>). Then ids are distinct, a symbol has at most
  one open row, a row carries exit data exactly when it is closed, every closed row has one
  trade that tells the same price, time, fees and result, and there is one order per entry
  and one per exit.
\<close>

theorem ledger_stays_consistent:
  assumes "reachable_account qz st db"
  shows "distinct (map pp_id (ad_positions db)) \<and> distinct (map pp_symbol (open_rows db)) \<and>
    (\<forall>r \<in> set (ad_positions db). row_ok r \<and>
       (pp_status r = PosCLOSED \<longleftrightarrow> (\<exists>t \<in> set (ad_trades db). tw_position_id t = pp_id r \<and> settles (tw_trade t) r))) \<and>
    distinct (map tw_position_id (ad_trades db)) \<and>
    length (ad_orders db) = length (ad_positions db) + length (ad_trades db)"
proof -
  have ok: "ledger_ok db" using assms by (rule reachable_ok)
  define closed_ids where "closed_ids = pp_id ` {r \<in> set (ad_positions db). pp_status r = PosCLOSED}"
  have ids: "distinct (map pp_id (ad_positions db))" using ok by (rule ledger_ids)
  have settled: "\<exists>r \<in> set (ad_positions db). pp_id r = tw_position_id t \<and> settles (tw_trade t) r"
    if "t \<in> set (ad_trades db)" for t
    using ok that by (simp add: ledger_ok_def)
  have sub: "tw_position_id ` set (ad_trades db) \<subseteq> closed_ids"
  proof
    fix i assume "i \<in> tw_position_id ` set (ad_trades db)"
    then obtain t where "t \<in> set (ad_trades db)" "i = tw_position_id t" by blast
    moreover from this settled [of t] obtain r where "r \<in> set (ad_positions db)" "pp_id r = i"
      "pp_status r = PosCLOSED" by (auto simp: settles_def)
    ultimately show "i \<in> closed_ids" unfolding closed_ids_def by (intro image_eqI [of _ _ r]) simp_all
  qed
  have count: "length (filter (\<lambda>r. pp_status r = PosCLOSED) (ad_positions db)) = length (ad_trades db)"
  proof -
    have "filter (\<lambda>r. pp_status r = PosCLOSED) (ad_positions db) = filter (\<lambda>r. pp_status r \<noteq> PosOPEN) (ad_positions db)"
      using ok by (intro filter_cong) (auto simp: ledger_ok_def row_ok_def)
    moreover have "length (ad_trades db) + length (open_rows db) = length (ad_positions db)"
      using ok by (simp add: ledger_ok_def)
    ultimately show ?thesis
      using sum_length_filter_compl [of "\<lambda>r. pp_status r = PosOPEN" "ad_positions db"] by (simp add: open_rows_def)
  qed
  have "card closed_ids = card {r \<in> set (ad_positions db). pp_status r = PosCLOSED}"
    unfolding closed_ids_def using ids by (intro card_image) (auto simp: distinct_map inj_on_def)
  also have "\<dots> = length (ad_trades db)"
    unfolding count [symmetric] using ids
    by (subst distinct_card [symmetric]) (auto simp: distinct_map)
  also have "\<dots> = card (tw_position_id ` set (ad_trades db))"
    using ok by (simp add: ledger_ok_def distinct_card flip: set_map)
  finally have "card closed_ids = card (tw_position_id ` set (ad_trades db))" .
  then have eq: "tw_position_id ` set (ad_trades db) = closed_ids"
    using sub by (intro card_subset_eq) (auto simp: closed_ids_def)
  have "\<exists>t \<in> set (ad_trades db). tw_position_id t = pp_id r \<and> settles (tw_trade t) r"
    if r: "r \<in> set (ad_positions db)" "pp_status r = PosCLOSED" for r
  proof -
    obtain t where t: "t \<in> set (ad_trades db)" "tw_position_id t = pp_id r"
      using eq r by (force simp: closed_ids_def)
    from settled [OF t(1)] t(2) obtain q where
      "q \<in> set (ad_positions db)" "pp_id q = pp_id r" "settles (tw_trade t) q" by auto
    with t same_row [OF ids _ r(1)] show ?thesis by blast
  qed
  then show ?thesis using ok ids by (auto simp: ledger_ok_def settles_def)
qed

theorem ledger_stays_consistent_witness:
  "\<exists>db. reachable_account unrounded free_settings db \<and> length (ad_positions db) = 1 \<and> length (ad_orders db) = 1 + length (ad_trades db)"
proof -
  obtain db1 x p where o: "open_paper_trade unrounded free_settings (Some calm) empty_account ''BTC'' 98 None (Some 2) None 0 = (db1, Inr x)"
    "ad_positions db1 = [row_of_position unrounded 0 free_settings p]"
    by (metis calm_opens calm_row)
  then have "reachable_account unrounded free_settings db1"
    by (blast intro: reachable_account.intros account_step.entry)
  from ledger_stays_consistent [OF this] this o(2) show ?thesis by (intro exI [of _ db1]) simp
qed

text \<open>
  C21: a paper entry passes the account and the trade rules of the risk gate on the account as the database
  has it. The system rules (emergency stop, engine state, stale data, API failures) are no part of this: the code
  evaluates them on a fresh state, where they never refuse. If a call
  added a position, the symbol had none, the account and the trade satisfy every rule, fewer
  positions were open than the limit, and what was bought is no more than the approved size
  (but for the last digits), costs no more than the free balance, and carries the stop the
  risk was sized on. Otherwise the position table is unchanged.
\<close>

theorem paper_entries_pass_the_gate:
  assumes "open_paper_trade qz st ex db s stop tp tr sid now = (db', r)" "ad_positions db' \<noteq> ad_positions db"
  shows "\<exists>price e req account sz p. reference_price_of ex s = Inr price \<and>
    e = account_engine st (load_portfolio st db) \<and>
    req = entry_request e s price (Some stop) (fst (resolve_symbol_filters (map_option ex_metadata ex) s)) now None None sid \<and>
    account = account_state_of e (entry_prices (load_portfolio st db) s price) \<and>
    book st db s = None \<and> account_ok (st_risk st) account \<and> trade_ok (st_risk st) req account \<and>
    int (card (pp_symbol ` set (open_rows db))) < max_simultaneous_positions (st_risk st) \<and>
    sz = size_request (st_risk st) req account \<and> ps_approved sz \<and>
    ad_positions db' = ad_positions db @ [row_of_position qz (length (ad_positions db)) st p] \<and>
    op_symbol p = s \<and> op_stop_loss p = Some stop \<and> op_quantity p \<le> ps_quantity sz * (1 + 1 / 10 ^ 26) \<and>
    dadd (dmul (op_quantity p) (op_entry_price p)) (op_fees_paid p) \<le> pf_quote_balance (load_portfolio st db)"
  using assms(1)
proof (cases rule: open_cases)
  case (bought price e a e' p o_row)
  let ?e = "account_engine st (load_portfolio st db)" and ?f = "fst (resolve_symbol_filters (map_option ex_metadata ex) s)"
  let ?req = "entry_request ?e s price (Some stop) ?f now None None sid"
  let ?acct = "account_state_of ?e (entry_prices (load_portfolio st db) s price)"
  have risk: "pe_risk ?e = st_risk st" and pf: "pe_portfolio ?e = load_portfolio st db"
    by (simp_all add: account_engine_def init_engine_def)
  have ev: "a = evaluate (st_risk st) ?req ?acct default_system" "e = ?e"
    using bought(3,4) by (auto simp: assess_entry_def evaluate_entry_def Let_def risk)
  note ok = evaluate_approved [OF bought(4) [unfolded ev(1)]]
  have size: "ra_size a = Some (size_request (st_risk st) ?req ?acct)"
    using ok(1,2) by (simp add: ev(1) assess_size_def)
  have few: "int (card (pp_symbol ` set (open_rows db))) < max_simultaneous_positions (st_risk st)"
    using ok(5) by (simp add: trade_ok_def account_state_of_def Let_def pf open_length)
  from bought(5) have "op_symbol p = s \<and> op_stop_loss p = Some stop \<and>
      op_quantity p \<le> ps_quantity (size_request (st_risk st) ?req ?acct) * (1 + 1 / 10 ^ 26) \<and>
      dadd (dmul (op_quantity p) (op_entry_price p)) (op_fees_paid p) \<le> pf_quote_balance (load_portfolio st db)"
  proof (cases rule: sim_open_cases)
    case (2 sz fill pos' q)
    have p: "op_symbol p = s \<and> op_stop_loss p = Some stop \<and> op_quantity p = fl_filled_quantity fill \<and>
        dadd (dmul (op_quantity p) (op_entry_price p)) (op_fees_paid p) \<le> pf_quote_balance (pe_portfolio e)"
      by (rule portfolio_open_cases [OF 2(6)]) (use 2(1) in simp)
    have le: "op_quantity p \<le> ps_quantity sz * (1 + ulp28) ^ 2" and pos: "0 < ps_quantity sz"
      using fill_upper [OF 2(4,5)] p by simp_all
    moreover have "ps_quantity sz * (1 + ulp28) ^ 2 \<le> ps_quantity sz * (1 + 1 / 10 ^ 26)"
      using pos ulp28_power [of 2] by (intro mult_left_mono) auto
    ultimately have "op_quantity p \<le> ps_quantity sz * (1 + 1 / 10 ^ 26)" by linarith
    moreover have "sz = size_request (st_risk st) ?req ?acct" using 2(3) size by simp
    ultimately show ?thesis using p [unfolded ev(2) pf] by blast
  qed simp
  moreover have "book st db s = None" using bought(1) by (simp add: has_key_book)
  ultimately show ?thesis using bought(2,6) ok few by (intro exI) (auto intro: exI [of _ p])
qed (use assms(2) in simp_all)

theorem paper_entries_pass_the_gate_witness:
  "\<exists>db1 x p req account. open_paper_trade unrounded free_settings (Some calm) empty_account ''BTC'' 98 None (Some 2) None 0 = (db1, Inr x) \<and>
     account = account_state_of (account_engine free_settings (load_portfolio free_settings empty_account))
       (entry_prices (load_portfolio free_settings empty_account) ''BTC'' 100) \<and>
     account_ok DEFAULT_RISK_CONFIG account \<and> trade_ok DEFAULT_RISK_CONFIG req account \<and>
     ps_approved (size_request DEFAULT_RISK_CONFIG req account) \<and>
     ad_positions db1 = [row_of_position unrounded 0 free_settings p] \<and> op_symbol p = ''BTC'' \<and> op_stop_loss p = Some 98 \<and>
     op_quantity p \<le> ps_quantity (size_request DEFAULT_RISK_CONFIG req account) * (1 + 1 / 10 ^ 26) \<and>
     dadd (dmul (op_quantity p) (op_entry_price p)) (op_fees_paid p) \<le> 50"
proof -
  obtain db1 x p where o: "open_paper_trade unrounded free_settings (Some calm) empty_account ''BTC'' 98 None (Some 2) None 0 = (db1, Inr x)"
    "ad_positions db1 = [row_of_position unrounded 0 free_settings p]"
    by (metis calm_opens calm_row)
  have none: "ad_positions empty_account = []" "reference_price_of (Some calm) ''BTC'' = Inr 100"
    by (simp_all add: empty_account_def reference_price_of_def calm_def)
  have balance: "pf_quote_balance (load_portfolio free_settings empty_account) = 50"
    by (simp add: empty_portfolio new_portfolio_def post_init_def)
  from o(2) have "ad_positions db1 \<noteq> ad_positions empty_account" by (simp add: none)
  from paper_entries_pass_the_gate [OF o(1) this, unfolded balance none free_config] show ?thesis
    using o(1) by (elim exE conjE) (intro exI conjI, assumption+, simp_all)
qed

text \<open>
  C22: the tables refine a book of at most one position per symbol. On any database that whole calls,
  one after the other, can reach, an approved opening is an insertion of a position that was not there, with the requested
  stop as the column stores it, a closing is the deletion of one that was, and every other
  symbol's position is untouched.
\<close>

theorem calls_refine_the_book:
  assumes "reachable_account qz st db"
  shows "(open_paper_trade qz st ex db s stop tp tr sid now = (db1, Inr opened) \<and> ot_approved opened \<longrightarrow>
      book st db s = None \<and> (\<exists>p. book st db1 = (book st db)(s \<mapsto> p) \<and> op_symbol p = s \<and> op_stop_loss p = Some (qz 10 stop)))
    \<and> (close_paper_trade qz st ex db s reason price_opt now = (db2, Inr closed_one) \<longrightarrow>
      book st db s \<noteq> None \<and> book st db2 = (book st db)(s := None))"
proof (rule conjI; rule impI)
  assume "open_paper_trade qz st ex db s stop tp tr sid now = (db1, Inr opened) \<and> ot_approved opened"
  then have "open_paper_trade qz st ex db s stop tp tr sid now = (db1, Inr opened)" "ot_approved opened" by simp_all
  then show "book st db s = None \<and>
    (\<exists>p. book st db1 = (book st db)(s \<mapsto> p) \<and> op_symbol p = s \<and> op_stop_loss p = Some (qz 10 stop))"
  proof (cases rule: open_cases)
    case (bought price e a e' p o_row)
    let ?row = "row_of_position qz (length (ad_positions db)) st p"
    have p: "op_symbol p = s" "op_stop_loss p = Some stop"
      by (rule sim_open_cases [OF bought(5)]; auto elim: portfolio_open_cases)+
    have rows: "open_rows db1 = open_rows db @ [?row]"
      using bought_row(3) [OF bought(5)] by (simp add: bought(6) open_rows_def)
    have none: "filter (\<lambda>r. pp_symbol r = s) (open_rows db) = []" "book st db s = None"
      using bought(1) by (auto simp: has_key_book book_none filter_empty_conv)
    have "book st db1 = (book st db)(s \<mapsto> position_of_row ?row)"
      using none(1) by (auto simp: book_row rows row_of_position_def p(1))
    then show ?thesis using none p by (intro conjI exI [of _ "position_of_row ?row"])
      (simp_all add: position_of_row_def row_of_position_def)
  qed simp_all
next
  assume "close_paper_trade qz st ex db s reason price_opt now = (db2, Inr closed_one)"
  then show "book st db s \<noteq> None \<and> book st db2 = (book st db)(s := None)"
  proof (cases rule: close_cases)
    case (sold row price e' t o_row snap)
    note old = sold_old [OF sold(1)]
    have ids: "distinct (map pp_id (ad_positions db))" using assms by (intro ledger_ids reachable_ok)
    have mem: "row \<in> set (ad_positions db)" using old(1) by (simp add: open_row_mem)
    have pos: "ad_positions db2 = replace_row (closed_row qz t row) (ad_positions db)"
      by (simp add: sold(4) replace_row_def)
    obtain xs ys where r: "ad_positions db = xs @ row # ys" "ad_positions db2 = xs @ closed_row qz t row # ys"
      using replace_row_split [OF ids mem, of "closed_row qz t row"] pos by auto
    have "pp_status row = PosOPEN" using old(1) by (simp add: open_row_mem)
    then have split: "open_rows db = filter (\<lambda>r. pp_status r = PosOPEN) xs @ row # filter (\<lambda>r. pp_status r = PosOPEN) ys"
      "open_rows db2 = filter (\<lambda>r. pp_status r = PosOPEN) xs @ filter (\<lambda>r. pp_status r = PosOPEN) ys"
      by (simp_all add: open_rows_def r)
    have "filter (\<lambda>r. pp_symbol r = s) (open_rows db2) = []"
      using sold(1) old(2) by (simp add: split append_eq_Cons_conv)
    moreover have "filter (\<lambda>r. pp_symbol r = k) (open_rows db2) = filter (\<lambda>r. pp_symbol r = k) (open_rows db)" if "k \<noteq> s" for k
      using that old(2) by (simp add: split)
    ultimately have "book st db2 = (book st db)(s := None)" by (auto simp: book_row)
    then show ?thesis by (simp add: book_row sold(1))
  qed simp
qed

text \<open>The entry on the empty book, and the sale that empties it again.\<close>

theorem calls_refine_the_book_witness:
  "\<exists>db1 x p db2 r. reachable_account unrounded free_settings empty_account \<and>
     open_paper_trade unrounded free_settings (Some calm) empty_account ''BTC'' 98 None (Some 2) None 0 = (db1, Inr x) \<and>
     ot_approved x \<and> book free_settings empty_account = Map.empty \<and> book free_settings db1 = [''BTC'' \<mapsto> p] \<and> op_stop_loss p = Some 98 \<and>
     reachable_account unrounded free_settings db1 \<and>
     close_paper_trade unrounded free_settings (Some calm) db1 ''BTC'' STRATEGY_EXIT (Some 97) 60 = (db2, Inr r) \<and>
     book free_settings db2 = Map.empty"
proof -
  obtain db1 x where o: "open_paper_trade unrounded free_settings (Some calm) empty_account ''BTC'' 98 None (Some 2) None 0 = (db1, Inr x)"
    "ot_approved x" by (rule calm_opens)
  have none: "book free_settings empty_account = Map.empty"
    by (auto simp: book_row empty_account_def open_rows_def)
  from o obtain p where p: "book free_settings db1 = (book free_settings empty_account)(''BTC'' \<mapsto> p)"
    "op_stop_loss p = Some (unrounded 10 98)"
    using calls_refine_the_book [OF reachable_account.fresh, THEN conjunct1, THEN mp, OF conjI, OF o] by blast
  from o(1) have reach: "reachable_account unrounded free_settings db1"
    by (blast intro: reachable_account.intros account_step.entry)
  obtain db2 r where c: "close_paper_trade unrounded free_settings (Some calm) db1 ''BTC'' STRATEGY_EXIT (Some 97) 60 = (db2, Inr r)"
    using calm_closes [OF o, of 97 STRATEGY_EXIT 60] by auto
  from calls_refine_the_book [OF reach, THEN conjunct2, THEN mp, OF c] have "book free_settings db2 = Map.empty"
    by (simp add: p none)
  with o p none c reach show ?thesis
    by (intro exI [of _ db1] exI [of _ x] exI [of _ p] exI [of _ db2] exI [of _ r])
      (simp add: unrounded_def reachable_account.fresh)
qed

text \<open>
  C23: a tick of the monitor only protects. Rows are neither added nor removed; a row that
  changed was open, its symbol's price could be read, and either the price reached its stop or
  target and it closed at that level less slippage, for that reason, or its trailing stop was
  moved up. No stop of a position that stays open is lowered.
\<close>

theorem tick_only_protects:
  assumes "reachable_account qz st db" "monitor_open_positions qz st ex db now = (db', res)" "mono (qz 10)"
  shows "map pp_id (ad_positions db') = map pp_id (ad_positions db) \<and>
    (\<forall>i < length (ad_positions db). let x = ad_positions db ! i; y = ad_positions db' ! i in
       (case ex of None \<Rightarrow> y = x | Some v \<Rightarrow> tick_moves qz st v x y) \<and>
       (\<forall>s. pp_status y = PosOPEN \<and> pp_stop_loss x = Some s \<and> qz 10 s = s \<longrightarrow> (\<exists>s'. pp_stop_loss y = Some s' \<and> s \<le> s')))"
  using assms(2)
proof (cases rule: monitor_result)
  case idle
  then show ?thesis by (auto simp: tick_moves_def split: option.split)
next
  case (ran v db1 y snaps)
  have ids: "distinct (map pp_id (ad_positions db))" using assms(1) by (intro ledger_ids reachable_ok)
  have "distinct (map pp_id (open_rows db))" unfolding open_rows_def using ids by (rule distinct_map_filter)
  with ids have "tick_inv qz st v db db1"
    by (intro monitor_rows_tick [OF ran(2)]) (simp_all add: tick_inv_refl)
  then have inv: "map pp_id (ad_positions db') = map pp_id (ad_positions db)"
    "list_all2 (tick_moves qz st v) (ad_positions db) (ad_positions db')"
    by (simp_all add: tick_inv_def ran(3))
  have up: "\<exists>s'. pp_stop_loss b = Some s' \<and> s \<le> s'"
    if "tick_moves qz st v a b" "pp_status b = PosOPEN" "pp_stop_loss a = Some s" "qz 10 s = s" for a b s
    using that monoD [OF assms(3), of s]
    by (force simp: tick_moves_def trailed_def stopped_out_def split: option.splits)
  show ?thesis using inv up by (auto simp: ran(1) Let_def list_all2_conv_all_nth)
qed

definition crash :: exchange where
  "crash = calm\<lparr>ex_ticker := (\<lambda>s. Inr 97)\<rparr>"

theorem tick_only_protects_witness:
  "\<exists>db db' res x y. monitor_open_positions unrounded free_settings (Some crash) db 60 = (db', res) \<and>
     ad_positions db = [x] \<and> pp_stop_loss x = Some 98 \<and> ad_positions db' = [y] \<and> tick_moves unrounded free_settings crash x y"
proof -
  obtain db1 x p where o: "open_paper_trade unrounded free_settings (Some calm) empty_account ''BTC'' 98 None (Some 2) None 0 = (db1, Inr x)"
    "ad_positions db1 = [row_of_position unrounded 0 free_settings p]" "op_stop_loss p = Some 98"
    by (metis calm_opens calm_row)
  then have reach: "reachable_account unrounded free_settings db1"
    by (blast intro: reachable_account.intros account_step.entry)
  obtain db2 res where m: "monitor_open_positions unrounded free_settings (Some crash) db1 60 = (db2, res)" by fastforce
  have "mono (unrounded 10)" by (simp add: mono_def unrounded_def)
  from tick_only_protects [OF reach m this] o(2) have
    "length (ad_positions db2) = 1" "tick_moves unrounded free_settings crash (ad_positions db1 ! 0) (ad_positions db2 ! 0)"
    by (auto simp: Let_def dest: arg_cong [of _ _ length])
  moreover from this(1) obtain y where "ad_positions db2 = [y]" by (auto simp: length_Suc_conv)
  moreover have "pp_stop_loss (row_of_position unrounded 0 free_settings p) = Some 98"
    by (simp add: row_of_position_def o(3) unrounded_def)
  ultimately show ?thesis using m o(2) by (intro exI [of _ db1] exI [of _ db2]) simp
qed

end
