(* ===== verification/Health.thy ===== *)
theory Health
  imports Json Enums
begin

text \<open>
  \<open>monitoring/health.py\<close>, \<open>_split_status\<close> of \<open>lifespan.py\<close> and the health endpoint of \<open>api/v1/system.py\<close>:
  component probes, the report over them and its overall status. A probe is a function of the
  state it inspects; running out of its time budget is one of its results.
\<close>

fun health_value :: "component_health \<Rightarrow> string" where
  "health_value ONLINE = ''ONLINE''"
| "health_value OFFLINE = ''OFFLINE''"
| "health_value DEGRADED = ''DEGRADED''"
| "health_value ERROR = ''ERROR''"
| "health_value DISABLED = ''DISABLED''"
| "health_value NOT_IMPLEMENTED = ''NOT_IMPLEMENTED''"

definition component_healths :: "component_health list" where
  "component_healths = [ONLINE, OFFLINE, DEGRADED, ERROR, DISABLED, NOT_IMPLEMENTED]"

text \<open>\<open>ComponentHealth(value)\<close>; \<open>None\<close> when it raises \<open>ValueError\<close>.\<close>

definition parse_health :: "json \<Rightarrow> component_health option" where
  "parse_health j = (case j of
     JStr s \<Rightarrow> List.find (\<lambda>h. health_value h = s) component_healths
   | _ \<Rightarrow> None)"

lemma parse_health_value [simp]: "parse_health (JStr (health_value h)) = Some h"
  by (cases h) (simp_all add: parse_health_def component_healths_def)

section \<open>A component\<close>

text \<open>A detail that is not given is \<open>null\<close>.\<close>

record component_status =
  hs_name :: string
  hs_status :: component_health
  hs_detail :: json
  hs_metadata :: payload

definition component_of :: "string \<Rightarrow> component_health \<Rightarrow> component_status" where
  "component_of name status = \<lparr>hs_name = name, hs_status = status, hs_detail = JNull, hs_metadata = []\<rparr>"

definition dict_update :: "payload \<Rightarrow> payload \<Rightarrow> payload" where
  "dict_update d new = foldl (\<lambda>d kv. AList.update (fst kv) (snd kv) d) d new"

definition status_to_dict :: "component_status \<Rightarrow> payload" where
  "status_to_dict c =
     (let d = [(''status'', JStr (health_value (hs_status c)))];
          d1 = (if py_bool (hs_detail c) then d @ [(''detail'', hs_detail c)] else d)
      in if hs_metadata c = [] then d1 else dict_update d1 (hs_metadata c))"

definition split_status :: "payload \<Rightarrow> exn + component_health \<times> json \<times> payload" where
  "split_status p =
     (case map_of p ''status'' of
        None \<Rightarrow> Inl KeyError
      | Some v \<Rightarrow> (case parse_health v of
            None \<Rightarrow> Inl ValueError
          | Some h \<Rightarrow>
              (let rest = AList.delete ''status'' p in
               Inr (h, dict_get rest ''detail'' JNull,
                 filter (\<lambda>kv. snd kv \<noteq> JNull) (AList.delete ''detail'' rest)))))"

section \<open>The report\<close>

type_synonym health_report = "(string, component_status) dict"

definition relevant :: "health_report \<Rightarrow> component_health list" where
  "relevant r = filter (\<lambda>h. h \<notin> {DISABLED, NOT_IMPLEMENTED}) (map hs_status (vals r))"

definition overall :: "health_report \<Rightarrow> component_health" where
  "overall r =
     (if list_ex (\<lambda>h. h = ERROR) (relevant r) then ERROR
      else if list_ex (\<lambda>h. h = OFFLINE) (relevant r) then OFFLINE
      else if list_ex (\<lambda>h. h = DEGRADED) (relevant r) then DEGRADED
      else ONLINE)"

definition healthy :: "health_report \<Rightarrow> bool" where
  "healthy r \<longleftrightarrow> overall r = ONLINE"

definition report_to_dict :: "string \<Rightarrow> health_report \<Rightarrow> payload" where
  "report_to_dict checked_at r =
     [(''overall'', JStr (health_value (overall r))), (''checked_at'', JStr checked_at),
      (''components'', JObj (map (\<lambda>(name, c). (name, JObj (status_to_dict c))) r))]"

section \<open>Probes\<close>

datatype probe_result = Reported component_status | TimedOut | ProbeRaised string

type_synonym 'e probes = "(string, 'e \<Rightarrow> probe_result) dict"

definition register_probe :: "string \<Rightarrow> ('e \<Rightarrow> probe_result) \<Rightarrow> 'e probes \<Rightarrow> 'e probes" where
  "register_probe name p probes = AList.update name p probes"

definition register_static :: "string \<Rightarrow> component_health \<Rightarrow> json \<Rightarrow> 'e probes \<Rightarrow> 'e probes" where
  "register_static name h detail probes =
     AList.update name (\<lambda>_. Reported ((component_of name h)\<lparr>hs_detail := detail\<rparr>)) probes"

definition run_probe :: "string \<Rightarrow> probe_result \<Rightarrow> component_status" where
  "run_probe name r =
     (case r of
        Reported c \<Rightarrow> c
      | TimedOut \<Rightarrow> (component_of name DEGRADED)\<lparr>hs_detail := JStr ''Health probe timed out after 3s.''\<rparr>
      | ProbeRaised text \<Rightarrow> (component_of name ERROR)\<lparr>hs_detail := JStr text\<rparr>)"

definition check_health :: "'e probes \<Rightarrow> 'e \<Rightarrow> health_report" where
  "check_health probes e = map (\<lambda>(name, p). (name, run_probe name (p e))) probes"

definition health_endpoint :: "'e probes \<Rightarrow> string \<Rightarrow> 'e \<Rightarrow> nat \<times> payload" where
  "health_endpoint probes checked_at e =
     (let r = check_health probes e in (if healthy r then 200 else 503, report_to_dict checked_at r))"

section \<open>Lemmas\<close>

text \<open>How bad a status of a running component is.\<close>

fun severity :: "component_health \<Rightarrow> nat" where
  "severity ERROR = 3"
| "severity OFFLINE = 2"
| "severity DEGRADED = 1"
| "severity _ = 0"

lemma severity_inj: "h \<notin> {DISABLED, NOT_IMPLEMENTED} \<Longrightarrow> h' \<notin> {DISABLED, NOT_IMPLEMENTED} \<Longrightarrow> severity h = severity h' \<Longrightarrow> h = h'"
  by (cases h; cases h') auto

lemma overall_relevant: "overall r \<notin> {DISABLED, NOT_IMPLEMENTED} \<and> (overall r = ONLINE \<or> overall r \<in> set (relevant r))"
  by (auto simp: overall_def list_ex_iff)

lemma overall_bound: "h \<in> set (relevant r) \<Longrightarrow> severity h \<le> severity (overall r)"
proof -
  assume h: "h \<in> set (relevant r)"
  then have "h \<notin> {DISABLED, NOT_IMPLEMENTED}" by (auto simp: relevant_def)
  then show ?thesis by (cases h rule: component_health.exhaust) (insert h, auto simp: overall_def list_ex_iff)
qed

text \<open>A status that does not count against the system.\<close>

definition fine :: "component_health \<Rightarrow> bool" where
  "fine h \<longleftrightarrow> h = ONLINE \<or> h = DISABLED \<or> h = NOT_IMPLEMENTED"

lemma run_probe_fine: "fine (hs_status (run_probe name r)) \<longleftrightarrow> (\<exists>c. r = Reported c \<and> fine (hs_status c))"
  by (cases r) (auto simp: run_probe_def component_of_def fine_def)

lemma healthy_iff: "healthy r \<longleftrightarrow> list_all (\<lambda>c. fine (hs_status c)) (vals r)"
proof
  assume h: "healthy r"
  show "list_all (\<lambda>c. fine (hs_status c)) (vals r)"
    unfolding list_all_iff
  proof
    fix c
    assume "c \<in> set (vals r)"
    then have "hs_status c \<in> {DISABLED, NOT_IMPLEMENTED} \<or> hs_status c \<in> set (relevant r)" by (force simp: relevant_def)
    moreover have "hs_status c \<in> set (relevant r) \<Longrightarrow> severity (hs_status c) = 0"
      using overall_bound [of "hs_status c" r] h by (simp add: healthy_def)
    ultimately show "fine (hs_status c)" unfolding fine_def by (cases "hs_status c") auto
  qed
next
  assume "list_all (\<lambda>c. fine (hs_status c)) (vals r)"
  then have "set (relevant r) \<subseteq> {ONLINE}" by (auto simp: relevant_def list_all_iff fine_def)
  with overall_relevant [of r] show "healthy r" by (auto simp: healthy_def)
qed

lemma dict_update_new:
  "distinct (keys d @ keys new) \<Longrightarrow> dict_update d new = d @ new"
  unfolding dict_update_def by (induction new arbitrary: d) (auto simp: update_new)

lemma delete_absent: "k \<notin> set (keys d) \<Longrightarrow> AList.delete k d = d"
  by (induction d) auto

section \<open>Properties\<close>

text \<open>
  The health report is the worst of its components and no probe can make it look better than it is. The overall
  status is a running component's and at least as bad as each of them; the endpoint answers 200 exactly when every probe reported in time
  a component that is online, switched off or not built, so one that hangs or fails makes it 503.
\<close>

theorem health_is_worst:
  "(let r = check_health probes e in
      (\<forall>h. h \<in> set (relevant r) \<longrightarrow> severity h \<le> severity (overall r)) \<and>
      (overall r = ONLINE \<or> overall r \<in> set (relevant r))) \<and>
   (fst (health_endpoint probes checked_at e) = 200 \<longleftrightarrow>
      list_all (\<lambda>p. \<exists>c. snd p e = Reported c \<and> fine (hs_status c)) probes)"
proof -
  have "healthy (check_health probes e) \<longleftrightarrow>
      list_all (\<lambda>p. \<exists>c. snd p e = Reported c \<and> fine (hs_status c)) probes"
    unfolding healthy_iff check_health_def list_all_iff by (simp add: split_def run_probe_fine)
  then show ?thesis using overall_bound overall_relevant by (simp add: health_endpoint_def Let_def)
qed

theorem health_is_worst_witness:
  "let probes = register_probe ''redis'' (\<lambda>up. if up then Reported (component_of ''redis'' ONLINE) else TimedOut)
       (register_static ''news'' DISABLED JNull []) in
   fst (health_endpoint probes ''now'' True) = 200 \<and> overall (check_health probes False) = DEGRADED \<and>
   severity DEGRADED \<le> severity (overall (check_health probes False))"
proof -
  define probes where "probes = register_probe ''redis'' (\<lambda>up. if up then Reported (component_of ''redis'' ONLINE) else TimedOut)
       (register_static ''news'' DISABLED JNull [])"
  have "fst (health_endpoint probes ''now'' True) = 200"
    using health_is_worst [of probes True "''now''"]
    by (simp add: probes_def register_probe_def register_static_def component_of_def fine_def)
  moreover have d: "DEGRADED \<in> set (relevant (check_health probes False))"
    by (simp add: probes_def register_probe_def register_static_def component_of_def check_health_def run_probe_def relevant_def)
  moreover from d have "severity DEGRADED \<le> severity (overall (check_health probes False))"
    using health_is_worst [of probes False "''now''"] unfolding Let_def by blast
  moreover have "overall (check_health probes False) = DEGRADED"
    by (simp add: probes_def register_probe_def register_static_def component_of_def check_health_def run_probe_def relevant_def overall_def)
  ultimately show ?thesis unfolding Let_def probes_def [symmetric] by simp
qed

text \<open>
  Splitting what \<open>to_dict\<close> built gives the component back: its status, its detail and its metadata,
  as long as the metadata has no field of that name and no null.
\<close>

theorem status_roundtrip:
  assumes "distinct (keys (hs_metadata c))" "''status'' \<notin> set (keys (hs_metadata c))" "''detail'' \<notin> set (keys (hs_metadata c))"
    "JNull \<notin> set (vals (hs_metadata c))" "py_bool (hs_detail c) \<or> hs_detail c = JNull"
  shows "split_status (status_to_dict c) = Inr (hs_status c, hs_detail c, hs_metadata c)"
proof -
  have nonnull: "filter (\<lambda>kv. snd kv \<noteq> JNull) (hs_metadata c) = hs_metadata c"
    using assms(4) by (auto simp: filter_id_conv image_iff)
  have md: "map_of (hs_metadata c) ''status'' = None" "map_of (hs_metadata c) ''detail'' = None"
    using assms(2,3) by (simp_all add: map_of_eq_None_iff)
  show ?thesis
  proof (cases "py_bool (hs_detail c)")
    case True
    then have "status_to_dict c = [(''status'', JStr (health_value (hs_status c))), (''detail'', hs_detail c)] @ hs_metadata c"
      using assms(1-3) by (simp add: status_to_dict_def dict_update_new Let_def)
    then show ?thesis using assms(2,3) nonnull
      by (simp add: split_status_def delete_absent dict_get_def)
  next
    case False
    then have "status_to_dict c = [(''status'', JStr (health_value (hs_status c)))] @ hs_metadata c"
      using assms(1-3) by (simp add: status_to_dict_def dict_update_new Let_def)
    with False assms(5) show ?thesis using assms(2,3) nonnull md
      by (simp add: split_status_def delete_absent dict_get_def)
  qed
qed

theorem status_roundtrip_witness:
  "split_status (status_to_dict \<lparr>hs_name = ''database'', hs_status = ONLINE, hs_detail = JNull,
     hs_metadata = [(''schema_revision'', JStr ''0001'')]\<rparr>) = Inr (ONLINE, JNull, [(''schema_revision'', JStr ''0001'')])"
  by (subst status_roundtrip) simp_all

end
