(* ===== verification/Scheduler.thy ===== *)
theory Scheduler
  imports Account Health
begin

text \<open>
  \<open>scheduler/service.py\<close>: the heartbeat that runs the monitor of \<open>Account\<close>. A tick's environment says
  whether a database session can be had, which exchange the getter returns, what the clocks show,
  and whether the task is interrupted in that tick or in the sleep after it: by \<open>stop\<close>, which clears
  the flag and cancels the task, or by a cancellation from elsewhere (the event loop going down).
  What is raised in a tick is an \<open>Exception\<close> or a \<open>CancelledError\<close>, which is not one; \<open>str_exc\<close> is the
  text of an exception. The loop tests the flag, ticks, and sleeps, one environment per round.
\<close>

record scheduler =
  sc_running :: bool
  sc_tick_count :: nat
  sc_positions_closed_total :: int
  sc_last_tick_at :: "int option"
  sc_last_error :: "string option"

definition new_scheduler :: scheduler where
  "new_scheduler = \<lparr>sc_running = False, sc_tick_count = 0, sc_positions_closed_total = 0,
     sc_last_tick_at = None, sc_last_error = None\<rparr>"

definition start_scheduler :: "settings \<Rightarrow> scheduler \<Rightarrow> scheduler" where
  "start_scheduler st s = (if \<not> sg_enabled (st_scheduler st) then s else s\<lparr>sc_running := True\<rparr>)"

definition stop_scheduler :: "scheduler \<Rightarrow> scheduler" where
  "stop_scheduler s = s\<lparr>sc_running := False\<rparr>"

text \<open>
  Where an interruption hits: at the \<open>k\<close>-th row of the monitor (past the last row: at its commit;
  beyond that: in the snapshot that follows it), or in the sleep.
\<close>

datatype cancel_point = InTick nat | InSleep

datatype interruption =
    Uninterrupted
  | Stopped cancel_point
  | TaskCancelled cancel_point

record tick_env =
  te_session :: bool
  te_exchange :: "exchange option"
  te_now :: int
  te_finished_at :: int
  te_interruption :: interruption

datatype base_exception = Exn exn | CancelledError

datatype task_state = Pending | Returned | Ended base_exception

definition clears_flag :: "interruption \<Rightarrow> bool" where
  "clears_flag i = (case i of Stopped _ \<Rightarrow> True | _ \<Rightarrow> False)"

definition cancelled_at :: "interruption \<Rightarrow> cancel_point option" where
  "cancelled_at i = (case i of Uninterrupted \<Rightarrow> None | Stopped c \<Rightarrow> Some c | TaskCancelled c \<Rightarrow> Some c)"

text \<open>
  What a cancelled monitor leaves: the rows handled before are durable as far as a closing trade
  committed them; the rest is rolled back with the session.
\<close>

fun durable_rows ::
  "(nat \<Rightarrow> rat \<Rightarrow> rat) \<Rightarrow> settings \<Rightarrow> exchange \<Rightarrow> int \<Rightarrow> paper_position list \<Rightarrow> account_db \<Rightarrow> account_db \<Rightarrow> account_db" where
  "durable_rows qz st ex now [] db durable = durable"
| "durable_rows qz st ex now (r # rs) db durable =
     (case ex_ticker ex (pp_symbol r) of
        Inl _ \<Rightarrow> durable_rows qz st ex now rs db durable
      | Inr price \<Rightarrow>
          (case exit_reason_for_bar price price (pp_stop_loss r) (pp_take_profit r) of
             Some reason \<Rightarrow>
               (case close_paper_trade qz st (Some ex) db (pp_symbol r) reason
                       (if reason = STOP_LOSS then pp_stop_loss r else pp_take_profit r) now of
                  (db', Inr _) \<Rightarrow> durable_rows qz st ex now rs db' db'
                | (db', Inl err) \<Rightarrow>
                    if err = ValidationError then durable_rows qz st ex now rs db' durable else durable)
           | None \<Rightarrow> durable_rows qz st ex now rs (trail_row qz r price db) durable))"

definition monitor_cancelled ::
  "(nat \<Rightarrow> rat \<Rightarrow> rat) \<Rightarrow> settings \<Rightarrow> exchange option \<Rightarrow> account_db \<Rightarrow> int \<Rightarrow> nat \<Rightarrow> account_db" where
  "monitor_cancelled qz st ex db now k =
     (case ex of
        None \<Rightarrow> db
      | Some x \<Rightarrow>
          if k \<le> length (open_rows db) then durable_rows qz st x now (take k (open_rows db)) db db
          else fst (monitor_rows qz st x now (open_rows db) db db [] 0))"

text \<open>The body of the \<open>try\<close>: a session, then the monitor.\<close>

definition tick_body ::
  "(nat \<Rightarrow> rat \<Rightarrow> rat) \<Rightarrow> settings \<Rightarrow> tick_env \<Rightarrow> account_db \<Rightarrow> account_db \<times> (base_exception + int)" where
  "tick_body qz st e db =
     (case cancelled_at (te_interruption e) of
        Some (InTick k) \<Rightarrow>
          (if te_session e then monitor_cancelled qz st (te_exchange e) db (te_now e) k else db, Inl CancelledError)
      | _ \<Rightarrow>
          if te_session e
          then (case monitor_open_positions qz st (te_exchange e) db (te_now e) of
                  (db', Inl err) \<Rightarrow> (db', Inl (Exn err))
                | (db', Inr n) \<Rightarrow> (db', Inr n))
          else (db, Inl (Exn DatabaseError)))"

text \<open>
  \<open>_tick\<close>: \<open>except Exception\<close> takes an exception and keeps its text, a cancellation passes it; the
  last assignments are in the \<open>finally\<close> and run in either case.
\<close>

definition scheduler_tick ::
  "(nat \<Rightarrow> rat \<Rightarrow> rat) \<Rightarrow> settings \<Rightarrow> (exn \<Rightarrow> string) \<Rightarrow> tick_env \<Rightarrow> scheduler \<times> account_db
     \<Rightarrow> (scheduler \<times> account_db) \<times> base_exception option" where
  "scheduler_tick qz st str_exc e s_db =
     (let (s, db) = s_db;
          (db', r) = tick_body qz st e db;
          s0 = (if clears_flag (te_interruption e) \<and> cancelled_at (te_interruption e) \<noteq> Some InSleep then stop_scheduler s else s);
          (s1, out) = (case r of
             Inr n \<Rightarrow> (s0\<lparr>sc_positions_closed_total := sc_positions_closed_total s0 + n, sc_last_error := None\<rparr>, None)
           | Inl (Exn err) \<Rightarrow> (s0\<lparr>sc_last_error := Some (str_exc err)\<rparr>, None)
           | Inl CancelledError \<Rightarrow> (s0, Some CancelledError))
      in ((s1\<lparr>sc_tick_count := sc_tick_count s1 + 1, sc_last_tick_at := Some (te_finished_at e)\<rparr>, db'), out))"

text \<open>\<open>_loop\<close>: what a tick raises ends the task, a cancelled sleep leaves the loop.\<close>

fun scheduler_run ::
  "(nat \<Rightarrow> rat \<Rightarrow> rat) \<Rightarrow> settings \<Rightarrow> (exn \<Rightarrow> string) \<Rightarrow> tick_env list \<Rightarrow> scheduler \<times> account_db
     \<Rightarrow> (scheduler \<times> account_db) \<times> task_state" where
  "scheduler_run qz st str_exc [] x = (x, Pending)"
| "scheduler_run qz st str_exc (e # es) x =
     (if \<not> sc_running (fst x) then (x, Returned)
      else (case scheduler_tick qz st str_exc e x of
              (x', Some exc) \<Rightarrow> (x', Ended exc)
            | (x', None) \<Rightarrow>
                (if cancelled_at (te_interruption e) = Some InSleep
                 then ((if clears_flag (te_interruption e) then apfst stop_scheduler x' else x'), Returned)
                 else scheduler_run qz st str_exc es x')))"

text \<open>\<open>probe\<close>; \<open>show_time\<close> formats an instant. An error without text counts as none.\<close>

definition scheduler_probe :: "(int \<Rightarrow> string) \<Rightarrow> settings \<Rightarrow> scheduler \<Rightarrow> component_status" where
  "scheduler_probe show_time st s =
     (let metadata = [(''tick_count'', JInt (int (sc_tick_count s))),
            (''positions_closed_total'', JInt (sc_positions_closed_total s)),
            (''last_tick_at'', (case sc_last_tick_at s of None \<Rightarrow> JNull | Some t \<Rightarrow> JStr (show_time t)))]
      in if \<not> sg_enabled (st_scheduler st)
         then (component_of ''scheduler'' DISABLED)\<lparr>hs_detail := JStr ''Disabled by configuration.''\<rparr>
         else if \<not> sc_running s
         then (component_of ''scheduler'' OFFLINE)\<lparr>hs_detail := JStr ''Scheduler is not running.''\<rparr>
         else case sc_last_error s of
             None \<Rightarrow> (component_of ''scheduler'' ONLINE)\<lparr>hs_metadata := metadata\<rparr>
           | Some text \<Rightarrow>
               if text = '''' then (component_of ''scheduler'' ONLINE)\<lparr>hs_metadata := metadata\<rparr>
               else (component_of ''scheduler'' DEGRADED)\<lparr>hs_detail := JStr (''Last tick failed: '' @ text),
                 hs_metadata := metadata\<rparr>)"

section \<open>What a tick counts\<close>

lemma trail_row_trades [simp]: "ad_trades (trail_row qz r price db) = ad_trades db"
  by (auto simp: trail_row_def set_stop_def split: option.split)

lemma close_trades:
  assumes "close_paper_trade qz st ex db s reason p now = (db', r)"
  shows "length (ad_trades db') = length (ad_trades db) + (case r of Inl _ \<Rightarrow> 0 | Inr _ \<Rightarrow> 1)"
  using assms by (cases rule: close_cases) simp_all

lemma monitor_rows_trades:
  assumes "monitor_rows qz st ex now rs db durable prices n = (db', res)"
    "length (ad_trades durable) = length (ad_trades db)"
  shows "length (ad_trades db) \<le> length (ad_trades db') \<and>
    (\<forall>prices' n'. res = Inr (prices', n') \<longrightarrow> int (length (ad_trades db')) - int (length (ad_trades db)) = n' - n)"
  using assms
proof (induction rs arbitrary: db durable prices n)
  case (Cons r rs)
  show ?case
  proof (cases "ex_ticker ex (pp_symbol r)")
    case (Inr price)
    show ?thesis
    proof (cases "exit_reason_for_bar price price (pp_stop_loss r) (pp_take_profit r)")
      case None
      with Inr Cons.prems have
        "monitor_rows qz st ex now rs (trail_row qz r price db) durable (AList.update (pp_symbol r) price prices) n = (db', res)"
        by (simp add: Let_def)
      from Cons.IH [OF this] Cons.prems(2) show ?thesis by simp
    next
      case (Some reason)
      obtain db1 c where c: "close_paper_trade qz st (Some ex) db (pp_symbol r) reason
          (if reason = STOP_LOSS then pp_stop_loss r else pp_take_profit r) now = (db1, c)" by fastforce
      note len = close_trades [OF c]
      show ?thesis
      proof (cases c)
        case (Inl err)
        show ?thesis
        proof (cases "err = ValidationError")
          case True
          with Inr Inl Some Cons.prems c have
            "monitor_rows qz st ex now rs db1 durable (AList.update (pp_symbol r) price prices) n = (db', res)"
            by (simp add: Let_def)
          from Cons.IH [OF this] Cons.prems(2) len Inl show ?thesis by simp
        next
          case False
          with Inr Inl Some Cons.prems c have "db' = durable" "res = Inl err" by (simp_all add: Let_def)
          with Cons.prems(2) show ?thesis by simp
        qed
      next
        case c_ok: (Inr y)
        with Inr Some Cons.prems c have
          "monitor_rows qz st ex now rs db1 db1 (AList.update (pp_symbol r) price prices) (n + 1) = (db', res)"
          by (simp add: Let_def)
        from Cons.IH [OF this refl] len c_ok show ?thesis by fastforce
      qed
    qed
  next
    case (Inl err)
    with Cons.prems have "monitor_rows qz st ex now rs db durable prices n = (db', res)" by simp
    from Cons.IH [OF this Cons.prems(2)] show ?thesis .
  qed
qed auto

lemma monitor_trades:
  assumes "monitor_open_positions qz st ex db now = (db', res)"
  shows "length (ad_trades db) \<le> length (ad_trades db') \<and>
    (\<forall>n. res = Inr n \<longrightarrow> n = int (length (ad_trades db')) - int (length (ad_trades db)))"
proof (cases "ex = None \<or> open_rows db = []")
  case True
  with assms have "db' = db" "res = Inr 0" by (auto simp: monitor_open_positions_def split: option.splits)
  then show ?thesis by simp
next
  case False
  then obtain x where x: "ex = Some x" "open_rows db \<noteq> []" by auto
  obtain db1 y where m: "monitor_rows qz st x now (open_rows db) db db [] 0 = (db1, y)" by fastforce
  from monitor_rows_trades [OF m refl] assms show ?thesis
    by (auto simp: monitor_open_positions_def x m split: sum.splits)
qed

text \<open>A cancelled monitor: the ledger stays consistent and no trade is lost.\<close>

lemma durable_rows_ok:
  assumes "ledger_ok db" "ledger_ok durable" "length (ad_trades durable) \<le> length (ad_trades db)"
  shows "ledger_ok (durable_rows qz st ex now rs db durable) \<and>
    length (ad_trades durable) \<le> length (ad_trades (durable_rows qz st ex now rs db durable))"
  using assms
proof (induction rs arbitrary: db durable)
  case (Cons r rs)
  show ?case
  proof (cases "ex_ticker ex (pp_symbol r)")
    case (Inl err)
    with Cons show ?thesis by simp
  next
    case (Inr price)
    show ?thesis
    proof (cases "exit_reason_for_bar price price (pp_stop_loss r) (pp_take_profit r)")
      case None
      with Cons Inr trail_ledger_ok show ?thesis by simp
    next
      case (Some reason)
      obtain db1 x where c: "close_paper_trade qz st (Some ex) db (pp_symbol r) reason
          (if reason = STOP_LOSS then pp_stop_loss r else pp_take_profit r) now = (db1, x)" by fastforce
      have ok: "ledger_ok db1" using close_ledger_ok [OF Cons.prems(1) c] .
      note len = close_trades [OF c]
      show ?thesis
      proof (cases x)
        case (Inl err)
        with Cons.IH [OF ok Cons.prems(2)] Cons.prems len Inr Some c show ?thesis by simp
      next
        case x_ok: (Inr y)
        with Cons.IH [OF ok ok order_refl] Cons.prems len Inr Some c show ?thesis by auto
      qed
    qed
  qed
qed simp

lemma monitor_cancelled_ok:
  assumes "ledger_ok db"
  shows "ledger_ok (monitor_cancelled qz st ex db now k)"
    "length (ad_trades db) \<le> length (ad_trades (monitor_cancelled qz st ex db now k))"
proof -
  have "ledger_ok (monitor_cancelled qz st ex db now k) \<and>
      length (ad_trades db) \<le> length (ad_trades (monitor_cancelled qz st ex db now k))"
  proof (cases ex)
    case (Some x)
    obtain db1 y where m: "monitor_rows qz st x now (open_rows db) db db [] 0 = (db1, y)" by fastforce
    with monitor_rows_ledger_ok [OF m assms assms] monitor_rows_trades [OF m refl] durable_rows_ok [OF assms assms order_refl]
    show ?thesis by (simp add: monitor_cancelled_def Some)
  qed (simp add: monitor_cancelled_def assms)
  then show "ledger_ok (monitor_cancelled qz st ex db now k)"
    "length (ad_trades db) \<le> length (ad_trades (monitor_cancelled qz st ex db now k))" by simp_all
qed

lemma tick_body_result:
  assumes "tick_body qz st e db = (db', r)" "ledger_ok db"
  shows "ledger_ok db'" "length (ad_trades db) \<le> length (ad_trades db')"
    "r = Inr n \<Longrightarrow> n = int (length (ad_trades db')) - int (length (ad_trades db))"
    "r = Inl CancelledError \<longleftrightarrow> (\<exists>k. cancelled_at (te_interruption e) = Some (InTick k))"
proof -
  obtain db1 y where m: "monitor_open_positions qz st (te_exchange e) db (te_now e) = (db1, y)" by fastforce
  note facts = assms monitor_trades [OF m] monitor_ledger_ok [OF assms(2) m] monitor_cancelled_ok [OF assms(2)]
  show "ledger_ok db'" "length (ad_trades db) \<le> length (ad_trades db')"
    "r = Inr n \<Longrightarrow> n = int (length (ad_trades db')) - int (length (ad_trades db))"
    "r = Inl CancelledError \<longleftrightarrow> (\<exists>k. cancelled_at (te_interruption e) = Some (InTick k))"
    using facts by (auto simp: tick_body_def m split: option.splits cancel_point.splits if_splits sum.splits)
qed

lemma tick_result:
  assumes "scheduler_tick qz st str_exc e (s, db) = ((s', db'), out)" "ledger_ok db"
  shows "out = (if \<exists>k. cancelled_at (te_interruption e) = Some (InTick k) then Some CancelledError else None)"
    "out = None \<Longrightarrow> sc_running s' = sc_running s" "sc_tick_count s' = Suc (sc_tick_count s)"
    "sc_last_tick_at s' = Some (te_finished_at e)" "ledger_ok db'"
    "length (ad_trades db) \<le> length (ad_trades db')"
    "sc_positions_closed_total s \<le> sc_positions_closed_total s'"
    "sc_positions_closed_total s' - sc_positions_closed_total s \<le> int (length (ad_trades db')) - int (length (ad_trades db))"
    "out = None \<Longrightarrow> sc_last_error s' = (case snd (tick_body qz st e db) of Inl (Exn err) \<Rightarrow> Some (str_exc err) | _ \<Rightarrow> None)"
proof -
  obtain db1 r where b: "tick_body qz st e db = (db1, r)" by fastforce
  note body = tick_body_result [OF b assms(2)]
  have tot: "r = Inr n \<Longrightarrow> 0 \<le> n" for n using body(2,3) by auto
  have eq: "db' = db1" "((s', db'), out) = scheduler_tick qz st str_exc e (s, db)"
    using assms(1) by (auto simp: scheduler_tick_def b Let_def split: sum.splits base_exception.splits)
  show "ledger_ok db'" "length (ad_trades db) \<le> length (ad_trades db')" using body(1,2) by (simp_all add: eq(1))
  show "out = (if \<exists>k. cancelled_at (te_interruption e) = Some (InTick k) then Some CancelledError else None)"
    using eq(2) body(4) by (auto simp: scheduler_tick_def b Let_def split: sum.splits base_exception.splits)
  show "sc_tick_count s' = Suc (sc_tick_count s)" "sc_last_tick_at s' = Some (te_finished_at e)"
    using eq(2) by (auto simp: scheduler_tick_def b Let_def stop_scheduler_def split: sum.splits base_exception.splits)
  show "out = None \<Longrightarrow> sc_running s' = sc_running s"
    using eq(2) body(4)
    by (auto simp: scheduler_tick_def b Let_def stop_scheduler_def clears_flag_def cancelled_at_def
        split: sum.splits base_exception.splits if_splits interruption.splits cancel_point.splits) (metis cancel_point.exhaust)+
  show "out = None \<Longrightarrow> sc_last_error s' = (case snd (tick_body qz st e db) of Inl (Exn err) \<Rightarrow> Some (str_exc err) | _ \<Rightarrow> None)"
    using eq(2) by (auto simp: scheduler_tick_def b Let_def split: sum.splits base_exception.splits)
  show "sc_positions_closed_total s \<le> sc_positions_closed_total s'"
    using eq(2) tot by (auto simp: scheduler_tick_def b Let_def stop_scheduler_def split: sum.splits base_exception.splits)
  show "sc_positions_closed_total s' - sc_positions_closed_total s \<le> int (length (ad_trades db')) - int (length (ad_trades db))"
    using eq(2) body(2) body(3) unfolding eq(1)
    by (auto simp: scheduler_tick_def b Let_def stop_scheduler_def split: sum.splits base_exception.splits)
qed

lemma run_result:
  assumes "scheduler_run qz st str_exc es (s, db) = ((s', db'), task)" "ledger_ok db" "sc_running s"
  shows "(task = Pending \<longleftrightarrow> (\<forall>e \<in> set es. te_interruption e = Uninterrupted)) \<and>
    (task = Pending \<longrightarrow> sc_running s') \<and>
    sc_tick_count s' = sc_tick_count s + (if task = Pending then length es
      else Suc (length (takeWhile (\<lambda>e. te_interruption e = Uninterrupted) es))) \<and>
    (task = Pending \<and> es \<noteq> [] \<longrightarrow> sc_last_tick_at s' = Some (te_finished_at (last es)) \<and>
      sc_last_error s' = (case snd (tick_body qz st (last es) (snd (fst (scheduler_run qz st str_exc (butlast es) (s, db))))) of
        Inl (Exn err) \<Rightarrow> Some (str_exc err) | _ \<Rightarrow> None)) \<and> ledger_ok db' \<and>
    sc_positions_closed_total s \<le> sc_positions_closed_total s' \<and>
    sc_positions_closed_total s' - sc_positions_closed_total s \<le> int (length (ad_trades db')) - int (length (ad_trades db))"
  using assms
proof (induction es arbitrary: s db)
  case (Cons e es)
  obtain s1 db1 out where t: "scheduler_tick qz st str_exc e (s, db) = ((s1, db1), out)" by (metis prod.exhaust)
  note one = tick_result [OF t Cons.prems(2)]
  consider (tick) k where "cancelled_at (te_interruption e) = Some (InTick k)" | (sleep) "cancelled_at (te_interruption e) = Some InSleep"
    | (on) "cancelled_at (te_interruption e) = None" by (metis cancel_point.exhaust option.exhaust)
  then show ?case
  proof cases
    case tick
    then have "te_interruption e \<noteq> Uninterrupted" "out = Some CancelledError" using one(1) by (auto simp: cancelled_at_def)
    with Cons.prems t one show ?thesis by auto
  next
    case sleep
    then have "te_interruption e \<noteq> Uninterrupted" "out = None" using one(1) by (auto simp: cancelled_at_def)
    with Cons.prems t one sleep show ?thesis by (auto simp: stop_scheduler_def split: if_splits)
  next
    case on
    then have u: "te_interruption e = Uninterrupted" and o: "out = None"
      using one(1) by (auto simp: cancelled_at_def split: interruption.splits)
    have step: "scheduler_run qz st str_exc (e # xs) (s, db) = scheduler_run qz st str_exc xs (s1, db1)" for xs
      using Cons.prems(3) t o on by simp
    have "scheduler_run qz st str_exc es (s1, db1) = ((s', db'), task)" using Cons.prems(1) by (simp only: step)
    note rest = Cons.IH [OF this one(5)]
    have "es = [] \<Longrightarrow> s' = s1" using Cons.prems(1) unfolding step by simp
    with one o rest u Cons.prems(3) show ?thesis
      by (cases "es = []") (auto simp: step simp del: scheduler_run.simps(2))
  qed
qed simp

section \<open>Properties\<close>

text \<open>
  C36: only an interruption ends the heartbeat. While the flag is up, whatever the session, the exchange or
  the monitor does in the ticks, the task is still pending after them exactly when none of them was
  interrupted; it has then counted every tick, stamped the last, and kept the text of the last tick's failure when it failed
  (none when it went well). Otherwise the interrupted tick is the last one counted. Either way the ledger
  is as consistent as it was, and the closed positions the scheduler reports never exceed the trades
  recorded, even when a cancellation hits in the middle of the monitor's rows. A scheduler that is stopped makes no tick.
\<close>

theorem heartbeat_survives:
  assumes "ledger_ok db" "scheduler_run qz st str_exc es (s, db) = ((s', db'), task)"
  shows "(if sc_running s
     then (task = Pending \<longleftrightarrow> (\<forall>e \<in> set es. te_interruption e = Uninterrupted)) \<and>
       (task = Pending \<longrightarrow> sc_running s') \<and>
       sc_tick_count s' = sc_tick_count s + (if task = Pending then length es
         else Suc (length (takeWhile (\<lambda>e. te_interruption e = Uninterrupted) es))) \<and>
       (task = Pending \<and> es \<noteq> [] \<longrightarrow> sc_last_tick_at s' = Some (te_finished_at (last es)) \<and>
         sc_last_error s' = (case snd (tick_body qz st (last es) (snd (fst (scheduler_run qz st str_exc (butlast es) (s, db))))) of
           Inl (Exn err) \<Rightarrow> Some (str_exc err) | _ \<Rightarrow> None))
     else s' = s \<and> db' = db \<and> (es \<noteq> [] \<longrightarrow> task = Returned)) \<and>
    ledger_ok db' \<and>
    sc_positions_closed_total s \<le> sc_positions_closed_total s' \<and>
    sc_positions_closed_total s' - sc_positions_closed_total s \<le> int (length (ad_trades db')) - int (length (ad_trades db))"
proof (cases "sc_running s")
  case True
  with run_result [OF assms(2,1)] show ?thesis by simp
next
  case False
  with assms show ?thesis by (cases es) simp_all
qed

text \<open>
  Two rounds without interruption, the first without a session, the second on a falling price; then
  a third stopped at the monitor's first row, and a fourth that is never reached.
\<close>

definition sample_ticks :: "tick_env list" where
  "sample_ticks =
     [\<lparr>te_session = False, te_exchange = Some crash, te_now = 1, te_finished_at = 2, te_interruption = Uninterrupted\<rparr>,
      \<lparr>te_session = True, te_exchange = Some crash, te_now = 3, te_finished_at = 4, te_interruption = Uninterrupted\<rparr>,
      \<lparr>te_session = True, te_exchange = Some crash, te_now = 5, te_finished_at = 6, te_interruption = Stopped (InTick 0)\<rparr>,
      \<lparr>te_session = True, te_exchange = Some crash, te_now = 7, te_finished_at = 8, te_interruption = Uninterrupted\<rparr>]"

theorem heartbeat_survives_witness:
  "\<exists>s db s' db' task. scheduler_run unrounded free_settings (\<lambda>_. ''connection refused'') (take 1 sample_ticks)
      (start_scheduler default_settings new_scheduler, empty_account) = ((s, db), Pending) \<and>
    sc_running s \<and> sc_tick_count s = 1 \<and> sc_last_error s = Some ''connection refused'' \<and>
    scheduler_run unrounded free_settings (\<lambda>_. ''connection refused'') sample_ticks
      (start_scheduler default_settings new_scheduler, empty_account) = ((s', db'), task) \<and>
    task \<noteq> Pending \<and> sc_tick_count s' = 3 \<and> ledger_ok db'"
proof -
  let ?s = "start_scheduler default_settings new_scheduler" and ?msg = "\<lambda>_. ''connection refused''"
  have on: "sc_running ?s" "sc_tick_count ?s = 0"
    by (simp_all add: start_scheduler_def new_scheduler_def default_settings_def default_scheduler_config_def)
  obtain s db task where r: "scheduler_run unrounded free_settings ?msg (take 1 sample_ticks) (?s, empty_account) = ((s, db), task)"
    by (metis prod.exhaust)
  obtain s' db' task' where r': "scheduler_run unrounded free_settings ?msg sample_ticks (?s, empty_account) = ((s', db'), task')"
    by (metis prod.exhaust)
  have "task = Pending" "sc_running s" "sc_tick_count s = 1" "sc_last_error s = Some ''connection refused''"
    using heartbeat_survives [OF empty_ledger r] on by (simp_all add: sample_ticks_def tick_body_def cancelled_at_def)
  moreover have "task' \<noteq> Pending" "sc_tick_count s' = 3" "ledger_ok db'"
    using heartbeat_survives [OF empty_ledger r'] on by (simp_all add: sample_ticks_def)
  ultimately show ?thesis using r r' by blast
qed

text \<open>
  The probe admits a failure of the last tick, provided the exception has a text; one whose text is empty
  is reported as if the tick had gone well.
\<close>

lemma probe_reports_last_tick:
  assumes "scheduler_tick qz st str_exc e (s, db) = ((s', db'), None)" "ledger_ok db" "sc_running s" "sg_enabled (st_scheduler st)"
  shows "hs_status (scheduler_probe show_time st s') =
    (case snd (tick_body qz st e db) of
       Inl (Exn err) \<Rightarrow> if str_exc err = '''' then ONLINE else DEGRADED
     | _ \<Rightarrow> ONLINE)"
  using tick_result(2,9) [OF assms(1,2)] assms(3,4)
  by (auto simp: scheduler_probe_def component_of_def Let_def split: sum.splits base_exception.splits)

end
