(* ===== verification/RateLimiter.thy ===== *)
theory RateLimiter
  imports Json
begin

text \<open>
  \<open>binance/rate_limiter.py\<close>: a weighted sliding window per declared limit. Clock readings
  are the floats \<open>utc_now().timestamp()\<close> returns, and arithmetic on them rounds. One pass of
  \<open>acquire\<close>'s loop is a function of the reading; the loop is run over the list of readings
  the task sees when it wakes up.
\<close>

section \<open>Rules\<close>

record rate_limit_rule =
  rr_limit_type :: string
  rr_interval_seconds :: int
  rr_limit :: int

definition INTERVAL_SECONDS :: "(string, int) dict" where
  "INTERVAL_SECONDS = [(''SECOND'', 1), (''MINUTE'', 60), (''HOUR'', 3600), (''DAY'', 86400)]"

definition rule_from_exchange_info :: "(string, json) dict \<Rightarrow> rate_limit_rule option" where
  "rule_from_exchange_info entry =
     (case (map_of entry ''interval'', Option.bind (map_of entry ''intervalNum'') py_int,
            Option.bind (map_of entry ''limit'') py_int, map_of entry ''rateLimitType'') of
        (Some interval, Some interval_num, Some limit, Some limit_type) \<Rightarrow>
          (case map_of INTERVAL_SECONDS (upper (py_str interval)) of
             None \<Rightarrow> None
           | Some seconds \<Rightarrow>
               if interval_num \<le> 0 \<or> limit \<le> 0 then None
               else Some \<lparr>rr_limit_type = upper (py_str limit_type),
                          rr_interval_seconds = seconds * interval_num, rr_limit = limit\<rparr>)
      | _ \<Rightarrow> None)"

section \<open>One window\<close>

record window =
  wn_rule :: rate_limit_rule
  wn_entries :: "(rat \<times> int) list"
  wn_used :: int

definition new_window :: "rate_limit_rule \<Rightarrow> window" where
  "new_window rule = \<lparr>wn_rule = rule, wn_entries = [], wn_used = 0\<rparr>"

fun evict_entries :: "rat \<Rightarrow> (rat \<times> int) list \<Rightarrow> int \<Rightarrow> (rat \<times> int) list \<times> int" where
  "evict_entries cutoff [] used = ([], used)"
| "evict_entries cutoff ((t, w) # es) used =
     (if t \<le> cutoff then evict_entries cutoff es (used - w) else ((t, w) # es, used))"

definition cutoff_of :: "window \<Rightarrow> rat \<Rightarrow> rat" where
  "cutoff_of win now = fsub now (of_int (rr_interval_seconds (wn_rule win)))"

definition evict :: "window \<Rightarrow> rat \<Rightarrow> window" where
  "evict win now = (let (es, used) = evict_entries (cutoff_of win now) (wn_entries win) (wn_used win)
     in win\<lparr>wn_entries := es, wn_used := used\<rparr>)"

text \<open>The wait: \<open>Some d\<close> seconds, or \<open>None\<close> for infinity.\<close>

fun scan_wait :: "(rat \<times> int) list \<Rightarrow> int \<Rightarrow> int \<Rightarrow> rat \<Rightarrow> rat \<Rightarrow> rat option" where
  "scan_wait [] freed needed interval now = None"
| "scan_wait ((t, w) # es) freed needed interval now =
     (if needed \<le> freed + w then Some (max 0 (fsub (fadd t interval) now))
      else scan_wait es (freed + w) needed interval now)"

definition wait_seconds :: "window \<Rightarrow> rat \<Rightarrow> int \<Rightarrow> window \<times> rat option" where
  "wait_seconds win0 now weight =
     (let win = evict win0 now; limit = rr_limit (wn_rule win) in
      (win, if wn_used win + weight \<le> limit then Some 0
            else scan_wait (wn_entries win) 0 (wn_used win + weight - limit)
                   (of_int (rr_interval_seconds (wn_rule win))) now))"

definition record_weight :: "window \<Rightarrow> rat \<Rightarrow> int \<Rightarrow> window" where
  "record_weight win now weight =
     win\<lparr>wn_entries := wn_entries win @ [(now, weight)], wn_used := wn_used win + weight\<rparr>"

section \<open>The limiter\<close>

type_synonym window_key = "string \<times> int"

record rate_limiter =
  rl_windows :: "(window_key, window) dict"
  rl_from_exchange :: bool

definition install :: "rate_limit_rule list \<Rightarrow> (window_key, window) dict" where
  "install rules =
     foldl (\<lambda>d r. AList.update (rr_limit_type r, rr_interval_seconds r) (new_window r) d) [] rules"

definition new_limiter :: "rate_limit_rule list \<Rightarrow> rate_limiter" where
  "new_limiter rules = \<lparr>rl_windows = (if rules = [] then [] else install rules), rl_from_exchange = False\<rparr>"

definition limiter_rules :: "rate_limiter \<Rightarrow> rate_limit_rule list" where
  "limiter_rules rl = map (wn_rule \<circ> snd) (rl_windows rl)"

definition usable_rules :: "json list \<Rightarrow> rate_limit_rule list" where
  "usable_rules raw = List.map_filter
     (\<lambda>j. case j of JObj entry \<Rightarrow> rule_from_exchange_info entry | _ \<Rightarrow> None) raw"

definition update_from_exchange_info :: "rate_limiter \<Rightarrow> (string, json) dict \<Rightarrow> rate_limiter" where
  "update_from_exchange_info rl payload =
     (case map_of payload ''rateLimits'' of
        Some (JList raw) \<Rightarrow>
          (let rules = usable_rules raw in
           if rules = [] then rl
           else rl\<lparr>rl_windows := install rules, rl_from_exchange := True\<rparr>)
      | _ \<Rightarrow> rl)"

section \<open>Acquiring\<close>

definition applies :: "string \<Rightarrow> window_key \<Rightarrow> bool" where
  "applies limit_type k \<longleftrightarrow> fst k = limit_type \<or> fst k = ''RAW_REQUESTS''"

definition cost_of :: "window_key \<Rightarrow> int \<Rightarrow> int" where
  "cost_of k weight = (if fst k = ''RAW_REQUESTS'' then 1 else weight)"

datatype attempt = Rejected | Delay rat | Granted

text \<open>The first pass over the windows: the longest wait, or \<open>None\<close> when one is infinite.\<close>

fun scan_windows ::
  "(window_key, window) dict \<Rightarrow> string \<Rightarrow> int \<Rightarrow> rat \<Rightarrow> rat \<Rightarrow> (window_key, window) dict \<times> rat option" where
  "scan_windows [] limit_type weight now delay = ([], Some delay)"
| "scan_windows ((k, win) # ws) limit_type weight now delay =
     (if \<not> applies limit_type k then
        map_prod (Cons (k, win)) id (scan_windows ws limit_type weight now delay)
      else case wait_seconds win now (cost_of k weight) of
        (win', None) \<Rightarrow> ((k, win') # ws, None)
      | (win', Some wait) \<Rightarrow>
          map_prod (Cons (k, win')) id (scan_windows ws limit_type weight now (max delay wait)))"

definition record_all ::
  "(window_key, window) dict \<Rightarrow> string \<Rightarrow> int \<Rightarrow> rat \<Rightarrow> (window_key, window) dict" where
  "record_all ws limit_type weight now =
     map (\<lambda>(k, win). (k, if applies limit_type k then record_weight win now (cost_of k weight) else win)) ws"

definition acquire_once :: "rate_limiter \<Rightarrow> int \<Rightarrow> string \<Rightarrow> rat \<Rightarrow> rate_limiter \<times> attempt" where
  "acquire_once rl weight limit_type now =
     (case scan_windows (rl_windows rl) limit_type weight now 0 of
        (ws, None) \<Rightarrow> (rl\<lparr>rl_windows := ws\<rparr>, Rejected)
      | (ws, Some delay) \<Rightarrow>
          if delay \<le> 0 then (rl\<lparr>rl_windows := record_all ws limit_type weight now\<rparr>, Granted)
          else (rl\<lparr>rl_windows := ws\<rparr>, Delay delay))"

text \<open>
  The loop, over the readings of the clock at each pass; \<open>None\<close> when the readings run out
  before the request is granted or refused.
\<close>

fun acquire :: "rate_limiter \<Rightarrow> int \<Rightarrow> string \<Rightarrow> rat list \<Rightarrow> (rate_limiter \<times> attempt) option" where
  "acquire rl weight limit_type [] = None"
| "acquire rl weight limit_type (now # nows) =
     (case acquire_once rl weight limit_type now of
        (rl', Delay _) \<Rightarrow> acquire rl' weight limit_type nows
      | r \<Rightarrow> Some r)"

section \<open>The books of a window\<close>

definition weights :: "(rat \<times> int) list \<Rightarrow> int" where
  "weights es = sum_list (map snd es)"

definition window_inv :: "window \<Rightarrow> bool" where
  "window_inv win \<longleftrightarrow> wn_used win = weights (wn_entries win) \<and> (\<forall>e \<in> set (wn_entries win). 0 \<le> snd e)"

lemma weights_simps [simp]:
  "weights [] = 0" "weights (e # es) = snd e + weights es" "weights (es @ fs) = weights es + weights fs"
  by (simp_all add: weights_def)

lemma weights_nonneg: "\<forall>e \<in> set es. 0 \<le> snd e \<Longrightarrow> 0 \<le> weights es"
  unfolding weights_def by (intro sum_list_nonneg) auto

lemma evict_entries_drop:
  "evict_entries c es used = (dropWhile (\<lambda>e. fst e \<le> c) es, used - weights (takeWhile (\<lambda>e. fst e \<le> c) es))"
  by (induction c es used rule: evict_entries.induct) auto

lemma evict_entries_eq: "wn_entries (evict win now) = dropWhile (\<lambda>e. fst e \<le> cutoff_of win now) (wn_entries win)"
  by (simp add: evict_def evict_entries_drop)

lemma evict_inv: "window_inv win \<Longrightarrow> window_inv (evict win now)"
proof -
  assume w: "window_inv win"
  let ?P = "\<lambda>e. fst e \<le> cutoff_of win now"
  have "weights (wn_entries win) = weights (takeWhile ?P (wn_entries win)) + weights (dropWhile ?P (wn_entries win))"
    by (metis takeWhile_dropWhile_id weights_simps(3))
  with w show ?thesis
    by (auto simp: window_inv_def evict_def evict_entries_drop dest: set_dropWhileD)
qed

lemma evict_rule [simp]: "wn_rule (evict win now) = wn_rule win"
  by (simp add: evict_def split: prod.splits)

text \<open>An infinite wait is reported exactly when the request is heavier than the limit.\<close>

lemma scan_wait_None: "scan_wait es freed needed i now = None \<Longrightarrow> es \<noteq> [] \<Longrightarrow> \<forall>e \<in> set es. 0 \<le> snd e \<Longrightarrow>
  freed + weights es < needed"
proof (induction es freed needed i now rule: scan_wait.induct)
  case (2 t w es freed needed i now)
  then show ?case by (cases "es = []") (auto split: if_splits)
qed simp

lemma scan_wait_Some: "scan_wait es freed needed i now = Some d \<Longrightarrow> \<forall>e \<in> set es. 0 \<le> snd e \<Longrightarrow>
  needed \<le> freed + weights es"
proof (induction es freed needed i now rule: scan_wait.induct)
  case (2 t w es freed needed i now)
  then show ?case using weights_nonneg [of es] by (auto split: if_splits)
qed simp

lemma wait_infinite:
  assumes "window_inv win" "0 < w"
  shows "snd (wait_seconds win now w) = None \<longleftrightarrow> rr_limit (wn_rule win) < w"
proof -
  let ?win = "evict win now"
  have i: "window_inv ?win" using evict_inv assms by blast
  then have nn: "\<forall>e \<in> set (wn_entries ?win). 0 \<le> snd e" and used: "wn_used ?win = weights (wn_entries ?win)"
    by (auto simp: window_inv_def)
  let ?s = "scan_wait (wn_entries ?win) 0 (wn_used ?win + w - rr_limit (wn_rule win))
    (of_int (rr_interval_seconds (wn_rule win))) now"
  have "?s = None \<longleftrightarrow> rr_limit (wn_rule win) < w" if "\<not> wn_used ?win + w \<le> rr_limit (wn_rule win)"
  proof
    assume "?s = None"
    then show "rr_limit (wn_rule win) < w"
      using scan_wait_None [OF _ _ nn, of 0] used that by (cases "wn_entries ?win = []") fastforce+
  next
    assume "rr_limit (wn_rule win) < w"
    then show "?s = None" using scan_wait_Some [OF _ nn, of 0] used by (cases ?s) fastforce+
  qed
  moreover have "0 \<le> wn_used ?win" using weights_nonneg nn used by simp
  ultimately show ?thesis by (auto simp: wait_seconds_def Let_def)
qed

section \<open>Clock readings\<close>

text \<open>
  Between 2004 and 2038 a Unix time is a float with 22 bits after the point; adding or
  subtracting an interval of whole seconds is exact. The bounds leave room for a window of
  three years on either side.
\<close>

definition tick :: "rat \<Rightarrow> bool" where
  "tick x \<longleftrightarrow> of_int \<lfloor>x * 2 ^ 22\<rfloor> = x * 2 ^ 22"

definition reading :: "rat \<Rightarrow> bool" where
  "reading x \<longleftrightarrow> tick x \<and> 0 \<le> x \<and> x \<le> 2 * 10 ^ 9"

definition rule_ok :: "rate_limit_rule \<Rightarrow> bool" where
  "rule_ok r \<longleftrightarrow> 0 < rr_interval_seconds r \<and> rr_interval_seconds r \<le> 10 ^ 8"

lemma tickI: "x * 2 ^ 22 = of_int m \<Longrightarrow> tick x"
  unfolding tick_def by simp

lemma tick_obtain: "tick x \<Longrightarrow> \<exists>m. x * 2 ^ 22 = of_int m"
  unfolding tick_def by metis

lemma tick_int: "tick (of_int k)"
  by (rule tickI [of _ "k * 2 ^ 22"]) simp

lemma tick_add: "tick x \<Longrightarrow> tick y \<Longrightarrow> tick (x + y)"
  using tick_obtain [of x] tick_obtain [of y] tickI [of "x + y"] by (metis distrib_right of_int_add)

lemma tick_diff: "tick x \<Longrightarrow> tick y \<Longrightarrow> tick (x - y)"
  using tick_obtain [of x] tick_obtain [of y] tickI [of "x - y"] by (metis left_diff_distrib of_int_diff)

lemma tick_flt:
  assumes "tick x" "\<bar>x\<bar> < 2 ^ 31"
  shows "flt x = x"
proof -
  obtain m where m: "x * 2 ^ 22 = of_int m" using tick_obtain assms(1) by blast
  have "\<bar>x\<bar> * 2 ^ 22 < 2 ^ 31 * 2 ^ 22" using assms(2) by (rule mult_strict_right_mono) simp
  moreover have "\<bar>x\<bar> * 2 ^ 22 = \<bar>x * 2 ^ 22\<bar>" by (simp only: abs_mult) simp
  ultimately have "of_int \<bar>m\<bar> < (of_int (2 ^ 53) :: rat)" by (simp only: m of_int_abs) simp
  then have "\<bar>m\<bar> < int 2 ^ 53" by (simp only: of_int_less_iff) simp
  moreover have "x = of_int m * of_nat 2 powi (- 22)"
    by (simp add: m [symmetric] power_int_def power_one_over)
  ultimately show ?thesis unfolding flt_def by (intro rnd_exact [where k = "- 22"]) simp_all
qed

lemma cutoff_exact:
  assumes "reading now" "rule_ok (wn_rule win)"
  shows "cutoff_of win now = now - of_int (rr_interval_seconds (wn_rule win))"
proof -
  let ?i = "of_int (rr_interval_seconds (wn_rule win)) :: rat"
  have "0 < ?i" "?i \<le> of_int (10 ^ 8)" using assms(2) unfolding rule_ok_def of_int_le_iff by simp_all
  then have "\<bar>now - ?i\<bar> < 2 ^ 31" using assms(1) by (simp add: reading_def abs_less_iff)
  then show ?thesis
    using assms(1) unfolding cutoff_of_def fsub_def
    by (intro tick_flt tick_diff tick_int) (auto simp: reading_def)
qed

lemma release_exact:
  assumes "reading t" "reading now" "rule_ok r"
  shows "fsub (fadd t (of_int (rr_interval_seconds r))) now = t + of_int (rr_interval_seconds r) - now"
proof -
  let ?i = "of_int (rr_interval_seconds r) :: rat"
  have i: "0 < ?i" "?i \<le> of_int (10 ^ 8)" using assms(3) unfolding rule_ok_def of_int_le_iff by simp_all
  have "flt (t + ?i) = t + ?i"
    using assms(1) i by (intro tick_flt tick_add tick_int) (auto simp: reading_def)
  moreover have "flt (t + ?i - now) = t + ?i - now"
    using assms(1,2) i by (intro tick_flt tick_add tick_diff tick_int) (auto simp: reading_def abs_less_iff)
  ultimately show ?thesis by (simp add: fsub_def fadd_def)
qed

section \<open>Windows over time\<close>

definition window_ok :: "window \<Rightarrow> rat \<Rightarrow> bool" where
  "window_ok win now \<longleftrightarrow> window_inv win \<and> rule_ok (wn_rule win) \<and> sorted (map fst (wn_entries win)) \<and>
     (\<forall>e \<in> set (wn_entries win). reading (fst e) \<and> fst e \<le> now)"

definition interval :: "window \<Rightarrow> rat" where
  "interval win = of_int (rr_interval_seconds (wn_rule win))"

lemma interval_pos: "window_ok win now \<Longrightarrow> 0 < interval win"
  by (simp add: window_ok_def rule_ok_def interval_def)

lemma window_okD:
  assumes "window_ok win now"
  shows "window_inv win" "rule_ok (wn_rule win)" "sorted (map fst (wn_entries win))"
    "e \<in> set (wn_entries win) \<Longrightarrow> reading (fst e)" "e \<in> set (wn_entries win) \<Longrightarrow> fst e \<le> now"
  using assms by (auto simp: window_ok_def)

lemma window_ok_later: "window_ok win now \<Longrightarrow> now \<le> now' \<Longrightarrow> window_ok win now'"
  by (force simp: window_ok_def)

lemma sorted_dropWhile: "sorted (map fst es) \<Longrightarrow> sorted (map fst (dropWhile P es))"
  by (metis dropWhile_eq_drop drop_map sorted_wrt_drop)

lemma window_ok_evict: "window_ok win now \<Longrightarrow> window_ok (evict win now') now"
  using evict_inv [of win now']
  by (auto simp: window_ok_def evict_entries_eq sorted_dropWhile dest: set_dropWhileD)

text \<open>What is left after an eviction is exactly what is recent.\<close>

lemma evict_recent:
  assumes "window_ok win now0" "reading now" "e \<in> set (wn_entries (evict win now))"
  shows "now - interval win < fst e"
proof -
  let ?P = "\<lambda>e. fst e \<le> now - interval win"
  have e: "wn_entries (evict win now) = dropWhile ?P (wn_entries win)"
    using cutoff_exact [OF assms(2) window_okD(2) [OF assms(1)]] by (simp add: evict_entries_eq interval_def)
  have s: "sorted (map fst (dropWhile ?P (wn_entries win)))"
    using window_okD(3) [OF assms(1)] by (rule sorted_dropWhile)
  obtain x xs where x: "dropWhile ?P (wn_entries win) = x # xs"
    using assms(3) e by (cases "dropWhile ?P (wn_entries win)") auto
  then have "\<not> ?P x" by (metis hd_dropWhile list.discI list.sel(1))
  with s x assms(3) e show ?thesis by auto
qed

lemma scan_wait_at:
  "scan_wait es freed needed i now = Some d \<Longrightarrow>
   \<exists>pre t v post. es = pre @ (t, v) # post \<and> needed \<le> freed + weights pre + v \<and>
     d = max 0 (fsub (fadd t i) now)"
proof (induction es freed needed i now rule: scan_wait.induct)
  case (2 t w es freed needed i now)
  show ?case
  proof (cases "needed \<le> freed + w")
    case True
    with 2(2) show ?thesis by (intro exI [of _ "[]"]) auto
  next
    case False
    with 2 obtain pre t' v post where "es = pre @ (t', v) # post" "needed \<le> freed + w + weights pre + v"
      "d = max 0 (fsub (fadd t' i) now)" by auto
    then show ?thesis by (intro exI [of _ "(t, w) # pre"]) auto
  qed
qed simp

definition fits :: "window \<Rightarrow> rat \<Rightarrow> int \<Rightarrow> bool" where
  "fits win now w \<longleftrightarrow> wn_used (evict win now) + w \<le> rr_limit (wn_rule win)"

text \<open>A zero wait means it fits, and after the wait it fits.\<close>

lemma wait_zero:
  assumes "window_ok win now" "reading now" "snd (wait_seconds win now w) = Some d"
  shows "d \<le> 0 \<longleftrightarrow> fits win now w" "0 \<le> d"
proof -
  let ?win = "evict win now"
  have "0 < d" if "\<not> fits win now w"
  proof -
    from that assms(3) have "scan_wait (wn_entries ?win) 0 (wn_used ?win + w - rr_limit (wn_rule win))
        (interval win) now = Some d"
      by (simp add: wait_seconds_def fits_def Let_def interval_def)
    from scan_wait_at [OF this] obtain pre t v post where p: "wn_entries ?win = pre @ (t, v) # post"
      "d = max 0 (fsub (fadd t (interval win)) now)" by blast
    then have m: "(t, v) \<in> set (wn_entries ?win)" by simp
    have "reading t" using window_okD(4) [OF window_ok_evict [OF assms(1)] m] by simp
    then have "fsub (fadd t (interval win)) now = t + interval win - now"
      unfolding interval_def using assms(2) window_okD(2) [OF assms(1)] by (rule release_exact)
    moreover have "now - interval win < t" using evict_recent [OF assms(1,2) m] by simp
    ultimately show ?thesis using p(2) by simp
  qed
  moreover have "d = 0" if "fits win now w" using that assms(3) by (simp add: wait_seconds_def fits_def Let_def)
  ultimately show "d \<le> 0 \<longleftrightarrow> fits win now w" "0 \<le> d" by force+
qed

text \<open>After the wait of one window, it fits.\<close>

lemma wait_suffices:
  assumes ok: "window_ok win now" and now: "reading now" "reading now'"
    and wait: "snd (wait_seconds win now w) = Some d" and later: "now + d \<le> now'"
  shows "fits (evict win now) now' w"
proof -
  let ?win = "evict win now"
  have ok': "window_ok ?win now" using window_ok_evict [OF ok] .
  have d: "0 \<le> d" using wait_zero(2) [OF ok now(1) wait] .
  let ?P = "\<lambda>e. fst e \<le> now' - interval win"
  have interval: "interval ?win = interval win" by (simp add: interval_def)
  have es: "wn_entries (evict ?win now') = dropWhile ?P (wn_entries ?win)"
    using cutoff_exact [OF now(2) window_okD(2) [OF ok']] by (simp add: evict_entries_eq interval_def)
  have used: "wn_used (evict ?win now') = weights (dropWhile ?P (wn_entries ?win))"
    using evict_inv [OF window_okD(1) [OF ok'], of now'] es by (simp add: window_inv_def)
  have nn: "\<forall>e \<in> set (wn_entries ?win). 0 \<le> snd e" and u: "wn_used ?win = weights (wn_entries ?win)"
    using window_okD(1) [OF ok'] by (auto simp: window_inv_def)
  show ?thesis
  proof (cases "fits win now w")
    case True
    have "weights (wn_entries ?win) =
        weights (takeWhile ?P (wn_entries ?win)) + weights (dropWhile ?P (wn_entries ?win))"
      by (metis takeWhile_dropWhile_id weights_simps(3))
    moreover have "0 \<le> weights (takeWhile ?P (wn_entries ?win))"
      using nn by (intro weights_nonneg) (auto dest: set_takeWhileD)
    ultimately show ?thesis using True used u by (simp add: fits_def)
  next
    case False
    with wait have "scan_wait (wn_entries ?win) 0 (wn_used ?win + w - rr_limit (wn_rule win))
        (interval win) now = Some d"
      by (simp add: wait_seconds_def fits_def Let_def interval_def)
    from scan_wait_at [OF this] obtain pre t v post where p: "wn_entries ?win = pre @ (t, v) # post"
      "wn_used ?win + w - rr_limit (wn_rule win) \<le> weights pre + v"
      "d = max 0 (fsub (fadd t (interval win)) now)" by auto
    have "reading t" using window_okD(4) [OF ok', of "(t, v)"] p(1) by simp
    then have "fsub (fadd t (interval win)) now = t + interval win - now"
      unfolding interval_def using now(1) window_okD(2) [OF ok] by (rule release_exact)
    then have "t \<le> now' - interval win" using p(3) later by auto
    then have "\<forall>e \<in> set (pre @ [(t, v)]). ?P e"
      using window_okD(3) [OF ok'] p(1) by (auto simp: sorted_append)
    then have "dropWhile ?P (wn_entries ?win) = dropWhile ?P post"
      using p(1) dropWhile_append2 [of "pre @ [(t, v)]" ?P post] by auto
    moreover have "weights (dropWhile ?P post) \<le> weights post"
    proof -
      have "weights post = weights (takeWhile ?P post) + weights (dropWhile ?P post)"
        by (metis takeWhile_dropWhile_id weights_simps(3))
      moreover have "0 \<le> weights (takeWhile ?P post)"
        using nn p(1) by (intro weights_nonneg) (auto dest: set_takeWhileD)
      ultimately show ?thesis by simp
    qed
    ultimately show ?thesis using used u p(1,2) by (simp add: fits_def)
  qed
qed

section \<open>One pass over the windows\<close>

definition limiter_ok :: "rate_limiter \<Rightarrow> rat \<Rightarrow> bool" where
  "limiter_ok rl now \<longleftrightarrow> (\<forall>kw \<in> set (rl_windows rl). window_ok (snd kw) now)"

lemma wait_seconds_fst [simp]: "fst (wait_seconds win now w) = evict win now"
  by (simp add: wait_seconds_def Let_def)

definition swept :: "(window_key, window) dict \<Rightarrow> string \<Rightarrow> rat \<Rightarrow> (window_key, window) dict" where
  "swept ws ty now = map (\<lambda>(k, win). (k, if applies ty k then evict win now else win)) ws"

lemma scan_windows_Some:
  "scan_windows ws ty w now delay = (ws', Some D) \<Longrightarrow> ws' = swept ws ty now \<and> delay \<le> D \<and>
   (\<forall>kw \<in> set ws. applies ty (fst kw) \<longrightarrow>
      (\<exists>d. snd (wait_seconds (snd kw) now (cost_of (fst kw) w)) = Some d \<and> d \<le> D)) \<and>
   (D = delay \<or> (\<exists>kw \<in> set ws. applies ty (fst kw) \<and>
      snd (wait_seconds (snd kw) now (cost_of (fst kw) w)) = Some D))"
proof (induction ws ty w now delay arbitrary: ws' rule: scan_windows.induct)
  case (2 k win ws ty w now delay)
  show ?case
  proof (cases "applies ty k")
    case False
    with 2 show ?thesis
      by (cases "scan_windows ws ty w now delay") (auto simp: swept_def)
  next
    case True
    obtain win' r where w: "wait_seconds win now (cost_of k w) = (win', r)"
      by (cases "wait_seconds win now (cost_of k w)")
    then have "win' = evict win now" using wait_seconds_fst by (metis fst_conv)
    with 2 True w show ?thesis
      by (cases r; cases "scan_windows ws ty w now (max delay (the r))") (auto simp: swept_def)
  qed
qed (simp add: swept_def)

lemma scan_windows_None:
  "scan_windows ws ty w now delay = (ws', None) \<Longrightarrow>
   \<exists>kw \<in> set ws. applies ty (fst kw) \<and> snd (wait_seconds (snd kw) now (cost_of (fst kw) w)) = None"
proof (induction ws ty w now delay arbitrary: ws' rule: scan_windows.induct)
  case (2 k win ws ty w now delay)
  show ?case
  proof (cases "applies ty k")
    case False
    with 2 show ?thesis by (cases "scan_windows ws ty w now delay") auto
  next
    case True
    obtain win' r where w: "wait_seconds win now (cost_of k w) = (win', r)"
      by (cases "wait_seconds win now (cost_of k w)")
    with 2 True show ?thesis
      by (cases r; cases "scan_windows ws ty w now (max delay (the r))") auto
  qed
qed simp

text \<open>What a pass does, case by case.\<close>

lemma acquire_once_granted:
  assumes "limiter_ok rl now" "reading now"
  shows "snd (acquire_once rl w ty now) = Granted \<longleftrightarrow>
    (\<forall>kw \<in> set (rl_windows rl). applies ty (fst kw) \<longrightarrow> fits (snd kw) now (cost_of (fst kw) w))"
proof (cases "scan_windows (rl_windows rl) ty w now 0")
  case (Pair ws r)
  show ?thesis
  proof (cases r)
    case None
    then obtain kw where "kw \<in> set (rl_windows rl)" "applies ty (fst kw)"
      "snd (wait_seconds (snd kw) now (cost_of (fst kw) w)) = None"
      using scan_windows_None Pair by blast
    moreover have "\<not> fits (snd kw) now (cost_of (fst kw) w)"
      using calculation(3) by (auto simp: wait_seconds_def fits_def Let_def split: if_splits)
    ultimately show ?thesis using Pair None by (auto simp: acquire_once_def)
  next
    case (Some D)
    note s = scan_windows_Some [OF Pair [unfolded Some]]
    have *: "fits (snd kw) now (cost_of (fst kw) w) \<longleftrightarrow> d \<le> 0"
      if "kw \<in> set (rl_windows rl)" "snd (wait_seconds (snd kw) now (cost_of (fst kw) w)) = Some d" for kw d
      using wait_zero(1) [OF _ assms(2) that(2)] assms(1) that(1) by (auto simp: limiter_ok_def)
    have "snd (acquire_once rl w ty now) = Granted \<longleftrightarrow> D \<le> 0"
      using Pair Some by (simp add: acquire_once_def)
    also have "\<dots> \<longleftrightarrow> (\<forall>kw \<in> set (rl_windows rl). applies ty (fst kw) \<longrightarrow> fits (snd kw) now (cost_of (fst kw) w))"
    proof
      assume D: "D \<le> 0"
      show "\<forall>kw \<in> set (rl_windows rl). applies ty (fst kw) \<longrightarrow> fits (snd kw) now (cost_of (fst kw) w)"
      proof (intro ballI impI)
        fix kw
        assume kw: "kw \<in> set (rl_windows rl)" "applies ty (fst kw)"
        then obtain d where "snd (wait_seconds (snd kw) now (cost_of (fst kw) w)) = Some d" "d \<le> D"
          using s by blast
        with * [OF kw(1)] D show "fits (snd kw) now (cost_of (fst kw) w)" by simp
      qed
    next
      assume "\<forall>kw \<in> set (rl_windows rl). applies ty (fst kw) \<longrightarrow> fits (snd kw) now (cost_of (fst kw) w)"
      with s * show "D \<le> 0" by blast
    qed
    finally show ?thesis .
  qed
qed

lemma acquire_once_windows:
  assumes "acquire_once rl w ty now = (rl', a)" "a \<noteq> Rejected"
  shows "rl_windows rl' =
    (if a = Granted then record_all (swept (rl_windows rl) ty now) ty w now else swept (rl_windows rl) ty now)"
proof -
  obtain ws D where sc: "scan_windows (rl_windows rl) ty w now 0 = (ws, Some D)"
    using assms by (cases "scan_windows (rl_windows rl) ty w now 0"; cases "snd (scan_windows (rl_windows rl) ty w now 0)")
      (auto simp: acquire_once_def)
  then have "ws = swept (rl_windows rl) ty now" using scan_windows_Some by blast
  with assms sc show ?thesis by (auto simp: acquire_once_def split: if_splits)
qed

lemma acquire_once_delay:
  assumes "acquire_once rl w ty now = (rl', Delay d)"
  shows "0 < d" "\<forall>kw \<in> set (rl_windows rl). applies ty (fst kw) \<longrightarrow>
      (\<exists>x. snd (wait_seconds (snd kw) now (cost_of (fst kw) w)) = Some x \<and> x \<le> d)"
proof -
  obtain ws where sc: "scan_windows (rl_windows rl) ty w now 0 = (ws, Some d)" "0 < d"
    using assms by (cases "scan_windows (rl_windows rl) ty w now 0"; cases "snd (scan_windows (rl_windows rl) ty w now 0)")
      (auto simp: acquire_once_def split: if_splits)
  then show "0 < d" "\<forall>kw \<in> set (rl_windows rl). applies ty (fst kw) \<longrightarrow>
      (\<exists>x. snd (wait_seconds (snd kw) now (cost_of (fst kw) w)) = Some x \<and> x \<le> d)"
    using scan_windows_Some by blast+
qed

lemma acquire_once_rejected:
  assumes "snd (acquire_once rl w ty now) = Rejected"
  shows "\<exists>kw \<in> set (rl_windows rl). applies ty (fst kw) \<and> snd (wait_seconds (snd kw) now (cost_of (fst kw) w)) = None"
proof -
  obtain ws where "scan_windows (rl_windows rl) ty w now 0 = (ws, None)"
    using assms by (cases "scan_windows (rl_windows rl) ty w now 0"; cases "snd (scan_windows (rl_windows rl) ty w now 0)")
      (auto simp: acquire_once_def split: if_splits)
  then show ?thesis by (rule scan_windows_None)
qed

section \<open>The limit over a run\<close>

text \<open>
  A run of requests with the log of those granted; \<open>charged\<close> is what the log says a window
  was charged.
\<close>

type_synonym call = "int \<times> string \<times> rat"

definition call_step :: "rate_limiter \<times> call list \<Rightarrow> call \<Rightarrow> rate_limiter \<times> call list" where
  "call_step s c = (case (s, c) of ((rl, hist), (w, ty, now)) \<Rightarrow>
     (case acquire_once rl w ty now of
        (rl', a) \<Rightarrow> (rl', if a = Granted then hist @ [(w, ty, now)] else hist)))"

definition charged :: "window_key \<Rightarrow> call list \<Rightarrow> (rat \<times> int) list" where
  "charged k hist = map (\<lambda>(w, ty, now). (now, cost_of k w)) (filter (\<lambda>(w, ty, now). applies ty k) hist)"

definition window_hist :: "call list \<Rightarrow> rat \<Rightarrow> window_key \<times> window \<Rightarrow> bool" where
  "window_hist hist now kw \<longleftrightarrow> window_ok (snd kw) now \<and> wn_used (snd kw) \<le> rr_limit (wn_rule (snd kw)) \<and>
     (\<exists>old. charged (fst kw) hist = old @ wn_entries (snd kw) \<and> (\<forall>e \<in> set old. fst e \<le> now - interval (snd kw)))"

lemma window_hist_evict:
  assumes h: "window_hist hist now (k, win)" and now': "now \<le> now'" "reading now'"
  shows "window_hist hist now' (k, evict win now')"
proof -
  obtain old where old: "charged k hist = old @ wn_entries win" "\<forall>e \<in> set old. fst e \<le> now - interval win"
    and ok: "window_ok win now" and l: "wn_used win \<le> rr_limit (wn_rule win)"
    using h by (auto simp: window_hist_def)
  let ?P = "\<lambda>e. fst e \<le> now' - interval win"
  have es: "wn_entries (evict win now') = dropWhile ?P (wn_entries win)"
    using cutoff_exact [OF now'(2) window_okD(2) [OF ok]] by (simp add: evict_entries_eq interval_def)
  have split: "wn_entries win = takeWhile ?P (wn_entries win) @ dropWhile ?P (wn_entries win)" by simp
  have "charged k hist = (old @ takeWhile ?P (wn_entries win)) @ wn_entries (evict win now')"
    using old(1) split es by simp
  moreover have "\<forall>e \<in> set (old @ takeWhile ?P (wn_entries win)). fst e \<le> now' - interval win"
    using old(2) now'(1) by (auto dest: set_takeWhileD)
  moreover have "window_ok (evict win now') now'"
    using window_ok_later [OF window_ok_evict [OF ok] now'(1)] .
  moreover have "wn_used (evict win now') \<le> wn_used win"
  proof -
    have "wn_used win = weights (takeWhile ?P (wn_entries win)) + weights (dropWhile ?P (wn_entries win))"
      using window_okD(1) [OF ok] split weights_simps(3) unfolding window_inv_def by metis
    moreover have "0 \<le> weights (takeWhile ?P (wn_entries win))"
      using window_okD(1) [OF ok] by (intro weights_nonneg) (auto simp: window_inv_def dest: set_takeWhileD)
    moreover have "wn_used (evict win now') = weights (dropWhile ?P (wn_entries win))"
      using window_okD(1) [OF window_ok_evict [OF ok], of now'] es by (simp add: window_inv_def)
    ultimately show ?thesis by simp
  qed
  moreover have "interval (evict win now') = interval win" by (simp add: interval_def)
  ultimately show ?thesis using l unfolding window_hist_def by auto
qed

lemma window_hist_later:
  "window_hist hist now kw \<Longrightarrow> now \<le> now' \<Longrightarrow> window_hist hist now' kw"
  unfolding window_hist_def using window_ok_later by (meson diff_right_mono order_trans)

lemma window_hist_record:
  assumes h: "window_hist hist now (k, win)" and a: "applies ty k" and w: "0 \<le> w" and now: "reading now"
    and fit: "wn_used win + cost_of k w \<le> rr_limit (wn_rule win)"
  shows "window_hist (hist @ [(w, ty, now)]) now (k, record_weight win now (cost_of k w))"
proof -
  have "0 \<le> cost_of k w" using w by (simp add: cost_of_def)
  with h a now fit show ?thesis
    by (auto simp: window_hist_def record_weight_def charged_def window_ok_def window_inv_def
        interval_def sorted_append)
qed

lemma window_hist_skip:
  "window_hist hist now kw \<Longrightarrow> \<not> applies ty (fst kw) \<Longrightarrow> window_hist (hist @ [(w, ty, t)]) now kw"
  by (simp add: window_hist_def charged_def)

lemma scan_windows_mem:
  "scan_windows ws ty w now delay = (ws', r) \<Longrightarrow> kw \<in> set ws' \<Longrightarrow>
   \<exists>win. (fst kw, win) \<in> set ws \<and> (snd kw = win \<or> snd kw = evict win now)"
proof (induction ws arbitrary: delay ws' r)
  case (Cons kv ws)
  obtain k win where kv: "kv = (k, win)" by (cases kv)
  obtain win' ws'' delay' r' where ws': "ws' = (k, win') # ws''" "win' = win \<or> win' = evict win now"
    "ws'' = ws \<or> scan_windows ws ty w now delay' = (ws'', r')"
  proof (cases "applies ty k")
    case False
    then show thesis using Cons.prems(1) kv that [of win]
      by (cases "scan_windows ws ty w now delay") auto
  next
    case True
    obtain x where w: "wait_seconds win now (cost_of k w) = (evict win now, x)"
      using wait_seconds_fst [of win now "cost_of k w"] by (cases "wait_seconds win now (cost_of k w)") auto
    show thesis
      using Cons.prems(1) kv True w that [of "evict win now"]
      by (cases x; cases "scan_windows ws ty w now (max delay (the x))") auto
  qed
  consider "kw = (k, win')" | "kw \<in> set ws" | "kw \<in> set ws''" "scan_windows ws ty w now delay' = (ws'', r')"
    using Cons.prems(2) ws' by auto
  then show ?case
  proof cases
    case 1
    with ws'(2) kv show ?thesis by auto
  next
    case 2
    then show ?thesis by (metis list.set_intros(2) prod.collapse)
  next
    case 3
    from Cons.IH [OF 3(2,1)] show ?thesis by auto
  qed
qed simp

definition limiter_hist :: "call list \<Rightarrow> rat \<Rightarrow> rate_limiter \<Rightarrow> bool" where
  "limiter_hist hist now rl \<longleftrightarrow> (\<forall>kw \<in> set (rl_windows rl). window_hist hist now kw)"

lemma limiter_hist_ok: "limiter_hist hist now rl \<Longrightarrow> limiter_ok rl now"
  by (auto simp: limiter_hist_def limiter_ok_def window_hist_def)

lemma limiter_hist_later: "limiter_hist hist now rl \<Longrightarrow> now \<le> now' \<Longrightarrow> limiter_hist hist now' rl"
  using window_hist_later unfolding limiter_hist_def by blast

lemma call_step_hist:
  assumes h: "limiter_hist hist now rl" and t: "now \<le> t" "reading t" and w: "0 \<le> w"
    and step: "call_step (rl, hist) (w, ty, t) = (rl', hist')"
  shows "limiter_hist hist' t rl'"
proof -
  have ht: "limiter_hist hist t rl" using limiter_hist_later [OF h t(1)] .
  obtain a where a: "acquire_once rl w ty t = (rl', a)"
    and hist': "hist' = (if a = Granted then hist @ [(w, ty, t)] else hist)"
    using step by (cases "acquire_once rl w ty t") (auto simp: call_step_def)
  have ev: "window_hist hist t (k, evict win t)" if "(k, win) \<in> set (rl_windows rl)" for k win
    using that h window_hist_evict [OF _ t] by (auto simp: limiter_hist_def)
  show ?thesis
  proof (cases "a = Granted")
    case True
    have fit: "applies ty k \<Longrightarrow> fits win t (cost_of k w)" if "(k, win) \<in> set (rl_windows rl)" for k win
      using acquire_once_granted [OF limiter_hist_ok [OF ht] t(2)] a True that by fastforce
    have "window_hist hist' t kw" if "kw \<in> set (rl_windows rl')" for kw
    proof -
      have "\<exists>kv \<in> set (rl_windows rl). kw = (fst kv, if applies ty (fst kv)
          then record_weight (evict (snd kv) t) t (cost_of (fst kv) w) else snd kv)"
        using that acquire_once_windows [OF a] True by (force simp: record_all_def swept_def)
      then obtain kv where kv: "kv \<in> set (rl_windows rl)" "kw = (fst kv, if applies ty (fst kv)
          then record_weight (evict (snd kv) t) t (cost_of (fst kv) w) else snd kv)" by blast
      define k win where "k = fst kv" and "win = snd kv"
      have m: "(k, win) \<in> set (rl_windows rl)"
        "kw = (k, if applies ty k then record_weight (evict win t) t (cost_of k w) else win)"
        using kv by (simp_all add: k_def win_def)
      show ?thesis
      proof (cases "applies ty k")
        case ap: True
        have "wn_used (evict win t) + cost_of k w \<le> rr_limit (wn_rule (evict win t))"
          using fit [OF m(1) ap] by (simp add: fits_def)
        from window_hist_record [OF ev [OF m(1)] ap w t(2) this] show ?thesis
          using ap m(2) True hist' by simp
      next
        case False
        with m ht True hist' show ?thesis by (auto simp: limiter_hist_def intro!: window_hist_skip)
      qed
    qed
    then show ?thesis by (simp add: limiter_hist_def)
  next
    case False
    have "window_hist hist t kw" if "kw \<in> set (rl_windows rl')" for kw
    proof -
      obtain ws r where sc: "scan_windows (rl_windows rl) ty w t 0 = (ws, r)"
        by (cases "scan_windows (rl_windows rl) ty w t 0")
      then have "rl_windows rl' = ws"
        using a False by (cases r) (auto simp: acquire_once_def split: if_splits)
      with scan_windows_mem [OF sc] that obtain win where
        "(fst kw, win) \<in> set (rl_windows rl)" "snd kw = win \<or> snd kw = evict win t" by blast
      then show ?thesis using ev ht by (cases kw) (auto simp: limiter_hist_def)
    qed
    then show ?thesis using False hist' by (simp add: limiter_hist_def)
  qed
qed

lemma install_mem:
  "kw \<in> set (install rules) \<Longrightarrow>
   \<exists>r \<in> set rules. kw = ((rr_limit_type r, rr_interval_seconds r), new_window r)"
proof (induction rules rule: rev_induct)
  case (snoc r rules)
  have "kw \<in> set (AList.update (rr_limit_type r, rr_interval_seconds r) (new_window r) (install rules))"
    using snoc.prems by (simp add: install_def)
  then have "kw = ((rr_limit_type r, rr_interval_seconds r), new_window r) \<or> kw \<in> set (install rules)"
    using mem_update [of "fst kw" "snd kw" "(rr_limit_type r, rr_interval_seconds r)" "new_window r"
      "install rules"] by simp
  with snoc.IH show ?case by auto
qed (simp add: install_def)

lemma new_limiter_hist:
  "\<forall>r \<in> set rules. rule_ok r \<and> 0 \<le> rr_limit r \<Longrightarrow> limiter_hist [] now (new_limiter rules)"
  by (auto simp: limiter_hist_def new_limiter_def window_hist_def window_ok_def window_inv_def
      new_window_def charged_def dest!: install_mem split: if_splits)

lemma run_hist:
  "\<forall>r \<in> set rules. rule_ok r \<and> 0 \<le> rr_limit r \<Longrightarrow>
   \<forall>(w, ty, t) \<in> set calls. 0 \<le> w \<and> reading t \<and> t \<le> now \<Longrightarrow> sorted (map (snd \<circ> snd) calls) \<Longrightarrow>
   foldl call_step (new_limiter rules, []) calls = (rl, hist) \<Longrightarrow> limiter_hist hist now rl"
proof (induction calls arbitrary: now rl hist rule: rev_induct)
  case Nil
  then show ?case using new_limiter_hist [OF Nil(1)] by auto
next
  case (snoc c calls)
  obtain w ty t where c: "c = (w, ty, t)" by (rule prod_cases3)
  obtain rl0 hist0 where s: "foldl call_step (new_limiter rules, []) calls = (rl0, hist0)"
    by (cases "foldl call_step (new_limiter rules, []) calls")
  have "\<forall>(w, ty, t') \<in> set calls. 0 \<le> w \<and> reading t' \<and> t' \<le> t"
    using snoc.prems(2,3) c by (fastforce simp: sorted_append)
  moreover have "sorted (map (snd \<circ> snd) calls)" using snoc.prems(3) by (simp add: sorted_append comp_def)
  ultimately have "limiter_hist hist0 t rl0" using snoc.IH [OF snoc.prems(1)] s by blast
  moreover have "call_step (rl0, hist0) (w, ty, t) = (rl, hist)" using snoc.prems(4) s c by simp
  moreover have "0 \<le> w" "reading t" "t \<le> now" using snoc.prems(2) c by auto
  ultimately show ?case using call_step_hist [of hist0 t rl0 t w ty rl hist] limiter_hist_later by blast
qed

section \<open>Properties\<close>

text \<open>
  C11: a declared limit is never exceeded. Over any run of requests, whatever their weights
  and times, the weight charged to a window during its interval up to any moment is within
  the limit of the window's rule.
\<close>

theorem limit_never_exceeded:
  assumes "\<forall>r \<in> set rules. rule_ok r \<and> 0 \<le> rr_limit r"
    "\<forall>(w, ty, t) \<in> set calls. 0 \<le> w \<and> reading t \<and> t \<le> now" "sorted (map (snd \<circ> snd) calls)"
    "foldl call_step (new_limiter rules, []) calls = (rl, hist)" "(k, win) \<in> set (rl_windows rl)"
    "reading now"
  shows "weights (filter (\<lambda>e. now - interval win < fst e) (charged k hist)) \<le> rr_limit (wn_rule win)"
proof -
  have "window_hist hist now (k, win)" using run_hist [OF assms(1-4)] assms(5) by (auto simp: limiter_hist_def)
  from window_hist_evict [OF this order_refl assms(6)] have h: "window_hist hist now (k, evict win now)" .
  have i: "interval (evict win now) = interval win" by (simp add: interval_def)
  from h obtain old where old: "charged k hist = old @ wn_entries (evict win now)"
    "\<forall>e \<in> set old. fst e \<le> now - interval win" and ok: "window_ok (evict win now) now"
    and used: "wn_used (evict win now) \<le> rr_limit (wn_rule win)"
    by (auto simp: window_hist_def i)
  let ?R = "\<lambda>e. now - interval win < fst e"
  have "filter ?R old = []" using old(2) by (auto simp: filter_empty_conv)
  then have "weights (filter ?R (charged k hist)) = weights (filter ?R (wn_entries (evict win now)))"
    by (simp add: old(1))
  also have "\<dots> \<le> weights (wn_entries (evict win now))"
  proof -
    have "\<forall>e \<in> set es. 0 \<le> snd e \<Longrightarrow> weights (filter ?R es) \<le> weights es" for es
      by (induction es) auto
    then show ?thesis using window_okD(1) [OF ok] by (simp add: window_inv_def)
  qed
  also have "\<dots> \<le> rr_limit (wn_rule win)" using used window_okD(1) [OF ok] by (simp add: window_inv_def)
  finally show ?thesis .
qed

definition minute_rule :: rate_limit_rule where
  "minute_rule = \<lparr>rr_limit_type = ''REQUEST_WEIGHT'', rr_interval_seconds = 60, rr_limit = 1000\<rparr>"

text \<open>Two heavy requests within a minute: the second is made to wait and not charged.\<close>

theorem limit_never_exceeded_witness:
  "\<exists>rl hist win. foldl call_step (new_limiter [minute_rule], [])
       [(800, ''REQUEST_WEIGHT'', 100), (300, ''REQUEST_WEIGHT'', 110)] = (rl, hist) \<and>
     hist = [(800, ''REQUEST_WEIGHT'', 100)] \<and>
     weights (filter (\<lambda>e. 110 - interval win < fst e) (charged (''REQUEST_WEIGHT'', 60) hist)) \<le> 1000"
proof -
  let ?calls = "[(800, ''REQUEST_WEIGHT'', 100), (300, ''REQUEST_WEIGHT'', 110)]"
  obtain rl hist where s: "foldl call_step (new_limiter [minute_rule], []) ?calls = (rl, hist)"
    by (cases "foldl call_step (new_limiter [minute_rule], []) ?calls")
  have h: "hist = [(800, ''REQUEST_WEIGHT'', 100)] \<and>
      (case rl_windows rl of [kw] \<Rightarrow> fst kw = (''REQUEST_WEIGHT'', 60) \<and> rr_limit (wn_rule (snd kw)) = 1000 | _ \<Rightarrow> False)"
  proof -
    have "(case foldl call_step (new_limiter [minute_rule], []) ?calls of (rl, hist) \<Rightarrow>
        hist = [(800, ''REQUEST_WEIGHT'', 100)] \<and>
        (case rl_windows rl of [kw] \<Rightarrow> fst kw = (''REQUEST_WEIGHT'', 60) \<and>
           rr_limit (wn_rule (snd kw)) = 1000 | _ \<Rightarrow> False))" by code_simp
    then show ?thesis unfolding s prod.case .
  qed
  then obtain win where w: "rl_windows rl = [((''REQUEST_WEIGHT'', 60), win)]" "rr_limit (wn_rule win) = 1000"
    by (auto split: list.splits)
  have "weights (filter (\<lambda>e. 110 - interval win < fst e) (charged (''REQUEST_WEIGHT'', 60) hist))
      \<le> rr_limit (wn_rule win)"
    by (rule limit_never_exceeded [OF _ _ _ s])
      (simp_all add: minute_rule_def rule_ok_def reading_def tick_def w(1))
  with s h w(2) show ?thesis by auto
qed

lemma wait_grants:
  assumes ok: "limiter_ok rl now" "reading now" and d: "acquire_once rl w ty now = (rl', Delay d)"
    and now': "reading now'" "now + d \<le> now'" and w: "0 < w"
  shows "snd (acquire_once rl' w ty now') = Granted"
proof -
  have ws: "rl_windows rl' = swept (rl_windows rl) ty now" using acquire_once_windows [OF d] by simp
  have ok': "limiter_ok rl' now'"
    using ok(1) now' acquire_once_delay(1) [OF d] window_ok_evict
    by (fastforce simp: limiter_ok_def ws swept_def intro: window_ok_later)
  have "fits (evict win now) now' (cost_of k w)" if m: "(k, win) \<in> set (rl_windows rl)" "applies ty k" for k win
  proof -
    have cost: "0 < cost_of k w" using w by (simp add: cost_of_def)
    obtain x where x: "snd (wait_seconds win now (cost_of k w)) = Some x" "x \<le> d"
      using acquire_once_delay(2) [OF d] m by fastforce
    then show ?thesis
      using ok m now' cost by (intro wait_suffices [OF _ ok(2) now'(1) x(1)]) (auto simp: limiter_ok_def)
  qed
  then show ?thesis
    unfolding acquire_once_granted [OF ok' now'(1)] by (fastforce simp: ws swept_def split: if_splits)
qed

text \<open>
  A caller that sleeps as long as it is told settles with the second reading of the clock,
  and the books stay in order.
\<close>

lemma acquire_settles:
  assumes h: "limiter_hist hist t rl" and t: "t \<le> now" "reading now" "now \<le> now'" "reading now'" and w: "0 < w"
    and d: "\<forall>rl' d. acquire_once rl w ty now = (rl', Delay d) \<longrightarrow> now + d \<le> now'"
  shows "\<exists>rl' a hist'. acquire rl w ty (now # now' # rest) = Some (rl', a) \<and>
    (a = Granted \<or> a = Rejected) \<and> limiter_hist hist' now' rl'"
proof -
  obtain rl1 a1 where a1: "acquire_once rl w ty now = (rl1, a1)" by (cases "acquire_once rl w ty now")
  have "call_step (rl, hist) (w, ty, now) = (rl1, if a1 = Granted then hist @ [(w, ty, now)] else hist)"
    using a1 by (simp add: call_step_def)
  then obtain hist1 where h1: "limiter_hist hist1 now rl1"
    using call_step_hist [OF h t(1,2)] w by (metis less_imp_le)
  show ?thesis
  proof (cases a1)
    case (Delay x)
    obtain rl2 a2 where a2: "acquire_once rl1 w ty now' = (rl2, a2)" by (cases "acquire_once rl1 w ty now'")
    have "a2 = Granted"
      using wait_grants [OF limiter_hist_ok [OF limiter_hist_later [OF h t(1)]] t(2) a1 [unfolded Delay] t(4)] d a1 Delay w a2
      by simp
    moreover have "limiter_hist (hist1 @ [(w, ty, now')]) now' rl2"
      using call_step_hist [OF h1 t(3,4), of w ty rl2] w a2 \<open>a2 = Granted\<close> by (simp add: call_step_def)
    ultimately show ?thesis using a1 a2 Delay by auto
  qed (use a1 limiter_hist_later [OF h1 t(3)] in \<open>auto intro!: exI\<close>)
qed

text \<open>
  Waiting works and refusal is final. A request is refused exactly when it is heavier
  than an applicable limit; otherwise it is granted at once or told a positive delay, and
  retried when the delay is over with nothing in between it is granted.
\<close>

theorem one_wait_suffices:
  assumes "limiter_ok rl now" "reading now" "0 < w"
  shows "(snd (acquire_once rl w ty now) = Rejected \<longleftrightarrow>
      (\<exists>(k, win) \<in> set (rl_windows rl). applies ty k \<and> rr_limit (wn_rule win) < cost_of k w)) \<and>
    (\<forall>rl' d now'. acquire_once rl w ty now = (rl', Delay d) \<longrightarrow> reading now' \<longrightarrow> now + d \<le> now' \<longrightarrow>
      0 < d \<and> snd (acquire_once rl' w ty now') = Granted)"
proof (intro conjI allI impI)
  have inv: "window_inv win" if "(k, win) \<in> set (rl_windows rl)" for k win
    using assms(1) that by (auto simp: limiter_ok_def window_ok_def)
  have cost: "0 < cost_of k w" for k using assms(3) by (simp add: cost_of_def)
  show "snd (acquire_once rl w ty now) = Rejected \<longleftrightarrow>
      (\<exists>(k, win) \<in> set (rl_windows rl). applies ty k \<and> rr_limit (wn_rule win) < cost_of k w)"
  proof
    assume "snd (acquire_once rl w ty now) = Rejected"
    from acquire_once_rejected [OF this] inv cost
    show "\<exists>(k, win) \<in> set (rl_windows rl). applies ty k \<and> rr_limit (wn_rule win) < cost_of k w"
      by (fastforce simp: wait_infinite)
  next
    assume "\<exists>(k, win) \<in> set (rl_windows rl). applies ty k \<and> rr_limit (wn_rule win) < cost_of k w"
    then obtain k win where m: "(k, win) \<in> set (rl_windows rl)" "applies ty k" "rr_limit (wn_rule win) < cost_of k w"
      by blast
    then have n: "snd (wait_seconds win now (cost_of k w)) = None" using wait_infinite inv cost by blast
    obtain ws r where sc: "scan_windows (rl_windows rl) ty w now 0 = (ws, r)"
      by (cases "scan_windows (rl_windows rl) ty w now 0")
    have "r = None"
    proof (cases r)
      case (Some D)
      from scan_windows_Some [OF sc [unfolded Some]] m n show ?thesis by fastforce
    qed
    then show "snd (acquire_once rl w ty now) = Rejected" by (simp add: acquire_once_def sc)
  qed
  fix rl' d now'
  assume d: "acquire_once rl w ty now = (rl', Delay d)" and now': "reading now'" "now + d \<le> now'"
  show "0 < d" using acquire_once_delay(1) [OF d] .
  show "snd (acquire_once rl' w ty now') = Granted" using wait_grants [OF assms(1,2) d now' assms(3)] .
qed

definition busy_limiter :: rate_limiter where
  "busy_limiter = \<lparr>rl_windows = [((''REQUEST_WEIGHT'', 60),
     \<lparr>wn_rule = minute_rule, wn_entries = [(100, 800)], wn_used = 800\<rparr>)], rl_from_exchange = False\<rparr>"

theorem one_wait_suffices_witness:
  "\<exists>rl'. acquire_once busy_limiter 300 ''REQUEST_WEIGHT'' 110 = (rl', Delay 50) \<and>
     snd (acquire_once rl' 300 ''REQUEST_WEIGHT'' 160) = Granted \<and>
     snd (acquire_once busy_limiter 300 ''REQUEST_WEIGHT'' 110) \<noteq> Rejected"
proof -
  have f: "flt (110 - 60) = 50" "flt (100 + 60) = 160" "flt (160 - 110) = 50"
    by (simp_all add: tick_flt tick_def)
  obtain rl' where d: "acquire_once busy_limiter 300 ''REQUEST_WEIGHT'' 110 = (rl', Delay 50)"
    using f by (simp add: acquire_once_def busy_limiter_def applies_def wait_seconds_def evict_def
        cutoff_of_def minute_rule_def cost_of_def fsub_def fadd_def)
  have ok: "limiter_ok busy_limiter 110"
    by (simp add: limiter_ok_def busy_limiter_def window_ok_def window_inv_def minute_rule_def
        rule_ok_def reading_def tick_def)
  have "reading 110" "reading 160" by (simp_all add: reading_def tick_def)
  with one_wait_suffices [OF ok, of 300 "''REQUEST_WEIGHT''"] d show ?thesis by auto
qed

text \<open>
  Reloading \<open>exchangeInfo\<close> installs fresh windows and forgets what was charged: the same
  second a full window has been used, it can be used again.
\<close>

lemma reload_forgets_usage:
  assumes "map_of payload ''rateLimits'' = Some (JList raw)" "usable_rules raw \<noteq> []"
    "(k, win) \<in> set (rl_windows (update_from_exchange_info rl payload))"
  shows "wn_used win = 0 \<and> wn_entries win = []"
  using assms by (auto simp: update_from_exchange_info_def Let_def new_window_def dest: install_mem)

end
