(* ===== verification/RestClient.thy ===== *)
theory RestClient
  imports RateLimiter
begin

text \<open>
  \<open>binance/errors.py\<close>, \<open>binance/time_sync.py\<close> and \<open>binance/rest_client.py\<close>: how an exchange
  response is classified, and the request pipeline with its rate limiting, retries, clock
  re-synchronisation and failure count. What the outside does during one attempt (the clock
  readings, the response or the transport failure) is one item of an environment list; the
  pipeline consumes one item per attempt. The HMAC is the argument \<open>hmac\<close>.
\<close>

section \<open>Errors\<close>

datatype error_kind =
    TransportError
  | RateLimitError "rat option"
  | ServerError
  | RequestError
  | TimestampError
  | AuthError

record binance_error =
  er_kind :: error_kind
  er_binance_code :: "int option"
  er_http_status :: "int option"

definition CODE_INVALID_TIMESTAMP :: int where "CODE_INVALID_TIMESTAMP = - 1021"
definition CODE_TOO_MANY_REQUESTS :: int where "CODE_TOO_MANY_REQUESTS = - 1003"
definition CODE_INVALID_SIGNATURE :: int where "CODE_INVALID_SIGNATURE = - 1022"

fun retryable_kind :: "error_kind \<Rightarrow> bool" where
  "retryable_kind TransportError = True"
| "retryable_kind (RateLimitError _) = True"
| "retryable_kind ServerError = True"
| "retryable_kind RequestError = False"
| "retryable_kind TimestampError = True"
| "retryable_kind AuthError = False"

definition retryable :: "binance_error \<Rightarrow> bool" where
  "retryable e = retryable_kind (er_kind e)"

section \<open>Time synchronisation\<close>

record time_sync =
  ts_offset_ms :: int
  ts_round_trip_ms :: int
  ts_synced :: bool

definition new_time_sync :: time_sync where
  "new_time_sync = \<lparr>ts_offset_ms = 0, ts_round_trip_ms = 0, ts_synced = False\<rparr>"

definition ts_observe :: "int \<Rightarrow> int \<Rightarrow> int \<Rightarrow> time_sync" where
  "ts_observe sent server received =
     (let round_trip = max 0 (received - sent) in
      \<lparr>ts_offset_ms = server - (sent + round_trip div 2), ts_round_trip_ms = round_trip, ts_synced = True\<rparr>)"

definition timestamp_ms :: "time_sync \<Rightarrow> int \<Rightarrow> int" where
  "timestamp_ms t now_ms = now_ms + ts_offset_ms t"

definition invalidate :: "time_sync \<Rightarrow> time_sync" where
  "invalidate t = t\<lparr>ts_synced := False\<rparr>"

section \<open>Responses\<close>

record http_response =
  hr_status :: int
  hr_body :: "json option"
  hr_retry_after :: "string option"

datatype request_result = Returned json | Raised binance_error | Crashed exn

definition extract_code :: "http_response \<Rightarrow> int option" where
  "extract_code r = (case hr_body r of
     Some (JObj d) \<Rightarrow> (case map_of d ''code'' of
        Some (JInt k) \<Rightarrow> Some k | Some (JBool b) \<Rightarrow> Some (if b then 1 else 0) | _ \<Rightarrow> None)
   | _ \<Rightarrow> None)"

definition failure :: "error_kind \<Rightarrow> http_response \<Rightarrow> request_result" where
  "failure k r = Raised \<lparr>er_kind = k, er_binance_code = extract_code r, er_http_status = Some (hr_status r)\<rparr>"

text \<open>
  The classification; a 200 whose body is not JSON raises \<open>ValueError\<close>, and so does a
  \<open>Retry-After\<close> that is not a decimal number (the texts of infinities and NaN, which \<open>float\<close> reads,
  count as unreadable here).
\<close>

definition handle_response :: "http_response \<Rightarrow> request_result" where
  "handle_response r =
     (let status = hr_status r; code = extract_code r in
      if status = 200 then (case hr_body r of Some j \<Rightarrow> Returned j | None \<Rightarrow> Crashed ValueError)
      else if status = 429 \<or> status = 418 then
        (case hr_retry_after r of
           None \<Rightarrow> failure (RateLimitError None) r
         | Some h \<Rightarrow> if h = '''' then failure (RateLimitError None) r
             else case parse_decimal h of
                 None \<Rightarrow> Crashed ValueError
               | Some x \<Rightarrow> failure (RateLimitError (Some (flt x))) r)
      else if 500 \<le> status then failure ServerError r
      else if code = Some CODE_INVALID_TIMESTAMP then failure TimestampError r
      else if status = 401 \<or> status = 403 \<or> code = Some CODE_INVALID_SIGNATURE then failure AuthError r
      else failure RequestError r)"

section \<open>The client\<close>

record request =
  rq_method :: string
  rq_path :: string
  rq_params :: payload
  rq_weight :: int
  rq_signed :: bool

record rest_client =
  rc_binance :: binance_config
  rc_limiter :: rate_limiter
  rc_time_sync :: time_sync
  rc_consecutive_failures :: int

definition MAINNET_BASE_URL :: string where "MAINNET_BASE_URL = ''https://api.binance.com''"
definition TESTNET_BASE_URL :: string where "TESTNET_BASE_URL = ''https://testnet.binance.vision''"

definition base_url :: "binance_config \<Rightarrow> string" where
  "base_url b = (if bn_testnet b then TESTNET_BASE_URL else MAINNET_BASE_URL)"

definition fallback_rules :: "binance_config \<Rightarrow> rate_limit_rule list" where
  "fallback_rules b =
     [\<lparr>rr_limit_type = ''REQUEST_WEIGHT'', rr_interval_seconds = 60,
       rr_limit = bn_fallback_request_weight_per_minute b\<rparr>,
      \<lparr>rr_limit_type = ''ORDERS'', rr_interval_seconds = 1,
       rr_limit = bn_fallback_orders_per_second b\<rparr>]"

definition new_client :: "binance_config \<Rightarrow> rest_client" where
  "new_client b = \<lparr>rc_binance = b, rc_limiter = new_limiter (fallback_rules b),
     rc_time_sync = new_time_sync, rc_consecutive_failures = 0\<rparr>"

text \<open>
  One attempt's environment: the local clock when it starts, the readings the limiter sees,
  the clock when it signs, the response (\<open>None\<close> for a transport failure), the clock after.
\<close>

record env_item =
  ei_sent_ms :: int
  ei_clock :: "rat list"
  ei_now_ms :: int
  ei_response :: "http_response option"
  ei_received_ms :: int

datatype trace_event = Send request payload | Sleep rat

definition sign_params ::
  "(string \<Rightarrow> payload \<Rightarrow> string) \<Rightarrow> rest_client \<Rightarrow> int \<Rightarrow> payload \<Rightarrow> binance_error + payload" where
  "sign_params hmac c now_ms params =
     (if \<not> has_credentials (rc_binance c) then
        Inl \<lparr>er_kind = AuthError, er_binance_code = None, er_http_status = None\<rparr>
      else let p1 = AList.update ''timestamp'' (JInt (timestamp_ms (rc_time_sync c) now_ms)) params;
               p2 = AList.update ''recvWindow'' (JInt (bn_recv_window_ms (rc_binance c))) p1
        in Inr (AList.update ''signature'' (JStr (hmac (bn_api_secret (rc_binance c)) p2)) p2))"

definition backoff_seconds :: "binance_config \<Rightarrow> int \<Rightarrow> binance_error \<Rightarrow> rat" where
  "backoff_seconds b attempt err =
     (let base = fmul (bn_retry_backoff_seconds b) (2 ^ nat (attempt - 1)) in
      case er_kind err of
        RateLimitError (Some r) \<Rightarrow> if r \<noteq> 0 then max base r else base
      | _ \<Rightarrow> base)"

definition transport_failure :: request_result where
  "transport_failure = Raised \<lparr>er_kind = TransportError, er_binance_code = None, er_http_status = None\<rparr>"

definition receive :: "rest_client \<Rightarrow> http_response option \<Rightarrow> rest_client \<times> request_result" where
  "receive c response =
     (case response of
        None \<Rightarrow> (c, transport_failure)
      | Some r \<Rightarrow> (if hr_status r = 200 then c\<lparr>rc_consecutive_failures := 0\<rparr> else c, handle_response r))"

definition time_request :: request where
  "time_request = \<lparr>rq_method = ''GET'', rq_path = ''/api/v3/time'', rq_params = [], rq_weight = 1,
     rq_signed = False\<rparr>"

text \<open>The end of \<open>server_time_ms\<close>, on the payload and the items its request consumed.\<close>

definition note_server_time ::
  "rest_client \<Rightarrow> env_item list \<Rightarrow> request_result \<Rightarrow> rest_client \<times> request_result" where
  "note_server_time c consumed res =
     (case res of
        Returned (JObj d) \<Rightarrow>
          (case map_of d ''serverTime'' of
             None \<Rightarrow> (c, Crashed KeyError)
           | Some v \<Rightarrow> (case py_int v of
                 None \<Rightarrow> (c, Crashed ValueError)
               | Some server \<Rightarrow>
                   (c\<lparr>rc_time_sync := ts_observe (ei_sent_ms (hd consumed)) server
                       (ei_received_ms (last consumed))\<rparr>, Returned (JInt server))))
      | Returned _ \<Rightarrow> (c, Crashed ValueError)
      | _ \<Rightarrow> (c, res))"

definition count_failure :: "rest_client \<Rightarrow> rest_client" where
  "count_failure c = c\<lparr>rc_consecutive_failures := rc_consecutive_failures c + 1\<rparr>"

text \<open>
  The retry loop from its \<open>attempt\<close>-th turn on. The first argument bounds the number of
  nested calls and turns; every turn consumes an item, so more than the length of the
  environment is never needed, and \<open>None\<close> means the environment ran out first.
\<close>

type_synonym outcome = "rest_client \<times> env_item list \<times> trace_event list \<times> request_result"

fun request_loop ::
  "(string \<Rightarrow> payload \<Rightarrow> string) \<Rightarrow> nat \<Rightarrow> rest_client \<Rightarrow> request \<Rightarrow> int \<Rightarrow> env_item list \<Rightarrow> outcome option" where
  "request_loop hmac 0 c rq attempt0 env = None"
| "request_loop hmac (Suc n) c rq attempt0 [] = None"
| "request_loop hmac (Suc n) c rq attempt0 (i # env) =
     (case acquire (rc_limiter c) (rq_weight rq) ''REQUEST_WEIGHT'' (ei_clock i) of
        None \<Rightarrow> None
      | Some (rl, a) \<Rightarrow>
          (let c1 = c\<lparr>rc_limiter := rl\<rparr>; attempt = attempt0 + 1 in
           if a = Rejected then Some (c1, env, [], Crashed ValueError)
           else case (if rq_signed rq then sign_params hmac c1 (ei_now_ms i) (rq_params rq)
                      else Inr (rq_params rq)) of
               Inl err \<Rightarrow> Some (c1, env, [], Raised err)
             | Inr params \<Rightarrow>
                 (case receive c1 (ei_response i) of
                    (c2, Raised err) \<Rightarrow>
                      (case (if er_kind err = TimestampError \<and> ei_response i \<noteq> None
                             then (case request_loop hmac n
                                     (c2\<lparr>rc_time_sync := invalidate (rc_time_sync c2)\<rparr>) time_request 0 env of
                                  None \<Rightarrow> None
                                | Some (c3, env3, tr3, res3) \<Rightarrow>
                                    (case note_server_time c3 (take (length env - length env3) env) res3 of
                                       (c4, res4) \<Rightarrow> Some (c4, env3, tr3, res4)))
                             else Some (c2, env, [], Raised err)) of
                         None \<Rightarrow> None
                       | Some (c3, env3, tr3, res3) \<Rightarrow>
                           (case res3 of
                              Crashed e \<Rightarrow> Some (c3, env3, Send rq params # tr3, Crashed e)
                            | _ \<Rightarrow>
                                if \<not> retryable err \<or> bn_max_retries (rc_binance c) < attempt then
                                  Some (count_failure c3, env3, Send rq params # tr3, Raised err)
                                else
                                  (case request_loop hmac n c3 rq attempt env3 of
                                     None \<Rightarrow> None
                                   | Some (c5, env5, tr5, res5) \<Rightarrow>
                                       Some (c5, env5, Send rq params # tr3 @
                                         Sleep (backoff_seconds (rc_binance c) attempt err) # tr5, res5))))
                  | (c2, res) \<Rightarrow> Some (c2, env, [Send rq params], res))))"

definition do_request ::
  "(string \<Rightarrow> payload \<Rightarrow> string) \<Rightarrow> rest_client \<Rightarrow> request \<Rightarrow> env_item list \<Rightarrow> outcome option" where
  "do_request hmac c rq env =
     (if bn_max_retries (rc_binance c) < 0 then Some (count_failure c, env, [], Crashed AssertionError)
      else request_loop hmac (Suc (length env)) c rq 0 env)"

definition server_time :: "(string \<Rightarrow> payload \<Rightarrow> string) \<Rightarrow> rest_client \<Rightarrow> env_item list \<Rightarrow> outcome option" where
  "server_time hmac c env =
     (case do_request hmac c time_request env of
        None \<Rightarrow> None
      | Some (c', env', tr, res) \<Rightarrow>
          (case note_server_time c' (take (length env - length env') env) res of
             (c'', res') \<Rightarrow> Some (c'', env', tr, res')))"


section \<open>What a response means\<close>

lemma handle_response_raised:
  assumes "handle_response r = Raised e"
  shows "er_http_status e = Some (hr_status r) \<and> er_binance_code e = extract_code r \<and> hr_status r \<noteq> 200 \<and>
    (er_kind e = TimestampError \<longleftrightarrow> \<not> hr_status r \<in> {418, 429} \<and> hr_status r < 500 \<and>
       extract_code r = Some CODE_INVALID_TIMESTAMP) \<and>
    (retryable e \<longleftrightarrow> hr_status r \<in> {418, 429} \<or> 500 \<le> hr_status r \<or>
       extract_code r = Some CODE_INVALID_TIMESTAMP)"
  using assms
  by (auto simp: handle_response_def failure_def retryable_def Let_def CODE_INVALID_TIMESTAMP_def
      CODE_INVALID_SIGNATURE_def split: if_splits option.splits)


section \<open>One turn of the loop without a clock rejection\<close>

definition resync_free :: "env_item list \<Rightarrow> bool" where
  "resync_free env \<longleftrightarrow> (\<forall>i \<in> set env. case ei_response i of None \<Rightarrow> True
     | Some r \<Rightarrow> extract_code r \<noteq> Some CODE_INVALID_TIMESTAMP)"

definition signing ::
  "(string \<Rightarrow> payload \<Rightarrow> string) \<Rightarrow> rest_client \<Rightarrow> request \<Rightarrow> int \<Rightarrow> binance_error + payload" where
  "signing hmac c rq now_ms = (if rq_signed rq then sign_params hmac c now_ms (rq_params rq) else Inr (rq_params rq))"

lemma receive_kind:
  assumes "receive c x = (c', Raised e)" "\<forall>r. x = Some r \<longrightarrow> extract_code r \<noteq> Some CODE_INVALID_TIMESTAMP"
  shows "er_kind e \<noteq> TimestampError \<and> c' = c"
  using assms handle_response_raised by (fastforce simp: receive_def transport_failure_def split: option.splits)

lemma request_turn:
  assumes acq: "acquire (rc_limiter c) (rq_weight rq) ''REQUEST_WEIGHT'' (ei_clock i) = Some (rl, a)"
    and free: "\<forall>r. ei_response i = Some r \<longrightarrow> extract_code r \<noteq> Some CODE_INVALID_TIMESTAMP"
  shows "request_loop hmac (Suc n) c rq k (i # env) =
    (let c1 = c\<lparr>rc_limiter := rl\<rparr> in
     if a = Rejected then Some (c1, env, [], Crashed ValueError)
     else case signing hmac c1 rq (ei_now_ms i) of
         Inl err \<Rightarrow> Some (c1, env, [], Raised err)
       | Inr p \<Rightarrow> (case receive c1 (ei_response i) of
           (c2, Raised err) \<Rightarrow>
             if \<not> retryable err \<or> bn_max_retries (rc_binance c) < k + 1
             then Some (count_failure c2, env, [Send rq p], Raised err)
             else map_option (\<lambda>(c5, env5, tr5, res5).
               (c5, env5, Send rq p # Sleep (backoff_seconds (rc_binance c) (k + 1) err) # tr5, res5))
               (request_loop hmac n c2 rq (k + 1) env)
         | (c2, res) \<Rightarrow> Some (c2, env, [Send rq p], res)))"
proof -
  obtain c2 res where rec: "receive (c\<lparr>rc_limiter := rl\<rparr>) (ei_response i) = (c2, res)"
    by (cases "receive (c\<lparr>rc_limiter := rl\<rparr>) (ei_response i)")
  have "er_kind e \<noteq> TimestampError" if "res = Raised e" for e
    using receive_kind [OF rec [unfolded that] free] by simp
  then show ?thesis
    by (simp add: acq rec signing_def [symmetric] Let_def split: sum.split request_result.split option.split)
qed

declare request_loop.simps(3) [simp del]

section \<open>Settling\<close>

text \<open>
  The clock of an environment: readings that follow each other and, when the limiter asks for
  a delay, a second reading at least that much later (\<open>asyncio.sleep\<close> sleeps no less).
\<close>

fun paced :: "rate_limiter \<Rightarrow> int \<Rightarrow> rat \<Rightarrow> env_item list \<Rightarrow> bool" where
  "paced rl w t [] \<longleftrightarrow> True"
| "paced rl w t (i # env) \<longleftrightarrow>
     (case ei_clock i of
        now # now' # _ \<Rightarrow> t \<le> now \<and> reading now \<and> now \<le> now' \<and> reading now' \<and>
          (case acquire_once rl w ''REQUEST_WEIGHT'' now of (_, Delay d) \<Rightarrow> now + d \<le> now' | _ \<Rightarrow> True) \<and>
          (case acquire rl w ''REQUEST_WEIGHT'' (ei_clock i) of Some (rl', _) \<Rightarrow> paced rl' w now' env | None \<Rightarrow> True)
      | _ \<Rightarrow> False)"

definition sends :: "trace_event list \<Rightarrow> nat" where
  "sends tr = length (filter (\<lambda>ev. case ev of Send _ _ \<Rightarrow> True | _ \<Rightarrow> False) tr)"

lemma sends_simps [simp]:
  "sends [] = 0" "sends (Send rq p # tr) = Suc (sends tr)" "sends (Sleep d # tr) = sends tr"
  by (simp_all add: sends_def)

lemma paced_step:
  assumes "paced rl w t (i # env)" "limiter_hist hist t rl" "0 < w"
  obtains rl' a hist' t' where "acquire rl w ''REQUEST_WEIGHT'' (ei_clock i) = Some (rl', a)"
    "limiter_hist hist' t' rl'" "paced rl' w t' env"
proof -
  obtain now now' rest where cl: "ei_clock i = now # now' # rest"
    using assms(1) by (auto split: list.splits)
  with assms(1) have t: "t \<le> now" "reading now" "now \<le> now'" "reading now'"
    and d: "\<forall>rl' d. acquire_once rl w ''REQUEST_WEIGHT'' now = (rl', Delay d) \<longrightarrow> now + d \<le> now'"
    and p: "\<forall>rl' a. acquire rl w ''REQUEST_WEIGHT'' (ei_clock i) = Some (rl', a) \<longrightarrow> paced rl' w now' env"
    by auto
  from acquire_settles [OF assms(2) t assms(3) d, of rest] p that cl show thesis by force
qed

definition turns_left :: "rest_client \<Rightarrow> int \<Rightarrow> nat" where
  "turns_left c k = nat (bn_max_retries (rc_binance c) + 1 - k)"

definition settled :: "rest_client \<Rightarrow> bool \<Rightarrow> rest_client \<Rightarrow> request_result \<Rightarrow> bool" where
  "settled c signs c' res \<longleftrightarrow>
     (case res of
        Returned _ \<Rightarrow> rc_consecutive_failures c' = 0
      | Raised _ \<Rightarrow> signs \<longrightarrow> rc_consecutive_failures c' = rc_consecutive_failures c + 1
      | Crashed _ \<Rightarrow> True)"

lemma receive_binance: "receive c x = (c', res) \<Longrightarrow> rc_binance c' = rc_binance c \<and> rc_limiter c' = rc_limiter c"
  by (auto simp: receive_def split: option.splits if_splits)

lemma receive_returned: "receive c x = (c', Returned j) \<Longrightarrow> rc_consecutive_failures c' = 0"
  by (auto simp: receive_def transport_failure_def handle_response_def failure_def Let_def
      split: option.splits if_splits)

lemma signing_raises:
  assumes "signing hmac c rq now_ms = Inl err"
  shows "rq_signed rq \<and> \<not> has_credentials (rc_binance c)"
  using assms by (auto simp: signing_def sign_params_def Let_def split: if_splits)

lemma request_settles:
  assumes "limiter_hist hist t (rc_limiter c)" "paced (rc_limiter c) (rq_weight rq) t env" "0 < rq_weight rq"
    "resync_free env" "length env < n" "0 < turns_left c k" "turns_left c k \<le> length env"
  shows "\<exists>c' m tr res. request_loop hmac n c rq k env = Some (c', drop m env, tr, res) \<and>
    m \<le> turns_left c k \<and> sends tr \<le> m \<and>
    settled c (\<not> rq_signed rq \<or> has_credentials (rc_binance c)) c' res"
  using assms
proof (induction env arbitrary: hist t c n k)
  case Nil
  then show ?case by simp
next
  case (Cons i env)
  let ?signs = "\<not> rq_signed rq \<or> has_credentials (rc_binance c)"
  obtain n' where n: "n = Suc n'" using Cons.prems(5) by (cases n) auto
  obtain rl a hist' t' where acq: "acquire (rc_limiter c) (rq_weight rq) ''REQUEST_WEIGHT'' (ei_clock i) = Some (rl, a)"
    and h': "limiter_hist hist' t' rl" and p': "paced rl (rq_weight rq) t' env"
    using paced_step [OF Cons.prems(2,1,3)] .
  have free: "\<forall>r. ei_response i = Some r \<longrightarrow> extract_code r \<noteq> Some CODE_INVALID_TIMESTAMP"
    using Cons.prems(4) by (auto simp: resync_free_def)
  let ?c1 = "c\<lparr>rc_limiter := rl\<rparr>"
  obtain c2 res where rec: "receive ?c1 (ei_response i) = (c2, res)" by (cases "receive ?c1 (ei_response i)")
  note turn = request_turn [where hmac = hmac and n = n' and k = k and env = env, OF acq free]
  let ?goal = "\<lambda>x. \<exists>c' m tr res. x = Some (c', drop m (i # env), tr, res) \<and> m \<le> turns_left c k \<and>
    sends tr \<le> m \<and> settled c ?signs c' res"
  have one: "?goal (Some (c', env, tr, res'))" if "sends tr \<le> 1" "settled c ?signs c' res'" for c' tr res'
    using that Cons.prems(6) by (intro exI [of _ c'] exI [of _ 1]) auto
  consider (rejected) "a = Rejected" | (unsigned) err where "a \<noteq> Rejected" "signing hmac ?c1 rq (ei_now_ms i) = Inl err"
    | (sent) p where "a \<noteq> Rejected" "signing hmac ?c1 rq (ei_now_ms i) = Inr p"
    by (cases "signing hmac ?c1 rq (ei_now_ms i)") auto
  then show ?case
  proof cases
    case rejected
    then have e: "request_loop hmac n c rq k (i # env) = Some (?c1, env, [], Crashed ValueError)"
      by (simp add: n turn)
    show ?thesis unfolding e by (rule one) (simp_all add: settled_def)
  next
    case unsigned
    then have e: "request_loop hmac n c rq k (i # env) = Some (?c1, env, [], Raised err)"
      by (simp add: n turn)
    show ?thesis unfolding e by (rule one) (use signing_raises [OF unsigned(2)] in \<open>simp_all add: settled_def\<close>)
  next
    case sent
    show ?thesis
    proof (cases "\<exists>err. res = Raised err \<and> retryable err \<and> k + 1 \<le> bn_max_retries (rc_binance c)")
      case False
      then have e: "request_loop hmac n c rq k (i # env) =
          Some (case res of Raised _ \<Rightarrow> count_failure c2 | _ \<Rightarrow> c2, env, [Send rq p], res)"
        using sent rec by (auto simp: n turn split: request_result.split)
      show ?thesis
        unfolding e
        by (rule one) (use rec receive_returned receive_kind [OF _ free] in
          \<open>fastforce simp: settled_def count_failure_def split: request_result.split\<close>)+
    next
      case True
      then obtain err where err: "res = Raised err" "retryable err" "k + 1 \<le> bn_max_retries (rc_binance c)" by blast
      have c2: "c2 = ?c1" using receive_kind [OF _ free] rec err(1) by blast
      have tl: "turns_left c2 (k + 1) = turns_left c k - 1" "0 < turns_left c2 (k + 1)"
        using err(3) by (simp_all add: turns_left_def c2)
      obtain c' m tr res' where ih: "request_loop hmac n' c2 rq (k + 1) env = Some (c', drop m env, tr, res')"
        "m \<le> turns_left c2 (k + 1)" "sends tr \<le> m"
        "settled c2 (\<not> rq_signed rq \<or> has_credentials (rc_binance c2)) c' res'"
      proof -
        have "turns_left c2 (k + 1) \<le> length env" using tl(1) Cons.prems(7) by simp
        moreover have "resync_free env" using Cons.prems(4) by (simp add: resync_free_def)
        ultimately show thesis
          using Cons.IH [of hist' t' c2 n' "k + 1"] h' p' Cons.prems(3,5) tl(2) n that by (auto simp: c2)
      qed
      show ?thesis
        unfolding n turn
        using sent rec err ih tl
        by (intro exI [of _ c'] exI [of _ "Suc m"])
          (auto simp: c2 settled_def split: request_result.splits)
    qed
  qed
qed

section \<open>Properties\<close>


definition clock_rejection :: http_response where
  "clock_rejection = \<lparr>hr_status = 400, hr_body = Some (JObj [(''code'', JInt (- 1021))]), hr_retry_after = None\<rparr>"


text \<open>
  The class of rate limits is documented for the code -1003 too; the classification does not look
  at it, so under a status such as 400 it is a rejected request, which is not retried.
\<close>

lemma too_many_requests_code_rejected:
  assumes "hr_status r = 400" "extract_code r = Some CODE_TOO_MANY_REQUESTS"
  shows "\<exists>e. handle_response r = Raised e \<and> er_kind e = RequestError \<and> \<not> retryable e"
  using assms by (auto simp: handle_response_def failure_def Let_def retryable_def CODE_TOO_MANY_REQUESTS_def
      CODE_INVALID_TIMESTAMP_def CODE_INVALID_SIGNATURE_def)

text \<open>
  C13: when no response rejects the clock, a request settles: it takes at most one attempt more
  than \<open>max_retries\<close>, whatever the exchange answers, and ends with a value, an error or a
  crash. A value resets the failure count; an error that a sent request ends in is counted once.
\<close>

theorem request_within_budget:
  assumes "limiter_hist hist t (rc_limiter c)" "paced (rc_limiter c) (rq_weight rq) t env" "0 < rq_weight rq"
    "resync_free env" "0 \<le> bn_max_retries (rc_binance c)" "bn_max_retries (rc_binance c) < int (length env)"
  shows "\<exists>c' m tr res. do_request hmac c rq env = Some (c', drop m env, tr, res) \<and>
    int m \<le> bn_max_retries (rc_binance c) + 1 \<and> sends tr \<le> m \<and>
    settled c (\<not> rq_signed rq \<or> has_credentials (rc_binance c)) c' res"
proof -
  have t: "0 < turns_left c 0" "turns_left c 0 \<le> length env" "int (turns_left c 0) = bn_max_retries (rc_binance c) + 1"
    using assms(5,6) by (auto simp: turns_left_def)
  from request_settles [OF assms(1-4) lessI t(1,2)] show ?thesis
    using assms(5) t(3) unfolding do_request_def by (metis not_less of_nat_le_iff)
qed

definition slow_client :: rest_client where
  "slow_client = (new_client default_binance_config)
     \<lparr>rc_binance := default_binance_config\<lparr>bn_max_retries := 1\<rparr>, rc_limiter := new_limiter []\<rparr>"

definition failing_item :: env_item where
  "failing_item = \<lparr>ei_sent_ms = 0, ei_clock = [1, 1], ei_now_ms = 0, ei_response = None, ei_received_ms = 0\<rparr>"

text \<open>Two transport failures in a row exhaust a budget of one retry and are counted once.\<close>

theorem request_within_budget_witness:
  "\<exists>c' m tr res. do_request (\<lambda>_ _. '''') slow_client time_request [failing_item, failing_item] =
      Some (c', drop m [failing_item, failing_item], tr, res) \<and> m \<le> 2 \<and> sends tr \<le> m \<and>
    settled slow_client True c' res"
proof -
  have "limiter_hist [] 0 (rc_limiter slow_client)"
    by (simp add: slow_client_def limiter_hist_def new_limiter_def install_def)
  moreover have "paced (rc_limiter slow_client) (rq_weight time_request) 0 [failing_item, failing_item]"
    by (simp add: slow_client_def failing_item_def time_request_def new_limiter_def install_def
        acquire_once_def record_all_def reading_def tick_def)
  moreover have "resync_free [failing_item, failing_item]" by (simp add: resync_free_def failing_item_def)
  ultimately show ?thesis
    using request_within_budget [of "[]" 0 slow_client time_request "[failing_item, failing_item]" "\<lambda>_ _. ''''"]
    by (simp add: slow_client_def time_request_def)
qed

text \<open>
  The wait before a retry is never shorter than the configured backoff nor than a served
  \<open>Retry-After\<close>, and never shrinks from one attempt to the next.
\<close>

theorem backoff_bounds:
  assumes "1 \<le> attempt" "0 \<le> bn_retry_backoff_seconds b" "flt (bn_retry_backoff_seconds b) = bn_retry_backoff_seconds b"
  shows "bn_retry_backoff_seconds b \<le> backoff_seconds b attempt e \<and>
    (\<forall>r. er_kind e = RateLimitError (Some r) \<longrightarrow> r \<le> backoff_seconds b attempt e) \<and>
    backoff_seconds b attempt e \<le> backoff_seconds b (attempt + 1) e"
proof -
  let ?s = "bn_retry_backoff_seconds b"
  let ?base = "\<lambda>k. fmul ?s (2 ^ nat (k - 1))"
  have "?s \<le> ?s * 2 ^ nat (attempt - 1)" using assms(2) by (simp add: mult_le_cancel_left1)
  then have base: "?s \<le> ?base attempt" unfolding fmul_def by (intro flt.rd_ge assms(3))
  have "(2::rat) ^ nat (attempt - 1) \<le> 2 ^ nat (attempt + 1 - 1)"
    using assms(1) by (intro power_increasing) auto
  then have mono: "?base attempt \<le> ?base (attempt + 1)"
    unfolding fmul_def using assms(2) by (intro flt.rd_mono mult_left_mono)
  have "0 \<le> ?base attempt" using base assms(2) by linarith
  with base mono show ?thesis
    by (auto simp: backoff_seconds_def Let_def split: error_kind.splits option.splits)
qed

theorem backoff_bounds_witness:
  "60 \<le> backoff_seconds default_binance_config 3
     \<lparr>er_kind = RateLimitError (Some 60), er_binance_code = None, er_http_status = Some 429\<rparr>"
proof -
  have "flt 2 = 2" using flt_int [of 2] by simp
  then show ?thesis
    using backoff_bounds [of 3 default_binance_config
        "\<lparr>er_kind = RateLimitError (Some 60), er_binance_code = None, er_http_status = Some 429\<rparr>"]
    by (simp add: default_binance_config_def)
qed

text \<open>
  If the server stamped its answer at any instant between sending and receiving, with its
  clock \<open>theta\<close> milliseconds ahead, a timestamp made from the estimate is off by at most half
  the round trip, rounded up.
\<close>

theorem clock_error_bounded:
  assumes "sent \<le> at_ms" "at_ms \<le> received" "server = at_ms + theta"
  shows "\<bar>timestamp_ms (ts_observe sent server received) now - (now + theta)\<bar> \<le> (received - sent + 1) div 2"
  using assms by (simp add: timestamp_ms_def ts_observe_def Let_def)

theorem clock_error_bounded_witness:
  "\<bar>timestamp_ms (ts_observe 1000 1540 1081) 2000 - (2000 + 500)\<bar> \<le> 41"
  using clock_error_bounded [of 1000 1040 1081 1540 500 2000] by simp

section \<open>Nested re-synchronisation\<close>

text \<open>
  A clock rejection fetches the server time with a request of its own, whose clock rejection
  does the same: while the exchange answers -1021 the request neither returns nor raises,
  however long that goes on and whatever \<open>max_retries\<close> says.
\<close>

lemma resync_never_ends:
  assumes "rl_windows (rc_limiter c) = []" "\<forall>i \<in> set env. ei_response i = Some clock_rejection"
    "\<not> rq_signed rq \<or> has_credentials (rc_binance c)"
  shows "request_loop hmac n c rq k env = None"
  using assms
proof (induction n arbitrary: c rq k env)
  case (Suc n)
  show ?case
  proof (cases env)
    case Nil
    then show ?thesis by simp
  next
    case (Cons i env')
    have *: "acquire_once (rc_limiter c) w ty now = (rc_limiter c, Granted)" for w ty now
      using Suc.prems(1) by (simp add: acquire_once_def record_all_def)
    have acq: "acquire (rc_limiter c) w ty xs = (if xs = [] then None else Some (rc_limiter c, Granted))" for w ty xs
      by (cases xs) (simp_all add: *)
    have resp: "handle_response clock_rejection =
        Raised \<lparr>er_kind = TimestampError, er_binance_code = Some (- 1021), er_http_status = Some 400\<rparr>"
      by (simp add: handle_response_def failure_def clock_rejection_def extract_code_def
          CODE_INVALID_TIMESTAMP_def Let_def)
    have rec: "receive c (ei_response i) = (c, Raised
        \<lparr>er_kind = TimestampError, er_binance_code = Some (- 1021), er_http_status = Some 400\<rparr>)"
      using Suc.prems(2) Cons resp by (simp add: receive_def) (simp add: clock_rejection_def)
    have sync: "request_loop hmac n (c\<lparr>rc_time_sync := s\<rparr>) time_request 0 env' = None" for s
      using Suc.prems Cons by (intro Suc.IH) (auto simp: time_request_def)
    have "\<exists>p. signing hmac c rq (ei_now_ms i) = Inr p"
      using Suc.prems(3) by (auto simp: signing_def sign_params_def Let_def)
    then show ?thesis
      using Suc.prems(2) Cons rec sync
      by (auto simp: acq request_loop.simps(3) signing_def [symmetric])
  qed
qed simp

end
