(* ===== verification/StreamClient.thy ===== *)
theory StreamClient
  imports Klines
begin

text \<open>
  \<open>binance/ws_client.py\<close>: the market-data socket that reconnects. The environment is the list of
  connection attempts: whether one succeeds, the frames its session delivers and how it ends, the
  jitter drawn before the next one, and when the stop event is set. What the callback
  does with a frame is the argument \<open>on_message\<close>, over a state of its own. \<open>parse_kline_event\<close> is in \<open>Klines\<close>.
\<close>

definition INITIAL_BACKOFF_SECONDS :: rat where
  "INITIAL_BACKOFF_SECONDS = 1"

definition MAX_BACKOFF_SECONDS :: rat where
  "MAX_BACKOFF_SECONDS = 60"

record stream_state =
  sm_connected :: bool
  sm_last_message_at :: "int option"
  sm_reconnects :: nat
  sm_last_error :: "string option"
  sm_subscribed :: "string list"

definition new_stream_state :: stream_state where
  "new_stream_state = \<lparr>sm_connected = False, sm_last_message_at = None, sm_reconnects = 0,
     sm_last_error = None, sm_subscribed = []\<rparr>"

section \<open>Stream names\<close>

definition kline_stream :: "string \<Rightarrow> string \<Rightarrow> string" where
  "kline_stream s tf = lower s @ ''@kline_'' @ tf"

definition ticker_stream :: "string \<Rightarrow> string" where
  "ticker_stream s = lower s @ ''@bookTicker''"

section \<open>A session\<close>

text \<open>
  One frame: its arrival and the decoded text, \<open>None\<close> when it is no JSON. The envelope is asked for
  its fields with \<open>get\<close>, which only an object has.
\<close>

type_synonym frame = "int \<times> json option"

definition stream_and_data :: "payload \<Rightarrow> (string \<times> payload) option" where
  "stream_and_data d = (case (map_of d ''stream'', map_of d ''data'') of
     (Some (JStr stream), Some (JObj data)) \<Rightarrow> Some (stream, data) | _ \<Rightarrow> None)"

fun consume ::
  "(string \<Rightarrow> payload \<Rightarrow> 'b \<Rightarrow> 'b) \<Rightarrow> frame list \<Rightarrow> stream_state \<Rightarrow> 'b \<Rightarrow> stream_state \<times> 'b \<times> exn option" where
  "consume on_message [] st b = (st, b, None)"
| "consume on_message ((now, raw) # frames) st b =
     (case raw of
        None \<Rightarrow> consume on_message frames st b
      | Some envelope \<Rightarrow>
          (let st1 = st\<lparr>sm_last_message_at := Some now\<rparr> in
           case envelope of
             JObj d \<Rightarrow>
               consume on_message frames st1
                 (case stream_and_data d of None \<Rightarrow> b | Some (stream, data) \<Rightarrow> on_message stream data b)
           | _ \<Rightarrow> (st1, b, Some AttributeError)))"

section \<open>The loop\<close>

datatype stop_point = StopNever | StopInSession | StopInDelay

datatype connection_outcome = NoConnection string | Session "frame list" "string option"

record connection_attempt =
  at_outcome :: connection_outcome
  at_jitter :: rat
  at_stop :: stop_point

text \<open>
  One attempt: the state after it, and whether it connected, which resets the backoff. The text of an
  unexpected error is left out.
\<close>

definition run_attempt ::
  "(string \<Rightarrow> payload \<Rightarrow> 'b \<Rightarrow> 'b) \<Rightarrow> connection_attempt \<Rightarrow> stream_state \<Rightarrow> 'b \<Rightarrow> stream_state \<times> 'b \<times> bool" where
  "run_attempt on_message a st b =
     (case at_outcome a of
        NoConnection err \<Rightarrow> (st\<lparr>sm_last_error := Some err, sm_connected := False\<rparr>, b, False)
      | Session frames ending \<Rightarrow>
          (let (st1, b1, failure) = consume on_message frames (st\<lparr>sm_connected := True, sm_last_error := None\<rparr>) b;
               err = (case failure of Some _ \<Rightarrow> Some ''unexpected error'' | None \<Rightarrow> ending)
           in (st1\<lparr>sm_last_error := (case err of None \<Rightarrow> sm_last_error st1 | Some e \<Rightarrow> Some e), sm_connected := False\<rparr>,
               b1, True)))"

text \<open>
  The loop over the attempts, with the delays it waited before each next one; \<open>uniform(0, b)\<close> is
  \<open>b\<close> times a random number. When the attempts are used up the loop is about to try the next one.
\<close>

fun run_stream ::
  "(string \<Rightarrow> payload \<Rightarrow> 'b \<Rightarrow> 'b) \<Rightarrow> connection_attempt list \<Rightarrow> rat \<Rightarrow> stream_state \<Rightarrow> 'b \<Rightarrow> stream_state \<times> 'b \<times> rat list" where
  "run_stream on_message [] backoff st b = (st, b, [])"
| "run_stream on_message (a # as) backoff st b =
     (let (st1, b1, connected) = run_attempt on_message a st b;
          backoff1 = (if connected then INITIAL_BACKOFF_SECONDS else backoff)
      in if at_stop a = StopInSession then (st1, b1, [])
         else let st2 = st1\<lparr>sm_reconnects := sm_reconnects st1 + 1\<rparr>; delay = fmul backoff1 (at_jitter a)
           in if at_stop a = StopInDelay then (st2, b1, [delay])
              else let (st3, b3, delays) = run_stream on_message as (min (fmul backoff1 2) MAX_BACKOFF_SECONDS) st2 b1
                in (st3, b3, delay # delays))"

text \<open>\<open>start\<close> while a task runs is refused; \<open>stop\<close> cancels the task.\<close>

definition start_stream :: "bool \<Rightarrow> string list \<Rightarrow> stream_state \<Rightarrow> exn + stream_state" where
  "start_stream running streams st = (if running then Inl RuntimeError else Inr (st\<lparr>sm_subscribed := streams\<rparr>))"

definition stop_stream :: "stream_state \<Rightarrow> stream_state" where
  "stop_stream st = st\<lparr>sm_connected := False\<rparr>"

section \<open>Lemmas\<close>

lemma consume_keeps:
  "consume on_message frames st b = (st', b', err) \<Longrightarrow>
   sm_connected st' = sm_connected st \<and> sm_reconnects st' = sm_reconnects st \<and> sm_subscribed st' = sm_subscribed st \<and>
   sm_last_error st' = sm_last_error st"
proof (induction frames arbitrary: st b)
  case (Cons f frames)
  obtain now raw where f: "f = (now, raw)" by (cases f)
  show ?case
  proof (cases raw)
    case (Some envelope)
    with Cons f show ?thesis by (cases envelope) (auto simp: Let_def dest: Cons.IH)
  qed (use Cons f in simp)
qed simp

lemma run_attempt_state:
  assumes "run_attempt on_message a st b = (st', b', c)"
  shows "\<not> sm_connected st' \<and> sm_reconnects st' = sm_reconnects st \<and> sm_subscribed st' = sm_subscribed st \<and>
    (c \<longleftrightarrow> (\<exists>frames e. at_outcome a = Session frames e))"
  using assms by (auto simp: run_attempt_def Let_def split: connection_outcome.splits prod.splits dest!: consume_keeps)

text \<open>After each attempt, the number of failed ones since a connection last succeeded.\<close>

fun streaks :: "nat \<Rightarrow> connection_attempt list \<Rightarrow> nat list" where
  "streaks f [] = []"
| "streaks f (a # as) =
     (case at_outcome a of
        NoConnection _ \<Rightarrow> (f + 1) # streaks (f + 1) as
      | Session _ _ \<Rightarrow> 0 # streaks 0 as)"

definition backoff_bound :: "nat \<Rightarrow> rat" where
  "backoff_bound f = min (2 ^ f) MAX_BACKOFF_SECONDS"

lemma backoff_bound_int: "\<exists>k. 0 \<le> k \<and> k \<le> 60 \<and> backoff_bound f = of_int k"
proof (cases "(2::rat) ^ f \<le> 60")
  case True
  then have "(2::int) ^ f \<le> 60" by (metis of_int_le_numeral_iff of_int_numeral of_int_power)
  with True show ?thesis
    by (intro exI [of _ "2 ^ f"]) (simp add: backoff_bound_def MAX_BACKOFF_SECONDS_def)
next
  case False
  then show ?thesis by (intro exI [of _ 60]) (simp add: backoff_bound_def MAX_BACKOFF_SECONDS_def)
qed

lemma flt_backoff [simp]: "flt (backoff_bound f) = backoff_bound f"
proof -
  obtain k where "0 \<le> k" "k \<le> 60" "backoff_bound f = of_int k" using backoff_bound_int by blast
  then show ?thesis using flt_int [of k] by simp
qed

lemma next_backoff:
  assumes "0 \<le> x" "x \<le> backoff_bound f"
  shows "0 \<le> min (fmul x 2) MAX_BACKOFF_SECONDS \<and> min (fmul x 2) MAX_BACKOFF_SECONDS \<le> backoff_bound (Suc f)"
proof -
  have sixty: "0 \<le> MAX_BACKOFF_SECONDS" by (simp add: MAX_BACKOFF_SECONDS_def)
  have "min (fmul x 2) MAX_BACKOFF_SECONDS \<le> backoff_bound (Suc f)"
  proof (cases "(2::rat) ^ Suc f \<le> 60")
    case True
    then have b: "backoff_bound (Suc f) = 2 ^ Suc f" by (simp add: backoff_bound_def MAX_BACKOFF_SECONDS_def)
    have "x * 2 \<le> backoff_bound (Suc f)" using assms(2) unfolding b by (simp add: backoff_bound_def)
    then have "fmul x 2 \<le> backoff_bound (Suc f)" unfolding fmul_def by (rule flt.rd_le) simp
    then show ?thesis by simp
  next
    case False
    then show ?thesis by (simp add: backoff_bound_def MAX_BACKOFF_SECONDS_def)
  qed
  with assms(1) sixty show ?thesis by (simp add: fmul_def flt.rd_nonneg_iff)
qed

lemma delay_bound:
  assumes "0 \<le> x" "x \<le> backoff_bound f" "0 \<le> j" "j \<le> 1"
  shows "0 \<le> fmul x j \<and> fmul x j \<le> backoff_bound f"
proof
  show "0 \<le> fmul x j" using assms by (simp add: fmul_def flt.rd_nonneg_iff)
  have "x * j \<le> x" using assms mult_left_le [of j x] by simp
  then have "x * j \<le> backoff_bound f" using assms(2) by linarith
  then show "fmul x j \<le> backoff_bound f" unfolding fmul_def by (rule flt.rd_le) simp
qed

lemma run_stream_delays:
  assumes "run_stream on_message as backoff st b = (st', b', delays)" "0 \<le> backoff" "backoff \<le> backoff_bound (Suc f)"
    "\<forall>a \<in> set as. 0 \<le> at_jitter a \<and> at_jitter a \<le> 1"
  shows "sm_reconnects st' = sm_reconnects st + length delays \<and> sm_subscribed st' = sm_subscribed st \<and>
    (as \<noteq> [] \<longrightarrow> \<not> sm_connected st') \<and> length delays \<le> length as \<and>
    (\<forall>i < length delays. 0 \<le> delays ! i \<and> delays ! i \<le> backoff_bound (streaks f as ! i))"
  using assms
proof (induction as arbitrary: backoff st b delays f)
  case (Cons a as)
  obtain st1 b1 c where att: "run_attempt on_message a st b = (st1, b1, c)" by (cases "run_attempt on_message a st b") auto
  note s1 = run_attempt_state [OF att]
  define g where "g = (if c then 0 else Suc f)"
  define x where "x = (if c then INITIAL_BACKOFF_SECONDS else backoff)"
  have str: "streaks f (a # as) = g # streaks g as" using s1 by (cases "at_outcome a") (auto simp: g_def)
  have x: "0 \<le> x" "x \<le> backoff_bound g"
    using Cons.prems(2,3) by (auto simp: x_def g_def INITIAL_BACKOFF_SECONDS_def backoff_bound_def MAX_BACKOFF_SECONDS_def)
  let ?delay = "fmul x (at_jitter a)"
  have d: "0 \<le> ?delay \<and> ?delay \<le> backoff_bound g" using delay_bound [OF x] Cons.prems(4) by simp
  consider "at_stop a = StopInSession" | "at_stop a = StopInDelay" | "at_stop a = StopNever" by (cases "at_stop a") auto
  then show ?case
  proof cases
    case 1
    with Cons.prems(1) att s1 show ?thesis by simp
  next
    case 2
    then have "st' = st1\<lparr>sm_reconnects := sm_reconnects st1 + 1\<rparr> \<and> delays = [?delay]"
      using Cons.prems(1) att by (simp add: x_def Let_def)
    with s1 d show ?thesis unfolding str by simp
  next
    case 3
    let ?st2 = "st1\<lparr>sm_reconnects := sm_reconnects st1 + 1\<rparr>" and ?next = "min (fmul x 2) MAX_BACKOFF_SECONDS"
    obtain ds where run: "run_stream on_message as ?next ?st2 b1 = (st', b', ds)" and delays: "delays = ?delay # ds"
      using Cons.prems(1) att 3 by (auto simp: x_def Let_def split: prod.splits)
    have "?next \<le> backoff_bound (Suc g)" "0 \<le> ?next" using next_backoff [OF x] by auto
    then have ih: "sm_reconnects st' = sm_reconnects ?st2 + length ds \<and> sm_subscribed st' = sm_subscribed ?st2 \<and>
        (as \<noteq> [] \<longrightarrow> \<not> sm_connected st') \<and> length ds \<le> length as \<and>
        (\<forall>i < length ds. 0 \<le> ds ! i \<and> ds ! i \<le> backoff_bound (streaks g as ! i))"
      using Cons.IH [OF run] Cons.prems(4) by auto
    have "as = [] \<Longrightarrow> \<not> sm_connected st'" using run s1 by auto
    with ih s1 d show ?thesis unfolding delays str by (auto simp: nth_Cons split: nat.split)
  qed
qed auto

section \<open>Properties\<close>

text \<open>
  Reconnecting is gentle and honest. Every wait before a new connection is at least 0, at most 60 seconds,
  and at most twice as long for every failed attempt since a connection last succeeded, one second after a success; each wait counts as one reconnect;
  and the client never reports a connection while it has none.
\<close>

theorem reconnect_schedule:
  assumes "run_stream on_message as INITIAL_BACKOFF_SECONDS st b = (st', b', delays)"
    "\<forall>a \<in> set as. 0 \<le> at_jitter a \<and> at_jitter a \<le> 1" "\<not> sm_connected st"
  shows "\<not> sm_connected st' \<and> sm_reconnects st' = sm_reconnects st + length delays \<and>
    (\<forall>i < length delays. 0 \<le> delays ! i \<and> delays ! i \<le> 60 \<and> delays ! i \<le> 2 ^ (streaks 0 as ! i))"
proof -
  have "INITIAL_BACKOFF_SECONDS \<le> backoff_bound (Suc 0)" "0 \<le> INITIAL_BACKOFF_SECONDS"
    by (simp_all add: INITIAL_BACKOFF_SECONDS_def backoff_bound_def MAX_BACKOFF_SECONDS_def)
  from run_stream_delays [OF assms(1) this(2,1) assms(2)] assms(1,3) show ?thesis
    by (cases as) (auto simp: backoff_bound_def MAX_BACKOFF_SECONDS_def)
qed

theorem reconnect_schedule_witness:
  "\<exists>st' delays. run_stream (\<lambda>_ _ n. Suc n)
      [\<lparr>at_outcome = NoConnection ''refused'', at_jitter = 1, at_stop = StopNever\<rparr>,
       \<lparr>at_outcome = Session [(5, Some (JObj [(''stream'', JStr ''btcusdt@bookTicker''), (''data'', JObj [])]))] None,
         at_jitter = 1 / 2, at_stop = StopInDelay\<rparr>]
      INITIAL_BACKOFF_SECONDS new_stream_state 0 = (st', 1, delays) \<and>
    \<not> sm_connected st' \<and> sm_reconnects st' = length delays \<and> (\<forall>i < length delays. delays ! i \<le> 60)"
proof -
  let ?as = "[\<lparr>at_outcome = NoConnection ''refused'', at_jitter = 1, at_stop = StopNever\<rparr>,
       \<lparr>at_outcome = Session [(5, Some (JObj [(''stream'', JStr ''btcusdt@bookTicker''), (''data'', JObj [])]))] None,
         at_jitter = 1 / 2, at_stop = StopInDelay\<rparr>]"
  obtain st' delays where r: "run_stream (\<lambda>_ _ n. Suc n) ?as INITIAL_BACKOFF_SECONDS new_stream_state 0 = (st', 1, delays)"
    by (simp add: run_attempt_def Let_def stream_and_data_def)
  have "\<not> sm_connected new_stream_state" "sm_reconnects new_stream_state = 0" by (simp_all add: new_stream_state_def)
  with reconnect_schedule [OF r] r show ?thesis by (intro exI [of _ st'] exI [of _ delays]) simp
qed

end
