(* ===== verification/BinanceService.thy ===== *)
theory BinanceService
  imports RestClient ExchangeMetadata StreamClient Health
begin

text \<open>
  \<open>binance/service.py\<close>: the service that owns the REST client, the metadata cache and the stream, how
  it connects and what it says of its health; with \<open>exchange_info\<close> of \<open>binance/market_data.py\<close> and
  \<open>ping\<close> of \<open>binance/rest_client.py\<close>. The environment of the requests is that of \<open>RestClient\<close>; \<open>None\<close>
  means it ran out. The instants the clock object and the formatter give are arguments.
\<close>

record binance_service =
  bv_rest :: rest_client
  bv_metadata :: exchange_metadata
  bv_stream :: stream_state
  bv_last_error :: "string option"
  bv_connected :: bool

definition new_service :: "settings \<Rightarrow> binance_service" where
  "new_service st = \<lparr>bv_rest = new_client (st_binance st), bv_metadata = new_metadata,
     bv_stream = new_stream_state, bv_last_error = None, bv_connected = False\<rparr>"

section \<open>Connecting\<close>

definition ping_request :: request where
  "ping_request = \<lparr>rq_method = ''GET'', rq_path = ''/api/v3/ping'', rq_params = [], rq_weight = 1, rq_signed = False\<rparr>"

fun joined :: "string list \<Rightarrow> string" where
  "joined [] = []"
| "joined [s] = s"
| "joined (s # t # ss) = s @ '','' @ joined (t # ss)"

definition WEIGHT_EXCHANGE_INFO :: int where
  "WEIGHT_EXCHANGE_INFO = 20"

definition exchange_info_request :: "string list \<Rightarrow> request" where
  "exchange_info_request symbols = \<lparr>rq_method = ''GET'', rq_path = ''/api/v3/exchangeInfo'',
     rq_params = (if symbols = [] then []
       else [(''symbols'', JStr (''['' @ joined (map (\<lambda>s. CHR 0x22 # upper s @ [CHR 0x22]) symbols) @ '']''))]),
     rq_weight = WEIGHT_EXCHANGE_INFO, rq_signed = False\<rparr>"

text \<open>
  The limits of the response are fed to the limiter before anything else is done with it. A
  payload that is no object has no \<open>get\<close>.
\<close>

definition exchange_info ::
  "(string \<Rightarrow> payload \<Rightarrow> string) \<Rightarrow> rest_client \<Rightarrow> string list \<Rightarrow> env_item list
     \<Rightarrow> (rest_client \<times> env_item list \<times> (request_result + payload)) option" where
  "exchange_info hmac c symbols env =
     (case do_request hmac c (exchange_info_request symbols) env of
        None \<Rightarrow> None
      | Some (c', env', _, Returned (JObj p)) \<Rightarrow>
          Some (c'\<lparr>rc_limiter := update_from_exchange_info (rc_limiter c') p\<rparr>, env', Inr p)
      | Some (c', env', _, Returned _) \<Rightarrow> Some (c', env', Inl (Crashed AttributeError))
      | Some (c', env', _, res) \<Rightarrow> Some (c', env', Inl res))"

text \<open>Each step only runs when the one before returned; the failure is what \<open>connect\<close> raises.\<close>

definition service_connect ::
  "(string \<Rightarrow> payload \<Rightarrow> string) \<Rightarrow> settings \<Rightarrow> int \<Rightarrow> binance_service \<Rightarrow> env_item list
     \<Rightarrow> (binance_service \<times> env_item list \<times> request_result option) option" where
  "service_connect hmac st now v env =
     (case do_request hmac (bv_rest v) ping_request env of
        None \<Rightarrow> None
      | Some (c1, env1, _, Returned _) \<Rightarrow>
          (case server_time hmac c1 env1 of
             None \<Rightarrow> None
           | Some (c2, env2, _, Returned _) \<Rightarrow>
               (case exchange_info hmac c2 (tc_assets (st_trading st)) env2 of
                  None \<Rightarrow> None
                | Some (c3, env3, Inl err) \<Rightarrow> Some (v\<lparr>bv_rest := c3\<rparr>, env3, Some err)
                | Some (c3, env3, Inr p) \<Rightarrow>
                    (case em_load (bv_metadata v) p now of
                       Inl err \<Rightarrow> Some (v\<lparr>bv_rest := c3\<rparr>, env3, Some (Crashed err))
                     | Inr (m, _) \<Rightarrow> Some (v\<lparr>bv_rest := c3, bv_metadata := m, bv_connected := True, bv_last_error := None\<rparr>,
                         env3, None)))
           | Some (c2, env2, _, err) \<Rightarrow> Some (v\<lparr>bv_rest := c2\<rparr>, env2, Some err))
      | Some (c1, env1, _, err) \<Rightarrow> Some (v\<lparr>bv_rest := c1\<rparr>, env1, Some err))"

definition service_close :: "binance_service \<Rightarrow> binance_service" where
  "service_close v = v\<lparr>bv_stream := stop_stream (bv_stream v), bv_connected := False\<rparr>"

definition refresh_metadata ::
  "(string \<Rightarrow> payload \<Rightarrow> string) \<Rightarrow> settings \<Rightarrow> int \<Rightarrow> binance_service \<Rightarrow> env_item list
     \<Rightarrow> (binance_service \<times> env_item list \<times> (request_result + symbol_info list)) option" where
  "refresh_metadata hmac st now v env =
     (case exchange_info hmac (bv_rest v) (tc_assets (st_trading st)) env of
        None \<Rightarrow> None
      | Some (c, env', Inl err) \<Rightarrow> Some (v\<lparr>bv_rest := c\<rparr>, env', Inl err)
      | Some (c, env', Inr p) \<Rightarrow>
          (case em_load (bv_metadata v) p now of
             Inl err \<Rightarrow> Some (v\<lparr>bv_rest := c\<rparr>, env', Inl (Crashed err))
           | Inr (m, infos) \<Rightarrow> Some (v\<lparr>bv_rest := c, bv_metadata := m\<rparr>, env', Inr infos)))"

definition service_symbol :: "binance_service \<Rightarrow> string \<Rightarrow> exn + symbol_info" where
  "service_symbol v s = em_get (bv_metadata v) s"

section \<open>Health\<close>

definition data_is_stale :: "settings \<Rightarrow> int \<Rightarrow> binance_service \<Rightarrow> bool" where
  "data_is_stale st now v = (case sm_last_message_at (bv_stream v) of
     None \<Rightarrow> True
   | Some t \<Rightarrow> is_data_stale t (stale_data_protection_seconds (st_risk st)) now)"

definition or_text :: "string option \<Rightarrow> string \<Rightarrow> json" where
  "or_text t d = (case t of Some s \<Rightarrow> if s = '''' then JStr d else JStr s | None \<Rightarrow> JStr d)"

definition service_health :: "settings \<Rightarrow> json \<Rightarrow> string \<Rightarrow> binance_service \<Rightarrow> payload" where
  "service_health st synced_at checked_at v =
     (let b = st_binance st; c = bv_rest v; failures = rc_consecutive_failures c;
          detail = (if \<not> bn_testnet b \<and> \<not> has_credentials b
            then JStr ''Connected without credentials (public market data only).'' else JNull)
      in if \<not> bv_connected v then
           [(''status'', JStr (health_value OFFLINE)), (''detail'', or_text (bv_last_error v) ''Not connected to Binance.'')]
         else if api_failure_protection_threshold (st_risk st) \<le> failures then
           [(''status'', JStr (health_value ERROR)),
            (''detail'', JStr (show_int failures @ '' consecutive Binance API failures.'')),
            (''consecutive_failures'', JInt failures)]
         else
           [(''status'', JStr (health_value (if 0 < failures \<or> \<not> ts_synced (rc_time_sync c) then DEGRADED else ONLINE))),
            (''detail'', detail), (''testnet'', JBool (bn_testnet b)), (''authenticated'', JBool (has_credentials b)),
            (''clock_offset_ms'', JInt (ts_offset_ms (rc_time_sync c))), (''clock_synced_at'', synced_at),
            (''rate_limits_from_exchange'', JBool (rl_from_exchange (rc_limiter c))),
            (''symbols_loaded'', JInt (int (length (em_symbols (bv_metadata v))))),
            (''consecutive_failures'', JInt failures), (''checked_at'', JStr checked_at)])"

definition market_data_health :: "settings \<Rightarrow> (int \<Rightarrow> string) \<Rightarrow> int \<Rightarrow> binance_service \<Rightarrow> payload" where
  "market_data_health st show_time now v =
     (let s = bv_stream v; last = (case sm_last_message_at s of None \<Rightarrow> JNull | Some t \<Rightarrow> JStr (show_time t)) in
      if sm_subscribed s = [] then
        [(''status'', JStr (health_value OFFLINE)), (''detail'', JStr ''No market-data streams subscribed.'')]
      else if \<not> sm_connected s then
        [(''status'', JStr (health_value ERROR)),
         (''detail'', or_text (sm_last_error s) ''Market-data stream disconnected.''),
         (''reconnects'', JInt (int (sm_reconnects s)))]
      else if data_is_stale st now v then
        [(''status'', JStr (health_value DEGRADED)),
         (''detail'', JStr ''Stream connected but data is stale; trading is blocked.''), (''last_message_at'', last)]
      else
        [(''status'', JStr (health_value ONLINE)), (''streams'', JInt (int (length (sm_subscribed s)))),
         (''last_message_at'', last), (''reconnects'', JInt (int (sm_reconnects s)))])"

text \<open>The two probes of \<open>lifespan.py\<close>: what cannot be split is an exception of the probe.\<close>

definition probe_of_payload :: "string \<Rightarrow> (exn \<Rightarrow> string) \<Rightarrow> payload \<Rightarrow> probe_result" where
  "probe_of_payload name str_exc p = (case split_status p of
     Inl err \<Rightarrow> ProbeRaised (str_exc err)
   | Inr (h, detail, metadata) \<Rightarrow> Reported \<lparr>hs_name = name, hs_status = h, hs_detail = detail, hs_metadata = metadata\<rparr>)"

definition binance_probe :: "(exn \<Rightarrow> string) \<Rightarrow> settings \<Rightarrow> json \<Rightarrow> string \<Rightarrow> binance_service \<Rightarrow> probe_result" where
  "binance_probe str_exc st synced_at checked_at v = probe_of_payload ''binance'' str_exc (service_health st synced_at checked_at v)"

definition market_data_probe :: "(exn \<Rightarrow> string) \<Rightarrow> settings \<Rightarrow> (int \<Rightarrow> string) \<Rightarrow> int \<Rightarrow> binance_service \<Rightarrow> probe_result" where
  "market_data_probe str_exc st show_time now v =
     probe_of_payload ''market_data'' str_exc (market_data_health st show_time now v)"

section \<open>Lemmas\<close>

lemma probe_status:
  "map_of p ''status'' = Some (JStr (health_value h)) \<Longrightarrow>
   \<exists>c. probe_of_payload name str_exc p = Reported c \<and> hs_status c = h"
  by (simp add: probe_of_payload_def split_status_def Let_def)

lemma service_health_status:
  "map_of (service_health st synced_at checked_at v) ''status'' = Some (JStr (health_value
     (if \<not> bv_connected v then OFFLINE
      else if api_failure_protection_threshold (st_risk st) \<le> rc_consecutive_failures (bv_rest v) then ERROR
      else if 0 < rc_consecutive_failures (bv_rest v) \<or> \<not> ts_synced (rc_time_sync (bv_rest v)) then DEGRADED
      else ONLINE)))"
  by (simp add: service_health_def Let_def)

lemma market_data_status:
  "map_of (market_data_health st show_time now v) ''status'' = Some (JStr (health_value
     (if sm_subscribed (bv_stream v) = [] then OFFLINE
      else if \<not> sm_connected (bv_stream v) then ERROR
      else if data_is_stale st now v then DEGRADED else ONLINE)))"
  by (simp add: market_data_health_def Let_def)

lemma connect_keeps:
  assumes "service_connect hmac st now v env = Some (v', env', r)"
  shows "bv_stream v' = bv_stream v \<and> (r = None \<longrightarrow> bv_connected v' \<and> bv_last_error v' = None) \<and>
    (r \<noteq> None \<longrightarrow> bv_connected v' = bv_connected v \<and> bv_metadata v' = bv_metadata v \<and> bv_last_error v' = bv_last_error v)"
  using assms unfolding service_connect_def
  by (auto split: option.splits prod.splits request_result.splits sum.splits)

lemma flt_lower: "0 \<le> x \<Longrightarrow> x * (1 - 1 / 2 ^ 53) \<le> flt x"
proof -
  assume "0 \<le> x"
  have "(of_nat 2 :: rat) powi (1 - int 53) = 1 / 2 ^ 52" by (simp add: power_int_def power_one_over)
  then have "\<bar>flt x - x\<bar> \<le> x * (1 / 2 ^ 53)"
    using rnd_error [of 2 53 x] \<open>0 \<le> x\<close> by (simp add: flt_def)
  then have "- (flt x - x) \<le> x * (1 / 2 ^ 53)" by (rule abs_le_D2)
  then have "x - x * (1 / 2 ^ 53) \<le> flt x" by linarith
  then show ?thesis by (simp only: right_diff_distrib mult_1_right)
qed

text \<open>Up to the year 2096 the floating-point comparison of ages is the exact one.\<close>

lemma stale_exact:
  assumes "in_era (now - t)" "0 \<le> n" "n < 2 ^ 53"
  shows "is_data_stale t n now \<longleftrightarrow> n * 10 ^ 6 < now - t"
proof -
  define us where "us = now - t"
  define x :: rat where "x = of_int us / 10 ^ 6"
  have us: "0 \<le> us" "us \<le> 4 * 10 ^ 15" using assms(1) by (simp_all add: us_def in_era_def)
  have st: "is_data_stale t n now \<longleftrightarrow> of_int n < flt x"
    by (simp add: is_data_stale_def seconds_float_def fdiv_def x_def us_def)
  have n: "flt (of_int n) = of_int n" using assms(2,3) by (intro flt_int) simp
  show ?thesis
  proof (cases "n * 10 ^ 6 < us")
    case True
    then have "n * 10 ^ 6 + 1 \<le> us" by simp
    then have "(of_int (n * 10 ^ 6 + 1) :: rat) \<le> of_int us" by (simp only: of_int_le_iff)
    then have gap: "of_int n + 1 / 10 ^ 6 \<le> x" by (simp add: x_def field_simps)
    have "of_int us \<le> (4 * 10 ^ 15 :: rat)" using us(2) by (simp flip: of_int_le_numeral_iff)
    then have "x / 2 ^ 53 < 1 / 10 ^ 6" by (simp add: x_def)
    moreover have "x * (1 - 1 / 2 ^ 53) \<le> flt x" using us(1) by (intro flt_lower) (simp add: x_def)
    then have "x - x / 2 ^ 53 \<le> flt x" by (simp add: right_diff_distrib)
    ultimately have "of_int n < flt x" using gap by linarith
    with True show ?thesis by (simp add: st us_def)
  next
    case False
    then have "(of_int us :: rat) \<le> of_int (n * 10 ^ 6)" by (simp only: of_int_le_iff not_less)
    then have "x \<le> of_int n" by (simp add: x_def field_simps)
    then have "flt x \<le> of_int n" using n by (intro flt.rd_le) simp_all
    with False show ?thesis by (simp add: st us_def)
  qed
qed

section \<open>Properties\<close>

text \<open>
  The exchange probes never raise, and report \<open>ONLINE\<close> only for what is: the REST side when the service has
  connected, no request has failed since and the clock is synchronised; market data when streams are subscribed, the socket is connected
  and the last message is no older than the configured number of seconds.
\<close>

theorem exchange_probes_honest:
  assumes "case sm_last_message_at (bv_stream v) of None \<Rightarrow> True | Some t \<Rightarrow> in_era (now - t)"
    "0 \<le> stale_data_protection_seconds (st_risk st)" "stale_data_protection_seconds (st_risk st) < 2 ^ 53"
  shows "\<exists>c d. binance_probe str_exc st synced_at checked_at v = Reported c \<and> market_data_probe str_exc st show_time now v = Reported d \<and>
    (hs_status c = ONLINE \<longleftrightarrow> bv_connected v \<and> rc_consecutive_failures (bv_rest v) < api_failure_protection_threshold (st_risk st) \<and>
       rc_consecutive_failures (bv_rest v) \<le> 0 \<and> ts_synced (rc_time_sync (bv_rest v))) \<and>
    (hs_status d = ONLINE \<longleftrightarrow> sm_subscribed (bv_stream v) \<noteq> [] \<and> sm_connected (bv_stream v) \<and>
       (\<exists>t. sm_last_message_at (bv_stream v) = Some t \<and> now - t \<le> stale_data_protection_seconds (st_risk st) * 10 ^ 6))"
proof -
  obtain c where c: "binance_probe str_exc st synced_at checked_at v = Reported c"
    "hs_status c = (if \<not> bv_connected v then OFFLINE
      else if api_failure_protection_threshold (st_risk st) \<le> rc_consecutive_failures (bv_rest v) then ERROR
      else if 0 < rc_consecutive_failures (bv_rest v) \<or> \<not> ts_synced (rc_time_sync (bv_rest v)) then DEGRADED
      else ONLINE)"
    unfolding binance_probe_def using probe_status [OF service_health_status] by blast
  obtain d where d: "market_data_probe str_exc st show_time now v = Reported d"
    "hs_status d = (if sm_subscribed (bv_stream v) = [] then OFFLINE
      else if \<not> sm_connected (bv_stream v) then ERROR
      else if data_is_stale st now v then DEGRADED else ONLINE)"
    unfolding market_data_probe_def using probe_status [OF market_data_status] by blast
  have "data_is_stale st now v \<longleftrightarrow> \<not> (\<exists>t. sm_last_message_at (bv_stream v) = Some t \<and>
      now - t \<le> stale_data_protection_seconds (st_risk st) * 10 ^ 6)"
    using assms by (auto simp: data_is_stale_def stale_exact split: option.splits)
  then have "hs_status d = ONLINE \<longleftrightarrow> sm_subscribed (bv_stream v) \<noteq> [] \<and> sm_connected (bv_stream v) \<and>
       (\<exists>t. sm_last_message_at (bv_stream v) = Some t \<and> now - t \<le> stale_data_protection_seconds (st_risk st) * 10 ^ 6)"
    unfolding d(2) by auto
  moreover have "hs_status c = ONLINE \<longleftrightarrow> bv_connected v \<and> rc_consecutive_failures (bv_rest v) < api_failure_protection_threshold (st_risk st) \<and>
       rc_consecutive_failures (bv_rest v) \<le> 0 \<and> ts_synced (rc_time_sync (bv_rest v))"
    unfolding c(2) by auto
  ultimately show ?thesis using c(1) d(1) by blast
qed

definition quiet_service :: binance_service where
  "quiet_service = (new_service default_settings)\<lparr>bv_stream := new_stream_state\<lparr>sm_subscribed := [''btcusdt@bookTicker''],
     sm_connected := True, sm_last_message_at := Some 1000000\<rparr>\<rparr>"

theorem exchange_probes_honest_witness:
  "\<exists>c d. binance_probe (\<lambda>_. ''e'') default_settings JNull ''now'' quiet_service = Reported c \<and>
    market_data_probe (\<lambda>_. ''e'') default_settings (\<lambda>_. ''t'') 121000000 quiet_service = Reported d \<and>
    hs_status c \<noteq> ONLINE \<and> hs_status d = ONLINE"
proof -
  have "stale_data_protection_seconds (st_risk default_settings) = 120"
    by (simp add: default_settings_def DEFAULT_RISK_CONFIG_def)
  moreover have q: "bv_stream quiet_service = new_stream_state\<lparr>sm_subscribed := [''btcusdt@bookTicker''],
     sm_connected := True, sm_last_message_at := Some 1000000\<rparr>" "\<not> bv_connected quiet_service"
    by (simp_all add: quiet_service_def new_service_def)
  then have "case sm_last_message_at (bv_stream quiet_service) of None \<Rightarrow> True | Some t \<Rightarrow> in_era (121000000 - t)"
    by (simp add: in_era_def)
  from exchange_probes_honest [OF this, of default_settings] calculation q show ?thesis by simp
qed

text \<open>After the stream loop has ended the market data is not reported as online.\<close>

lemma ended_stream_not_online:
  assumes "run_stream on_message as INITIAL_BACKOFF_SECONDS st0 b = (s, b', delays)" "as \<noteq> []" "bv_stream v = s"
    "\<forall>a \<in> set as. 0 \<le> at_jitter a \<and> at_jitter a \<le> 1"
  shows "market_data_health st show_time now v \<noteq> [] \<and>
    map_of (market_data_health st show_time now v) ''status'' \<noteq> Some (JStr (health_value ONLINE))"
proof -
  have "INITIAL_BACKOFF_SECONDS \<le> backoff_bound (Suc 0)" "0 \<le> INITIAL_BACKOFF_SECONDS"
    by (simp_all add: INITIAL_BACKOFF_SECONDS_def backoff_bound_def MAX_BACKOFF_SECONDS_def)
  from run_stream_delays [OF assms(1) this(2,1) assms(4)] assms(2,3) have "\<not> sm_connected (bv_stream v)" by simp
  then have "map_of (market_data_health st show_time now v) ''status'' \<in>
      {Some (JStr (health_value OFFLINE)), Some (JStr (health_value ERROR))}"
    by (simp add: market_data_status)
  then show ?thesis by auto
qed

end
