(* ===== verification/Causal.thy ===== *)
theory Causal
  imports Market
begin

text \<open>
  What \<open>technical/\<close> and \<open>engines/\<close> promise of every series they compute: the value at a bar
  depends on that bar and earlier ones only. \<open>causal\<close> says it of a function from the rows of a
  data frame to a column, with introduction rules for the ways columns are combined; the
  locale \<open>causal_series\<close> gives what a caller may conclude. A data frame holds closed candles in
  chronological order, its numbers as floats.
\<close>

record ohlcv =
  oh_open :: rat
  oh_high :: rat
  oh_low :: rat
  oh_close :: rat
  oh_volume :: rat

named_theorems causal_intros \<open>columns that are causal by construction\<close>

definition causal :: "('a list \<Rightarrow> 'b list) \<Rightarrow> bool" where
  "causal f \<longleftrightarrow> (\<forall>xs. length (f xs) = length xs) \<and> (\<forall>xs k. f (take k xs) = take k (f xs))"

lemma causal_length: "causal f \<Longrightarrow> length (f xs) = length xs"
  by (simp add: causal_def)

lemma causal_take: "causal f \<Longrightarrow> f (take k xs) = take k (f xs)"
  by (simp add: causal_def)

lemma causal_rows [causal_intros]: "causal (\<lambda>xs. xs)"
  by (simp add: causal_def)

lemma causal_map [causal_intros]: "causal f \<Longrightarrow> causal (\<lambda>xs. map g (f xs))"
  by (simp add: causal_def take_map)

lemma causal_compose: "causal g \<Longrightarrow> causal f \<Longrightarrow> causal (\<lambda>xs. g (f xs))"
  by (simp add: causal_def)

lemma causal_zip [causal_intros]: "causal f \<Longrightarrow> causal g \<Longrightarrow> causal (\<lambda>xs. zip (f xs) (g xs))"
  by (simp add: causal_def take_zip)

lemma causal_map2 [causal_intros]: "causal f \<Longrightarrow> causal g \<Longrightarrow> causal (\<lambda>xs. map2 h (f xs) (g xs))"
  by (intro causal_map causal_zip)

text \<open>A forward pass: the state after the first bars is all that a bar's value may use besides the bars so far.\<close>

lemma causal_nthI:
  assumes "\<And>xs. length (f xs) = length xs"
    "\<And>xs k i. i < k \<Longrightarrow> k \<le> length xs \<Longrightarrow> f (take k xs) ! i = f xs ! i"
  shows "causal f"
  unfolding causal_def
proof (intro conjI allI)
  fix xs :: "'a list" and k
  show "length (f xs) = length xs" by (rule assms(1))
  show "f (take k xs) = take k (f xs)"
  proof (cases "k \<le> length xs")
    case True
    then show ?thesis by (intro nth_equalityI) (simp_all add: assms)
  qed (simp add: assms(1))
qed

locale causal_series =
  fixes f :: "'a list \<Rightarrow> 'b list"
  assumes is_causal: "causal f"
begin

text \<open>Histories that agree up to a bar have the same values up to it.\<close>

lemma agree:
  assumes "take k xs = take k ys"
  shows "take k (f xs) = take k (f ys)"
  using assms by (metis causal_take is_causal)

lemma later_rows: "\<exists>zs. f (xs @ ys) = f xs @ zs"
proof -
  have "take (length xs) (f (xs @ ys)) = f xs" using causal_take [OF is_causal, of "length xs" "xs @ ys"] by simp
  then show ?thesis by (metis append_take_drop_id)
qed

lemma row_is_last: "i < length xs \<Longrightarrow> f xs ! i = last (f (take (Suc i) xs))"
  using causal_take [OF is_causal, of "Suc i" xs] causal_length [OF is_causal, of xs]
  by (simp add: take_Suc_conv_app_nth)

end

end
