(* ===== verification/Indicators.thy ===== *)
theory Indicators
  imports Causal
begin

text \<open>
  \<open>technical/indicators.py\<close>: every indicator as the expression over columns the code writes. What
  pandas and numpy do to a float or to a column is the argument \<open>P\<close>; \<open>causal_pandas\<close> is what
  their documentation says of the column operations used here (a trailing window, a recursive mean, a
  difference with an earlier row, a running sum): a row of the result depends on that row and
  earlier ones. \<open>'v\<close> is a float, infinities and NaN included; \<open>pd_value\<close> is its value if it is finite.
\<close>

record 'v pandas =
  pd_nan :: 'v
  pd_lit :: "rat \<Rightarrow> 'v"
  pd_add :: "'v \<Rightarrow> 'v \<Rightarrow> 'v"
  pd_sub :: "'v \<Rightarrow> 'v \<Rightarrow> 'v"
  pd_mul :: "'v \<Rightarrow> 'v \<Rightarrow> 'v"
  pd_div :: "'v \<Rightarrow> 'v \<Rightarrow> 'v"
  pd_neg :: "'v \<Rightarrow> 'v"
  pd_abs :: "'v \<Rightarrow> 'v"
  pd_sign :: "'v \<Rightarrow> 'v"
  pd_log :: "'v \<Rightarrow> 'v"
  pd_less :: "'v \<Rightarrow> 'v \<Rightarrow> bool"
  pd_equal :: "'v \<Rightarrow> 'v \<Rightarrow> bool"
  pd_isna :: "'v \<Rightarrow> bool"
  pd_value :: "'v \<Rightarrow> rat option"
  pd_row_max :: "'v list \<Rightarrow> 'v"
  np_dot :: "'v list \<Rightarrow> 'v list \<Rightarrow> 'v"
  np_mean :: "'v list \<Rightarrow> 'v"
  pd_rolling_mean :: "nat \<Rightarrow> 'v list \<Rightarrow> 'v list"
  pd_rolling_sum :: "nat \<Rightarrow> 'v list \<Rightarrow> 'v list"
  pd_rolling_min :: "nat \<Rightarrow> 'v list \<Rightarrow> 'v list"
  pd_rolling_max :: "nat \<Rightarrow> 'v list \<Rightarrow> 'v list"
  pd_rolling_std :: "nat \<Rightarrow> 'v list \<Rightarrow> 'v list"
  pd_rolling_corr :: "nat \<Rightarrow> 'v list \<Rightarrow> 'v list \<Rightarrow> 'v list"
  pd_rolling_apply :: "nat \<Rightarrow> ('v list \<Rightarrow> 'v) \<Rightarrow> 'v list \<Rightarrow> 'v list"
  pd_ewm_span :: "nat \<Rightarrow> 'v list \<Rightarrow> 'v list"
  pd_ewm_wilder :: "nat \<Rightarrow> 'v list \<Rightarrow> 'v list"
  pd_diff :: "'v list \<Rightarrow> 'v list"
  pd_shift :: "nat \<Rightarrow> 'v list \<Rightarrow> 'v list"
  pd_cumsum :: "'v list \<Rightarrow> 'v list"

definition causal_pandas :: "'v pandas \<Rightarrow> bool" where
  "causal_pandas P \<longleftrightarrow>
     (\<forall>n. causal (pd_rolling_mean P n) \<and> causal (pd_rolling_sum P n) \<and> causal (pd_rolling_min P n) \<and>
        causal (pd_rolling_max P n) \<and> causal (pd_rolling_std P n) \<and> (\<forall>f. causal (pd_rolling_apply P n f)) \<and>
        causal (pd_ewm_span P n) \<and> causal (pd_ewm_wilder P n) \<and> causal (pd_shift P n) \<and>
        (\<forall>xs ys. length xs = length ys \<longrightarrow> length (pd_rolling_corr P n xs ys) = length xs \<and>
           (\<forall>k. pd_rolling_corr P n (take k xs) (take k ys) = take k (pd_rolling_corr P n xs ys)))) \<and>
     causal (pd_diff P) \<and> causal (pd_cumsum P)"

section \<open>Columns\<close>

text \<open>Arithmetic on aligned columns, with a scalar, and \<open>replace(0, nan)\<close>, \<open>clip\<close>, \<open>where\<close>.\<close>

definition col_add :: "'v pandas \<Rightarrow> 'v list \<Rightarrow> 'v list \<Rightarrow> 'v list" where
  "col_add P xs ys = map2 (pd_add P) xs ys"

definition col_sub :: "'v pandas \<Rightarrow> 'v list \<Rightarrow> 'v list \<Rightarrow> 'v list" where
  "col_sub P xs ys = map2 (pd_sub P) xs ys"

definition col_mul :: "'v pandas \<Rightarrow> 'v list \<Rightarrow> 'v list \<Rightarrow> 'v list" where
  "col_mul P xs ys = map2 (pd_mul P) xs ys"

definition col_div :: "'v pandas \<Rightarrow> 'v list \<Rightarrow> 'v list \<Rightarrow> 'v list" where
  "col_div P xs ys = map2 (pd_div P) xs ys"


definition scale :: "'v pandas \<Rightarrow> rat \<Rightarrow> 'v list \<Rightarrow> 'v list" where
  "scale P c xs = map (\<lambda>x. pd_mul P (pd_lit P c) x) xs"

definition zero_to_nan :: "'v pandas \<Rightarrow> 'v list \<Rightarrow> 'v list" where
  "zero_to_nan P xs = map (\<lambda>x. if pd_equal P x (pd_lit P 0) then pd_nan P else x) xs"

definition clip_lower :: "'v pandas \<Rightarrow> 'v list \<Rightarrow> 'v list" where
  "clip_lower P xs = map (\<lambda>x. if pd_less P x (pd_lit P 0) then pd_lit P 0 else x) xs"

definition clip_upper :: "'v pandas \<Rightarrow> 'v list \<Rightarrow> 'v list" where
  "clip_upper P xs = map (\<lambda>x. if pd_less P (pd_lit P 0) x then pd_lit P 0 else x) xs"

definition negate :: "'v pandas \<Rightarrow> 'v list \<Rightarrow> 'v list" where
  "negate P xs = map (pd_neg P) xs"

section \<open>Trend\<close>

definition sma :: "'v pandas \<Rightarrow> nat \<Rightarrow> 'v list \<Rightarrow> 'v list" where
  "sma P period close = pd_rolling_mean P period close"

definition ema :: "'v pandas \<Rightarrow> nat \<Rightarrow> 'v list \<Rightarrow> 'v list" where
  "ema P period close = pd_ewm_span P period close"

definition wma :: "'v pandas \<Rightarrow> nat \<Rightarrow> 'v list \<Rightarrow> 'v list" where
  "wma P period close =
     (let weights = map (\<lambda>i. pd_lit P (of_nat i)) [1..<period + 1]
      in pd_rolling_apply P period (\<lambda>win. pd_div P (np_dot P win weights) (pd_lit P (of_nat (sum_list [1..<period + 1])))) close)"

definition typical_price :: "'v pandas \<Rightarrow> 'v list \<Rightarrow> 'v list \<Rightarrow> 'v list \<Rightarrow> 'v list" where
  "typical_price P high low close = map (\<lambda>x. pd_div P x (pd_lit P 3)) (col_add P (col_add P high low) close)"

definition rolling_vwap :: "'v pandas \<Rightarrow> nat \<Rightarrow> 'v list \<Rightarrow> 'v list \<Rightarrow> 'v list \<Rightarrow> 'v list \<Rightarrow> 'v list" where
  "rolling_vwap P period high low close volume =
     col_div P (pd_rolling_sum P period (col_mul P (typical_price P high low close) volume))
       (pd_rolling_sum P period volume)"

definition true_range :: "'v pandas \<Rightarrow> 'v list \<Rightarrow> 'v list \<Rightarrow> 'v list \<Rightarrow> 'v list" where
  "true_range P high low close =
     (let prev_close = pd_shift P 1 close
      in map (\<lambda>(a, b, c). pd_row_max P [a, b, c])
           (zip (col_sub P high low)
             (zip (map (pd_abs P) (col_sub P high prev_close)) (map (pd_abs P) (col_sub P low prev_close)))))"

definition moves :: "'v pandas \<Rightarrow> 'v list \<Rightarrow> 'v list \<Rightarrow> 'v list" where
  "moves P this other = map2 (\<lambda>x y. if pd_less P y x \<and> pd_less P (pd_lit P 0) x then x else pd_lit P 0) this other"

definition plus_di :: "'v pandas \<Rightarrow> nat \<Rightarrow> 'v list \<Rightarrow> 'v list \<Rightarrow> 'v list \<Rightarrow> 'v list" where
  "plus_di P period high low close =
     (let up_move = pd_diff P high; down_move = negate P (pd_diff P low);
          atr_smoothed = pd_ewm_wilder P period (true_range P high low close)
      in col_div P (scale P 100 (pd_ewm_wilder P period (moves P up_move down_move))) atr_smoothed)"

definition minus_di :: "'v pandas \<Rightarrow> nat \<Rightarrow> 'v list \<Rightarrow> 'v list \<Rightarrow> 'v list \<Rightarrow> 'v list" where
  "minus_di P period high low close =
     (let up_move = pd_diff P high; down_move = negate P (pd_diff P low);
          atr_smoothed = pd_ewm_wilder P period (true_range P high low close)
      in col_div P (scale P 100 (pd_ewm_wilder P period (moves P down_move up_move))) atr_smoothed)"

definition adx :: "'v pandas \<Rightarrow> nat \<Rightarrow> 'v list \<Rightarrow> 'v list \<Rightarrow> 'v list \<Rightarrow> 'v list" where
  "adx P period high low close =
     (let plus = plus_di P period high low close; minus = minus_di P period high low close;
          dx = col_div P (scale P 100 (map (pd_abs P) (col_sub P plus minus))) (zero_to_nan P (col_add P plus minus))
      in pd_ewm_wilder P period dx)"

section \<open>Momentum\<close>

definition rsi :: "'v pandas \<Rightarrow> nat \<Rightarrow> 'v list \<Rightarrow> 'v list" where
  "rsi P period close =
     (let delta = pd_diff P close;
          avg_gain = pd_ewm_wilder P period (clip_lower P delta);
          avg_loss = pd_ewm_wilder P period (negate P (clip_upper P delta));
          rs = col_div P avg_gain (zero_to_nan P avg_loss);
          result = map (\<lambda>r. pd_sub P (pd_lit P 100) (pd_div P (pd_lit P 100) (pd_add P (pd_lit P 1) r))) rs;
          up_only = map2 (\<lambda>r l. if pd_equal P l (pd_lit P 0) then pd_lit P 100 else r) result avg_loss
      in map2 (\<lambda>r (g, l). if pd_equal P g (pd_lit P 0) \<and> pd_equal P l (pd_lit P 0) then pd_nan P else r)
           up_only (zip avg_gain avg_loss))"

definition macd_line :: "'v pandas \<Rightarrow> nat \<Rightarrow> nat \<Rightarrow> 'v list \<Rightarrow> 'v list" where
  "macd_line P fast slow close = col_sub P (ema P fast close) (ema P slow close)"

definition macd_signal :: "'v pandas \<Rightarrow> nat \<Rightarrow> nat \<Rightarrow> nat \<Rightarrow> 'v list \<Rightarrow> 'v list" where
  "macd_signal P fast slow signal close = pd_ewm_span P signal (macd_line P fast slow close)"

definition macd_histogram :: "'v pandas \<Rightarrow> nat \<Rightarrow> nat \<Rightarrow> nat \<Rightarrow> 'v list \<Rightarrow> 'v list" where
  "macd_histogram P fast slow signal close =
     col_sub P (macd_line P fast slow close) (macd_signal P fast slow signal close)"

definition stoch_k :: "'v pandas \<Rightarrow> nat \<Rightarrow> 'v list \<Rightarrow> 'v list \<Rightarrow> 'v list \<Rightarrow> 'v list" where
  "stoch_k P k_period high low close =
     (let lowest_low = pd_rolling_min P k_period low; highest_high = pd_rolling_max P k_period high
      in col_div P (scale P 100 (col_sub P close lowest_low)) (zero_to_nan P (col_sub P highest_high lowest_low)))"

definition stoch_d :: "'v pandas \<Rightarrow> nat \<Rightarrow> nat \<Rightarrow> 'v list \<Rightarrow> 'v list \<Rightarrow> 'v list \<Rightarrow> 'v list" where
  "stoch_d P k_period d_period high low close = pd_rolling_mean P d_period (stoch_k P k_period high low close)"

definition roc :: "'v pandas \<Rightarrow> nat \<Rightarrow> 'v list \<Rightarrow> 'v list" where
  "roc P period close =
     (let shifted = pd_shift P period close
      in col_div P (scale P 100 (col_sub P close shifted)) (zero_to_nan P shifted))"

definition cci :: "'v pandas \<Rightarrow> nat \<Rightarrow> 'v list \<Rightarrow> 'v list \<Rightarrow> 'v list \<Rightarrow> 'v list" where
  "cci P period high low close =
     (let tp = typical_price P high low close;
          sma_tp = pd_rolling_mean P period tp;
          mean_deviation = pd_rolling_apply P period
            (\<lambda>win. np_mean P (map (\<lambda>x. pd_abs P (pd_sub P x (np_mean P win))) win)) tp
      in col_div P (col_sub P tp sma_tp) (scale P (flt (15 / 1000)) (zero_to_nan P mean_deviation)))"

definition williams_r :: "'v pandas \<Rightarrow> nat \<Rightarrow> 'v list \<Rightarrow> 'v list \<Rightarrow> 'v list \<Rightarrow> 'v list" where
  "williams_r P period high low close =
     (let highest_high = pd_rolling_max P period high; lowest_low = pd_rolling_min P period low
      in col_div P (scale P (- 100) (col_sub P highest_high close)) (zero_to_nan P (col_sub P highest_high lowest_low)))"

section \<open>Volatility\<close>

definition atr :: "'v pandas \<Rightarrow> nat \<Rightarrow> 'v list \<Rightarrow> 'v list \<Rightarrow> 'v list \<Rightarrow> 'v list" where
  "atr P period high low close = pd_ewm_wilder P period (true_range P high low close)"

definition bb_upper :: "'v pandas \<Rightarrow> nat \<Rightarrow> rat \<Rightarrow> 'v list \<Rightarrow> 'v list" where
  "bb_upper P period num_std close = col_add P (sma P period close) (scale P num_std (pd_rolling_std P period close))"

definition bb_lower :: "'v pandas \<Rightarrow> nat \<Rightarrow> rat \<Rightarrow> 'v list \<Rightarrow> 'v list" where
  "bb_lower P period num_std close = col_sub P (sma P period close) (scale P num_std (pd_rolling_std P period close))"

definition bb_bandwidth :: "'v pandas \<Rightarrow> nat \<Rightarrow> rat \<Rightarrow> 'v list \<Rightarrow> 'v list" where
  "bb_bandwidth P period num_std close =
     col_div P (col_sub P (bb_upper P period num_std close) (bb_lower P period num_std close))
       (zero_to_nan P (sma P period close))"

definition realized_volatility :: "'v pandas \<Rightarrow> nat \<Rightarrow> 'v list \<Rightarrow> 'v list" where
  "realized_volatility P period close =
     pd_rolling_std P period (map (pd_log P) (col_div P close (pd_shift P 1 close)))"

definition percentile_rank :: "'v pandas \<Rightarrow> 'v list \<Rightarrow> 'v" where
  "percentile_rank P win =
     (if length win \<le> 1 then pd_nan P
      else pd_lit P (fdiv (of_int (int (length (filter (\<lambda>x. pd_less P x (last win) \<or> pd_equal P x (last win)) win)) - 1))
             (of_nat (length win - 1))))"

definition volatility_percentile :: "'v pandas \<Rightarrow> nat \<Rightarrow> 'v list \<Rightarrow> 'v list" where
  "volatility_percentile P period atr_series = pd_rolling_apply P period (percentile_rank P) atr_series"

section \<open>Volume\<close>

definition obv :: "'v pandas \<Rightarrow> 'v list \<Rightarrow> 'v list \<Rightarrow> 'v list" where
  "obv P close volume =
     (let direction = map (\<lambda>x. pd_sign P (if pd_isna P x then pd_lit P 0 else x)) (pd_diff P close)
      in pd_cumsum P (col_mul P direction volume))"

definition volume_zscore :: "'v pandas \<Rightarrow> nat \<Rightarrow> 'v list \<Rightarrow> 'v list" where
  "volume_zscore P period volume =
     col_div P (col_sub P volume (pd_rolling_mean P period volume)) (zero_to_nan P (pd_rolling_std P period volume))"

definition price_volume_correlation :: "'v pandas \<Rightarrow> nat \<Rightarrow> 'v list \<Rightarrow> 'v list \<Rightarrow> 'v list" where
  "price_volume_correlation P period close volume = pd_rolling_corr P period (pd_diff P close) volume"

definition vwap_deviation :: "'v pandas \<Rightarrow> 'v list \<Rightarrow> 'v list \<Rightarrow> 'v list" where
  "vwap_deviation P close vwap_series = col_div P (col_sub P close vwap_series) (zero_to_nan P vwap_series)"

section \<open>Orchestration\<close>

definition REQUIRED_LOOKBACK :: nat where
  "REQUIRED_LOOKBACK = 210"

text \<open>The columns of \<open>compute_all\<close> in the order they are joined, each from the rows of the frame.\<close>

definition indicator_columns :: "'v pandas \<Rightarrow> (string \<times> (ohlcv list \<Rightarrow> 'v list)) list" where
  "indicator_columns P =
     (let close = (\<lambda>df. map (\<lambda>r. pd_lit P (oh_close r)) df); high = (\<lambda>df. map (\<lambda>r. pd_lit P (oh_high r)) df);
          low = (\<lambda>df. map (\<lambda>r. pd_lit P (oh_low r)) df); volume = (\<lambda>df. map (\<lambda>r. pd_lit P (oh_volume r)) df);
          vwap20 = (\<lambda>df. rolling_vwap P 20 (high df) (low df) (close df) (volume df));
          atr14 = (\<lambda>df. atr P 14 (high df) (low df) (close df))
      in [(''sma_20'', \<lambda>df. sma P 20 (close df)),
          (''sma_50'', \<lambda>df. sma P 50 (close df)),
          (''ema_12'', \<lambda>df. ema P 12 (close df)),
          (''ema_26'', \<lambda>df. ema P 26 (close df)),
          (''wma_20'', \<lambda>df. wma P 20 (close df)),
          (''vwap_20'', vwap20),
          (''plus_di'', \<lambda>df. plus_di P 14 (high df) (low df) (close df)),
          (''minus_di'', \<lambda>df. minus_di P 14 (high df) (low df) (close df)),
          (''adx'', \<lambda>df. adx P 14 (high df) (low df) (close df)),
          (''rsi_14'', \<lambda>df. rsi P 14 (close df)),
          (''macd'', \<lambda>df. macd_line P 12 26 (close df)),
          (''macd_signal'', \<lambda>df. macd_signal P 12 26 9 (close df)),
          (''macd_histogram'', \<lambda>df. macd_histogram P 12 26 9 (close df)),
          (''stoch_k'', \<lambda>df. stoch_k P 14 (high df) (low df) (close df)),
          (''stoch_d'', \<lambda>df. stoch_d P 14 3 (high df) (low df) (close df)),
          (''roc_12'', \<lambda>df. roc P 12 (close df)),
          (''cci_20'', \<lambda>df. cci P 20 (high df) (low df) (close df)),
          (''williams_r_14'', \<lambda>df. williams_r P 14 (high df) (low df) (close df)),
          (''atr_14'', atr14),
          (''bb_upper'', \<lambda>df. bb_upper P 20 2 (close df)),
          (''bb_mid'', \<lambda>df. sma P 20 (close df)),
          (''bb_lower'', \<lambda>df. bb_lower P 20 2 (close df)),
          (''bb_bandwidth'', \<lambda>df. bb_bandwidth P 20 2 (close df)),
          (''realized_volatility_20'', \<lambda>df. realized_volatility P 20 (close df)),
          (''volatility_percentile_100'', \<lambda>df. volatility_percentile P 100 (atr14 df)),
          (''obv'', \<lambda>df. obv P (close df) (volume df)),
          (''volume_zscore_20'', \<lambda>df. volume_zscore P 20 (volume df)),
          (''price_volume_corr_20'', \<lambda>df. price_volume_correlation P 20 (close df) (volume df)),
          (''vwap_deviation_20'', \<lambda>df. vwap_deviation P (close df) (vwap20 df))])"

text \<open>The rows of the joined frame.\<close>

definition frame_rows :: "(string \<times> (ohlcv list \<Rightarrow> 'v list)) list \<Rightarrow> ohlcv list \<Rightarrow> (string \<times> 'v) list list" where
  "frame_rows columns df = map (\<lambda>i. map (\<lambda>(name, f). (name, f df ! i)) columns) [0..<length df]"

definition compute_indicators :: "'v pandas \<Rightarrow> ohlcv list \<Rightarrow> exn + (string \<times> 'v) list list" where
  "compute_indicators P df = (if df = [] then Inl ValueError else Inr (frame_rows (indicator_columns P) df))"

section \<open>Causality\<close>

lemma causal_op: "causal g \<Longrightarrow> causal f \<Longrightarrow> causal (\<lambda>xs. g (f xs))"
  by (rule causal_compose)

lemma causal_column: "causal (\<lambda>df. map (\<lambda>r. pd_lit P (g r)) df)"
  by (rule causal_map [OF causal_rows])

lemma causal_pandas_ops:
  assumes "causal_pandas P" "causal f"
  shows "causal (\<lambda>xs. pd_rolling_mean P n (f xs))" "causal (\<lambda>xs. pd_rolling_sum P n (f xs))"
    "causal (\<lambda>xs. pd_rolling_min P n (f xs))" "causal (\<lambda>xs. pd_rolling_max P n (f xs))"
    "causal (\<lambda>xs. pd_rolling_std P n (f xs))" "causal (\<lambda>xs. pd_rolling_apply P n agg (f xs))"
    "causal (\<lambda>xs. pd_ewm_span P n (f xs))" "causal (\<lambda>xs. pd_ewm_wilder P n (f xs))"
    "causal (\<lambda>xs. pd_shift P n (f xs))" "causal (\<lambda>xs. pd_diff P (f xs))" "causal (\<lambda>xs. pd_cumsum P (f xs))"
  using assms by (auto simp: causal_pandas_def intro: causal_compose)

lemma causal_corr:
  assumes "causal_pandas P" "causal f" "causal g"
  shows "causal (\<lambda>xs. pd_rolling_corr P n (f xs) (g xs))"
proof -
  have corr: "length (pd_rolling_corr P n ys zs) = length ys \<and>
      (\<forall>k. pd_rolling_corr P n (take k ys) (take k zs) = take k (pd_rolling_corr P n ys zs))"
    if "length ys = length zs" for ys zs
    using assms(1) that by (simp add: causal_pandas_def)
  have "length (f xs) = length (g xs)" for xs using assms(2,3) by (simp add: causal_length)
  with corr assms(2,3) show ?thesis by (simp add: causal_def)
qed

lemmas column_defs = col_add_def col_sub_def col_mul_def col_div_def scale_def zero_to_nan_def clip_lower_def
  clip_upper_def negate_def moves_def

lemma causal_columns:
  assumes "causal f" "causal g"
  shows "causal (\<lambda>xs. col_add P (f xs) (g xs))" "causal (\<lambda>xs. col_sub P (f xs) (g xs))"
    "causal (\<lambda>xs. col_mul P (f xs) (g xs))" "causal (\<lambda>xs. col_div P (f xs) (g xs))"
    "causal (\<lambda>xs. moves P (f xs) (g xs))"
  unfolding column_defs by ((rule causal_map2, (rule assms)+)+)

lemma causal_column_maps:
  assumes "causal f"
  shows "causal (\<lambda>xs. scale P c (f xs))" "causal (\<lambda>xs. zero_to_nan P (f xs))" "causal (\<lambda>xs. clip_lower P (f xs))"
    "causal (\<lambda>xs. clip_upper P (f xs))" "causal (\<lambda>xs. negate P (f xs))"
  unfolding column_defs by ((rule causal_map, rule assms)+)

lemmas causal_ops = causal_columns causal_column_maps causal_pandas_ops causal_corr causal_map2 causal_map causal_zip

lemma causal_shared:
  assumes "causal_pandas P" "causal h" "causal l" "causal c"
  shows "causal (\<lambda>xs. typical_price P (h xs) (l xs) (c xs))" "causal (\<lambda>xs. true_range P (h xs) (l xs) (c xs))"
  unfolding typical_price_def true_range_def Let_def
  by ((intro causal_ops assms)+)

lemma causal_close_columns:
  assumes "causal_pandas P" "causal c"
  shows "causal (\<lambda>xs. sma P n (c xs))" "causal (\<lambda>xs. ema P n (c xs))" "causal (\<lambda>xs. wma P n (c xs))"
    "causal (\<lambda>xs. rsi P n (c xs))" "causal (\<lambda>xs. roc P n (c xs))" "causal (\<lambda>xs. realized_volatility P n (c xs))"
    "causal (\<lambda>xs. volatility_percentile P n (c xs))" "causal (\<lambda>xs. volume_zscore P n (c xs))"
  unfolding sma_def ema_def wma_def rsi_def roc_def realized_volatility_def volatility_percentile_def volume_zscore_def Let_def
  by ((intro causal_ops assms)+)

lemma causal_derived:
  assumes "causal_pandas P" "causal h" "causal l" "causal c"
  shows "causal (\<lambda>xs. plus_di P n (h xs) (l xs) (c xs))" "causal (\<lambda>xs. minus_di P n (h xs) (l xs) (c xs))"
    "causal (\<lambda>xs. stoch_k P n (h xs) (l xs) (c xs))" "causal (\<lambda>xs. atr P n (h xs) (l xs) (c xs))"
    "causal (\<lambda>xs. cci P n (h xs) (l xs) (c xs))" "causal (\<lambda>xs. williams_r P n (h xs) (l xs) (c xs))"
  unfolding plus_di_def minus_di_def stoch_k_def atr_def cci_def williams_r_def Let_def
  by ((intro causal_ops causal_shared assms)+)

lemma causal_close_derived:
  assumes "causal_pandas P" "causal c"
  shows "causal (\<lambda>xs. bb_upper P n r (c xs))" "causal (\<lambda>xs. bb_lower P n r (c xs))" "causal (\<lambda>xs. macd_line P n m (c xs))"
  unfolding bb_upper_def bb_lower_def macd_line_def
  by ((intro causal_ops causal_close_columns assms)+)

lemmas causal_levels = causal_shared causal_close_columns causal_derived causal_close_derived

lemma causal_close_top:
  assumes "causal_pandas P" "causal c"
  shows "causal (\<lambda>xs. macd_signal P n m k (c xs))" "causal (\<lambda>xs. bb_bandwidth P n r (c xs))"
  unfolding macd_signal_def bb_bandwidth_def by ((intro causal_ops causal_levels assms)+)

lemma causal_volume_top:
  assumes "causal_pandas P" "causal c" "causal v"
  shows "causal (\<lambda>xs. obv P (c xs) (v xs))" "causal (\<lambda>xs. price_volume_correlation P n (c xs) (v xs))"
    "causal (\<lambda>xs. vwap_deviation P (c xs) (v xs))"
  unfolding obv_def price_volume_correlation_def vwap_deviation_def Let_def
  by ((intro causal_ops causal_levels assms)+)

lemma causal_range_top:
  assumes "causal_pandas P" "causal h" "causal l" "causal c"
  shows "causal (\<lambda>xs. adx P n (h xs) (l xs) (c xs))" "causal (\<lambda>xs. stoch_d P n m (h xs) (l xs) (c xs))"
  unfolding adx_def stoch_d_def Let_def by ((intro causal_ops causal_levels assms)+)

lemma causal_vwap:
  assumes "causal_pandas P" "causal h" "causal l" "causal c" "causal v"
  shows "causal (\<lambda>xs. rolling_vwap P n (h xs) (l xs) (c xs) (v xs))"
  unfolding rolling_vwap_def by (intro causal_ops causal_levels assms)

lemmas causal_top = causal_close_top causal_volume_top causal_range_top causal_vwap

lemma indicator_columns_causal:
  assumes "causal_pandas P"
  shows "list_all (\<lambda>(name, f). causal f) (indicator_columns P)"
  unfolding indicator_columns_def Let_def list.pred_inject prod.case macd_histogram_def
  by (intro conjI list.pred_inject(1) causal_top causal_levels causal_columns causal_map [OF causal_rows] assms)

lemma frame_rows_causal:
  assumes "list_all (\<lambda>(name, f). causal f) columns"
  shows "causal (frame_rows columns)"
proof (rule causal_nthI)
  fix df :: "ohlcv list" and k i
  assume i: "i < k" "k \<le> length df"
  have "f (take k df) ! i = f df ! i" if "(name, f) \<in> set columns" for name f
    using that assms i causal_take [of f k df] by (auto simp: list_all_iff)
  with i show "frame_rows columns (take k df) ! i = frame_rows columns df ! i"
    by (auto simp: frame_rows_def)
qed (simp add: frame_rows_def)

lemma indicators_causal: "causal_pandas P \<Longrightarrow> causal (frame_rows (indicator_columns P))"
  by (rule frame_rows_causal) (rule indicator_columns_causal)

section \<open>A pandas\<close>

text \<open>
  The documented meaning of the column operations over exact rationals with \<open>None\<close> for NaN, to
  evaluate the model: every row of a column is computed from the rows so far. The logarithm and the
  square root in the standard deviation are left out of this instance.
\<close>

definition so_far :: "('a list \<Rightarrow> 'b) \<Rightarrow> 'a list \<Rightarrow> 'b list" where
  "so_far g xs = map (\<lambda>i. g (take (Suc i) xs)) [0..<length xs]"

lemma so_far_causal: "causal (so_far g)"
  by (rule causal_nthI) (simp_all add: so_far_def min_def)

definition lift2 :: "(rat \<Rightarrow> rat \<Rightarrow> rat) \<Rightarrow> rat option \<Rightarrow> rat option \<Rightarrow> rat option" where
  "lift2 f x y = (case (x, y) of (Some a, Some b) \<Rightarrow> Some (f a b) | _ \<Rightarrow> None)"

definition safe_div :: "rat option \<Rightarrow> rat option \<Rightarrow> rat option" where
  "safe_div x y = (if y = Some 0 then None else lift2 (/) x y)"

definition trailing :: "nat \<Rightarrow> (rat list \<Rightarrow> rat) \<Rightarrow> rat option list \<Rightarrow> rat option" where
  "trailing n f xs = (let win = drop (length xs - n) xs in
     if length win = n \<and> 0 < n \<and> None \<notin> set win then Some (f (map the win)) else None)"

definition mean :: "rat list \<Rightarrow> rat" where
  "mean xs = sum_list xs / of_nat (length xs)"

definition spread :: "rat list \<Rightarrow> rat" where
  "spread xs = mean (map (\<lambda>x. (x - mean xs) ^ 2) xs)"

definition recursive_mean :: "nat \<Rightarrow> rat \<Rightarrow> rat option list \<Rightarrow> rat option" where
  "recursive_mean n alpha xs = (case map the (filter (\<lambda>x. x \<noteq> None) xs) of
     [] \<Rightarrow> None
   | y # ys \<Rightarrow> if length ys + 1 < n then None else Some (foldl (\<lambda>m x. alpha * x + (1 - alpha) * m) y ys))"

definition exact_pandas :: "rat option pandas" where
  "exact_pandas = \<lparr>pd_nan = None, pd_lit = Some, pd_add = lift2 (+), pd_sub = lift2 (-), pd_mul = lift2 (*),
     pd_div = safe_div, pd_neg = map_option uminus, pd_abs = map_option abs, pd_sign = map_option sgn, pd_log = (\<lambda>x. x),
     pd_less = (\<lambda>x y. lift2 (\<lambda>a b. if a < b then 1 else 0) x y = Some 1),
     pd_equal = (\<lambda>x y. x \<noteq> None \<and> x = y), pd_isna = (\<lambda>x. x = None), pd_value = (\<lambda>x. x),
     pd_row_max = (\<lambda>xs. case List.map_filter (\<lambda>x. x) xs of [] \<Rightarrow> None | ys \<Rightarrow> Some (Max (set ys))),
     np_dot = (\<lambda>xs ys. foldr (lift2 (+)) (map2 (lift2 (*)) xs ys) (Some 0)),
     np_mean = (\<lambda>xs. safe_div (foldr (lift2 (+)) xs (Some 0)) (Some (of_nat (length xs)))),
     pd_rolling_mean = (\<lambda>n. so_far (trailing n mean)), pd_rolling_sum = (\<lambda>n. so_far (trailing n sum_list)),
     pd_rolling_min = (\<lambda>n. so_far (trailing n (\<lambda>xs. Min (set xs)))),
     pd_rolling_max = (\<lambda>n. so_far (trailing n (\<lambda>xs. Max (set xs)))),
     pd_rolling_std = (\<lambda>n. so_far (trailing n spread)),
     pd_rolling_corr = (\<lambda>n xs ys. so_far (\<lambda>zs. lift2 (*) (trailing n mean (map fst zs)) (trailing n mean (map snd zs))) (zip xs ys)),
     pd_rolling_apply = (\<lambda>n f. so_far (\<lambda>xs. let win = drop (length xs - n) xs in
       if length win = n \<and> None \<notin> set win then f win else None)),
     pd_ewm_span = (\<lambda>n. so_far (recursive_mean n (2 / (of_nat n + 1)))),
     pd_ewm_wilder = (\<lambda>n. so_far (recursive_mean n (1 / of_nat n))),
     pd_diff = so_far (\<lambda>xs. if length xs < 2 then None else lift2 (-) (last xs) (last (butlast xs))),
     pd_shift = (\<lambda>n. so_far (\<lambda>xs. if length xs \<le> n then None else xs ! (length xs - 1 - n))),
     pd_cumsum = so_far (\<lambda>xs. Some (sum_list (map the (filter (\<lambda>x. x \<noteq> None) xs))))\<rparr>"

lemma exact_pandas_causal: "causal_pandas exact_pandas"
  unfolding causal_pandas_def exact_pandas_def pandas.simps
  by (auto intro: so_far_causal simp: causal_length [OF so_far_causal] take_zip [symmetric] causal_take [OF so_far_causal])

end
