(* ===== verification/MarketStructure.thy ===== *)
theory MarketStructure
  imports Causal
begin

text \<open>
  \<open>engines/market_structure.py\<close>: swing points and the fields derived from them, in one forward
  pass over the bars. The lists the pass fills are the rows written so far; the flags of the
  current bar are part of the state while its swings are resolved.
\<close>

definition SWING_WINDOW :: nat where
  "SWING_WINDOW = 5"

definition FALSE_BREAKOUT_WINDOW :: nat where
  "FALSE_BREAKOUT_WINDOW = 3"

datatype swing_kind = SwHIGH | SwLOW

datatype trend = TrBULLISH | TrBEARISH | TrUNKNOWN

record swing_point =
  sw_index :: nat
  sw_confirmed_index :: nat
  sw_kind :: swing_kind
  sw_price :: rat

section \<open>Swing points\<close>

definition window_of :: "nat \<Rightarrow> nat \<Rightarrow> 'a list \<Rightarrow> 'a list" where
  "window_of window i xs = take (2 * window + 1) (drop (i - window) xs)"

text \<open>The swings found at one bar, the high before the low.\<close>

definition swings_at :: "nat \<Rightarrow> rat list \<Rightarrow> rat list \<Rightarrow> nat \<Rightarrow> swing_point list" where
  "swings_at window high low i =
     (let window_high = window_of window i high; window_low = window_of window i low in
      (if high ! i = Max (set window_high) \<and> count_list window_high (high ! i) = 1
       then [\<lparr>sw_index = i, sw_confirmed_index = i + window, sw_kind = SwHIGH, sw_price = high ! i\<rparr>] else []) @
      (if low ! i = Min (set window_low) \<and> count_list window_low (low ! i) = 1
       then [\<lparr>sw_index = i, sw_confirmed_index = i + window, sw_kind = SwLOW, sw_price = low ! i\<rparr>] else []))"

definition find_swing_points :: "nat \<Rightarrow> rat list \<Rightarrow> rat list \<Rightarrow> swing_point list" where
  "find_swing_points window high low =
     sort_key sw_confirmed_index (concat (map (swings_at window high low) [window..<length high - window]))"

section \<open>The forward pass\<close>

datatype break_direction = Breakout | Breakdown

record structure_row =
  sr_trend :: trend
  sr_is_hh :: bool
  sr_is_hl :: bool
  sr_is_lh :: bool
  sr_is_ll :: bool
  sr_bos :: bool
  sr_choch :: bool
  sr_resistance :: "rat option"
  sr_support :: "rat option"
  sr_breakout :: bool
  sr_breakdown :: bool
  sr_false_breakout :: bool

record structure_state =
  ss_trend :: trend
  ss_last_high :: "swing_point option"
  ss_last_low :: "swing_point option"
  ss_prev_high :: "swing_point option"
  ss_prev_low :: "swing_point option"
  ss_resistance :: "rat option"
  ss_support :: "rat option"
  ss_pending :: "(nat \<times> break_direction) list"
  ss_rows :: "structure_row list"

definition initial_structure :: structure_state where
  "initial_structure = \<lparr>ss_trend = TrUNKNOWN, ss_last_high = None, ss_last_low = None, ss_prev_high = None,
     ss_prev_low = None, ss_resistance = None, ss_support = None, ss_pending = [], ss_rows = []\<rparr>"

definition blank_row :: structure_row where
  "blank_row = \<lparr>sr_trend = TrUNKNOWN, sr_is_hh = False, sr_is_hl = False, sr_is_lh = False, sr_is_ll = False,
     sr_bos = False, sr_choch = False, sr_resistance = None, sr_support = None, sr_breakout = False,
     sr_breakdown = False, sr_false_breakout = False\<rparr>"

text \<open>Step 1 of the loop body, for one newly confirmed swing.\<close>

definition resolve_swing :: "swing_point \<Rightarrow> structure_state \<times> structure_row \<Rightarrow> structure_state \<times> structure_row" where
  "resolve_swing swing sr =
     (let (st, row) = sr;
          (st1, row1) =
            (case sw_kind swing of
               SwHIGH \<Rightarrow>
                 (st\<lparr>ss_prev_high := ss_last_high st, ss_last_high := Some swing, ss_resistance := Some (sw_price swing)\<rparr>,
                  case ss_last_high st of None \<Rightarrow> row
                  | Some l \<Rightarrow> if sw_price l < sw_price swing then row\<lparr>sr_is_hh := True\<rparr> else row\<lparr>sr_is_lh := True\<rparr>)
             | SwLOW \<Rightarrow>
                 (st\<lparr>ss_prev_low := ss_last_low st, ss_last_low := Some swing, ss_support := Some (sw_price swing)\<rparr>,
                  case ss_last_low st of None \<Rightarrow> row
                  | Some l \<Rightarrow> if sw_price l < sw_price swing then row\<lparr>sr_is_hl := True\<rparr> else row\<lparr>sr_is_ll := True\<rparr>));
          new_trend = (if sr_is_hh row1 \<or> sr_is_hl row1 then TrBULLISH
                       else if sr_is_lh row1 \<or> sr_is_ll row1 then TrBEARISH else ss_trend st1);
          row2 = (if ss_trend st1 \<noteq> TrUNKNOWN \<and> new_trend \<noteq> ss_trend st1 then row1\<lparr>sr_choch := True\<rparr> else row1)
      in (st1\<lparr>ss_trend := new_trend\<rparr>, row2))"

definition is_above :: "rat option \<Rightarrow> rat \<Rightarrow> bool" where
  "is_above level c \<longleftrightarrow> (case level of None \<Rightarrow> False | Some l \<Rightarrow> l < c)"

definition is_below :: "rat option \<Rightarrow> rat \<Rightarrow> bool" where
  "is_below level c \<longleftrightarrow> (case level of None \<Rightarrow> False | Some l \<Rightarrow> c < l)"

text \<open>Step 3: has a break whose window is over been taken back?\<close>

definition reverted :: "structure_row list \<Rightarrow> rat \<Rightarrow> nat \<times> break_direction \<Rightarrow> bool" where
  "reverted rows c b = (case snd b of
     Breakout \<Rightarrow> is_below (sr_resistance (rows ! fst b)) c
   | Breakdown \<Rightarrow> is_above (sr_support (rows ! fst b)) c)"

definition structure_bar :: "swing_point list \<Rightarrow> rat list \<Rightarrow> nat \<Rightarrow> structure_state \<Rightarrow> structure_state" where
  "structure_bar swings close i st =
     (let (st1, row1) = fold resolve_swing (filter (\<lambda>s. sw_confirmed_index s = i) swings) (st, blank_row);
          c = close ! i;
          row2 = row1\<lparr>sr_trend := ss_trend st1, sr_resistance := ss_resistance st1, sr_support := ss_support st1\<rparr>;
          up = is_above (ss_resistance st1) c;
          down = is_below (ss_support st1) c;
          row3 = row2\<lparr>sr_breakout := up, sr_breakdown := down,
            sr_bos := (up \<and> ss_trend st1 = TrBULLISH \<or> down \<and> ss_trend st1 = TrBEARISH)\<rparr>;
          pending = ss_pending st1 @ (if up then [(i, Breakout)] else []) @ (if down then [(i, Breakdown)] else []);
          due = filter (\<lambda>b. FALSE_BREAKOUT_WINDOW \<le> i - fst b) pending;
          row4 = row3\<lparr>sr_false_breakout := list_ex (reverted (ss_rows st1 @ [row3]) c) due\<rparr>
      in st1\<lparr>ss_pending := filter (\<lambda>b. i - fst b < FALSE_BREAKOUT_WINDOW) pending, ss_rows := ss_rows st1 @ [row4]\<rparr>)"

definition structure_state_after :: "nat \<Rightarrow> ohlcv list \<Rightarrow> nat \<Rightarrow> structure_state" where
  "structure_state_after window df n =
     fold (structure_bar (find_swing_points window (map oh_high df) (map oh_low df)) (map oh_close df))
       [0..<n] initial_structure"

definition compute_structure :: "nat \<Rightarrow> ohlcv list \<Rightarrow> structure_row list" where
  "compute_structure window df = ss_rows (structure_state_after window df (length df))"

section \<open>Swings confirmed at a bar\<close>

lemma swings_at_confirmed: "s \<in> set (swings_at w high low i) \<Longrightarrow> sw_confirmed_index s = i + w"
  by (auto simp: swings_at_def Let_def split: if_splits)

lemma filter_swings:
  "filter (\<lambda>s. sw_confirmed_index s = i) (concat (map (swings_at w high low) js)) =
   concat (map (swings_at w high low) (filter (\<lambda>j. j + w = i) js))"
proof (induction js)
  case (Cons j js)
  have "filter (\<lambda>s. sw_confirmed_index s = i) (swings_at w high low j) = (if j + w = i then swings_at w high low j else [])"
    using swings_at_confirmed [of _ w high low j] by (auto intro: filter_True filter_False)
  with Cons show ?case by simp
qed simp

lemma confirmed_at:
  "filter (\<lambda>s. sw_confirmed_index s = i) (find_swing_points w high low) =
   (if 2 * w \<le> i \<and> i < length high then swings_at w high low (i - w) else [])"
proof -
  let ?js = "[w..<length high - w]"
  have "filter (\<lambda>s. sw_confirmed_index s = i) (find_swing_points w high low) =
      concat (map (swings_at w high low) (filter (\<lambda>j. j + w = i) ?js))"
    by (simp only: find_swing_points_def sort_key_stable filter_swings)
  also have "filter (\<lambda>j. j + w = i) ?js = (if 2 * w \<le> i \<and> i < length high then [i - w] else [])"
  proof (cases "2 * w \<le> i \<and> i < length high")
    case True
    then have "w \<le> i - w" "i - w < length high - w" by linarith+
    then have "?js = [w..<i - w] @ (i - w) # [Suc (i - w)..<length high - w]"
      using upt_add_eq_append [of w "i - w" "length high - i"] upt_conv_Cons [of "i - w" "length high - w"] True by simp
    moreover have "filter (\<lambda>j. j + w = i) [w..<i - w] = []" "filter (\<lambda>j. j + w = i) [Suc (i - w)..<length high - w] = []"
      using True by (auto simp: filter_empty_conv)
    ultimately show ?thesis using True by simp
  qed (auto simp: filter_empty_conv)
  finally show ?thesis by (cases "2 * w \<le> i \<and> i < length high") auto
qed

lemma window_of_take:
  assumes "w \<le> i" "i + w < k"
  shows "window_of w i (take k xs) = window_of w i xs"
proof -
  have "2 * w + 1 \<le> k - (i - w)" using assms by linarith
  then show ?thesis unfolding window_of_def drop_take take_take by (simp only: min_absorb1)
qed

lemma swings_at_take:
  assumes "w \<le> i" "i + w < k"
  shows "swings_at w (take k high) (take k low) i = swings_at w high low i"
proof -
  have "take k high ! i = high ! i" "take k low ! i = low ! i" using assms by simp_all
  then show ?thesis unfolding swings_at_def window_of_take [OF assms] by (simp only:)
qed

lemma structure_bar_take:
  assumes "i < k" "k \<le> length df"
  shows "structure_bar (find_swing_points w (map oh_high (take k df)) (map oh_low (take k df))) (map oh_close (take k df)) i =
    structure_bar (find_swing_points w (map oh_high df) (map oh_low df)) (map oh_close df) i"
proof -
  have "swings_at w (map oh_high (take k df)) (map oh_low (take k df)) (i - w) =
      swings_at w (map oh_high df) (map oh_low df) (i - w)" if "2 * w \<le> i"
    using that assms swings_at_take [of w "i - w" k "map oh_high df" "map oh_low df"] by (simp add: take_map)
  then have "filter (\<lambda>s. sw_confirmed_index s = i) (find_swing_points w (map oh_high (take k df)) (map oh_low (take k df))) =
      filter (\<lambda>s. sw_confirmed_index s = i) (find_swing_points w (map oh_high df) (map oh_low df))"
    using assms by (simp add: confirmed_at)
  moreover have "map oh_close (take k df) ! i = map oh_close df ! i" using assms by simp
  ultimately show ?thesis by (intro ext) (simp only: structure_bar_def)
qed

lemma state_after_take:
  assumes "m \<le> k" "k \<le> length df"
  shows "structure_state_after w (take k df) m = structure_state_after w df m"
  using assms(1)
proof (induction m)
  case (Suc m)
  then show ?case using structure_bar_take [of m k df w] assms(2) by (simp add: structure_state_after_def)
qed (simp add: structure_state_after_def)

lemma state_after_Suc:
  "structure_state_after w df (Suc m) =
   structure_bar (find_swing_points w (map oh_high df) (map oh_low df)) (map oh_close df) m (structure_state_after w df m)"
  by (simp add: structure_state_after_def)

lemma resolve_swing_rows: "fst (resolve_swing s (st, row)) = st' \<Longrightarrow> ss_rows st' = ss_rows st \<and> ss_pending st' = ss_pending st"
  by (auto simp: resolve_swing_def Let_def split: swing_kind.splits)

lemma resolve_swings_rows:
  "fold resolve_swing ss (st, row) = (st', row') \<Longrightarrow> ss_rows st' = ss_rows st \<and> ss_pending st' = ss_pending st"
proof (induction ss arbitrary: st row)
  case (Cons s ss)
  obtain st1 row1 where s: "resolve_swing s (st, row) = (st1, row1)" by fastforce
  then have "ss_rows st1 = ss_rows st \<and> ss_pending st1 = ss_pending st" using resolve_swing_rows by (metis fst_conv)
  with Cons.IH [of st1 row1] Cons.prems s show ?case by simp
qed simp

lemma structure_bar_rows: "\<exists>row. ss_rows (structure_bar swings close i st) = ss_rows st @ [row]"
  by (auto simp: structure_bar_def Let_def split: prod.split dest: resolve_swings_rows)

lemma rows_length [simp]: "length (ss_rows (structure_state_after w df m)) = m"
proof (induction m)
  case (Suc m)
  obtain row where "ss_rows (structure_state_after w df (Suc m)) = ss_rows (structure_state_after w df m) @ [row]"
    using structure_bar_rows unfolding state_after_Suc by blast
  with Suc show ?case by simp
qed (simp add: structure_state_after_def initial_structure_def)

lemma rows_prefix: "m \<le> n \<Longrightarrow> take m (ss_rows (structure_state_after w df n)) = ss_rows (structure_state_after w df m)"
proof (induction n)
  case (Suc n)
  obtain row where row: "ss_rows (structure_state_after w df (Suc n)) = ss_rows (structure_state_after w df n) @ [row]"
    using structure_bar_rows unfolding state_after_Suc by blast
  show ?case
  proof (cases "m = Suc n")
    case False
    with Suc row show ?thesis by simp
  qed simp
qed (simp add: structure_state_after_def initial_structure_def)

lemma compute_structure_length [simp]: "length (compute_structure w df) = length df"
  by (simp add: compute_structure_def)

lemma compute_structure_causal [causal_intros]: "causal (compute_structure w)"
proof (rule causal_nthI)
  fix df :: "ohlcv list" and k i
  assume i: "i < k" "k \<le> length df"
  then have "compute_structure w (take k df) = take k (compute_structure w df)"
    by (simp add: compute_structure_def min_absorb2 state_after_take rows_prefix)
  with i show "compute_structure w (take k df) ! i = compute_structure w df ! i" by simp
qed simp

interpretation market_structure: causal_series "compute_structure w" for w
  by unfold_locales (rule compute_structure_causal)

section \<open>What the fields mean\<close>

text \<open>A swing is strictly beyond every other bar of its window, which lies inside the series.\<close>

definition swing_high :: "nat \<Rightarrow> ohlcv list \<Rightarrow> nat \<Rightarrow> bool" where
  "swing_high w df j \<longleftrightarrow> w \<le> j \<and> j + w < length df \<and>
     (\<forall>k \<in> {j - w..j + w}. k \<noteq> j \<longrightarrow> oh_high (df ! k) < oh_high (df ! j))"

definition swing_low :: "nat \<Rightarrow> ohlcv list \<Rightarrow> nat \<Rightarrow> bool" where
  "swing_low w df j \<longleftrightarrow> w \<le> j \<and> j + w < length df \<and>
     (\<forall>k \<in> {j - w..j + w}. k \<noteq> j \<longrightarrow> oh_low (df ! j) < oh_low (df ! k))"

text \<open>The price of the last swing that the first \<open>m\<close> bars confirm.\<close>

definition confirmed_level :: "(nat \<Rightarrow> bool) \<Rightarrow> (nat \<Rightarrow> rat) \<Rightarrow> nat \<Rightarrow> nat \<Rightarrow> rat option" where
  "confirmed_level swing price w m =
     (case filter swing [0..<m - w] of [] \<Rightarrow> None | js \<Rightarrow> Some (price (last js)))"

lemma count_one_split: "xs = ys @ x # zs \<Longrightarrow> count_list xs x = 1 \<longleftrightarrow> x \<notin> set ys \<and> x \<notin> set zs"
  by (auto simp: count_list_0_iff)

lemma window_split:
  assumes "w \<le> j" "j + w < length xs"
  shows "window_of w j xs = map ((!) xs) [j - w..<j] @ xs ! j # map ((!) xs) [Suc j..<Suc (j + w)]"
proof -
  have "window_of w j xs = map ((!) xs) [j - w..<Suc (j + w)]"
    using assms by (intro nth_equalityI) (auto simp: window_of_def simp del: upt_Suc)
  moreover have "[j - w..<Suc (j + w)] = [j - w..<j] @ j # [Suc j..<Suc (j + w)]"
    using assms upt_add_eq_append [of "j - w" j "Suc w"] upt_conv_Cons [of j "Suc (j + w)"] by simp
  ultimately show ?thesis by simp
qed

lemma extreme_window:
  fixes xs :: "rat list"
  assumes "w \<le> j" "j + w < length xs"
  shows "xs ! j = Max (set (window_of w j xs)) \<and> count_list (window_of w j xs) (xs ! j) = 1 \<longleftrightarrow>
      (\<forall>k \<in> {j - w..j + w}. k \<noteq> j \<longrightarrow> xs ! k < xs ! j)"
    and "xs ! j = Min (set (window_of w j xs)) \<and> count_list (window_of w j xs) (xs ! j) = 1 \<longleftrightarrow>
      (\<forall>k \<in> {j - w..j + w}. k \<noteq> j \<longrightarrow> xs ! j < xs ! k)"
proof -
  let ?v = "window_of w j xs" and ?K = "{j - w..<j} \<union> {Suc j..<Suc (j + w)}"
  have set: "set ?v = insert (xs ! j) ((!) xs ` ?K)" using window_split [OF assms] by auto
  have one: "count_list ?v (xs ! j) = 1 \<longleftrightarrow> (\<forall>k \<in> ?K. xs ! k \<noteq> xs ! j)"
    unfolding count_one_split [OF window_split [OF assms]] set_map set_upt image_iff Ball_def Bex_def Un_iff by metis
  have K: "?K = {j - w..j + w} - {j}" by auto
  have mx: "xs ! j = Max (set ?v) \<longleftrightarrow> (\<forall>k \<in> ?K. xs ! k \<le> xs ! j)"
    unfolding set by (subst eq_commute, subst Max_eq_iff) auto
  have mn: "xs ! j = Min (set ?v) \<longleftrightarrow> (\<forall>k \<in> ?K. xs ! j \<le> xs ! k)"
    unfolding set by (subst eq_commute, subst Min_eq_iff) auto
  show "xs ! j = Max (set ?v) \<and> count_list ?v (xs ! j) = 1 \<longleftrightarrow> (\<forall>k \<in> {j - w..j + w}. k \<noteq> j \<longrightarrow> xs ! k < xs ! j)"
    unfolding one mx unfolding K by (auto simp: less_le)
  show "xs ! j = Min (set ?v) \<and> count_list ?v (xs ! j) = 1 \<longleftrightarrow> (\<forall>k \<in> {j - w..j + w}. k \<noteq> j \<longrightarrow> xs ! j < xs ! k)"
    unfolding one mn unfolding K by (auto simp: less_le)
qed

text \<open>One swing, the flags of the bar as they were before it.\<close>

lemma resolve_high:
  assumes "sw_kind s = SwHIGH"
  shows "ss_last_high (fst (resolve_swing s sr)) = Some s" "ss_last_low (fst (resolve_swing s sr)) = ss_last_low (fst sr)"
    "ss_resistance (fst (resolve_swing s sr)) = Some (sw_price s)" "ss_support (fst (resolve_swing s sr)) = ss_support (fst sr)"
    "sr_is_hh (snd (resolve_swing s sr)) \<longleftrightarrow> sr_is_hh (snd sr) \<or> is_above (map_option sw_price (ss_last_high (fst sr))) (sw_price s)"
    "sr_is_lh (snd (resolve_swing s sr)) \<longleftrightarrow> sr_is_lh (snd sr) \<or>
       ss_last_high (fst sr) \<noteq> None \<and> \<not> is_above (map_option sw_price (ss_last_high (fst sr))) (sw_price s)"
    "sr_is_hl (snd (resolve_swing s sr)) = sr_is_hl (snd sr)" "sr_is_ll (snd (resolve_swing s sr)) = sr_is_ll (snd sr)"
  using assms by (auto simp: resolve_swing_def Let_def is_above_def split: option.split prod.split)

lemma resolve_low:
  assumes "sw_kind s = SwLOW"
  shows "ss_last_low (fst (resolve_swing s sr)) = Some s" "ss_last_high (fst (resolve_swing s sr)) = ss_last_high (fst sr)"
    "ss_support (fst (resolve_swing s sr)) = Some (sw_price s)" "ss_resistance (fst (resolve_swing s sr)) = ss_resistance (fst sr)"
    "sr_is_hl (snd (resolve_swing s sr)) \<longleftrightarrow> sr_is_hl (snd sr) \<or> is_above (map_option sw_price (ss_last_low (fst sr))) (sw_price s)"
    "sr_is_ll (snd (resolve_swing s sr)) \<longleftrightarrow> sr_is_ll (snd sr) \<or>
       ss_last_low (fst sr) \<noteq> None \<and> \<not> is_above (map_option sw_price (ss_last_low (fst sr))) (sw_price s)"
    "sr_is_hh (snd (resolve_swing s sr)) = sr_is_hh (snd sr)" "sr_is_lh (snd (resolve_swing s sr)) = sr_is_lh (snd sr)"
  using assms by (auto simp: resolve_swing_def Let_def is_above_def split: option.split prod.split)

lemma choch_keeps:
  "sr_is_hh (if b then row\<lparr>sr_choch := True\<rparr> else row) = sr_is_hh row"
  "sr_is_hl (if b then row\<lparr>sr_choch := True\<rparr> else row) = sr_is_hl row"
  "sr_is_lh (if b then row\<lparr>sr_choch := True\<rparr> else row) = sr_is_lh row"
  "sr_is_ll (if b then row\<lparr>sr_choch := True\<rparr> else row) = sr_is_ll row"
  by simp_all

lemma resolve_trend:
  "ss_trend (fst (resolve_swing s sr)) =
     (let row = snd (resolve_swing s sr) in
      if sr_is_hh row \<or> sr_is_hl row then TrBULLISH
      else if sr_is_lh row \<or> sr_is_ll row then TrBEARISH else ss_trend (fst sr))"
  by (cases sr; cases "sw_kind s") (simp_all add: resolve_swing_def Let_def choch_keeps cong: if_cong split del: if_split)

lemmas resolve_simps = resolve_high resolve_low resolve_trend Let_def

lemma resolve_swings_at:
  assumes "swings = (if H then [\<lparr>sw_index = j, sw_confirmed_index = i, sw_kind = SwHIGH, sw_price = h\<rparr>] else []) @
      (if L then [\<lparr>sw_index = j, sw_confirmed_index = i, sw_kind = SwLOW, sw_price = l\<rparr>] else [])"
  shows "let st' = fst (fold resolve_swing swings (st, blank_row)); row = snd (fold resolve_swing swings (st, blank_row)) in
    map_option sw_price (ss_last_high st') = (if H then Some h else map_option sw_price (ss_last_high st)) \<and>
    map_option sw_price (ss_last_low st') = (if L then Some l else map_option sw_price (ss_last_low st)) \<and>
    ss_resistance st' = (if H then Some h else ss_resistance st) \<and>
    ss_support st' = (if L then Some l else ss_support st) \<and>
    (sr_is_hh row \<longleftrightarrow> H \<and> is_above (map_option sw_price (ss_last_high st)) h) \<and>
    (sr_is_hl row \<longleftrightarrow> L \<and> is_above (map_option sw_price (ss_last_low st)) l) \<and>
    (sr_is_lh row \<longleftrightarrow> H \<and> ss_last_high st \<noteq> None \<and> \<not> is_above (map_option sw_price (ss_last_high st)) h) \<and>
    (sr_is_ll row \<longleftrightarrow> L \<and> ss_last_low st \<noteq> None \<and> \<not> is_above (map_option sw_price (ss_last_low st)) l) \<and>
    ss_trend st' = (if sr_is_hh row \<or> sr_is_hl row then TrBULLISH
           else if sr_is_lh row \<or> sr_is_ll row then TrBEARISH else ss_trend st)"
proof -
  have blank: "\<not> sr_is_hh blank_row" "\<not> sr_is_hl blank_row" "\<not> sr_is_lh blank_row" "\<not> sr_is_ll blank_row"
    by (simp_all add: blank_row_def)
  consider "\<not> H" "\<not> L" | "H" "\<not> L" | "\<not> H" L | H L by blast
  then show ?thesis
  proof cases
    case 1
    then show ?thesis by (simp add: assms blank)
  next
    case 2
    then show ?thesis by (simp add: assms resolve_simps blank)
  next
    case 3
    then show ?thesis by (simp add: assms resolve_simps blank)
  next
    case 4
    then have "swings = [\<lparr>sw_index = j, sw_confirmed_index = i, sw_kind = SwHIGH, sw_price = h\<rparr>,
        \<lparr>sw_index = j, sw_confirmed_index = i, sw_kind = SwLOW, sw_price = l\<rparr>]" using assms by simp
    with 4 show ?thesis by (simp add: resolve_simps blank cong: if_cong)
  qed
qed

lemma confirmed_level_last:
  "confirmed_level swing price w m =
   (if filter swing [0..<m - w] = [] then None else Some (price (last (filter swing [0..<m - w]))))"
  by (simp add: confirmed_level_def split: list.split)

lemma confirmed_level_Suc:
  "confirmed_level swing price w (Suc m) =
   (if w \<le> m \<and> swing (m - w) then Some (price (m - w)) else confirmed_level swing price w m)"
proof (cases "w \<le> m")
  case True
  then have "Suc m - w = Suc (m - w)" by simp
  then have "filter swing [0..<Suc m - w] = filter swing [0..<m - w] @ (if swing (m - w) then [m - w] else [])" by simp
  with True show ?thesis unfolding confirmed_level_last by simp
qed (simp add: confirmed_level_def)

lemma confirmed_level_0: "confirmed_level swing price w 0 = None"
  by (simp add: confirmed_level_def)

lemma swing_needs_window: "swing_high w df j \<Longrightarrow> w \<le> j" "swing_low w df j \<Longrightarrow> w \<le> j"
  by (simp_all add: swing_high_def swing_low_def)

lemma swings_now:
  assumes "m < length df"
  shows "filter (\<lambda>s. sw_confirmed_index s = m) (find_swing_points w (map oh_high df) (map oh_low df)) =
    (if w \<le> m \<and> swing_high w df (m - w)
     then [\<lparr>sw_index = m - w, sw_confirmed_index = m, sw_kind = SwHIGH, sw_price = oh_high (df ! (m - w))\<rparr>] else []) @
    (if w \<le> m \<and> swing_low w df (m - w)
     then [\<lparr>sw_index = m - w, sw_confirmed_index = m, sw_kind = SwLOW, sw_price = oh_low (df ! (m - w))\<rparr>] else [])"
proof (cases "2 * w \<le> m")
  case True
  let ?j = "m - w"
  have j: "w \<le> ?j" "?j + w = m" "w \<le> m" using True by linarith+
  have hi: "map oh_high df ! ?j = Max (set (window_of w ?j (map oh_high df))) \<and>
      count_list (window_of w ?j (map oh_high df)) (map oh_high df ! ?j) = 1 \<longleftrightarrow> swing_high w df ?j"
    using extreme_window(1) [of w ?j "map oh_high df"] j assms by (simp add: swing_high_def)
  have lo: "map oh_low df ! ?j = Min (set (window_of w ?j (map oh_low df))) \<and>
      count_list (window_of w ?j (map oh_low df)) (map oh_low df ! ?j) = 1 \<longleftrightarrow> swing_low w df ?j"
    using extreme_window(2) [of w ?j "map oh_low df"] j assms by (simp add: swing_low_def)
  have "?j < length df" using assms by simp
  then show ?thesis
    unfolding confirmed_at swings_at_def Let_def hi lo by (simp add: True j(3) assms)
next
  case False
  then have "\<not> (w \<le> m \<and> swing_high w df (m - w))" "\<not> (w \<le> m \<and> swing_low w df (m - w))"
    by (auto dest: swing_needs_window)
  with False show ?thesis by (simp add: confirmed_at)
qed

definition breaks_of :: "nat \<Rightarrow> structure_row \<Rightarrow> (nat \<times> break_direction) list" where
  "breaks_of i row = (if sr_breakout row then [(i, Breakout)] else []) @ (if sr_breakdown row then [(i, Breakdown)] else [])"

lemma ex_direction: "(\<exists>d. P d) \<longleftrightarrow> P Breakout \<or> P Breakdown"
  by (metis break_direction.exhaust)

lemma breaks_self: "b \<in> set (breaks_of i row) \<Longrightarrow> fst b = i"
  by (auto simp: breaks_of_def split: if_splits)

lemma structure_bar_row:
  assumes "fold resolve_swing (filter (\<lambda>s. sw_confirmed_index s = i) swings) (st, blank_row) = (st1, row1)"
  shows "\<exists>row. structure_bar swings close i st =
      st1\<lparr>ss_pending := filter (\<lambda>b. i - fst b < FALSE_BREAKOUT_WINDOW) (ss_pending st @ breaks_of i row),
         ss_rows := ss_rows st @ [row]\<rparr> \<and>
    sr_trend row = ss_trend st1 \<and> sr_resistance row = ss_resistance st1 \<and> sr_support row = ss_support st1 \<and>
    sr_is_hh row = sr_is_hh row1 \<and> sr_is_hl row = sr_is_hl row1 \<and> sr_is_lh row = sr_is_lh row1 \<and>
    sr_is_ll row = sr_is_ll row1 \<and>
    sr_breakout row = is_above (ss_resistance st1) (close ! i) \<and> sr_breakdown row = is_below (ss_support st1) (close ! i) \<and>
    sr_bos row = (sr_breakout row \<and> ss_trend st1 = TrBULLISH \<or> sr_breakdown row \<and> ss_trend st1 = TrBEARISH) \<and>
    (length (ss_rows st) = i \<longrightarrow> sr_false_breakout row =
       list_ex (reverted (ss_rows st) (close ! i)) (filter (\<lambda>b. FALSE_BREAKOUT_WINDOW \<le> i - fst b) (ss_pending st @ breaks_of i row)))"
proof -
  have keep: "ss_rows st1 = ss_rows st" "ss_pending st1 = ss_pending st" using resolve_swings_rows [OF assms] by simp_all
  have W: "0 < FALSE_BREAKOUT_WINDOW" by (simp add: FALSE_BREAKOUT_WINDOW_def)
  have past: "list_ex (reverted (rows @ [row]) c) (filter (\<lambda>b. FALSE_BREAKOUT_WINDOW \<le> i - fst b) bs) =
      list_ex (reverted rows c) (filter (\<lambda>b. FALSE_BREAKOUT_WINDOW \<le> i - fst b) bs)"
    if "length rows = i" for rows row c bs
  proof -
    have "reverted (rows @ [row]) c b = reverted rows c b" if "FALSE_BREAKOUT_WINDOW \<le> i - fst b" for b
    proof -
      have "fst b < length rows" using that W \<open>length rows = i\<close> by linarith
      then have "(rows @ [row]) ! fst b = rows ! fst b" by (simp add: nth_append)
      then show ?thesis by (simp only: reverted_def)
    qed
    then show ?thesis by (auto simp: list_ex_iff)
  qed
  define up where "up = is_above (ss_resistance st1) (close ! i)"
  define down where "down = is_below (ss_support st1) (close ! i)"
  define bos where "bos = (up \<and> ss_trend st1 = TrBULLISH \<or> down \<and> ss_trend st1 = TrBEARISH)"
  define row3 where "row3 = row1\<lparr>sr_trend := ss_trend st1, sr_resistance := ss_resistance st1,
    sr_support := ss_support st1, sr_breakout := up, sr_breakdown := down, sr_bos := bos\<rparr>"
  define breaks where "breaks = (if up then [(i, Breakout)] else []) @ (if down then [(i, Breakdown)] else [])"
  define due where "due = filter (\<lambda>b. FALSE_BREAKOUT_WINDOW \<le> i - fst b) (ss_pending st @ breaks)"
  define row where "row = row3\<lparr>sr_false_breakout := list_ex (reverted (ss_rows st @ [row3]) (close ! i)) due\<rparr>"
  have bar: "structure_bar swings close i st =
      st1\<lparr>ss_pending := filter (\<lambda>b. i - fst b < FALSE_BREAKOUT_WINDOW) (ss_pending st @ breaks),
         ss_rows := ss_rows st @ [row]\<rparr>"
    unfolding structure_bar_def assms Let_def prod.case keep row_def due_def breaks_def row3_def bos_def up_def down_def
    by (rule refl)
  have row: "sr_trend row = ss_trend st1" "sr_resistance row = ss_resistance st1" "sr_support row = ss_support st1"
    "sr_is_hh row = sr_is_hh row1" "sr_is_hl row = sr_is_hl row1" "sr_is_lh row = sr_is_lh row1"
    "sr_is_ll row = sr_is_ll row1" "sr_breakout row = up" "sr_breakdown row = down" "sr_bos row = bos"
    "sr_false_breakout row = list_ex (reverted (ss_rows st @ [row3]) (close ! i)) due"
    by (simp_all add: row_def row3_def)
  have breaks: "breaks_of i row = breaks" by (simp add: breaks_of_def breaks_def row)
  have "length (ss_rows st) = i \<longrightarrow> sr_false_breakout row = list_ex (reverted (ss_rows st) (close ! i)) due"
    unfolding row due_def using past by blast
  then show ?thesis
    by (intro exI [of _ row]) (simp add: bar row(1-10) breaks bos_def up_def down_def due_def)
qed

text \<open>One bar of the pass, the swings it resolves read off the series.\<close>

lemma bar_fields:
  fixes w i :: nat and df :: "ohlcv list"
  assumes "i < length df"
  defines "R \<equiv> compute_structure w df" and "st \<equiv> structure_state_after w df i"
    and "st' \<equiv> structure_state_after w df (Suc i)"
    and "H \<equiv> w \<le> i \<and> swing_high w df (i - w)" and "L \<equiv> w \<le> i \<and> swing_low w df (i - w)"
    and "h \<equiv> oh_high (df ! (i - w))" and "l \<equiv> oh_low (df ! (i - w))" and "c \<equiv> oh_close (df ! i)"
  shows "map_option sw_price (ss_last_high st') = (if H then Some h else map_option sw_price (ss_last_high st))"
    "map_option sw_price (ss_last_low st') = (if L then Some l else map_option sw_price (ss_last_low st))"
    "ss_resistance st' = (if H then Some h else ss_resistance st)"
    "ss_support st' = (if L then Some l else ss_support st)"
    "ss_trend st' = sr_trend (R ! i)"
    "sr_is_hh (R ! i) \<longleftrightarrow> H \<and> is_above (map_option sw_price (ss_last_high st)) h"
    "sr_is_hl (R ! i) \<longleftrightarrow> L \<and> is_above (map_option sw_price (ss_last_low st)) l"
    "sr_is_lh (R ! i) \<longleftrightarrow> H \<and> ss_last_high st \<noteq> None \<and> \<not> is_above (map_option sw_price (ss_last_high st)) h"
    "sr_is_ll (R ! i) \<longleftrightarrow> L \<and> ss_last_low st \<noteq> None \<and> \<not> is_above (map_option sw_price (ss_last_low st)) l"
    "sr_trend (R ! i) = (if sr_is_hh (R ! i) \<or> sr_is_hl (R ! i) then TrBULLISH
       else if sr_is_lh (R ! i) \<or> sr_is_ll (R ! i) then TrBEARISH else ss_trend st)"
    "sr_resistance (R ! i) = ss_resistance st'" "sr_support (R ! i) = ss_support st'"
    "sr_breakout (R ! i) = is_above (ss_resistance st') c" "sr_breakdown (R ! i) = is_below (ss_support st') c"
    "sr_bos (R ! i) = (sr_breakout (R ! i) \<and> sr_trend (R ! i) = TrBULLISH \<or>
       sr_breakdown (R ! i) \<and> sr_trend (R ! i) = TrBEARISH)"
    "ss_pending st' = filter (\<lambda>b. i - fst b < FALSE_BREAKOUT_WINDOW) (ss_pending st @ breaks_of i (R ! i))"
    "sr_false_breakout (R ! i) = list_ex (reverted (take i R) c)
       (filter (\<lambda>b. FALSE_BREAKOUT_WINDOW \<le> i - fst b) (ss_pending st @ breaks_of i (R ! i)))"
proof -
  let ?swings = "find_swing_points w (map oh_high df) (map oh_low df)"
  let ?now = "filter (\<lambda>s. sw_confirmed_index s = i) ?swings"
  have rows: "ss_rows st = take i R" "length (ss_rows st) = i"
    using rows_prefix [of i "length df" w df] assms(1) by (simp_all add: st_def R_def compute_structure_def)
  have rows': "ss_rows st' = take (Suc i) R"
    using rows_prefix [of "Suc i" "length df" w df] assms(1) by (simp add: st'_def R_def compute_structure_def)
  have st': "st' = structure_bar ?swings (map oh_close df) i st"
    by (simp add: st'_def st_def state_after_Suc)
  obtain st1 row1 where f: "fold resolve_swing ?now (st, blank_row) = (st1, row1)" by fastforce
  obtain row where row: "st' = st1\<lparr>ss_pending := filter (\<lambda>b. i - fst b < FALSE_BREAKOUT_WINDOW) (ss_pending st @ breaks_of i row),
         ss_rows := ss_rows st @ [row]\<rparr>"
    "sr_trend row = ss_trend st1" "sr_resistance row = ss_resistance st1" "sr_support row = ss_support st1"
    "sr_is_hh row = sr_is_hh row1" "sr_is_hl row = sr_is_hl row1" "sr_is_lh row = sr_is_lh row1"
    "sr_is_ll row = sr_is_ll row1"
    "sr_breakout row = is_above (ss_resistance st1) (map oh_close df ! i)"
    "sr_breakdown row = is_below (ss_support st1) (map oh_close df ! i)"
    "sr_bos row = (sr_breakout row \<and> ss_trend st1 = TrBULLISH \<or> sr_breakdown row \<and> ss_trend st1 = TrBEARISH)"
    "sr_false_breakout row = list_ex (reverted (ss_rows st) (map oh_close df ! i))
       (filter (\<lambda>b. FALSE_BREAKOUT_WINDOW \<le> i - fst b) (ss_pending st @ breaks_of i row))"
    using structure_bar_row [OF f, of "map oh_close df", folded st'] rows(2)
    by (elim exE conjE) (rule that, (assumption | (rule mp, assumption, assumption))+)
  have Ri: "R ! i = row"
  proof -
    have "i < length R" using assms(1) by (simp add: R_def)
    then have "take i R @ [R ! i] = take i R @ [row]"
      using rows' rows(1) row(1) by (simp add: take_Suc_conv_app_nth)
    then show ?thesis by simp
  qed
  note res = resolve_swings_at [OF swings_now [OF assms(1), of w, folded H_def L_def h_def l_def], of st,
      unfolded f fst_conv snd_conv Let_def]
  have st1: "ss_last_high st' = ss_last_high st1" "ss_last_low st' = ss_last_low st1" "ss_resistance st' = ss_resistance st1"
    "ss_support st' = ss_support st1" "ss_trend st' = ss_trend st1"
    "ss_pending st' = filter (\<lambda>b. i - fst b < FALSE_BREAKOUT_WINDOW) (ss_pending st @ breaks_of i row)"
    by (simp_all add: row(1))
  have c: "map oh_close df ! i = c" using assms(1) by (simp add: c_def)
  show "map_option sw_price (ss_last_high st') = (if H then Some h else map_option sw_price (ss_last_high st))"
    "map_option sw_price (ss_last_low st') = (if L then Some l else map_option sw_price (ss_last_low st))"
    "ss_resistance st' = (if H then Some h else ss_resistance st)"
    "ss_support st' = (if L then Some l else ss_support st)"
    unfolding st1 using res by blast+
  show "ss_trend st' = sr_trend (R ! i)" "sr_resistance (R ! i) = ss_resistance st'" "sr_support (R ! i) = ss_support st'"
    "sr_breakout (R ! i) = is_above (ss_resistance st') c" "sr_breakdown (R ! i) = is_below (ss_support st') c"
    unfolding Ri st1 by (simp_all only: row(2-4,9,10) c)
  show "sr_bos (R ! i) = (sr_breakout (R ! i) \<and> sr_trend (R ! i) = TrBULLISH \<or>
       sr_breakdown (R ! i) \<and> sr_trend (R ! i) = TrBEARISH)"
    unfolding Ri row(2) by (rule row(11))
  show "ss_pending st' = filter (\<lambda>b. i - fst b < FALSE_BREAKOUT_WINDOW) (ss_pending st @ breaks_of i (R ! i))"
    "sr_false_breakout (R ! i) = list_ex (reverted (take i R) c)
       (filter (\<lambda>b. FALSE_BREAKOUT_WINDOW \<le> i - fst b) (ss_pending st @ breaks_of i (R ! i)))"
    unfolding Ri by (rule st1(6), simp only: row(12) rows(1) c)
  show "sr_is_hh (R ! i) \<longleftrightarrow> H \<and> is_above (map_option sw_price (ss_last_high st)) h"
    "sr_is_hl (R ! i) \<longleftrightarrow> L \<and> is_above (map_option sw_price (ss_last_low st)) l"
    "sr_is_lh (R ! i) \<longleftrightarrow> H \<and> ss_last_high st \<noteq> None \<and> \<not> is_above (map_option sw_price (ss_last_high st)) h"
    "sr_is_ll (R ! i) \<longleftrightarrow> L \<and> ss_last_low st \<noteq> None \<and> \<not> is_above (map_option sw_price (ss_last_low st)) l"
    "sr_trend (R ! i) = (if sr_is_hh (R ! i) \<or> sr_is_hl (R ! i) then TrBULLISH
       else if sr_is_lh (R ! i) \<or> sr_is_ll (R ! i) then TrBEARISH else ss_trend st)"
    unfolding Ri row(2,5-8) using res by blast+
qed

section \<open>Properties\<close>

definition highs_level :: "nat \<Rightarrow> ohlcv list \<Rightarrow> nat \<Rightarrow> rat option" where
  "highs_level w df m = confirmed_level (swing_high w df) (\<lambda>j. oh_high (df ! j)) w m"

definition lows_level :: "nat \<Rightarrow> ohlcv list \<Rightarrow> nat \<Rightarrow> rat option" where
  "lows_level w df m = confirmed_level (swing_low w df) (\<lambda>j. oh_low (df ! j)) w m"

lemma levels_after:
  assumes "m \<le> length df"
  shows "map_option sw_price (ss_last_high (structure_state_after w df m)) = highs_level w df m \<and>
    ss_resistance (structure_state_after w df m) = highs_level w df m \<and>
    map_option sw_price (ss_last_low (structure_state_after w df m)) = lows_level w df m \<and>
    ss_support (structure_state_after w df m) = lows_level w df m"
  using assms
proof (induction m)
  case 0
  show ?case
    by (simp add: structure_state_after_def initial_structure_def highs_level_def lows_level_def confirmed_level_0)
next
  case (Suc m)
  then show ?case
    using bar_fields(1-4) [of m df w] by (simp add: highs_level_def lows_level_def confirmed_level_Suc)
qed

lemma pending_after:
  assumes "m \<le> length df"
  shows "set (ss_pending (structure_state_after w df m)) =
    {b. fst b < m \<and> m < fst b + Suc FALSE_BREAKOUT_WINDOW \<and> b \<in> set (breaks_of (fst b) (compute_structure w df ! fst b))}"
  using assms
proof (induction m)
  case 0
  show ?case by (simp add: structure_state_after_def initial_structure_def)
next
  case (Suc m)
  have m: "m < length df" "m \<le> length df" using Suc.prems by simp_all
  show ?case
    unfolding bar_fields(16) [OF m(1)] set_filter set_append Suc.IH [OF m(2)]
    by (auto simp: FALSE_BREAKOUT_WINDOW_def less_Suc_eq dest: breaks_self)
qed

lemma resistance_level_at:
  "i < length df \<Longrightarrow> sr_resistance (compute_structure w df ! i) = highs_level w df (Suc i)"
  using bar_fields(11) [of i df w] levels_after [of "Suc i" df w] by simp

text \<open>
  Market structure never looks ahead. The fields of a bar are a function of the bars up to
  it: series that agree up to a bar have the same fields up to it, whatever follows.
\<close>

theorem structure_no_lookahead:
  assumes "take k xs = take k ys"
  shows "take k (compute_structure w xs) = take k (compute_structure w ys)"
  using assms by (rule market_structure.agree)

definition plain_bar :: "rat \<Rightarrow> rat \<Rightarrow> ohlcv" where
  "plain_bar high close = \<lparr>oh_open = close, oh_high = high, oh_low = 1, oh_close = close, oh_volume = 1\<rparr>"

text \<open>Two swing highs, 10 at bar 1 and 12 at bar 4; the second is confirmed at bar 5, which closes at 11.\<close>

definition two_peaks :: "ohlcv list" where
  "two_peaks = [plain_bar 8 7, plain_bar 10 9, plain_bar 8 7, plain_bar 9 8, plain_bar 12 9, plain_bar 11 11]"

theorem structure_no_lookahead_witness:
  "take 3 (compute_structure 1 two_peaks) = take 3 (compute_structure 1 (take 3 two_peaks))"
  by (rule structure_no_lookahead) simp

text \<open>
  Every field of a row as the code computes it. The breakout and what rests on it are held against the level of their
  own row, which a swing confirmed at this very bar has already moved (see \<open>breakout_against_own_level\<close>).
\<close>

lemma structure_fields:
  fixes w i :: nat and df :: "ohlcv list"
  assumes "i < length df"
  defines "R \<equiv> compute_structure w df" and "c \<equiv> oh_close (df ! i)"
  shows "sr_resistance (R ! i) = highs_level w df (Suc i) \<and> sr_support (R ! i) = lows_level w df (Suc i) \<and>
    (sr_is_hh (R ! i) \<longleftrightarrow> w \<le> i \<and> swing_high w df (i - w) \<and> is_above (highs_level w df i) (oh_high (df ! (i - w)))) \<and>
    (sr_is_hl (R ! i) \<longleftrightarrow> w \<le> i \<and> swing_low w df (i - w) \<and> is_above (lows_level w df i) (oh_low (df ! (i - w)))) \<and>
    (sr_is_lh (R ! i) \<longleftrightarrow> w \<le> i \<and> swing_high w df (i - w) \<and> highs_level w df i \<noteq> None \<and> \<not> sr_is_hh (R ! i)) \<and>
    (sr_is_ll (R ! i) \<longleftrightarrow> w \<le> i \<and> swing_low w df (i - w) \<and> lows_level w df i \<noteq> None \<and> \<not> sr_is_hl (R ! i)) \<and>
    sr_trend (R ! i) = (if sr_is_hh (R ! i) \<or> sr_is_hl (R ! i) then TrBULLISH
      else if sr_is_lh (R ! i) \<or> sr_is_ll (R ! i) then TrBEARISH
      else if i = 0 then TrUNKNOWN else sr_trend (R ! (i - 1))) \<and>
    sr_breakout (R ! i) = is_above (sr_resistance (R ! i)) c \<and> sr_breakdown (R ! i) = is_below (sr_support (R ! i)) c \<and>
    (sr_bos (R ! i) \<longleftrightarrow> sr_breakout (R ! i) \<and> sr_trend (R ! i) = TrBULLISH \<or>
       sr_breakdown (R ! i) \<and> sr_trend (R ! i) = TrBEARISH) \<and>
    (sr_false_breakout (R ! i) \<longleftrightarrow> 3 \<le> i \<and>
       (sr_breakout (R ! (i - 3)) \<and> is_below (sr_resistance (R ! (i - 3))) c \<or>
        sr_breakdown (R ! (i - 3)) \<and> is_above (sr_support (R ! (i - 3))) c))"
proof -
  note bar = bar_fields [OF assms(1), of w, folded R_def c_def]
  have lev: "map_option sw_price (ss_last_high (structure_state_after w df i)) = highs_level w df i"
    "map_option sw_price (ss_last_low (structure_state_after w df i)) = lows_level w df i"
    "ss_resistance (structure_state_after w df (Suc i)) = highs_level w df (Suc i)"
    "ss_support (structure_state_after w df (Suc i)) = lows_level w df (Suc i)"
    using levels_after [of i df w] levels_after [of "Suc i" df w] assms(1) by simp_all
  have none: "ss_last_high (structure_state_after w df i) \<noteq> None \<longleftrightarrow> highs_level w df i \<noteq> None"
    "ss_last_low (structure_state_after w df i) \<noteq> None \<longleftrightarrow> lows_level w df i \<noteq> None"
    unfolding lev(1,2) [symmetric] by auto
  have trend: "ss_trend (structure_state_after w df i) = (if i = 0 then TrUNKNOWN else sr_trend (R ! (i - 1)))"
  proof (cases i)
    case 0
    then show ?thesis by (simp add: structure_state_after_def initial_structure_def)
  next
    case (Suc j)
    with assms(1) bar_fields(5) [of j df w] show ?thesis by (simp add: R_def)
  qed
  have false: "sr_false_breakout (R ! i) \<longleftrightarrow> 3 \<le> i \<and>
       (sr_breakout (R ! (i - 3)) \<and> is_below (sr_resistance (R ! (i - 3))) c \<or>
        sr_breakdown (R ! (i - 3)) \<and> is_above (sr_support (R ! (i - 3))) c)"
  proof -
    let ?P = "ss_pending (structure_state_after w df i) @ breaks_of i (R ! i)"
    have due: "b \<in> set ?P \<and> 3 \<le> i - fst b \<longleftrightarrow> fst b + 3 = i \<and> b \<in> set (breaks_of (fst b) (R ! fst b))" for b
    proof (cases "b \<in> set (breaks_of i (R ! i))")
      case True
      then have "fst b = i" by (rule breaks_self)
      then show ?thesis by simp
    next
      case False
      have "b \<in> set (ss_pending (structure_state_after w df i)) \<longleftrightarrow>
          fst b < i \<and> i < fst b + 4 \<and> b \<in> set (breaks_of (fst b) (R ! fst b))"
        unfolding pending_after [OF less_imp_le [OF assms(1)], of w, folded R_def]
        by (simp only: mem_Collect_eq) (simp add: FALSE_BREAKOUT_WINDOW_def)
      moreover have "3 \<le> i - fst b \<and> fst b < i \<and> i < fst b + 4 \<longleftrightarrow> fst b + 3 = i" by linarith
      ultimately show ?thesis using False by (simp only: set_append Un_iff) blast
    qed
    have "sr_false_breakout (R ! i) \<longleftrightarrow> (\<exists>b. (b \<in> set ?P \<and> 3 \<le> i - fst b) \<and> reverted (take i R) c b)"
      unfolding bar(17) by (simp only: list_ex_iff set_filter mem_Collect_eq Bex_def FALSE_BREAKOUT_WINDOW_def)
    also have "\<dots> \<longleftrightarrow> (\<exists>b. fst b + 3 = i \<and> b \<in> set (breaks_of (fst b) (R ! fst b)) \<and> reverted (take i R) c b)"
      unfolding due conj_assoc ..
    also have "\<dots> \<longleftrightarrow> 3 \<le> i \<and> (\<exists>d. (i - 3, d) \<in> set (breaks_of (i - 3) (R ! (i - 3))) \<and> reverted (take i R) c (i - 3, d))"
      by (auto simp: le_iff_add add.commute)
    also have "\<dots> \<longleftrightarrow> 3 \<le> i \<and>
       (sr_breakout (R ! (i - 3)) \<and> is_below (sr_resistance (R ! (i - 3))) c \<or>
        sr_breakdown (R ! (i - 3)) \<and> is_above (sr_support (R ! (i - 3))) c)"
      unfolding ex_direction by (auto simp: breaks_of_def reverted_def)
    finally show ?thesis .
  qed
  let ?H = "w \<le> i \<and> swing_high w df (i - w)" and ?L = "w \<le> i \<and> swing_low w df (i - w)"
  have flags: "sr_is_hh (R ! i) \<longleftrightarrow> ?H \<and> is_above (highs_level w df i) (oh_high (df ! (i - w)))"
    "sr_is_hl (R ! i) \<longleftrightarrow> ?L \<and> is_above (lows_level w df i) (oh_low (df ! (i - w)))"
    by (simp_all only: bar(6,7) lev)
  have "sr_is_lh (R ! i) \<longleftrightarrow> ?H \<and> highs_level w df i \<noteq> None \<and> \<not> sr_is_hh (R ! i)"
    unfolding bar(8) flags lev none by blast
  moreover have "sr_is_ll (R ! i) \<longleftrightarrow> ?L \<and> lows_level w df i \<noteq> None \<and> \<not> sr_is_hl (R ! i)"
    unfolding bar(9) flags lev none by blast
  moreover note bar(10) [unfolded trend] bar(11,12) [unfolded lev]
  moreover have "sr_breakout (R ! i) = is_above (sr_resistance (R ! i)) c" "sr_breakdown (R ! i) = is_below (sr_support (R ! i)) c"
    by (simp_all only: bar(11-14))
  ultimately show ?thesis using flags bar(15) false by blast
qed


lemma level_kept:
  "\<not> (w \<le> i \<and> swing_high w df (i - w)) \<Longrightarrow> highs_level w df (Suc i) = highs_level w df i"
  "\<not> (w \<le> i \<and> swing_low w df (i - w)) \<Longrightarrow> lows_level w df (Suc i) = lows_level w df i"
  by (auto simp: highs_level_def lows_level_def confirmed_level_Suc)

lemma two_peaks_levels: "highs_level 1 two_peaks 5 = Some 10" "highs_level 1 two_peaks (Suc 5) = Some 12"
  "swing_high 1 two_peaks (5 - 1)" "oh_high (two_peaks ! (5 - 1)) = 12" "oh_close (two_peaks ! 5) = 11"
  by code_simp+

text \<open>
  C31: the swing fields mean what they say. Resistance and support are the prices of the last
  swing high and low whose windows have been completed by the bar; a higher high is a swing high confirmed at
  this bar above the previous one, and so on for the other three; they set the trend, which
  otherwise stays. On a bar that confirms no swing high (low), a breakout (breakdown) is a close beyond the
  previously confirmed resistance (support). On a bar that confirms one, the code compares with the new level and its
  comment with the previous one: that case is no part of this property (see \<open>breakout_against_own_level\<close>).
  A break of structure is a breakout in a rising or a breakdown in a falling trend.
\<close>

theorem structure_fields_exact:
  fixes w i :: nat and df :: "ohlcv list"
  assumes "i < length df"
  defines "R \<equiv> compute_structure w df" and "c \<equiv> oh_close (df ! i)" and
    "high_at \<equiv> w \<le> i \<and> swing_high w df (i - w)" and "low_at \<equiv> w \<le> i \<and> swing_low w df (i - w)"
  shows "sr_resistance (R ! i) = highs_level w df (Suc i) \<and> sr_support (R ! i) = lows_level w df (Suc i) \<and>
    (sr_is_hh (R ! i) \<longleftrightarrow> high_at \<and> is_above (highs_level w df i) (oh_high (df ! (i - w)))) \<and>
    (sr_is_hl (R ! i) \<longleftrightarrow> low_at \<and> is_above (lows_level w df i) (oh_low (df ! (i - w)))) \<and>
    (sr_is_lh (R ! i) \<longleftrightarrow> high_at \<and> highs_level w df i \<noteq> None \<and> \<not> sr_is_hh (R ! i)) \<and>
    (sr_is_ll (R ! i) \<longleftrightarrow> low_at \<and> lows_level w df i \<noteq> None \<and> \<not> sr_is_hl (R ! i)) \<and>
    sr_trend (R ! i) = (if sr_is_hh (R ! i) \<or> sr_is_hl (R ! i) then TrBULLISH
      else if sr_is_lh (R ! i) \<or> sr_is_ll (R ! i) then TrBEARISH
      else if i = 0 then TrUNKNOWN else sr_trend (R ! (i - 1))) \<and>
    (high_at \<or> sr_breakout (R ! i) = is_above (highs_level w df i) c) \<and>
    (low_at \<or> sr_breakdown (R ! i) = is_below (lows_level w df i) c) \<and>
    (sr_bos (R ! i) \<longleftrightarrow> sr_breakout (R ! i) \<and> sr_trend (R ! i) = TrBULLISH \<or>
       sr_breakdown (R ! i) \<and> sr_trend (R ! i) = TrBEARISH)"
proof -
  note f = structure_fields [OF assms(1), of w, folded R_def c_def]
  have "high_at \<or> sr_breakout (R ! i) = is_above (highs_level w df i) c"
    using f level_kept(1) [of w i df] unfolding high_at_def by metis
  moreover have "low_at \<or> sr_breakdown (R ! i) = is_below (lows_level w df i) c"
    using f level_kept(2) [of w i df] unfolding low_at_def by metis
  moreover note f
  ultimately show ?thesis unfolding high_at_def low_at_def conj_assoc by blast
qed

definition broken_peak :: "ohlcv list" where
  "broken_peak = [plain_bar 8 7, plain_bar 10 9, plain_bar 8 7, plain_bar 9 8, plain_bar 12 11]"

lemma broken_peak_levels: "highs_level 1 broken_peak 4 = Some 10" "oh_close (broken_peak ! 4) = 11"
  "\<not> swing_high 1 broken_peak (4 - 1)"
  by code_simp+

text \<open>A second, higher peak that is confirmed at the last bar, and a close beyond the first that is no peak yet.\<close>

theorem structure_fields_exact_witness:
  "sr_is_hh (compute_structure 1 two_peaks ! 5) \<and> sr_resistance (compute_structure 1 two_peaks ! 5) = Some 12 \<and>
   sr_trend (compute_structure 1 two_peaks ! 5) = TrBULLISH \<and> sr_breakout (compute_structure 1 broken_peak ! 4)"
proof -
  let ?r = "compute_structure 1 two_peaks ! 5"
  have n: "5 < length two_peaks" "4 < length broken_peak" by (simp_all add: two_peaks_def broken_peak_def)
  note f = structure_fields_exact [OF n(1), of 1, unfolded two_peaks_levels]
  note g = structure_fields_exact [OF n(2), of 1, unfolded broken_peak_levels]
  have above: "is_above (Some 10) (12 :: rat)" "is_above (Some 10) (11 :: rat)" by (simp_all add: is_above_def)
  with f two_peaks_levels(3) have hh: "sr_is_hh ?r" by simp
  moreover have "sr_resistance ?r = Some 12" using f by blast
  moreover have "sr_trend ?r = TrBULLISH" using f hh by metis
  moreover have "sr_breakout (compute_structure 1 broken_peak ! 4)" using g broken_peak_levels(3) above(2) by metis
  ultimately show ?thesis by blast
qed

text \<open>The level the breakout is held against is the one this bar has just set, not the previous one, which it exceeds.\<close>

lemma breakout_against_own_level:
  "is_above (highs_level 1 two_peaks 5) (oh_close (two_peaks ! 5)) \<and> \<not> sr_breakout (compute_structure 1 two_peaks ! 5)"
proof -
  have "\<not> sr_breakout (compute_structure 1 two_peaks ! 5)" by code_simp
  then show ?thesis by (simp only: two_peaks_levels is_above_def) simp
qed

end
