(* ===== verification/FeatureEngine.thy ===== *)
theory FeatureEngine
  imports Indicators MarketStructure Table
begin

text \<open>
  \<open>technical/feature_engine.py\<close>: the indicator and structure fields of a pair's closed candles, side
  by side, stored as rows of \<open>technical_features\<close>; incrementally for a new candle, or for the
  whole history. The candle and the feature table are arguments; the columns of pandas are the
  argument \<open>P\<close> of \<open>Indicators\<close>.
\<close>

definition LOOKBACK_BUFFER :: nat where
  "LOOKBACK_BUFFER = 50"

definition DEFAULT_LOOKBACK :: nat where
  "DEFAULT_LOOKBACK = REQUIRED_LOOKBACK + LOOKBACK_BUFFER"

text \<open>A cell of a feature vector before it is stored.\<close>

datatype 'v cell = FloatCell 'v | TextCell string | BoolCell bool | LevelCell "rat option"

fun trend_value :: "trend \<Rightarrow> string" where
  "trend_value TrBULLISH = ''BULLISH''"
| "trend_value TrBEARISH = ''BEARISH''"
| "trend_value TrUNKNOWN = ''UNKNOWN''"

definition structure_fields :: "structure_row \<Rightarrow> (string \<times> 'v cell) list" where
  "structure_fields r =
     [(''structure_trend'', TextCell (trend_value (sr_trend r))),
      (''is_higher_high'', BoolCell (sr_is_hh r)), (''is_higher_low'', BoolCell (sr_is_hl r)),
      (''is_lower_high'', BoolCell (sr_is_lh r)), (''is_lower_low'', BoolCell (sr_is_ll r)),
      (''break_of_structure'', BoolCell (sr_bos r)), (''change_of_character'', BoolCell (sr_choch r)),
      (''resistance_level'', LevelCell (sr_resistance r)), (''support_level'', LevelCell (sr_support r)),
      (''breakout'', BoolCell (sr_breakout r)), (''breakdown'', BoolCell (sr_breakdown r)),
      (''false_breakout'', BoolCell (sr_false_breakout r))]"

definition combined_rows :: "'v pandas \<Rightarrow> ohlcv list \<Rightarrow> (string \<times> 'v cell) list list" where
  "combined_rows P df =
     map2 (\<lambda>ind r. map (\<lambda>(name, v). (name, FloatCell v)) ind @ structure_fields r)
       (frame_rows (indicator_columns P) df) (compute_structure SWING_WINDOW df)"

definition compute_combined :: "'v pandas \<Rightarrow> ohlcv list \<Rightarrow> exn + (string \<times> 'v cell) list list" where
  "compute_combined P df = map_sum id (\<lambda>_. combined_rows P df) (compute_indicators P df)"

text \<open>A level of a bar without one is NaN in its column, or \<open>None\<close>; both are stored as null.\<close>

fun clean_for_json :: "'v pandas \<Rightarrow> 'v cell \<Rightarrow> json" where
  "clean_for_json P (FloatCell v) = (case pd_value P v of None \<Rightarrow> JNull | Some x \<Rightarrow> JNum x)"
| "clean_for_json P (LevelCell l) = (case l of None \<Rightarrow> JNull | Some x \<Rightarrow> JNum x)"
| "clean_for_json P (TextCell t) = JStr t"
| "clean_for_json P (BoolCell b) = JBool b"

definition closed_candles :: "candle list \<Rightarrow> string \<Rightarrow> string \<Rightarrow> candle list" where
  "closed_candles db s tf =
     sort_key cd_open_time (filter (\<lambda>c. cd_symbol c = s \<and> cd_timeframe c = tf \<and> cd_is_closed c) db)"

text \<open>\<open>ORDER BY open_time DESC LIMIT n\<close>, turned round.\<close>

definition load_candles :: "candle list \<Rightarrow> string \<Rightarrow> string \<Rightarrow> nat option \<Rightarrow> candle list" where
  "load_candles db s tf limit =
     (let rows = rev (closed_candles db s tf)
      in rev (case limit of None \<Rightarrow> rows | Some n \<Rightarrow> take n rows))"

definition frame_of :: "candle list \<Rightarrow> ohlcv list" where
  "frame_of = map (\<lambda>c. \<lparr>oh_open = flt (cd_open c), oh_high = flt (cd_high c), oh_low = flt (cd_low c),
     oh_close = flt (cd_close c), oh_volume = flt (cd_volume c)\<rparr>)"

section \<open>Storing\<close>

definition feature_key :: "feature_row \<Rightarrow> string \<times> string \<times> int \<times> string" where
  "feature_key r = (ft_symbol r, ft_timeframe r, ft_open_time r, ft_feature_version r)"

definition refresh_features :: "feature_row \<Rightarrow> feature_row \<Rightarrow> feature_row" where
  "refresh_features new old = old\<lparr>ft_features := ft_features new\<rparr>"

interpretation features: keyed_table feature_key refresh_features
  by unfold_locales (simp add: feature_key_def refresh_features_def)

definition feature_row_of ::
  "'v pandas \<Rightarrow> string \<Rightarrow> string \<Rightarrow> string \<Rightarrow> int \<times> (string \<times> 'v cell) list \<Rightarrow> feature_row" where
  "feature_row_of P s tf version r = \<lparr>ft_symbol = s, ft_timeframe = tf, ft_open_time = fst r,
     ft_feature_version = version, ft_features = map (\<lambda>(name, v). (name, clean_for_json P v)) (snd r)\<rparr>"

text \<open>A statement that would touch a row twice is refused by the database.\<close>

definition upsert_features ::
  "'v pandas \<Rightarrow> string \<Rightarrow> string \<Rightarrow> string \<Rightarrow> int list \<Rightarrow> (string \<times> 'v cell) list list \<Rightarrow> feature_row list
     \<Rightarrow> exn + feature_row list \<times> nat" where
  "upsert_features P s tf version open_times rows table =
     (if open_times = [] then Inr (table, 0)
      else let new = map (feature_row_of P s tf version) (zip open_times rows) in
        if \<not> distinct (map feature_key new) then Inl DatabaseError
        else Inr (fold (upsert feature_key refresh_features) new table, length new))"

definition compute_latest ::
  "'v pandas \<Rightarrow> candle list \<Rightarrow> string \<Rightarrow> string \<Rightarrow> string \<Rightarrow> feature_row list \<Rightarrow> exn + feature_row list \<times> bool" where
  "compute_latest P db s tf version table =
     (let candles = load_candles db s tf (Some DEFAULT_LOOKBACK) in
      if candles = [] then Inr (table, False)
      else case compute_combined P (frame_of candles) of
          Inl err \<Rightarrow> Inl err
        | Inr rows \<Rightarrow>
            map_sum id (\<lambda>(t, _). (t, True))
              (upsert_features P s tf version [cd_open_time (last candles)] [last rows] table))"

definition compute_and_store_all ::
  "'v pandas \<Rightarrow> candle list \<Rightarrow> string \<Rightarrow> string \<Rightarrow> string \<Rightarrow> feature_row list \<Rightarrow> exn + feature_row list \<times> nat" where
  "compute_and_store_all P db s tf version table =
     (let candles = load_candles db s tf None in
      if candles = [] then Inr (table, 0)
      else case compute_combined P (frame_of candles) of
          Inl err \<Rightarrow> Inl err
        | Inr rows \<Rightarrow> upsert_features P s tf version (map cd_open_time candles) rows table)"

section \<open>Lemmas\<close>

lemma combined_causal: "causal_pandas P \<Longrightarrow> causal (combined_rows P)"
  unfolding combined_rows_def by (intro causal_map2 indicators_causal compute_structure_causal)

lemma frame_of_take: "frame_of (take k cs) = take k (frame_of cs)"
  by (simp add: frame_of_def take_map)

lemma frame_of_length [simp]: "length (frame_of cs) = length cs"
  by (simp add: frame_of_def)

lemma combined_length [simp]: "length (combined_rows P df) = length df"
  by (simp add: combined_rows_def frame_rows_def)

lemma load_all: "load_candles db s tf None = closed_candles db s tf"
  by (simp add: load_candles_def)

lemma load_limit: "load_candles db s tf (Some n) = drop (length (closed_candles db s tf) - n) (closed_candles db s tf)"
  by (simp add: load_candles_def Let_def take_rev)

lemma combined_ok: "df \<noteq> [] \<Longrightarrow> compute_combined P df = Inr (combined_rows P df)"
  by (simp add: compute_combined_def compute_indicators_def)

abbreviation stored_as :: "'v pandas \<Rightarrow> (string \<times> 'v cell) list \<Rightarrow> payload" where
  "stored_as P row \<equiv> map (\<lambda>(name, v). (name, clean_for_json P v)) row"

lemma feature_row_key [simp]: "feature_key (feature_row_of P s tf version r) = (s, tf, fst r, version)"
  by (simp add: feature_key_def feature_row_of_def)

lemma upsert_features_result:
  assumes "upsert_features P s tf version ots rows table = Inr (table', n)" "length rows = length ots"
    "distinct (map feature_key table)"
  shows "n = length ots" and "distinct (map feature_key table')" and "distinct ots"
    and "i < length ots \<Longrightarrow> \<exists>row \<in> set table'. feature_key row = (s, tf, ots ! i, version) \<and> ft_features row = stored_as P (rows ! i)"
    and "q \<in> set table \<Longrightarrow> feature_key q \<notin> (\<lambda>t. (s, tf, t, version)) ` set ots \<Longrightarrow> q \<in> set table'"
proof -
  let ?new = "map (feature_row_of P s tf version) (zip ots rows)"
  have keys: "map feature_key ?new = map (\<lambda>t. (s, tf, t, version)) ots"
    using assms(2) by (intro nth_equalityI) simp_all
  have res: "table' = fold (upsert feature_key refresh_features) ?new table \<and> n = length ots \<and> distinct (map feature_key ?new)"
  proof (cases "ots = []")
    case False
    with assms(1,2) show ?thesis by (auto simp: upsert_features_def Let_def split: if_splits)
  qed (use assms(1) in \<open>simp add: upsert_features_def\<close>)
  show "n = length ots" using res by simp
  show "distinct (map feature_key table')" using res features.upsert_run_distinct [OF assms(3)] by simp
  show "distinct ots" using res unfolding keys by (simp add: distinct_map)
  show "\<exists>row \<in> set table'. feature_key row = (s, tf, ots ! i, version) \<and> ft_features row = stored_as P (rows ! i)"
    if "i < length ots"
  proof -
    let ?r = "feature_row_of P s tf version (ots ! i, rows ! i)"
    have "(ots ! i, rows ! i) \<in> set (zip ots rows)" using that assms(2) by (auto simp: in_set_zip)
    then have "?r \<in> set ?new" by simp
    from features.upsert_run_row [OF conjunct2 [OF conjunct2 [OF res]] assms(3) this] res obtain q where
      "q \<in> set table'" "feature_key q = feature_key ?r" "q = ?r \<or> (\<exists>old. q = refresh_features ?r old)" by auto
    moreover from this(3) have "ft_features q = ft_features ?r" by (auto simp: refresh_features_def)
    then have "ft_features q = stored_as P (rows ! i)" by (simp add: feature_row_of_def)
    ultimately show ?thesis by (metis feature_row_key fst_conv)
  qed
  show "q \<in> set table \<Longrightarrow> feature_key q \<notin> (\<lambda>t. (s, tf, t, version)) ` set ots \<Longrightarrow> q \<in> set table'"
  proof -
    have "feature_key ` set ?new = (\<lambda>t. (s, tf, t, version)) ` set ots"
      using arg_cong [OF keys, of set] by (simp only: set_map)
    then show "q \<in> set table \<Longrightarrow> feature_key q \<notin> (\<lambda>t. (s, tf, t, version)) ` set ots \<Longrightarrow> q \<in> set table'"
      using features.upsert_run_keeps [of q table ?new] res by (simp only: simp_thms)
  qed
qed

lemma sorted_prefix:
  fixes f :: "'a \<Rightarrow> int"
  assumes "sorted (map f xs)" "distinct (map f xs)" "i < length xs"
  shows "filter (\<lambda>x. f x \<le> f (xs ! i)) xs = take (Suc i) xs"
proof -
  have le: "f x \<le> f (xs ! i)" if x: "x \<in> set (take (Suc i) xs)" for x
  proof -
    obtain j where "j < length (take (Suc i) xs)" "x = take (Suc i) xs ! j"
      using x unfolding in_set_conv_nth by blast
    then have j: "j < Suc i" "x = xs ! j" by simp_all
    with assms(1,3) have "map f xs ! j \<le> map f xs ! i" by (intro sorted_nth_mono) simp_all
    with j assms(3) show ?thesis by simp
  qed
  have gt: "\<not> f x \<le> f (xs ! i)" if x: "x \<in> set (drop (Suc i) xs)" for x
  proof -
    obtain k where "k < length (drop (Suc i) xs)" "x = drop (Suc i) xs ! k"
      using x unfolding in_set_conv_nth by blast
    then have j: "Suc i + k < length xs" "x = xs ! (Suc i + k)" by simp_all
    with assms(1) have "map f xs ! i \<le> map f xs ! (Suc i + k)" by (intro sorted_nth_mono) simp_all
    moreover have "map f xs ! i \<noteq> map f xs ! (Suc i + k)" using assms(2) j(1) by (subst nth_eq_iff_index_eq) simp_all
    ultimately show ?thesis using j assms(3) by simp
  qed
  have "filter (\<lambda>x. f x \<le> f (xs ! i)) (take (Suc i) xs @ drop (Suc i) xs) = take (Suc i) xs"
    unfolding filter_append using le gt by (simp add: filter_True filter_False)
  then show ?thesis by simp
qed

lemma closed_candles_sorted: "sorted (map cd_open_time (closed_candles db s tf))"
  by (simp add: closed_candles_def)

lemma bulk_rows:
  assumes "compute_and_store_all P db s tf version table = Inr (table', n)" "closed_candles db s tf \<noteq> []"
  shows "upsert_features P s tf version (map cd_open_time (closed_candles db s tf))
    (combined_rows P (frame_of (closed_candles db s tf))) table = Inr (table', n)"
proof -
  have "frame_of (closed_candles db s tf) \<noteq> []" using assms(2) by (simp add: frame_of_def)
  with assms show ?thesis by (simp add: compute_and_store_all_def load_all combined_ok Let_def)
qed

section \<open>Beyond the lookback\<close>

text \<open>
  With more history than the lookback the two paths differ: a level set before the window is
  known to the bulk computation and gone for the live one.
\<close>

definition peak_then_flat :: "ohlcv list" where
  "peak_then_flat = map (\<lambda>i. plain_bar (if i = 5 then 2 else 1) 1) [0..<DEFAULT_LOOKBACK + 6]"

lemma last_resistance:
  assumes "df \<noteq> []"
  shows "sr_resistance (last (compute_structure w df)) = highs_level w df (length df)"
proof -
  have "compute_structure w df \<noteq> []" using assms by (metis compute_structure_length length_0_conv)
  then have "last (compute_structure w df) = compute_structure w df ! (length df - 1)" by (simp add: last_conv_nth)
  with resistance_level_at [of "length df - 1" df w] assms show ?thesis by simp
qed

lemma latest_forgets_levels:
  "sr_resistance (last (compute_structure SWING_WINDOW peak_then_flat)) \<noteq> None \<and>
   sr_resistance (last (compute_structure SWING_WINDOW
     (drop (length peak_then_flat - DEFAULT_LOOKBACK) peak_then_flat))) = None"
proof
  let ?live = "drop (length peak_then_flat - DEFAULT_LOOKBACK) peak_then_flat"
  have len: "length peak_then_flat = 266" "length ?live = 260"
    by (simp_all add: peak_then_flat_def DEFAULT_LOOKBACK_def REQUIRED_LOOKBACK_def LOOKBACK_BUFFER_def)
  then have ne: "peak_then_flat \<noteq> []" "?live \<noteq> []" by auto
  have at: "i < 266 \<Longrightarrow> oh_high (peak_then_flat ! i) = (if i = 5 then 2 else 1)" for i
    by (simp add: peak_then_flat_def plain_bar_def DEFAULT_LOOKBACK_def REQUIRED_LOOKBACK_def LOOKBACK_BUFFER_def)
  have "swing_high 5 peak_then_flat 5" by (simp add: swing_high_def len at)
  then have "5 \<in> set (filter (swing_high 5 peak_then_flat) [0..<266 - 5])" by simp
  then have "filter (swing_high 5 peak_then_flat) [0..<266 - 5] \<noteq> []" by (metis list.set(1) empty_iff)
  then show "sr_resistance (last (compute_structure SWING_WINDOW peak_then_flat)) \<noteq> None"
    unfolding last_resistance [OF ne(1)] highs_level_def confirmed_level_last SWING_WINDOW_def len by simp
  have live: "i < 260 \<Longrightarrow> oh_high (?live ! i) = 1" for i
    using at [of "i + 6"] by (simp add: len DEFAULT_LOOKBACK_def REQUIRED_LOOKBACK_def LOOKBACK_BUFFER_def add.commute)
  have "\<not> swing_high 5 ?live j" for j
  proof
    assume j: "swing_high 5 ?live j"
    then have "j + 5 < 260" unfolding swing_high_def len(2) by blast
    moreover have "Suc j \<in> {j - 5..j + 5} \<and> Suc j \<noteq> j" by simp
    then have "oh_high (?live ! Suc j) < oh_high (?live ! j)" using j unfolding swing_high_def by blast
    ultimately show False using live [of j] live [of "Suc j"] by simp
  qed
  then show "sr_resistance (last (compute_structure SWING_WINDOW ?live)) = None"
    unfolding last_resistance [OF ne(2)] highs_level_def confirmed_level_last SWING_WINDOW_def by simp
qed

section \<open>Properties\<close>

text \<open>
  C32: no stored feature looks ahead. After the bulk computation every closed candle of the pair has its one
  row, and what is stored for a candle is what its own and the earlier closed candles alone
  give, whatever came later; rows of other pairs or versions are left as they were.
\<close>

theorem stored_features_no_lookahead:
  assumes "causal_pandas P" "distinct (map feature_key table)"
    "compute_and_store_all P db s tf version table = Inr (table', n)"
  shows "n = length (closed_candles db s tf) \<and> distinct (map feature_key table') \<and>
    (\<forall>c \<in> set (closed_candles db s tf). \<exists>row \<in> set table'. feature_key row = (s, tf, cd_open_time c, version) \<and>
       ft_features row = stored_as P (last (combined_rows P (frame_of
         (filter (\<lambda>d. cd_open_time d \<le> cd_open_time c) (closed_candles db s tf)))))) \<and>
    (\<forall>q \<in> set table. (ft_symbol q, ft_timeframe q, ft_feature_version q) \<noteq> (s, tf, version) \<longrightarrow> q \<in> set table')"
proof (cases "closed_candles db s tf = []")
  case True
  with assms show ?thesis by (simp add: compute_and_store_all_def load_all)
next
  case False
  let ?cs = "closed_candles db s tf"
  let ?rows = "combined_rows P (frame_of ?cs)"
  note up = upsert_features_result [OF bulk_rows [OF assms(3) False] _ assms(2), unfolded combined_length
    frame_of_length length_map, OF refl]
  have "\<exists>row \<in> set table'. feature_key row = (s, tf, cd_open_time c, version) \<and>
       ft_features row = stored_as P (last (combined_rows P (frame_of (filter (\<lambda>d. cd_open_time d \<le> cd_open_time c) ?cs))))"
    if c: "c \<in> set ?cs" for c
  proof -
    obtain i where i: "i < length ?cs" "c = ?cs ! i" using c unfolding in_set_conv_nth by blast
    have "filter (\<lambda>d. cd_open_time d \<le> cd_open_time c) ?cs = take (Suc i) ?cs"
      unfolding i(2) by (rule sorted_prefix [OF closed_candles_sorted up(3) i(1)])
    then have "?rows ! i = last (combined_rows P (frame_of (filter (\<lambda>d. cd_open_time d \<le> cd_open_time c) ?cs)))"
      using causal_series.row_is_last [OF causal_series.intro [OF combined_causal [OF assms(1)]], of i "frame_of ?cs"] i(1)
      by (simp add: frame_of_take)
    with up(4) [OF i(1)] i show ?thesis by auto
  qed
  moreover have "q \<in> set table'" if "q \<in> set table" "(ft_symbol q, ft_timeframe q, ft_feature_version q) \<noteq> (s, tf, version)" for q
    using that by (intro up(5)) (auto simp: feature_key_def)
  ultimately show ?thesis using up(1,2) by (intro conjI ballI impI) simp_all
qed

definition feature_candle :: "int \<Rightarrow> rat \<Rightarrow> candle" where
  "feature_candle t price = \<lparr>cd_symbol = ''BTCUSDT'', cd_timeframe = ''1h'', cd_open_time = t, cd_close_time = t + 1,
     cd_open = price, cd_high = price, cd_low = price, cd_close = price, cd_volume = 1, cd_quote_volume = None,
     cd_trades = None, cd_is_closed = True, cd_source = ''binance''\<rparr>"

definition two_candles :: "candle list" where
  "two_candles = [feature_candle 1 10, feature_candle 2 11]"

lemma two_candles_closed: "closed_candles two_candles ''BTCUSDT'' ''1h'' = two_candles"
  by (simp add: closed_candles_def two_candles_def feature_candle_def)

lemma pair_of_rows: "length rows = 2 \<Longrightarrow> \<exists>a b. rows = [a, b]"
  by (cases rows) (auto simp: length_Suc_conv)

lemma two_candles_stored:
  "\<exists>table'. compute_and_store_all exact_pandas two_candles ''BTCUSDT'' ''1h'' ''v1'' [] = Inr (table', 2)"
proof -
  obtain a b where rows: "combined_rows exact_pandas (frame_of two_candles) = [a, b]"
    using pair_of_rows [of "combined_rows exact_pandas (frame_of two_candles)"] by (auto simp: two_candles_def)
  have ne: "two_candles \<noteq> []" "frame_of two_candles \<noteq> []" by (simp_all add: two_candles_def frame_of_def)
  have ots: "map cd_open_time two_candles = [1, 2]" by (simp add: two_candles_def feature_candle_def)
  show ?thesis
    by (simp add: compute_and_store_all_def load_all two_candles_closed ne combined_ok rows ots upsert_features_def
        Let_def)
qed

theorem stored_features_no_lookahead_witness:
  "\<exists>table'. compute_and_store_all exact_pandas two_candles ''BTCUSDT'' ''1h'' ''v1'' [] = Inr (table', 2) \<and>
    (\<exists>row \<in> set table'. feature_key row = (''BTCUSDT'', ''1h'', 1, ''v1'') \<and>
       ft_features row = stored_as exact_pandas (last (combined_rows exact_pandas (frame_of [feature_candle 1 10]))))"
proof -
  obtain table' where t: "compute_and_store_all exact_pandas two_candles ''BTCUSDT'' ''1h'' ''v1'' [] = Inr (table', 2)"
    using two_candles_stored by blast
  have first: "feature_candle 1 10 \<in> set two_candles" by (simp add: two_candles_def)
  have "filter (\<lambda>d. cd_open_time d \<le> cd_open_time (feature_candle 1 10)) two_candles = [feature_candle 1 10]"
    "cd_open_time (feature_candle 1 10) = 1"
    by (simp_all add: two_candles_def feature_candle_def)
  with stored_features_no_lookahead [OF exact_pandas_causal _ t] first t show ?thesis
    by (fastforce simp: two_candles_closed)
qed

lemma latest_result:
  assumes "compute_latest P db s tf version table = Inr (table', True)" "distinct (map feature_key table)"
    "length (closed_candles db s tf) \<le> DEFAULT_LOOKBACK"
  shows "closed_candles db s tf \<noteq> [] \<and>
    (\<exists>row \<in> set table'. feature_key row = (s, tf, cd_open_time (last (closed_candles db s tf)), version) \<and>
       ft_features row = stored_as P (last (combined_rows P (frame_of (closed_candles db s tf))))) \<and>
    (\<forall>q \<in> set table. feature_key q \<noteq> (s, tf, cd_open_time (last (closed_candles db s tf)), version) \<longrightarrow> q \<in> set table')"
proof -
  let ?cs = "closed_candles db s tf"
  have load: "load_candles db s tf (Some DEFAULT_LOOKBACK) = ?cs" using assms(3) by (simp add: load_limit)
  have ne: "?cs \<noteq> []" using assms(1) by (auto simp: compute_latest_def load Let_def)
  then have "frame_of ?cs \<noteq> []" by (simp add: frame_of_def)
  with assms(1) ne obtain n where up: "upsert_features P s tf version [cd_open_time (last ?cs)]
      [last (combined_rows P (frame_of ?cs))] table = Inr (table', n)"
    by (auto simp: compute_latest_def load Let_def combined_ok elim!: map_sum_Inr_cases)
  note res = upsert_features_result [OF up _ assms(2)]
  show ?thesis using ne res(4) [of 0] res(5) by auto
qed

text \<open>
  The live path agrees with the bulk path. While the pair has no more closed candles than the lookback,
  what \<open>compute_latest\<close> stores for the newest candle is what the bulk computation stores for it, and it
  touches no other row.
\<close>

theorem latest_agrees_with_bulk:
  assumes "causal_pandas P" "distinct (map feature_key table)" "length (closed_candles db s tf) \<le> DEFAULT_LOOKBACK"
    "compute_latest P db s tf version table = Inr (live, True)"
    "compute_and_store_all P db s tf version table = Inr (bulk, n)"
  shows "\<exists>row \<in> set live. \<exists>row' \<in> set bulk.
      feature_key row = (s, tf, cd_open_time (last (closed_candles db s tf)), version) \<and>
      feature_key row' = feature_key row \<and> ft_features row' = ft_features row \<and>
      (\<forall>q \<in> set table. feature_key q \<noteq> feature_key row \<longrightarrow> q \<in> set live)"
proof -
  let ?cs = "closed_candles db s tf"
  note live = latest_result [OF assms(4,2,3)]
  then have ne: "?cs \<noteq> []" by simp
  note up = upsert_features_result [OF bulk_rows [OF assms(5) ne] _ assms(2), unfolded combined_length
    frame_of_length length_map, OF refl]
  have "length ?cs - 1 < length ?cs" using ne by simp
  note bulk = up(4) [OF this]
  have "combined_rows P (frame_of ?cs) \<noteq> []" using ne by (metis combined_length frame_of_length length_0_conv)
  then have "combined_rows P (frame_of ?cs) ! (length ?cs - 1) = last (combined_rows P (frame_of ?cs))"
    by (simp add: last_conv_nth)
  moreover have "map cd_open_time ?cs ! (length ?cs - 1) = cd_open_time (last ?cs)" using ne by (simp add: last_conv_nth)
  ultimately obtain row' where "row' \<in> set bulk"
    "feature_key row' = (s, tf, cd_open_time (last ?cs), version)"
    "ft_features row' = stored_as P (last (combined_rows P (frame_of ?cs)))"
    using bulk by metis
  with live show ?thesis by metis
qed

theorem latest_agrees_with_bulk_witness:
  "\<exists>live bulk. compute_latest exact_pandas two_candles ''BTCUSDT'' ''1h'' ''v1'' [] = Inr (live, True) \<and>
    compute_and_store_all exact_pandas two_candles ''BTCUSDT'' ''1h'' ''v1'' [] = Inr (bulk, 2) \<and>
    (\<exists>row \<in> set live. \<exists>row' \<in> set bulk. feature_key row = (''BTCUSDT'', ''1h'', 2, ''v1'') \<and> ft_features row' = ft_features row)"
proof -
  obtain bulk where b: "compute_and_store_all exact_pandas two_candles ''BTCUSDT'' ''1h'' ''v1'' [] = Inr (bulk, 2)"
    using two_candles_stored by blast
  have few: "length (closed_candles two_candles ''BTCUSDT'' ''1h'') \<le> DEFAULT_LOOKBACK"
    unfolding two_candles_closed by (simp add: two_candles_def DEFAULT_LOOKBACK_def REQUIRED_LOOKBACK_def LOOKBACK_BUFFER_def)
  then have load: "load_candles two_candles ''BTCUSDT'' ''1h'' (Some DEFAULT_LOOKBACK) = two_candles"
    by (simp add: load_limit two_candles_closed)
  have ne: "two_candles \<noteq> []" "frame_of two_candles \<noteq> []" by (simp_all add: two_candles_def frame_of_def)
  obtain live where l: "compute_latest exact_pandas two_candles ''BTCUSDT'' ''1h'' ''v1'' [] = Inr (live, True)"
    by (simp add: compute_latest_def load ne combined_ok upsert_features_def Let_def)
  have "cd_open_time (last two_candles) = 2" by (simp add: two_candles_def feature_candle_def)
  with latest_agrees_with_bulk [OF exact_pandas_causal _ few l b] l b show ?thesis
    by (fastforce simp: two_candles_closed)
qed

end
