(* ===== verification/EventBus.thy ===== *)
theory EventBus
  imports Json "HOL-Library.List_Lexorder" "HOL-Library.Char_ord" "HOL-Library.Sublist"
begin

text \<open>
  \<open>core/events.py\<close> and \<open>websocket/event_bus.py\<close>: the event envelope and the bus that fans it out
  to bounded queues. Every method runs without an \<open>await\<close> inside, so it is one step. The locale
  \<open>lossy_queue\<close> states what a queue that drops its oldest entries promises.
\<close>

section \<open>Events\<close>

datatype event_type =
    MARKET_UPDATE | TICKER_UPDATE | CANDLE_CLOSED
  | SIGNAL_CREATED | SIGNAL_UPDATED
  | ORDER_CREATED | ORDER_UPDATED | ORDER_FILLED | POSITION_UPDATED | PORTFOLIO_UPDATED
  | RISK_EVENT
  | MODEL_STATUS | TRAINING_STATUS | BACKTEST_STATUS
  | NEWS_UPDATE
  | SYSTEM_STATUS | LOG_EVENT
  | HEARTBEAT | SUBSCRIPTION_UPDATED | EvERROR

definition event_types :: "event_type list" where
  "event_types = [MARKET_UPDATE, TICKER_UPDATE, CANDLE_CLOSED, SIGNAL_CREATED, SIGNAL_UPDATED,
     ORDER_CREATED, ORDER_UPDATED, ORDER_FILLED, POSITION_UPDATED, PORTFOLIO_UPDATED, RISK_EVENT,
     MODEL_STATUS, TRAINING_STATUS, BACKTEST_STATUS, NEWS_UPDATE, SYSTEM_STATUS, LOG_EVENT,
     HEARTBEAT, SUBSCRIPTION_UPDATED, EvERROR]"

fun event_value :: "event_type \<Rightarrow> string" where
  "event_value MARKET_UPDATE = ''market_update''"
| "event_value TICKER_UPDATE = ''ticker_update''"
| "event_value CANDLE_CLOSED = ''candle_closed''"
| "event_value SIGNAL_CREATED = ''signal_created''"
| "event_value SIGNAL_UPDATED = ''signal_updated''"
| "event_value ORDER_CREATED = ''order_created''"
| "event_value ORDER_UPDATED = ''order_updated''"
| "event_value ORDER_FILLED = ''order_filled''"
| "event_value POSITION_UPDATED = ''position_updated''"
| "event_value PORTFOLIO_UPDATED = ''portfolio_updated''"
| "event_value RISK_EVENT = ''risk_event''"
| "event_value MODEL_STATUS = ''model_status''"
| "event_value TRAINING_STATUS = ''training_status''"
| "event_value BACKTEST_STATUS = ''backtest_status''"
| "event_value NEWS_UPDATE = ''news_update''"
| "event_value SYSTEM_STATUS = ''system_status''"
| "event_value LOG_EVENT = ''log_event''"
| "event_value HEARTBEAT = ''heartbeat''"
| "event_value SUBSCRIPTION_UPDATED = ''subscription_updated''"
| "event_value EvERROR = ''error''"

record event =
  ev_event :: event_type
  ev_timestamp :: int
  ev_data :: payload

text \<open>\<open>Event.of\<close>; the time is an argument.\<close>

definition event_of :: "int \<Rightarrow> event_type \<Rightarrow> payload \<Rightarrow> event" where
  "event_of now t d = \<lparr>ev_event = t, ev_timestamp = now, ev_data = d\<rparr>"

text \<open>\<open>EventType(name)\<close> on a decoded value; \<open>None\<close> when it raises \<open>ValueError\<close>.\<close>

definition parse_event_type :: "json \<Rightarrow> event_type option" where
  "parse_event_type j = (case j of
     JStr s \<Rightarrow> List.find (\<lambda>t. event_value t = s) event_types
   | _ \<Rightarrow> None)"

lemma event_types_all [simp]: "t \<in> set event_types"
  by (cases t) (simp_all add: event_types_def)

lemma set_event_types [simp]: "set event_types = UNIV"
  using event_types_all by blast

lemma parse_event_value [simp]: "parse_event_type (JStr (event_value t)) = Some t"
  by (cases t) (simp_all add: parse_event_type_def event_types_def)

lemma parse_event_type_iff: "parse_event_type j = Some t \<longleftrightarrow> j = JStr (event_value t)"
proof
  assume "parse_event_type j = Some t"
  then show "j = JStr (event_value t)"
    by (auto simp: parse_event_type_def find_Some_iff split: json.splits)
qed simp

section \<open>Queues that drop their oldest entry\<close>

datatype 'a queue_op = Put 'a | Take

fun queue_run ::
  "('a \<Rightarrow> 'q \<Rightarrow> 'q) \<Rightarrow> ('q \<Rightarrow> ('a \<times> 'q) option) \<Rightarrow> 'a queue_op list \<Rightarrow> 'q \<Rightarrow> 'a list \<times> 'q" where
  "queue_run put pop [] q = ([], q)"
| "queue_run put pop (Put x # ops) q = queue_run put pop ops (put x q)"
| "queue_run put pop (Take # ops) q =
     (case pop q of
        None \<Rightarrow> queue_run put pop ops q
      | Some (x, q') \<Rightarrow> map_prod (Cons x) id (queue_run put pop ops q'))"

definition puts :: "'a queue_op list \<Rightarrow> 'a list" where
  "puts ops = List.map_filter (\<lambda>p. case p of Put x \<Rightarrow> Some x | Take \<Rightarrow> None) ops"

lemma puts_simps [simp]: "puts [] = []" "puts (Put x # ops) = x # puts ops" "puts (Take # ops) = puts ops"
  by (simp_all add: puts_def List.map_filter_simps)

locale lossy_queue =
  fixes put :: "'a \<Rightarrow> 'q \<Rightarrow> 'q" and pop :: "'q \<Rightarrow> ('a \<times> 'q) option"
    and items :: "'q \<Rightarrow> 'a list" and lost :: "'q \<Rightarrow> nat" and ok :: "'q \<Rightarrow> bool"
  assumes put_ok: "ok q \<Longrightarrow> ok (put x q)"
    and put_drops: "ok q \<Longrightarrow> \<exists>j. j \<le> length (items q) \<and> items (put x q) = drop j (items q) @ [x] \<and>
      lost (put x q) = lost q + j"
    and pop_ok: "ok q \<Longrightarrow> pop q = Some (x, q') \<Longrightarrow> ok q'"
    and pop_first: "ok q \<Longrightarrow> pop q = Some (x, q') \<Longrightarrow> items q = x # items q' \<and> lost q' = lost q"
begin

lemma run_ok: "ok q \<Longrightarrow> queue_run put pop ops q = (xs, q') \<Longrightarrow> ok q'"
proof (induction ops arbitrary: q xs)
  case (Cons p ops)
  show ?case
  proof (cases p)
    case (Put x)
    with Cons.prems show ?thesis by (auto intro: Cons.IH [OF put_ok])
  next
    case Take
    with Cons show ?thesis
      by (cases "pop q") (auto simp: map_prod_def split: prod.splits intro: pop_ok)
  qed
qed simp

text \<open>
  What is left is the newest part of everything that was there or was put, what was taken came
  in order, and every entry was taken, lost or is still there.
\<close>

lemma run_keeps_newest:
  assumes "ok q" "queue_run put pop ops q = (xs, q')"
  shows "\<exists>k \<le> length (items q @ puts ops). items q' = drop k (items q @ puts ops) \<and>
    subseq xs (take k (items q @ puts ops)) \<and> lost q + k = lost q' + length xs"
  using assms
proof (induction ops arbitrary: q xs)
  case Nil
  then show ?case by auto
next
  case (Cons p ops)
  show ?case
  proof (cases p)
    case (Put x)
    obtain j where j: "j \<le> length (items q)" "items (put x q) = drop j (items q) @ [x]"
      "lost (put x q) = lost q + j"
      using put_drops [OF Cons.prems(1)] by blast
    obtain k where k: "k \<le> length (items (put x q) @ puts ops)"
      "items q' = drop k (items (put x q) @ puts ops)" "subseq xs (take k (items (put x q) @ puts ops))"
      "lost (put x q) + k = lost q' + length xs"
      using Cons.IH [OF put_ok [OF Cons.prems(1)], of x xs] Cons.prems(2) Put by auto
    let ?all = "items q @ x # puts ops"
    have d: "items (put x q) @ puts ops = drop j ?all" using j by simp
    have "take (j + k) ?all = take j ?all @ take k (drop j ?all)" by (rule take_add)
    then have "subseq xs (take (j + k) ?all)" using k(3) d by (metis list_emb_append2)
    moreover have "items q' = drop (j + k) ?all" using k(2) unfolding d by (simp only: drop_drop add.commute)
    moreover have "j + k \<le> length ?all" using k(1) j by simp
    ultimately show ?thesis using Put k(4) j(3) by (intro exI [of _ "j + k"]) simp
  next
    case Take
    show ?thesis
    proof (cases "pop q")
      case None
      with Take Cons show ?thesis by simp
    next
      case (Some r)
      then obtain x q1 where r: "pop q = Some (x, q1)" by (cases r) auto
      obtain ys where ys: "queue_run put pop ops q1 = (ys, q')" "xs = x # ys"
        using Cons.prems(2) Take r by (auto simp: map_prod_def split: prod.splits)
      have q: "items q = x # items q1" "lost q1 = lost q" using pop_first [OF Cons.prems(1) r] by auto
      obtain k where "k \<le> length (items q1 @ puts ops)" "items q' = drop k (items q1 @ puts ops)"
        "subseq ys (take k (items q1 @ puts ops))" "lost q1 + k = lost q' + length ys"
        using Cons.IH [OF pop_ok [OF Cons.prems(1) r] ys(1)] by auto
      with q ys(2) Take show ?thesis by (intro exI [of _ "Suc k"]) simp
    qed
  qed
qed

end

section \<open>Subscribers\<close>

text \<open>An \<open>asyncio.Queue\<close> without a positive size is unbounded.\<close>

record subscriber =
  sb_maxsize :: int
  sb_queue :: "event list"
  sb_topics :: "event_type set option"
  sb_dropped :: nat

definition new_subscriber :: "int \<Rightarrow> event_type set option \<Rightarrow> subscriber" where
  "new_subscriber maxsize topics = \<lparr>sb_maxsize = maxsize, sb_queue = [], sb_topics = topics, sb_dropped = 0\<rparr>"

definition wants :: "subscriber \<Rightarrow> event \<Rightarrow> bool" where
  "wants s e = (case sb_topics s of None \<Rightarrow> True | Some T \<Rightarrow> ev_event e \<in> T)"

text \<open>\<open>put_nowait\<close> and \<open>get_nowait\<close>; \<open>None\<close> for \<open>QueueFull\<close> and \<open>QueueEmpty\<close>.\<close>

definition put_nowait :: "event \<Rightarrow> subscriber \<Rightarrow> subscriber option" where
  "put_nowait e s =
     (if 0 < sb_maxsize s \<and> sb_maxsize s \<le> int (length (sb_queue s)) then None
      else Some (s\<lparr>sb_queue := sb_queue s @ [e]\<rparr>))"

definition get_nowait :: "subscriber \<Rightarrow> (event \<times> subscriber) option" where
  "get_nowait s = (case sb_queue s of [] \<Rightarrow> None | e # q \<Rightarrow> Some (e, s\<lparr>sb_queue := q\<rparr>))"

definition offer :: "event \<Rightarrow> subscriber \<Rightarrow> subscriber" where
  "offer e s =
     (case put_nowait e s of
        Some s' \<Rightarrow> s'
      | None \<Rightarrow>
          (let s1 = (case get_nowait s of None \<Rightarrow> s | Some (_, s') \<Rightarrow> s');
               s2 = s1\<lparr>sb_dropped := sb_dropped s1 + 1\<rparr>
           in case put_nowait e s2 of Some s3 \<Rightarrow> s3 | None \<Rightarrow> s2))"

definition sized :: "int \<Rightarrow> subscriber \<Rightarrow> bool" where
  "sized m s \<longleftrightarrow> sb_maxsize s = m \<and> (0 < m \<longrightarrow> int (length (sb_queue s)) \<le> m)"

lemma offer_full:
  assumes "sized m s" "0 < sb_maxsize s" "sb_maxsize s \<le> int (length (sb_queue s))"
  shows "offer e s = s\<lparr>sb_queue := tl (sb_queue s) @ [e], sb_dropped := sb_dropped s + 1\<rparr>"
  using assms by (cases "sb_queue s") (auto simp: offer_def put_nowait_def get_nowait_def sized_def Let_def)

lemma offer_room:
  "\<not> (0 < sb_maxsize s \<and> sb_maxsize s \<le> int (length (sb_queue s))) \<Longrightarrow> offer e s = s\<lparr>sb_queue := sb_queue s @ [e]\<rparr>"
  unfolding offer_def put_nowait_def by (simp only: if_False option.case)

lemma offer_keeps [simp]: "sb_maxsize (offer e s) = sb_maxsize s" "sb_topics (offer e s) = sb_topics s"
  by (auto simp: offer_def put_nowait_def get_nowait_def Let_def split: option.split list.split)

lemma offer_sized:
  assumes "sized m s"
  shows "sized m (offer e s)"
proof (cases "0 < sb_maxsize s \<and> sb_maxsize s \<le> int (length (sb_queue s))")
  case True
  then have "offer e s = s\<lparr>sb_queue := tl (sb_queue s) @ [e], sb_dropped := sb_dropped s + 1\<rparr>"
    using offer_full [OF assms] by simp
  moreover have "sb_queue s \<noteq> []" using True by auto
  ultimately show ?thesis using assms by (simp add: sized_def Suc_leI)
qed (use assms in \<open>auto simp: offer_room sized_def\<close>)

interpretation subscribers: lossy_queue offer get_nowait sb_queue sb_dropped "sized m" for m
proof unfold_locales
  fix s e
  assume s: "sized m s"
  then show "sized m (offer e s)" by (rule offer_sized)
  show "\<exists>j \<le> length (sb_queue s). sb_queue (offer e s) = drop j (sb_queue s) @ [e] \<and>
      sb_dropped (offer e s) = sb_dropped s + j"
  proof (cases "0 < sb_maxsize s \<and> sb_maxsize s \<le> int (length (sb_queue s))")
    case True
    then have "sb_queue s \<noteq> []" by auto
    with True s show ?thesis
      by (intro exI [of _ 1]) (simp add: offer_full drop_Suc Suc_leI)
  qed (simp add: offer_room exI [of _ 0])
next
  fix s e s'
  assume "sized m s" "get_nowait s = Some (e, s')"
  then show "sized m s'" "sb_queue s = e # sb_queue s' \<and> sb_dropped s' = sb_dropped s"
    by (auto simp: get_nowait_def sized_def split: list.splits)
qed

section \<open>The bus\<close>

text \<open>Subscribers are objects: the bus holds their identities, the store their state.\<close>

record bus =
  bs_queue_size :: int
  bs_store :: "(nat, subscriber) dict"
  bs_members :: "nat list"

definition new_bus :: "int \<Rightarrow> bus" where
  "new_bus maxsize = \<lparr>bs_queue_size = maxsize, bs_store = [], bs_members = []\<rparr>"

definition subscriber_count :: "bus \<Rightarrow> nat" where
  "subscriber_count b = length (bs_members b)"

definition publish :: "event \<Rightarrow> bus \<Rightarrow> bus" where
  "publish e b = b\<lparr>bs_store :=
     map (\<lambda>(i, s). (i, if i \<in> set (bs_members b) \<and> wants s e then offer e s else s)) (bs_store b)\<rparr>"

definition add_subscriber :: "nat \<Rightarrow> bus \<Rightarrow> bus" where
  "add_subscriber i b = b\<lparr>bs_members := List.insert i (bs_members b)\<rparr>"

definition remove_subscriber :: "nat \<Rightarrow> bus \<Rightarrow> bus" where
  "remove_subscriber i b = b\<lparr>bs_members := removeAll i (bs_members b)\<rparr>"

text \<open>Entering and leaving \<open>subscribe\<close>, with a new identity; leaving says how many were dropped.\<close>

definition subscribe_enter :: "nat \<Rightarrow> event_type set option \<Rightarrow> bus \<Rightarrow> bus" where
  "subscribe_enter i topics b =
     add_subscriber i (b\<lparr>bs_store := AList.update i (new_subscriber (bs_queue_size b) topics) (bs_store b)\<rparr>)"

definition subscribe_exit :: "nat \<Rightarrow> bus \<Rightarrow> bus" where
  "subscribe_exit i b = remove_subscriber i b"

lemma publish_store:
  "map_of (bs_store (publish e b)) i =
     map_option (\<lambda>s. if i \<in> set (bs_members b) \<and> wants s e then offer e s else s) (map_of (bs_store b) i)"
proof -
  have "map_of (map (\<lambda>(k, s). (k, f k s)) d) i = map_option (f i) (map_of d i)" for f :: "nat \<Rightarrow> subscriber \<Rightarrow> subscriber" and d
    by (induction d) auto
  then show ?thesis by (simp add: publish_def)
qed

lemma publish_members [simp]: "bs_members (publish e b) = bs_members b" "bs_queue_size (publish e b) = bs_queue_size b"
  by (simp_all add: publish_def)

section \<open>The streamed log\<close>

text \<open>\<open>monitoring/log_stream.py\<close>: which records become events.\<close>

record log_record =
  lg_levelno :: int
  lg_levelname :: string
  lg_name :: string
  lg_message :: string
  lg_extra :: payload

definition STREAMED_EVENT_PREFIXES :: "string list" where
  "STREAMED_EVENT_PREFIXES = [''trade_'', ''risk_'', ''model_'', ''signal_'', ''order_'', ''position_'']"

definition should_stream :: "int \<Rightarrow> log_record \<Rightarrow> bool" where
  "should_stream min_level r \<longleftrightarrow> min_level \<le> lg_levelno r \<or>
     list_ex (\<lambda>p. prefix p (py_str (dict_get (lg_extra r) ''event_type'' (JStr '''')))) STREAMED_EVENT_PREFIXES"

definition emit :: "int \<Rightarrow> int \<Rightarrow> log_record \<Rightarrow> bus \<Rightarrow> bus" where
  "emit min_level now r b =
     (if \<not> should_stream min_level r then b
      else publish (event_of now LOG_EVENT
        [(''level'', JStr (lg_levelname r)),
         (''component'', dict_get (lg_extra r) ''component'' (JStr (lg_name r))),
         (''event_type'', dict_get (lg_extra r) ''event_type'' (JStr ''log'')),
         (''message'', JStr (lg_message r))]) b)"

section \<open>Properties\<close>

text \<open>
  A slow client loses its oldest events and nothing else. Whatever is offered to a new
  subscriber's queue and whenever it takes, the queue never exceeds its size, what it still
  holds is the newest part of what was offered, what was taken was taken in order, and every event was
  taken, counted as dropped or is still there.
\<close>

theorem queue_drops_oldest_only:
  assumes "queue_run offer get_nowait ops (new_subscriber maxsize topics) = (taken, s)"
  shows "(0 < maxsize \<longrightarrow> int (length (sb_queue s)) \<le> maxsize) \<and>
    (\<exists>k \<le> length (puts ops). sb_queue s = drop k (puts ops) \<and> subseq taken (take k (puts ops)) \<and>
       k = sb_dropped s + length taken)"
proof
  have new: "sized maxsize (new_subscriber maxsize topics)" by (simp add: sized_def new_subscriber_def)
  show "0 < maxsize \<longrightarrow> int (length (sb_queue s)) \<le> maxsize"
    using subscribers.run_ok [OF new assms] by (simp add: sized_def)
  show "\<exists>k \<le> length (puts ops). sb_queue s = drop k (puts ops) \<and> subseq taken (take k (puts ops)) \<and>
      k = sb_dropped s + length taken"
    using subscribers.run_keeps_newest [OF new assms] by (auto simp: new_subscriber_def)
qed

theorem queue_drops_oldest_only_witness:
  "\<exists>taken s. queue_run offer get_nowait
       (map (\<lambda>i. Put (event_of i HEARTBEAT [])) [1, 2, 3] @ [Take]) (new_subscriber 2 None) = (taken, s) \<and>
     length (sb_queue s) \<le> 2 \<and> (\<exists>k \<le> 3. k = sb_dropped s + length taken)"
proof -
  let ?ops = "map (\<lambda>i. Put (event_of i HEARTBEAT [])) [1, 2, 3] @ [Take]"
  obtain taken s where r: "queue_run offer get_nowait ?ops (new_subscriber 2 None) = (taken, s)" by fastforce
  have "length (puts ?ops) = 3" by simp
  with queue_drops_oldest_only [OF r] r show ?thesis by (intro exI [of _ taken] exI [of _ s]) auto
qed

end
