(* ===== verification/MarketStream.thy ===== *)
theory MarketStream
  imports StreamClient Ingestion FeatureEngine EventBus
begin

text \<open>
  \<open>workers/market_stream.py\<close>: the bridge that turns stream frames into stored candles, feature rows and
  events on the bus. Its state is the database it writes, the bus and its two counters. The
  environment says, for the \<open>n\<close>-th frame handled, what the clock shows and whether the database answers.
\<close>

datatype outage = DbUp | DbDown | DbLostAfterCandle

record 'v bridge_env =
  be_pandas :: "'v pandas"
  be_quantize :: "nat \<Rightarrow> rat \<Rightarrow> rat"
  be_feature_version :: string
  be_now :: "nat \<Rightarrow> int"
  be_outage :: "nat \<Rightarrow> outage"

record bridge =
  br_db :: market_db
  br_features :: "feature_row list"
  br_bus :: bus
  br_closed_candles :: nat
  br_ticker_updates :: nat
  br_handled :: nat

definition new_bridge :: "market_db \<Rightarrow> feature_row list \<Rightarrow> bus \<Rightarrow> bridge" where
  "new_bridge db features b = \<lparr>br_db = db, br_features = features, br_bus = b, br_closed_candles = 0,
     br_ticker_updates = 0, br_handled = 0\<rparr>"

section \<open>Subscriptions\<close>

fun timeframe_value :: "timeframe \<Rightarrow> string" where
  "timeframe_value D1 = ''1d''"
| "timeframe_value H4 = ''4h''"
| "timeframe_value H1 = ''1h''"
| "timeframe_value M15 = ''15m''"

definition bridge_streams :: "trading_config \<Rightarrow> string list" where
  "bridge_streams t = concat (map (\<lambda>s. ticker_stream s #
     map (\<lambda>tf. kline_stream s (timeframe_value tf)) (tc_timeframes t)) (tc_assets t))"

section \<open>Closed candles\<close>

definition candle_closed_data :: "stream_event \<Rightarrow> payload" where
  "candle_closed_data e =
     [(''symbol'', JStr (se_symbol e)), (''timeframe'', JStr (se_timeframe e)),
      (''open_time_ms'', JInt (se_open_time_ms e)), (''close_time_ms'', JInt (se_close_time_ms e)),
      (''open'', JStr (py_str (se_open e))), (''high'', JStr (py_str (se_high e))),
      (''low'', JStr (py_str (se_low e))), (''close'', JStr (py_str (se_close e))),
      (''volume'', JStr (py_str (se_volume e))), (''trades'', JInt (se_trades e))]"

text \<open>
  \<open>_persist_and_compute_features\<close>: every failure is logged and swallowed. Storing the candle commits, so
  a failure after it leaves the candle and not its features.
\<close>

definition persist_and_compute_features :: "'v bridge_env \<Rightarrow> stream_event \<Rightarrow> bridge \<Rightarrow> bridge" where
  "persist_and_compute_features E e b =
     (case from_stream_event e of
        Inl _ \<Rightarrow> b
      | Inr k \<Rightarrow>
          if be_outage E (br_handled b) = DbDown then b
          else (case persist_closed_candle (be_quantize E) ''BINANCE'' k (br_db b) of
              (_, Inl _) \<Rightarrow> b
            | (db, Inr _) \<Rightarrow>
                (let b1 = b\<lparr>br_db := db\<rparr> in
                 if be_outage E (br_handled b) = DbLostAfterCandle then b1
                 else case compute_latest (be_pandas E) (md_candles db) (kl_symbol k) (kl_timeframe k)
                     (be_feature_version E) (br_features b) of
                   Inl _ \<Rightarrow> b1
                 | Inr (table, _) \<Rightarrow> b1\<lparr>br_features := table\<rparr>)))"

definition handle_kline :: "'v bridge_env \<Rightarrow> payload \<Rightarrow> bridge \<Rightarrow> bridge" where
  "handle_kline E data b =
     (case parse_kline_event data of
        None \<Rightarrow> b
      | Some e \<Rightarrow>
          if \<not> se_is_closed e then b
          else let b1 = persist_and_compute_features E e (b\<lparr>br_closed_candles := br_closed_candles b + 1\<rparr>)
            in b1\<lparr>br_bus := publish (event_of (be_now E (br_handled b)) CANDLE_CLOSED (candle_closed_data e)) (br_bus b1)\<rparr>)"

section \<open>Tickers\<close>

text \<open>\<open>data.get(key)\<close>, where a \<open>null\<close> is the same as nothing.\<close>

definition given :: "payload \<Rightarrow> string \<Rightarrow> json option" where
  "given data key = (case map_of data key of Some JNull \<Rightarrow> None | v \<Rightarrow> v)"

definition ticker_data :: "payload \<Rightarrow> payload option" where
  "ticker_data data = (case (map_of data ''s'', given data ''b'', given data ''a'') of
     (Some (JStr s), Some bid, Some ask) \<Rightarrow>
       Some [(''symbol'', JStr (upper s)), (''bid'', JStr (py_str bid)), (''ask'', JStr (py_str ask)),
         (''bid_qty'', JStr (py_str (dict_get data ''B'' (JStr '''')))),
         (''ask_qty'', JStr (py_str (dict_get data ''A'' (JStr ''''))))]
   | _ \<Rightarrow> None)"

definition handle_ticker :: "'v bridge_env \<Rightarrow> payload \<Rightarrow> bridge \<Rightarrow> bridge" where
  "handle_ticker E data b =
     (case ticker_data data of
        None \<Rightarrow> b
      | Some d \<Rightarrow> b\<lparr>br_ticker_updates := br_ticker_updates b + 1,
          br_bus := publish (event_of (be_now E (br_handled b)) TICKER_UPDATE d) (br_bus b)\<rparr>)"

section \<open>Frames\<close>

text \<open>\<open>"@kline_" in stream\<close> is the sublist relation on characters.\<close>

definition handle_frame :: "'v bridge_env \<Rightarrow> string \<Rightarrow> payload \<Rightarrow> bridge \<Rightarrow> bridge" where
  "handle_frame E stream data b =
     (let b1 = (if sublist ''@kline_'' stream then handle_kline E data b
         else if sublist ''@bookTicker'' stream then handle_ticker E data b else b)
      in b1\<lparr>br_handled := br_handled b + 1\<rparr>)"

text \<open>\<open>start_market_streams\<close>: the client runs with the bridge as its callback.\<close>

definition start_market_streams ::
  "'v bridge_env \<Rightarrow> trading_config \<Rightarrow> connection_attempt list \<Rightarrow> stream_state \<Rightarrow> bridge \<Rightarrow> exn + stream_state \<times> bridge \<times> rat list" where
  "start_market_streams E t as st b =
     map_sum id (\<lambda>st1. run_stream (handle_frame E) as INITIAL_BACKOFF_SECONDS st1 b)
       (start_stream False (bridge_streams t) st)"

section \<open>What a run delivers\<close>

text \<open>The frames of a session that reach the callback, and those of a whole run.\<close>

fun dispatched :: "frame list \<Rightarrow> (string \<times> payload) list" where
  "dispatched [] = []"
| "dispatched ((now, None) # frames) = dispatched frames"
| "dispatched ((now, Some (JObj d)) # frames) =
     (case stream_and_data d of None \<Rightarrow> [] | Some f \<Rightarrow> [f]) @ dispatched frames"
| "dispatched ((now, Some _) # frames) = []"

fun delivered :: "connection_attempt list \<Rightarrow> (string \<times> payload) list" where
  "delivered [] = []"
| "delivered (a # as) =
     (case at_outcome a of NoConnection _ \<Rightarrow> [] | Session frames _ \<Rightarrow> dispatched frames) @
     (if at_stop a = StopNever then delivered as else [])"

lemma consume_dispatched:
  "fst (snd (consume on_message frames st b)) = fold (\<lambda>(s, d). on_message s d) (dispatched frames) b"
  by (induction frames arbitrary: st b rule: dispatched.induct) (auto simp: Let_def split: option.split)

lemma run_attempt_delivers:
  "fst (snd (run_attempt on_message a st b)) =
     fold (\<lambda>(s, d). on_message s d) (case at_outcome a of NoConnection _ \<Rightarrow> [] | Session frames _ \<Rightarrow> dispatched frames) b"
proof (cases "at_outcome a")
  case (Session frames ending)
  let ?st = "st\<lparr>sm_connected := True, sm_last_error := None\<rparr>"
  obtain st1 b1 err where c: "consume on_message frames ?st b = (st1, b1, err)"
    by (cases "consume on_message frames ?st b") auto
  with consume_dispatched [of on_message frames ?st b] Session show ?thesis
    by (simp add: run_attempt_def Let_def)
qed (simp add: run_attempt_def)

lemma run_stream_delivers:
  "fst (snd (run_stream on_message as backoff st b)) = fold (\<lambda>(s, d). on_message s d) (delivered as) b"
proof (induction as arbitrary: backoff st b)
  case (Cons a as)
  obtain st1 b1 c where a: "run_attempt on_message a st b = (st1, b1, c)" by (cases "run_attempt on_message a st b") auto
  with run_attempt_delivers [of on_message a st b]
  have b1: "b1 = fold (\<lambda>(s, d). on_message s d) (case at_outcome a of NoConnection _ \<Rightarrow> [] | Session frames _ \<Rightarrow> dispatched frames) b"
    by simp
  show ?case
  proof (cases "at_stop a")
    case StopNever
    with a Cons.IH show ?thesis by (simp add: Let_def b1 split: prod.split) (metis fst_conv snd_conv)
  qed (use a b1 in \<open>simp_all add: Let_def\<close>)
qed simp

section \<open>What is published\<close>

text \<open>The events a run is to publish, whatever happens in the database.\<close>

definition frame_event :: "string \<Rightarrow> payload \<Rightarrow> (event_type \<times> payload) option" where
  "frame_event stream data =
     (if sublist ''@kline_'' stream
      then (case parse_kline_event data of
          None \<Rightarrow> None
        | Some e \<Rightarrow> if se_is_closed e then Some (CANDLE_CLOSED, candle_closed_data e) else None)
      else if sublist ''@bookTicker'' stream then map_option (Pair TICKER_UPDATE) (ticker_data data)
      else None)"

fun publications :: "(nat \<Rightarrow> int) \<Rightarrow> nat \<Rightarrow> (string \<times> payload) list \<Rightarrow> event list" where
  "publications now n [] = []"
| "publications now n ((stream, data) # frames) =
     (case frame_event stream data of None \<Rightarrow> [] | Some (t, d) \<Rightarrow> [event_of (now n) t d]) @
     publications now (Suc n) frames"

lemma persist_keeps [simp]:
  "br_bus (persist_and_compute_features E e b) = br_bus b"
  "br_closed_candles (persist_and_compute_features E e b) = br_closed_candles b"
  "br_ticker_updates (persist_and_compute_features E e b) = br_ticker_updates b"
  "br_handled (persist_and_compute_features E e b) = br_handled b"
  by (auto simp: persist_and_compute_features_def Let_def split: sum.split prod.split)

definition publish_frame :: "(nat \<Rightarrow> int) \<Rightarrow> nat \<Rightarrow> string \<Rightarrow> payload \<Rightarrow> bus \<Rightarrow> bus" where
  "publish_frame now n stream data u =
     (case frame_event stream data of None \<Rightarrow> u | Some (t, d) \<Rightarrow> publish (event_of (now n) t d) u)"

lemma handle_frame_publishes:
  "br_bus (handle_frame E stream data b) = publish_frame (be_now E) (br_handled b) stream data (br_bus b)"
  "br_handled (handle_frame E stream data b) = Suc (br_handled b)"
  "br_closed_candles (handle_frame E stream data b) = br_closed_candles b +
     (if \<exists>d. frame_event stream data = Some (CANDLE_CLOSED, d) then 1 else 0)"
  "br_ticker_updates (handle_frame E stream data b) = br_ticker_updates b +
     (if \<exists>d. frame_event stream data = Some (TICKER_UPDATE, d) then 1 else 0)"
  by (auto simp: handle_frame_def publish_frame_def frame_event_def handle_kline_def handle_ticker_def Let_def
      split: option.split)

text \<open>How many events of a type there are.\<close>

abbreviation count_events :: "event_type \<Rightarrow> event list \<Rightarrow> nat" where
  "count_events t es \<equiv> length (filter (\<lambda>e. ev_event e = t) es)"

lemma run_publishes:
  fixes E :: "'v bridge_env" and frames :: "(string \<times> payload) list" and b :: bridge
  defines "b' \<equiv> fold (\<lambda>(s, d). handle_frame E s d) frames b"
  defines "es \<equiv> publications (be_now E) (br_handled b) frames"
  shows "br_bus b' = fold publish es (br_bus b) \<and>
    br_closed_candles b' = br_closed_candles b + count_events CANDLE_CLOSED es \<and>
    br_ticker_updates b' = br_ticker_updates b + count_events TICKER_UPDATE es"
  unfolding b'_def es_def
proof (induction frames arbitrary: b)
  case (Cons f frames)
  obtain s d where f: "f = (s, d)" by (cases f)
  note one = handle_frame_publishes [of E s d b]
  show ?case unfolding f using Cons.IH [of "handle_frame E s d b"]
    by (auto simp: one publish_frame_def event_of_def split: option.split)
qed simp

section \<open>What is stored\<close>

text \<open>The candle a frame asks to store.\<close>

definition closed_kline :: "string \<Rightarrow> payload \<Rightarrow> kline option" where
  "closed_kline stream data =
     (if sublist ''@kline_'' stream
      then (case parse_kline_event data of
          None \<Rightarrow> None
        | Some e \<Rightarrow> if se_is_closed e then (case from_stream_event e of Inl _ \<Rightarrow> None | Inr k \<Rightarrow> Some k) else None)
      else None)"

lemma from_stream_event_closed: "from_stream_event e = Inr k \<Longrightarrow> kl_is_closed k = se_is_closed e"
  by (auto simp: from_stream_event_def split: option.splits elim: kline_of_cases)

lemma persist_result:
  assumes "kl_is_closed k"
  obtains db' where "persist_closed_candle qz src k db = (db', Inr ())"
    "candle_key ` set (md_candles db') = insert (kline_key k) (candle_key ` set (md_candles db))"
    "distinct (map candle_key (md_candles db)) \<Longrightarrow> \<exists>c \<in> set (md_candles db'). holds qz src k c"
proof -
  obtain rows ins upd where up: "upsert_candles qz src [k] (md_candles db) = Inr (rows, ins, upd)"
    by (auto simp: upsert_candles_def Let_def)
  note r = upsert_candles_result [OF up]
  let ?db = "update_metadata (kl_symbol k) (kl_timeframe k) src (Some (kl_open_time k)) (Some (kl_open_time k)) ins
    (db\<lparr>md_candles := rows\<rparr>)"
  have rows: "md_candles ?db = rows" by (simp add: update_metadata_def edit_coverage_def)
  have p: "persist_closed_candle qz src k db = (?db, Inr ())" using assms up by (simp add: persist_closed_candle_def)
  show ?thesis
  proof (rule that [OF p])
    show "candle_key ` set (md_candles ?db) = insert (kline_key k) (candle_key ` set (md_candles db))"
      unfolding rows using r(1) by simp
    show "\<exists>c \<in> set (md_candles ?db). holds qz src k c" if "distinct (map candle_key (md_candles db))"
      unfolding rows using r(7) [OF that, of k] by simp
  qed
qed

lemma compute_latest_distinct:
  assumes "compute_latest P db s tf version table = Inr (table', flag)" "distinct (map feature_key table)"
  shows "distinct (map feature_key table')"
proof (cases "load_candles db s tf (Some DEFAULT_LOOKBACK) = []")
  case True
  with assms show ?thesis by (simp add: compute_latest_def)
next
  case False
  then obtain rows n where "upsert_features P s tf version [cd_open_time (last (load_candles db s tf (Some DEFAULT_LOOKBACK)))]
      [last rows] table = Inr (table', n)"
    using assms(1) by (auto simp: compute_latest_def Let_def split: sum.splits elim!: map_sum_Inr_cases)
  from upsert_features_result(2) [OF this _ assms(2)] show ?thesis by simp
qed

text \<open>One frame: the candle it asks for is stored unless the database is down, and nothing else is.\<close>

lemma handle_frame_stores:
  fixes E :: "'v bridge_env" and stream :: string and data :: payload and b :: bridge
  defines "b' \<equiv> handle_frame E stream data b"
  shows "case closed_kline stream data of
      None \<Rightarrow> br_db b' = br_db b \<and> br_features b' = br_features b
    | Some k \<Rightarrow> if be_outage E (br_handled b) = DbDown then br_db b' = br_db b \<and> br_features b' = br_features b
        else persist_closed_candle (be_quantize E) ''BINANCE'' k (br_db b) = (br_db b', Inr ()) \<and>
          (br_features b' = br_features b \<or>
           (\<exists>flag. compute_latest (be_pandas E) (md_candles (br_db b')) (kl_symbol k) (kl_timeframe k)
              (be_feature_version E) (br_features b) = Inr (br_features b', flag)))"
proof (cases "closed_kline stream data")
  case None
  then show ?thesis
    by (auto simp: b'_def handle_frame_def handle_kline_def handle_ticker_def closed_kline_def Let_def
        persist_and_compute_features_def split: option.splits sum.splits if_splits)
next
  case (Some k)
  then obtain e where e: "sublist ''@kline_'' stream" "parse_kline_event data = Some e" "se_is_closed e"
    "from_stream_event e = Inr k"
    by (auto simp: closed_kline_def split: if_splits option.splits sum.splits)
  then have "kl_is_closed k" by (simp add: from_stream_event_closed)
  then obtain db' where p: "persist_closed_candle (be_quantize E) ''BINANCE'' k (br_db b) = (db', Inr ())"
    by (rule persist_result)
  show ?thesis
    by (auto simp: b'_def handle_frame_def handle_kline_def Some e p persist_and_compute_features_def Let_def
        split: sum.split)
qed

lemma run_stores:
  fixes E :: "'v bridge_env" and frames :: "(string \<times> payload) list" and b :: bridge
  defines "b' \<equiv> fold (\<lambda>(s, d). handle_frame E s d) frames b"
  assumes "market_ok ''BINANCE'' (br_db b)" "distinct (map feature_key (br_features b))"
  shows "market_ok ''BINANCE'' (br_db b') \<and> distinct (map feature_key (br_features b')) \<and>
    candle_key ` set (md_candles (br_db b')) = candle_key ` set (md_candles (br_db b)) \<union>
      {kline_key k | k i. i < length frames \<and> case_prod closed_kline (frames ! i) = Some k \<and>
         be_outage E (br_handled b + i) \<noteq> DbDown}"
  using assms(2,3) unfolding b'_def
proof (induction frames arbitrary: b)
  case (Cons f frames)
  obtain s d where f: "f = (s, d)" by (cases f)
  let ?b = "handle_frame E s d b"
  let ?stored = "\<lambda>n fs. {kline_key k | k i. i < length fs \<and> case_prod closed_kline (fs ! i) = Some k \<and>
     be_outage E (n + i) \<noteq> DbDown}"
  have handled: "br_handled ?b = Suc (br_handled b)" by (rule handle_frame_publishes)
  have split: "?stored n (f # frames) =
      (case closed_kline s d of None \<Rightarrow> {} | Some k \<Rightarrow> if be_outage E n = DbDown then {} else {kline_key k}) \<union>
      ?stored (Suc n) frames" for n
  proof -
    have "x \<in> ?stored n (f # frames) \<longleftrightarrow> (\<exists>i < Suc (length frames). \<exists>k. x = kline_key k \<and>
        case_prod closed_kline ((f # frames) ! i) = Some k \<and> be_outage E (n + i) \<noteq> DbDown)" for x
      by auto
    then have "x \<in> ?stored n (f # frames) \<longleftrightarrow> (\<exists>k. x = kline_key k \<and> closed_kline s d = Some k \<and> be_outage E n \<noteq> DbDown) \<or>
        x \<in> ?stored (Suc n) frames" for x
      unfolding Ex_less_Suc2 by (auto simp: f)
    then show ?thesis by (auto split: option.split)
  qed
  have one: "market_ok ''BINANCE'' (br_db ?b) \<and> distinct (map feature_key (br_features ?b)) \<and>
      candle_key ` set (md_candles (br_db ?b)) = candle_key ` set (md_candles (br_db b)) \<union>
        (case closed_kline s d of None \<Rightarrow> {} | Some k \<Rightarrow> if be_outage E (br_handled b) = DbDown then {} else {kline_key k})"
  proof (cases "closed_kline s d = None \<or> be_outage E (br_handled b) = DbDown")
    case True
    with handle_frame_stores [of E s d b] Cons.prems show ?thesis by (auto split: option.splits)
  next
    case False
    then obtain k where k: "closed_kline s d = Some k" "be_outage E (br_handled b) \<noteq> DbDown" by auto
    then have closed: "kl_is_closed k"
      by (auto simp: closed_kline_def from_stream_event_closed split: if_splits option.splits sum.splits)
    from handle_frame_stores [of E s d b] k have
      p: "persist_closed_candle (be_quantize E) ''BINANCE'' k (br_db b) = (br_db ?b, Inr ())" and
      ft: "br_features ?b = br_features b \<or> (\<exists>flag. compute_latest (be_pandas E) (md_candles (br_db ?b)) (kl_symbol k)
        (kl_timeframe k) (be_feature_version E) (br_features b) = Inr (br_features ?b, flag))"
      by simp_all
    have "candle_key ` set (md_candles (br_db ?b)) = insert (kline_key k) (candle_key ` set (md_candles (br_db b)))"
      by (rule persist_result [OF closed, of "be_quantize E" "''BINANCE''" "br_db b"]) (simp add: p)
    moreover have "distinct (map feature_key (br_features ?b))" using ft Cons.prems(2) compute_latest_distinct by metis
    ultimately show ?thesis using persist_ok [OF p Cons.prems(1)] k by simp
  qed
  from Cons.IH [of ?b] one show ?case unfolding split unfolding handled by (simp add: f Un_assoc)
qed simp

section \<open>Stream names\<close>

lemma lower_char_at: "lower_char c = CHR ''@'' \<longleftrightarrow> c = CHR ''@''"
proof (cases "(65::nat) \<le> of_char c \<and> of_char c \<le> (90::nat)")
  case True
  then have "of_char (lower_char c) = (of_char c + 32 :: nat)" by (simp add: lower_char_def)
  with True have "lower_char c \<noteq> CHR ''@''" "c \<noteq> CHR ''@''" by auto
  then show ?thesis by simp
next
  case False
  then show ?thesis unfolding lower_char_def by (simp only: if_False)
qed

lemma lower_at: "CHR ''@'' \<in> set (lower s) \<longleftrightarrow> CHR ''@'' \<in> set s"
proof -
  have "CHR ''@'' = lower_char c \<longleftrightarrow> c = CHR ''@''" for c using lower_char_at [of c] by (simp only: eq_commute)
  then show ?thesis by (simp add: lower_def image_iff)
qed

lemma upper_lower: "upper (lower s) = upper s"
proof -
  have "upper_char (lower_char c) = upper_char c" for c
    by (simp add: lower_char_def upper_char_def)
  then show ?thesis by (simp add: upper_def lower_def)
qed

text \<open>A text with one \<open>@\<close> holds one that starts with it only at its end.\<close>

lemma sublist_from_at:
  assumes "sublist (CHR ''@'' # xs) (ys @ CHR ''@'' # zs)" "CHR ''@'' \<notin> set ys" "CHR ''@'' \<notin> set zs"
  shows "prefix xs zs"
proof -
  obtain ps ss where eq: "ys @ CHR ''@'' # zs = ps @ CHR ''@'' # xs @ ss"
    using assms(1) by (auto simp: sublist_def)
  have "ys = ps \<and> zs = xs @ ss"
  proof -
    from arg_cong [OF eq, of "\<lambda>cs. count_list cs (CHR ''@'')"]
    have "count_list ps (CHR ''@'') = 0" using assms(2,3) by (simp add: count_notin)
    then have "CHR ''@'' \<notin> set ps" by (simp only: count_list_0_iff not_False_eq_True)
    with eq assms(2) show ?thesis
      by (simp add: append_eq_append_conv2 Cons_eq_append_conv append_eq_Cons_conv) auto
  qed
  then show ?thesis by simp
qed

lemma stream_kinds:
  assumes "CHR ''@'' \<notin> set s"
  shows "sublist ''@kline_'' (kline_stream s tf)" "\<not> sublist ''@kline_'' (ticker_stream s)"
    "sublist ''@bookTicker'' (ticker_stream s)"
proof -
  show "sublist ''@kline_'' (kline_stream s tf)" unfolding kline_stream_def by (rule sublist_appendI)
  have "sublist ''@bookTicker'' (lower s @ ''@bookTicker'' @ [])" by (rule sublist_appendI)
  then show "sublist ''@bookTicker'' (ticker_stream s)" by (simp only: ticker_stream_def append_Nil2)
  show "\<not> sublist ''@kline_'' (ticker_stream s)"
  proof
    assume "sublist ''@kline_'' (ticker_stream s)"
    then have "prefix ''kline_'' ''bookTicker''"
      unfolding ticker_stream_def using assms lower_at by (intro sublist_from_at [of _ "lower s"]) simp_all
    then show False by simp
  qed
qed

lemma streams_routed:
  assumes "\<forall>s \<in> set (tc_assets t). CHR ''@'' \<notin> set s" "name \<in> set (bridge_streams t)"
  shows "sublist ''@kline_'' name \<longleftrightarrow> (\<exists>s \<in> set (tc_assets t). \<exists>tf \<in> set (tc_timeframes t). name = kline_stream s (timeframe_value tf))"
    "sublist ''@kline_'' name \<or> sublist ''@bookTicker'' name"
  using assms stream_kinds by (auto simp: bridge_streams_def)

section \<open>Properties\<close>

text \<open>
  C33: what subscribers see does not depend on the database. Whatever connections the market stream makes and
  loses, and whenever the database is down or refuses, the bus ends up as if exactly one event had been
  published for each closed candle and each complete ticker among the delivered frames, in their order, and the counters say how many.
\<close>

theorem publications_survive_outages:
  "let b' = fst (snd (run_stream (handle_frame E) as backoff st b));
       es = publications (be_now E) (br_handled b) (delivered as)
   in br_bus b' = fold publish es (br_bus b) \<and>
     br_closed_candles b' = br_closed_candles b + length (filter (\<lambda>e. ev_event e = CANDLE_CLOSED) es) \<and>
     br_ticker_updates b' = br_ticker_updates b + length (filter (\<lambda>e. ev_event e = TICKER_UPDATE) es)"
  using run_publishes [of E "delivered as" b] unfolding run_stream_delivers Let_def by simp

text \<open>
  C34: only candles the exchange has closed are stored, and no such candle is missed while the database
  answers. After any run of the stream the candle table holds the keys it held and those of the delivered frames
  flagged closed and readable during which the database was up; coverage and uniqueness are kept.
\<close>

theorem stored_iff_closed:
  assumes "market_ok ''BINANCE'' (br_db b)" "distinct (map feature_key (br_features b))"
    "b' = fst (snd (run_stream (handle_frame E) as backoff st b))"
  shows "market_ok ''BINANCE'' (br_db b') \<and> distinct (map feature_key (br_features b')) \<and>
    candle_key ` set (md_candles (br_db b')) = candle_key ` set (md_candles (br_db b)) \<union>
      {kline_key k | k i. i < length (delivered as) \<and> case_prod closed_kline (delivered as ! i) = Some k \<and>
         be_outage E (br_handled b + i) \<noteq> DbDown}"
  unfolding assms(3) run_stream_delivers using run_stores [OF assms(1,2)] by blast

definition sample_env :: "outage \<Rightarrow> rat option bridge_env" where
  "sample_env x = \<lparr>be_pandas = exact_pandas, be_quantize = (\<lambda>_ x. x), be_feature_version = ''v1'', be_now = int,
     be_outage = (\<lambda>_. x)\<rparr>"

definition sample_kline_frame :: "bool \<Rightarrow> payload" where
  "sample_kline_frame over = [(''stream'', JStr ''btcusdt@kline_1h''), (''data'', JObj [(''s'', JStr ''BTCUSDT''),
     (''k'', JObj [(''i'', JStr ''1h''), (''t'', JInt 0), (''T'', JInt 3599999), (''o'', JInt 10), (''h'', JInt 12),
       (''l'', JInt 9), (''c'', JInt 11), (''v'', JInt 5), (''x'', JBool over)])])]"

definition sample_attempts :: "connection_attempt list" where
  "sample_attempts = [\<lparr>at_outcome = Session [(1, Some (JObj (sample_kline_frame False))), (2, None),
     (3, Some (JObj (sample_kline_frame True)))] None, at_jitter = 0, at_stop = StopInSession\<rparr>]"

lemma sample_delivered:
  "length (delivered sample_attempts) = 2"
  "case_prod closed_kline (delivered sample_attempts ! 0) = None"
  "\<exists>k. case_prod closed_kline (delivered sample_attempts ! 1) = Some k \<and> kline_key k = (''BTCUSDT'', ''1h'', 0)"
proof -
  have route: "sublist ''@kline_'' ''btcusdt@kline_1h''"
    unfolding sublist_def by (intro exI [of _ "''btcusdt''"] exI [of _ "''1h''"]) simp
  show "length (delivered sample_attempts) = 2"
    by (simp add: sample_attempts_def sample_kline_frame_def stream_and_data_def)
  show "case_prod closed_kline (delivered sample_attempts ! 0) = None"
    by (simp add: sample_attempts_def sample_kline_frame_def stream_and_data_def closed_kline_def parse_kline_event_def
        dict_get_def)
  have ms: "ms_to_utc 0 = Some 0" "ms_to_utc 3600000 = Some 3600000000" by (simp_all add: ms_to_utc_exact)
  have up: "upper ''BTCUSDT'' = ''BTCUSDT''" by (simp add: upper_def upper_char_def)
  have zero: "parse_decimal ''0'' = Some 0" by code_simp
  show "\<exists>k. case_prod closed_kline (delivered sample_attempts ! 1) = Some k \<and> kline_key k = (''BTCUSDT'', ''1h'', 0)"
    by (simp add: sample_attempts_def sample_kline_frame_def stream_and_data_def closed_kline_def parse_kline_event_def
        dict_get_def route from_stream_event_def kline_of_def ms up zero kline_key_def)
qed

theorem stored_iff_closed_witness:
  "let b' = fst (snd (run_stream (handle_frame (sample_env DbUp)) sample_attempts INITIAL_BACKOFF_SECONDS new_stream_state
       (new_bridge empty_market [] (new_bus 5))))
   in market_ok ''BINANCE'' (br_db b') \<and> candle_key ` set (md_candles (br_db b')) = {(''BTCUSDT'', ''1h'', 0)}"
proof -
  let ?b = "new_bridge empty_market [] (new_bus 5)"
  let ?b' = "fst (snd (run_stream (handle_frame (sample_env DbUp)) sample_attempts INITIAL_BACKOFF_SECONDS new_stream_state ?b))"
  obtain k where k: "case_prod closed_kline (delivered sample_attempts ! 1) = Some k" "kline_key k = (''BTCUSDT'', ''1h'', 0)"
    using sample_delivered(3) by blast
  have "{kline_key k | k i. i < length (delivered sample_attempts) \<and> case_prod closed_kline (delivered sample_attempts ! i) = Some k \<and>
      be_outage (sample_env DbUp) (br_handled ?b + i) \<noteq> DbDown} = {(''BTCUSDT'', ''1h'', 0)}" (is "?S = _")
  proof -
    have "p \<in> ?S \<longleftrightarrow> (\<exists>i < 2. \<exists>k. p = kline_key k \<and> case_prod closed_kline (delivered sample_attempts ! i) = Some k)" for p
      unfolding sample_delivered(1) by (auto simp: sample_env_def)
    then have "p \<in> ?S \<longleftrightarrow> p = kline_key k" for p
      unfolding numeral_2_eq_2 Ex_less_Suc2 using sample_delivered(2) k(1) by simp
    then show ?thesis unfolding k(2) by blast
  qed
  moreover have "market_ok ''BINANCE'' (br_db ?b)" "distinct (map feature_key (br_features ?b))" "md_candles (br_db ?b) = []"
    using empty_market_ok by (simp_all add: new_bridge_def empty_market_def)
  ultimately show ?thesis using stored_iff_closed [of ?b ?b' "sample_env DbUp" sample_attempts INITIAL_BACKOFF_SECONDS new_stream_state]
    by (simp add: Let_def)
qed

end
