(* ===== verification/ConnectionManager.thy ===== *)
theory ConnectionManager
  imports EventBus
begin

text \<open>
  \<open>websocket/manager.py\<close> and the endpoint \<open>api/v1/websocket.py\<close>: the table of clients, their
  control messages, the outbound pump and the heartbeat. The three tasks of a client and the
  endpoint interleave at their \<open>await\<close>s; what runs between two of them is one step here. The socket
  is the environment: whether it is still connected is part of a connection's state, and \<open>cn_sent\<close>
  is what has been written to it. Message texts are left out of the error events.
\<close>

section \<open>State\<close>

record connection =
  cn_sid :: nat
  cn_open :: bool
  cn_serving :: bool
  cn_last_seen :: rat
  cn_sent :: "event list"

record hub =
  hb_bus :: bus
  hb_connections :: "(string, connection) dict"
  hb_accepting :: "string list"

definition new_hub :: "websocket_config \<Rightarrow> hub" where
  "new_hub ws = \<lparr>hb_bus = new_bus (wc_outbound_queue_size ws), hb_connections = [], hb_accepting = []\<rparr>"

definition connection_count :: "hub \<Rightarrow> nat" where
  "connection_count h = length (hb_connections h)"

definition at_capacity :: "websocket_config \<Rightarrow> hub \<Rightarrow> bool" where
  "at_capacity ws h \<longleftrightarrow> wc_max_connections ws \<le> int (connection_count h)"

definition set_connection :: "string \<Rightarrow> connection \<Rightarrow> hub \<Rightarrow> hub" where
  "set_connection cid c h = h\<lparr>hb_connections := AList.update cid c (hb_connections h)\<rparr>"

definition set_subscriber :: "nat \<Rightarrow> subscriber \<Rightarrow> hub \<Rightarrow> hub" where
  "set_subscriber i s h = h\<lparr>hb_bus := (hb_bus h)\<lparr>bs_store := AList.update i s (bs_store (hb_bus h))\<rparr>\<rparr>"

definition send :: "event \<Rightarrow> connection \<Rightarrow> exn + connection" where
  "send e c = (if cn_open c then Inr (c\<lparr>cn_sent := cn_sent c @ [e]\<rparr>) else Inl WebSocketDisconnect)"

section \<open>Control messages\<close>

text \<open>The names an \<open>events\<close> field iterates over; \<open>None\<close> when it is no iterable.\<close>

fun iterate :: "json \<Rightarrow> json list option" where
  "iterate (JList xs) = Some xs"
| "iterate (JStr s) = Some (map (\<lambda>c. JStr [c]) s)"
| "iterate (JObj d) = Some (map (\<lambda>k. JStr k) (keys d))"
| "iterate _ = None"

definition parse_topics :: "json list \<Rightarrow> event_type set \<times> json set" where
  "parse_topics names = ({t. Some t \<in> set (map parse_event_type names)},
     set (filter (\<lambda>j. parse_event_type j = None) names))"

definition error_event :: "int \<Rightarrow> string \<Rightarrow> event" where
  "error_event now code = event_of now EvERROR [(''code'', JStr code)]"

text \<open>\<open>sorted(t.value for t in topics)\<close>.\<close>

definition topic_names :: "event_type set option \<Rightarrow> json" where
  "topic_names topics = (case topics of
     None \<Rightarrow> JStr ''all''
   | Some T \<Rightarrow> JList (map (\<lambda>v. JStr v) (sort (map event_value (filter (\<lambda>t. t \<in> T) event_types)))))"

definition subscribe_topics :: "event_type set option \<Rightarrow> event_type set \<Rightarrow> event_type set option" where
  "subscribe_topics current valid =
     (if valid = {} then None else Some ((case current of None \<Rightarrow> {} | Some T \<Rightarrow> T) \<union> valid))"

text \<open>\<open>(current or set(EventType)) - valid\<close>: an empty set is false as well.\<close>

definition unsubscribe_topics :: "event_type set option \<Rightarrow> event_type set \<Rightarrow> event_type set option" where
  "unsubscribe_topics current valid =
     Some ((case current of None \<Rightarrow> set event_types | Some T \<Rightarrow> if T = {} then set event_types else T) - valid)"

text \<open>
  The new state of the subscriber and the reply. A message that is no object has no \<open>get\<close>; a list or
  an object is not hashable, so it cannot be looked up in a set.
\<close>

definition handle_control :: "int \<Rightarrow> subscriber \<Rightarrow> json \<Rightarrow> exn + subscriber \<times> event option" where
  "handle_control now s msg =
     (case msg of
        JObj d \<Rightarrow>
          (let action = dict_get d ''action'' JNull;
               requested = dict_get d ''events'' JNull in
           if action = JStr ''pong'' then Inr (s, None)
           else case action of JList _ \<Rightarrow> Inl TypeError | JObj _ \<Rightarrow> Inl TypeError
           | _ \<Rightarrow>
             if action = JStr ''subscribe'' \<or> action = JStr ''unsubscribe'' then
               (case iterate (if py_bool requested then requested else JList []) of
                  None \<Rightarrow> Inl TypeError
                | Some names \<Rightarrow>
                    (let (valid, invalid) = parse_topics names in
                     if invalid \<noteq> {} then Inr (s, Some (error_event now ''UNKNOWN_EVENT_TYPE''))
                     else let topics = (if action = JStr ''subscribe'' then subscribe_topics (sb_topics s) valid
                                        else unsubscribe_topics (sb_topics s) valid)
                       in Inr (s\<lparr>sb_topics := topics\<rparr>,
                            Some (event_of now SUBSCRIPTION_UPDATED [(''events'', topic_names topics)]))))
             else Inr (s, Some (error_event now ''UNKNOWN_ACTION'')))
      | _ \<Rightarrow> Inl AttributeError)"

section \<open>The life of a client\<close>

definition greeting :: "websocket_config \<Rightarrow> int \<Rightarrow> string \<Rightarrow> event" where
  "greeting ws now cid = event_of now SYSTEM_STATUS
     [(''status'', JStr ''connected''), (''client_id'', JStr cid),
      (''heartbeat_interval_seconds'', JNum (wc_heartbeat_interval_seconds ws))]"

text \<open>
  Up to the first \<open>await\<close> of the tasks. The greeting is sent before the \<open>try\<close>: when it raises,
  nothing is undone.
\<close>

definition serve_start :: "websocket_config \<Rightarrow> string \<Rightarrow> bool \<Rightarrow> rat \<Rightarrow> int \<Rightarrow> hub \<Rightarrow> hub" where
  "serve_start ws cid alive t now h =
     (let sid = length (bs_store (hb_bus h));
          c = \<lparr>cn_sid = sid, cn_open = alive, cn_serving = False, cn_last_seen = t, cn_sent = []\<rparr>;
          h1 = set_connection cid c (h\<lparr>hb_bus := subscribe_enter sid None (hb_bus h)\<rparr>)
      in case send (greeting ws now cid) c of
           Inl _ \<Rightarrow> h1
         | Inr c' \<Rightarrow> set_connection cid (c'\<lparr>cn_serving := True\<rparr>) h1)"

text \<open>The \<open>finally\<close> block, reached when one of the three tasks is done.\<close>

definition serve_end :: "string \<Rightarrow> hub \<Rightarrow> hub" where
  "serve_end cid h =
     (case map_of (hb_connections h) cid of
        None \<Rightarrow> h
      | Some c \<Rightarrow> if \<not> cn_serving c then h
          else h\<lparr>hb_bus := remove_subscriber (cn_sid c) (hb_bus h),
                 hb_connections := AList.delete cid (hb_connections h)\<rparr>)"

definition send_to :: "string \<Rightarrow> event \<Rightarrow> connection \<Rightarrow> hub \<Rightarrow> hub" where
  "send_to cid e c h = (case send e c of Inl _ \<Rightarrow> serve_end cid h | Inr c' \<Rightarrow> set_connection cid c' h)"

definition with_client :: "string \<Rightarrow> (connection \<Rightarrow> subscriber \<Rightarrow> hub \<Rightarrow> hub) \<Rightarrow> hub \<Rightarrow> hub" where
  "with_client cid f h =
     (case map_of (hb_connections h) cid of
        None \<Rightarrow> h
      | Some c \<Rightarrow>
          if \<not> cn_serving c then h
          else case map_of (bs_store (hb_bus h)) (cn_sid c) of None \<Rightarrow> h | Some s \<Rightarrow> f c s h)"

text \<open>One turn of \<open>_pump_outbound\<close>; it waits while the queue is empty.\<close>

definition pump_outbound :: "string \<Rightarrow> hub \<Rightarrow> hub" where
  "pump_outbound cid = with_client cid (\<lambda>c s h.
     case get_nowait s of
       None \<Rightarrow> h
     | Some (e, s') \<Rightarrow>
         (let h1 = set_subscriber (cn_sid c) s' h
          in if \<not> wants s' e then h1 else send_to cid e c h1))"

text \<open>One turn of \<open>_read_inbound\<close>; \<open>None\<close> is a text that is no JSON.\<close>

definition read_inbound :: "string \<Rightarrow> rat \<Rightarrow> int \<Rightarrow> json option \<Rightarrow> hub \<Rightarrow> hub" where
  "read_inbound cid t now raw = with_client cid (\<lambda>c s h.
     let c1 = c\<lparr>cn_last_seen := t\<rparr>; h1 = set_connection cid c1 h in
     case raw of
       None \<Rightarrow> send_to cid (error_event now ''INVALID_MESSAGE'') c1 h1
     | Some msg \<Rightarrow>
         (case handle_control now s msg of
            Inl _ \<Rightarrow> serve_end cid h1
          | Inr (s', reply) \<Rightarrow>
              (let h2 = set_subscriber (cn_sid c) s' h1
               in case reply of None \<Rightarrow> h2 | Some e \<Rightarrow> send_to cid e c1 h2)))"

text \<open>One turn of \<open>_heartbeat\<close> after its sleep.\<close>

definition heartbeat :: "websocket_config \<Rightarrow> string \<Rightarrow> rat \<Rightarrow> int \<Rightarrow> hub \<Rightarrow> hub" where
  "heartbeat ws cid t now = with_client cid (\<lambda>c s h.
     if wc_client_timeout_seconds ws < fsub t (cn_last_seen c) then serve_end cid h
     else send_to cid (event_of now HEARTBEAT [(''server_time'', JInt now)]) c h)"

text \<open>The peer is gone: the socket leaves its connected state.\<close>

definition lose_peer :: "string \<Rightarrow> hub \<Rightarrow> hub" where
  "lose_peer cid h =
     (case map_of (hb_connections h) cid of
        None \<Rightarrow> h | Some c \<Rightarrow> set_connection cid (c\<lparr>cn_open := False\<rparr>) h)"

section \<open>The endpoint\<close>

text \<open>
  The capacity is looked at before \<open>accept\<close> is awaited, the table is entered after it. Client ids
  are new UUIDs.
\<close>

definition websocket_arrive :: "websocket_config \<Rightarrow> string \<Rightarrow> hub \<Rightarrow> hub" where
  "websocket_arrive ws cid h = (if at_capacity ws h then h else h\<lparr>hb_accepting := hb_accepting h @ [cid]\<rparr>)"

definition websocket_accepted :: "websocket_config \<Rightarrow> string \<Rightarrow> bool \<Rightarrow> rat \<Rightarrow> int \<Rightarrow> hub \<Rightarrow> hub" where
  "websocket_accepted ws cid alive t now h =
     serve_start ws cid alive t now (h\<lparr>hb_accepting := removeAll cid (hb_accepting h)\<rparr>)"

inductive hub_step :: "websocket_config \<Rightarrow> hub \<Rightarrow> hub \<Rightarrow> bool" for ws where
  Arrive: "cid \<notin> set (hb_accepting h) \<Longrightarrow> cid \<notin> set (keys (hb_connections h)) \<Longrightarrow>
     hub_step ws h (websocket_arrive ws cid h)"
| Accepted: "cid \<in> set (hb_accepting h) \<Longrightarrow> hub_step ws h (websocket_accepted ws cid alive t now h)"
| Publish: "hub_step ws h (h\<lparr>hb_bus := publish e (hb_bus h)\<rparr>)"
| Pump: "hub_step ws h (pump_outbound cid h)"
| Inbound: "hub_step ws h (read_inbound cid t now raw h)"
| Beat: "hub_step ws h (heartbeat ws cid t now h)"
| Lose: "hub_step ws h (lose_peer cid h)"
| HangUp: "hub_step ws h (serve_end cid h)"

inductive reachable_hub :: "websocket_config \<Rightarrow> hub \<Rightarrow> hub \<Rightarrow> bool" for ws where
  refl: "reachable_hub ws h h"
| step: "reachable_hub ws h h' \<Longrightarrow> hub_step ws h' h'' \<Longrightarrow> reachable_hub ws h h''"

inductive_cases hub_stepE: "hub_step ws h h'"

section \<open>The invariant of the hub\<close>

lemma update_split: "k \<notin> set (keys xs) \<Longrightarrow> AList.update k w (xs @ (k, v) # ys) = xs @ (k, w) # ys"
  by (induction xs) auto

definition hub_ok :: "websocket_config \<Rightarrow> hub \<Rightarrow> bool" where
  "hub_ok ws h \<longleftrightarrow>
     distinct (keys (hb_connections h)) \<and> distinct (hb_accepting h) \<and>
     set (hb_accepting h) \<inter> set (keys (hb_connections h)) = {} \<and>
     keys (bs_store (hb_bus h)) = [0..<length (bs_store (hb_bus h))] \<and>
     distinct (map cn_sid (vals (hb_connections h))) \<and>
     (\<forall>c \<in> set (vals (hb_connections h)). cn_sid c < length (bs_store (hb_bus h))) \<and>
     distinct (bs_members (hb_bus h)) \<and>
     set (bs_members (hb_bus h)) = cn_sid ` set (vals (hb_connections h)) \<and>
     bs_queue_size (hb_bus h) = wc_outbound_queue_size ws \<and>
     (\<forall>s \<in> set (vals (bs_store (hb_bus h))). sized (wc_outbound_queue_size ws) s)"

lemma new_hub_ok: "hub_ok ws (new_hub ws)"
  by (simp add: hub_ok_def new_hub_def new_bus_def)

lemma set_connection_ok:
  assumes "hub_ok ws h" "map_of (hb_connections h) cid = Some c0" "cn_sid c = cn_sid c0"
  shows "hub_ok ws (set_connection cid c h)"
proof -
  obtain xs ys where split: "hb_connections h = xs @ (cid, c0) # ys" "cid \<notin> set (keys xs)"
    using assms(2) by (rule map_of_split)
  then have "AList.update cid c (hb_connections h) = xs @ (cid, c) # ys" by (simp add: update_split)
  with assms(1,3) split show ?thesis by (auto simp: hub_ok_def set_connection_def)
qed

lemma set_subscriber_ok:
  assumes "hub_ok ws h" "map_of (bs_store (hb_bus h)) i = Some s0" "sized (wc_outbound_queue_size ws) s"
  shows "hub_ok ws (set_subscriber i s h)"
proof -
  obtain xs ys where split: "bs_store (hb_bus h) = xs @ (i, s0) # ys" "i \<notin> set (keys xs)"
    using assms(2) by (rule map_of_split)
  then have "AList.update i s (bs_store (hb_bus h)) = xs @ (i, s) # ys" by (simp add: update_split)
  with assms(1,3) split show ?thesis by (auto simp: hub_ok_def set_subscriber_def)
qed

lemma store_sized:
  "hub_ok ws h \<Longrightarrow> map_of (bs_store (hb_bus h)) i = Some s \<Longrightarrow> sized (wc_outbound_queue_size ws) s"
  by (force simp: hub_ok_def dest: map_of_SomeD)

lemma serve_end_ok:
  assumes "hub_ok ws h"
  shows "hub_ok ws (serve_end cid h)"
proof (cases "map_of (hb_connections h) cid")
  case (Some c)
  then obtain xs ys where split: "hb_connections h = xs @ (cid, c) # ys" "cid \<notin> set (keys xs)"
    by (rule map_of_split)
  have "distinct (keys (hb_connections h))" using assms by (simp add: hub_ok_def)
  with split have del: "AList.delete cid (hb_connections h) = xs @ ys" using delete_split by metis
  have "distinct (map cn_sid (vals (xs @ (cid, c) # ys)))"
    and mem: "set (bs_members (hb_bus h)) = cn_sid ` set (vals (xs @ (cid, c) # ys))"
    using assms by (simp_all only: hub_ok_def split)
  then have "cn_sid c \<notin> cn_sid ` set (vals (xs @ ys))" by (simp add: image_Un image_image)
  with mem have mem': "set (removeAll (cn_sid c) (bs_members (hb_bus h))) = cn_sid ` set (vals (xs @ ys))" by auto
  let ?h = "h\<lparr>hb_bus := remove_subscriber (cn_sid c) (hb_bus h), hb_connections := xs @ ys\<rparr>"
  have "hub_ok ws ?h"
    unfolding hub_ok_def
  proof (intro conjI)
    show "set (bs_members (hb_bus ?h)) = cn_sid ` set (vals (hb_connections ?h))"
      using mem' by (simp add: remove_subscriber_def)
  qed (use assms in \<open>auto simp: hub_ok_def remove_subscriber_def split(1) distinct_removeAll\<close>)
  with assms show ?thesis by (simp add: serve_end_def Some del)
qed (simp add: serve_end_def assms)

lemma publish_keys: "keys (bs_store (publish e b)) = keys (bs_store b)"
  by (simp add: publish_def comp_def case_prod_beta)

lemma publish_vals:
  "s \<in> set (vals (bs_store (publish e b))) \<Longrightarrow> \<exists>s0 \<in> set (vals (bs_store b)). s = s0 \<or> s = offer e s0"
  unfolding publish_def by (auto split: if_splits) (metis snd_conv)+

lemma publish_ok:
  assumes "hub_ok ws h"
  shows "hub_ok ws (h\<lparr>hb_bus := publish e (hb_bus h)\<rparr>)"
proof -
  have len: "length (bs_store (publish e (hb_bus h))) = length (bs_store (hb_bus h))" by (simp add: publish_def)
  have "\<forall>s \<in> set (vals (bs_store (publish e (hb_bus h)))). sized (wc_outbound_queue_size ws) s"
    using assms by (auto simp: hub_ok_def dest!: publish_vals simp del: set_map intro: offer_sized)
  with assms show ?thesis by (simp add: hub_ok_def publish_keys len)
qed

lemma serve_start_ok:
  assumes "hub_ok ws h" "cid \<notin> set (keys (hb_connections h))" "cid \<notin> set (hb_accepting h)"
  shows "hub_ok ws (serve_start ws cid alive t now h)"
proof -
  let ?n = "length (bs_store (hb_bus h))"
  have store: "keys (bs_store (hb_bus h)) = [0..<?n]" and mem: "?n \<notin> set (bs_members (hb_bus h))"
    using assms(1) by (auto simp: hub_ok_def)
  then have up: "AList.update ?n s (bs_store (hb_bus h)) = bs_store (hb_bus h) @ [(?n, s)]" for s
    by (intro update_new) (simp add: store)
  let ?c = "\<lparr>cn_sid = ?n, cn_open = alive, cn_serving = False, cn_last_seen = t, cn_sent = []\<rparr>"
  let ?h = "set_connection cid ?c (h\<lparr>hb_bus := subscribe_enter ?n None (hb_bus h)\<rparr>)"
  have "hub_ok ws ?h"
    using assms mem up [of "new_subscriber (bs_queue_size (hb_bus h)) None"]
    by (auto simp: hub_ok_def set_connection_def subscribe_enter_def add_subscriber_def update_new
        sized_def new_subscriber_def)
  moreover from this have "hub_ok ws (set_connection cid (?c\<lparr>cn_sent := es, cn_serving := True\<rparr>) ?h)" for es
    by (rule set_connection_ok [where ?c0.0 = ?c]) (simp_all add: set_connection_def dict_simps)
  ultimately show ?thesis by (auto simp: serve_start_def Let_def send_def split: sum.split)
qed

lemma send_to_ok:
  assumes "hub_ok ws h" "map_of (hb_connections h) cid = Some c0" "cn_sid c = cn_sid c0"
  shows "hub_ok ws (send_to cid e c h)"
  using assms by (auto simp: send_to_def send_def serve_end_ok intro: set_connection_ok)

lemma with_client_ok:
  assumes "hub_ok ws h"
    "\<And>c s. map_of (hb_connections h) cid = Some c \<Longrightarrow> map_of (bs_store (hb_bus h)) (cn_sid c) = Some s \<Longrightarrow>
       hub_ok ws (f c s h)"
  shows "hub_ok ws (with_client cid f h)"
  using assms by (simp add: with_client_def split: option.split)

lemma handle_control_keeps:
  "handle_control now s msg = Inr (s', reply) \<Longrightarrow> sb_queue s' = sb_queue s \<and> sb_maxsize s' = sb_maxsize s \<and>
     sb_dropped s' = sb_dropped s"
  by (auto simp: handle_control_def Let_def split: json.splits if_splits option.splits prod.splits)

lemma pump_ok: "hub_ok ws h \<Longrightarrow> hub_ok ws (pump_outbound cid h)"
  unfolding pump_outbound_def
proof (rule with_client_ok)
  fix c s
  assume h: "hub_ok ws h" "map_of (hb_connections h) cid = Some c" "map_of (bs_store (hb_bus h)) (cn_sid c) = Some s"
  have "hub_ok ws (set_subscriber (cn_sid c) s' h)" if "get_nowait s = Some (e, s')" for e s'
    using that h store_sized [OF h(1,3)] by (intro set_subscriber_ok) (auto intro: subscribers.pop_ok)
  then show "hub_ok ws (case get_nowait s of None \<Rightarrow> h
      | Some (e, s') \<Rightarrow> let h1 = set_subscriber (cn_sid c) s' h in if \<not> wants s' e then h1 else send_to cid e c h1)"
    using h by (auto simp: Let_def set_subscriber_def intro: send_to_ok split: option.split)
qed

lemma inbound_ok: "hub_ok ws h \<Longrightarrow> hub_ok ws (read_inbound cid t now raw h)"
  unfolding read_inbound_def
proof (rule with_client_ok)
  fix c s
  assume h: "hub_ok ws h" "map_of (hb_connections h) cid = Some c" "map_of (bs_store (hb_bus h)) (cn_sid c) = Some s"
  let ?c = "c\<lparr>cn_last_seen := t\<rparr>" and ?h = "set_connection cid (c\<lparr>cn_last_seen := t\<rparr>) h"
  have ok: "hub_ok ws ?h" using h by (intro set_connection_ok) auto
  have c: "map_of (hb_connections ?h) cid = Some ?c" "map_of (bs_store (hb_bus ?h)) (cn_sid c) = Some s"
    using h by (simp_all add: set_connection_def dict_simps)
  have ok2: "hub_ok ws (set_subscriber (cn_sid c) s' ?h) \<and>
      map_of (hb_connections (set_subscriber (cn_sid c) s' ?h)) cid = Some ?c"
    if "handle_control now s msg = Inr (s', reply)" for msg s' reply
  proof
    have "sized (wc_outbound_queue_size ws) s'"
      using handle_control_keeps [OF that] store_sized [OF ok c(2)] by (simp add: sized_def)
    then show "hub_ok ws (set_subscriber (cn_sid c) s' ?h)" by (rule set_subscriber_ok [OF ok c(2)])
    show "map_of (hb_connections (set_subscriber (cn_sid c) s' ?h)) cid = Some ?c"
      using c(1) by (simp add: set_subscriber_def)
  qed
  show "hub_ok ws (let c1 = ?c; h1 = set_connection cid c1 h in case raw of
       None \<Rightarrow> send_to cid (error_event now ''INVALID_MESSAGE'') c1 h1
     | Some msg \<Rightarrow> (case handle_control now s msg of Inl _ \<Rightarrow> serve_end cid h1
          | Inr (s', reply) \<Rightarrow> (let h2 = set_subscriber (cn_sid c) s' h1
               in case reply of None \<Rightarrow> h2 | Some e \<Rightarrow> send_to cid e c1 h2)))"
    unfolding Let_def using send_to_ok [OF ok c(1)] serve_end_ok [OF ok] ok2
    by (auto intro: send_to_ok split: option.split sum.split)
qed

lemma heartbeat_ok: "hub_ok ws h \<Longrightarrow> hub_ok ws (heartbeat ws cid t now h)"
  unfolding heartbeat_def by (rule with_client_ok) (auto intro: serve_end_ok send_to_ok)

lemma lose_peer_ok: "hub_ok ws h \<Longrightarrow> hub_ok ws (lose_peer cid h)"
  by (auto simp: lose_peer_def split: option.split intro: set_connection_ok)

lemma hub_step_ok: "hub_step ws h h' \<Longrightarrow> hub_ok ws h \<Longrightarrow> hub_ok ws h'"
proof (induction rule: hub_step.induct)
  case (Arrive cid h)
  then show ?case by (auto simp: websocket_arrive_def hub_ok_def)
next
  case (Accepted cid h alive t now)
  let ?h = "h\<lparr>hb_accepting := removeAll cid (hb_accepting h)\<rparr>"
  have "hub_ok ws ?h" using Accepted.prems by (auto simp: hub_ok_def distinct_removeAll)
  moreover have "cid \<notin> set (keys (hb_connections ?h))" using Accepted by (auto simp: hub_ok_def)
  ultimately show ?case unfolding websocket_accepted_def by (rule serve_start_ok) simp
qed (auto intro: publish_ok pump_ok inbound_ok heartbeat_ok lose_peer_ok serve_end_ok)

lemma reachable_hub_ok: "reachable_hub ws h h' \<Longrightarrow> hub_ok ws h \<Longrightarrow> hub_ok ws h'"
  by (induction rule: reachable_hub.induct) (auto intro: hub_step_ok)

section \<open>Slots\<close>

text \<open>The clients that are in the table although nothing serves them.\<close>

definition unserved :: "hub \<Rightarrow> string set" where
  "unserved h = {cid. \<exists>c. map_of (hb_connections h) cid = Some c \<and> \<not> cn_serving c}"

lemma unserved_set_connection:
  "map_of (hb_connections h) cid = Some c0 \<Longrightarrow> cn_serving c = cn_serving c0 \<Longrightarrow>
   unserved (set_connection cid c h) = unserved h"
  by (auto simp: unserved_def set_connection_def dict_simps split: if_splits)

lemma unserved_set_subscriber [simp]: "unserved (set_subscriber i s h) = unserved h"
  by (simp add: unserved_def set_subscriber_def)

lemma unserved_serve_end [simp]: "unserved (serve_end cid h) = unserved h"
  by (auto simp: unserved_def serve_end_def dict_simps split: option.splits if_splits)

lemma unserved_send_to:
  "map_of (hb_connections h) cid = Some c0 \<Longrightarrow> cn_serving c = cn_serving c0 \<Longrightarrow>
   unserved (send_to cid e c h) = unserved h"
  by (auto simp: send_to_def send_def unserved_set_connection)

lemma unserved_with_client:
  "(\<And>c s. map_of (hb_connections h) cid = Some c \<Longrightarrow> unserved (f c s h) = unserved h) \<Longrightarrow>
   unserved (with_client cid f h) = unserved h"
  by (simp add: with_client_def split: option.split)

lemma unserved_serve_start:
  assumes "cid \<notin> set (keys (hb_connections h))"
  shows "unserved (serve_start ws cid alive t now h) = (if alive then unserved h else insert cid (unserved h))"
  using assms
  by (auto simp: serve_start_def Let_def send_def unserved_def set_connection_def dict_simps
      map_of_eq_None_iff [symmetric])

lemma unserved_inbound [simp]: "unserved (read_inbound cid t now raw h) = unserved h"
  unfolding read_inbound_def
proof (rule unserved_with_client)
  fix c s
  assume c: "map_of (hb_connections h) cid = Some c"
  let ?c = "c\<lparr>cn_last_seen := t\<rparr>"
  have h1: "unserved (set_connection cid ?c h) = unserved h"
    and c1: "map_of (hb_connections (set_connection cid ?c h)) cid = Some ?c"
    using c by (auto simp: unserved_set_connection) (simp add: set_connection_def dict_simps)
  have c2: "map_of (hb_connections (set_subscriber i s' (set_connection cid ?c h))) cid = Some ?c" for i s'
    using c1 by (simp add: set_subscriber_def)
  show "unserved (let c1 = ?c; h1 = set_connection cid c1 h in case raw of
       None \<Rightarrow> send_to cid (error_event now ''INVALID_MESSAGE'') c1 h1
     | Some msg \<Rightarrow> (case handle_control now s msg of Inl _ \<Rightarrow> serve_end cid h1
          | Inr (s', reply) \<Rightarrow> (let h2 = set_subscriber (cn_sid c) s' h1
               in case reply of None \<Rightarrow> h2 | Some e \<Rightarrow> send_to cid e c1 h2))) = unserved h"
    unfolding Let_def by (simp add: unserved_send_to [OF c1] unserved_send_to [OF c2] h1
        split: option.split sum.split prod.split)
qed

lemma unserved_step:
  assumes "hub_step ws h h'" "hub_ok ws h"
  shows "unserved h \<subseteq> unserved h'"
  using assms
proof (induction rule: hub_step.induct)
  case (Arrive cid h)
  then show ?case by (simp add: websocket_arrive_def unserved_def)
next
  case (Accepted cid h alive t now)
  let ?h = "h\<lparr>hb_accepting := removeAll cid (hb_accepting h)\<rparr>"
  have "cid \<notin> set (keys (hb_connections ?h))" using Accepted by (auto simp: hub_ok_def)
  moreover have "unserved ?h = unserved h" by (simp add: unserved_def)
  ultimately show ?case by (auto simp: websocket_accepted_def unserved_serve_start)
next
  case (Pump h cid)
  have "unserved (send_to cid e c (set_subscriber i s' h)) = unserved h"
    if "map_of (hb_connections h) cid = Some c" for e c i s'
    using that by (simp add: unserved_send_to [of _ cid c] set_subscriber_def)
      (simp add: unserved_def)
  then show ?case unfolding pump_outbound_def
    by (subst unserved_with_client) (auto simp: Let_def split: option.split)
next
  case (Beat h cid t now)
  show ?case unfolding heartbeat_def by (subst unserved_with_client) (auto simp: unserved_send_to)
next
  case (Lose cid h)
  show ?case by (auto simp: lose_peer_def unserved_set_connection split: option.split)
next
  case (Publish h e)
  show ?case by (simp add: unserved_def)
qed simp_all

lemma unserved_keys: "unserved h \<subseteq> set (keys (hb_connections h))"
  by (auto simp: unserved_def dest: map_of_SomeD intro: rev_image_eqI)

lemma finite_unserved [simp]: "finite (unserved h)"
  by (rule finite_subset [OF unserved_keys]) simp

lemma unserved_card: "card (unserved h) \<le> connection_count h"
proof -
  have "card (unserved h) \<le> card (set (keys (hb_connections h)))" by (intro card_mono unserved_keys) simp
  also have "\<dots> \<le> connection_count h" using card_length [of "keys (hb_connections h)"] by (simp add: connection_count_def)
  finally show ?thesis .
qed

lemma unserved_reachable: "reachable_hub ws h h' \<Longrightarrow> hub_ok ws h \<Longrightarrow> unserved h \<subseteq> unserved h'"
proof (induction rule: reachable_hub.induct)
  case (step h h' h'')
  then show ?case using unserved_step [OF step.hyps(2) reachable_hub_ok [OF step.hyps(1)]] by blast
qed simp

text \<open>
  Clients that arrive while others are still being accepted are not counted: any number of them
  gets past a bound of one.
\<close>

definition client :: "nat \<Rightarrow> string" where
  "client i = replicate i (CHR ''c'')"

lemma client_inj: "client i = client j \<longleftrightarrow> i = j"
  by (metis client_def length_replicate)

lemma all_arrive:
  assumes "0 < wc_max_connections ws"
  shows "reachable_hub ws (new_hub ws) ((new_hub ws)\<lparr>hb_accepting := map client [0..<n]\<rparr>)"
proof (induction n)
  case 0
  have "(new_hub ws)\<lparr>hb_accepting := []\<rparr> = new_hub ws" by (simp add: new_hub_def)
  then show ?case by (simp add: reachable_hub.refl)
next
  case (Suc n)
  let ?h = "(new_hub ws)\<lparr>hb_accepting := map client [0..<n]\<rparr>"
  have "hub_step ws ?h (websocket_arrive ws (client n) ?h)"
    by (rule hub_step.Arrive) (auto simp: new_hub_def client_inj)
  moreover have "websocket_arrive ws (client n) ?h = (new_hub ws)\<lparr>hb_accepting := map client [0..<Suc n]\<rparr>"
    using assms by (simp add: websocket_arrive_def at_capacity_def connection_count_def new_hub_def)
  ultimately show ?case using Suc.IH by (metis reachable_hub.step)
qed

lemma capacity_race:
  assumes "0 < wc_max_connections ws"
  shows "\<exists>h. reachable_hub ws (new_hub ws) h \<and> connection_count h = n"
proof -
  have "\<exists>h. reachable_hub ws (new_hub ws) h \<and> connection_count h = m \<and> hb_accepting h = map client [m..<n]"
    if "m \<le> n" for m
    using that
  proof (induction m)
    case 0
    show ?case
      by (rule exI [of _ "(new_hub ws)\<lparr>hb_accepting := map client [0..<n]\<rparr>"])
        (use all_arrive [OF assms] in \<open>auto simp: connection_count_def new_hub_def\<close>)
  next
    case (Suc m)
    then obtain h where h: "reachable_hub ws (new_hub ws) h" "connection_count h = m"
      "hb_accepting h = map client [m..<n]" by auto
    have ok: "hub_ok ws h" using h(1) by (rule reachable_hub_ok) (rule new_hub_ok)
    have acc: "hb_accepting h = client m # map client [Suc m..<n]" using h(3) Suc.prems by (simp add: upt_rec)
    let ?h' = "websocket_accepted ws (client m) True 0 0 h"
    have new: "client m \<notin> set (keys (hb_connections h))" using ok acc by (auto simp: hub_ok_def)
    have "hub_step ws h ?h'" using acc by (intro hub_step.Accepted) simp
    moreover have "connection_count ?h' = Suc m"
      using new h(2) by (simp add: websocket_accepted_def serve_start_def Let_def send_def set_connection_def
          connection_count_def update_new update_split [where ys = "[]"])
    moreover have "client m \<notin> set (map client [Suc m..<n])" by (auto simp: client_inj)
    then have "hb_accepting ?h' = map client [Suc m..<n]"
      using acc by (simp add: websocket_accepted_def serve_start_def Let_def send_def set_connection_def)
    ultimately show ?case using h(1) by (meson reachable_hub.step)
  qed
  from this [of n] show ?thesis by auto
qed

section \<open>Properties\<close>

text \<open>
  C30: one subscriber for each entry of the table. However clients arrive, are accepted, talk, time out or
  vanish and whatever is published, the bus holds exactly the subscribers of the clients in the
  table, a different one for each, no client's queue grows beyond the configured size, and the end of a
  greeted client's service takes both its entry and its subscriber away. A client that is gone before its greeting is not
  greeted, so it keeps both for good: the table itself can fill up with such clients (see \<open>slots\<close>).
\<close>

theorem one_queue_per_client:
  assumes "reachable_hub ws (new_hub ws) h"
  shows "subscriber_count (hb_bus h) = connection_count h \<and>
    set (bs_members (hb_bus h)) = cn_sid ` set (vals (hb_connections h)) \<and>
    distinct (map cn_sid (vals (hb_connections h))) \<and>
    (\<forall>i s. map_of (bs_store (hb_bus h)) i = Some s \<longrightarrow> 0 < wc_outbound_queue_size ws \<longrightarrow>
       int (length (sb_queue s)) \<le> wc_outbound_queue_size ws) \<and>
    (\<forall>cid c. map_of (hb_connections h) cid = Some c \<and> cn_serving c \<longrightarrow>
       map_of (hb_connections (serve_end cid h)) cid = None \<and> cn_sid c \<notin> set (bs_members (hb_bus (serve_end cid h))))"
proof -
  have ok: "hub_ok ws h" using assms new_hub_ok by (rule reachable_hub_ok)
  then have "length (bs_members (hb_bus h)) = card (cn_sid ` set (vals (hb_connections h)))"
    by (metis hub_ok_def distinct_card)
  also have "\<dots> = length (map cn_sid (vals (hb_connections h)))"
    using ok by (metis hub_ok_def distinct_card set_map)
  finally have "subscriber_count (hb_bus h) = connection_count h"
    by (simp add: subscriber_count_def connection_count_def)
  moreover have "set (bs_members (hb_bus h)) = cn_sid ` set (vals (hb_connections h))"
    using ok by (simp only: hub_ok_def)
  moreover have "distinct (map cn_sid (vals (hb_connections h)))"
    using ok by (simp only: hub_ok_def)
  moreover have "\<forall>cid c. map_of (hb_connections h) cid = Some c \<and> cn_serving c \<longrightarrow>
      map_of (hb_connections (serve_end cid h)) cid = None \<and> cn_sid c \<notin> set (bs_members (hb_bus (serve_end cid h)))"
    by (simp add: serve_end_def remove_subscriber_def dict_simps)
  ultimately show ?thesis using store_sized [OF ok] by (auto simp: sized_def)
qed

definition sample_hub :: hub where
  "sample_hub = websocket_accepted default_websocket_config ''a'' True 0 0
     (websocket_arrive default_websocket_config ''a'' (new_hub default_websocket_config))"

lemma sample_hub_reachable: "reachable_hub default_websocket_config (new_hub default_websocket_config) sample_hub"
  unfolding sample_hub_def
  by (intro reachable_hub.step [OF reachable_hub.step [OF reachable_hub.refl hub_step.Arrive] hub_step.Accepted])
    (simp_all add: new_hub_def websocket_arrive_def at_capacity_def connection_count_def default_websocket_config_def)

text \<open>One greeted client, and the hub after it has left.\<close>

theorem one_queue_per_client_witness:
  "reachable_hub default_websocket_config (new_hub default_websocket_config) sample_hub \<and>
   connection_count sample_hub = 1 \<and> subscriber_count (hb_bus sample_hub) = 1 \<and>
   map_of (hb_connections (serve_end ''a'' sample_hub)) ''a'' = None"
proof -
  obtain c where c: "hb_connections sample_hub = [(''a'', c)]" "cn_serving c"
    by (simp add: sample_hub_def websocket_accepted_def websocket_arrive_def at_capacity_def connection_count_def new_hub_def
        default_websocket_config_def serve_start_def send_def set_connection_def Let_def)
  then have "connection_count sample_hub = 1" by (simp add: connection_count_def)
  with one_queue_per_client [OF sample_hub_reachable] sample_hub_reachable c show ?thesis by simp
qed

text \<open>
  Who holds a slot. A greeted client is out of the table and off the bus when its service ends. One
  that drops before its greeting is never removed again, and once such clients alone fill the
  configured number of slots every later client is turned away.
\<close>

theorem slots:
  assumes "reachable_hub ws (new_hub ws) h" "reachable_hub ws h h'"
  shows "(\<forall>cid c. map_of (hb_connections h) cid = Some c \<longrightarrow> cn_serving c \<longrightarrow>
      map_of (hb_connections (serve_end cid h)) cid = None \<and> cn_sid c \<notin> set (bs_members (hb_bus (serve_end cid h)))) \<and>
    (\<forall>cid \<in> set (hb_accepting h). cid \<in> unserved (websocket_accepted ws cid False t now h)) \<and>
    unserved h \<subseteq> unserved h' \<and>
    (wc_max_connections ws \<le> int (card (unserved h)) \<longrightarrow> (\<forall>cid. websocket_arrive ws cid h' = h'))"
proof (intro conjI)
  have ok: "hub_ok ws h" using assms(1) new_hub_ok by (rule reachable_hub_ok)
  show "\<forall>cid c. map_of (hb_connections h) cid = Some c \<longrightarrow> cn_serving c \<longrightarrow>
      map_of (hb_connections (serve_end cid h)) cid = None \<and> cn_sid c \<notin> set (bs_members (hb_bus (serve_end cid h)))"
    by (simp add: serve_end_def remove_subscriber_def dict_simps)
  show "\<forall>cid \<in> set (hb_accepting h). cid \<in> unserved (websocket_accepted ws cid False t now h)"
  proof
    fix cid
    assume "cid \<in> set (hb_accepting h)"
    then have "cid \<notin> set (keys (hb_connections h))" using ok by (auto simp: hub_ok_def)
    then show "cid \<in> unserved (websocket_accepted ws cid False t now h)"
      by (simp add: websocket_accepted_def unserved_serve_start)
  qed
  show sub: "unserved h \<subseteq> unserved h'" using assms(2) ok by (rule unserved_reachable)
  have "card (unserved h) \<le> connection_count h'"
    using card_mono [OF finite_unserved sub] unserved_card [of h'] by linarith
  then show "wc_max_connections ws \<le> int (card (unserved h)) \<longrightarrow> (\<forall>cid. websocket_arrive ws cid h' = h')"
    by (simp add: websocket_arrive_def at_capacity_def)
qed

text \<open>One slot, taken for good by a client that dropped while it was accepted.\<close>

definition one_slot :: websocket_config where
  "one_slot = default_websocket_config\<lparr>wc_max_connections := 1\<rparr>"

theorem slots_witness:
  "\<exists>h. reachable_hub one_slot (new_hub one_slot) h \<and>
    (\<forall>h'. reachable_hub one_slot h h' \<longrightarrow> (\<forall>cid. websocket_arrive one_slot cid h' = h'))"
proof -
  let ?a = "websocket_arrive one_slot ''a'' (new_hub one_slot)"
  let ?h = "websocket_accepted one_slot ''a'' False 0 0 ?a"
  have acc: "hb_accepting ?a = [''a'']"
    by (simp add: websocket_arrive_def at_capacity_def connection_count_def new_hub_def one_slot_def
        default_websocket_config_def)
  have a: "reachable_hub one_slot (new_hub one_slot) ?a"
    by (rule reachable_hub.step [OF reachable_hub.refl hub_step.Arrive]) (simp_all add: new_hub_def)
  have r: "reachable_hub one_slot (new_hub one_slot) ?h"
    using acc by (intro reachable_hub.step [OF a hub_step.Accepted]) simp
  have "''a'' \<in> unserved ?h" using slots [OF a reachable_hub.refl] acc by auto
  then have "1 \<le> card (unserved ?h)" by (metis card_0_eq finite_unserved empty_iff less_one not_le)
  then have "wc_max_connections one_slot \<le> int (card (unserved ?h))"
    by (simp add: one_slot_def default_websocket_config_def)
  then have "\<forall>h'. reachable_hub one_slot ?h h' \<longrightarrow> (\<forall>cid. websocket_arrive one_slot cid h' = h')"
    using slots [OF r] by blast
  with r show ?thesis by blast
qed

text \<open>
  What a control message does to a client's topics. Names that are all known and not empty
  are added by \<open>subscribe\<close>; \<open>subscribe\<close> without names subscribes to everything; \<open>unsubscribe\<close> takes its
  names away, except that a client without any topic left first gets all of them back. Any
  other message, an unknown name among others, leaves the topics, and none touches the queue.
\<close>

theorem subscription_semantics:
  assumes "handle_control now s (JObj d) = Inr (s', reply)"
    "iterate (if py_bool (dict_get d ''events'' JNull) then dict_get d ''events'' JNull else JList []) = Some names"
  shows "sb_queue s' = sb_queue s \<and> sb_dropped s' = sb_dropped s \<and>
    (let known = \<forall>j \<in> set names. \<exists>t. j = JStr (event_value t); named = (\<lambda>e. JStr (event_value (ev_event e)) \<in> set names);
         action = dict_get d ''action'' JNull
     in if known \<and> action = JStr ''subscribe'' then
          \<forall>e. wants s' e \<longleftrightarrow> names = [] \<or> named e \<or> sb_topics s \<noteq> None \<and> wants s e
        else if known \<and> action = JStr ''unsubscribe'' then
          \<forall>e. wants s' e \<longleftrightarrow> \<not> named e \<and> (wants s e \<or> sb_topics s = Some {})
        else sb_topics s' = sb_topics s)"
proof -
  define action where "action = dict_get d ''action'' JNull"
  define valid where "valid = fst (parse_topics names)"
  define invalid where "invalid = snd (parse_topics names)"
  have known: "(\<forall>j \<in> set names. \<exists>t. j = JStr (event_value t)) \<longleftrightarrow> invalid = {}"
    by (auto simp: invalid_def parse_topics_def filter_empty_conv parse_event_type_iff [symmetric])
  have named: "t \<in> valid \<longleftrightarrow> JStr (event_value t) \<in> set names" for t
    by (auto simp: valid_def parse_topics_def image_iff parse_event_type_iff eq_commute [of "Some t"])
  have empty: "valid = {} \<longleftrightarrow> names = []" if "invalid = {}"
  proof
    assume "valid = {}"
    show "names = []"
    proof (cases names)
      case (Cons j js)
      with known that obtain t where "j = JStr (event_value t)" by auto
      with Cons named [of t] \<open>valid = {}\<close> show ?thesis by simp
    qed simp
  qed (simp add: valid_def parse_topics_def)
  have s': "sb_topics s' =
      (if invalid \<noteq> {} then sb_topics s
       else if action = JStr ''subscribe'' then subscribe_topics (sb_topics s) valid
       else if action = JStr ''unsubscribe'' then unsubscribe_topics (sb_topics s) valid
       else sb_topics s)"
    using assms by (auto simp: handle_control_def Let_def action_def [symmetric] valid_def invalid_def case_prod_beta
        split: if_splits json.splits)
  have sub: "wants s' e \<longleftrightarrow> names = [] \<or> JStr (event_value (ev_event e)) \<in> set names \<or> sb_topics s \<noteq> None \<and> wants s e"
    if "invalid = {}" "action = JStr ''subscribe''" for e
    using that empty by (auto simp: wants_def s' subscribe_topics_def named split: option.splits)
  have unsub: "wants s' e \<longleftrightarrow> JStr (event_value (ev_event e)) \<notin> set names \<and> (wants s e \<or> sb_topics s = Some {})"
    if "invalid = {}" "action = JStr ''unsubscribe''" for e
    using that by (auto simp: wants_def s' unsubscribe_topics_def named split: option.splits)
  show ?thesis
    using handle_control_keeps [OF assms(1)] sub unsub s'
    by (simp add: known Let_def action_def [symmetric])
qed

text \<open>A client that had unsubscribed from everything asks again not to get heartbeats, and gets all the rest.\<close>

theorem subscription_semantics_witness:
  "\<exists>s' reply. handle_control 0 (new_subscriber 5 (Some {}))
      (JObj [(''action'', JStr ''unsubscribe''), (''events'', JList [JStr ''heartbeat''])]) = Inr (s', reply) \<and>
    wants s' (event_of 0 TICKER_UPDATE []) \<and> \<not> wants (new_subscriber 5 (Some {})) (event_of 0 TICKER_UPDATE [])"
proof -
  let ?d = "[(''action'', JStr ''unsubscribe''), (''events'', JList [JStr ''heartbeat''])]"
  let ?s = "new_subscriber 5 (Some {})"
  have hb: "parse_event_type (JStr ''heartbeat'') = Some HEARTBEAT" using parse_event_value [of HEARTBEAT] by simp
  have it: "iterate (if py_bool (dict_get ?d ''events'' JNull) then dict_get ?d ''events'' JNull else JList []) =
      Some [JStr ''heartbeat'']"
    by (simp add: dict_get_def)
  obtain s' reply where r: "handle_control 0 ?s (JObj ?d) = Inr (s', reply)"
    by (simp add: handle_control_def dict_get_def parse_topics_def hb Let_def)
  have "\<exists>t. JStr ''heartbeat'' = JStr (event_value t)" by (rule exI [of _ HEARTBEAT]) simp
  with subscription_semantics [OF r it] have "wants s' (event_of 0 TICKER_UPDATE [])"
    by (simp add: dict_get_def event_of_def new_subscriber_def)
  then show ?thesis using r by (auto simp: wants_def new_subscriber_def)
qed

end
