(* ===== verification/Lifespan.thy ===== *)
theory Lifespan
  imports AppState Scheduler BinanceService MarketStream ModelRegistry ConnectionManager
begin

text \<open>
  \<open>lifespan.py\<close> and the checks of \<open>database/session.py\<close> it uses: startup, the health probes and shutdown. The
  attributes of \<open>app.state\<close> are a record, a database session the database before and after it. An
  environment says which database call is answered, what Redis answers and what the exchange
  sends; \<open>str_exc\<close> is the text of an exception.
\<close>

section \<open>The database\<close>

text \<open>\<open>alembic_version\<close> and the application's tables; \<open>None\<close> where they do not exist.\<close>

record backend_db =
  bd_alembic :: "string list option"
  bd_tables :: "(model_version list \<times> system_setting list) option"

datatype db_call = CallPing | CallRevision | CallRegistry | CallDemote | CallRecord | CallLoad | CallCommit

definition alembic_revision :: "backend_db \<Rightarrow> exn + string option" where
  "alembic_revision db = (case bd_alembic db of
     None \<Rightarrow> Inl DatabaseError
   | Some [] \<Rightarrow> Inr None
   | Some (v # _) \<Rightarrow> Inr (Some v))"

text \<open>A call that is not answered, or a table that is not there, is a database error.\<close>

definition db_answer :: "(db_call \<Rightarrow> bool) \<Rightarrow> db_call \<Rightarrow> exn + 'a \<Rightarrow> exn + 'a" where
  "db_answer up c r = (if up c then r else Inl DatabaseError)"

section \<open>Application state\<close>

datatype startup_problem =
    NotMigrated
  | RegistryBroken "(string \<times> string) list"
  | DatabaseDown string
  | RedisDown string
  | BinanceDown string
  | StreamsFailed string

fun comma_separated :: "string list \<Rightarrow> string" where
  "comma_separated [] = ''''"
| "comma_separated [s] = s"
| "comma_separated (s # t # ss) = s @ '', '' @ comma_separated (t # ss)"

fun problem_text :: "startup_problem \<Rightarrow> string" where
  "problem_text NotMigrated = ''Database schema has not been migrated. Run `alembic upgrade head`.''"
| "problem_text (RegistryBroken demoted) = ''Model registry references artifacts that are missing on disk; '' @
     ''demoted from PRODUCTION: '' @ comma_separated (map (\<lambda>(m, v). m @ '':'' @ v) demoted) @ ''.''"
| "problem_text (DatabaseDown e) = ''Database unavailable at startup: '' @ e"
| "problem_text (RedisDown e) = ''Redis unavailable at startup: '' @ e"
| "problem_text (BinanceDown e) = ''Binance unavailable at startup: '' @ e"
| "problem_text (StreamsFailed e) = ''Market data streams failed to start: '' @ e"

record app_attributes =
  as_problems :: "startup_problem list"
  as_schema_revision :: "string option"
  as_registry_report :: "(nat \<times> artifact_problem list) option"
  as_trading_mode :: "trading_mode option"
  as_engine_state :: "engine_state option"
  as_live_armed :: "bool option"
  as_binance :: "binance_service option"
  as_market_stream :: bool
  as_scheduler :: "scheduler option"
  as_manager :: "hub option"

definition new_app :: app_attributes where
  "new_app = \<lparr>as_problems = [], as_schema_revision = None, as_registry_report = None, as_trading_mode = None,
     as_engine_state = None, as_live_armed = None, as_binance = None, as_market_stream = False,
     as_scheduler = None, as_manager = None\<rparr>"

definition add_problem :: "startup_problem \<Rightarrow> app_attributes \<Rightarrow> app_attributes" where
  "add_problem p a = a\<lparr>as_problems := as_problems a @ [p]\<rparr>"

record startup_env =
  se_disk :: disk
  se_models_base :: string
  se_now :: string
  se_up :: "db_call \<Rightarrow> bool"
  se_redis :: "exn + unit"
  se_requests :: "env_item list"
  se_hmac :: "string \<Rightarrow> payload \<Rightarrow> string"
  se_clock :: int
  se_str_exc :: "exn \<Rightarrow> string"
  se_str_failure :: "request_result \<Rightarrow> string"

section \<open>Startup checks\<close>

text \<open>
  The database part, one step per statement; each returns the attributes it set even when a later one
  fails. The first component is what a commit would make durable.
\<close>

definition check_schema :: "startup_env \<Rightarrow> backend_db \<Rightarrow> app_attributes \<Rightarrow> app_attributes \<times> (exn + unit)" where
  "check_schema E db a =
     (case db_answer (se_up E) CallPing (db_answer (se_up E) CallRevision (alembic_revision db)) of
        Inl err \<Rightarrow> (a, Inl err)
      | Inr revision \<Rightarrow>
          ((if revision = None then add_problem NotMigrated a else a)\<lparr>as_schema_revision := revision\<rparr>, Inr ()))"

definition check_registry ::
  "startup_env \<Rightarrow> backend_db \<Rightarrow> app_attributes \<Rightarrow> app_attributes \<times> (exn + model_version list \<times> system_setting list)" where
  "check_registry E db a =
     (case db_answer (se_up E) CallRegistry (case bd_tables db of None \<Rightarrow> Inl DatabaseError | Some t \<Rightarrow> Inr t) of
        Inl err \<Rightarrow> (a, Inl err)
      | Inr (models, table) \<Rightarrow>
          (let report = verify_registry_artifacts (se_disk E) (se_models_base E) models;
               a1 = a\<lparr>as_registry_report := Some report\<rparr>
           in if \<not> production_broken report then (a1, Inr (models, table))
              else if \<not> se_up E CallDemote then (a1, Inl DatabaseError)
              else let (models', demoted) = demote_broken_production_models models (snd report)
                in (add_problem (RegistryBroken demoted) a1, Inr (models', table))))"

definition restore_state ::
  "startup_env \<Rightarrow> settings \<Rightarrow> system_setting list \<Rightarrow> app_attributes \<Rightarrow> app_attributes \<times> (exn + system_setting list)" where
  "restore_state E st table a =
     (case db_answer (se_up E) CallRecord (record_startup (se_now E) table) of
        Inl err \<Rightarrow> (a, Inl err)
      | Inr table' \<Rightarrow>
          (case db_answer (se_up E) CallLoad (load_application_state st table') of
             Inl err \<Rightarrow> (a, Inl err)
           | Inr s \<Rightarrow> (a\<lparr>as_trading_mode := Some (ap_mode s), as_engine_state := Some (ap_engine_state s),
                 as_live_armed := Some (ap_live_armed s)\<rparr>, Inr table')))"

definition startup_session ::
  "startup_env \<Rightarrow> settings \<Rightarrow> backend_db \<Rightarrow> app_attributes \<Rightarrow> app_attributes \<times> (exn + backend_db)" where
  "startup_session E st db a =
     (case check_schema E db a of
        (a1, Inl err) \<Rightarrow> (a1, Inl err)
      | (a1, Inr _) \<Rightarrow>
          (case check_registry E db a1 of
             (a2, Inl err) \<Rightarrow> (a2, Inl err)
           | (a2, Inr (models, table)) \<Rightarrow>
               (case restore_state E st table a2 of
                  (a3, Inl err) \<Rightarrow> (a3, Inl err)
                | (a3, Inr table') \<Rightarrow>
                    (a3, db_answer (se_up E) CallCommit (Inr (db\<lparr>bd_tables := Some (models, table')\<rparr>))))))"

text \<open>An exception rolls the session back; what the attributes were set to so far stays set.\<close>

definition startup_database ::
  "startup_env \<Rightarrow> settings \<Rightarrow> backend_db \<Rightarrow> app_attributes \<Rightarrow> app_attributes \<times> backend_db" where
  "startup_database E st db a =
     (case startup_session E st db a of
        (a1, Inr db') \<Rightarrow> (a1, db')
      | (a1, Inl err) \<Rightarrow>
          ((add_problem (DatabaseDown (se_str_exc E err)) a1)\<lparr>as_schema_revision := None, as_registry_report := None\<rparr>, db))"

definition startup_redis :: "startup_env \<Rightarrow> app_attributes \<Rightarrow> app_attributes" where
  "startup_redis E a = (case se_redis E of Inr _ \<Rightarrow> a | Inl err \<Rightarrow> add_problem (RedisDown (se_str_exc E err)) a)"

text \<open>\<open>None\<close>: the environment of the requests ran out.\<close>

definition start_binance :: "startup_env \<Rightarrow> settings \<Rightarrow> app_attributes \<Rightarrow> app_attributes option" where
  "start_binance E st a =
     (case service_connect (se_hmac E) st (se_clock E) (new_service st) (se_requests E) of
        None \<Rightarrow> None
      | Some (v, _, Some cause) \<Rightarrow>
          (let text = se_str_failure E cause in
           Some (add_problem (BinanceDown text) (a\<lparr>as_binance := Some (v\<lparr>bv_last_error := Some text\<rparr>), as_market_stream := False\<rparr>)))
      | Some (v, _, None) \<Rightarrow>
          (case start_stream False (bridge_streams (st_trading st)) (bv_stream v) of
             Inl err \<Rightarrow> Some (add_problem (StreamsFailed (se_str_exc E err)) (a\<lparr>as_binance := Some v, as_market_stream := False\<rparr>))
           | Inr s \<Rightarrow> Some (a\<lparr>as_binance := Some (v\<lparr>bv_stream := s\<rparr>), as_market_stream := True\<rparr>)))"

definition start_heartbeat :: "settings \<Rightarrow> app_attributes \<Rightarrow> app_attributes" where
  "start_heartbeat st a = a\<lparr>as_scheduler := Some (start_scheduler st new_scheduler)\<rparr>"

definition startup_checks ::
  "startup_env \<Rightarrow> settings \<Rightarrow> backend_db \<Rightarrow> app_attributes \<Rightarrow> (app_attributes \<times> backend_db) option" where
  "startup_checks E st db a =
     (let (a1, db') = startup_database E st db a in
      map_option (\<lambda>a2. (start_heartbeat st a2, db')) (start_binance E st (startup_redis E a1)))"

text \<open>\<open>lifespan\<close> up to its \<open>yield\<close>; the left side is the \<open>ConfigurationError\<close> with its problems.\<close>

definition lifespan_start ::
  "startup_env \<Rightarrow> settings \<Rightarrow> backend_db \<Rightarrow> (env_problem list + app_attributes \<times> backend_db) option" where
  "lifespan_start E st db =
     (if validate_environment st \<noteq> [] then Some (Inl (validate_environment st))
      else map_option Inr (startup_checks E st db (new_app\<lparr>as_manager := Some (new_hub (st_websocket st))\<rparr>)))"

section \<open>Health probes\<close>

text \<open>What the probes see when they run; a probe named by \<open>pv_hang\<close> exceeds its time budget.\<close>

record probe_env =
  pv_app :: app_attributes
  pv_db :: backend_db
  pv_up :: "db_call \<Rightarrow> bool"
  pv_disk :: disk
  pv_models_base :: string
  pv_redis :: "exn + unit"
  pv_hang :: "string \<Rightarrow> bool"
  pv_synced_at :: json
  pv_checked_at :: string
  pv_now :: int
  pv_show_time :: "int \<Rightarrow> string"
  pv_str_exc :: "exn \<Rightarrow> string"

definition backend_probe :: "probe_env \<Rightarrow> probe_result" where
  "backend_probe e = Reported (component_of ''backend'' ONLINE)"

definition database_probe :: "probe_env \<Rightarrow> probe_result" where
  "database_probe e =
     (case db_answer (pv_up e) CallPing (db_answer (pv_up e) CallRevision
         (case alembic_revision (pv_db e) of Inl err \<Rightarrow> Inl err | Inr v \<Rightarrow> db_answer (pv_up e) CallCommit (Inr v))) of
        Inl err \<Rightarrow> ProbeRaised (pv_str_exc e err)
      | Inr None \<Rightarrow> Reported ((component_of ''database'' DEGRADED)\<lparr>hs_detail := JStr ''Connected, but no migrations have been applied.''\<rparr>)
      | Inr (Some v) \<Rightarrow> Reported ((component_of ''database'' ONLINE)\<lparr>hs_metadata := [(''schema_revision'', JStr v)]\<rparr>))"

definition redis_probe :: "probe_env \<Rightarrow> probe_result" where
  "redis_probe e = (case pv_redis e of
     Inl err \<Rightarrow> ProbeRaised (pv_str_exc e err)
   | Inr _ \<Rightarrow> Reported (component_of ''redis'' ONLINE))"

definition websocket_probe :: "probe_env \<Rightarrow> probe_result" where
  "websocket_probe e = (case as_manager (pv_app e) of
     None \<Rightarrow> ProbeRaised (pv_str_exc e AttributeError)
   | Some h \<Rightarrow> Reported ((component_of ''websocket'' ONLINE)\<lparr>hs_metadata := [(''connections'', JInt (int (connection_count h)))]\<rparr>))"

definition model_registry_probe :: "probe_env \<Rightarrow> probe_result" where
  "model_registry_probe e =
     (case db_answer (pv_up e) CallRegistry (case bd_tables (pv_db e) of None \<Rightarrow> Inl DatabaseError
         | Some (models, _) \<Rightarrow> db_answer (pv_up e) CallCommit (Inr (verify_registry_artifacts (pv_disk e) (pv_models_base e) models))) of
        Inl err \<Rightarrow> ProbeRaised (pv_str_exc e err)
      | Inr report \<Rightarrow>
          if production_broken report then Reported ((component_of ''model_registry'' ERROR)\<lparr>hs_detail := JStr
            (''A PRODUCTION model artifact is missing or corrupted; '' @ ''the model cannot be loaded and will not be traded on.'')\<rparr>)
          else if \<not> report_ok report then Reported ((component_of ''model_registry'' DEGRADED)\<lparr>hs_detail := JStr
            ''Some non-production model artifacts are missing on disk.''\<rparr>)
          else Reported ((component_of ''model_registry'' ONLINE)\<lparr>hs_metadata := [(''registered_models'', JInt (int (fst report)))]\<rparr>))"

text \<open>The service and the scheduler are captured when the probes are registered; their state is the current one.\<close>

definition binance_probe_now :: "settings \<Rightarrow> probe_env \<Rightarrow> probe_result" where
  "binance_probe_now st e = (case as_binance (pv_app e) of
     None \<Rightarrow> ProbeRaised (pv_str_exc e AttributeError)
   | Some v \<Rightarrow> binance_probe (pv_str_exc e) st (pv_synced_at e) (pv_checked_at e) v)"

definition market_data_probe_now :: "settings \<Rightarrow> probe_env \<Rightarrow> probe_result" where
  "market_data_probe_now st e = (case as_binance (pv_app e) of
     None \<Rightarrow> ProbeRaised (pv_str_exc e AttributeError)
   | Some v \<Rightarrow> market_data_probe (pv_str_exc e) st (pv_show_time e) (pv_now e) v)"

definition scheduler_probe_now :: "settings \<Rightarrow> probe_env \<Rightarrow> probe_result" where
  "scheduler_probe_now st e = (case as_scheduler (pv_app e) of
     None \<Rightarrow> ProbeRaised (pv_str_exc e AttributeError)
   | Some s \<Rightarrow> Reported (scheduler_probe (pv_show_time e) st s))"

definition timed :: "string \<Rightarrow> (probe_env \<Rightarrow> probe_result) \<Rightarrow> probe_env \<Rightarrow> probe_result" where
  "timed name p e = (if pv_hang e name then TimedOut else p e)"

definition register_timed :: "string \<Rightarrow> (probe_env \<Rightarrow> probe_result) \<Rightarrow> probe_env probes \<Rightarrow> probe_env probes" where
  "register_timed name p = register_probe name (timed name p)"

definition optional_status :: "bool \<Rightarrow> component_health" where
  "optional_status enabled = (if \<not> enabled then DISABLED else NOT_IMPLEMENTED)"

definition core_probes :: "probe_env probes" where
  "core_probes = register_timed ''model_registry'' model_registry_probe (register_timed ''websocket'' websocket_probe
     (register_timed ''redis'' redis_probe (register_timed ''database'' database_probe (register_timed ''backend'' backend_probe []))))"

definition exchange_probes :: "settings \<Rightarrow> app_attributes \<Rightarrow> probe_env probes \<Rightarrow> probe_env probes" where
  "exchange_probes st a probes =
     (if as_binance a = None then probes
      else register_timed ''market_data'' (market_data_probe_now st) (register_timed ''binance'' (binance_probe_now st) probes))"

definition heartbeat_probe :: "settings \<Rightarrow> app_attributes \<Rightarrow> probe_env probes \<Rightarrow> probe_env probes" where
  "heartbeat_probe st a probes =
     (if as_scheduler a = None
      then register_static ''scheduler'' NOT_IMPLEMENTED (JStr ''Planned in the Tier 1 phase list.'') probes
      else register_timed ''scheduler'' (scheduler_probe_now st) probes)"

definition static_probes :: "settings \<Rightarrow> probe_env probes \<Rightarrow> probe_env probes" where
  "static_probes st probes =
     register_static ''news'' (optional_status (nc_enabled (st_news st))) (JStr ''Tier 2 component.'')
     (register_static ''claude'' (optional_status (lc_claude_enabled (st_llm st))) (JStr ''Tier 2 component.'')
     (register_static ''ollama'' (optional_status (lc_ollama_enabled (st_llm st))) (JStr ''Tier 2 component.'')
     (register_static ''trading_engine'' NOT_IMPLEMENTED
       (JStr ''No automated signal-to-order execution exists yet (manual only, Phase 15b).'')
     (register_static ''technical_engine'' ONLINE (JStr ''Phase 7/8 technical + structure engines.'')
     (register_static ''risk_engine'' ONLINE (JStr ''Phase 10 risk engine.'') probes)))))"

definition register_health_probes :: "settings \<Rightarrow> app_attributes \<Rightarrow> probe_env probes" where
  "register_health_probes st a = static_probes st (heartbeat_probe st a (exchange_probes st a core_probes))"

section \<open>Shutdown\<close>

text \<open>The \<open>finally\<close> part: a failure of one step is logged and the next one runs.\<close>

definition persist_shutdown :: "string \<Rightarrow> (db_call \<Rightarrow> bool) \<Rightarrow> backend_db \<Rightarrow> backend_db" where
  "persist_shutdown now up db =
     (case db_answer up CallRecord (case bd_tables db of None \<Rightarrow> Inl DatabaseError
         | Some (models, table) \<Rightarrow> map_sum id (Pair models) (record_shutdown now table)) of
        Inl _ \<Rightarrow> db
      | Inr t \<Rightarrow> if up CallCommit then db\<lparr>bd_tables := Some t\<rparr> else db)"

definition lifespan_stop :: "string \<Rightarrow> (db_call \<Rightarrow> bool) \<Rightarrow> app_attributes \<Rightarrow> backend_db \<Rightarrow> app_attributes \<times> backend_db" where
  "lifespan_stop now up a db =
     (a\<lparr>as_scheduler := map_option stop_scheduler (as_scheduler a), as_binance := map_option service_close (as_binance a)\<rparr>,
      persist_shutdown now up db)"


section \<open>Lemmas\<close>

definition repaired_models :: "startup_env \<Rightarrow> model_version list \<Rightarrow> model_version list" where
  "repaired_models E models =
     (let report = verify_registry_artifacts (se_disk E) (se_models_base E) models
      in if production_broken report then fst (demote_broken_production_models models (snd report)) else models)"

text \<open>What has to be there for the database part to go through.\<close>

lemma schema_cases:
  assumes "check_schema E db a = (a', r)"
  obtains (failed) err where "r = Inl err" "a' = a"
  | (checked) revision where "r = Inr ()" "alembic_revision db = Inr revision"
      "a' = (if revision = None then add_problem NotMigrated a else a)\<lparr>as_schema_revision := revision\<rparr>"
  using assms by (auto simp: check_schema_def db_answer_def split: sum.splits if_splits)

lemma registry_cases:
  assumes "check_registry E db a = (a', r)"
  obtains (failed) err report where "r = Inl err" "a' = a \<or> a' = a\<lparr>as_registry_report := Some report\<rparr>"
  | (checked) models table report demoted where "r = Inr (repaired_models E models, table)" "bd_tables db = Some (models, table)"
      "report = verify_registry_artifacts (se_disk E) (se_models_base E) models"
      "a' = (if production_broken report then add_problem (RegistryBroken demoted) (a\<lparr>as_registry_report := Some report\<rparr>)
         else a\<lparr>as_registry_report := Some report\<rparr>)"
proof (cases "if se_up E CallRegistry then bd_tables db else None")
  case None
  then have "r = Inl DatabaseError \<and> a' = a"
    using assms by (auto simp: check_registry_def db_answer_def split: if_splits)
  then show ?thesis using failed by blast
next
  case (Some t)
  obtain models table where t: "t = (models, table)" by fastforce
  define report where "report = verify_registry_artifacts (se_disk E) (se_models_base E) models"
  obtain models' demoted where d: "demote_broken_production_models models (snd report) = (models', demoted)" by fastforce
  have up: "se_up E CallRegistry" "bd_tables db = Some (models, table)" using Some t by (auto split: if_splits)
  have c: "check_registry E db a = (let a1 = a\<lparr>as_registry_report := Some report\<rparr> in
      if \<not> production_broken report then (a1, Inr (models, table))
      else if \<not> se_up E CallDemote then (a1, Inl DatabaseError)
      else (add_problem (RegistryBroken demoted) a1, Inr (models', table)))"
    by (simp add: check_registry_def db_answer_def up report_def [symmetric] d Let_def)
  have m: "repaired_models E models = (if production_broken report then models' else models)"
    by (simp add: repaired_models_def report_def [symmetric] d Let_def)
  show ?thesis
  proof (cases "production_broken report \<and> \<not> se_up E CallDemote")
    case True
    then show ?thesis using assms failed [of DatabaseError report] by (simp add: c Let_def)
  next
    case False
    then show ?thesis using assms checked [OF _ up(2) report_def, of demoted] by (auto simp: c m Let_def split: if_splits)
  qed
qed

lemma restore_cases:
  assumes "restore_state E st table a = (a', r)"
  obtains (failed) err where "r = Inl err" "a' = a"
  | (restored) table' s where "r = Inr table'" "record_startup (se_now E) table = Inr table'"
      "load_application_state st table' = Inr s"
      "a' = a\<lparr>as_trading_mode := Some (ap_mode s), as_engine_state := Some (ap_engine_state s), as_live_armed := Some (ap_live_armed s)\<rparr>"
  using assms by (auto simp: restore_state_def db_answer_def split: sum.splits if_splits)


lemma session_ok:
  assumes "startup_session E st db a = (a', Inr db')"
  obtains revision models table table' s where "alembic_revision db = Inr revision" "bd_tables db = Some (models, table)"
    "record_startup (se_now E) table = Inr table'" "load_application_state st table' = Inr s"
    "db' = db\<lparr>bd_tables := Some (repaired_models E models, table')\<rparr>"
    "as_trading_mode a' = Some (ap_mode s)" "as_engine_state a' = Some (ap_engine_state s)"
    "as_live_armed a' = Some (ap_live_armed s)" "as_schema_revision a' = revision"
    "\<exists>demoted. as_problems a' = as_problems a @ (if revision = None then [NotMigrated] else []) @
       (if production_broken (verify_registry_artifacts (se_disk E) (se_models_base E) models) then [RegistryBroken demoted] else [])"
    "as_manager a' = as_manager a"
proof -
  obtain a1 r1 where 1: "check_schema E db a = (a1, r1)" by fastforce
  from 1 show ?thesis
  proof (cases rule: schema_cases)
    case failed
    with 1 assms show ?thesis by (simp add: startup_session_def)
  next
    case (checked revision)
    note c1 = checked
    obtain a2 r2 where 2: "check_registry E db a1 = (a2, r2)" by fastforce
    from 2 show ?thesis
    proof (cases rule: registry_cases)
      case failed
      with 1 2 c1 assms show ?thesis by (auto simp: startup_session_def)
    next
      case (checked models table report demoted)
      note c2 = checked
      obtain a3 r3 where 3: "restore_state E st table a2 = (a3, r3)" by fastforce
      from 3 show ?thesis
      proof (cases rule: restore_cases)
        case failed
        with 1 2 3 c1 c2 assms show ?thesis by (auto simp: startup_session_def)
      next
        case (restored table' s)
        with 1 2 3 c1 c2 assms have "a' = a3" "db' = db\<lparr>bd_tables := Some (repaired_models E models, table')\<rparr>"
          by (auto simp: startup_session_def db_answer_def split: if_splits)
        with c1 c2 restored show ?thesis
          by (intro that [of revision models table table' s]) (auto simp: add_problem_def)
      qed
    qed
  qed
qed

text \<open>Whatever fails, the trading state is either not set or the one that was loaded.\<close>

lemma session_state:
  assumes "startup_session E st db a = (a', r)"
  shows "(as_trading_mode a' = as_trading_mode a \<and> as_engine_state a' = as_engine_state a \<and> as_live_armed a' = as_live_armed a) \<or>
    (\<exists>models table table' s. bd_tables db = Some (models, table) \<and> record_startup (se_now E) table = Inr table' \<and>
       load_application_state st table' = Inr s \<and> as_trading_mode a' = Some (ap_mode s) \<and>
       as_engine_state a' = Some (ap_engine_state s) \<and> as_live_armed a' = Some (ap_live_armed s))"
    and "\<exists>ps. as_problems a' = as_problems a @ ps \<and> set ps \<subseteq> {NotMigrated} \<union> range RegistryBroken"
    and "as_manager a' = as_manager a"
proof -
  have "((as_trading_mode a' = as_trading_mode a \<and> as_engine_state a' = as_engine_state a \<and> as_live_armed a' = as_live_armed a) \<or>
    (\<exists>models table table' s. bd_tables db = Some (models, table) \<and> record_startup (se_now E) table = Inr table' \<and>
       load_application_state st table' = Inr s \<and> as_trading_mode a' = Some (ap_mode s) \<and>
       as_engine_state a' = Some (ap_engine_state s) \<and> as_live_armed a' = Some (ap_live_armed s))) \<and>
    (\<exists>ps. as_problems a' = as_problems a @ ps \<and> set ps \<subseteq> {NotMigrated} \<union> range RegistryBroken) \<and> as_manager a' = as_manager a"
    (is "?S a' \<and> ?P a' \<and> ?M a'")
  proof -
    obtain a1 r1 where 1: "check_schema E db a = (a1, r1)" by fastforce
    have s1: "?P a1 \<and> ?M a1 \<and> as_trading_mode a1 = as_trading_mode a \<and> as_engine_state a1 = as_engine_state a \<and> as_live_armed a1 = as_live_armed a"
      using 1 by (cases rule: schema_cases) (auto simp: add_problem_def)
    show ?thesis
    proof (cases r1)
      case (Inl err)
      with 1 assms s1 show ?thesis by (simp add: startup_session_def)
    next
      case (Inr u)
      obtain a2 r2 where 2: "check_registry E db a1 = (a2, r2)" by fastforce
      have "\<exists>ps. as_problems a2 = as_problems a1 @ ps \<and> set ps \<subseteq> range RegistryBroken"
        using 2 by (cases rule: registry_cases) (auto simp: add_problem_def)
      with s1 have p2: "?P a2" by fastforce
      have s2: "?M a2 \<and> as_trading_mode a2 = as_trading_mode a \<and> as_engine_state a2 = as_engine_state a \<and> as_live_armed a2 = as_live_armed a"
        using 2 s1 by (cases rule: registry_cases) (auto simp: add_problem_def)
      from 2 show ?thesis
      proof (cases rule: registry_cases)
        case failed
        with 1 2 Inr assms p2 s2 show ?thesis by (simp add: startup_session_def)
      next
        case (checked models table report demoted)
        obtain a3 r3 where 3: "restore_state E st table a2 = (a3, r3)" by fastforce
        have "a' = a3" using 1 2 3 Inr checked(1) assms by (auto simp: startup_session_def split: sum.splits)
        then show ?thesis using p2 s2 checked(2) 3 by (cases rule: restore_cases [OF 3]) auto
      qed
    qed
  qed
  then show "?S a'" "?P a'" "?M a'" by blast+
qed


definition exchange_connects :: "startup_env \<Rightarrow> settings \<Rightarrow> bool" where
  "exchange_connects E st \<longleftrightarrow>
     (case service_connect (se_hmac E) st (se_clock E) (new_service st) (se_requests E) of
        Some (_, _, None) \<Rightarrow> True | _ \<Rightarrow> False)"

lemma start_binance_keeps:
  assumes "start_binance E st a = Some a'"
  shows "as_trading_mode a' = as_trading_mode a \<and> as_engine_state a' = as_engine_state a \<and> as_live_armed a' = as_live_armed a \<and>
    as_manager a' = as_manager a \<and> as_market_stream a' = exchange_connects E st"
    and "\<exists>v. as_binance a' = Some v \<and> bv_connected v = exchange_connects E st"
    and "\<exists>cause. as_problems a' = as_problems a @ (if exchange_connects E st then [] else [BinanceDown cause])"
proof -
  obtain v env' r where c: "service_connect (se_hmac E) st (se_clock E) (new_service st) (se_requests E) = Some (v, env', r)"
    using assms by (auto simp: start_binance_def split: option.splits)
  have conn: "bv_connected v = (r = None)"
    using connect_keeps [OF c] by (cases r) (auto simp: new_service_def)
  have e: "exchange_connects E st = (r = None)" by (simp add: exchange_connects_def c split: option.split)
  show "as_trading_mode a' = as_trading_mode a \<and> as_engine_state a' = as_engine_state a \<and> as_live_armed a' = as_live_armed a \<and>
    as_manager a' = as_manager a \<and> as_market_stream a' = exchange_connects E st"
    "\<exists>v. as_binance a' = Some v \<and> bv_connected v = exchange_connects E st"
    "\<exists>cause. as_problems a' = as_problems a @ (if exchange_connects E st then [] else [BinanceDown cause])"
    using assms conn by (cases r; auto simp: start_binance_def c e add_problem_def start_stream_def Let_def)+
qed

text \<open>A start that is not refused, part by part.\<close>

lemma lifespan_start_cases:
  assumes "lifespan_start E st db = Some (Inr (a, db'))"
  obtains a1 where "validate_environment st = []"
    "startup_database E st db (new_app\<lparr>as_manager := Some (new_hub (st_websocket st))\<rparr>) = (a1, db')"
    "as_trading_mode a = as_trading_mode a1" "as_engine_state a = as_engine_state a1" "as_live_armed a = as_live_armed a1"
    "as_manager a = as_manager a1" "as_scheduler a = Some (start_scheduler st new_scheduler)"
    "\<exists>v. as_binance a = Some v \<and> bv_connected v = exchange_connects E st"
    "\<exists>redis_text cause. as_problems a = as_problems a1 @ (case se_redis E of Inr _ \<Rightarrow> [] | Inl _ \<Rightarrow> [RedisDown redis_text]) @
       (if exchange_connects E st then [] else [BinanceDown cause])"
proof -
  let ?new = "new_app\<lparr>as_manager := Some (new_hub (st_websocket st))\<rparr>"
  obtain a1 d1 where d: "startup_database E st db ?new = (a1, d1)" by fastforce
  obtain a2 where b: "start_binance E st (startup_redis E a1) = Some a2" and a: "a = start_heartbeat st a2" "db' = d1"
    "validate_environment st = []"
    using assms by (auto simp: lifespan_start_def startup_checks_def d split: if_splits)
  have r: "as_trading_mode (startup_redis E a1) = as_trading_mode a1" "as_engine_state (startup_redis E a1) = as_engine_state a1"
    "as_live_armed (startup_redis E a1) = as_live_armed a1" "as_manager (startup_redis E a1) = as_manager a1"
    "\<exists>t. as_problems (startup_redis E a1) = as_problems a1 @ (case se_redis E of Inr _ \<Rightarrow> [] | Inl _ \<Rightarrow> [RedisDown t])"
    by (auto simp: startup_redis_def add_problem_def split: sum.splits)
  note k = start_binance_keeps [OF b]
  have p: "\<exists>redis_text cause. as_problems a = as_problems a1 @ (case se_redis E of Inr _ \<Rightarrow> [] | Inl _ \<Rightarrow> [RedisDown redis_text]) @
       (if exchange_connects E st then [] else [BinanceDown cause])"
  proof -
    obtain t where t: "as_problems (startup_redis E a1) = as_problems a1 @ (case se_redis E of Inr _ \<Rightarrow> [] | Inl _ \<Rightarrow> [RedisDown t])"
      using r(5) by blast
    obtain cause where c: "as_problems a2 = as_problems (startup_redis E a1) @ (if exchange_connects E st then [] else [BinanceDown cause])"
      using k(3) by blast
    have "as_problems a = as_problems a2" by (simp add: a start_heartbeat_def)
    then show ?thesis unfolding c t by (intro exI [of _ t] exI [of _ cause]) simp
  qed
  show ?thesis
    by (rule that [of a1]) (use a d k r p in \<open>simp_all add: start_heartbeat_def\<close>)
qed

lemma other_keys:
  "KEY_TRADING_MODE \<noteq> KEY_LAST_STARTUP" "KEY_ENGINE_STATE \<noteq> KEY_LAST_STARTUP" "KEY_LIVE_ARMED \<noteq> KEY_LAST_STARTUP"
  "KEY_TRADING_MODE \<noteq> KEY_LAST_SHUTDOWN" "KEY_ENGINE_STATE \<noteq> KEY_LAST_SHUTDOWN" "KEY_LIVE_ARMED \<noteq> KEY_LAST_SHUTDOWN"
  "KEY_LAST_SHUTDOWN \<noteq> KEY_LAST_STARTUP"
  by (simp_all add: KEY_TRADING_MODE_def KEY_ENGINE_STATE_def KEY_LIVE_ARMED_def KEY_LAST_STARTUP_def KEY_LAST_SHUTDOWN_def)

lemma startup_keeps_settings:
  assumes "record_startup now table = Inr table'" "k \<noteq> KEY_LAST_STARTUP"
  shows "get_setting table' k = get_setting table k"
  using set_setting_rows(1) [OF assms(1) [unfolded record_startup_def] assms(2)] by (rule get_setting_cong)

lemma shutdown_keeps_settings:
  assumes "record_shutdown now table = Inr table'" "k \<noteq> KEY_LAST_SHUTDOWN"
  shows "get_setting table' k = get_setting table k"
  using set_setting_rows(1) [OF assms(1) [unfolded record_shutdown_def] assms(2)] by (rule get_setting_cong)

lemma loaded_state:
  assumes "record_startup now table = Inr table'" "load_application_state st table' = Inr s"
  shows "ap_mode s = ModeLIVE \<Longrightarrow> (\<exists>armed. get_setting table KEY_LIVE_ARMED = Inr armed \<and> py_bool armed) \<and> ap_live_armed s \<and>
      tc_live_trading_enabled (st_trading st) \<and>
      (get_setting table KEY_TRADING_MODE = Inr (JStr ''LIVE'') \<or> tc_mode (st_trading st) = ModeLIVE)"
    and "ap_engine_state s = EngRUNNING \<longleftrightarrow> get_setting table KEY_ENGINE_STATE = Inr (JStr ''RUNNING'')"
proof -
  obtain mode engine armed where m: "get_setting table KEY_TRADING_MODE = Inr mode"
    "get_setting table KEY_ENGINE_STATE = Inr engine" "get_setting table KEY_LIVE_ARMED = Inr armed"
    "restored_mode (st_trading st) mode (py_bool armed) = (ap_mode s, ap_live_armed s)"
    "ap_engine_state s = restored_engine engine"
    using load_cases [OF assms(2)] startup_keeps_settings [OF assms(1)] other_keys by metis
  show "ap_engine_state s = EngRUNNING \<longleftrightarrow> get_setting table KEY_ENGINE_STATE = Inr (JStr ''RUNNING'')"
    using m(2,5) by (simp add: restored_running)
  assume "ap_mode s = ModeLIVE"
  then have "restored_mode (st_trading st) mode (py_bool armed) = (ModeLIVE, ap_live_armed s)" using m(4) by simp
  from restored_live [OF this] show "(\<exists>armed. get_setting table KEY_LIVE_ARMED = Inr armed \<and> py_bool armed) \<and> ap_live_armed s \<and>
      tc_live_trading_enabled (st_trading st) \<and>
      (get_setting table KEY_TRADING_MODE = Inr (JStr ''LIVE'') \<or> tc_mode (st_trading st) = ModeLIVE)"
    using m by simp
qed


lemma database_state:
  assumes "startup_database E st db (new_app\<lparr>as_manager := m\<rparr>) = (a1, db')"
  shows "(as_trading_mode a1 = None \<and> as_engine_state a1 = None) \<or>
    (\<exists>models table table' s. bd_tables db = Some (models, table) \<and> record_startup (se_now E) table = Inr table' \<and>
       load_application_state st table' = Inr s \<and> as_trading_mode a1 = Some (ap_mode s) \<and>
       as_engine_state a1 = Some (ap_engine_state s) \<and> as_live_armed a1 = Some (ap_live_armed s))"
    and "as_manager a1 = m"
proof -
  obtain a2 r where s: "startup_session E st db (new_app\<lparr>as_manager := m\<rparr>) = (a2, r)" by fastforce
  have "as_trading_mode a1 = as_trading_mode a2 \<and> as_engine_state a1 = as_engine_state a2 \<and> as_live_armed a1 = as_live_armed a2 \<and>
      as_manager a1 = as_manager a2"
    using assms by (cases r) (auto simp: startup_database_def s add_problem_def)
  with session_state(1,3) [OF s] show "(as_trading_mode a1 = None \<and> as_engine_state a1 = None) \<or>
    (\<exists>models table table' s. bd_tables db = Some (models, table) \<and> record_startup (se_now E) table = Inr table' \<and>
       load_application_state st table' = Inr s \<and> as_trading_mode a1 = Some (ap_mode s) \<and>
       as_engine_state a1 = Some (ap_engine_state s) \<and> as_live_armed a1 = Some (ap_live_armed s))" "as_manager a1 = m"
    by (simp_all add: new_app_def, blast)
qed

section \<open>Properties\<close>

text \<open>
  C25: no start puts the system into live trading by itself. Whatever the database holds and whichever calls fail, the mode after a
  start is LIVE only if the stored arm flag is set, live trading is enabled with credentials in the configuration and LIVE
  was stored or configured; the engine runs only if running is what was stored; and a configuration with a problem
  is refused before anything is touched.
\<close>

theorem startup_never_goes_live:
  assumes "lifespan_start E st db = Some (Inr (a, db'))"
  shows "validate_environment st = [] \<and>
    (as_trading_mode a = Some ModeLIVE \<longrightarrow> (\<exists>models table armed. bd_tables db = Some (models, table) \<and>
       get_setting table KEY_LIVE_ARMED = Inr armed \<and> py_bool armed \<and> as_live_armed a = Some True \<and>
       tc_live_trading_enabled (st_trading st) \<and> has_credentials (st_binance st) \<and>
       (get_setting table KEY_TRADING_MODE = Inr (JStr ''LIVE'') \<or> tc_mode (st_trading st) = ModeLIVE))) \<and>
    (as_engine_state a = Some EngRUNNING \<longrightarrow> (\<exists>models table. bd_tables db = Some (models, table) \<and>
       get_setting table KEY_ENGINE_STATE = Inr (JStr ''RUNNING'')))"
  using assms
proof (cases rule: lifespan_start_cases)
  case (1 a1)
  have credentials: "tc_live_trading_enabled (st_trading st) \<Longrightarrow> has_credentials (st_binance st)"
    using 1(1) by (auto simp: validate_environment_def split: if_splits)
  from database_state(1) [OF 1(2)] show ?thesis
  proof (elim disjE exE conjE)
    assume "as_trading_mode a1 = None" "as_engine_state a1 = None"
    with 1 show ?thesis by simp
  next
    fix models table table' s
    assume t: "bd_tables db = Some (models, table)" "record_startup (se_now E) table = Inr table'"
      "load_application_state st table' = Inr s" "as_trading_mode a1 = Some (ap_mode s)"
      "as_engine_state a1 = Some (ap_engine_state s)" "as_live_armed a1 = Some (ap_live_armed s)"
    show ?thesis using 1 t(1,4-6) loaded_state [OF t(2,3)] credentials by auto
  qed
qed

definition first_start :: startup_env where
  "first_start = \<lparr>se_disk = (\<lambda>_. None), se_models_base = ''/models'', se_now = ''2026-01-01T00:00:00Z'', se_up = (\<lambda>_. True),
     se_redis = Inr (), se_requests = [\<lparr>ei_sent_ms = 0, ei_clock = [0], ei_now_ms = 0,
       ei_response = Some \<lparr>hr_status = 404, hr_body = None, hr_retry_after = None\<rparr>, ei_received_ms = 1\<rparr>],
     se_hmac = (\<lambda>_ _. ''''), se_clock = 0, se_str_exc = (\<lambda>_. ''error''), se_str_failure = (\<lambda>_. ''failure'')\<rparr>"

text \<open>LIVE is stored but not armed, one model has lost its artifact and the exchange answers 404.\<close>

definition worn_database :: backend_db where
  "worn_database = \<lparr>bd_alembic = Some [''0001''], bd_tables = Some ([prod_model ''b''],
     [\<lparr>ss_key = KEY_TRADING_MODE, ss_value = [(''value'', JStr ''LIVE'')], ss_description = None\<rparr>])\<rparr>"

lemma first_connection:
  "\<exists>v env. service_connect (se_hmac first_start) default_settings (se_clock first_start) (new_service default_settings) (se_requests first_start) =
     Some (v, env, Some (Raised \<lparr>er_kind = RequestError, er_binance_code = None, er_http_status = Some 404\<rparr>))"
proof -
  have "case do_request (\<lambda>_ _. '''') (new_client default_binance_config) ping_request [\<lparr>ei_sent_ms = 0, ei_clock = [0], ei_now_ms = 0,
       ei_response = Some \<lparr>hr_status = 404, hr_body = None, hr_retry_after = None\<rparr>, ei_received_ms = 1\<rparr>] of
     Some (c, env, tr, r) \<Rightarrow> r = Raised \<lparr>er_kind = RequestError, er_binance_code = None, er_http_status = Some 404\<rparr> | None \<Rightarrow> False"
    by code_simp
  then show ?thesis
    by (auto simp: first_start_def service_connect_def new_service_def default_settings_def split: option.splits prod.splits)
qed


text \<open>A start that cannot reach the exchange, over the database above.\<close>

lemma first_start_result:
  "\<exists>a db'. lifespan_start first_start default_settings db = Some (Inr (a, db'))"
proof -
  obtain v env where c: "service_connect (se_hmac first_start) default_settings (se_clock first_start) (new_service default_settings)
      (se_requests first_start) = Some (v, env, Some (Raised \<lparr>er_kind = RequestError, er_binance_code = None, er_http_status = Some 404\<rparr>))"
    using first_connection by blast
  have "validate_environment default_settings = []"
    by (simp add: validate_environment_def default_settings_def default_trading_config_def is_production_def)
  then show ?thesis
    by (simp add: lifespan_start_def startup_checks_def start_binance_def c split_beta Let_def)
qed

theorem startup_never_goes_live_witness:
  "\<exists>a db'. lifespan_start first_start default_settings worn_database = Some (Inr (a, db')) \<and>
    as_trading_mode a \<noteq> Some ModeLIVE \<and> as_engine_state a \<noteq> Some EngRUNNING"
proof -
  obtain a db' where s: "lifespan_start first_start default_settings worn_database = Some (Inr (a, db'))"
    using first_start_result by blast
  moreover have "\<not> tc_live_trading_enabled (st_trading default_settings)"
    by (simp add: default_settings_def default_trading_config_def)
  moreover have "get_setting (snd (the (bd_tables worn_database))) KEY_ENGINE_STATE = Inr JNull"
    by (simp add: get_setting_def setting_rows_def worn_database_def KEY_TRADING_MODE_def KEY_ENGINE_STATE_def)
  ultimately show ?thesis using startup_never_goes_live [OF s] by force
qed


section \<open>What a start reports and repairs\<close>

lemma production_broken_iff:
  "production_broken (verify_registry_artifacts disk base models) \<longleftrightarrow>
     (\<exists>v \<in> set models. mv_status v = PRODUCTION \<and> \<not> artifact_intact disk base v)"
proof -
  have status: "problem_of disk base v = Some p \<Longrightarrow> ap_status p = mv_status v" for v p
    by (auto simp: problem_of_def Let_def split: option.splits if_splits)
  have "production_broken (verify_registry_artifacts disk base models) \<longleftrightarrow>
      (\<exists>v \<in> set models. mv_status v \<in> set checked_statuses \<and> (\<exists>p. problem_of disk base v = Some p \<and> ap_status p = PRODUCTION))"
    by (force simp: production_broken_def verify_registry_artifacts_def List.map_filter_def list_ex_iff Let_def)
  also have "\<dots> \<longleftrightarrow> (\<exists>v \<in> set models. mv_status v = PRODUCTION \<and> \<not> artifact_intact disk base v)"
    using status by (auto simp: intact_iff checked_statuses_def)
  finally show ?thesis .
qed

definition repaired :: "disk \<Rightarrow> string \<Rightarrow> model_version list \<Rightarrow> model_version list \<Rightarrow> bool" where
  "repaired disk base models models' \<longleftrightarrow> map mv_key models' = map mv_key models \<and>
     (\<forall>i < length models. if mv_status (models ! i) = PRODUCTION \<and> \<not> artifact_intact disk base (models ! i)
        then mv_status (models' ! i) = ModREJECTED else models' ! i = models ! i)"

lemma repaired_models:
  assumes "distinct (map mv_key models)"
  shows "repaired (se_disk E) (se_models_base E) models (repaired_models E models)"
proof (cases "production_broken (verify_registry_artifacts (se_disk E) (se_models_base E) models)")
  case True
  obtain n ps where v: "(n, ps) = verify_registry_artifacts (se_disk E) (se_models_base E) models" by (metis surj_pair)
  obtain ms ds where d: "(ms, ds) = demote_broken_production_models models ps" by (metis surj_pair)
  have "repaired_models E models = ms" using True by (simp add: repaired_models_def v [symmetric] d [symmetric] Let_def)
  with demotion_exact [OF assms v d] show ?thesis by (simp add: repaired_def)
next
  case False
  then have "repaired_models E models = models" by (simp add: repaired_models_def Let_def)
  with False show ?thesis by (auto simp: repaired_def production_broken_iff)
qed

definition database_lost :: "app_attributes \<Rightarrow> bool" where
  "database_lost a \<longleftrightarrow> (\<exists>t. DatabaseDown t \<in> set (as_problems a))"

lemma startup_database_cases:
  assumes "startup_database E st db (new_app\<lparr>as_manager := m\<rparr>) = (a1, db')"
  obtains (lost) "database_lost a1" "db' = db" "set (as_problems a1) \<subseteq> {NotMigrated} \<union> range RegistryBroken \<union> range DatabaseDown"
  | (kept) models table table' where "\<not> database_lost a1" "bd_tables db = Some (models, table)"
      "record_startup (se_now E) table = Inr table'" "db' = db\<lparr>bd_tables := Some (repaired_models E models, table')\<rparr>"
      "NotMigrated \<in> set (as_problems a1) \<longleftrightarrow> bd_alembic db = Some []" "as_trading_mode a1 \<noteq> None"
      "(\<exists>d. RegistryBroken d \<in> set (as_problems a1)) \<longleftrightarrow>
         (\<exists>v \<in> set models. mv_status v = PRODUCTION \<and> \<not> artifact_intact (se_disk E) (se_models_base E) v)"
      "set (as_problems a1) \<subseteq> {NotMigrated} \<union> range RegistryBroken"
proof -
  let ?new = "new_app\<lparr>as_manager := m\<rparr>"
  obtain a2 r where s: "startup_session E st db ?new = (a2, r)" by fastforce
  have none: "as_problems ?new = []" by (simp add: new_app_def)
  note ps = session_state(2) [OF s, unfolded none append_Nil]
  show ?thesis
  proof (cases r)
    case (Inl err)
    then have "as_problems a1 = as_problems a2 @ [DatabaseDown (se_str_exc E err)]" "db' = db"
      using assms by (auto simp: startup_database_def s add_problem_def)
    then show ?thesis using ps by (intro lost) (auto simp: database_lost_def)
  next
    case (Inr d)
    then have eq: "a1 = a2" "db' = d" using assms by (auto simp: startup_database_def s)
    show ?thesis
    proof (rule session_ok [OF s [unfolded Inr]])
      fix revision models table table' x
      assume k: "alembic_revision db = Inr revision" "bd_tables db = Some (models, table)"
        "record_startup (se_now E) table = Inr table'" "d = db\<lparr>bd_tables := Some (repaired_models E models, table')\<rparr>"
        "as_trading_mode a2 = Some (ap_mode x)"
        "\<exists>demoted. as_problems a2 = as_problems ?new @ (if revision = None then [NotMigrated] else []) @
          (if production_broken (verify_registry_artifacts (se_disk E) (se_models_base E) models) then [RegistryBroken demoted] else [])"
      have "revision = None \<longleftrightarrow> bd_alembic db = Some []" using k(1) by (auto simp: alembic_revision_def split: option.splits list.splits)
      with k(6) none have p: "NotMigrated \<in> set (as_problems a2) \<longleftrightarrow> bd_alembic db = Some []"
        "(\<exists>d. RegistryBroken d \<in> set (as_problems a2)) \<longleftrightarrow> production_broken (verify_registry_artifacts (se_disk E) (se_models_base E) models)"
        "\<not> database_lost a2" by (auto simp: database_lost_def)
      show ?thesis
        using kept [OF _ k(2,3)] k(4,5) p ps by (simp add: eq production_broken_iff)
    qed
  qed
qed

text \<open>
  C26: the problems a start reports are what was wrong, and nothing keeps the rest from starting. Whatever fails, the exchange
  service and the scheduler are there; Redis and the exchange are named exactly when they did not answer; if the database part fails
  nothing of it is stored, and otherwise the start is on record, an empty migration table and broken models are
  named exactly when they were found, and no production model without its artifact is left.
\<close>

theorem startup_report_exact:
  assumes "lifespan_start E st db = Some (Inr (a, db'))"
    "case bd_tables db of None \<Rightarrow> True | Some (models, _) \<Rightarrow> distinct (map mv_key models)"
  shows "as_scheduler a \<noteq> None \<and> as_binance a \<noteq> None \<and>
    ((\<exists>t. RedisDown t \<in> set (as_problems a)) \<longleftrightarrow> se_redis E \<noteq> Inr ()) \<and>
    ((\<exists>t. BinanceDown t \<in> set (as_problems a)) \<longleftrightarrow> \<not> exchange_connects E st) \<and>
    (if database_lost a then db' = db
     else \<exists>models table models' table'. bd_tables db = Some (models, table) \<and> bd_tables db' = Some (models', table') \<and>
       (NotMigrated \<in> set (as_problems a) \<longleftrightarrow> bd_alembic db = Some []) \<and>
       ((\<exists>d. RegistryBroken d \<in> set (as_problems a)) \<longleftrightarrow>
          (\<exists>v \<in> set models. mv_status v = PRODUCTION \<and> \<not> artifact_intact (se_disk E) (se_models_base E) v)) \<and>
       repaired (se_disk E) (se_models_base E) models models' \<and>
       get_setting table' KEY_LAST_STARTUP = Inr (JStr (se_now E)) \<and> as_trading_mode a \<noteq> None)"
  using assms(1)
proof (cases rule: lifespan_start_cases)
  case (1 a1)
  obtain redis_text cause where p: "as_problems a = as_problems a1 @
      (case se_redis E of Inr _ \<Rightarrow> [] | Inl _ \<Rightarrow> [RedisDown redis_text]) @
      (if exchange_connects E st then [] else [BinanceDown cause])" using 1(9) by blast
  have redis: "se_redis E \<noteq> Inr () \<longleftrightarrow> (\<exists>err. se_redis E = Inl err)" by (cases "se_redis E") auto
  have lost: "database_lost a \<longleftrightarrow> database_lost a1" "NotMigrated \<in> set (as_problems a) \<longleftrightarrow> NotMigrated \<in> set (as_problems a1)"
    "(\<exists>d. RegistryBroken d \<in> set (as_problems a)) \<longleftrightarrow> (\<exists>d. RegistryBroken d \<in> set (as_problems a1))"
    by (auto simp: p database_lost_def split: sum.splits)
  have named: "(\<exists>t. RedisDown t \<in> set (as_problems a)) \<longleftrightarrow> (\<exists>err. se_redis E = Inl err)"
    "(\<exists>t. BinanceDown t \<in> set (as_problems a)) \<longleftrightarrow> \<not> exchange_connects E st"
    if "set (as_problems a1) \<subseteq> {NotMigrated} \<union> range RegistryBroken \<union> range DatabaseDown"
    using that by (cases "se_redis E"; auto simp: p)+
  from 1(2) show ?thesis
  proof (cases rule: startup_database_cases)
    case lost
    with 1 named \<open>database_lost a \<longleftrightarrow> database_lost a1\<close> show ?thesis by (auto simp: redis)
  next
    case (kept models table table')
    have "get_setting table' KEY_LAST_STARTUP = Inr (JStr (se_now E))"
      using set_setting_rows(2) [OF kept(3) [unfolded record_startup_def]] by (auto simp: get_setting_def dict_get_def)
    moreover have "repaired (se_disk E) (se_models_base E) models (repaired_models E models)"
      using assms(2) kept(2) by (intro repaired_models) simp
    moreover have "set (as_problems a1) \<subseteq> {NotMigrated} \<union> range RegistryBroken \<union> range DatabaseDown" using kept(8) by blast
    ultimately show ?thesis using 1 kept lost named by (simp add: redis) blast
  qed
qed

theorem startup_report_exact_witness:
  "\<exists>a db'. lifespan_start first_start default_settings worn_database = Some (Inr (a, db')) \<and>
    (\<exists>t. BinanceDown t \<in> set (as_problems a)) \<and> (database_lost a \<or> (\<exists>d. RegistryBroken d \<in> set (as_problems a)))"
proof -
  obtain a db' where s: "lifespan_start first_start default_settings worn_database = Some (Inr (a, db'))"
    using first_start_result by blast
  have d: "case bd_tables worn_database of None \<Rightarrow> True | Some (models, _) \<Rightarrow> distinct (map mv_key models)"
    by (simp add: worn_database_def)
  have "\<not> exchange_connects first_start default_settings"
    using first_connection by (auto simp: exchange_connects_def)
  moreover have "\<not> artifact_intact (se_disk first_start) (se_models_base first_start) (prod_model ''b'')"
    by (simp add: artifact_intact_def first_start_def)
  moreover have "bd_tables worn_database = Some ([prod_model ''b''], snd (the (bd_tables worn_database)))"
    "mv_status (prod_model ''b'') = PRODUCTION" by (simp_all add: worn_database_def prod_model_def)
  ultimately show ?thesis using s startup_report_exact [OF s d] by (intro exI [of _ a] exI [of _ db']) (auto split: if_splits)
qed


section \<open>Health of the running system\<close>

lemma endpoint_200:
  "fst (health_endpoint probes checked_at e) = 200 \<longleftrightarrow> list_all (\<lambda>p. \<exists>c. snd p e = Reported c \<and> fine (hs_status c)) probes"
proof -
  have "healthy (check_health probes e) \<longleftrightarrow> list_all (\<lambda>p. \<exists>c. snd p e = Reported c \<and> fine (hs_status c)) probes"
    unfolding healthy_iff check_health_def list_all_iff by (simp add: split_def run_probe_fine)
  then show ?thesis by (simp add: health_endpoint_def Let_def)
qed

definition reports_fine :: "probe_result \<Rightarrow> bool" where
  "reports_fine r \<longleftrightarrow> (\<exists>c. r = Reported c \<and> fine (hs_status c))"

lemma reports_fine_cases [simp]:
  "reports_fine (Reported c) \<longleftrightarrow> fine (hs_status c)" "\<not> reports_fine TimedOut" "\<not> reports_fine (ProbeRaised t)"
  by (simp_all add: reports_fine_def)

lemma fine_cases [simp]:
  "fine ONLINE" "fine DISABLED" "fine NOT_IMPLEMENTED" "\<not> fine ERROR" "\<not> fine OFFLINE" "\<not> fine DEGRADED"
  by (simp_all add: fine_def)

lemma timed_fine: "reports_fine (timed name p e) \<longleftrightarrow> \<not> pv_hang e name \<and> reports_fine (p e)"
  by (simp add: timed_def)

lemma registered_names:
  assumes "as_binance a \<noteq> None" "as_scheduler a \<noteq> None"
  shows "register_health_probes st a =
    [(''backend'', timed ''backend'' backend_probe), (''database'', timed ''database'' database_probe),
     (''redis'', timed ''redis'' redis_probe), (''websocket'', timed ''websocket'' websocket_probe),
     (''model_registry'', timed ''model_registry'' model_registry_probe),
     (''binance'', timed ''binance'' (binance_probe_now st)), (''market_data'', timed ''market_data'' (market_data_probe_now st)),
     (''scheduler'', timed ''scheduler'' (scheduler_probe_now st))] @ static_probes st []"
  using assms
  by (cases "as_binance a"; cases "as_scheduler a") (simp_all add: register_health_probes_def core_probes_def exchange_probes_def heartbeat_probe_def static_probes_def
      register_timed_def register_probe_def register_static_def)

lemma static_fine: "list_all (\<lambda>p. reports_fine (snd p e)) (static_probes st [])"
  by (simp add: static_probes_def register_static_def component_of_def optional_status_def)

lemma database_fine:
  "reports_fine (database_probe e) \<longleftrightarrow>
     pv_up e CallPing \<and> pv_up e CallRevision \<and> pv_up e CallCommit \<and> (\<exists>v vs. bd_alembic (pv_db e) = Some (v # vs))"
  by (auto simp: database_probe_def db_answer_def alembic_revision_def component_of_def split: option.splits list.splits sum.splits)

lemma registry_fine:
  "reports_fine (model_registry_probe e) \<longleftrightarrow> pv_up e CallRegistry \<and> pv_up e CallCommit \<and>
     (\<exists>models table. bd_tables (pv_db e) = Some (models, table) \<and>
        (\<forall>v \<in> set models. mv_status v \<notin> set checked_statuses \<or> artifact_intact (pv_disk e) (pv_models_base e) v))"
proof (cases "bd_tables (pv_db e)")
  case (Some t)
  obtain models table where t: "t = (models, table)" by fastforce
  have "report_ok (verify_registry_artifacts disk base models) \<longleftrightarrow>
      (\<forall>v \<in> set models. mv_status v \<notin> set checked_statuses \<or> artifact_intact disk base v)" for disk base
    by (auto simp: report_ok_def verify_registry_artifacts_def List.map_filter_def filter_empty_conv intact_iff Let_def)
  moreover have "report_ok r \<Longrightarrow> \<not> production_broken r" for r by (simp add: report_ok_def production_broken_def)
  ultimately show ?thesis
    by (auto simp: model_registry_probe_def db_answer_def Some t component_of_def Let_def split: if_splits)
qed (simp add: model_registry_probe_def db_answer_def)

lemma exchange_fine:
  "reports_fine (binance_probe str_exc st synced_at checked_at v) \<longleftrightarrow> bv_connected v \<and>
     rc_consecutive_failures (bv_rest v) < api_failure_protection_threshold (st_risk st) \<and>
     rc_consecutive_failures (bv_rest v) \<le> 0 \<and> ts_synced (rc_time_sync (bv_rest v))"
  "reports_fine (market_data_probe str_exc st show_time now v) \<longleftrightarrow>
     sm_subscribed (bv_stream v) \<noteq> [] \<and> sm_connected (bv_stream v) \<and> \<not> data_is_stale st now v"
  using probe_status [OF service_health_status [of st synced_at checked_at v], of "''binance''" str_exc]
    probe_status [OF market_data_status [of st show_time now v], of "''market_data''" str_exc]
  by (auto simp: binance_probe_def market_data_probe_def reports_fine_def split: if_splits)

lemma scheduler_fine:
  "fine (hs_status (scheduler_probe show_time st s)) \<longleftrightarrow>
     \<not> sg_enabled (st_scheduler st) \<or> sc_running s \<and> (sc_last_error s = None \<or> sc_last_error s = Some '''')"
  by (auto simp: scheduler_probe_def component_of_def Let_def split: option.splits)

text \<open>What has to hold for a 200.\<close>

definition system_well :: "settings \<Rightarrow> probe_env \<Rightarrow> bool" where
  "system_well st e \<longleftrightarrow>
     pv_up e CallPing \<and> pv_up e CallRevision \<and> pv_up e CallRegistry \<and> pv_up e CallCommit \<and>
     (\<exists>v vs. bd_alembic (pv_db e) = Some (v # vs)) \<and> pv_redis e = Inr () \<and>
     (\<exists>models table. bd_tables (pv_db e) = Some (models, table) \<and>
        (\<forall>v \<in> set models. mv_status v \<notin> set checked_statuses \<or> artifact_intact (pv_disk e) (pv_models_base e) v)) \<and>
     as_manager (pv_app e) \<noteq> None \<and>
     (\<exists>v. as_binance (pv_app e) = Some v \<and> bv_connected v \<and> rc_consecutive_failures (bv_rest v) < api_failure_protection_threshold (st_risk st) \<and>
        rc_consecutive_failures (bv_rest v) \<le> 0 \<and> ts_synced (rc_time_sync (bv_rest v)) \<and>
        sm_subscribed (bv_stream v) \<noteq> [] \<and> sm_connected (bv_stream v) \<and> \<not> data_is_stale st (pv_now e) v) \<and>
     (\<exists>s. as_scheduler (pv_app e) = Some s \<and>
        (\<not> sg_enabled (st_scheduler st) \<or> sc_running s \<and> (sc_last_error s = None \<or> sc_last_error s = Some '''')))"

text \<open>
  The health endpoint of a started system answers 200 exactly when everything it depends on works. The database answers and is
  migrated, Redis answers, every model that could be used has its artifact unchanged on disk, the exchange is connected without a recent
  failure and with a synchronised clock, the stream delivers fresh data, the heartbeat runs without a reported error, and no probe
  hangs; the components that are static never change the answer.
\<close>

theorem health_200_exactly:
  assumes "lifespan_start E st db = Some (Inr (a, db'))"
  shows "fst (health_endpoint (register_health_probes st a) checked_at e) = 200 \<longleftrightarrow>
    system_well st e \<and> \<not> list_ex (pv_hang e) [''backend'', ''database'', ''redis'', ''websocket'', ''model_registry'',
      ''binance'', ''market_data'', ''scheduler'']"
proof -
  have present: "as_binance a \<noteq> None" "as_scheduler a \<noteq> None"
    using assms by (cases rule: lifespan_start_cases; auto)+
  have redis: "reports_fine (redis_probe e) \<longleftrightarrow> pv_redis e = Inr ()"
    by (auto simp: redis_probe_def component_of_def split: sum.split)
  have ws: "reports_fine (websocket_probe e) \<longleftrightarrow> as_manager (pv_app e) \<noteq> None"
    by (auto simp: websocket_probe_def component_of_def split: option.split)
  have binance: "reports_fine (binance_probe_now st e) \<longleftrightarrow> (\<exists>v. as_binance (pv_app e) = Some v \<and> bv_connected v \<and>
      rc_consecutive_failures (bv_rest v) < api_failure_protection_threshold (st_risk st) \<and>
      rc_consecutive_failures (bv_rest v) \<le> 0 \<and> ts_synced (rc_time_sync (bv_rest v)))"
    by (auto simp: binance_probe_now_def exchange_fine split: option.split)
  have market: "reports_fine (market_data_probe_now st e) \<longleftrightarrow> (\<exists>v. as_binance (pv_app e) = Some v \<and>
      sm_subscribed (bv_stream v) \<noteq> [] \<and> sm_connected (bv_stream v) \<and> \<not> data_is_stale st (pv_now e) v)"
    by (auto simp: market_data_probe_now_def exchange_fine split: option.split)
  have heartbeat: "reports_fine (scheduler_probe_now st e) \<longleftrightarrow> (\<exists>s. as_scheduler (pv_app e) = Some s \<and>
      (\<not> sg_enabled (st_scheduler st) \<or> sc_running s \<and> (sc_last_error s = None \<or> sc_last_error s = Some '''')))"
    by (auto simp: scheduler_probe_now_def scheduler_fine split: option.split)
  have backend: "reports_fine (backend_probe e)" by (simp add: backend_probe_def component_of_def)
  have "fst (health_endpoint (register_health_probes st a) checked_at e) = 200 \<longleftrightarrow>
      list_all (\<lambda>p. reports_fine (snd p e)) (register_health_probes st a)"
    by (simp add: endpoint_200 reports_fine_def)
  also have "\<dots> \<longleftrightarrow> reports_fine (database_probe e) \<and> reports_fine (redis_probe e) \<and> reports_fine (websocket_probe e) \<and>
      reports_fine (model_registry_probe e) \<and> reports_fine (binance_probe_now st e) \<and> reports_fine (market_data_probe_now st e) \<and>
      reports_fine (scheduler_probe_now st e) \<and> \<not> list_ex (pv_hang e) [''backend'', ''database'', ''redis'', ''websocket'',
        ''model_registry'', ''binance'', ''market_data'', ''scheduler'']"
    unfolding registered_names [OF present] using backend static_fine [of e st] by (auto simp: timed_fine)
  also have "\<dots> \<longleftrightarrow> system_well st e \<and> \<not> list_ex (pv_hang e) [''backend'', ''database'', ''redis'', ''websocket'',
        ''model_registry'', ''binance'', ''market_data'', ''scheduler'']"
    unfolding database_fine redis ws registry_fine binance market heartbeat system_well_def by auto
  finally show ?thesis .
qed


text \<open>The state of a system that came up later, all of it in order, and the same with Redis gone.\<close>

definition well_service :: binance_service where
  "well_service = quiet_service\<lparr>bv_connected := True,
     bv_rest := (new_client (st_binance default_settings))\<lparr>rc_time_sync := ts_observe 0 3 0\<rparr>\<rparr>"

definition well_env :: "(exn + unit) \<Rightarrow> probe_env" where
  "well_env redis = \<lparr>pv_app = new_app\<lparr>as_manager := Some (new_hub default_websocket_config), as_binance := Some well_service,
       as_scheduler := Some (start_scheduler default_settings new_scheduler)\<rparr>,
     pv_db = \<lparr>bd_alembic = Some [''0001''], bd_tables = Some ([prod_model ''a''], [])\<rparr>, pv_up = (\<lambda>_. True),
     pv_disk = (\<lambda>_. Some ''ab''), pv_models_base = ''/m'', pv_redis = redis, pv_hang = (\<lambda>_. False), pv_synced_at = JNull,
     pv_checked_at = ''now'', pv_now = 61000000, pv_show_time = (\<lambda>_. ''t''), pv_str_exc = (\<lambda>_. ''error'')\<rparr>"

lemma well_env_well: "system_well default_settings (well_env (Inr ()))"
proof -
  have "\<not> data_is_stale default_settings 61000000 well_service"
    using stale_exact [of 61000000 1000000 120]
    by (simp add: data_is_stale_def well_service_def quiet_service_def default_settings_def DEFAULT_RISK_CONFIG_def in_era_def)
  moreover have "rc_consecutive_failures (bv_rest well_service) = 0" "bv_connected well_service"
    "ts_synced (rc_time_sync (bv_rest well_service))" "sm_subscribed (bv_stream well_service) \<noteq> []" "sm_connected (bv_stream well_service)"
    by (simp_all add: well_service_def quiet_service_def new_client_def ts_observe_def Let_def)
  moreover have "artifact_intact (\<lambda>_. Some ''ab'') ''/m'' (prod_model ''a'')"
    by (simp add: artifact_intact_def prod_model_def)
  moreover have "0 < api_failure_protection_threshold (st_risk default_settings)"
    by (simp add: default_settings_def DEFAULT_RISK_CONFIG_def)
  moreover have "sc_running (start_scheduler default_settings new_scheduler)" "sc_last_error (start_scheduler default_settings new_scheduler) = None"
    by (simp_all add: start_scheduler_def new_scheduler_def default_settings_def default_scheduler_config_def)
  ultimately show ?thesis by (simp add: system_well_def well_env_def)
qed

theorem health_200_exactly_witness:
  "\<exists>a. fst (health_endpoint (register_health_probes default_settings a) ''now'' (well_env (Inr ()))) = 200 \<and>
    fst (health_endpoint (register_health_probes default_settings a) ''now'' (well_env (Inl RuntimeError))) \<noteq> 200"
proof -
  obtain a db' where s: "lifespan_start first_start default_settings worn_database = Some (Inr (a, db'))"
    using first_start_result by blast
  have "\<not> system_well default_settings (well_env (Inl RuntimeError))" by (simp add: system_well_def well_env_def)
  moreover have "\<not> pv_hang (well_env r) name" for r name by (simp add: well_env_def)
  ultimately show ?thesis using health_200_exactly [OF s] well_env_well by (intro exI [of _ a]) simp
qed

section \<open>Stopping and starting again\<close>

definition stored_state :: "backend_db \<Rightarrow> string \<Rightarrow> exn + json" where
  "stored_state db k = (case bd_tables db of None \<Rightarrow> Inl DatabaseError | Some (_, table) \<Rightarrow> get_setting table k)"

lemma persist_shutdown_keeps:
  "bd_alembic (persist_shutdown now up db) = bd_alembic db \<and> map_option fst (bd_tables (persist_shutdown now up db)) = map_option fst (bd_tables db) \<and>
   (k \<noteq> KEY_LAST_SHUTDOWN \<longrightarrow> stored_state (persist_shutdown now up db) k = stored_state db k)"
proof (cases "bd_tables db")
  case (Some t)
  obtain models table where t: "t = (models, table)" by fastforce
  show ?thesis
  proof (cases "record_shutdown now table")
    case (Inr table')
    with shutdown_keeps_settings [OF Inr, of k] show ?thesis
      by (simp add: persist_shutdown_def db_answer_def Some t stored_state_def)
  qed (simp add: persist_shutdown_def db_answer_def Some t stored_state_def)
qed (simp add: persist_shutdown_def db_answer_def)

lemma mode_state_cong:
  assumes "load_application_state st t = Inr s" "load_application_state st t' = Inr s'"
    "\<And>k. k \<in> {KEY_TRADING_MODE, KEY_ENGINE_STATE, KEY_LIVE_ARMED} \<Longrightarrow> get_setting t k = get_setting t' k"
  shows "ap_mode s = ap_mode s' \<and> ap_engine_state s = ap_engine_state s' \<and> ap_live_armed s = ap_live_armed s'"
  using assms(1)
proof (rule load_cases)
  fix m e r
  assume 1: "get_setting t KEY_TRADING_MODE = Inr m" "get_setting t KEY_ENGINE_STATE = Inr e" "get_setting t KEY_LIVE_ARMED = Inr r"
    "restored_mode (st_trading st) m (py_bool r) = (ap_mode s, ap_live_armed s)" "ap_engine_state s = restored_engine e"
  show ?thesis using assms(2)
  proof (rule load_cases)
    fix m' e' r'
    assume "get_setting t' KEY_TRADING_MODE = Inr m'" "get_setting t' KEY_ENGINE_STATE = Inr e'" "get_setting t' KEY_LIVE_ARMED = Inr r'"
      "restored_mode (st_trading st) m' (py_bool r') = (ap_mode s', ap_live_armed s')" "ap_engine_state s' = restored_engine e'"
    with 1 assms(3) show ?thesis by simp
  qed
qed


text \<open>A table the state could be loaded from has at most one row for the shutdown, so the shutdown can be recorded.\<close>

lemma shutdown_recorded:
  assumes "load_application_state st table = Inr s"
  shows "\<exists>table'. record_shutdown now table = Inr table'"
proof -
  obtain j where "get_setting table KEY_LAST_SHUTDOWN = Inr j"
    using assms by (auto simp: load_application_state_def split: sum.splits)
  then show ?thesis
    by (auto simp: record_shutdown_def set_setting_def get_setting_def split: list.splits)
qed

lemma start_loads:
  assumes "lifespan_start E st db = Some (Inr (a, db'))" "\<not> database_lost a"
  obtains models table table' s where "bd_tables db = Some (models, table)" "record_startup (se_now E) table = Inr table'"
    "load_application_state st table' = Inr s" "as_trading_mode a = Some (ap_mode s)"
    "as_engine_state a = Some (ap_engine_state s)" "as_live_armed a = Some (ap_live_armed s)"
    "bd_tables db' = Some (repaired_models E models, table')"
  using assms(1)
proof (cases rule: lifespan_start_cases)
  case (1 a1)
  have kept: "\<not> database_lost a1" using assms(2) 1(9) by (auto simp: database_lost_def)
  from 1(2) show ?thesis
  proof (cases rule: startup_database_cases)
    case lost
    with kept show ?thesis by simp
  next
    case k: (kept models table table')
    from database_state(1) [OF 1(2)] k(6) obtain models' table1 table2 s where
      l: "bd_tables db = Some (models', table1)" "record_startup (se_now E) table1 = Inr table2"
      "load_application_state st table2 = Inr s" "as_trading_mode a1 = Some (ap_mode s)"
      "as_engine_state a1 = Some (ap_engine_state s)" "as_live_armed a1 = Some (ap_live_armed s)" by blast
    with k(2,3) have "models' = models" "table1 = table" "table2 = table'" by simp_all
    with l k 1 show ?thesis by (intro that [of models table table' s]) simp_all
  qed
qed

text \<open>
  C27: stopping and starting again loses nothing. Let a start reach the database, and a later start as well. The later one
  restores the mode, the engine state and the arm flag of the run before; the shutdown between them leaves the heartbeat stopped
  and the exchange disconnected and keeps every other stored value; its time is on record when both the
  statements and the commit of the shutdown reach the database, and otherwise the database is exactly as it was.
\<close>

theorem restart_restores_state:
  assumes "lifespan_start E st db = Some (Inr (a, db1))" "\<not> database_lost a"
    "lifespan_stop now up a db1 = (a', db2)"
    "lifespan_start E' st db2 = Some (Inr (b, db3))" "\<not> database_lost b"
  shows "as_trading_mode b = as_trading_mode a \<and> as_engine_state b = as_engine_state a \<and> as_live_armed b = as_live_armed a \<and>
    (\<exists>s v. as_scheduler a' = Some s \<and> \<not> sc_running s \<and> as_binance a' = Some v \<and> \<not> bv_connected v) \<and>
    (\<forall>k. k = KEY_LAST_SHUTDOWN \<or> stored_state db2 k = stored_state db1 k) \<and>
    (if up CallRecord \<and> up CallCommit then stored_state db2 KEY_LAST_SHUTDOWN = Inr (JStr now) else db2 = db1)"
proof -
  have stop: "a' = a\<lparr>as_scheduler := map_option stop_scheduler (as_scheduler a), as_binance := map_option service_close (as_binance a)\<rparr>"
    "db2 = persist_shutdown now up db1" using assms(3) by (simp_all add: lifespan_stop_def)
  have quiet: "\<exists>s v. as_scheduler a' = Some s \<and> \<not> sc_running s \<and> as_binance a' = Some v \<and> \<not> bv_connected v"
    using assms(1) by (cases rule: lifespan_start_cases) (auto simp: stop stop_scheduler_def service_close_def)
  have same: "k = KEY_LAST_SHUTDOWN \<or> stored_state db2 k = stored_state db1 k" for k
    unfolding stop(2) using persist_shutdown_keeps by blast
  obtain m1 t1 t1' s1 where 1: "load_application_state st t1' = Inr s1" "as_trading_mode a = Some (ap_mode s1)"
    "as_engine_state a = Some (ap_engine_state s1)" "as_live_armed a = Some (ap_live_armed s1)" "bd_tables db1 = Some (m1, t1')"
    using start_loads [OF assms(1,2)] by metis
  obtain m2 t2 t2' s2 where 2: "bd_tables db2 = Some (m2, t2)" "record_startup (se_now E') t2 = Inr t2'"
    "load_application_state st t2' = Inr s2" "as_trading_mode b = Some (ap_mode s2)"
    "as_engine_state b = Some (ap_engine_state s2)" "as_live_armed b = Some (ap_live_armed s2)"
    using start_loads [OF assms(4,5)] by metis
  have "get_setting t1' k = get_setting t2' k" if k: "k \<in> {KEY_TRADING_MODE, KEY_ENGINE_STATE, KEY_LIVE_ARMED}" for k
  proof -
    have "k \<noteq> KEY_LAST_STARTUP" "k \<noteq> KEY_LAST_SHUTDOWN" using k other_keys by auto
    then show ?thesis using startup_keeps_settings [OF 2(2)] same [of k] 1(5) 2(1) by (simp add: stored_state_def)
  qed
  then have "ap_mode s1 = ap_mode s2 \<and> ap_engine_state s1 = ap_engine_state s2 \<and> ap_live_armed s1 = ap_live_armed s2"
    by (intro mode_state_cong [OF 1(1) 2(3)])
  moreover have "if up CallRecord \<and> up CallCommit then stored_state db2 KEY_LAST_SHUTDOWN = Inr (JStr now) else db2 = db1"
  proof -
    obtain t' where t': "record_shutdown now t1' = Inr t'" using shutdown_recorded [OF 1(1)] by blast
    have "get_setting t' KEY_LAST_SHUTDOWN = Inr (JStr now)"
      using set_setting_rows(2) [OF t' [unfolded record_shutdown_def]] by (auto simp: get_setting_def dict_get_def)
    then show ?thesis by (simp add: stop persist_shutdown_def db_answer_def 1(5) t' stored_state_def)
  qed
  ultimately show ?thesis using 1 2 quiet same by simp
qed


text \<open>A database that answers, has its tables and unique keys is enough for its part of the start.\<close>

lemma load_total:
  assumes "distinct (map ss_key table)"
  shows "\<exists>s. load_application_state st table = Inr s"
  using setting_total(1) [OF assms, of KEY_TRADING_MODE] setting_total(1) [OF assms, of KEY_ENGINE_STATE]
    setting_total(1) [OF assms, of KEY_LIVE_ARMED] setting_total(1) [OF assms, of KEY_LAST_SHUTDOWN]
  by (auto simp: load_application_state_def split_beta)

lemma database_goes_through:
  assumes "lifespan_start E st db = Some (Inr (a, db'))" "\<And>c. se_up E c" "bd_alembic db \<noteq> None"
    "bd_tables db = Some (models, table)" "distinct (map ss_key table)"
  shows "\<not> database_lost a"
  using assms(1)
proof (cases rule: lifespan_start_cases)
  case (1 a1)
  obtain revision where "alembic_revision db = Inr revision"
    using assms(3) by (cases "bd_alembic db"; cases "the (bd_alembic db)") (auto simp: alembic_revision_def)
  then have c1: "\<exists>x. check_schema E db y = (x, Inr ())" for y
    using assms(2) by (simp add: check_schema_def db_answer_def)
  have c2: "\<exists>x models'. check_registry E db y = (x, Inr (models', table))" for y
    using assms(2,4) by (auto simp: check_registry_def db_answer_def Let_def split: prod.split)
  obtain table' where t: "record_startup (se_now E) table = Inr table'"
    using setting_total(2) [OF assms(5)] unfolding record_startup_def by blast
  then have "distinct (map ss_key table')"
    using set_setting_rows(3) assms(5) unfolding record_startup_def by blast
  from load_total [OF this] obtain s where "load_application_state st table' = Inr s" by blast
  with t have c3: "\<exists>x. restore_state E st table y = (x, Inr table')" for y
    using assms(2) by (simp add: restore_state_def db_answer_def)
  have "\<exists>x d. startup_session E st db y = (x, Inr d)" for y
  proof -
    obtain y1 where 1: "check_schema E db y = (y1, Inr ())" using c1 by blast
    obtain y2 m where 2: "check_registry E db y1 = (y2, Inr (m, table))" using c2 by blast
    obtain y3 where 3: "restore_state E st table y2 = (y3, Inr table')" using c3 by blast
    show ?thesis using 1 2 3 assms(2) by (simp add: startup_session_def db_answer_def)
  qed
  then obtain x d where s: "startup_session E st db (new_app\<lparr>as_manager := Some (new_hub (st_websocket st))\<rparr>) = (x, Inr d)" by blast
  then have "a1 = x" using 1(2) by (simp add: startup_database_def)
  moreover have "\<not> database_lost x" using session_state(2) [OF s] by (auto simp: database_lost_def new_app_def)
  ultimately show ?thesis using 1(9) by (auto simp: database_lost_def split: if_splits sum.splits)
qed

theorem restart_restores_state_witness:
  "\<exists>a db1 a' db2 b db3. lifespan_start first_start default_settings worn_database = Some (Inr (a, db1)) \<and>
     lifespan_stop ''then'' (\<lambda>_. True) a db1 = (a', db2) \<and> stored_state db2 KEY_LAST_SHUTDOWN = Inr (JStr ''then'') \<and>
     lifespan_start first_start default_settings db2 = Some (Inr (b, db3)) \<and>
     as_trading_mode b = as_trading_mode a \<and> as_engine_state b = as_engine_state a \<and>
     (\<exists>s. as_scheduler a' = Some s \<and> \<not> sc_running s)"
proof -
  obtain a db1 where s: "lifespan_start first_start default_settings worn_database = Some (Inr (a, db1))"
    using first_start_result by blast
  obtain a' db2 where stop: "lifespan_stop ''then'' (\<lambda>_. True) a db1 = (a', db2)" by fastforce
  obtain b db3 where s': "lifespan_start first_start default_settings db2 = Some (Inr (b, db3))"
    using first_start_result by blast
  have up: "se_up first_start c" for c by (simp add: first_start_def)
  have w: "bd_tables worn_database = Some ([prod_model ''b''], snd (the (bd_tables worn_database)))"
    "distinct (map ss_key (snd (the (bd_tables worn_database))))" "bd_alembic worn_database \<noteq> None"
    by (simp_all add: worn_database_def)
  note ok = database_goes_through [OF s up w(3,1,2)]
  obtain models table table' state where t: "record_startup (se_now first_start) table = Inr table'"
    "bd_tables worn_database = Some (models, table)" "bd_tables db1 = Some (repaired_models first_start models, table')"
    "load_application_state default_settings table' = Inr state"
    using start_loads [OF s ok] by metis
  obtain table2 where t2: "record_shutdown ''then'' table' = Inr table2" using shutdown_recorded [OF t(4)] by blast
  have "distinct (map ss_key table')"
    using set_setting_rows(3) [OF t(1) [unfolded record_startup_def]] t(2) w by simp
  then have d: "distinct (map ss_key table2)"
    using set_setting_rows(3) [OF t2 [unfolded record_shutdown_def]] by simp
  have db2: "db2 = db1\<lparr>bd_tables := Some (repaired_models first_start models, table2)\<rparr>"
    using stop by (auto simp: lifespan_stop_def persist_shutdown_def db_answer_def t(3) t2)
  have "bd_alembic db1 \<noteq> None"
    using s
  proof (cases rule: lifespan_start_cases)
    case (1 a1)
    from 1(2) show ?thesis using w(3) by (cases rule: startup_database_cases) simp_all
  qed
  then have "\<not> database_lost b" using database_goes_through [OF s' up _ _ d] by (simp add: db2)
  with restart_restores_state [OF s ok stop s'] s s' stop show ?thesis by auto
qed

text \<open>
  What is demoted is lost again when a later statement or the commit fails, while the report goes on saying that it was
  demoted.
\<close>

lemma demotion_report_outlives_rollback:
  assumes "startup_session E st db (new_app\<lparr>as_manager := m\<rparr>) = (a1, Inl err)" "RegistryBroken d \<in> set (as_problems a1)"
  shows "\<exists>a2. startup_database E st db (new_app\<lparr>as_manager := m\<rparr>) = (a2, db) \<and> RegistryBroken d \<in> set (as_problems a2)"
  using assms by (simp add: startup_database_def add_problem_def)

text \<open>
  A database that was never migrated has no version table: it is reported as unavailable, not as not migrated.
\<close>

lemma unmigrated_is_reported_down:
  assumes "bd_alembic db = None" "startup_database E st db (new_app\<lparr>as_manager := m\<rparr>) = (a1, db')"
  shows "as_problems a1 = [DatabaseDown (se_str_exc E DatabaseError)]"
  using assms by (auto simp: startup_database_def startup_session_def check_schema_def db_answer_def alembic_revision_def
      add_problem_def new_app_def split: if_splits)

end
