(* ===== verification/Queries.thy ===== *)
theory Queries
  imports Json "HOL-Library.Multiset"
begin

text \<open>
  What the read endpoints of \<open>api/v1\<close> share: \<open>ORDER BY time DESC LIMIT n\<close> over a table, the bounds
  FastAPI checks on a query parameter, and the conversion of a JSON value to a \<open>float | None\<close> field.
\<close>

definition newest_first :: "('r \<Rightarrow> int) \<Rightarrow> nat \<Rightarrow> 'r list \<Rightarrow> 'r list" where
  "newest_first time n rows = take n (rev (sort_key time rows))"

text \<open>\<open>Query(ge=lo, le=hi)\<close>: out of range the request is refused before the handler runs.\<close>

definition bounded_query :: "int \<Rightarrow> int \<Rightarrow> int \<Rightarrow> exn + nat" where
  "bounded_query lo hi n = (if lo \<le> n \<and> n \<le> hi then Inr (nat n) else Inl ValidationError)"

text \<open>A plain \<open>int\<close> parameter as a \<open>LIMIT\<close>: the database refuses a negative one.\<close>

definition plain_limit :: "int \<Rightarrow> exn + nat" where
  "plain_limit n = (if n < 0 then Inl DatabaseError else Inr (nat n))"

text \<open>\<open>None\<close> where the response model does not accept the value.\<close>

definition float_field :: "json \<Rightarrow> rat option option" where
  "float_field j = (case j of
     JNull \<Rightarrow> Some None
   | JBool b \<Rightarrow> Some (Some (if b then 1 else 0))
   | JInt k \<Rightarrow> Some (Some (flt (of_int k)))
   | JNum x \<Rightarrow> Some (Some x)
   | JStr s \<Rightarrow> map_option (\<lambda>x. Some (flt x)) (parse_decimal s)
   | _ \<Rightarrow> None)"

section \<open>Lemmas\<close>

lemma newest_first_length: "length (newest_first time n rows) = min n (length rows)"
  by (simp add: newest_first_def)

lemma newest_first_sorted: "sorted_wrt (\<ge>) (map time (newest_first time n rows))"
proof -
  have "sorted_wrt (\<lambda>a b. b \<le> a) (rev (map time (sort_key time rows)))" by (simp add: sorted_wrt_rev)
  then have "sorted_wrt (\<ge>) (take n (rev (map time (sort_key time rows))))" by (rule sorted_wrt_take)
  then show ?thesis by (simp add: newest_first_def take_map rev_map)
qed

text \<open>What is left out is no newer than what is shown, and nothing else is left out.\<close>

lemma newest_first_split:
  "\<exists>rest. mset rows = mset (newest_first time n rows) + mset rest \<and>
     (\<forall>x \<in> set (newest_first time n rows). \<forall>y \<in> set rest. time y \<le> time x)"
proof (intro exI conjI ballI)
  let ?all = "rev (sort_key time rows)"
  show "mset rows = mset (newest_first time n rows) + mset (drop n ?all)"
    by (simp add: newest_first_def flip: mset_append)
  fix x y
  assume xy: "x \<in> set (newest_first time n rows)" "y \<in> set (drop n ?all)"
  have "sorted_wrt (\<ge>) (map time ?all)" using newest_first_sorted [of time "length rows" rows] by (simp add: newest_first_def)
  then have "sorted_wrt (\<ge>) (map time (take n ?all) @ map time (drop n ?all))"
    by (simp only: append_take_drop_id flip: map_append)
  then have "\<forall>a \<in> set (map time (take n ?all)). \<forall>b \<in> set (map time (drop n ?all)). b \<le> a"
    unfolding sorted_wrt_append by blast
  with xy show "time y \<le> time x" by (simp add: newest_first_def)
qed

lemma newest_first_set: "set (newest_first time n rows) \<subseteq> set rows"
  using set_take_subset [of n "rev (sort_key time rows)"] by (simp add: newest_first_def)

end
