(* ===== verification/MarketApi.thy ===== *)
theory MarketApi
  imports FeatureEngine Integrity MarketStream Queries
begin

text \<open>
  \<open>api/v1/market.py\<close>, with the job tracker of \<open>services/historical_ingestion.py\<close>: what is served from the stored
  candles and features, and the background backfill. The backfill runs in one database session: after
  a database error PostgreSQL refuses every further statement of the transaction, and nothing in the
  loop rolls it back. The environment of a job says what the exchange sends for each of its pairs.
\<close>

section \<open>Reading\<close>

record coverage_out =
  co_symbol :: string
  co_timeframe :: string
  co_source :: string
  co_first_candle_open :: "int option"
  co_last_candle_open :: "int option"
  co_candle_count :: int
  co_missing_candles :: int
  co_last_integrity_check :: "int option"
  co_is_clean :: "bool option"

text \<open>The stored report is the dict with its \<open>is_clean\<close> entry; a row that was never checked has none.\<close>

definition coverage_endpoint :: "market_db \<Rightarrow> coverage_out list" where
  "coverage_endpoint db = map (\<lambda>m. \<lparr>co_symbol = cv_symbol m, co_timeframe = cv_timeframe m, co_source = cv_source m,
     co_first_candle_open = cv_first_open m, co_last_candle_open = cv_last_open m, co_candle_count = cv_count m,
     co_missing_candles = cv_missing m, co_last_integrity_check = cv_last_check m,
     co_is_clean = map_option is_clean (cv_report m)\<rparr>) (md_coverage db)"

record candle_out =
  ca_symbol :: string
  ca_timeframe :: string
  ca_open_time :: int
  ca_close_time :: int
  ca_open :: rat
  ca_high :: rat
  ca_low :: rat
  ca_close :: rat
  ca_volume :: rat
  ca_quote_volume :: "rat option"
  ca_trades :: "int option"
  ca_is_closed :: bool

definition candle_out_of :: "candle \<Rightarrow> candle_out" where
  "candle_out_of c = \<lparr>ca_symbol = cd_symbol c, ca_timeframe = cd_timeframe c, ca_open_time = cd_open_time c,
     ca_close_time = cd_close_time c, ca_open = flt (cd_open c), ca_high = flt (cd_high c), ca_low = flt (cd_low c),
     ca_close = flt (cd_close c), ca_volume = flt (cd_volume c), ca_quote_volume = map_option flt (cd_quote_volume c),
     ca_trades = cd_trades c, ca_is_closed = cd_is_closed c\<rparr>"

definition candles_endpoint :: "market_db \<Rightarrow> string \<Rightarrow> string \<Rightarrow> int \<Rightarrow> exn + candle_out list" where
  "candles_endpoint db symbol tf limit =
     (case bounded_query 1 1000 limit of
        Inl err \<Rightarrow> Inl err
      | Inr n \<Rightarrow> (case timeframe_seconds tf of
            Inl _ \<Rightarrow> Inl ValidationError
          | Inr _ \<Rightarrow> Inr (map candle_out_of (newest_first cd_open_time n
              (filter (\<lambda>c. cd_symbol c = upper symbol \<and> cd_timeframe c = tf \<and> cd_is_closed c) (md_candles db))))))"

record feature_vector_out =
  fv_symbol :: string
  fv_timeframe :: string
  fv_open_time :: int
  fv_feature_version :: string
  fv_features :: "(string \<times> rat option) list"

definition float_fields :: "payload \<Rightarrow> (string \<times> rat option) list option" where
  "float_fields d = those (map (\<lambda>(name, v). map_option (Pair name) (float_field v)) d)"

text \<open>The response model is built in the handler: a value it does not accept is an exception there.\<close>

definition feature_out_of :: "feature_row \<Rightarrow> exn + feature_vector_out" where
  "feature_out_of r = (case float_fields (ft_features r) of
     None \<Rightarrow> Inl ValueError
   | Some fs \<Rightarrow> Inr \<lparr>fv_symbol = ft_symbol r, fv_timeframe = ft_timeframe r, fv_open_time = ft_open_time r,
       fv_feature_version = ft_feature_version r, fv_features = fs\<rparr>)"

fun collect :: "('a \<Rightarrow> exn + 'b) \<Rightarrow> 'a list \<Rightarrow> exn + 'b list" where
  "collect f [] = Inr []"
| "collect f (x # xs) = (case f x of Inl err \<Rightarrow> Inl err | Inr y \<Rightarrow> map_sum id (\<lambda>ys. y # ys) (collect f xs))"

definition features_endpoint :: "feature_row list \<Rightarrow> string \<Rightarrow> string \<Rightarrow> string \<Rightarrow> int \<Rightarrow> exn + feature_vector_out list" where
  "features_endpoint table version symbol tf limit =
     (case bounded_query 1 1000 limit of
        Inl err \<Rightarrow> Inl err
      | Inr n \<Rightarrow> collect feature_out_of (newest_first ft_open_time n
          (filter (\<lambda>r. ft_symbol r = upper symbol \<and> ft_timeframe r = tf \<and> ft_feature_version r = version) table)))"

section \<open>The pairs a request selects\<close>

definition selected_symbols :: "trading_config \<Rightarrow> string option \<Rightarrow> string list" where
  "selected_symbols t symbol = (case symbol of Some s \<Rightarrow> if s = '''' then tc_assets t else [upper s] | None \<Rightarrow> tc_assets t)"

definition selected_timeframes :: "trading_config \<Rightarrow> timeframe option \<Rightarrow> timeframe list" where
  "selected_timeframes t tf = (case tf of Some x \<Rightarrow> [x] | None \<Rightarrow> tc_timeframes t)"

definition selected_pairs :: "trading_config \<Rightarrow> string option \<Rightarrow> timeframe option \<Rightarrow> (string \<times> string) list" where
  "selected_pairs t symbol tf =
     List.product (selected_symbols t symbol) (map timeframe_value (selected_timeframes t tf))"

text \<open>
  \<open>compute_features\<close>: one request session, each pair commits; the counts by \<open>symbol:timeframe\<close>. An exception
  ends the request, what was stored stays.
\<close>

fun compute_pairs ::
  "'v pandas \<Rightarrow> candle list \<Rightarrow> string \<Rightarrow> (string \<times> string) list \<Rightarrow> feature_row list \<Rightarrow> (string, nat) dict
     \<Rightarrow> feature_row list \<times> (exn + (string, nat) dict)" where
  "compute_pairs P candles version [] table counts = (table, Inr counts)"
| "compute_pairs P candles version ((s, tf) # ps) table counts =
     (case compute_and_store_all P candles s tf version table of
        Inl err \<Rightarrow> (table, Inl err)
      | Inr (table', n) \<Rightarrow> compute_pairs P candles version ps table' (AList.update (s @ '':'' @ tf) n counts))"

definition compute_features_endpoint ::
  "'v pandas \<Rightarrow> settings \<Rightarrow> market_db \<Rightarrow> string option \<Rightarrow> timeframe option \<Rightarrow> feature_row list
     \<Rightarrow> feature_row list \<times> (exn + (string, nat) dict)" where
  "compute_features_endpoint P st db symbol tf table =
     compute_pairs P (md_candles db) (mc_feature_version (st_models st)) (selected_pairs (st_trading st) symbol tf) table []"

definition validate_integrity_endpoint :: "settings \<Rightarrow> int \<Rightarrow> market_db \<Rightarrow> market_db \<times> (exn + integrity_report list)" where
  "validate_integrity_endpoint st now db =
     (case validate_all_configured (tc_assets (st_trading st)) (map timeframe_value (tc_timeframes (st_trading st))) ''BINANCE'' now db of
        (db', r) \<Rightarrow> (db', map_sum id (map to_dict) r))"

section \<open>The backfill job\<close>

record ingestion_job =
  ij_started_at :: string
  ij_finished_at :: "string option"
  ij_running :: bool
  ij_results :: "(ingestion_result \<times> string option) list"
  ij_error :: "string option"

type_synonym tracker = "ingestion_job option"

definition new_job :: "string \<Rightarrow> ingestion_job" where
  "new_job now = \<lparr>ij_started_at = now, ij_finished_at = None, ij_running = True, ij_results = [], ij_error = None\<rparr>"

definition total_candles :: "ingestion_job \<Rightarrow> int" where
  "total_candles j = sum_list (map (\<lambda>r. ir_inserted (fst r)) (ij_results j))"

definition finish_job :: "string \<Rightarrow> ingestion_job \<Rightarrow> ingestion_job" where
  "finish_job now j = j\<lparr>ij_running := False, ij_finished_at := Some now\<rparr>"

text \<open>\<open>start_backfill\<close>: the job it puts into the tracker and the pairs of its task.\<close>

definition start_backfill ::
  "settings \<Rightarrow> bool \<Rightarrow> string \<Rightarrow> string option \<Rightarrow> timeframe option \<Rightarrow> tracker \<Rightarrow> exn + tracker \<times> (string \<times> string) list" where
  "start_backfill st has_binance now symbol tf tracker =
     (if \<not> has_binance then Inl ServiceUnavailableError
      else case tracker of
          Some j \<Rightarrow> if ij_running j then Inl ValidationError
            else Inr (Some (new_job now), selected_pairs (st_trading st) symbol tf)
        | None \<Rightarrow> Inr (Some (new_job now), selected_pairs (st_trading st) symbol tf))"

record 'v backfill_env =
  bf_pandas :: "'v pandas"
  bf_quantize :: "nat \<Rightarrow> rat \<Rightarrow> rat"
  bf_feature_version :: string
  bf_fetch :: "nat \<Rightarrow> nat \<Rightarrow> int \<Rightarrow> exn + kline list"
  bf_features_up :: "nat \<Rightarrow> bool"
  bf_entry :: "exn option"
  bf_commit :: "exn option"
  bf_finished_at :: string
  bf_str_exc :: "exn \<Rightarrow> string"

record backfill_state =
  bk_market :: market_db
  bk_features :: "feature_row list"
  bk_aborted :: bool
  bk_results :: "(ingestion_result \<times> string option) list"

text \<open>
  One pair: its candles page by page, then its features if anything was stored. A page that the database
  does not take, or cannot be asked for, is the \<open>DatabaseError\<close> of the environment.
\<close>

definition backfill_pair ::
  "'v backfill_env \<Rightarrow> nat \<Rightarrow> string \<times> string \<Rightarrow> market_db \<times> feature_row list
     \<Rightarrow> (market_db \<times> feature_row list) \<times> (exn + ingestion_result)" where
  "backfill_pair E i p mf =
     (case backfill_symbol_timeframe (bf_quantize E) ''BINANCE'' (bf_fetch E i) (fst p) (snd p) DEFAULT_MAX_PAGES (fst mf) of
        (m', Inl err) \<Rightarrow> ((m', snd mf), Inl err)
      | (m', Inr res) \<Rightarrow>
          if ir_inserted res = 0 \<and> ir_updated res = 0 then ((m', snd mf), Inr res)
          else if \<not> bf_features_up E i then ((m', snd mf), Inl DatabaseError)
          else (case compute_and_store_all (bf_pandas E) (md_candles m') (fst p) (snd p) (bf_feature_version E) (snd mf) of
                Inl err \<Rightarrow> ((m', snd mf), Inl err)
              | Inr (table, _) \<Rightarrow> ((m', table), Inr res)))"

definition error_result :: "string \<times> string \<Rightarrow> ingestion_result" where
  "error_result p = (new_result (fst p) (snd p))\<lparr>ir_stopped_reason := ''error''\<rparr>"

definition result_of :: "(exn \<Rightarrow> string) \<Rightarrow> string \<times> string \<Rightarrow> exn + ingestion_result \<Rightarrow> ingestion_result \<times> string option" where
  "result_of str_exc p r = (case r of Inr res \<Rightarrow> (res, None) | Inl err \<Rightarrow> (error_result p, Some (str_exc err)))"

text \<open>A turn of the loop; in an aborted transaction the first query already fails.\<close>

definition pair_outcome ::
  "'v backfill_env \<Rightarrow> nat \<Rightarrow> string \<times> string \<Rightarrow> backfill_state \<Rightarrow> (market_db \<times> feature_row list) \<times> (exn + ingestion_result)" where
  "pair_outcome E i p b =
     (if bk_aborted b then ((bk_market b, bk_features b), Inl DatabaseError)
      else backfill_pair E i p (bk_market b, bk_features b))"

definition backfill_turn :: "'v backfill_env \<Rightarrow> nat \<times> string \<times> string \<Rightarrow> backfill_state \<Rightarrow> backfill_state" where
  "backfill_turn E ip b =
     (case pair_outcome E (fst ip) (snd ip) b of
        ((m, f), r) \<Rightarrow> \<lparr>bk_market = m, bk_features = f, bk_aborted = (bk_aborted b \<or> r = Inl DatabaseError),
          bk_results = bk_results b @ [result_of (bf_str_exc E) (snd ip) r]\<rparr>)"

definition backfill_loop ::
  "'v backfill_env \<Rightarrow> (string \<times> string) list \<Rightarrow> market_db \<times> feature_row list \<Rightarrow> backfill_state" where
  "backfill_loop E pairs mf = fold (backfill_turn E) (enumerate 0 pairs)
     \<lparr>bk_market = fst mf, bk_features = snd mf, bk_aborted = False, bk_results = []\<rparr>"

definition run_backfill ::
  "'v backfill_env \<Rightarrow> (string \<times> string) list \<Rightarrow> ingestion_job \<Rightarrow> market_db \<times> feature_row list
     \<Rightarrow> ingestion_job \<times> market_db \<times> feature_row list" where
  "run_backfill E pairs job mf =
     (case bf_entry E of
        Some err \<Rightarrow> (finish_job (bf_finished_at E) (job\<lparr>ij_error := Some (bf_str_exc E err)\<rparr>), mf)
      | None \<Rightarrow>
          (let b = backfill_loop E pairs mf;
               job1 = job\<lparr>ij_results := ij_results job @ bk_results b,
                 ij_error := (case bf_commit E of Some err \<Rightarrow> Some (bf_str_exc E err) | None \<Rightarrow> ij_error job)\<rparr>
           in (finish_job (bf_finished_at E) job1, (bk_market b, bk_features b))))"

definition backfill_status :: "tracker \<Rightarrow> (ingestion_job \<times> int) option" where
  "backfill_status tracker = map_option (\<lambda>j. (j, total_candles j)) tracker"


section \<open>Lemmas\<close>

lemma store_page_other:
  assumes "store_page qz src s tf step_ms page start db res = Inr (db', res', start')" "page_ok s tf page" "(s', tf') \<noteq> (s, tf)"
  shows "opens db' s' tf' = opens db s' tf'" "ir_symbol res' = ir_symbol res" "ir_timeframe res' = ir_timeframe res"
    "ir_inserted res \<le> ir_inserted res'"
    "int (length (md_candles db')) - int (length (md_candles db)) = ir_inserted res' - ir_inserted res"
proof -
  have "opens db' s' tf' = opens db s' tf' \<and> ir_symbol res' = ir_symbol res \<and> ir_timeframe res' = ir_timeframe res \<and>
      ir_inserted res \<le> ir_inserted res' \<and>
      int (length (md_candles db')) - int (length (md_candles db)) = ir_inserted res' - ir_inserted res"
    using assms(1)
  proof (cases rule: store_page_cases)
    case (stored rows ins upd)
    have "candle_key ` set rows = (\<lambda>t. (s, tf, t)) ` kl_open_time ` set page \<union> candle_key ` set (md_candles db)"
      using upsert_candles_result(1) [OF stored(2)] page_keys [OF assms(2)] by simp
    moreover have rows: "md_candles db' = rows" by (simp add: stored(3) update_metadata_def edit_coverage_def)
    ultimately have "opens db' s' tf' = opens db s' tf'" using assms(3) by (auto simp: opens_def)
    with stored(4) rows upsert_candles_result(3,5) [OF stored(2)] show ?thesis by simp
  qed simp
  then show "opens db' s' tf' = opens db s' tf'" "ir_symbol res' = ir_symbol res" "ir_timeframe res' = ir_timeframe res"
    "ir_inserted res \<le> ir_inserted res'"
    "int (length (md_candles db')) - int (length (md_candles db)) = ir_inserted res' - ir_inserted res" by simp_all
qed

lemma backfill_pages_other:
  assumes "backfill_pages qz src fetch s tf step_ms n start db res = (db', r)" "serves s tf fetch" "(s', tf') \<noteq> (s, tf)"
  shows "opens db' s' tf' = opens db s' tf' \<and> length (md_candles db) \<le> length (md_candles db') \<and>
    (\<forall>res'. r = Inr res' \<longrightarrow> ir_symbol res' = ir_symbol res \<and> ir_timeframe res' = ir_timeframe res \<and>
       int (length (md_candles db')) - int (length (md_candles db)) = ir_inserted res' - ir_inserted res)"
  using assms(1)
proof (induction n arbitrary: start db res)
  case (Suc n)
  show ?case
  proof (cases "fetch (ir_pages_fetched res) start")
    case (Inl err)
    with Suc show ?thesis by auto
  next
    case (Inr ks)
    let ?page = "filter kl_is_closed ks" and ?res = "res\<lparr>ir_pages_fetched := ir_pages_fetched res + 1\<rparr>"
    have page: "page_ok s tf ?page" using assms(2) Inr by (auto simp: serves_def intro: page_ok_filter)
    show ?thesis
    proof (cases "store_page qz src s tf step_ms ?page start db ?res")
      case (Inl err)
      with Suc Inr show ?thesis by (auto simp: Let_def)
    next
      case stored: (Inr a)
      obtain db1 res1 start1 where a: "a = (db1, res1, start1)" by (cases a)
      note ok = store_page_other [OF stored [unfolded a] page assms(3)]
      show ?thesis
      proof (cases "length ?page < KLINES_PER_PAGE")
        case True
        with Suc.prems Inr stored a ok show ?thesis by (auto simp: Let_def)
      next
        case False
        with Suc.prems Inr stored a have "backfill_pages qz src fetch s tf step_ms n start1 db1 res1 = (db', r)"
          by (simp add: Let_def)
        note IH = Suc.IH [OF this]
        have same: "ir_symbol ?res = ir_symbol res" "ir_timeframe ?res = ir_timeframe res" "ir_inserted ?res = ir_inserted res" by simp_all
        have "length (md_candles db) \<le> length (md_candles db1)" using ok(4,5) by linarith
        then have "opens db' s' tf' = opens db s' tf' \<and> length (md_candles db) \<le> length (md_candles db')" using IH ok(1) by auto
        moreover have "ir_symbol res' = ir_symbol res \<and> ir_timeframe res' = ir_timeframe res \<and>
            int (length (md_candles db')) - int (length (md_candles db)) = ir_inserted res' - ir_inserted res" if "r = Inr res'" for res'
        proof -
          have r: "ir_symbol res' = ir_symbol res1" "ir_timeframe res' = ir_timeframe res1"
            "int (length (md_candles db')) - int (length (md_candles db1)) = ir_inserted res' - ir_inserted res1"
            using IH that by blast+
          have "int (length (md_candles db')) - int (length (md_candles db)) = ir_inserted res' - ir_inserted res"
            using r(3) ok(5) same(3) by linarith
          then show ?thesis using r(1,2) ok(2,3) same(1,2) by simp
        qed
        ultimately show ?thesis by blast
      qed
    qed
  qed
qed auto

lemma backfill_other:
  assumes "backfill_symbol_timeframe qz src fetch s tf n db = (db', r)" "serves s tf fetch"
  shows "(s', tf') \<noteq> (s, tf) \<Longrightarrow> opens db' s' tf' = opens db s' tf'"
    and "r = Inr res \<Longrightarrow> ir_symbol res = s \<and> ir_timeframe res = tf \<and>
      int (length (md_candles db')) - int (length (md_candles db)) = ir_inserted res"
    and "length (md_candles db) \<le> length (md_candles db')"
proof -
  have *: "opens db' s' tf' = opens db s' tf' \<and> length (md_candles db) \<le> length (md_candles db') \<and>
      (\<forall>res. r = Inr res \<longrightarrow> ir_symbol res = s \<and> ir_timeframe res = tf \<and>
         int (length (md_candles db')) - int (length (md_candles db)) = ir_inserted res)"
    if "(s', tf') \<noteq> (s, tf)" for s' tf'
  proof (cases "resume_point db s tf src"; cases "timeframe_seconds tf")
    fix resume sec
    assume "resume_point db s tf src = Inr resume" "timeframe_seconds tf = Inr sec"
    with assms(1) have "backfill_pages qz src fetch s tf (sec * 1000) n
        (case resume of None \<Rightarrow> EARLIEST_POSSIBLE_MS | Some ms \<Rightarrow> ms) db (new_result s tf) = (db', r)"
      by (simp add: backfill_symbol_timeframe_def)
    from backfill_pages_other [OF this assms(2) that] show ?thesis by (simp add: new_result_def)
  qed (use assms(1) in \<open>auto simp: backfill_symbol_timeframe_def\<close>)
  then show "(s', tf') \<noteq> (s, tf) \<Longrightarrow> opens db' s' tf' = opens db s' tf'" by blast
  have "(s @ ''x'', tf) \<noteq> (s, tf)" by simp
  from * [OF this] show "r = Inr res \<Longrightarrow> ir_symbol res = s \<and> ir_timeframe res = tf \<and>
      int (length (md_candles db')) - int (length (md_candles db)) = ir_inserted res"
    "length (md_candles db) \<le> length (md_candles db')" by blast+
qed

text \<open>What a pair does to the store.\<close>

lemma backfill_pair_ok:
  assumes "backfill_pair E i p (m, f) = ((m', f'), r)" "market_ok ''BINANCE'' m" "serves (fst p) (snd p) (bf_fetch E i)"
  shows "market_ok ''BINANCE'' m'" "opens m s tf \<subseteq> opens m' s tf" "(s, tf) \<noteq> p \<Longrightarrow> opens m' s tf = opens m s tf"
    "r = Inr res \<Longrightarrow> (ir_symbol res, ir_timeframe res) = p \<and>
       ir_inserted res = int (length (md_candles m')) - int (length (md_candles m))"
    "length (md_candles m) \<le> length (md_candles m')"
proof -
  obtain m1 r1 where b: "backfill_symbol_timeframe (bf_quantize E) ''BINANCE'' (bf_fetch E i) (fst p) (snd p) DEFAULT_MAX_PAGES m = (m1, r1)"
    by fastforce
  have m: "m' = m1" using assms(1) by (auto simp: backfill_pair_def b split: sum.splits if_splits)
  have r: "r = Inr res \<Longrightarrow> r1 = Inr res" for res using assms(1) by (auto simp: backfill_pair_def b split: sum.splits if_splits)
  note ok = backfill_ok [OF b assms(2,3)] and other = backfill_other [OF b assms(3)]
  show "market_ok ''BINANCE'' m'" using ok(1) by (simp add: m)
  show same: "(s, tf) \<noteq> p \<Longrightarrow> opens m' s tf = opens m s tf" using other(1) [of s tf] by (simp add: m)
  show "opens m s tf \<subseteq> opens m' s tf" using ok(2) same by (cases "(s, tf) = p") (auto simp: m)
  show "r = Inr res \<Longrightarrow> (ir_symbol res, ir_timeframe res) = p \<and>
       ir_inserted res = int (length (md_candles m')) - int (length (md_candles m))"
    using r [of res] other(2) [of res] by (simp add: m)
  show "length (md_candles m) \<le> length (md_candles m')" using other(3) by (simp add: m)
qed


lemma loop_snoc:
  "backfill_loop E (pairs @ [p]) mf = backfill_turn E (length pairs, p) (backfill_loop E pairs mf)"
  by (simp add: backfill_loop_def enumerate_append_eq)

definition result_pair :: "ingestion_result \<times> string option \<Rightarrow> string \<times> string" where
  "result_pair r = (ir_symbol (fst r), ir_timeframe (fst r))"

definition inserted_total :: "(ingestion_result \<times> string option) list \<Rightarrow> int" where
  "inserted_total rs = sum_list (map (\<lambda>r. ir_inserted (fst r)) rs)"

lemma turn_ok:
  assumes "backfill_turn E (i, p) b = b'" "market_ok ''BINANCE'' (bk_market b)" "serves (fst p) (snd p) (bf_fetch E i)"
  shows "market_ok ''BINANCE'' (bk_market b')" "opens (bk_market b) s tf \<subseteq> opens (bk_market b') s tf"
    "(s, tf) \<noteq> p \<Longrightarrow> opens (bk_market b') s tf = opens (bk_market b) s tf"
    "\<exists>x. bk_results b' = bk_results b @ [x] \<and> result_pair x = p \<and>
       ir_inserted (fst x) \<le> int (length (md_candles (bk_market b'))) - int (length (md_candles (bk_market b))) \<and>
       (snd x = None \<longrightarrow> ir_inserted (fst x) = int (length (md_candles (bk_market b'))) - int (length (md_candles (bk_market b))))"
proof -
  obtain m f r where o: "pair_outcome E i p b = ((m, f), r)" by (metis surj_pair)
  have b': "b' = \<lparr>bk_market = m, bk_features = f, bk_aborted = (bk_aborted b \<or> r = Inl DatabaseError),
      bk_results = bk_results b @ [result_of (bf_str_exc E) p r]\<rparr>"
    using assms(1) by (simp add: backfill_turn_def o)
  have err: "result_pair (error_result p, t) = p \<and> ir_inserted (error_result p) = 0" for t
    by (simp add: result_pair_def error_result_def new_result_def)
  have "market_ok ''BINANCE'' m \<and> opens (bk_market b) s tf \<subseteq> opens m s tf \<and>
      ((s, tf) \<noteq> p \<longrightarrow> opens m s tf = opens (bk_market b) s tf) \<and> length (md_candles (bk_market b)) \<le> length (md_candles m) \<and>
      (\<forall>res. r = Inr res \<longrightarrow> (ir_symbol res, ir_timeframe res) = p \<and>
         ir_inserted res = int (length (md_candles m)) - int (length (md_candles (bk_market b))))"
  proof (cases "bk_aborted b")
    case True
    with o assms(2) show ?thesis by (auto simp: pair_outcome_def)
  next
    case False
    with o have "backfill_pair E i p (bk_market b, bk_features b) = ((m, f), r)" by (simp add: pair_outcome_def)
    from backfill_pair_ok [OF this assms(2,3)] show ?thesis by blast
  qed
  note ok = this
  show "market_ok ''BINANCE'' (bk_market b')" "opens (bk_market b) s tf \<subseteq> opens (bk_market b') s tf"
    "(s, tf) \<noteq> p \<Longrightarrow> opens (bk_market b') s tf = opens (bk_market b) s tf" using ok by (simp_all add: b')
  show "\<exists>x. bk_results b' = bk_results b @ [x] \<and> result_pair x = p \<and>
       ir_inserted (fst x) \<le> int (length (md_candles (bk_market b'))) - int (length (md_candles (bk_market b))) \<and>
       (snd x = None \<longrightarrow> ir_inserted (fst x) = int (length (md_candles (bk_market b'))) - int (length (md_candles (bk_market b))))"
    using ok err by (cases r) (simp_all add: b' result_of_def result_pair_def)
qed

lemma loop_ok:
  fixes f :: "feature_row list"
  assumes "market_ok ''BINANCE'' m" "\<And>i. i < length pairs \<Longrightarrow> serves (fst (pairs ! i)) (snd (pairs ! i)) (bf_fetch E i)"
  defines "b \<equiv> backfill_loop E pairs (m, f)"
  shows "market_ok ''BINANCE'' (bk_market b) \<and> (\<forall>s tf. opens m s tf \<subseteq> opens (bk_market b) s tf) \<and>
    (\<forall>s tf. (s, tf) \<notin> set pairs \<longrightarrow> opens (bk_market b) s tf = opens m s tf) \<and> map result_pair (bk_results b) = pairs \<and>
    inserted_total (bk_results b) \<le> int (length (md_candles (bk_market b))) - int (length (md_candles m)) \<and>
    (list_all (\<lambda>r. snd r = None) (bk_results b) \<longrightarrow>
       inserted_total (bk_results b) = int (length (md_candles (bk_market b))) - int (length (md_candles m)))"
  using assms(2) unfolding b_def
proof (induction pairs rule: rev_induct)
  case Nil
  with assms(1) show ?case by (simp add: backfill_loop_def inserted_total_def)
next
  case (snoc p pairs)
  let ?b = "backfill_loop E pairs (m, f)"
  have "serves (fst (pairs ! i)) (snd (pairs ! i)) (bf_fetch E i)" if "i < length pairs" for i
    using snoc.prems [of i] that by (simp add: nth_append)
  from snoc.IH [OF this] have IH: "market_ok ''BINANCE'' (bk_market ?b)" "\<And>s tf. opens m s tf \<subseteq> opens (bk_market ?b) s tf"
    "\<And>s tf. (s, tf) \<notin> set pairs \<Longrightarrow> opens (bk_market ?b) s tf = opens m s tf" "map result_pair (bk_results ?b) = pairs"
    "inserted_total (bk_results ?b) \<le> int (length (md_candles (bk_market ?b))) - int (length (md_candles m))"
    "list_all (\<lambda>r. snd r = None) (bk_results ?b) \<Longrightarrow>
       inserted_total (bk_results ?b) = int (length (md_candles (bk_market ?b))) - int (length (md_candles m))" by blast+
  have srv: "serves (fst p) (snd p) (bf_fetch E (length pairs))" using snoc.prems [of "length pairs"] by simp
  define b' where "b' = backfill_turn E (length pairs, p) ?b"
  note t = turn_ok [OF b'_def [symmetric] IH(1) srv]
  from t(4) obtain x where x': "bk_results b' = bk_results ?b @ [x] \<and> result_pair x = p \<and>
      ir_inserted (fst x) \<le> int (length (md_candles (bk_market b'))) - int (length (md_candles (bk_market ?b))) \<and>
      (snd x = None \<longrightarrow> ir_inserted (fst x) = int (length (md_candles (bk_market b'))) - int (length (md_candles (bk_market ?b))))" ..
  note x = x' [THEN conjunct1] x' [THEN conjunct2, THEN conjunct1] x' [THEN conjunct2, THEN conjunct2, THEN conjunct1]
    x' [THEN conjunct2, THEN conjunct2, THEN conjunct2, rule_format]
  have grow: "opens m s tf \<subseteq> opens (bk_market b') s tf" for s tf
    using IH(2) t(2) by blast
  have keep: "opens (bk_market b') s tf = opens m s tf" if "(s, tf) \<notin> set (pairs @ [p])" for s tf
    using IH(3) [of s tf] t(3) [of s tf] that by simp
  have sum: "inserted_total (bk_results b') = inserted_total (bk_results ?b) + ir_inserted (fst x)"
    by (simp add: inserted_total_def x(1))
  have all: "list_all (\<lambda>r. snd r = None) (bk_results b') \<longleftrightarrow> list_all (\<lambda>r. snd r = None) (bk_results ?b) \<and> snd x = None"
    by (simp add: x(1))
  have le: "inserted_total (bk_results b') \<le> int (length (md_candles (bk_market b'))) - int (length (md_candles m))"
    unfolding sum using IH(5) x(3) by linarith
  have eq: "inserted_total (bk_results b') = int (length (md_candles (bk_market b'))) - int (length (md_candles m))"
    if "list_all (\<lambda>r. snd r = None) (bk_results b')"
  proof -
    have "inserted_total (bk_results ?b) = int (length (md_candles (bk_market ?b))) - int (length (md_candles m))"
      using that IH(6) unfolding all by blast
    moreover have "ir_inserted (fst x) = int (length (md_candles (bk_market b'))) - int (length (md_candles (bk_market ?b)))"
      using that x(4) unfolding all by blast
    ultimately show ?thesis unfolding sum by linarith
  qed
  have "map result_pair (bk_results b') = pairs @ [p]" using x(1,2) IH(4) by simp
  then show ?case unfolding loop_snoc b'_def [symmetric] using t(1) grow keep le eq by blast
qed


text \<open>The state a pair starts from, and what becomes of the results after it.\<close>

lemma loop_results:
  assumes "i < length pairs"
  shows "\<exists>rest. bk_results (backfill_loop E pairs mf) = bk_results (backfill_loop E (take (Suc i) pairs) mf) @ rest"
  using assms
proof (induction pairs rule: rev_induct)
  case (snoc p pairs)
  show ?case
  proof (cases "i < length pairs")
    case True
    from snoc.IH [OF True] obtain rest where
      r: "bk_results (backfill_loop E pairs mf) = bk_results (backfill_loop E (take (Suc i) pairs) mf) @ rest" ..
    have "take (Suc i) (pairs @ [p]) = take (Suc i) pairs" using True by simp
    then show ?thesis unfolding loop_snoc
      using r by (simp add: backfill_turn_def split: prod.split)
  next
    case False
    with snoc.prems have "take (Suc i) (pairs @ [p]) = pairs @ [p]" by simp
    then show ?thesis by simp
  qed
qed simp

lemma results_length: "length (bk_results (backfill_loop E pairs mf)) = length pairs"
proof (induction pairs rule: rev_induct)
  case Nil
  show ?case by (simp add: backfill_loop_def)
next
  case (snoc p pairs)
  then show ?case unfolding loop_snoc by (simp add: backfill_turn_def split: prod.split)
qed

lemma result_nth:
  assumes "i < length pairs"
  shows "bk_results (backfill_loop E pairs mf) ! i =
    result_of (bf_str_exc E) (pairs ! i) (snd (pair_outcome E i (pairs ! i) (backfill_loop E (take i pairs) mf)))"
proof -
  have t: "take (Suc i) pairs = take i pairs @ [pairs ! i]" using assms by (simp add: take_Suc_conv_app_nth)
  have len: "length (bk_results (backfill_loop E (take i pairs) mf)) = i" "length (take i pairs) = i"
    using assms by (simp_all add: results_length)
  obtain rest where "bk_results (backfill_loop E pairs mf) = bk_results (backfill_loop E (take (Suc i) pairs) mf) @ rest"
    using loop_results [OF assms] by blast
  then show ?thesis unfolding t loop_snoc len(2)
    using len(1) by (simp add: backfill_turn_def nth_append split: prod.split)
qed

text \<open>The session is lost exactly from the first database error on.\<close>

lemma aborted_iff:
  "bk_aborted (backfill_loop E pairs mf) \<longleftrightarrow>
     (\<exists>i < length pairs. snd (pair_outcome E i (pairs ! i) (backfill_loop E (take i pairs) mf)) = Inl DatabaseError)"
proof (induction pairs rule: rev_induct)
  case Nil
  show ?case by (simp add: backfill_loop_def)
next
  case (snoc p pairs)
  let ?out = "\<lambda>ps i. snd (pair_outcome E i (ps ! i) (backfill_loop E (take i ps) mf))"
  have split: "(\<exists>i < Suc (length pairs). Q i) \<longleftrightarrow> (\<exists>i < length pairs. Q' i) \<or> Q (length pairs)"
    if "\<And>i. i < length pairs \<Longrightarrow> Q i = Q' i" for Q Q' :: "nat \<Rightarrow> bool"
    using that by (auto simp: less_Suc_eq)
  have "(\<exists>i < length (pairs @ [p]). ?out (pairs @ [p]) i = Inl DatabaseError) \<longleftrightarrow>
      (\<exists>i < length pairs. ?out pairs i = Inl DatabaseError) \<or> ?out (pairs @ [p]) (length pairs) = Inl DatabaseError"
    using split [of "\<lambda>i. ?out (pairs @ [p]) i = Inl DatabaseError" "\<lambda>i. ?out pairs i = Inl DatabaseError"]
    by (simp add: nth_append)
  also have "?out (pairs @ [p]) (length pairs) = snd (pair_outcome E (length pairs) p (backfill_loop E pairs mf))" by simp
  finally show ?case unfolding loop_snoc using snoc.IH by (simp add: backfill_turn_def split: prod.split)
qed

section \<open>Properties\<close>

text \<open>
  The stored candles are served as asked for. A request is refused exactly for a limit out of range or an unknown timeframe;
  otherwise it shows closed candles of that symbol and timeframe only, newest first, as many as asked for or all there are, and
  none it leaves out is newer than one it shows.
\<close>

theorem candles_served_exactly:
  "case candles_endpoint db symbol tf limit of
     Inl err \<Rightarrow> err = ValidationError \<and> (limit < 1 \<or> 1000 < limit \<or> (\<exists>e. timeframe_seconds tf = Inl e))
   | Inr shown \<Rightarrow> 1 \<le> limit \<and> limit \<le> 1000 \<and> sorted_wrt (\<ge>) (map ca_open_time shown) \<and>
       (\<exists>asked chosen rest. asked = filter (\<lambda>c. cd_symbol c = upper symbol \<and> cd_timeframe c = tf \<and> cd_is_closed c) (md_candles db) \<and>
          shown = map candle_out_of chosen \<and> mset asked = mset chosen + mset rest \<and>
          length chosen = min (nat limit) (length asked) \<and> (\<forall>x \<in> set chosen. \<forall>y \<in> set rest. cd_open_time y \<le> cd_open_time x))"
proof (cases "1 \<le> limit \<and> limit \<le> 1000")
  case range: True
  show ?thesis
  proof (cases "timeframe_seconds tf")
    case (Inr sec)
    let ?asked = "filter (\<lambda>c. cd_symbol c = upper symbol \<and> cd_timeframe c = tf \<and> cd_is_closed c) (md_candles db)"
    let ?chosen = "newest_first cd_open_time (nat limit) ?asked"
    have e: "candles_endpoint db symbol tf limit = Inr (map candle_out_of ?chosen)"
      using range Inr by (simp add: candles_endpoint_def bounded_query_def)
    have "map ca_open_time (map candle_out_of ?chosen) = map cd_open_time ?chosen" by (simp add: candle_out_of_def)
    then have sorted: "sorted_wrt (\<ge>) (map ca_open_time (map candle_out_of ?chosen))" by (simp only: newest_first_sorted)
    from newest_first_split [of ?asked cd_open_time "nat limit"] obtain rest where r:
      "mset ?asked = mset ?chosen + mset rest \<and> (\<forall>x \<in> set ?chosen. \<forall>y \<in> set rest. cd_open_time y \<le> cd_open_time x)" ..
    note rest = r [THEN conjunct1] r [THEN conjunct2]
    have len: "length ?chosen = min (nat limit) (length ?asked)" by (rule newest_first_length)
    have bounds: "1 \<le> limit" "limit \<le> 1000" using range by simp_all
    show ?thesis unfolding e sum.case
      by (intro conjI exI [of _ ?asked] exI [of _ ?chosen] exI [of _ rest] refl bounds sorted rest len)
  qed (use range in \<open>simp add: candles_endpoint_def bounded_query_def\<close>)
qed (auto simp: candles_endpoint_def bounded_query_def)

text \<open>
  C35: a backfill finishes with one result per pair and never loses a candle. Each result is that of its pair run on what the pairs before it
  left, as long as none of those ended in a database error, so an exchange that fails on one pair costs no other; pairs
  that were not asked for are untouched, the store stays consistent, and the total reported is at most what was stored, and exactly
  that when no pair failed.
\<close>

theorem backfill_isolates_pairs:
  assumes "market_ok ''BINANCE'' m" "\<And>i. i < length pairs \<Longrightarrow> serves (fst (pairs ! i)) (snd (pairs ! i)) (bf_fetch E i)"
    "bf_entry E = None" "run_backfill E pairs (new_job now) (m, f) = (job, m', f')"
  shows "\<not> ij_running job \<and> map result_pair (ij_results job) = pairs \<and> market_ok ''BINANCE'' m' \<and>
    (\<forall>s tf. opens m s tf \<subseteq> opens m' s tf \<and> ((s, tf) \<in> set pairs \<or> opens m' s tf = opens m s tf)) \<and>
    (\<forall>i < length pairs. (\<exists>j < i. snd (pair_outcome E j (pairs ! j) (backfill_loop E (take j pairs) (m, f))) = Inl DatabaseError) \<or>
       (let b = backfill_loop E (take i pairs) (m, f) in ij_results job ! i =
          result_of (bf_str_exc E) (pairs ! i) (snd (backfill_pair E i (pairs ! i) (bk_market b, bk_features b))))) \<and>
    total_candles job \<le> int (length (md_candles m')) - int (length (md_candles m)) \<and>
    (list_all (\<lambda>r. snd r = None) (ij_results job) \<longrightarrow> total_candles job = int (length (md_candles m')) - int (length (md_candles m)))"
proof -
  let ?b = "backfill_loop E pairs (m, f)"
  have j: "ij_results job = bk_results ?b" "m' = bk_market ?b" "\<not> ij_running job"
    using assms(3,4) by (auto simp: run_backfill_def Let_def finish_job_def new_job_def)
  have total: "total_candles job = inserted_total (bk_results ?b)" by (simp add: total_candles_def inserted_total_def j(1))
  have own: "(\<exists>j < i. snd (pair_outcome E j (pairs ! j) (backfill_loop E (take j pairs) (m, f))) = Inl DatabaseError) \<or>
       (let b = backfill_loop E (take i pairs) (m, f) in ij_results job ! i =
          result_of (bf_str_exc E) (pairs ! i) (snd (backfill_pair E i (pairs ! i) (bk_market b, bk_features b))))"
    if i: "i < length pairs" for i
  proof (cases "bk_aborted (backfill_loop E (take i pairs) (m, f))")
    case True
    then obtain k where "k < i" "snd (pair_outcome E k (take i pairs ! k) (backfill_loop E (take k (take i pairs)) (m, f))) = Inl DatabaseError"
      using i by (auto simp: aborted_iff)
    then show ?thesis by (auto simp: min_def)
  next
    case False
    then show ?thesis using result_nth [OF i, of E "(m, f)"] by (simp add: j(1) pair_outcome_def Let_def)
  qed
  show ?thesis using loop_ok [OF assms(1,2), where f = f] own j unfolding total by auto
qed


text \<open>The exchange fails for the first of two pairs and has nothing for the second.\<close>

definition half_broken :: "rat option backfill_env" where
  "half_broken = \<lparr>bf_pandas = exact_pandas, bf_quantize = exact, bf_feature_version = ''v1'',
     bf_fetch = (\<lambda>i _ _. if i = 0 then Inl BinanceException else Inr []), bf_features_up = (\<lambda>_. True),
     bf_entry = None, bf_commit = None, bf_finished_at = ''later'', bf_str_exc = (\<lambda>_. ''error'')\<rparr>"

theorem backfill_isolates_pairs_witness:
  "\<exists>job m f. run_backfill half_broken [(''BTCUSDT'', ''4h''), (''ETHUSDT'', ''4h'')] (new_job ''now'') (empty_market, []) = (job, m, f) \<and>
     \<not> ij_running job \<and> map result_pair (ij_results job) = [(''BTCUSDT'', ''4h''), (''ETHUSDT'', ''4h'')] \<and> market_ok ''BINANCE'' m"
proof -
  let ?pairs = "[(''BTCUSDT'', ''4h''), (''ETHUSDT'', ''4h'')]"
  obtain job m f where r: "run_backfill half_broken ?pairs (new_job ''now'') (empty_market, []) = (job, m, f)" by (metis surj_pair)
  have srv: "serves s tf (bf_fetch half_broken i)" for s tf i by (simp add: serves_def half_broken_def page_ok_def)
  have entry: "bf_entry half_broken = None" by (simp add: half_broken_def)
  note t = backfill_isolates_pairs [OF empty_market_ok srv entry r]
  show ?thesis
    using r t [THEN conjunct1] t [THEN conjunct2, THEN conjunct1] t [THEN conjunct2, THEN conjunct2, THEN conjunct1]
    by (intro exI [of _ job] exI [of _ m] exI [of _ f]) simp
qed

theorem candles_served_exactly_witness:
  "case candles_endpoint \<lparr>md_candles = two_candles, md_coverage = []\<rparr> ''btcusdt'' ''1h'' 1 of Inl _ \<Rightarrow> False | Inr shown \<Rightarrow> length shown = 1"
proof -
  let ?db = "\<lparr>md_candles = two_candles, md_coverage = []\<rparr>"
  have "\<exists>n. timeframe_seconds ''1h'' = Inr n" by (simp add: timeframe_seconds_def TIMEFRAME_SECONDS_def)
  then obtain shown where s: "candles_endpoint ?db ''btcusdt'' ''1h'' 1 = Inr shown"
    by (auto simp: candles_endpoint_def bounded_query_def)
  have "upper ''btcusdt'' = ''BTCUSDT''" by code_simp
  then have "length (filter (\<lambda>c. cd_symbol c = upper ''btcusdt'' \<and> cd_timeframe c = ''1h'' \<and> cd_is_closed c) two_candles) = 2"
    by (simp add: two_candles_def feature_candle_def)
  with candles_served_exactly [where db = ?db and symbol = "''btcusdt''" and tf = "''1h''" and limit = 1] s show ?thesis by auto
qed

text \<open>
  A database error, on the other hand, costs every later pair: its session is aborted and never rolled back, so
  none of them is even asked of the exchange.
\<close>

lemma outage_ends_the_job:
  assumes "k < i" "i < length pairs" "bf_entry E = None"
    "snd (pair_outcome E k (pairs ! k) (backfill_loop E (take k pairs) mf)) = Inl DatabaseError"
    "run_backfill E pairs (new_job now) mf = (job, mf')"
  shows "ij_results job ! i = (error_result (pairs ! i), Some (bf_str_exc E DatabaseError))"
proof -
  have "bk_aborted (backfill_loop E (take i pairs) mf)"
    using assms(1,2,4) by (auto simp: aborted_iff intro!: exI [of _ k] simp: min_def)
  moreover have "ij_results job = bk_results (backfill_loop E pairs mf)"
    using assms(3,5) by (auto simp: run_backfill_def Let_def finish_job_def new_job_def)
  ultimately show ?thesis using result_nth [OF assms(2), of E mf] by (simp add: pair_outcome_def result_of_def)
qed

section \<open>Features cannot be read back\<close>

text \<open>A row as the engine writes it holds its trend as a text.\<close>

definition engine_row :: "feature_row \<Rightarrow> bool" where
  "engine_row r \<longleftrightarrow> (\<exists>t. (''structure_trend'', JStr (trend_value t)) \<in> set (ft_features r))"

lemma trend_no_float: "float_field (JStr (trend_value t)) = None"
proof -
  have "parse_decimal (trend_value t) = None"
    by (cases t) (simp_all add: parse_decimal_def split_sign_def strip_def is_space_def is_digit_def Let_def)
  then show ?thesis by (simp add: float_field_def)
qed

lemma those_none: "None \<in> set xs \<Longrightarrow> those xs = None"
  by (induction xs) (auto split: option.split)

lemma engine_row_unreadable: "engine_row r \<Longrightarrow> feature_out_of r = Inl ValueError"
proof -
  assume "engine_row r"
  then obtain t where "(''structure_trend'', JStr (trend_value t)) \<in> set (ft_features r)" by (auto simp: engine_row_def)
  then have "None \<in> set (map (\<lambda>(name, v). map_option (Pair name) (float_field v)) (ft_features r))"
    by (force simp: trend_no_float image_iff)
  then show ?thesis by (simp add: feature_out_of_def float_fields_def those_none)
qed

lemma feature_row_is_engine_row:
  assumes "row \<in> set (combined_rows P df)"
  shows "engine_row (feature_row_of P s tf version (t, row))"
proof -
  obtain ind r where "row = map (\<lambda>(name, v). (name, FloatCell v)) ind @ structure_fields r"
    using assms by (auto simp: combined_rows_def in_set_conv_nth)
  then show ?thesis
    by (auto simp: engine_row_def feature_row_of_def structure_fields_def)
qed

text \<open>So once there is a row to show, \<open>GET /market/features\<close> raises.\<close>

lemma features_never_served:
  assumes "list_all engine_row (filter (\<lambda>r. ft_symbol r = upper symbol \<and> ft_timeframe r = tf \<and> ft_feature_version r = version) table)"
    "\<exists>r \<in> set table. ft_symbol r = upper symbol \<and> ft_timeframe r = tf \<and> ft_feature_version r = version" "1 \<le> limit" "limit \<le> 1000"
  shows "features_endpoint table version symbol tf limit = Inl ValueError"
proof -
  let ?asked = "filter (\<lambda>r. ft_symbol r = upper symbol \<and> ft_timeframe r = tf \<and> ft_feature_version r = version) table"
  let ?shown = "newest_first ft_open_time (nat limit) ?asked"
  have "?asked \<noteq> []" using assms(2) by (auto simp: filter_empty_conv)
  then have "length ?shown \<noteq> 0" using assms(3) by (simp add: newest_first_length)
  then obtain r rs where rs: "?shown = r # rs" by (cases ?shown) auto
  then have "r \<in> set ?asked" using newest_first_set [of ft_open_time "nat limit" ?asked] by auto
  then have "feature_out_of r = Inl ValueError" using assms(1) by (intro engine_row_unreadable) (simp add: list_all_iff)
  then show ?thesis using assms(3,4) rs by (simp add: features_endpoint_def bounded_query_def)
qed

section \<open>One job at a time\<close>

record backfill_api =
  ba_tracker :: tracker
  ba_tasks :: "(ingestion_job \<times> (string \<times> string) list) list"
  ba_store :: "market_db \<times> feature_row list"

text \<open>The requests and the background tasks; a task that ends writes the job object it was started with.\<close>

inductive backfill_step :: "settings \<Rightarrow> backfill_api \<Rightarrow> backfill_api \<Rightarrow> bool" for st where
  accepted: "start_backfill st has_binance now symbol tf (ba_tracker a) = Inr (Some job, pairs) \<Longrightarrow>
    backfill_step st a (a\<lparr>ba_tracker := Some job, ba_tasks := ba_tasks a @ [(job, pairs)]\<rparr>)"
| refused: "start_backfill st has_binance now symbol tf (ba_tracker a) = Inl err \<Longrightarrow> backfill_step st a a"
| ended: "ba_tasks a = before @ (job, pairs) # after \<Longrightarrow> run_backfill (E :: rat option backfill_env) pairs job (ba_store a) = (job', store) \<Longrightarrow>
    backfill_step st a (a\<lparr>ba_tracker := (if ba_tracker a = Some job then Some job' else ba_tracker a),
      ba_tasks := before @ after, ba_store := store\<rparr>)"

inductive reachable_backfill :: "settings \<Rightarrow> backfill_api \<Rightarrow> backfill_api \<Rightarrow> bool" for st a0 where
  start: "reachable_backfill st a0 a0"
| step: "reachable_backfill st a0 a \<Longrightarrow> backfill_step st a a' \<Longrightarrow> reachable_backfill st a0 a'"

definition single_job :: "backfill_api \<Rightarrow> bool" where
  "single_job a \<longleftrightarrow> (case ba_tasks a of
     [] \<Rightarrow> (case ba_tracker a of None \<Rightarrow> True | Some j \<Rightarrow> \<not> ij_running j)
   | [(job, _)] \<Rightarrow> ba_tracker a = Some job \<and> ij_running job
   | _ \<Rightarrow> False)"

lemma run_backfill_ends: "run_backfill E pairs job mf = (job', mf') \<Longrightarrow> \<not> ij_running job'"
  by (auto simp: run_backfill_def finish_job_def Let_def split: option.splits)

lemma single_cases:
  assumes "single_job a"
  obtains (idle) "ba_tasks a = []" "\<And>j. ba_tracker a = Some j \<Longrightarrow> \<not> ij_running j"
  | (busy) job pairs where "ba_tasks a = [(job, pairs)]" "ba_tracker a = Some job" "ij_running job"
  using assms by (auto simp: single_job_def split: list.splits option.splits)

lemma single_step: "backfill_step st a a' \<Longrightarrow> single_job a \<Longrightarrow> single_job a'"
proof (induction rule: backfill_step.induct)
  case (accepted has_binance now symbol tf a job pairs)
  from accepted(2) show ?case
    by (cases rule: single_cases) (use accepted(1) in \<open>auto simp: start_backfill_def single_job_def new_job_def split: if_splits option.splits\<close>)
next
  case (ended a before job pairs after E job' store)
  from ended(3) show ?case
  proof (cases rule: single_cases)
    case (busy j p)
    with ended(1) have "before = []" "after = []" "job = j" by (auto simp: Cons_eq_append_conv)
    with busy run_backfill_ends [OF ended(2)] show ?thesis by (simp add: single_job_def)
  qed (use ended(1) in simp)
qed

lemma single_reachable: "reachable_backfill st a0 a \<Longrightarrow> single_job a0 \<Longrightarrow> single_job a"
  by (induction rule: reachable_backfill.induct) (auto intro: single_step)

text \<open>
  No two backfills ever run together. After any interleaving of requests and ending tasks at most one task exists, the status
  reports it as running exactly while it exists, and every request in that time is refused without changing anything.
\<close>

theorem one_backfill_at_a_time:
  assumes "reachable_backfill st \<lparr>ba_tracker = None, ba_tasks = [], ba_store = store\<rparr> a"
  shows "length (ba_tasks a) \<le> 1 \<and>
    (ba_tasks a \<noteq> [] \<longleftrightarrow> (\<exists>job n. backfill_status (ba_tracker a) = Some (job, n) \<and> ij_running job)) \<and>
    (ba_tasks a = [] \<or> start_backfill st True now symbol tf (ba_tracker a) = Inl ValidationError)"
proof -
  have "single_job \<lparr>ba_tracker = None, ba_tasks = [], ba_store = store\<rparr>" by (simp add: single_job_def)
  with single_reachable [OF assms] show ?thesis
    by (cases rule: single_cases [of a]) (auto simp: backfill_status_def start_backfill_def)
qed

theorem one_backfill_at_a_time_witness:
  "\<exists>a. reachable_backfill default_settings \<lparr>ba_tracker = None, ba_tasks = [], ba_store = (empty_market, [])\<rparr> a \<and>
     length (ba_tasks a) = 1 \<and> start_backfill default_settings True ''later'' None None (ba_tracker a) = Inl ValidationError"
proof -
  let ?idle = "\<lparr>ba_tracker = None, ba_tasks = [], ba_store = (empty_market, [])\<rparr>"
  let ?pairs = "selected_pairs (st_trading default_settings) None None"
  let ?busy = "?idle\<lparr>ba_tracker := Some (new_job ''now''), ba_tasks := ba_tasks ?idle @ [(new_job ''now'', ?pairs)]\<rparr>"
  have one: "backfill_step default_settings ?idle ?busy"
    by (rule backfill_step.accepted [of _ True "''now''" None None]) (simp add: start_backfill_def)
  note r = reachable_backfill.step [OF reachable_backfill.start one]
  from one_backfill_at_a_time [OF r, of "''later''" None None] r show ?thesis by (intro exI [of _ ?busy]) simp
qed

end
