(* ===== verification/ApiErrors.thy ===== *)
theory ApiErrors
  imports Json
begin

text \<open>
  Errors of the HTTP API: \<open>core/errors.py\<close>, the middleware and the exception handlers of \<open>api/middleware.py\<close>,
  and the routes of \<open>api/v1/not_implemented.py\<close>. The routing, the CORS middleware and the place where the framework
  answers an exception are Starlette's: the CORS layer is an argument, and so is the predicate that tells which
  exceptions are answered inside the user's middleware; \<open>starlette_order\<close> is what Starlette documents of it.
\<close>

section \<open>Application errors\<close>

datatype app_error_class =
    AppErrorBase
  | ConfigurationError
  | NotFound
  | Invalid
  | ServiceUnavailable
  | RiskLimitExceeded
  | TradingDisabled
  | NotImplementedYet
  | BinanceErr

fun class_code :: "app_error_class \<Rightarrow> string" where
  "class_code AppErrorBase = ''INTERNAL_ERROR''"
| "class_code ConfigurationError = ''CONFIGURATION_ERROR''"
| "class_code NotFound = ''NOT_FOUND''"
| "class_code Invalid = ''VALIDATION_ERROR''"
| "class_code ServiceUnavailable = ''SERVICE_UNAVAILABLE''"
| "class_code RiskLimitExceeded = ''RISK_LIMIT_EXCEEDED''"
| "class_code TradingDisabled = ''TRADING_DISABLED''"
| "class_code NotImplementedYet = ''NOT_IMPLEMENTED''"
| "class_code BinanceErr = ''BINANCE_ERROR''"

fun class_status :: "app_error_class \<Rightarrow> nat" where
  "class_status AppErrorBase = 500"
| "class_status ConfigurationError = 500"
| "class_status NotFound = 404"
| "class_status Invalid = 422"
| "class_status ServiceUnavailable = 503"
| "class_status RiskLimitExceeded = 409"
| "class_status TradingDisabled = 409"
| "class_status NotImplementedYet = 501"
| "class_status BinanceErr = 502"

record app_error =
  ae_message :: string
  ae_code :: string
  ae_status_code :: nat
  ae_metadata :: "payload option"

definition new_app_error ::
  "app_error_class \<Rightarrow> string \<Rightarrow> string option \<Rightarrow> nat option \<Rightarrow> payload option \<Rightarrow> app_error" where
  "new_app_error cls message code status metadata = \<lparr>ae_message = message,
     ae_code = (case code of None \<Rightarrow> class_code cls | Some c \<Rightarrow> c),
     ae_status_code = (case status of None \<Rightarrow> class_status cls | Some s \<Rightarrow> s), ae_metadata = metadata\<rparr>"

text \<open>\<open>ErrorResponse\<close>, as \<open>model_dump\<close> gives it.\<close>

definition envelope :: "string \<Rightarrow> string \<Rightarrow> payload option \<Rightarrow> json" where
  "envelope code message metadata = JObj [(''error'', JObj [(''code'', JStr code), (''message'', JStr message),
     (''metadata'', (case metadata of None \<Rightarrow> JNull | Some m \<Rightarrow> JObj m))])]"

definition to_response :: "app_error \<Rightarrow> json" where
  "to_response e = envelope (ae_code e) (ae_message e) (ae_metadata e)"

section \<open>Handlers\<close>

text \<open>What a handler or the framework raises while a request is answered.\<close>

datatype raised =
    AppRaised app_error
  | RequestInvalid json
  | HttpRaised nat string
  | Unhandled string

record response =
  rs_status :: nat
  rs_headers :: "(string, string) dict"
  rs_body :: json

definition json_response :: "nat \<Rightarrow> json \<Rightarrow> response" where
  "json_response status body = \<lparr>rs_status = status, rs_headers = [(''content-type'', ''application/json'')], rs_body = body\<rparr>"

definition http_codes :: "(nat, string) dict" where
  "http_codes = [(404, ''NOT_FOUND''), (405, ''METHOD_NOT_ALLOWED''), (403, ''FORBIDDEN'')]"

fun handle_exception :: "raised \<Rightarrow> response" where
  "handle_exception (AppRaised e) = json_response (ae_status_code e) (to_response e)"
| "handle_exception (RequestInvalid errors) =
     json_response 422 (envelope ''VALIDATION_ERROR'' ''Request validation failed.'' (Some [(''errors'', errors)]))"
| "handle_exception (HttpRaised status detail) =
     json_response status (envelope (dict_get http_codes status ''HTTP_ERROR'') detail None)"
| "handle_exception (Unhandled text) = json_response 500 (envelope ''INTERNAL_ERROR'' ''An internal error occurred.'' None)"

section \<open>Middleware\<close>

definition HEADERS :: "(string, string) dict" where
  "HEADERS = [(''x-content-type-options'', ''nosniff''), (''x-frame-options'', ''DENY''), (''referrer-policy'', ''no-referrer''),
     (''permissions-policy'', ''geolocation=(), microphone=(), camera=()'')]"

text \<open>Header names are compared in lower case, as they are here.\<close>

definition set_default :: "string \<Rightarrow> string \<Rightarrow> (string, string) dict \<Rightarrow> (string, string) dict" where
  "set_default k v d = (if has_key d k then d else d @ [(k, v)])"

definition security_headers :: "response \<Rightarrow> response" where
  "security_headers r = r\<lparr>rs_headers := foldl (\<lambda>d kv. set_default (fst kv) (snd kv) d) (rs_headers r) HEADERS\<rparr>"

text \<open>An empty header counts as none; \<open>fresh\<close> is the new identifier.\<close>

definition request_id_of :: "string option \<Rightarrow> string \<Rightarrow> string" where
  "request_id_of given fresh = (case given of None \<Rightarrow> fresh | Some s \<Rightarrow> if s = '''' then fresh else s)"

definition request_context :: "string option \<Rightarrow> string \<Rightarrow> response \<Rightarrow> response" where
  "request_context given fresh r = r\<lparr>rs_headers := AList.update ''x-request-id'' (request_id_of given fresh) (rs_headers r)\<rparr>"

text \<open>
  The order in which \<open>create_app\<close> adds the middleware puts the security headers outermost and CORS innermost.
  An exception is answered either within these layers or outside of all of them.
\<close>

definition user_layers :: "(response \<Rightarrow> response) \<Rightarrow> string option \<Rightarrow> string \<Rightarrow> response \<Rightarrow> response" where
  "user_layers cors given fresh r = security_headers (request_context given fresh (cors r))"

definition respond ::
  "(response \<Rightarrow> response) \<Rightarrow> (raised \<Rightarrow> bool) \<Rightarrow> string option \<Rightarrow> string \<Rightarrow> raised + response \<Rightarrow> response" where
  "respond cors inside given fresh outcome =
     (case outcome of
        Inr r \<Rightarrow> user_layers cors given fresh r
      | Inl err \<Rightarrow> if inside err then user_layers cors given fresh (handle_exception err) else handle_exception err)"

text \<open>Starlette: a handler for \<open>Exception\<close> runs in \<open>ServerErrorMiddleware\<close>, the others in \<open>ExceptionMiddleware\<close>.\<close>

definition starlette_order :: "(raised \<Rightarrow> bool) \<Rightarrow> bool" where
  "starlette_order inside \<longleftrightarrow> (\<forall>err. inside err \<longleftrightarrow> (case err of Unhandled _ \<Rightarrow> False | _ \<Rightarrow> True))"

section \<open>Routes that are not built\<close>

definition PENDING_NAMESPACES :: "(string, string \<times> string) dict" where
  "PENDING_NAMESPACES =
     [(''binance'', (''TIER_1'', ''Phase 5: Binance connector'')),
      (''training'', (''TIER_2'', ''Phase 28: model registry and retraining'')),
      (''patterns'', (''TIER_2'', ''Phase 21: pattern engine'')),
      (''news'', (''TIER_2'', ''Phase 25: news/fundamental engine'')),
      (''fundamentals'', (''TIER_2'', ''Phase 25: news/fundamental engine''))]"

definition pending_route :: "string \<Rightarrow> string \<times> string \<Rightarrow> raised + response" where
  "pending_route namespace tp = Inl (AppRaised (new_app_error NotImplementedYet
     (''The '' @ [CHR 0x27] @ namespace @ [CHR 0x27] @ '' API is not implemented yet ('' @ snd tp @ '').'') None None
     (Some [(''namespace'', JStr namespace), (''tier'', JStr (fst tp)), (''planned_phase'', JStr (snd tp))])))"

definition build_router :: "(string, raised + response) dict" where
  "build_router = map (\<lambda>(namespace, tp). (''/'' @ namespace, pending_route namespace tp)) PENDING_NAMESPACES"

section \<open>Lemmas\<close>

lemma set_default_keeps: "map_of d k = Some v \<Longrightarrow> map_of (set_default k' v' d) k = Some v"
  by (simp add: set_default_def)

lemma set_default_sets: "map_of (set_default k v d) k = Some (dict_get d k v)"
  by (auto simp: set_default_def has_key_def dict_get_def map_add_def split: option.split)

lemma foldl_default:
  "map_of d k = Some v \<Longrightarrow> map_of (foldl (\<lambda>d kv. set_default (fst kv) (snd kv) d) d hs) k = Some v"
  by (induction hs arbitrary: d) (simp_all add: set_default_keeps)

lemma foldl_default_all:
  assumes "distinct (keys hs)" "(k, v) \<in> set hs"
  shows "map_of (foldl (\<lambda>d kv. set_default (fst kv) (snd kv) d) d hs) k = Some (dict_get d k v)"
  using assms
proof (induction hs arbitrary: d)
  case (Cons h hs)
  show ?case
  proof (cases "h = (k, v)")
    case True
    then show ?thesis using foldl_default [OF set_default_sets] by simp
  next
    case False
    with Cons.prems have other: "fst h \<noteq> k" "(k, v) \<in> set hs" by (auto simp: image_iff)
    have "dict_get (set_default (fst h) (snd h) d) k v = dict_get d k v"
      using other(1) by (auto simp: dict_get_def set_default_def map_add_def split: option.split)
    with Cons.IH [of "set_default (fst h) (snd h) d"] Cons.prems(1) other(2) show ?thesis by simp
  qed
qed simp

lemma security_header_set: "(k, v) \<in> set HEADERS \<Longrightarrow> map_of (rs_headers (security_headers r)) k = Some (dict_get (rs_headers r) k v)"
proof -
  assume "(k, v) \<in> set HEADERS"
  moreover have "distinct (keys HEADERS)" by (simp add: HEADERS_def)
  ultimately show ?thesis using foldl_default_all by (simp add: security_headers_def)
qed

lemma request_id_kept:
  "map_of (rs_headers (security_headers (request_context given fresh r))) ''x-request-id'' = Some (request_id_of given fresh)"
  by (simp add: security_headers_def request_context_def foldl_default dict_simps)

section \<open>Properties\<close>

text \<open>
  Every error has the one envelope and the right status, and no internal detail leaves the server. Whatever is raised, the
  body is a single error object with code, message and metadata; an application error keeps its own status and code; the answer to
  an unforeseen exception does not depend on the exception; and everything that is answered within the middleware,
  errors included, carries the four security headers and the identifier the client sent, or a new one.
\<close>

theorem errors_have_the_envelope:
  assumes "starlette_order inside"
  shows "(\<exists>code message metadata. rs_body (handle_exception err) = envelope code message metadata) \<and>
    (case err of AppRaised e \<Rightarrow> rs_status (handle_exception err) = ae_status_code e \<and> rs_body (handle_exception err) = to_response e
     | RequestInvalid _ \<Rightarrow> rs_status (handle_exception err) = 422
     | HttpRaised status _ \<Rightarrow> rs_status (handle_exception err) = status
     | Unhandled text \<Rightarrow> (\<forall>cors given fresh. respond cors inside given fresh (Inl err) = handle_exception (Unhandled ''''))) \<and>
    (\<forall>cors given fresh outcome. (\<exists>text. outcome = Inl (Unhandled text)) \<or>
       map_of (rs_headers (respond cors inside given fresh outcome)) ''x-request-id'' = Some (request_id_of given fresh) \<and>
       list_all (\<lambda>kv. has_key (rs_headers (respond cors inside given fresh outcome)) (fst kv)) HEADERS)"
proof -
  have layers: "map_of (rs_headers (user_layers cors given fresh r)) ''x-request-id'' = Some (request_id_of given fresh)"
    "list_all (\<lambda>kv. has_key (rs_headers (user_layers cors given fresh r)) (fst kv)) HEADERS" for cors given fresh r
    unfolding user_layers_def list_all_iff by (auto simp: request_id_kept has_key_def security_header_set)
  have "(\<exists>text. outcome = Inl (Unhandled text)) \<or> (\<exists>r. respond cors inside given fresh outcome = user_layers cors given fresh r)"
    for cors given fresh outcome
    using assms by (cases outcome) (auto simp: respond_def starlette_order_def split: raised.splits)
  then have "\<forall>cors given fresh outcome. (\<exists>text. outcome = Inl (Unhandled text)) \<or>
       map_of (rs_headers (respond cors inside given fresh outcome)) ''x-request-id'' = Some (request_id_of given fresh) \<and>
       list_all (\<lambda>kv. has_key (rs_headers (respond cors inside given fresh outcome)) (fst kv)) HEADERS"
    using layers by metis
  moreover have "\<exists>code message metadata. rs_body (handle_exception err) = envelope code message metadata"
    by (cases err) (auto simp: json_response_def to_response_def)
  moreover have "case err of AppRaised e \<Rightarrow> rs_status (handle_exception err) = ae_status_code e \<and> rs_body (handle_exception err) = to_response e
     | RequestInvalid _ \<Rightarrow> rs_status (handle_exception err) = 422
     | HttpRaised status _ \<Rightarrow> rs_status (handle_exception err) = status
     | Unhandled text \<Rightarrow> (\<forall>cors given fresh. respond cors inside given fresh (Inl err) = handle_exception (Unhandled ''''))"
    using assms by (cases err) (simp_all add: json_response_def respond_def starlette_order_def)
  ultimately show ?thesis by blast
qed

theorem errors_have_the_envelope_witness:
  "map_of (rs_headers (respond id (\<lambda>err. case err of Unhandled _ \<Rightarrow> False | _ \<Rightarrow> True) (Some ''abc'') ''new''
     (pending_route ''news'' (''TIER_2'', ''Phase 25'')))) ''x-request-id'' = Some ''abc'' \<and>
   rs_status (handle_exception (AppRaised (new_app_error RiskLimitExceeded ''Rejected'' None None None))) = 409"
proof -
  let ?inside = "\<lambda>err. case err of Unhandled _ \<Rightarrow> False | _ \<Rightarrow> True"
  have s: "starlette_order ?inside" by (simp add: starlette_order_def)
  note t = errors_have_the_envelope [OF s, of "AppRaised (new_app_error RiskLimitExceeded ''Rejected'' None None None)"]
  have "rs_status (handle_exception (AppRaised (new_app_error RiskLimitExceeded ''Rejected'' None None None))) = 409"
    using t by (simp add: new_app_error_def)
  moreover have "pending_route ''news'' (''TIER_2'', ''Phase 25'') \<noteq> Inl (Unhandled detail)" for detail by (simp add: pending_route_def)
  then have "map_of (rs_headers (respond id ?inside (Some ''abc'') ''new'' (pending_route ''news'' (''TIER_2'', ''Phase 25'')))) ''x-request-id'' =
      Some (request_id_of (Some ''abc'') ''new'')" using t by blast
  ultimately show ?thesis by (simp add: request_id_of_def)
qed

text \<open>
  An unforeseen exception is answered outside the middleware: neither the security headers nor the request
  identifier are on that answer.
\<close>

lemma server_error_bare:
  assumes "starlette_order inside"
  shows "keys (rs_headers (respond cors inside given fresh (Inl (Unhandled text)))) = [''content-type'']"
  using assms by (simp add: respond_def starlette_order_def json_response_def)

text \<open>What is not built answers 501 with its namespace, never data.\<close>

lemma pending_is_501:
  "list_all (\<lambda>(path, outcome). \<exists>e. outcome = Inl (AppRaised e) \<and> ae_status_code e = 501 \<and> ae_code e = ''NOT_IMPLEMENTED'' \<and>
     ae_metadata e \<noteq> None) build_router \<and> distinct (keys build_router)"
  by (simp add: build_router_def PENDING_NAMESPACES_def pending_route_def new_app_error_def)

end
