(* ===== verification/TradingApi.thy ===== *)
theory TradingApi
  imports Account AppState Queries ApiErrors MarketStream ModelRegistry
begin

text \<open>
  The trading namespaces of the API: \<open>api/v1/orders.py\<close>, \<open>positions.py\<close>, \<open>trades.py\<close>, \<open>risk.py\<close>, \<open>settings.py\<close> and the
  reading part of \<open>system.py\<close>, over the account of \<open>Account\<close> and the state of \<open>AppState\<close>. \<open>msg\<close> gives the text of an
  exception and of a reason, \<open>binance_answer\<close> code and status of the exchange's error.
\<close>

section \<open>Exceptions of a handler\<close>

record api_texts =
  tx_exn :: "exn \<Rightarrow> string"
  tx_reason :: "risk_reason \<Rightarrow> string"
  tx_binance :: "string \<times> nat"

definition raised_of :: "api_texts \<Rightarrow> exn \<Rightarrow> raised" where
  "raised_of X err = (case err of
     ValidationError \<Rightarrow> AppRaised (new_app_error Invalid (tx_exn X err) None None None)
   | NotFoundError \<Rightarrow> AppRaised (new_app_error NotFound (tx_exn X err) None None None)
   | ServiceUnavailableError \<Rightarrow> AppRaised (new_app_error ServiceUnavailable (tx_exn X err) None None None)
   | BinanceException \<Rightarrow> AppRaised (new_app_error BinanceErr (tx_exn X err) (Some (fst (tx_binance X))) (Some (snd (tx_binance X))) None)
   | _ \<Rightarrow> Unhandled (tx_exn X err))"

fun rule_value :: "risk_rule \<Rightarrow> string" where
  "rule_value RULE_EMERGENCY_STOP = ''emergency_stop''"
| "rule_value RULE_ENGINE_PAUSED = ''engine_paused''"
| "rule_value RULE_MAX_DAILY_LOSS = ''max_daily_loss''"
| "rule_value RULE_MAX_DRAWDOWN = ''max_drawdown''"
| "rule_value RULE_MAX_CONSECUTIVE_LOSSES = ''max_consecutive_losses''"
| "rule_value RULE_STALE_DATA = ''stale_data_protection''"
| "rule_value RULE_API_FAILURE = ''api_failure_protection''"
| "rule_value RULE_MODEL_HEALTH = ''model_health_protection''"
| "rule_value RULE_SPREAD = ''spread_protection''"
| "rule_value RULE_VOLATILITY = ''volatility_protection''"
| "rule_value RULE_COOLDOWN = ''cooldown_period''"
| "rule_value RULE_MAX_POSITIONS = ''max_simultaneous_positions''"
| "rule_value RULE_ASSET_EXPOSURE = ''max_asset_exposure''"
| "rule_value RULE_PORTFOLIO_EXPOSURE = ''max_portfolio_exposure''"
| "rule_value RULE_POSITION_SIZE = ''position_sizing''"
| "rule_value RULE_SLIPPAGE = ''max_slippage''"
| "rule_value RULE_APPROVED = ''approved''"

fun decision_value :: "risk_decision \<Rightarrow> string" where
  "decision_value APPROVED = ''APPROVED''"
| "decision_value REJECTED = ''REJECTED''"
| "decision_value PAUSED = ''PAUSED''"

section \<open>Orders\<close>

record paper_order_out =
  oo_signal_id :: "int option"
  oo_symbol :: string
  oo_side :: order_side
  oo_order_type :: order_type
  oo_status :: order_status
  oo_quantity :: rat
  oo_price :: rat
  oo_filled_quantity :: rat
  oo_average_fill_price :: rat
  oo_fee :: rat
  oo_submitted_at :: int

definition order_out_of :: "paper_order \<Rightarrow> paper_order_out" where
  "order_out_of o_row = \<lparr>oo_signal_id = po_signal_id o_row, oo_symbol = po_symbol o_row, oo_side = po_side o_row,
     oo_order_type = po_type o_row, oo_status = po_status o_row, oo_quantity = flt (po_quantity o_row),
     oo_price = flt (po_price o_row), oo_filled_quantity = flt (po_filled_quantity o_row),
     oo_average_fill_price = flt (po_average_fill_price o_row), oo_fee = flt (po_fee o_row),
     oo_submitted_at = po_submitted_at o_row\<rparr>"

text \<open>The \<open>limit\<close> of this list has no bounds, unlike those of the others.\<close>

definition list_orders :: "api_texts \<Rightarrow> account_db \<Rightarrow> int \<Rightarrow> raised + paper_order_out list" where
  "list_orders X db limit = (case plain_limit limit of
     Inl err \<Rightarrow> Inl (raised_of X err)
   | Inr n \<Rightarrow> Inr (map order_out_of (newest_first po_submitted_at n (ad_orders db))))"




section \<open>Positions and trades\<close>

record paper_position_out =
  px_symbol :: string
  px_status :: position_status
  px_quantity :: rat
  px_entry_price :: rat
  px_entry_time :: int
  px_exit_price :: "rat option"
  px_exit_time :: "int option"
  px_stop_loss :: "rat option"
  px_take_profit :: "rat option"
  px_trailing_stop :: "rat option"
  px_realised_pnl :: "rat option"
  px_fees_paid :: rat
  px_signal_id :: "int option"
  px_strategy_version :: string

definition position_out_of :: "paper_position \<Rightarrow> paper_position_out" where
  "position_out_of r = \<lparr>px_symbol = pp_symbol r, px_status = pp_status r, px_quantity = flt (pp_quantity r),
     px_entry_price = flt (pp_entry_price r), px_entry_time = pp_entry_time r,
     px_exit_price = map_option flt (pp_exit_price r), px_exit_time = pp_exit_time r,
     px_stop_loss = map_option flt (pp_stop_loss r), px_take_profit = map_option flt (pp_take_profit r),
     px_trailing_stop = map_option flt (pp_trailing_stop r), px_realised_pnl = map_option flt (pp_realised_pnl r),
     px_fees_paid = flt (pp_fees_paid r), px_signal_id = pp_signal_id r, px_strategy_version = pp_strategy_version r\<rparr>"

definition list_positions :: "account_db \<Rightarrow> paper_position_out list" where
  "list_positions db = map position_out_of (newest_first pp_entry_time (length (open_rows db)) (open_rows db))"

definition close_position ::
  "api_texts \<Rightarrow> (nat \<Rightarrow> rat \<Rightarrow> rat) \<Rightarrow> settings \<Rightarrow> exchange option \<Rightarrow> account_db \<Rightarrow> string \<Rightarrow> int
     \<Rightarrow> account_db \<times> (raised + paper_position_out)" where
  "close_position X qz st ex db symbol now =
     (case close_paper_trade qz st ex db (upper symbol) (OtherExit ''MANUAL_EXIT'') None now of
        (db', Inl err) \<Rightarrow> (db', Inl (raised_of X err))
      | (db', Inr row) \<Rightarrow> (db', Inr (position_out_of row)))"

text \<open>The account writes every trade with the venue \<open>PAPER\<close>. An empty symbol is no filter.\<close>

definition given_symbol :: "string option \<Rightarrow> string option" where
  "given_symbol s = (case s of None \<Rightarrow> None | Some t \<Rightarrow> if t = '''' then None else Some (upper t))"

record trade_out =
  tq_venue :: string
  tq_symbol :: string
  tq_position_id :: nat
  tq_signal_id :: "int option"
  tq_quantity :: rat
  tq_entry_price :: rat
  tq_exit_price :: rat
  tq_entry_time :: int
  tq_exit_time :: int
  tq_gross_pnl :: rat
  tq_fees :: rat
  tq_slippage_cost :: rat
  tq_net_pnl :: rat
  tq_return_pct :: rat
  tq_mae :: "rat option"
  tq_mfe :: "rat option"
  tq_exit_reason :: exit_reason

definition trade_out_of :: "trade_row \<Rightarrow> trade_out" where
  "trade_out_of w = (let t = tw_trade w in
     \<lparr>tq_venue = ''PAPER'', tq_symbol = ct_symbol t, tq_position_id = tw_position_id w, tq_signal_id = ct_signal_id t,
      tq_quantity = flt (ct_quantity t), tq_entry_price = flt (ct_entry_price t), tq_exit_price = flt (ct_exit_price t),
      tq_entry_time = ct_entry_time t, tq_exit_time = ct_exit_time t, tq_gross_pnl = flt (ct_gross_pnl t),
      tq_fees = flt (ct_fees t), tq_slippage_cost = flt (ct_slippage_cost t), tq_net_pnl = flt (ct_net_pnl t),
      tq_return_pct = flt (ct_return_pct t), tq_mae = map_option flt (ct_mae t), tq_mfe = map_option flt (ct_mfe t),
      tq_exit_reason = ct_exit_reason t\<rparr>)"

definition list_trades :: "api_texts \<Rightarrow> account_db \<Rightarrow> string \<Rightarrow> string option \<Rightarrow> int \<Rightarrow> raised + trade_out list" where
  "list_trades X db venue symbol limit = (case bounded_query 1 500 limit of
     Inl err \<Rightarrow> Inl (raised_of X err)
   | Inr n \<Rightarrow> Inr (map trade_out_of (newest_first (\<lambda>w. ct_exit_time (tw_trade w)) n (filter (\<lambda>w. upper venue = ''PAPER'' \<and>
       (case given_symbol symbol of None \<Rightarrow> True | Some s \<Rightarrow> ct_symbol (tw_trade w) = s)) (ad_trades db)))))"

section \<open>Risk\<close>

definition risk_out :: "risk_config \<Rightarrow> payload" where
  "risk_out r =
     [(''max_risk_per_trade'', JNum (flt (max_risk_per_trade r))), (''max_position_size'', JNum (flt (max_position_size r))),
      (''max_asset_exposure'', JNum (flt (max_asset_exposure r))), (''max_portfolio_exposure'', JNum (flt (max_portfolio_exposure r))),
      (''max_simultaneous_positions'', JInt (max_simultaneous_positions r)), (''max_daily_loss'', JNum (flt (max_daily_loss r))),
      (''max_drawdown'', JNum (flt (max_drawdown r))), (''max_consecutive_losses'', JInt (max_consecutive_losses r)),
      (''max_slippage'', JNum (flt (max_slippage r))), (''spread_protection'', JNum (flt (spread_protection r))),
      (''volatility_protection'', JNum (flt (volatility_protection r))),
      (''stale_data_protection_seconds'', JInt (stale_data_protection_seconds r)),
      (''api_failure_protection_threshold'', JInt (api_failure_protection_threshold r)),
      (''model_health_protection'', JBool (model_health_protection r)),
      (''cooldown_period_seconds'', JInt (cooldown_period_seconds r))]"

record risk_state_out =
  ro_trading_permitted :: bool
  ro_decision :: string
  ro_rule :: "string option"
  ro_reason :: "string option"
  ro_engine_state :: string

definition risk_state :: "api_texts \<Rightarrow> settings \<Rightarrow> system_setting list \<Rightarrow> raised + risk_state_out" where
  "risk_state X st table =
     (case load_application_state st table of
        Inl err \<Rightarrow> Inl (raised_of X err)
      | Inr s \<Rightarrow>
          (let engine = ap_engine_state s; halt = check_system_health (st_risk st) (default_system\<lparr>sy_engine_state := engine\<rparr>)
           in if halt = None \<and> engine = EngRUNNING
              then Inr \<lparr>ro_trading_permitted = True, ro_decision = decision_value APPROVED, ro_rule = None, ro_reason = None,
                  ro_engine_state = engine_state_value engine\<rparr>
              else Inr \<lparr>ro_trading_permitted = False, ro_decision = decision_value PAUSED,
                  ro_rule = Some (case halt of Some h \<Rightarrow> rule_value (ra_rule h) | None \<Rightarrow> ''engine_paused''),
                  ro_reason = Some (case halt of Some h \<Rightarrow> tx_reason X (ra_reason h) | None \<Rightarrow> ''The trading engine is not running.''),
                  ro_engine_state = engine_state_value engine\<rparr>))"

definition risk_events :: "api_texts \<Rightarrow> account_db \<Rightarrow> string option \<Rightarrow> string option \<Rightarrow> int \<Rightarrow> raised + risk_event list" where
  "risk_events X db symbol decision limit = (case bounded_query 1 500 limit of
     Inl err \<Rightarrow> Inl (raised_of X err)
   | Inr n \<Rightarrow> Inr (newest_first re_timestamp n (filter (\<lambda>e.
       (case given_symbol symbol of None \<Rightarrow> True | Some s \<Rightarrow> re_symbol e = Some s) \<and>
       (case given_symbol decision of None \<Rightarrow> True | Some d \<Rightarrow> decision_value (re_decision e) = d)) (ad_risk_events db))))"

section \<open>Settings and tiers\<close>

definition TIER1_COMPONENTS :: "string list" where
  "TIER1_COMPONENTS = [''market_data'', ''technical_analysis'', ''market_structure'', ''lightgbm'', ''risk_engine'',
     ''paper_trading'', ''backtesting'', ''signal_fusion'']"

definition TIER2_COMPONENTS :: "string list" where
  "TIER2_COMPONENTS = [''patterns'', ''market_regime'', ''transformer'', ''ensemble'', ''news'', ''fundamentals'', ''ollama'', ''claude'']"

definition INFLUENCING_SIGNALS :: "string list" where
  "INFLUENCING_SIGNALS = [''technical_analysis'', ''market_structure'', ''lightgbm'']"

record tier_status_out =
  to_tier1_components :: "string list"
  to_tier2_components :: "string list"
  to_tier2_enabled :: "(string, bool) dict"
  to_influencing_signals :: "string list"

definition tiers_endpoint :: "settings \<Rightarrow> tier_status_out" where
  "tiers_endpoint st = \<lparr>to_tier1_components = TIER1_COMPONENTS, to_tier2_components = TIER2_COMPONENTS,
     to_tier2_enabled = [(''patterns'', False), (''market_regime'', False),
       (''transformer'', mc_transformer_enabled (st_models st)), (''ensemble'', mc_ensemble_enabled (st_models st)),
       (''news'', nc_enabled (st_news st)), (''fundamentals'', nc_enabled (st_news st)),
       (''ollama'', lc_ollama_enabled (st_llm st)), (''claude'', lc_claude_enabled (st_llm st))],
     to_influencing_signals = INFLUENCING_SIGNALS\<rparr>"

fun env_value :: "app_env \<Rightarrow> string" where
  "env_value EnvDEVELOPMENT = ''development''"
| "env_value EnvTESTING = ''testing''"
| "env_value EnvPAPER = ''paper''"
| "env_value EnvPRODUCTION = ''production''"

record trading_settings_out =
  so_assets :: "string list"
  so_timeframes :: "string list"
  so_decision_timeframe :: string
  so_entry_timeframe :: string
  so_mode :: string
  so_live_trading_enabled :: bool
  so_minimum_confidence :: rat
  so_maker_fee :: rat
  so_taker_fee :: rat

record settings_out =
  so_environment :: string
  so_trading :: trading_settings_out
  so_risk :: payload
  so_paper_trading :: paper_trading_config
  so_backtesting :: backtest_config
  so_models :: models_config
  so_binance :: payload
  so_tiers :: tier_status_out

definition trading_out :: "trading_config \<Rightarrow> trading_settings_out" where
  "trading_out t = \<lparr>so_assets = tc_assets t, so_timeframes = map timeframe_value (tc_timeframes t),
     so_decision_timeframe = timeframe_value (tc_decision_timeframe t), so_entry_timeframe = timeframe_value (tc_entry_timeframe t),
     so_mode = trading_mode_value (tc_mode t), so_live_trading_enabled = tc_live_trading_enabled t,
     so_minimum_confidence = tc_minimum_confidence t, so_maker_fee = tc_maker_fee t, so_taker_fee = tc_taker_fee t\<rparr>"

definition read_settings :: "settings \<Rightarrow> settings_out" where
  "read_settings st = \<lparr>so_environment = env_value (st_env st), so_trading = trading_out (st_trading st),
     so_risk = risk_out (st_risk st), so_paper_trading = st_paper_trading st, so_backtesting = st_backtesting st,
     so_models = st_models st,
     so_binance = [(''testnet'', JBool (bn_testnet (st_binance st))),
       (''credentials_configured'', JBool (has_credentials (st_binance st))),
       (''recv_window_ms'', JInt (bn_recv_window_ms (st_binance st)))],
     so_tiers = tiers_endpoint st\<rparr>"

section \<open>System\<close>

record version_out =
  vo_app_name :: string
  vo_environment :: string
  vo_strategy_version :: string
  vo_feature_version :: string
  vo_schema_revision :: "string option"

text \<open>\<open>revision\<close> is what \<open>alembic_revision\<close> returns or raises.\<close>

definition version_endpoint :: "settings \<Rightarrow> exn + string option \<Rightarrow> version_out" where
  "version_endpoint st revision = \<lparr>vo_app_name = st_app_name st, vo_environment = env_value (st_env st),
     vo_strategy_version = mc_strategy_version (st_models st), vo_feature_version = mc_feature_version (st_models st),
     vo_schema_revision = (case revision of Inl _ \<Rightarrow> None | Inr r \<Rightarrow> r)\<rparr>"

record system_state_out =
  yo_mode :: string
  yo_engine_state :: engine_state
  yo_live_armed :: bool
  yo_live_trading_enabled :: bool
  yo_last_shutdown_at :: json
  yo_model_registry_ok :: bool
  yo_model_registry_problems :: "artifact_problem list"

definition state_endpoint ::
  "api_texts \<Rightarrow> settings \<Rightarrow> disk \<Rightarrow> string \<Rightarrow> system_setting list \<Rightarrow> model_version list \<Rightarrow> raised + system_state_out" where
  "state_endpoint X st disk base table models =
     (case load_application_state st table of
        Inl err \<Rightarrow> Inl (raised_of X err)
      | Inr s \<Rightarrow>
          (let integrity = verify_registry_artifacts disk base models in
           Inr \<lparr>yo_mode = trading_mode_value (ap_mode s), yo_engine_state = ap_engine_state s, yo_live_armed = ap_live_armed s,
             yo_live_trading_enabled = ap_live_trading_enabled s, yo_last_shutdown_at = ap_last_shutdown_at s,
             yo_model_registry_ok = report_ok integrity, yo_model_registry_problems = snd integrity\<rparr>))"


section \<open>Lemmas\<close>

text \<open>What a settings object is without its secrets.\<close>

definition without_secrets :: "settings \<Rightarrow> settings" where
  "without_secrets st = st\<lparr>st_binance := (st_binance st)\<lparr>bn_api_key := '''', bn_api_secret := ''''\<rparr>,
     st_database := (st_database st)\<lparr>dc_user := '''', dc_password := ''''\<rparr>,
     st_llm := (st_llm st)\<lparr>lc_claude_api_key := ''''\<rparr>\<rparr>"

lemma same_public:
  assumes "without_secrets st = without_secrets st'"
  shows "st_app_name st = st_app_name st'" "st_env st = st_env st'" "st_trading st = st_trading st'" "st_risk st = st_risk st'"
    "st_paper_trading st = st_paper_trading st'" "st_backtesting st = st_backtesting st'" "st_models st = st_models st'"
    "st_news st = st_news st'" "bn_testnet (st_binance st) = bn_testnet (st_binance st')"
    "bn_recv_window_ms (st_binance st) = bn_recv_window_ms (st_binance st')"
    "lc_ollama_enabled (st_llm st) = lc_ollama_enabled (st_llm st')" "lc_claude_enabled (st_llm st) = lc_claude_enabled (st_llm st')"
  using arg_cong [OF assms, of st_app_name] arg_cong [OF assms, of st_env] arg_cong [OF assms, of st_trading]
    arg_cong [OF assms, of st_risk] arg_cong [OF assms, of st_paper_trading] arg_cong [OF assms, of st_backtesting]
    arg_cong [OF assms, of st_models] arg_cong [OF assms, of st_news] arg_cong [OF assms, of "\<lambda>s. bn_testnet (st_binance s)"]
    arg_cong [OF assms, of "\<lambda>s. bn_recv_window_ms (st_binance s)"] arg_cong [OF assms, of "\<lambda>s. lc_ollama_enabled (st_llm s)"]
    arg_cong [OF assms, of "\<lambda>s. lc_claude_enabled (st_llm s)"]
  by (simp_all add: without_secrets_def)


lemma raised_not_risk: "raised_of X err = AppRaised e \<Longrightarrow> ae_status_code e = 409 \<Longrightarrow> err = BinanceException"
  by (cases err) (auto simp: raised_of_def new_app_error_def)

section \<open>Properties\<close>

text \<open>
  No answer of the API reveals a credential. Two installations that differ only in the exchange keys, the database login and the
  key of the language model answer alike on every settings, tier and version request; all that can be told from
  outside is whether exchange credentials are configured.
\<close>

theorem secrets_never_served:
  assumes "without_secrets st = without_secrets st'" "has_credentials (st_binance st) = has_credentials (st_binance st')"
  shows "read_settings st = read_settings st' \<and> risk_out (st_risk st) = risk_out (st_risk st') \<and>
    tiers_endpoint st = tiers_endpoint st' \<and> version_endpoint st revision = version_endpoint st' revision"
  using same_public [OF assms(1)] assms(2) by (simp add: read_settings_def tiers_endpoint_def version_endpoint_def)

definition keyed_settings :: "string \<Rightarrow> settings" where
  "keyed_settings secret = default_settings\<lparr>st_binance := default_binance_config\<lparr>bn_api_key := ''key'', bn_api_secret := secret\<rparr>\<rparr>"

theorem secrets_never_served_witness:
  "read_settings (keyed_settings ''s3cret'') = read_settings (keyed_settings ''other'') \<and>
   map_of (so_binance (read_settings (keyed_settings ''s3cret''))) ''credentials_configured'' = Some (JBool True)"
proof -
  have w: "without_secrets (keyed_settings ''s3cret'') = without_secrets (keyed_settings ''other'')"
    by (simp add: without_secrets_def keyed_settings_def)
  have c: "has_credentials (st_binance (keyed_settings s)) \<longleftrightarrow> s \<noteq> ''''" for s
    by (simp add: keyed_settings_def has_credentials_def)
  have "has_credentials (st_binance (keyed_settings ''s3cret'')) = has_credentials (st_binance (keyed_settings ''other''))"
    unfolding c by simp
  from secrets_never_served [OF w this]
  have "read_settings (keyed_settings ''s3cret'') = read_settings (keyed_settings ''other'')" by (rule conjunct1)
  then show ?thesis using c [of "''s3cret''"] by (simp add: read_settings_def)
qed




definition plain_texts :: api_texts where
  "plain_texts = \<lparr>tx_exn = (\<lambda>_. ''error''), tx_reason = (\<lambda>_. ''reason''), tx_binance = (''BINANCE_ERROR'', 502)\<rparr>"


text \<open>
  The risk state says whether the engine runs. Over settings with unique keys it always answers; trading is reported as permitted exactly
  when running is the stored engine state, and otherwise the answer is PAUSED with the rule that holds and a reason.
\<close>

theorem risk_state_honest:
  assumes "distinct (map ss_key table)" "valid_risk (st_risk st)"
  shows "\<exists>out. risk_state X st table = Inr out \<and>
    (ro_trading_permitted out \<longleftrightarrow> get_setting table KEY_ENGINE_STATE = Inr (JStr ''RUNNING'')) \<and>
    (if ro_trading_permitted out then ro_decision out = ''APPROVED'' \<and> ro_rule out = None
     else ro_decision out = ''PAUSED'' \<and> ro_reason out \<noteq> None \<and>
       ro_rule out = Some (if get_setting table KEY_ENGINE_STATE = Inr (JStr ''EMERGENCY_STOP'') then ''emergency_stop'' else ''engine_paused''))"
proof -
  obtain s where s: "load_application_state st table = Inr s"
    using setting_total(1) [OF assms(1), of KEY_TRADING_MODE] setting_total(1) [OF assms(1), of KEY_ENGINE_STATE]
      setting_total(1) [OF assms(1), of KEY_LIVE_ARMED] setting_total(1) [OF assms(1), of KEY_LAST_SHUTDOWN]
    by (auto simp: load_application_state_def split_beta)
  then obtain engine where e: "get_setting table KEY_ENGINE_STATE = Inr engine" "ap_engine_state s = restored_engine engine"
    by (rule load_cases) blast
  have stop: "restored_engine engine = EMERGENCY_STOP \<longleftrightarrow> engine = JStr ''EMERGENCY_STOP''"
    by (cases engine) (auto simp: restored_engine_def parse_engine_state_def)
  have "1 \<le> api_failure_protection_threshold (st_risk st)" using assms(2) by (simp add: valid_risk_def)
  then show ?thesis using e stop
    by (cases "restored_engine engine")
      (auto simp: risk_state_def s Let_def check_system_health_def default_system_def paused_def restored_running [symmetric])
qed

theorem risk_state_honest_witness:
  "\<exists>out. risk_state plain_texts default_settings
      [\<lparr>ss_key = KEY_ENGINE_STATE, ss_value = [(''value'', JStr ''EMERGENCY_STOP'')], ss_description = None\<rparr>] = Inr out \<and>
    \<not> ro_trading_permitted out \<and> ro_rule out = Some ''emergency_stop''"
proof -
  let ?table = "[\<lparr>ss_key = KEY_ENGINE_STATE, ss_value = [(''value'', JStr ''EMERGENCY_STOP'')], ss_description = None\<rparr>]"
  have "distinct (map ss_key ?table)" by simp
  moreover have "valid_risk (st_risk default_settings)"
    by (simp add: default_settings_def DEFAULT_RISK_CONFIG_def valid_risk_def fraction_def)
  moreover have "get_setting ?table KEY_ENGINE_STATE = Inr (JStr ''EMERGENCY_STOP'')"
    by (simp add: get_setting_def setting_rows_def dict_get_def)
  ultimately show ?thesis
    using risk_state_honest [of ?table default_settings "plain_texts"]
    by auto
qed

text \<open>A negative limit on the order list is an internal error; on the other lists it is refused.\<close>

lemma negative_limit:
  assumes "limit < 0"
  shows "list_orders X db limit = Inl (Unhandled (tx_exn X DatabaseError))"
    and "list_trades X db venue symbol limit = Inl (raised_of X ValidationError)"
    and "risk_events X db symbol decision limit = Inl (raised_of X ValidationError)"
  using assms by (simp_all add: list_orders_def plain_limit_def raised_of_def list_trades_def risk_events_def bounded_query_def)

text \<open>The lists are complete for a large enough limit: as many positions as are open.\<close>

lemma positions_complete: "mset (map px_symbol (list_positions db)) = mset (map pp_symbol (open_rows db))"
proof -
  have "mset (newest_first pp_entry_time (length (open_rows db)) (open_rows db)) = mset (open_rows db)"
    by (simp add: newest_first_def)
  then have "mset (map pp_symbol (newest_first pp_entry_time (length (open_rows db)) (open_rows db))) = mset (map pp_symbol (open_rows db))"
    by (simp only: mset_map)
  moreover have "map px_symbol (list_positions db) = map pp_symbol (newest_first pp_entry_time (length (open_rows db)) (open_rows db))"
    by (simp add: list_positions_def position_out_of_def)
  ultimately show ?thesis by simp
qed

end
