(* ===== verification/ModelApi.thy ===== *)
theory ModelApi
  imports TradingApi SignalService BacktestService
begin

text \<open>
  The research namespaces of the API: \<open>api/v1/models.py\<close> with the tracker of \<open>ml/training.py\<close>, \<open>api/v1/signals.py\<close> and
  \<open>api/v1/backtests.py\<close>. A training task runs in a session of its own; \<open>training_env\<close> says which of its commits the
  database refuses. \<open>lazy\<close> is what SQLAlchemy does when a relationship that the query did not load is read
  in a handler.
\<close>

section \<open>Registry\<close>

fun status_value :: "model_status \<Rightarrow> string" where
  "status_value CANDIDATE = ''CANDIDATE''"
| "status_value VALIDATED = ''VALIDATED''"
| "status_value PRODUCTION = ''PRODUCTION''"
| "status_value ARCHIVED = ''ARCHIVED''"
| "status_value ModREJECTED = ''REJECTED''"

text \<open>The artifact's path is not part of the answer.\<close>

record model_version_out =
  vs_model_id :: string
  vs_version :: string
  vs_status :: string
  vs_symbol :: "string option"
  vs_timeframe :: "string option"
  vs_feature_version :: string
  vs_artifact_sha256 :: "string option"
  vs_created_at :: int
  vs_notes :: string

definition model_out_of :: "model_version \<Rightarrow> model_version_out" where
  "model_out_of v = \<lparr>vs_model_id = mv_model_id v, vs_version = mv_version v, vs_status = status_value (mv_status v),
     vs_symbol = mv_symbol v, vs_timeframe = mv_timeframe v, vs_feature_version = mv_feature_version v,
     vs_artifact_sha256 = mv_artifact_sha256 v, vs_created_at = mv_created_at v, vs_notes = mv_notes v\<rparr>"

definition list_models :: "model_version list \<Rightarrow> string option \<Rightarrow> string option \<Rightarrow> model_version_out list" where
  "list_models versions symbol status = map model_out_of (newest_first mv_created_at (length versions) (filter (\<lambda>v.
     (case given_symbol symbol of None \<Rightarrow> True | Some s \<Rightarrow> mv_symbol v = Some s) \<and>
     (case given_symbol status of None \<Rightarrow> True | Some s \<Rightarrow> status_value (mv_status v) = s)) versions))"

definition get_model :: "api_texts \<Rightarrow> model_version list \<Rightarrow> string \<Rightarrow> string \<Rightarrow> raised + model_version_out" where
  "get_model X versions mid version = (case find (\<lambda>v. mv_key v = (mid, version)) versions of
     None \<Rightarrow> Inl (raised_of X NotFoundError)
   | Some v \<Rightarrow> Inr (model_out_of v))"

text \<open>Inference: the rows the request leaves behind and its answer, \<open>None\<close> when there was nothing to predict from.\<close>

definition run_prediction ::
  "api_texts \<Rightarrow> (nat \<Rightarrow> rat \<Rightarrow> rat) \<Rightarrow> (string \<Rightarrow> model_files) \<Rightarrow> string \<Rightarrow> model_version list \<Rightarrow> feature_row list \<Rightarrow> prediction list
     \<Rightarrow> string \<Rightarrow> string \<Rightarrow> int \<Rightarrow> prediction list \<times> (raised + prediction option)" where
  "run_prediction X qz artifacts base versions features preds mid version now =
     (case predict_latest qz artifacts base versions features preds mid version now of
        Inl err \<Rightarrow> (preds, Inl (raised_of X err))
      | Inr (preds', p) \<Rightarrow> (preds', Inr p))"

section \<open>Training\<close>

record training_tracker =
  tt_current :: "(string \<times> training_outcome) option"
  tt_running :: bool

definition new_training_tracker :: training_tracker where
  "new_training_tracker = \<lparr>tt_current = None, tt_running = False\<rparr>"

text \<open>A task: its job, the upper-cased symbol and the timeframe.\<close>

type_synonym training_task = "string \<times> string \<times> string"

definition start_training ::
  "string \<Rightarrow> string \<Rightarrow> string \<Rightarrow> training_tracker \<Rightarrow> exn + training_tracker \<times> training_task" where
  "start_training job symbol tf t =
     (if tt_running t then Inl ValidationError else Inr (t\<lparr>tt_running := True\<rparr>, (job, upper symbol, tf)))"

text \<open>
  The commits of a job: its run row, the registry row and the outcome. The environment says which of them the
  database refuses; without the first nothing is kept, without the second the job has failed, and without the third the run row
  still says RUNNING.
\<close>

record training_env =
  tv_start :: "exn option"
  tv_register :: "exn option"
  tv_outcome :: "exn option"

definition registered_outcome :: "training_env \<Rightarrow> training_outcome \<Rightarrow> training_outcome" where
  "registered_outcome E outcome = (case tv_register E of
     None \<Rightarrow> outcome
   | Some err \<Rightarrow> if to_status outcome = SUCCEEDED then failed_outcome (Raised_in_training err) else outcome)"

definition training_session ::
  "training_env \<Rightarrow> 'm learner \<Rightarrow> settings \<Rightarrow> feature_row list \<Rightarrow> candle list \<Rightarrow> model_version list \<Rightarrow> training_run list
     \<Rightarrow> training_task \<Rightarrow> string \<Rightarrow> int \<times> int \<Rightarrow> model_version list \<times> training_run list \<times> (exn + training_outcome)" where
  "training_session E lrn st features candles versions runs task version clock =
     (case task of (job, s, tf) \<Rightarrow>
       (case tv_start E of
          Some err \<Rightarrow> (versions, runs, Inl err)
        | None \<Rightarrow>
            (case run_training_job lrn st features candles versions runs s tf job version clock of
               (versions', runs', made) \<Rightarrow>
                 (let outcome = registered_outcome E made;
                      registry = (if to_status outcome = SUCCEEDED then versions' else versions)
                  in case tv_outcome E of
                       Some err \<Rightarrow> (registry, runs @ [started_run job s tf (fst clock)], Inl err)
                     | None \<Rightarrow> (registry, runs @ [(last runs')\<lparr>tn_status := to_status outcome, tn_outcome := Some outcome\<rparr>], Inr outcome)))))"

definition run_and_track ::
  "training_env \<Rightarrow> 'm learner \<Rightarrow> settings \<Rightarrow> feature_row list \<Rightarrow> candle list \<Rightarrow> training_task \<Rightarrow> string \<Rightarrow> int \<times> int
     \<Rightarrow> model_version list \<times> training_run list \<times> training_tracker \<Rightarrow> model_version list \<times> training_run list \<times> training_tracker" where
  "run_and_track E lrn st features candles task version clock vrt =
     (case vrt of (versions, runs, t) \<Rightarrow>
       (case training_session E lrn st features candles versions runs task version clock of
          (versions', runs', r) \<Rightarrow>
            (versions', runs', t\<lparr>tt_current := Some (fst task,
               (case r of Inl err \<Rightarrow> failed_outcome (Raised_in_training err) | Inr outcome \<Rightarrow> outcome)), tt_running := False\<rparr>)))"

definition training_status :: "training_tracker \<Rightarrow> bool \<times> (string \<times> training_outcome) option" where
  "training_status t = (tt_running t, tt_current t)"

section \<open>Signals\<close>

record signal_component_out =
  sj_kind :: signal_component_kind
  sj_score :: rat
  sj_weight :: rat
  sj_confidence :: rat
  sj_version :: string
  sj_active :: bool
  sj_details :: component_details

record signal_out =
  sg_id :: nat
  sg_symbol :: string
  sg_timeframe :: string
  sg_open_time :: int
  sg_generated_at :: int
  sg_action :: signal_action
  sg_score :: rat
  sg_confidence :: rat
  sg_reason_codes :: "string list"
  sg_strategy_version :: string
  sg_fusion_method :: string
  sg_venue :: execution_venue
  sg_components :: "signal_component_out list"

definition component_out_of :: "component_score \<Rightarrow> signal_component_out" where
  "component_out_of c = \<lparr>sj_kind = cs_kind c, sj_score = flt (cs_score c), sj_weight = flt (cs_weight c),
     sj_confidence = flt (cs_confidence c), sj_version = cs_version c, sj_active = cs_active c, sj_details = cs_details c\<rparr>"

text \<open>The components are loaded with the signal (\<open>lazy="selectin"\<close>).\<close>

definition signal_out_of :: "signal_db \<Rightarrow> signal \<Rightarrow> signal_out" where
  "signal_out_of db s = \<lparr>sg_id = sn_id s, sg_symbol = sn_symbol s, sg_timeframe = sn_timeframe s, sg_open_time = sn_open_time s,
     sg_generated_at = sn_generated_at s, sg_action = sn_action s, sg_score = flt (sn_score s),
     sg_confidence = flt (sn_confidence s), sg_reason_codes = sn_reason_codes s,
     sg_strategy_version = sn_strategy_version s, sg_fusion_method = sn_fusion_method s, sg_venue = sn_venue s,
     sg_components = map (\<lambda>c. component_out_of (snd c)) (filter (\<lambda>c. fst c = sn_id s) (sb_components db))\<rparr>"

definition list_signals :: "api_texts \<Rightarrow> signal_db \<Rightarrow> string option \<Rightarrow> string option \<Rightarrow> int \<Rightarrow> raised + signal_out list" where
  "list_signals X db symbol tf limit = (case bounded_query 1 500 limit of
     Inl err \<Rightarrow> Inl (raised_of X err)
   | Inr n \<Rightarrow> Inr (map (signal_out_of db) (newest_first sn_generated_at n (filter (\<lambda>s.
       (case given_symbol symbol of None \<Rightarrow> True | Some x \<Rightarrow> sn_symbol s = x) \<and>
       (case tf of None \<Rightarrow> True | Some x \<Rightarrow> x = '''' \<or> sn_timeframe s = x)) (sb_signals db)))))"

definition latest_signal :: "signal_db \<Rightarrow> string \<Rightarrow> string \<Rightarrow> signal_out option" where
  "latest_signal db symbol tf =
     (case newest_first sn_generated_at 1 (filter (\<lambda>s. sn_symbol s = upper symbol \<and> sn_timeframe s = tf) (sb_signals db)) of
        [] \<Rightarrow> None
      | s # _ \<Rightarrow> Some (signal_out_of db s))"

definition missing_features :: "api_texts \<Rightarrow> string \<Rightarrow> string \<Rightarrow> app_error" where
  "missing_features X symbol tf = new_app_error NotFound (''No technical features are available yet to anchor a signal to '' @
     ''for '' @ upper symbol @ ''/'' @ tf @ ''.'') None None (Some [(''symbol'', JStr (upper symbol)), (''timeframe'', JStr tf)])"

text \<open>The tables after the request: predictions and signals.\<close>

definition generate_endpoint ::
  "api_texts \<Rightarrow> (nat \<Rightarrow> rat \<Rightarrow> rat) \<Rightarrow> (string \<Rightarrow> model_files) \<Rightarrow> string \<Rightarrow> settings \<Rightarrow> model_version list \<Rightarrow> feature_row list
     \<Rightarrow> prediction list \<times> signal_db \<Rightarrow> string \<Rightarrow> string \<Rightarrow> int \<Rightarrow> (prediction list \<times> signal_db) \<times> (raised + signal_out)" where
  "generate_endpoint X qz artifacts base st versions features tables symbol tf now =
     (case generate_signal qz artifacts base st versions features (fst tables) (snd tables) (upper symbol) tf now of
        Inl err \<Rightarrow> (tables, Inl (raised_of X err))
      | Inr (preds, db, None) \<Rightarrow> ((preds, db), Inl (AppRaised (missing_features X symbol tf)))
      | Inr (preds, db, Some s) \<Rightarrow> ((preds, db), Inr (signal_out_of db s)))"

section \<open>Backtests\<close>

record run_row =
  rr_id :: int
  rr_created_at :: int
  rr_run :: backtest_run

record backtest_run_out =
  bo_id :: int
  bo_created_at :: int
  bo_run :: backtest_run
  bo_trades :: "backtest_trade list"

definition trade_floats :: "backtest_trade \<Rightarrow> backtest_trade" where
  "trade_floats t = t\<lparr>bk_quantity := flt (bk_quantity t), bk_entry_price := flt (bk_entry_price t),
     bk_exit_price := flt (bk_exit_price t), bk_gross_pnl := flt (bk_gross_pnl t), bk_fees := flt (bk_fees t),
     bk_slippage_cost := flt (bk_slippage_cost t), bk_net_pnl := flt (bk_net_pnl t), bk_return_pct := flt (bk_return_pct t),
     bk_mae := map_option flt (bk_mae t), bk_mfe := map_option flt (bk_mfe t)\<rparr>"

text \<open>The answer's own fields are those of the row, its amounts as floats; \<open>trades\<close> is what reading the relationship gave.\<close>

definition run_out_of :: "run_row \<Rightarrow> backtest_trade list \<Rightarrow> backtest_run_out" where
  "run_out_of r trades = (let b = rr_run r in
     \<lparr>bo_id = rr_id r, bo_created_at = rr_created_at r,
      bo_run = b\<lparr>bu_initial_capital := flt (bu_initial_capital b), bu_maker_fee := flt (bu_maker_fee b),
        bu_taker_fee := flt (bu_taker_fee b), bu_slippage_bps := flt (bu_slippage_bps b), bu_trades := []\<rparr>,
      bo_trades = map trade_floats trades\<rparr>)"

record backtest_summary_out =
  su_id :: int
  su_job_id :: string
  su_status :: run_status
  su_symbols :: "string list"
  su_timeframe :: string
  su_range_start :: int
  su_range_end :: int
  su_strategy_version :: string
  su_metrics :: "performance_metrics option"
  su_created_at :: int

definition summary_of :: "run_row \<Rightarrow> backtest_summary_out" where
  "summary_of r = (let b = rr_run r in \<lparr>su_id = rr_id r, su_job_id = bu_job_id b, su_status = bu_status b, su_symbols = bu_symbols b,
     su_timeframe = bu_timeframe b, su_range_start = bu_range_start b, su_range_end = bu_range_end b,
     su_strategy_version = bu_strategy_version b, su_metrics = bu_metrics b, su_created_at = rr_created_at r\<rparr>)"

definition list_backtests :: "run_row list \<Rightarrow> backtest_summary_out list" where
  "list_backtests rows = map summary_of (newest_first rr_created_at 50 rows)"

text \<open>\<open>run_backtest\<close> refreshes the trades of the row it returns; a row that was only selected has them unloaded.
  \<open>key_time\<close> is the id and the creation time the database gives the row.\<close>

definition run_endpoint ::
  "api_texts \<Rightarrow> settings \<Rightarrow> candle list \<Rightarrow> feature_row list \<Rightarrow> exchange_metadata option \<Rightarrow> run_row list \<Rightarrow> int \<times> int
     \<Rightarrow> string \<Rightarrow> string \<Rightarrow> int \<Rightarrow> int \<Rightarrow> string \<Rightarrow> int \<Rightarrow> int \<Rightarrow> run_row list \<times> (raised + backtest_run_out)" where
  "run_endpoint X st candles features service rows key_time symbol tf range_start range_end job started finished =
     (case run_backtest st candles features service (upper symbol) tf range_start range_end job started finished of
        (stored, r) \<Rightarrow>
          (let row = (\<lambda>b. \<lparr>rr_id = fst key_time, rr_created_at = snd key_time, rr_run = b\<rparr>);
               rows' = (case stored of None \<Rightarrow> rows | Some b \<Rightarrow> rows @ [row b])
           in (rows', (case r of Inl err \<Rightarrow> Inl (raised_of X err) | Inr b \<Rightarrow> Inr (run_out_of (row b) (bu_trades b))))))"

definition get_backtest ::
  "api_texts \<Rightarrow> (backtest_trade list \<Rightarrow> exn + backtest_trade list) \<Rightarrow> run_row list \<Rightarrow> int \<Rightarrow> raised + backtest_run_out" where
  "get_backtest X lazy rows i = (case find (\<lambda>r. rr_id r = i) rows of
     None \<Rightarrow> Inl (AppRaised (new_app_error NotFound (''No backtest run with id='' @ show_int i @ ''.'') None None
       (Some [(''run_id'', JInt i)])))
   | Some r \<Rightarrow> (case lazy (bu_trades (rr_run r)) of Inl err \<Rightarrow> Inl (raised_of X err) | Inr trades \<Rightarrow> Inr (run_out_of r trades)))"


section \<open>Lemmas\<close>

text \<open>What a finished task did to the registry and to the runs.\<close>

lemma training_session_adds:
  assumes "training_session E lrn st features candles versions runs task version clock = (versions', runs', r)"
  obtains new more where "versions' = versions @ new" "runs' = runs @ more" "length new \<le> 1" "length more \<le> 1"
    "\<And>v. v \<in> set new \<Longrightarrow> mv_status v \<in> {VALIDATED, CANDIDATE}" "\<And>run. run \<in> set more \<Longrightarrow> tn_job_id run = fst task"
    "\<And>outcome. r = Inr outcome \<Longrightarrow> (to_status outcome = SUCCEEDED \<longleftrightarrow> new \<noteq> [])"
proof -
  obtain job s tf where task: "task = (job, s, tf)" by (rule prod_cases3)
  show thesis
  proof (cases "tv_start E")
    case (Some err)
    with assms show thesis by (intro that [of "[]" "[]"]) (auto simp: training_session_def task)
  next
    case None
    obtain vs rs made where j: "run_training_job lrn st features candles versions runs s tf job version clock = (vs, rs, made)"
      by (rule prod_cases3)
    obtain run new where run: "rs = runs @ [run]" "tn_job_id run = job" "vs = versions @ new" "length new \<le> 1"
      "\<forall>v \<in> set new. mv_status v \<in> {VALIDATED, CANDIDATE}" "to_status made = SUCCEEDED \<longleftrightarrow> new \<noteq> []"
    proof (cases "train_and_register lrn st features candles s tf version (snd clock)")
      case (Inl err)
      with j that [of _ "[]"] show thesis by (auto simp: run_training_job_def failed_outcome_def started_run_def Let_def)
    next
      case (Inr x)
      obtain o1 row where x: "x = (o1, row)" by (cases x)
      have "(case row of None \<Rightarrow> to_status o1 = FAILED | Some v \<Rightarrow> to_status o1 = SUCCEEDED \<and> mv_status v \<in> {VALIDATED, CANDIDATE})"
        using Inr x unfolding train_and_register_def
        by (auto simp: Let_def register_def failed_outcome_def split: sum.splits if_splits)
      with j Inr x that [of _ "case row of None \<Rightarrow> [] | Some v \<Rightarrow> [v]"] show thesis
        by (auto simp: run_training_job_def started_run_def Let_def split: option.splits)
    qed
    let ?o = "registered_outcome E made"
    have "to_status ?o = SUCCEEDED \<Longrightarrow> to_status made = SUCCEEDED"
      by (auto simp: registered_outcome_def failed_outcome_def split: option.splits if_splits)
    with assms run show thesis
      by (intro that [of "if to_status ?o = SUCCEEDED then new else []"
          "case tv_outcome E of None \<Rightarrow> [(last rs)\<lparr>tn_status := to_status ?o, tn_outcome := Some ?o\<rparr>]
             | Some err \<Rightarrow> [started_run job s tf (fst clock)]"])
        (auto simp: training_session_def task None j Let_def started_run_def split: option.splits if_splits)
  qed
qed

lemma newest_alone:
  assumes "x \<in> set rows" "\<And>y. y \<in> set rows \<Longrightarrow> y = x \<or> time y < time x"
  shows "newest_first time 1 rows = [x]"
proof -
  let ?all = "sort_key time rows"
  have ne: "?all \<noteq> []" using assms(1) by (metis set_empty set_sort empty_iff)
  have "time x \<le> time (last ?all)"
  proof -
    obtain i where i: "i < length ?all" "?all ! i = x" using assms(1) by (metis in_set_conv_nth set_sort)
    have "map time ?all ! i \<le> map time ?all ! (length ?all - 1)"
      using i(1) by (intro sorted_nth_mono) auto
    then show ?thesis using i ne by (simp add: last_conv_nth)
  qed
  moreover have "last ?all \<in> set rows" using ne last_in_set by fastforce
  ultimately have "last ?all = x" using assms(2) by force
  moreover have "rev ?all = last ?all # rev (butlast ?all)" using ne by (metis append_butlast_last_id rev_eq_Cons_iff rev_rev_ident)
  ultimately have cut: "rev ?all = x # rev (butlast ?all)" by simp
  show ?thesis unfolding newest_first_def cut by simp
qed

lemma signal_out_kept:
  assumes "filter (\<lambda>c. fst c \<noteq> i) (sb_components db') = filter (\<lambda>c. fst c \<noteq> i) (sb_components db)" "sn_id s \<noteq> i"
  shows "signal_out_of db' s = signal_out_of db s"
proof -
  have own: "filter (\<lambda>c. fst c = sn_id s) cs = filter (\<lambda>c. fst c = sn_id s) (filter (\<lambda>c. fst c \<noteq> i) cs)"
    for cs :: "(nat \<times> component_score) list"
    using assms(2) by (auto intro: filter_cong)
  show ?thesis using own [of "sb_components db'"] own [of "sb_components db"] assms(1) by (simp add: signal_out_of_def)
qed

lemma lightgbm_kind: "lightgbm_component qz artifacts base versions features preds s tf w now = Inr (preds', c) \<Longrightarrow> cs_kind c = LIGHTGBM"
  by (auto simp: lightgbm_component_def inactive_def split: option.splits sum.splits prod.splits)

lemma generated_cases:
  assumes "generate_endpoint X qz artifacts base st versions features (preds, db) symbol tf now = ((preds', db'), Inr shown)"
  obtains technical at_time lightgbm r s where
    "lightgbm_component qz artifacts base versions features preds (upper symbol) tf
       (mc_lightgbm_component_weight (st_models st)) now = Inr (preds', lightgbm)"
    "cs_kind technical = TECHNICAL" "cs_kind lightgbm = LIGHTGBM" "fr_components r = [technical, lightgbm]"
    "persist_signal qz db (upper symbol) tf at_time (mc_strategy_version (st_models st)) r now = (db', Some s)"
    "shown = signal_out_of db' s"
proof -
  let ?mc = "st_models st"
  from assms obtain s where g: "generate_signal qz artifacts base st versions features preds db (upper symbol) tf now = Inr (preds', db', Some s)"
    "shown = signal_out_of db' s"
    by (auto simp: generate_endpoint_def split: sum.splits option.splits)
  obtain technical found where t: "live_technical_component features (upper symbol) tf ?mc = (technical, found)" by fastforce
  with g(1) obtain row where found: "found = Some row" by (cases found) (auto simp: generate_signal_def)
  have k: "cs_kind technical = TECHNICAL"
    using t by (auto simp: live_technical_component_def inactive_def split: option.splits prod.splits)
  from g(1) obtain lightgbm where l: "lightgbm_component qz artifacts base versions features preds (upper symbol) tf
      (mc_lightgbm_component_weight ?mc) now = Inr (preds', lightgbm)"
    "persist_signal qz db (upper symbol) tf (ft_open_time row) (mc_strategy_version ?mc)
       (fuse [technical, lightgbm] (mc_fusion_min_confidence ?mc) (mc_fusion_action_margin ?mc)) now = (db', Some s)"
    by (auto simp: generate_signal_def t found Let_def split: sum.splits prod.splits)
  have c: "fr_components (fuse [technical, lightgbm] a b) = [technical, lightgbm]" for a b by (simp add: fuse_def Let_def)
  show thesis by (rule that [OF l(1) k lightgbm_kind [OF l(1)] c l(2) g(2)])
qed

section \<open>Signals that are served\<close>

text \<open>
  C18: the signal that was just generated is the one that is served. Its answer shows the pair asked for, the instant and both components;
  the latest signal of the pair is then exactly this answer, and that of any other pair is what it was before.
\<close>

theorem generated_is_latest:
  assumes "signal_db_ok db" "\<forall>s \<in> set (sb_signals db). sn_generated_at s < now"
    "generate_endpoint X qz artifacts base st versions features (preds, db) symbol tf now = ((preds', db'), Inr shown)"
  shows "latest_signal db' symbol tf = Some shown \<and> sg_symbol shown = upper symbol \<and> sg_timeframe shown = tf \<and>
    sg_generated_at shown = now \<and> map sj_kind (sg_components shown) = [TECHNICAL, LIGHTGBM] \<and>
    (\<forall>symbol' tf'. (upper symbol', tf') \<noteq> (upper symbol, tf) \<longrightarrow> latest_signal db' symbol' tf' = latest_signal db symbol' tf')"
proof -
  from assms(3) obtain technical at_time lightgbm r s where
    kinds: "cs_kind technical = TECHNICAL" "cs_kind lightgbm = LIGHTGBM" "fr_components r = [technical, lightgbm]" and
    p: "persist_signal qz db (upper symbol) tf at_time (mc_strategy_version (st_models st)) r now = (db', Some s)" and
    shown: "shown = signal_out_of db' s" by (rule generated_cases)
  define k where "k = (upper symbol, tf, at_time, mc_strategy_version (st_models st), VENUE)"
  from assms(1) p obtain row' where "Some s = Some row'" and ok: "signal_db_ok db'" and
    one: "filter (\<lambda>x. sn_key x = k) (sb_signals db') = [row']" and
    rest: "filter (\<lambda>x. sn_key x \<noteq> k) (sb_signals db') = filter (\<lambda>x. sn_key x \<noteq> k) (sb_signals db)" and
    at: "sn_generated_at row' = now" and
    own: "map snd (filter (\<lambda>c. fst c = sn_id row') (sb_components db')) = map (stored_component qz) (fr_components r)" and
    others: "filter (\<lambda>c. fst c \<noteq> sn_id row') (sb_components db') = filter (\<lambda>c. fst c \<noteq> sn_id row') (sb_components db)"
    unfolding k_def by (rule persist_signal_ok) blast
  then have s: "s = row'" by simp
  have "s \<in> set (filter (\<lambda>x. sn_key x = k) (sb_signals db'))" by (simp add: one s)
  then have mem: "s \<in> set (sb_signals db')" "sn_key s = k" by simp_all
  then have pair: "sn_symbol s = upper symbol" "sn_timeframe s = tf" by (simp_all add: sn_key_def k_def)
  have older: "y = s \<or> sn_generated_at y < sn_generated_at s" if "y \<in> set (sb_signals db')" for y
  proof (cases "sn_key y = k")
    case True
    with that have "y \<in> set (filter (\<lambda>x. sn_key x = k) (sb_signals db'))" by simp
    then show ?thesis by (simp add: one s)
  next
    case False
    with that have "y \<in> set (filter (\<lambda>x. sn_key x \<noteq> k) (sb_signals db'))" by simp
    then show ?thesis using assms(2) at by (simp add: rest s)
  qed
  let ?P = "\<lambda>x. sn_symbol x = upper symbol \<and> sn_timeframe x = tf"
  have "newest_first sn_generated_at 1 (filter ?P (sb_signals db')) = [s]"
    using mem(1) pair older by (intro newest_alone) auto
  then have latest: "latest_signal db' symbol tf = Some shown" by (simp add: latest_signal_def shown)
  have kept: "latest_signal db' symbol' tf' = latest_signal db symbol' tf'" if ne: "(upper symbol', tf') \<noteq> (upper symbol, tf)" for symbol' tf'
  proof -
    let ?Q = "\<lambda>x. sn_symbol x = upper symbol' \<and> sn_timeframe x = tf'"
    have sub: "filter ?Q xs = filter ?Q (filter (\<lambda>x. sn_key x \<noteq> k) xs)" for xs
      using ne by (auto simp: sn_key_def k_def intro!: filter_cong)
    have same: "filter ?Q (sb_signals db') = filter ?Q (sb_signals db)"
      using sub [of "sb_signals db'"] sub [of "sb_signals db"] rest by simp
    have "signal_out_of db' y = signal_out_of db y" if "y \<in> set (filter ?Q (sb_signals db))" for y
    proof (rule signal_out_kept [OF others])
      have y: "y \<in> set (sb_signals db')" "?Q y" using that unfolding same [symmetric] by simp_all
      then have "y \<noteq> s" using pair ne by auto
      moreover have "inj_on sn_id (set (sb_signals db'))" using ok by (simp add: signal_db_ok_def distinct_map)
      ultimately show "sn_id y \<noteq> sn_id row'" using y mem(1) by (metis inj_onD s)
    qed
    then show ?thesis
      using newest_first_set [of sn_generated_at 1 "filter ?Q (sb_signals db)"]
      by (auto simp: latest_signal_def same split: list.split)
  qed
  have "map sj_kind (sg_components shown) = map cs_kind (map snd (filter (\<lambda>c. fst c = sn_id row') (sb_components db')))"
    by (simp add: shown signal_out_of_def s component_out_of_def comp_def)
  then have "map sj_kind (sg_components shown) = [TECHNICAL, LIGHTGBM]" by (simp add: own kinds stored_component_def)
  then show ?thesis using latest kept pair at by (auto simp: shown signal_out_of_def s)
qed

theorem generated_is_latest_witness:
  "\<exists>preds db shown. generate_endpoint plain_texts numeric_column (\<lambda>_. rising_model) ''/m'' default_settings [] [rsi_row]
      ([], \<lparr>sb_signals = [], sb_components = [], sb_next_id = 0\<rparr>) ''btcusdt'' ''1h'' 5 = ((preds, db), Inr shown) \<and>
     latest_signal db ''btcusdt'' ''1h'' = Some shown \<and> sg_symbol shown = ''BTCUSDT'' \<and> sg_generated_at shown = 5"
proof -
  let ?db = "\<lparr>sb_signals = [], sb_components = [], sb_next_id = 0\<rparr>"
  have up: "upper ''btcusdt'' = ''BTCUSDT''" by code_simp
  have lf: "latest_feature [rsi_row] ''BTCUSDT'' ''1h'' (mc_feature_version (st_models default_settings)) = Some rsi_row"
    by (simp add: latest_feature_def rsi_row_def default_settings_def default_models_config_def)
  have b: "best_lightgbm_version [] ''BTCUSDT'' ''1h'' = None" by (simp add: best_lightgbm_version_def)
  have ok: "signal_db_ok ?db" by (simp add: signal_db_ok_def)
  have written: "\<exists>db s. persist_signal numeric_column ?db ''BTCUSDT'' ''1h'' t v r 5 = (db, Some s)" for t v r
    using persist_signal_ok [OF ok, of numeric_column "''BTCUSDT''" "''1h''" t v r 5] by (metis prod.collapse)
  obtain sc cf dt where e: "compute_technical_score (ft_features rsi_row) = (sc, cf, dt)" by (rule prod_cases3)
  obtain db s where g: "generate_signal numeric_column (\<lambda>_. rising_model) ''/m'' default_settings [] [rsi_row] [] ?db ''BTCUSDT'' ''1h'' 5 = Inr ([], db, Some s)"
  proof -
    let ?light = "inactive LIGHTGBM (mc_lightgbm_component_weight (st_models default_settings)) ''none'' ''No registered LightGBM model.''"
    let ?tech = "\<lparr>cs_kind = TECHNICAL, cs_score = sc, cs_weight = mc_technical_component_weight (st_models default_settings),
      cs_confidence = cf, cs_version = TECHNICAL_SCORE_VERSION, cs_active = True, cs_details = TechnicalDetails dt\<rparr>"
    let ?r = "fuse [?tech, ?light] (mc_fusion_min_confidence (st_models default_settings)) (mc_fusion_action_margin (st_models default_settings))"
    obtain db s where "persist_signal numeric_column ?db ''BTCUSDT'' ''1h'' (ft_open_time rsi_row) (mc_strategy_version (st_models default_settings)) ?r 5 = (db, Some s)"
      using written by blast
    then show thesis
      by (intro that [of db s]) (simp add: generate_signal_def live_technical_component_def lf e lightgbm_component_def b Let_def)
  qed
  then have "generate_endpoint plain_texts numeric_column (\<lambda>_. rising_model) ''/m'' default_settings [] [rsi_row] ([], ?db) ''btcusdt'' ''1h'' 5 =
      (([], db), Inr (signal_out_of db s))" by (simp add: generate_endpoint_def up)
  with generated_is_latest [OF ok _ this] show ?thesis unfolding up by auto
qed

section \<open>Backtests that are served\<close>

text \<open>
  The query of \<open>get_backtest\<close> does not load the trades, and SQLAlchemy's asyncio session refuses to load them when
  they are read: every stored run is answered with an internal error.
\<close>

lemma stored_runs_never_shown:
  assumes "\<And>trades. lazy trades = Inl RuntimeError" "i \<in> rr_id ` set rows"
  shows "get_backtest X lazy rows i = Inl (Unhandled (tx_exn X RuntimeError))"
proof -
  obtain r where "find (\<lambda>r. rr_id r = i) rows = Some r"
    using assms(2) by (cases "find (\<lambda>r. rr_id r = i) rows") (auto simp: find_None_iff)
  then show ?thesis by (simp add: get_backtest_def assms(1) raised_of_def)
qed

section \<open>The registry under the API\<close>

record research_api =
  ra_tracker :: training_tracker
  ra_tasks :: "training_task list"
  ra_versions :: "model_version list"
  ra_runs :: "training_run list"
  ra_tables :: "prediction list \<times> signal_db"

text \<open>Requests, and tasks that end, in any order and with any data, artifacts and clocks.\<close>

inductive research_step :: "(nat \<Rightarrow> rat \<Rightarrow> rat) \<Rightarrow> 'm learner \<Rightarrow> settings \<Rightarrow> research_api \<Rightarrow> research_api \<Rightarrow> bool" for qz lrn st where
  accepted: "start_training job symbol tf (ra_tracker a) = Inr (t, task) \<Longrightarrow>
    research_step qz lrn st a (a\<lparr>ra_tracker := t, ra_tasks := ra_tasks a @ [task]\<rparr>)"
| refused: "start_training job symbol tf (ra_tracker a) = Inl err \<Longrightarrow> research_step qz lrn st a a"
| ended: "ra_tasks a = before @ task # after \<Longrightarrow>
    run_and_track E lrn st features candles task version clock (ra_versions a, ra_runs a, ra_tracker a) = (versions, runs, t) \<Longrightarrow>
    research_step qz lrn st a (a\<lparr>ra_tracker := t, ra_tasks := before @ after, ra_versions := versions, ra_runs := runs\<rparr>)"
| predicted: "run_prediction X qz artifacts base (ra_versions a) features (fst (ra_tables a)) mid version now = (preds, r) \<Longrightarrow>
    research_step qz lrn st a (a\<lparr>ra_tables := (preds, snd (ra_tables a))\<rparr>)"
| generated: "generate_endpoint X qz artifacts base st (ra_versions a) features (ra_tables a) symbol tf now = (tables, r2) \<Longrightarrow>
    research_step qz lrn st a (a\<lparr>ra_tables := tables\<rparr>)"

inductive research_reachable :: "(nat \<Rightarrow> rat \<Rightarrow> rat) \<Rightarrow> 'm learner \<Rightarrow> settings \<Rightarrow> research_api \<Rightarrow> research_api \<Rightarrow> bool" for qz lrn st a0 where
  start: "research_reachable qz lrn st a0 a0"
| step: "research_reachable qz lrn st a0 a \<Longrightarrow> research_step qz lrn st a a' \<Longrightarrow> research_reachable qz lrn st a0 a'"

definition tasks_counted :: "research_api \<Rightarrow> bool" where
  "tasks_counted a \<longleftrightarrow> length (ra_tasks a) = (if tt_running (ra_tracker a) then 1 else 0)"

definition only_trained :: "model_version list \<Rightarrow> research_api \<Rightarrow> bool" where
  "only_trained versions0 a \<longleftrightarrow> (\<exists>new. ra_versions a = versions0 @ new \<and> list_all (\<lambda>v. mv_status v \<in> {VALIDATED, CANDIDATE}) new)"

definition shadowed :: "research_api \<Rightarrow> bool" where
  "shadowed a \<longleftrightarrow> list_all mp_shadow_mode (fst (ra_tables a))"

lemma upsert_shadow: "mp_shadow_mode p \<Longrightarrow> list_all mp_shadow_mode preds \<Longrightarrow> list_all mp_shadow_mode (upsert_prediction p preds)"
  by (auto simp: upsert_prediction_def upsert_def refresh_prediction_def list_all_iff)

lemma predict_shadow:
  assumes "predict_latest qz artifacts base versions features preds mid version now = Inr (preds', r)" "list_all mp_shadow_mode preds"
  shows "list_all mp_shadow_mode preds'"
  using assms
  by (auto simp: predict_latest_def Let_def upsert_shadow split: option.splits sum.splits list.splits prod.splits)

lemma lightgbm_shadow:
  assumes "lightgbm_component qz artifacts base versions features preds s tf w now = Inr (preds', c)" "list_all mp_shadow_mode preds"
  shows "list_all mp_shadow_mode preds'"
proof (cases "best_lightgbm_version versions s tf")
  case None
  with assms show ?thesis by (simp add: lightgbm_component_def)
next
  case (Some v)
  with assms(1) obtain r where "predict_latest qz artifacts base versions features preds (mv_model_id v) (mv_version v) now = Inr (preds', r)"
    by (auto simp: lightgbm_component_def split: sum.splits option.splits)
  then show ?thesis using assms(2) by (rule predict_shadow)
qed

lemma generate_shadow:
  assumes "generate_signal qz artifacts base st versions features preds db s tf now = Inr (preds', db', r)" "list_all mp_shadow_mode preds"
  shows "list_all mp_shadow_mode preds'"
proof (cases "snd (live_technical_component features s tf (st_models st))")
  case None
  with assms show ?thesis by (auto simp: generate_signal_def Let_def split_beta)
next
  case (Some row)
  with assms(1) obtain c where
    "lightgbm_component qz artifacts base versions features preds s tf (mc_lightgbm_component_weight (st_models st)) now = Inr (preds', c)"
    by (auto simp: generate_signal_def Let_def split: sum.splits prod.splits option.splits)
  then show ?thesis using assms(2) by (rule lightgbm_shadow)
qed

lemma research_keeps:
  assumes "research_step qz lrn st a a'" "tasks_counted a" "only_trained versions0 a" "shadowed a"
  shows "tasks_counted a' \<and> only_trained versions0 a' \<and> shadowed a'"
  using assms
proof (induction rule: research_step.induct)
  case (accepted job symbol tf a t task)
  then show ?case by (auto simp: start_training_def tasks_counted_def only_trained_def shadowed_def split: if_splits)
next
  case (ended a before task after E features candles version clock versions runs t)
  obtain r where s: "training_session E lrn st features candles (ra_versions a) (ra_runs a) task version clock = (versions, runs, r)"
    and t: "\<not> tt_running t"
    using ended(2) by (auto simp: run_and_track_def split: prod.splits)
  obtain new where "versions = ra_versions a @ new" "list_all (\<lambda>v. mv_status v \<in> {VALIDATED, CANDIDATE}) new"
    using s by (rule training_session_adds) (auto simp: list_all_iff)
  moreover have "length (ra_tasks a) = 1" using ended(1,3) by (auto simp: tasks_counted_def split: if_splits)
  ultimately show ?case using ended(1,4,5) t by (auto simp: tasks_counted_def only_trained_def shadowed_def)
next
  case (predicted X artifacts base a features mid version now preds r)
  then have "list_all mp_shadow_mode preds"
    by (auto simp: run_prediction_def shadowed_def intro: predict_shadow split: sum.splits prod.splits)
  with predicted show ?case by (simp add: tasks_counted_def only_trained_def shadowed_def)
next
  case (generated X artifacts base a features symbol tf now tables r2)
  then have "list_all mp_shadow_mode (fst tables)"
    by (auto simp: generate_endpoint_def shadowed_def intro: generate_shadow split: sum.splits prod.splits option.splits)
  with generated show ?case by (simp add: tasks_counted_def only_trained_def shadowed_def)
qed simp

lemma research_invariant:
  "research_reachable qz lrn st a0 a \<Longrightarrow> tasks_counted a0 \<Longrightarrow> only_trained versions0 a0 \<Longrightarrow> shadowed a0 \<Longrightarrow>
     tasks_counted a \<and> only_trained versions0 a \<and> shadowed a"
  by (induction rule: research_reachable.induct) (auto dest: research_keeps)

definition idle_research :: "model_version list \<Rightarrow> research_api" where
  "idle_research versions = \<lparr>ra_tracker = new_training_tracker, ra_tasks = [], ra_versions = versions, ra_runs = [],
     ra_tables = ([], \<lparr>sb_signals = [], sb_components = [], sb_next_id = 0\<rparr>)\<rparr>"

text \<open>
  C19: no request puts a model into production. Whatever is trained, predicted and generated, in whatever order tasks end and
  whichever commits are refused, the registry only grows by VALIDATED and CANDIDATE rows and its PRODUCTION rows are those it
  began with; every stored prediction is in shadow mode; at most one training runs, the status says so exactly
  while it does, and a request in that time is refused.
\<close>

theorem api_never_promotes:
  assumes "research_reachable qz lrn st (idle_research versions0) a"
  shows "(\<exists>new. ra_versions a = versions0 @ new \<and> list_all (\<lambda>v. mv_status v \<in> {VALIDATED, CANDIDATE}) new) \<and>
    filter (\<lambda>v. mv_status v = PRODUCTION) (ra_versions a) = filter (\<lambda>v. mv_status v = PRODUCTION) versions0 \<and>
    list_all mp_shadow_mode (fst (ra_tables a)) \<and> length (ra_tasks a) \<le> 1 \<and>
    (fst (training_status (ra_tracker a)) \<longleftrightarrow> ra_tasks a \<noteq> []) \<and>
    (ra_tasks a = [] \<or> start_training job symbol tf (ra_tracker a) = Inl ValidationError)"
proof -
  have start: "tasks_counted (idle_research versions0)" "only_trained versions0 (idle_research versions0)" "shadowed (idle_research versions0)"
    by (simp_all add: tasks_counted_def only_trained_def shadowed_def idle_research_def new_training_tracker_def)
  note inv = research_invariant [OF assms start]
  then obtain new where new: "ra_versions a = versions0 @ new" "list_all (\<lambda>v. mv_status v \<in> {VALIDATED, CANDIDATE}) new"
    by (auto simp: only_trained_def)
  then have "filter (\<lambda>v. mv_status v = PRODUCTION) new = []" by (auto simp: filter_empty_conv list_all_iff)
  moreover have "length (ra_tasks a) \<le> 1 \<and> (tt_running (ra_tracker a) \<longleftrightarrow> ra_tasks a \<noteq> [])"
    using inv by (auto simp: tasks_counted_def split: if_splits)
  ultimately show ?thesis using new inv by (auto simp: training_status_def start_training_def shadowed_def)
qed

text \<open>A training without data, and the status after it.\<close>

theorem api_never_promotes_witness:
  "\<exists>a. research_reachable numeric_column no_learner default_settings (idle_research [prod_model ''v1'']) a \<and>
     filter (\<lambda>v. mv_status v = PRODUCTION) (ra_versions a) = [prod_model ''v1''] \<and>
     (\<exists>outcome. training_status (ra_tracker a) = (False, Some (''job'', outcome)) \<and> to_status outcome = FAILED) \<and> length (ra_runs a) = 1"
proof -
  let ?a0 = "idle_research [prod_model ''v1'']"
  obtain t task where t: "start_training ''job'' ''btcusdt'' ''1h'' (ra_tracker ?a0) = Inr (t, task)" "fst task = ''job''"
    by (simp add: start_training_def idle_research_def new_training_tracker_def)
  let ?a1 = "?a0\<lparr>ra_tracker := t, ra_tasks := ra_tasks ?a0 @ [task]\<rparr>"
  have one: "research_step numeric_column no_learner default_settings ?a0 ?a1" using t(1) by (rule research_step.accepted)
  let ?E = "\<lparr>tv_start = None, tv_register = Some DatabaseError, tv_outcome = None\<rparr>"
  obtain vs rs t' where e: "run_and_track ?E no_learner default_settings [] [] task ''v2'' (1, 2) (ra_versions ?a1, ra_runs ?a1, ra_tracker ?a1) = (vs, rs, t')"
    by (rule prod_cases3)
  let ?a2 = "?a1\<lparr>ra_tracker := t', ra_tasks := [] @ [], ra_versions := vs, ra_runs := rs\<rparr>"
  have two: "research_step numeric_column no_learner default_settings ?a1 ?a2"
    by (rule research_step.ended [where before = "[]" and after = "[]", OF _ e]) (simp add: idle_research_def)
  have r: "research_reachable numeric_column no_learner default_settings ?a0 ?a2"
    by (intro research_reachable.step [OF research_reachable.step [OF research_reachable.start one] two])
  obtain j s tf where task: "task = (j, s, tf)" by (rule prod_cases3)
  have "build_training_frame [] [] s tf (st_models default_settings) = Inr empty_frame" for s tf
    by (simp add: build_training_frame_def load_features_and_closes_def features_of_def)
  then have "train_and_register no_learner default_settings [] [] s tf ''v2'' 2 = Inr (failed_outcome InsufficientData, None)"
    by (simp add: train_and_register_def empty_frame_def frame_is_empty_def)
  then have "\<exists>outcome. t' = t\<lparr>tt_current := Some (''job'', outcome), tt_running := False\<rparr> \<and> to_status outcome = FAILED \<and> length rs = 1"
    using e t(2) by (auto simp: run_and_track_def training_session_def task run_training_job_def registered_outcome_def
        failed_outcome_def idle_research_def Let_def)
  with r api_never_promotes [OF r] show ?thesis
    by (intro exI [of _ ?a2]) (auto simp: training_status_def prod_model_def)
qed

end
