(* ===== verification/Schema.thy ===== *)
theory Schema
  imports Main
begin

text \<open>
  The database schema: the migration \<open>migrations/versions/0001_initial_schema.py\<close> as the list of its operations, table by table
  in its order, and what PostgreSQL makes of them. Tables, indexes and the indexes behind primary keys and unique
  constraints share one name space; a foreign key needs its table and a unique target; a table that is referred to cannot be
  dropped. Lengths are characters, precisions digits.
\<close>

section \<open>Operations\<close>

datatype column_type = TInteger | TString nat | TText | TBoolean | TNumeric nat nat | TTimestamp | TJsonb

record column =
  cm_name :: string
  cm_type :: column_type
  cm_nullable :: bool
  cm_default_now :: bool

record foreign_key =
  fk_name :: string
  fk_columns :: "string list"
  fk_table :: string
  fk_target :: "string list"
  fk_cascade :: bool

record table_def =
  tb_name :: string
  tb_columns :: "column list"
  tb_primary_key :: "string \<times> string list"
  tb_unique :: "(string \<times> string list) list"
  tb_foreign :: "foreign_key list"

record index_def =
  ix_name :: string
  ix_columns :: "string list"
  ix_unique :: bool
  ix_table :: string

datatype migration_op = CreateTable table_def | CreateIndex index_def | DropTable string

definition required :: "string \<Rightarrow> column_type \<Rightarrow> column" where
  "required name t = \<lparr>cm_name = name, cm_type = t, cm_nullable = False, cm_default_now = False\<rparr>"

definition optional :: "string \<Rightarrow> column_type \<Rightarrow> column" where
  "optional name t = \<lparr>cm_name = name, cm_type = t, cm_nullable = True, cm_default_now = False\<rparr>"

definition stamp :: "string \<Rightarrow> column" where
  "stamp name = \<lparr>cm_name = name, cm_type = TTimestamp, cm_nullable = False, cm_default_now = True\<rparr>"

definition ix :: "string \<Rightarrow> string list \<Rightarrow> bool \<Rightarrow> string \<Rightarrow> index_def" where
  "ix name columns uniq table = \<lparr>ix_name = name, ix_columns = columns, ix_unique = uniq, ix_table = table\<rparr>"

section \<open>What the database does\<close>

record db_schema =
  ds_tables :: "table_def list"
  ds_indexes :: "index_def list"

definition empty_schema :: db_schema where
  "empty_schema = \<lparr>ds_tables = [], ds_indexes = []\<rparr>"

definition column_names :: "table_def \<Rightarrow> string list" where
  "column_names t = map cm_name (tb_columns t)"

definition table_relations :: "table_def \<Rightarrow> string list" where
  "table_relations t = tb_name t # fst (tb_primary_key t) # map fst (tb_unique t)"

definition relation_names :: "db_schema \<Rightarrow> string list" where
  "relation_names s = concat (map table_relations (ds_tables s)) @ map ix_name (ds_indexes s)"

definition find_table :: "db_schema \<Rightarrow> string \<Rightarrow> table_def option" where
  "find_table s name = List.find (\<lambda>t. tb_name t = name) (ds_tables s)"

definition declared_keys :: "table_def \<Rightarrow> string list list" where
  "declared_keys t = snd (tb_primary_key t) # map snd (tb_unique t)"

definition foreign_ok :: "db_schema \<Rightarrow> table_def \<Rightarrow> foreign_key \<Rightarrow> bool" where
  "foreign_ok s t f \<longleftrightarrow> list_all (\<lambda>c. c \<in> set (column_names t)) (fk_columns f) \<and>
     (case find_table s (fk_table f) of None \<Rightarrow> False
      | Some target \<Rightarrow> fk_target f \<in> set (declared_keys target) \<and> length (fk_target f) = length (fk_columns f))"

definition table_ok :: "db_schema \<Rightarrow> table_def \<Rightarrow> bool" where
  "table_ok s t \<longleftrightarrow> distinct (column_names t) \<and> distinct (table_relations t) \<and>
     list_all (\<lambda>n. n \<notin> set (relation_names s)) (table_relations t) \<and>
     list_all (list_all (\<lambda>c. c \<in> set (column_names t))) (declared_keys t) \<and> list_all (foreign_ok s t) (tb_foreign t)"

definition index_ok :: "db_schema \<Rightarrow> index_def \<Rightarrow> bool" where
  "index_ok s i \<longleftrightarrow> ix_name i \<notin> set (relation_names s) \<and>
     (case find_table s (ix_table i) of None \<Rightarrow> False
      | Some t \<Rightarrow> list_all (\<lambda>c. c \<in> set (column_names t)) (ix_columns i))"

definition drop_ok :: "db_schema \<Rightarrow> string \<Rightarrow> bool" where
  "drop_ok s name \<longleftrightarrow> find_table s name \<noteq> None \<and>
     list_all (\<lambda>t. tb_name t = name \<or> list_all (\<lambda>f. fk_table f \<noteq> name) (tb_foreign t)) (ds_tables s)"

text \<open>\<open>None\<close>: the statement is refused.\<close>

fun apply_op :: "migration_op \<Rightarrow> db_schema \<Rightarrow> db_schema option" where
  "apply_op (CreateTable t) s = (if table_ok s t then Some (s\<lparr>ds_tables := ds_tables s @ [t]\<rparr>) else None)"
| "apply_op (CreateIndex i) s = (if index_ok s i then Some (s\<lparr>ds_indexes := ds_indexes s @ [i]\<rparr>) else None)"
| "apply_op (DropTable name) s =
     (if drop_ok s name then Some (s\<lparr>ds_tables := filter (\<lambda>t. tb_name t \<noteq> name) (ds_tables s),
        ds_indexes := filter (\<lambda>i. ix_table i \<noteq> name) (ds_indexes s)\<rparr>) else None)"

fun run_ops :: "migration_op list \<Rightarrow> db_schema \<Rightarrow> db_schema option" where
  "run_ops [] s = Some s"
| "run_ops (x # xs) s = (case apply_op x s of None \<Rightarrow> None | Some s' \<Rightarrow> run_ops xs s')"

section \<open>Tables\<close>

definition assets_table :: table_def where
  "assets_table = \<lparr>tb_name = ''assets'', tb_columns = [
     required ''id'' TInteger, required ''symbol'' (TString 32), required ''base_asset'' (TString 16),
     required ''quote_asset'' (TString 16), required ''enabled'' TBoolean, optional ''status'' (TString 32),
     optional ''filters'' TJsonb, optional ''filters_updated_at'' TTimestamp, stamp ''created_at'',
     stamp ''updated_at''],
     tb_primary_key = (''pk_assets'', [''id'']), tb_unique = [], tb_foreign = []\<rparr>"

definition assets_indexes :: "index_def list" where
  "assets_indexes = map (\<lambda>i. i ''assets'') [
     ix ''ix_assets_symbol'' [''symbol''] True]"

definition audit_logs_table :: table_def where
  "audit_logs_table = \<lparr>tb_name = ''audit_logs'', tb_columns = [
     required ''id'' TInteger, required ''timestamp'' TTimestamp, required ''actor'' (TString 64),
     required ''action'' (TString 64), optional ''symbol'' (TString 32), optional ''timeframe'' (TString 8),
     optional ''signal_id'' TInteger, optional ''trade_id'' TInteger, optional ''strategy_version'' (TString 32),
     optional ''model_version'' (TString 64), required ''payload'' TJsonb],
     tb_primary_key = (''pk_audit_logs'', [''id'']), tb_unique = [], tb_foreign = []\<rparr>"

definition audit_logs_indexes :: "index_def list" where
  "audit_logs_indexes = map (\<lambda>i. i ''audit_logs'') [
     ix ''ix_audit_logs_model_version'' [''model_version''] False,
     ix ''ix_audit_logs_signal_id'' [''signal_id''] False,
     ix ''ix_audit_logs_strategy_version'' [''strategy_version''] False,
     ix ''ix_audit_logs_symbol'' [''symbol''] False, ix ''ix_audit_logs_timestamp'' [''timestamp''] False,
     ix ''ix_audit_logs_trade_id'' [''trade_id''] False]"

definition backtest_runs_table :: table_def where
  "backtest_runs_table = \<lparr>tb_name = ''backtest_runs'', tb_columns = [
     required ''id'' TInteger, required ''job_id'' (TString 64), required ''status'' (TString 16),
     required ''symbols'' TJsonb, required ''timeframe'' (TString 8), required ''range_start'' TTimestamp,
     required ''range_end'' TTimestamp, required ''initial_capital'' (TNumeric 24 10),
     required ''maker_fee'' (TNumeric 10 6), required ''taker_fee'' (TNumeric 10 6),
     required ''slippage_bps'' (TNumeric 10 4), required ''strategy_version'' (TString 32),
     optional ''model_version'' (TString 64), optional ''feature_version'' (TString 32),
     optional ''config'' TJsonb, optional ''metrics'' TJsonb, optional ''assumptions'' TJsonb,
     optional ''artifact_path'' TText, optional ''started_at'' TTimestamp, optional ''finished_at'' TTimestamp,
     optional ''error'' TText, stamp ''created_at'', stamp ''updated_at''],
     tb_primary_key = (''pk_backtest_runs'', [''id'']), tb_unique = [], tb_foreign = []\<rparr>"

definition backtest_runs_indexes :: "index_def list" where
  "backtest_runs_indexes = map (\<lambda>i. i ''backtest_runs'') [
     ix ''ix_backtest_runs_job_id'' [''job_id''] True,
     ix ''ix_backtest_runs_model_version'' [''model_version''] False,
     ix ''ix_backtest_runs_status'' [''status''] False,
     ix ''ix_backtest_runs_strategy_version'' [''strategy_version''] False]"

definition candles_table :: table_def where
  "candles_table = \<lparr>tb_name = ''candles'', tb_columns = [
     required ''id'' TInteger, required ''symbol'' (TString 32), required ''timeframe'' (TString 8),
     required ''open_time'' TTimestamp, required ''close_time'' TTimestamp, required ''open'' (TNumeric 24 10),
     required ''high'' (TNumeric 24 10), required ''low'' (TNumeric 24 10), required ''close'' (TNumeric 24 10),
     required ''volume'' (TNumeric 28 10), optional ''quote_volume'' (TNumeric 28 10),
     optional ''trades'' TInteger, required ''is_closed'' TBoolean, required ''source'' (TString 32)],
     tb_primary_key = (''pk_candles'', [''id'']),
     tb_unique = [(''uq_candles_symbol'', [''symbol'', ''timeframe'', ''open_time''])], tb_foreign = []\<rparr>"

definition exchange_settings_table :: table_def where
  "exchange_settings_table = \<lparr>tb_name = ''exchange_settings'', tb_columns = [
     required ''id'' TInteger, required ''exchange'' (TString 32), required ''testnet'' TBoolean,
     required ''maker_fee'' (TNumeric 10 6), required ''taker_fee'' (TNumeric 10 6),
     optional ''rate_limits'' TJsonb, required ''server_time_offset_ms'' TInteger, stamp ''created_at'',
     stamp ''updated_at''],
     tb_primary_key = (''pk_exchange_settings'', [''id'']),
     tb_unique = [(''uq_exchange_settings_exchange'', [''exchange'', ''testnet''])], tb_foreign = []\<rparr>"

definition execution_events_table :: table_def where
  "execution_events_table = \<lparr>tb_name = ''execution_events'', tb_columns = [
     required ''id'' TInteger, required ''timestamp'' TTimestamp, required ''venue'' (TString 24),
     required ''symbol'' (TString 32), required ''state'' (TString 32), optional ''previous_state'' (TString 32),
     optional ''signal_id'' TInteger, optional ''order_id'' TInteger, optional ''position_id'' TInteger,
     optional ''trade_id'' TInteger, optional ''details'' TJsonb],
     tb_primary_key = (''pk_execution_events'', [''id'']), tb_unique = [], tb_foreign = []\<rparr>"

definition execution_events_indexes :: "index_def list" where
  "execution_events_indexes = map (\<lambda>i. i ''execution_events'') [
     ix ''ix_execution_events_order_id'' [''order_id''] False,
     ix ''ix_execution_events_position_id'' [''position_id''] False,
     ix ''ix_execution_events_signal_id'' [''signal_id''] False,
     ix ''ix_execution_events_symbol'' [''symbol''] False,
     ix ''ix_execution_events_timestamp'' [''timestamp''] False,
     ix ''ix_execution_events_trade_id'' [''trade_id''] False]"

definition live_orders_table :: table_def where
  "live_orders_table = \<lparr>tb_name = ''live_orders'', tb_columns = [
     stamp ''created_at'', stamp ''updated_at'', required ''id'' TInteger,
     required ''client_order_id'' (TString 64), optional ''exchange_order_id'' (TString 64),
     optional ''signal_id'' TInteger, required ''symbol'' (TString 32), required ''side'' (TString 8),
     required ''order_type'' (TString 24), required ''status'' (TString 24),
     required ''quantity'' (TNumeric 28 12), optional ''price'' (TNumeric 24 10),
     required ''filled_quantity'' (TNumeric 28 12), optional ''average_fill_price'' (TNumeric 24 10),
     required ''fee'' (TNumeric 24 10), optional ''fee_asset'' (TString 16),
     optional ''slippage'' (TNumeric 18 10), required ''submitted_at'' TTimestamp,
     optional ''updated_at_exchange'' TTimestamp, optional ''strategy_version'' (TString 32),
     optional ''rejection_reason'' TText],
     tb_primary_key = (''pk_live_orders'', [''id'']),
     tb_unique = [(''uq_live_orders_client_order_id'', [''client_order_id''])], tb_foreign = []\<rparr>"

definition live_orders_indexes :: "index_def list" where
  "live_orders_indexes = map (\<lambda>i. i ''live_orders'') [
     ix ''ix_live_orders_client_order_id'' [''client_order_id''] False,
     ix ''ix_live_orders_exchange_order_id'' [''exchange_order_id''] False,
     ix ''ix_live_orders_signal_id'' [''signal_id''] False, ix ''ix_live_orders_status'' [''status''] False,
     ix ''ix_live_orders_symbol'' [''symbol''] False]"

definition live_positions_table :: table_def where
  "live_positions_table = \<lparr>tb_name = ''live_positions'', tb_columns = [
     stamp ''created_at'', stamp ''updated_at'', required ''id'' TInteger, required ''symbol'' (TString 32),
     required ''status'' (TString 16), required ''quantity'' (TNumeric 28 12),
     required ''entry_price'' (TNumeric 24 10), required ''entry_time'' TTimestamp,
     optional ''exit_price'' (TNumeric 24 10), optional ''exit_time'' TTimestamp,
     optional ''stop_loss'' (TNumeric 24 10), optional ''take_profit'' (TNumeric 24 10),
     optional ''trailing_stop'' (TNumeric 24 10), optional ''unrealised_pnl'' (TNumeric 24 10),
     optional ''realised_pnl'' (TNumeric 24 10), required ''fees_paid'' (TNumeric 24 10),
     optional ''signal_id'' TInteger, optional ''strategy_version'' (TString 32)],
     tb_primary_key = (''pk_live_positions'', [''id'']), tb_unique = [], tb_foreign = []\<rparr>"

definition live_positions_indexes :: "index_def list" where
  "live_positions_indexes = map (\<lambda>i. i ''live_positions'') [
     ix ''ix_live_positions_signal_id'' [''signal_id''] False, ix ''ix_live_positions_status'' [''status''] False,
     ix ''ix_live_positions_symbol'' [''symbol''] False]"

definition macro_events_table :: table_def where
  "macro_events_table = \<lparr>tb_name = ''macro_events'', tb_columns = [
     required ''id'' TInteger, required ''event_type'' (TString 64), required ''scheduled_at'' TTimestamp,
     required ''provider'' (TString 64), required ''title'' TText, optional ''importance'' (TNumeric 6 4),
     optional ''actual'' (TString 64), optional ''forecast'' (TString 64), optional ''previous'' (TString 64),
     optional ''details'' TJsonb, stamp ''created_at'', stamp ''updated_at''],
     tb_primary_key = (''pk_macro_events'', [''id'']), tb_unique = [], tb_foreign = []\<rparr>"

definition macro_events_indexes :: "index_def list" where
  "macro_events_indexes = map (\<lambda>i. i ''macro_events'') [
     ix ''ix_macro_events_event_type'' [''event_type''] False,
     ix ''ix_macro_events_scheduled_at'' [''scheduled_at''] False]"

definition market_data_metadata_table :: table_def where
  "market_data_metadata_table = \<lparr>tb_name = ''market_data_metadata'', tb_columns = [
     required ''id'' TInteger, required ''symbol'' (TString 32), required ''timeframe'' (TString 8),
     required ''source'' (TString 32), optional ''first_candle_open'' TTimestamp,
     optional ''last_candle_open'' TTimestamp, required ''candle_count'' TInteger,
     required ''missing_candles'' TInteger, optional ''last_integrity_check'' TTimestamp,
     optional ''integrity_report'' TJsonb, stamp ''created_at'', stamp ''updated_at''],
     tb_primary_key = (''pk_market_data_metadata'', [''id'']),
     tb_unique = [(''uq_market_data_metadata_symbol'', [''symbol'', ''timeframe'', ''source''])], tb_foreign = []\<rparr>"

definition market_data_metadata_indexes :: "index_def list" where
  "market_data_metadata_indexes = map (\<lambda>i. i ''market_data_metadata'') [
     ix ''ix_market_data_metadata_symbol'' [''symbol''] False]"

definition market_regimes_table :: table_def where
  "market_regimes_table = \<lparr>tb_name = ''market_regimes'', tb_columns = [
     required ''id'' TInteger, required ''symbol'' (TString 32), required ''timeframe'' (TString 8),
     required ''open_time'' TTimestamp, required ''regime'' (TString 32), required ''confidence'' (TNumeric 6 4),
     required ''detector_version'' (TString 32), optional ''details'' TJsonb],
     tb_primary_key = (''pk_market_regimes'', [''id'']),
     tb_unique = [(''uq_market_regimes_symbol'', [''symbol'', ''timeframe'', ''open_time'', ''detector_version''])], tb_foreign = []\<rparr>"

definition market_regimes_indexes :: "index_def list" where
  "market_regimes_indexes = map (\<lambda>i. i ''market_regimes'') [
     ix ''ix_market_regimes_open_time'' [''open_time''] False, ix ''ix_market_regimes_symbol'' [''symbol''] False]"

definition model_metrics_table :: table_def where
  "model_metrics_table = \<lparr>tb_name = ''model_metrics'', tb_columns = [
     required ''id'' TInteger, required ''model_version'' (TString 64), required ''evaluated_at'' TTimestamp,
     optional ''window_start'' TTimestamp, optional ''window_end'' TTimestamp,
     required ''metric_set'' (TString 32), required ''metrics'' TJsonb],
     tb_primary_key = (''pk_model_metrics'', [''id'']), tb_unique = [], tb_foreign = []\<rparr>"

definition model_metrics_indexes :: "index_def list" where
  "model_metrics_indexes = map (\<lambda>i. i ''model_metrics'') [
     ix ''ix_model_metrics_model_version'' [''model_version''] False]"

definition model_predictions_table :: table_def where
  "model_predictions_table = \<lparr>tb_name = ''model_predictions'', tb_columns = [
     required ''id'' TInteger, required ''model_id'' (TString 64), required ''model_version'' (TString 64),
     required ''feature_version'' (TString 32), required ''symbol'' (TString 32),
     required ''timeframe'' (TString 8), required ''open_time'' TTimestamp, required ''predicted_at'' TTimestamp,
     required ''prob_up'' (TNumeric 8 6), required ''prob_neutral'' (TNumeric 8 6),
     required ''prob_down'' (TNumeric 8 6), required ''fusion_score'' (TNumeric 6 4),
     required ''confidence'' (TNumeric 6 4), required ''shadow_mode'' TBoolean,
     optional ''realised_label'' TInteger],
     tb_primary_key = (''pk_model_predictions'', [''id'']),
     tb_unique = [(''uq_model_predictions_model_version'', [''model_version'', ''symbol'', ''timeframe'', ''open_time''])], tb_foreign = []\<rparr>"

definition model_predictions_indexes :: "index_def list" where
  "model_predictions_indexes = map (\<lambda>i. i ''model_predictions'') [
     ix ''ix_model_predictions_model_version'' [''model_version''] False,
     ix ''ix_model_predictions_predicted_at'' [''predicted_at''] False,
     ix ''ix_model_predictions_symbol_time'' [''symbol'', ''predicted_at''] False]"

definition model_versions_table :: table_def where
  "model_versions_table = \<lparr>tb_name = ''model_versions'', tb_columns = [
     required ''id'' TInteger, required ''model_id'' (TString 64), required ''version'' (TString 64),
     required ''model_type'' (TString 32), required ''status'' (TString 16), optional ''symbol'' (TString 32),
     optional ''timeframe'' (TString 8), required ''feature_version'' (TString 32),
     required ''artifact_path'' TText, optional ''artifact_sha256'' (TString 64),
     optional ''preprocessing_path'' TText, optional ''training_data_range'' TJsonb,
     optional ''validation_range'' TJsonb, optional ''test_range'' TJsonb, optional ''hyperparameters'' TJsonb,
     optional ''metrics'' TJsonb, optional ''promoted_at'' TTimestamp, optional ''notes'' TText,
     stamp ''created_at'', stamp ''updated_at''],
     tb_primary_key = (''pk_model_versions'', [''id'']),
     tb_unique = [(''uq_model_versions_model_id'', [''model_id'', ''version''])], tb_foreign = []\<rparr>"

definition model_versions_indexes :: "index_def list" where
  "model_versions_indexes = map (\<lambda>i. i ''model_versions'') [
     ix ''ix_model_versions_model_id'' [''model_id''] False, ix ''ix_model_versions_status'' [''status''] False,
     ix ''ix_model_versions_symbol'' [''symbol''] False]"

definition news_articles_table :: table_def where
  "news_articles_table = \<lparr>tb_name = ''news_articles'', tb_columns = [
     required ''id'' TInteger, required ''external_id'' (TString 255), required ''provider'' (TString 64),
     required ''published_at'' TTimestamp, required ''headline'' TText, optional ''url'' TText,
     optional ''body'' TText, optional ''symbol'' (TString 32), optional ''category'' (TString 64),
     stamp ''created_at'', stamp ''updated_at''],
     tb_primary_key = (''pk_news_articles'', [''id'']),
     tb_unique = [(''uq_news_articles_provider'', [''provider'', ''external_id''])], tb_foreign = []\<rparr>"

definition news_articles_indexes :: "index_def list" where
  "news_articles_indexes = map (\<lambda>i. i ''news_articles'') [
     ix ''ix_news_articles_published_at'' [''published_at''] False,
     ix ''ix_news_articles_symbol'' [''symbol''] False]"

definition paper_orders_table :: table_def where
  "paper_orders_table = \<lparr>tb_name = ''paper_orders'', tb_columns = [
     stamp ''created_at'', stamp ''updated_at'', required ''id'' TInteger,
     required ''client_order_id'' (TString 64), optional ''exchange_order_id'' (TString 64),
     optional ''signal_id'' TInteger, required ''symbol'' (TString 32), required ''side'' (TString 8),
     required ''order_type'' (TString 24), required ''status'' (TString 24),
     required ''quantity'' (TNumeric 28 12), optional ''price'' (TNumeric 24 10),
     required ''filled_quantity'' (TNumeric 28 12), optional ''average_fill_price'' (TNumeric 24 10),
     required ''fee'' (TNumeric 24 10), optional ''fee_asset'' (TString 16),
     optional ''slippage'' (TNumeric 18 10), required ''submitted_at'' TTimestamp,
     optional ''updated_at_exchange'' TTimestamp, optional ''strategy_version'' (TString 32),
     optional ''rejection_reason'' TText],
     tb_primary_key = (''pk_paper_orders'', [''id'']),
     tb_unique = [(''uq_paper_orders_client_order_id'', [''client_order_id''])], tb_foreign = []\<rparr>"

definition paper_orders_indexes :: "index_def list" where
  "paper_orders_indexes = map (\<lambda>i. i ''paper_orders'') [
     ix ''ix_paper_orders_client_order_id'' [''client_order_id''] False,
     ix ''ix_paper_orders_exchange_order_id'' [''exchange_order_id''] False,
     ix ''ix_paper_orders_signal_id'' [''signal_id''] False, ix ''ix_paper_orders_status'' [''status''] False,
     ix ''ix_paper_orders_symbol'' [''symbol''] False]"

definition paper_positions_table :: table_def where
  "paper_positions_table = \<lparr>tb_name = ''paper_positions'', tb_columns = [
     stamp ''created_at'', stamp ''updated_at'', required ''id'' TInteger, required ''symbol'' (TString 32),
     required ''status'' (TString 16), required ''quantity'' (TNumeric 28 12),
     required ''entry_price'' (TNumeric 24 10), required ''entry_time'' TTimestamp,
     optional ''exit_price'' (TNumeric 24 10), optional ''exit_time'' TTimestamp,
     optional ''stop_loss'' (TNumeric 24 10), optional ''take_profit'' (TNumeric 24 10),
     optional ''trailing_stop'' (TNumeric 24 10), optional ''unrealised_pnl'' (TNumeric 24 10),
     optional ''realised_pnl'' (TNumeric 24 10), required ''fees_paid'' (TNumeric 24 10),
     optional ''signal_id'' TInteger, optional ''strategy_version'' (TString 32)],
     tb_primary_key = (''pk_paper_positions'', [''id'']), tb_unique = [], tb_foreign = []\<rparr>"

definition paper_positions_indexes :: "index_def list" where
  "paper_positions_indexes = map (\<lambda>i. i ''paper_positions'') [
     ix ''ix_paper_positions_signal_id'' [''signal_id''] False,
     ix ''ix_paper_positions_status'' [''status''] False, ix ''ix_paper_positions_symbol'' [''symbol''] False]"

definition pattern_statistics_table :: table_def where
  "pattern_statistics_table = \<lparr>tb_name = ''pattern_statistics'', tb_columns = [
     required ''id'' TInteger, required ''pattern_type'' (TString 64), optional ''symbol'' (TString 32),
     required ''timeframe'' (TString 8), required ''detector_version'' (TString 32),
     required ''sample_size'' TInteger, optional ''in_sample_range'' TJsonb,
     optional ''out_of_sample_range'' TJsonb, optional ''win_rate'' (TNumeric 8 5),
     optional ''expected_return'' (TNumeric 18 8), optional ''profit_factor'' (TNumeric 12 5),
     optional ''sharpe'' (TNumeric 12 5), optional ''max_drawdown'' (TNumeric 12 5),
     optional ''mae'' (TNumeric 18 8), optional ''mfe'' (TNumeric 18 8), required ''verdict'' (TString 16),
     optional ''notes'' TText, stamp ''created_at'', stamp ''updated_at''],
     tb_primary_key = (''pk_pattern_statistics'', [''id'']),
     tb_unique = [(''uq_pattern_statistics_pattern_type'', [''pattern_type'', ''symbol'', ''timeframe'', ''detector_version''])], tb_foreign = []\<rparr>"

definition pattern_statistics_indexes :: "index_def list" where
  "pattern_statistics_indexes = map (\<lambda>i. i ''pattern_statistics'') [
     ix ''ix_pattern_statistics_pattern_type'' [''pattern_type''] False,
     ix ''ix_pattern_statistics_symbol'' [''symbol''] False]"

definition patterns_table :: table_def where
  "patterns_table = \<lparr>tb_name = ''patterns'', tb_columns = [
     required ''id'' TInteger, required ''symbol'' (TString 32), required ''timeframe'' (TString 8),
     required ''pattern_type'' (TString 64), required ''detector_version'' (TString 32),
     required ''start_time'' TTimestamp, required ''end_time'' TTimestamp, required ''direction'' (TString 16),
     required ''confidence'' (TNumeric 6 4), optional ''details'' TJsonb,
     optional ''outcome_return'' (TNumeric 18 8), optional ''outcome_evaluated_at'' TTimestamp],
     tb_primary_key = (''pk_patterns'', [''id'']), tb_unique = [], tb_foreign = []\<rparr>"

definition patterns_indexes :: "index_def list" where
  "patterns_indexes = map (\<lambda>i. i ''patterns'') [
     ix ''ix_patterns_end_time'' [''end_time''] False, ix ''ix_patterns_pattern_type'' [''pattern_type''] False,
     ix ''ix_patterns_symbol'' [''symbol''] False,
     ix ''ix_patterns_symbol_type_end'' [''symbol'', ''pattern_type'', ''end_time''] False]"

definition portfolio_snapshots_table :: table_def where
  "portfolio_snapshots_table = \<lparr>tb_name = ''portfolio_snapshots'', tb_columns = [
     required ''id'' TInteger, required ''venue'' (TString 24), required ''timestamp'' TTimestamp,
     required ''quote_balance'' (TNumeric 24 10), required ''positions_value'' (TNumeric 24 10),
     required ''equity'' (TNumeric 24 10), required ''realised_pnl'' (TNumeric 24 10),
     required ''unrealised_pnl'' (TNumeric 24 10), required ''open_positions'' TInteger,
     optional ''details'' TJsonb],
     tb_primary_key = (''pk_portfolio_snapshots'', [''id'']),
     tb_unique = [(''uq_portfolio_snapshots_venue'', [''venue'', ''timestamp''])], tb_foreign = []\<rparr>"

definition portfolio_snapshots_indexes :: "index_def list" where
  "portfolio_snapshots_indexes = map (\<lambda>i. i ''portfolio_snapshots'') [
     ix ''ix_portfolio_snapshots_timestamp'' [''timestamp''] False,
     ix ''ix_portfolio_snapshots_venue'' [''venue''] False]"

definition risk_events_table :: table_def where
  "risk_events_table = \<lparr>tb_name = ''risk_events'', tb_columns = [
     required ''id'' TInteger, required ''timestamp'' TTimestamp, required ''venue'' (TString 24),
     optional ''symbol'' (TString 32), required ''decision'' (TString 16), required ''rule'' (TString 64),
     required ''reason'' TText, optional ''signal_id'' TInteger, optional ''details'' TJsonb],
     tb_primary_key = (''pk_risk_events'', [''id'']), tb_unique = [], tb_foreign = []\<rparr>"

definition risk_events_indexes :: "index_def list" where
  "risk_events_indexes = map (\<lambda>i. i ''risk_events'') [
     ix ''ix_risk_events_decision'' [''decision''] False, ix ''ix_risk_events_signal_id'' [''signal_id''] False,
     ix ''ix_risk_events_symbol'' [''symbol''] False, ix ''ix_risk_events_timestamp'' [''timestamp''] False]"

definition sentiment_scores_table :: table_def where
  "sentiment_scores_table = \<lparr>tb_name = ''sentiment_scores'', tb_columns = [
     required ''id'' TInteger, optional ''article_id'' TInteger, optional ''symbol'' (TString 32),
     required ''computed_at'' TTimestamp, required ''provider'' (TString 64), optional ''model'' (TString 128),
     required ''sentiment'' (TNumeric 6 4), optional ''impact'' (TNumeric 6 4),
     optional ''importance'' (TNumeric 6 4), optional ''confidence'' (TNumeric 6 4),
     optional ''event_type'' (TString 64), optional ''duration_estimate'' (TString 32)],
     tb_primary_key = (''pk_sentiment_scores'', [''id'']), tb_unique = [], tb_foreign = []\<rparr>"

definition sentiment_scores_indexes :: "index_def list" where
  "sentiment_scores_indexes = map (\<lambda>i. i ''sentiment_scores'') [
     ix ''ix_sentiment_scores_article_id'' [''article_id''] False,
     ix ''ix_sentiment_scores_computed_at'' [''computed_at''] False,
     ix ''ix_sentiment_scores_symbol'' [''symbol''] False,
     ix ''ix_sentiment_scores_symbol_time'' [''symbol'', ''computed_at''] False]"

definition signals_table :: table_def where
  "signals_table = \<lparr>tb_name = ''signals'', tb_columns = [
     required ''id'' TInteger, required ''symbol'' (TString 32), required ''timeframe'' (TString 8),
     required ''open_time'' TTimestamp, required ''generated_at'' TTimestamp, required ''action'' (TString 16),
     required ''score'' (TNumeric 6 4), required ''confidence'' (TNumeric 6 4), required ''reason_codes'' TJsonb,
     required ''strategy_version'' (TString 32), required ''fusion_method'' (TString 32),
     optional ''reference_price'' (TNumeric 24 10), optional ''risk_decision'' (TString 16),
     optional ''risk_reason'' TText, required ''venue'' (TString 24), stamp ''created_at'', stamp ''updated_at''],
     tb_primary_key = (''pk_signals'', [''id'']),
     tb_unique = [(''uq_signals_symbol'', [''symbol'', ''timeframe'', ''open_time'', ''strategy_version'', ''venue''])], tb_foreign = []\<rparr>"

definition signals_indexes :: "index_def list" where
  "signals_indexes = map (\<lambda>i. i ''signals'') [
     ix ''ix_signals_action'' [''action''] False, ix ''ix_signals_generated_at'' [''generated_at''] False,
     ix ''ix_signals_risk_decision'' [''risk_decision''] False,
     ix ''ix_signals_strategy_version'' [''strategy_version''] False, ix ''ix_signals_symbol'' [''symbol''] False]"

definition system_events_table :: table_def where
  "system_events_table = \<lparr>tb_name = ''system_events'', tb_columns = [
     required ''id'' TInteger, required ''timestamp'' TTimestamp, required ''level'' (TString 16),
     required ''component'' (TString 64), required ''event_type'' (TString 64), required ''message'' TText,
     optional ''metadata'' TJsonb],
     tb_primary_key = (''pk_system_events'', [''id'']), tb_unique = [], tb_foreign = []\<rparr>"

definition system_events_indexes :: "index_def list" where
  "system_events_indexes = map (\<lambda>i. i ''system_events'') [
     ix ''ix_system_events_component_ts'' [''component'', ''timestamp''] False,
     ix ''ix_system_events_timestamp'' [''timestamp''] False]"

definition system_settings_table :: table_def where
  "system_settings_table = \<lparr>tb_name = ''system_settings'', tb_columns = [
     required ''id'' TInteger, required ''key'' (TString 128), required ''value'' TJsonb,
     optional ''description'' TText, required ''editable'' TBoolean, stamp ''created_at'', stamp ''updated_at''],
     tb_primary_key = (''pk_system_settings'', [''id'']), tb_unique = [], tb_foreign = []\<rparr>"

definition system_settings_indexes :: "index_def list" where
  "system_settings_indexes = map (\<lambda>i. i ''system_settings'') [
     ix ''ix_system_settings_key'' [''key''] True]"

definition technical_features_table :: table_def where
  "technical_features_table = \<lparr>tb_name = ''technical_features'', tb_columns = [
     required ''id'' TInteger, required ''symbol'' (TString 32), required ''timeframe'' (TString 8),
     required ''open_time'' TTimestamp, required ''feature_version'' (TString 32), required ''features'' TJsonb],
     tb_primary_key = (''pk_technical_features'', [''id'']),
     tb_unique = [(''uq_technical_features_symbol'', [''symbol'', ''timeframe'', ''open_time'', ''feature_version''])], tb_foreign = []\<rparr>"

definition technical_features_indexes :: "index_def list" where
  "technical_features_indexes = map (\<lambda>i. i ''technical_features'') [
     ix ''ix_technical_features_feature_version'' [''feature_version''] False]"

definition trades_table :: table_def where
  "trades_table = \<lparr>tb_name = ''trades'', tb_columns = [
     required ''id'' TInteger, required ''venue'' (TString 24), required ''symbol'' (TString 32),
     optional ''position_id'' TInteger, optional ''signal_id'' TInteger, required ''side'' (TString 8),
     required ''quantity'' (TNumeric 28 12), required ''entry_price'' (TNumeric 24 10),
     required ''exit_price'' (TNumeric 24 10), required ''entry_time'' TTimestamp,
     required ''exit_time'' TTimestamp, required ''gross_pnl'' (TNumeric 24 10),
     required ''fees'' (TNumeric 24 10), required ''slippage_cost'' (TNumeric 24 10),
     required ''net_pnl'' (TNumeric 24 10), required ''return_pct'' (TNumeric 18 8),
     optional ''mae'' (TNumeric 18 8), optional ''mfe'' (TNumeric 18 8), optional ''exit_reason'' (TString 32),
     optional ''strategy_version'' (TString 32), optional ''model_version'' (TString 64), stamp ''created_at'',
     stamp ''updated_at''],
     tb_primary_key = (''pk_trades'', [''id'']), tb_unique = [], tb_foreign = []\<rparr>"

definition trades_indexes :: "index_def list" where
  "trades_indexes = map (\<lambda>i. i ''trades'') [
     ix ''ix_trades_exit_time'' [''exit_time''] False, ix ''ix_trades_model_version'' [''model_version''] False,
     ix ''ix_trades_position_id'' [''position_id''] False, ix ''ix_trades_signal_id'' [''signal_id''] False,
     ix ''ix_trades_strategy_version'' [''strategy_version''] False, ix ''ix_trades_symbol'' [''symbol''] False,
     ix ''ix_trades_venue'' [''venue''] False, ix ''ix_trades_venue_exit_time'' [''venue'', ''exit_time''] False]"

definition training_runs_table :: table_def where
  "training_runs_table = \<lparr>tb_name = ''training_runs'', tb_columns = [
     required ''id'' TInteger, required ''job_id'' (TString 64), required ''model_id'' (TString 64),
     required ''model_type'' (TString 32), required ''status'' (TString 16),
     required ''experiment_kind'' (TString 32), optional ''started_at'' TTimestamp,
     optional ''finished_at'' TTimestamp, optional ''data_range'' TJsonb, optional ''parameters'' TJsonb,
     optional ''results'' TJsonb, optional ''resulting_model_version'' (TString 64), optional ''error'' TText,
     stamp ''created_at'', stamp ''updated_at''],
     tb_primary_key = (''pk_training_runs'', [''id'']), tb_unique = [], tb_foreign = []\<rparr>"

definition training_runs_indexes :: "index_def list" where
  "training_runs_indexes = map (\<lambda>i. i ''training_runs'') [
     ix ''ix_training_runs_job_id'' [''job_id''] True, ix ''ix_training_runs_model_id'' [''model_id''] False,
     ix ''ix_training_runs_status'' [''status''] False]"

definition backtest_trades_table :: table_def where
  "backtest_trades_table = \<lparr>tb_name = ''backtest_trades'', tb_columns = [
     required ''id'' TInteger, required ''run_id'' TInteger, required ''symbol'' (TString 32),
     required ''side'' (TString 8), required ''quantity'' (TNumeric 28 12), required ''entry_time'' TTimestamp,
     required ''entry_price'' (TNumeric 24 10), required ''exit_time'' TTimestamp,
     required ''exit_price'' (TNumeric 24 10), required ''gross_pnl'' (TNumeric 24 10),
     required ''fees'' (TNumeric 24 10), required ''slippage_cost'' (TNumeric 24 10),
     required ''net_pnl'' (TNumeric 24 10), required ''return_pct'' (TNumeric 18 8),
     optional ''mae'' (TNumeric 18 8), optional ''mfe'' (TNumeric 18 8), optional ''exit_reason'' (TString 32),
     optional ''signal_snapshot'' TJsonb],
     tb_primary_key = (''pk_backtest_trades'', [''id'']), tb_unique = [],
     tb_foreign = [\<lparr>fk_name = ''fk_backtest_trades_run_id_backtest_runs'', fk_columns = [''run_id''],
       fk_table = ''backtest_runs'', fk_target = [''id''], fk_cascade = True\<rparr>]\<rparr>"

definition backtest_trades_indexes :: "index_def list" where
  "backtest_trades_indexes = map (\<lambda>i. i ''backtest_trades'') [
     ix ''ix_backtest_trades_run_id'' [''run_id''] False,
     ix ''ix_backtest_trades_run_symbol'' [''run_id'', ''symbol''] False]"

definition signal_components_table :: table_def where
  "signal_components_table = \<lparr>tb_name = ''signal_components'', tb_columns = [
     required ''id'' TInteger, required ''signal_id'' TInteger, required ''kind'' (TString 32),
     required ''score'' (TNumeric 6 4), required ''weight'' (TNumeric 6 4),
     optional ''confidence'' (TNumeric 6 4), optional ''version'' (TString 64), required ''active'' TBoolean,
     optional ''details'' TJsonb],
     tb_primary_key = (''pk_signal_components'', [''id'']),
     tb_unique = [(''uq_signal_components_signal_id'', [''signal_id'', ''kind''])],
     tb_foreign = [\<lparr>fk_name = ''fk_signal_components_signal_id_signals'', fk_columns = [''signal_id''],
       fk_table = ''signals'', fk_target = [''id''], fk_cascade = True\<rparr>]\<rparr>"

definition signal_components_indexes :: "index_def list" where
  "signal_components_indexes = map (\<lambda>i. i ''signal_components'') [
     ix ''ix_signal_components_signal_id'' [''signal_id''] False]"

section \<open>The migration\<close>

text \<open>The tables in the order they are created, each with the indexes that follow it.\<close>

definition blocks :: "(table_def \<times> index_def list) list" where
  "blocks = [
     (assets_table, assets_indexes), (audit_logs_table, audit_logs_indexes),
     (backtest_runs_table, backtest_runs_indexes), (candles_table, []), (exchange_settings_table, []),
     (execution_events_table, execution_events_indexes), (live_orders_table, live_orders_indexes),
     (live_positions_table, live_positions_indexes), (macro_events_table, macro_events_indexes),
     (market_data_metadata_table, market_data_metadata_indexes), (market_regimes_table, market_regimes_indexes),
     (model_metrics_table, model_metrics_indexes), (model_predictions_table, model_predictions_indexes),
     (model_versions_table, model_versions_indexes), (news_articles_table, news_articles_indexes),
     (paper_orders_table, paper_orders_indexes), (paper_positions_table, paper_positions_indexes),
     (pattern_statistics_table, pattern_statistics_indexes), (patterns_table, patterns_indexes),
     (portfolio_snapshots_table, portfolio_snapshots_indexes), (risk_events_table, risk_events_indexes),
     (sentiment_scores_table, sentiment_scores_indexes), (signals_table, signals_indexes),
     (system_events_table, system_events_indexes), (system_settings_table, system_settings_indexes),
     (technical_features_table, technical_features_indexes), (trades_table, trades_indexes),
     (training_runs_table, training_runs_indexes), (backtest_trades_table, backtest_trades_indexes),
     (signal_components_table, signal_components_indexes)]"

definition block_ops :: "table_def \<times> index_def list \<Rightarrow> migration_op list" where
  "block_ops b = CreateTable (fst b) # map CreateIndex (snd b)"

definition upgrade :: "migration_op list" where
  "upgrade = concat (map block_ops blocks)"

definition downgrade :: "migration_op list" where
  "downgrade = map DropTable [
     ''signal_components'', ''backtest_trades'', ''training_runs'', ''trades'', ''technical_features'',
     ''system_settings'', ''system_events'', ''signals'', ''sentiment_scores'', ''risk_events'',
     ''portfolio_snapshots'', ''patterns'', ''pattern_statistics'', ''paper_positions'', ''paper_orders'',
     ''news_articles'', ''model_versions'', ''model_predictions'', ''model_metrics'', ''market_regimes'',
     ''market_data_metadata'', ''macro_events'', ''live_positions'', ''live_orders'', ''execution_events'',
     ''exchange_settings'', ''candles'', ''backtest_runs'', ''audit_logs'', ''assets'']"

section \<open>Why it runs\<close>

lemmas tables = assets_table_def audit_logs_table_def backtest_runs_table_def candles_table_def
  exchange_settings_table_def execution_events_table_def live_orders_table_def
  live_positions_table_def macro_events_table_def market_data_metadata_table_def
  market_regimes_table_def model_metrics_table_def model_predictions_table_def
  model_versions_table_def news_articles_table_def paper_orders_table_def
  paper_positions_table_def pattern_statistics_table_def patterns_table_def
  portfolio_snapshots_table_def risk_events_table_def sentiment_scores_table_def
  signals_table_def system_events_table_def system_settings_table_def
  technical_features_table_def trades_table_def training_runs_table_def backtest_trades_table_def
  signal_components_table_def

lemmas indexes = assets_indexes_def audit_logs_indexes_def backtest_runs_indexes_def
  execution_events_indexes_def live_orders_indexes_def live_positions_indexes_def
  macro_events_indexes_def market_data_metadata_indexes_def market_regimes_indexes_def
  model_metrics_indexes_def model_predictions_indexes_def model_versions_indexes_def
  news_articles_indexes_def paper_orders_indexes_def paper_positions_indexes_def
  pattern_statistics_indexes_def patterns_indexes_def portfolio_snapshots_indexes_def
  risk_events_indexes_def sentiment_scores_indexes_def signals_indexes_def
  system_events_indexes_def system_settings_indexes_def technical_features_indexes_def
  trades_indexes_def training_runs_indexes_def backtest_trades_indexes_def
  signal_components_indexes_def

definition block_names :: "table_def \<times> index_def list \<Rightarrow> string list" where
  "block_names b = table_relations (fst b) @ map ix_name (snd b)"

lemmas names_of = block_names_def table_relations_def tables indexes ix_def

text \<open>What the first blocks leave behind.\<close>

definition schema_of :: "(table_def \<times> index_def list) list \<Rightarrow> db_schema" where
  "schema_of bs = \<lparr>ds_tables = map fst bs, ds_indexes = concat (map snd bs)\<rparr>"

definition block_fine :: "table_def \<times> index_def list \<Rightarrow> bool" where
  "block_fine b \<longleftrightarrow> distinct (column_names (fst b)) \<and>
     list_all (list_all (\<lambda>c. c \<in> set (column_names (fst b)))) (declared_keys (fst b)) \<and>
     list_all (\<lambda>i. ix_table i = tb_name (fst b) \<and> list_all (\<lambda>c. c \<in> set (column_names (fst b))) (ix_columns i)) (snd b)"

fun keys_fine :: "(table_def \<times> index_def list) list \<Rightarrow> (table_def \<times> index_def list) list \<Rightarrow> bool" where
  "keys_fine bs [] = True"
| "keys_fine bs (b # later) = (list_all (foreign_ok (schema_of bs) (fst b)) (tb_foreign (fst b)) \<and> keys_fine (bs @ [b]) later)"

lemma run_ops_append: "run_ops (xs @ ys) s = (case run_ops xs s of None \<Rightarrow> None | Some s' \<Rightarrow> run_ops ys s')"
  by (induction xs arbitrary: s) (auto split: option.splits)

lemma names_of_schema: "set (relation_names (schema_of bs)) = set (concat (map block_names bs))"
  by (auto simp: relation_names_def schema_of_def block_names_def)

lemma find_table_last: "tb_name t \<notin> tb_name ` set ts \<Longrightarrow> List.find (\<lambda>u. tb_name u = tb_name t) (ts @ [t]) = Some t"
  by (induction ts) auto

lemma run_indexes:
  assumes "find_table s (tb_name t) = Some t"
    and "list_all (\<lambda>i. ix_table i = tb_name t \<and> list_all (\<lambda>c. c \<in> set (column_names t)) (ix_columns i)) xs"
    and "distinct (map ix_name xs)" and "\<forall>i\<in>set xs. ix_name i \<notin> set (relation_names s)"
  shows "run_ops (map CreateIndex xs) s = Some (s\<lparr>ds_indexes := ds_indexes s @ xs\<rparr>)"
  using assms
proof (induction xs arbitrary: s)
  case (Cons i xs)
  let ?s = "s\<lparr>ds_indexes := ds_indexes s @ [i]\<rparr>"
  have ok: "index_ok s i" using Cons.prems by (simp add: index_ok_def)
  have found: "find_table ?s (tb_name t) = Some t" using Cons.prems(1) by (simp add: find_table_def)
  have fresh: "\<forall>j\<in>set xs. ix_name j \<notin> set (relation_names ?s)"
    using Cons.prems(3,4) by (simp add: relation_names_def) (metis imageI)
  have "run_ops (map CreateIndex xs) ?s = Some (?s\<lparr>ds_indexes := ds_indexes ?s @ xs\<rparr>)"
    using Cons.prems(2,3) by (intro Cons.IH found fresh) auto
  then show ?case using ok by simp
qed simp

lemma run_block:
  assumes new: "distinct (concat (map block_names (bs @ [b])))" and fine: "block_fine b"
    and keys: "list_all (foreign_ok (schema_of bs) (fst b)) (tb_foreign (fst b))"
  shows "run_ops (block_ops b) (schema_of bs) = Some (schema_of (bs @ [b]))"
proof -
  obtain t xs where b: "b = (t, xs)" by fastforce
  let ?s = "schema_of bs\<lparr>ds_tables := ds_tables (schema_of bs) @ [t]\<rparr>"
  have fresh: "n \<notin> set (relation_names (schema_of bs))" if "n \<in> set (block_names b)" for n
    using new that unfolding names_of_schema by auto
  have own: "distinct (table_relations t @ map ix_name xs)" using new by (simp add: b block_names_def)
  have "table_ok (schema_of bs) t"
    using fine keys own fresh by (simp add: table_ok_def block_fine_def b block_names_def list_all_iff)
  then have made: "apply_op (CreateTable t) (schema_of bs) = Some ?s" by simp
  have "tb_name t \<notin> tb_name ` set (map fst bs)"
    using fresh [of "tb_name t"] by (auto simp: b block_names_def table_relations_def relation_names_def schema_of_def)
  then have found: "find_table ?s (tb_name t) = Some t"
    using find_table_last [of t "map fst bs"] by (simp add: find_table_def schema_of_def)
  have "\<forall>i\<in>set xs. ix_name i \<notin> set (relation_names ?s)"
    using own fresh by (auto simp: relation_names_def b block_names_def)
  with fine own have "run_ops (map CreateIndex xs) ?s = Some (?s\<lparr>ds_indexes := ds_indexes ?s @ xs\<rparr>)"
    by (intro run_indexes [where t = t] found) (auto simp: block_fine_def b)
  then show ?thesis using made by (simp add: b block_ops_def) (simp add: schema_of_def)
qed

lemma run_blocks:
  assumes "distinct (concat (map block_names (bs @ later)))" "list_all block_fine later" "keys_fine bs later"
  shows "run_ops (concat (map block_ops later)) (schema_of bs) = Some (schema_of (bs @ later))"
  using assms
proof (induction later arbitrary: bs)
  case (Cons b later)
  have "run_ops (block_ops b) (schema_of bs) = Some (schema_of (bs @ [b]))"
    using Cons.prems by (intro run_block) auto
  moreover have "run_ops (concat (map block_ops later)) (schema_of (bs @ [b])) = Some (schema_of ((bs @ [b]) @ later))"
    using Cons.prems by (intro Cons.IH) auto
  ultimately show ?case by (simp add: run_ops_append)
qed simp

fun drops :: "string list \<Rightarrow> table_def list \<Rightarrow> bool" where
  "drops [] ts = True"
| "drops (n # ns) ts = (n \<in> tb_name ` set ts \<and> list_all (\<lambda>t. tb_name t = n \<or> list_all (\<lambda>f. fk_table f \<noteq> n) (tb_foreign t)) ts \<and>
     drops ns (filter (\<lambda>t. tb_name t \<noteq> n) ts))"

lemma found_by_name: "n \<in> tb_name ` set ts \<Longrightarrow> List.find (\<lambda>t. tb_name t = n) ts \<noteq> None"
  by (induction ts) auto

lemma run_drops:
  "drops ns (ds_tables s) \<Longrightarrow> run_ops (map DropTable ns) s =
     Some (s\<lparr>ds_tables := filter (\<lambda>t. tb_name t \<notin> set ns) (ds_tables s), ds_indexes := filter (\<lambda>i. ix_table i \<notin> set ns) (ds_indexes s)\<rparr>)"
proof (induction ns arbitrary: s)
  case (Cons n ns)
  let ?s = "s\<lparr>ds_tables := filter (\<lambda>t. tb_name t \<noteq> n) (ds_tables s), ds_indexes := filter (\<lambda>i. ix_table i \<noteq> n) (ds_indexes s)\<rparr>"
  have "drop_ok s n" using Cons.prems found_by_name [of n "ds_tables s"] by (simp add: drop_ok_def find_table_def)
  moreover have "run_ops (map DropTable ns) ?s = Some (?s\<lparr>ds_tables := filter (\<lambda>t. tb_name t \<notin> set ns) (ds_tables ?s),
      ds_indexes := filter (\<lambda>i. ix_table i \<notin> set ns) (ds_indexes ?s)\<rparr>)"
    using Cons.prems by (intro Cons.IH) simp
  ultimately show ?case by simp
qed simp

section \<open>This migration\<close>

lemma table_names:
  "tb_name assets_table = ''assets''" "tb_name audit_logs_table = ''audit_logs''"
  "tb_name backtest_runs_table = ''backtest_runs''" "tb_name candles_table = ''candles''"
  "tb_name exchange_settings_table = ''exchange_settings''" "tb_name execution_events_table = ''execution_events''"
  "tb_name live_orders_table = ''live_orders''" "tb_name live_positions_table = ''live_positions''"
  "tb_name macro_events_table = ''macro_events''" "tb_name market_data_metadata_table = ''market_data_metadata''"
  "tb_name market_regimes_table = ''market_regimes''" "tb_name model_metrics_table = ''model_metrics''"
  "tb_name model_predictions_table = ''model_predictions''" "tb_name model_versions_table = ''model_versions''"
  "tb_name news_articles_table = ''news_articles''" "tb_name paper_orders_table = ''paper_orders''"
  "tb_name paper_positions_table = ''paper_positions''" "tb_name pattern_statistics_table = ''pattern_statistics''"
  "tb_name patterns_table = ''patterns''" "tb_name portfolio_snapshots_table = ''portfolio_snapshots''"
  "tb_name risk_events_table = ''risk_events''" "tb_name sentiment_scores_table = ''sentiment_scores''"
  "tb_name signals_table = ''signals''" "tb_name system_events_table = ''system_events''"
  "tb_name system_settings_table = ''system_settings''" "tb_name technical_features_table = ''technical_features''"
  "tb_name trades_table = ''trades''" "tb_name training_runs_table = ''training_runs''"
  "tb_name backtest_trades_table = ''backtest_trades''" "tb_name signal_components_table = ''signal_components''"
  by (simp_all add: tables)

lemma no_foreign:
  "tb_foreign assets_table = []" "tb_foreign audit_logs_table = []" "tb_foreign backtest_runs_table = []"
  "tb_foreign candles_table = []" "tb_foreign exchange_settings_table = []" "tb_foreign execution_events_table = []"
  "tb_foreign live_orders_table = []" "tb_foreign live_positions_table = []" "tb_foreign macro_events_table = []"
  "tb_foreign market_data_metadata_table = []" "tb_foreign market_regimes_table = []"
  "tb_foreign model_metrics_table = []" "tb_foreign model_predictions_table = []"
  "tb_foreign model_versions_table = []" "tb_foreign news_articles_table = []" "tb_foreign paper_orders_table = []"
  "tb_foreign paper_positions_table = []" "tb_foreign pattern_statistics_table = []" "tb_foreign patterns_table = []"
  "tb_foreign portfolio_snapshots_table = []" "tb_foreign risk_events_table = []"
  "tb_foreign sentiment_scores_table = []" "tb_foreign signals_table = []" "tb_foreign system_events_table = []"
  "tb_foreign system_settings_table = []" "tb_foreign technical_features_table = []" "tb_foreign trades_table = []"
  "tb_foreign training_runs_table = []"
  by (simp_all add: tables)

lemma keys_out:
  "tb_foreign backtest_trades_table = [\<lparr>fk_name = ''fk_backtest_trades_run_id_backtest_runs'', fk_columns = [''run_id''],
     fk_table = ''backtest_runs'', fk_target = [''id''], fk_cascade = True\<rparr>]"
  "tb_foreign signal_components_table = [\<lparr>fk_name = ''fk_signal_components_signal_id_signals'', fk_columns = [''signal_id''],
     fk_table = ''signals'', fk_target = [''id''], fk_cascade = True\<rparr>]"
  by (simp_all add: tables)

lemma names_distinct: "distinct (concat (map block_names blocks))"
  by (simp add: blocks_def names_of)

lemma blocks_fine: "list_all block_fine blocks"
  by (simp add: blocks_def block_fine_def column_names_def declared_keys_def tables indexes required_def optional_def stamp_def ix_def)

lemma keys_fine_prefix: "list_all (\<lambda>b. tb_foreign (fst b) = []) xs \<Longrightarrow> keys_fine bs (xs @ ys) = keys_fine (bs @ xs) ys"
  by (induction xs arbitrary: bs) auto

lemma blocks_keys: "keys_fine [] blocks"
  by (simp add: blocks_def no_foreign keys_out foreign_ok_def schema_of_def find_table_def table_names)
     (simp add: tables column_names_def declared_keys_def required_def optional_def stamp_def)

lemma upgrade_runs: "run_ops upgrade empty_schema = Some (schema_of blocks)"
  using run_blocks [of "[]" blocks] names_distinct blocks_fine blocks_keys
  by (simp add: upgrade_def empty_schema_def schema_of_def)

lemma downgrade_runs: "run_ops downgrade (schema_of blocks) = Some empty_schema"
proof -
  let ?names = "map (\<lambda>x. case x of DropTable n \<Rightarrow> n | _ \<Rightarrow> []) downgrade"
  have names: "downgrade = map DropTable ?names" by (simp add: downgrade_def)
  have "drops ?names (ds_tables (schema_of blocks))"
    by (simp add: downgrade_def schema_of_def blocks_def no_foreign keys_out table_names)
  then have ran: "run_ops downgrade (schema_of blocks) = Some ((schema_of blocks)\<lparr>ds_tables := filter (\<lambda>t. tb_name t \<notin> set ?names)
      (ds_tables (schema_of blocks)), ds_indexes := filter (\<lambda>i. ix_table i \<notin> set ?names) (ds_indexes (schema_of blocks))\<rparr>)"
    by (subst (1) names) (rule run_drops)
  have all: "list_all (\<lambda>b. tb_name (fst b) \<in> set ?names) blocks"
    by (simp add: downgrade_def blocks_def table_names)
  have "filter (\<lambda>t. tb_name t \<notin> set ?names) (map fst blocks) = []"
    using all by (auto simp: filter_empty_conv list_all_iff)
  moreover have "filter (\<lambda>i. ix_table i \<notin> set ?names) (concat (map snd blocks)) = []"
    using all blocks_fine by (auto simp: filter_empty_conv list_all_iff block_fine_def)
  ultimately show ?thesis using ran by (simp add: schema_of_def empty_schema_def)
qed

text \<open>The unique constraints the program's upserts name, and the columns by which it identifies a row there.\<close>

definition upsert_targets :: "(string \<times> string \<times> string list) list" where
  "upsert_targets = [
     (''candles'', ''uq_candles_symbol'', [''symbol'', ''timeframe'', ''open_time'']),
     (''signals'', ''uq_signals_symbol'', [''symbol'', ''timeframe'', ''open_time'', ''strategy_version'', ''venue'']),
     (''technical_features'', ''uq_technical_features_symbol'', [''symbol'', ''timeframe'', ''open_time'', ''feature_version'']),
     (''model_predictions'', ''uq_model_predictions_model_version'', [''model_version'', ''symbol'', ''timeframe'', ''open_time''])]"

definition upsertable :: "db_schema \<Rightarrow> string \<times> string \<times> string list \<Rightarrow> bool" where
  "upsertable s u = (case find_table s (fst u) of None \<Rightarrow> False | Some t \<Rightarrow> snd u \<in> set (tb_unique t))"

text \<open>C39: the migration runs on an empty database from its first operation to its last, it cannot run a second time on its own
  result, it creates every unique constraint that the candle, signal, feature and prediction upserts name, on exactly the
  columns they identify a row by, and \<open>downgrade\<close> takes it back to the empty database without dropping a table another one
  still refers to.\<close>

theorem migration_roundtrip:
  "run_ops (upgrade @ downgrade) empty_schema = Some empty_schema \<and>
   run_ops (upgrade @ upgrade) empty_schema = None \<and>
   (case run_ops upgrade empty_schema of None \<Rightarrow> False | Some s \<Rightarrow> list_all (upsertable s) upsert_targets)"
proof (intro conjI)
  show "run_ops (upgrade @ downgrade) empty_schema = Some empty_schema"
    by (simp add: run_ops_append upgrade_runs downgrade_runs)
  have taken: "\<not> table_ok (schema_of blocks) assets_table"
    by (simp add: table_ok_def relation_names_def schema_of_def blocks_def table_relations_def [of assets_table])
  have "upgrade = CreateTable assets_table # tl upgrade"
    by (simp add: upgrade_def blocks_def block_ops_def)
  then have "run_ops upgrade (schema_of blocks) = None"
    using taken by (metis apply_op.simps(1) option.simps(4) run_ops.simps(2))
  then show "run_ops (upgrade @ upgrade) empty_schema = None"
    by (simp add: run_ops_append upgrade_runs)
  have uniques: "tb_unique candles_table = [(''uq_candles_symbol'', [''symbol'', ''timeframe'', ''open_time''])]"
    "tb_unique signals_table = [(''uq_signals_symbol'', [''symbol'', ''timeframe'', ''open_time'', ''strategy_version'', ''venue''])]"
    "tb_unique technical_features_table =
       [(''uq_technical_features_symbol'', [''symbol'', ''timeframe'', ''open_time'', ''feature_version''])]"
    "tb_unique model_predictions_table =
       [(''uq_model_predictions_model_version'', [''model_version'', ''symbol'', ''timeframe'', ''open_time''])]"
    by (simp_all add: tables)
  show "case run_ops upgrade empty_schema of None \<Rightarrow> False | Some s \<Rightarrow> list_all (upsertable s) upsert_targets"
    by (simp add: upgrade_runs upsert_targets_def upsertable_def find_table_def schema_of_def blocks_def table_names uniques)
qed

end
