(* ===== verification/Backup.thy ===== *)
theory Backup
  imports Json
begin

text \<open>
  \<open>scripts/manage.py\<close>: backup, restore, export and import of an installation. A host is its database, its persistent
  directories and the directory of backups; a backup is a directory of files, each whole or cut off. An environment says for each
  file whether the step that writes or reads it completes, fails or is killed. \<open>pg\<close> is what \<open>pg_restore --clean --if-exists\<close> makes of a
  dump and of the current database (\<open>None\<close>: it was interrupted); tar is taken to restore what it archived.
\<close>

section \<open>Hosts and backups\<close>

datatype ('d, 't) backup_file = Dump "'d option" | Archive "'t option" | Manifest string

type_synonym ('d, 't) backup_folder = "(string, ('d, 't) backup_file) dict"

record ('d, 't) host =
  ho_database :: 'd
  ho_trees :: "(string, 't) dict"
  ho_backups :: "(string, ('d, 't) backup_folder) dict"

text \<open>\<open>Fails c\<close>: an exception; the process then ends with the exit code \<open>c + 1\<close>. \<open>Killed\<close>: nothing runs after it.\<close>

datatype step_result = Done | Fails nat | Killed

fun exit_code :: "step_result \<Rightarrow> nat option" where
  "exit_code Done = Some 0"
| "exit_code (Fails c) = Some (c + 1)"
| "exit_code Killed = None"

definition BACKED_UP_TREES :: "string list" where
  "BACKED_UP_TREES = [''models'', ''artifacts'', ''config'']"

definition DB_DUMP_NAME :: string where
  "DB_DUMP_NAME = ''database.dump''"

definition MANIFEST_NAME :: string where
  "MANIFEST_NAME = ''MANIFEST.txt''"

definition archive_name :: "string \<Rightarrow> string" where
  "archive_name tree = tree @ ''.tar.gz''"

section \<open>Commands of PostgreSQL\<close>

definition compose :: "string list \<Rightarrow> string list" where
  "compose args = [''docker'', ''compose''] @ args"

definition direct_mode :: "(string, string) dict \<Rightarrow> bool \<Rightarrow> bool" where
  "direct_mode vars flag \<longleftrightarrow> flag \<or> dict_get vars ''MANAGE_DB_MODE'' ''docker'' = ''direct''"

definition db_command :: "(string, string) dict \<Rightarrow> bool \<Rightarrow> string \<Rightarrow> string list \<Rightarrow> string list" where
  "db_command vars flag tool tool_args =
     (let common = [''-U'', dict_get vars ''POSTGRES_USER'' ''trader'', ''-d'', dict_get vars ''POSTGRES_DB'' ''binance_spot_ai''] @ tool_args
      in if direct_mode vars flag
         then [tool, ''-h'', dict_get vars ''POSTGRES_HOST'' ''localhost'', ''-p'', dict_get vars ''POSTGRES_PORT'' ''5432''] @ common
         else compose ([''exec'', ''-T'', ''postgres'', tool] @ common))"

definition migrate_command :: "string list" where
  "migrate_command = compose [''run'', ''--rm'', ''migrate'']"

text \<open>Both ways to reach the database run the same tool with the same flags.\<close>

lemma modes_agree:
  "\<exists>common. \<forall>vars' flag. map_of vars' ''POSTGRES_USER'' = map_of vars ''POSTGRES_USER'' \<and>
      map_of vars' ''POSTGRES_DB'' = map_of vars ''POSTGRES_DB'' \<longrightarrow>
    (\<exists>reach. db_command vars' flag tool tool_args = reach @ common @ tool_args \<and> tool \<in> set reach)"
  by (intro exI [of _ "[''-U'', dict_get vars ''POSTGRES_USER'' ''trader'', ''-d'', dict_get vars ''POSTGRES_DB'' ''binance_spot_ai'']"])
     (auto simp: db_command_def Let_def dict_get_def compose_def)

section \<open>Backup\<close>

text \<open>A file is opened, then written: a step that does not complete leaves it cut off.\<close>

definition write_step ::
  "(string \<Rightarrow> step_result) \<Rightarrow> string \<Rightarrow> ('d, 't) backup_file \<Rightarrow> ('d, 't) backup_file \<Rightarrow> ('d, 't) backup_folder \<Rightarrow> ('d, 't) backup_folder \<times> step_result" where
  "write_step steps name done_file partial f = (AList.update name (if steps name = Done then done_file else partial) f, steps name)"

fun archive_trees ::
  "(string \<Rightarrow> step_result) \<Rightarrow> (string, 't) dict \<Rightarrow> string list \<Rightarrow> ('d, 't) backup_folder \<Rightarrow> ('d, 't) backup_folder \<times> step_result" where
  "archive_trees steps trees [] f = (f, Done)"
| "archive_trees steps trees (t # ts) f =
     (case map_of trees t of
        None \<Rightarrow> archive_trees steps trees ts f
      | Some content \<Rightarrow>
          (case write_step steps (archive_name t) (Archive (Some content)) (Archive None) f of
             (f', Done) \<Rightarrow> archive_trees steps trees ts f'
           | r \<Rightarrow> r))"

fun unlines :: "string list \<Rightarrow> string" where
  "unlines [] = ''''"
| "unlines (s # ss) = s @ [CHR 0x0A] @ unlines ss"

definition manifest_text :: "(string, string) dict \<Rightarrow> string \<Rightarrow> string \<Rightarrow> string" where
  "manifest_text vars name now = unlines
     [''created_at: '' @ now, ''database: '' @ dict_get vars ''POSTGRES_DB'' ''binance_spot_ai'', ''trees: models, artifacts, config'',
      ''note: restore with `python scripts/manage.py restore --name '' @ name @ ''`'']"

definition fill_backup ::
  "(string, string) dict \<Rightarrow> (string \<Rightarrow> step_result) \<Rightarrow> string \<Rightarrow> string \<Rightarrow> ('d, 't) host \<Rightarrow> ('d, 't) backup_folder \<times> step_result" where
  "fill_backup vars steps name now h =
     (case write_step steps DB_DUMP_NAME (Dump (Some (ho_database h))) (Dump None) [] of
        (f, Done) \<Rightarrow>
          (case archive_trees steps (ho_trees h) BACKED_UP_TREES f of
             (f', Done) \<Rightarrow> write_step steps MANIFEST_NAME (Manifest (manifest_text vars name now)) (Manifest '''') f'
           | r \<Rightarrow> r)
      | r \<Rightarrow> r)"

definition backup_name :: "string option \<Rightarrow> string \<Rightarrow> string" where
  "backup_name given stamp = (case given of Some n \<Rightarrow> if n = '''' then ''backup-'' @ stamp else n | None \<Rightarrow> ''backup-'' @ stamp)"

text \<open>
  An exception removes what was staged; a process that is killed leaves it. Errors of the removal are ignored
  (\<open>ignore_errors=True\<close>): the files that are \<open>stuck\<close> stay behind, and the directory with them.
\<close>

definition left_behind :: "(string \<Rightarrow> bool) \<Rightarrow> string \<Rightarrow> ('d, 't) backup_folder \<Rightarrow> ('d, 't) host \<Rightarrow> ('d, 't) host" where
  "left_behind stuck name f h =
     (let rest = filter (\<lambda>nf. stuck (fst nf)) f
      in if rest = [] then h else h\<lparr>ho_backups := AList.update name rest (ho_backups h)\<rparr>)"

definition cmd_backup ::
  "(string, string) dict \<Rightarrow> (string \<Rightarrow> step_result) \<Rightarrow> (string \<Rightarrow> bool) \<Rightarrow> string option \<Rightarrow> string \<Rightarrow> string \<Rightarrow> ('d, 't) host
     \<Rightarrow> ('d, 't) host \<times> nat option" where
  "cmd_backup vars steps stuck given stamp now h =
     (let name = backup_name given stamp in
      if has_key (ho_backups h) name then (h, Some 1)
      else case fill_backup vars steps name now h of
          (f, Fails c) \<Rightarrow> (left_behind stuck name f h, exit_code (Fails c))
        | (f, r) \<Rightarrow> (h\<lparr>ho_backups := AList.update name f (ho_backups h)\<rparr>, exit_code r))"

section \<open>Restore\<close>

definition restore_database ::
  "('d option \<Rightarrow> 'd \<Rightarrow> 'd) \<Rightarrow> (string \<Rightarrow> step_result) \<Rightarrow> ('d, 't) backup_file \<Rightarrow> ('d, 't) host \<Rightarrow> ('d, 't) host \<times> step_result" where
  "restore_database pg steps file h =
     (case (file, steps DB_DUMP_NAME) of
        (Dump (Some d), Done) \<Rightarrow> (h\<lparr>ho_database := pg (Some d) (ho_database h)\<rparr>, Done)
      | (_, r) \<Rightarrow> (h\<lparr>ho_database := pg None (ho_database h)\<rparr>, if r = Done then Fails 0 else r))"

text \<open>The directory is removed before its archive is unpacked; what a failed unpacking leaves counts as nothing.\<close>

fun restore_trees ::
  "(string \<Rightarrow> step_result) \<Rightarrow> ('d, 't) backup_folder \<Rightarrow> string list \<Rightarrow> ('d, 't) host \<Rightarrow> ('d, 't) host \<times> step_result" where
  "restore_trees steps f [] h = (h, Done)"
| "restore_trees steps f (t # ts) h =
     (case map_of f (archive_name t) of
        None \<Rightarrow> restore_trees steps f ts h
      | Some file \<Rightarrow>
          (case (file, steps (archive_name t)) of
             (Archive (Some content), Done) \<Rightarrow> restore_trees steps f ts (h\<lparr>ho_trees := AList.update t content (ho_trees h)\<rparr>)
           | (_, r) \<Rightarrow> (h\<lparr>ho_trees := AList.delete t (ho_trees h)\<rparr>, if r = Done then Fails 0 else r)))"

definition cmd_restore ::
  "('d option \<Rightarrow> 'd \<Rightarrow> 'd) \<Rightarrow> (string \<Rightarrow> step_result) \<Rightarrow> string \<Rightarrow> bool \<Rightarrow> ('d, 't) host \<Rightarrow> ('d, 't) host \<times> nat option" where
  "cmd_restore pg steps name yes h =
     (case map_of (ho_backups h) name of
        None \<Rightarrow> (h, Some 1)
      | Some f \<Rightarrow>
          (case map_of f DB_DUMP_NAME of
             None \<Rightarrow> (h, Some 1)
           | Some file \<Rightarrow>
               if \<not> has_key f MANIFEST_NAME then (h, Some 1)
               else if \<not> yes then (h, Some 1)
               else (case restore_database pg steps file h of
                   (h1, Done) \<Rightarrow> (case restore_trees steps f BACKED_UP_TREES h1 of (h2, r) \<Rightarrow> (h2, exit_code r))
                 | (h1, r) \<Rightarrow> (h1, exit_code r))))"

section \<open>Transfer\<close>

text \<open>tar adds the files of a directory in the order of their names, and unpacks them in that order.\<close>

definition member_order :: "string list" where
  "member_order = [MANIFEST_NAME, archive_name ''artifacts'', archive_name ''config'', DB_DUMP_NAME, archive_name ''models'']"

definition cmd_export :: "string \<Rightarrow> ('d, 't) host \<Rightarrow> (string \<times> ('d, 't) backup_folder) option \<times> nat" where
  "cmd_export name h = (case map_of (ho_backups h) name of
     None \<Rightarrow> (None, 1)
   | Some f \<Rightarrow> (Some (name, List.map_filter (\<lambda>n. map_option (Pair n) (map_of f n)) member_order), 0))"

fun cut_off :: "('d, 't) backup_file \<Rightarrow> ('d, 't) backup_file" where
  "cut_off (Dump d) = Dump None"
| "cut_off (Archive c) = Archive None"
| "cut_off (Manifest s) = Manifest ''''"

text \<open>\<open>stopped\<close>: the number of files unpacked when the process is killed.\<close>

definition unpacked :: "nat option \<Rightarrow> ('d, 't) backup_folder \<Rightarrow> ('d, 't) backup_folder" where
  "unpacked stopped members = (case stopped of
     None \<Rightarrow> members
   | Some k \<Rightarrow> take k members @ (case drop k members of [] \<Rightarrow> [] | m # _ \<Rightarrow> [(fst m, cut_off (snd m))]))"

definition cmd_import ::
  "nat option \<Rightarrow> (string \<times> ('d, 't) backup_folder) option \<Rightarrow> ('d, 't) host \<Rightarrow> ('d, 't) host \<times> nat option" where
  "cmd_import stopped bundle h = (case bundle of
     None \<Rightarrow> (h, Some 1)
   | Some (name, members) \<Rightarrow>
       (h\<lparr>ho_backups := AList.update name
          (fold (\<lambda>m. AList.update (fst m) (snd m)) (unpacked stopped members) (dict_get (ho_backups h) name [])) (ho_backups h)\<rparr>,
        if stopped = None then Some 0 else None))"

section \<open>Layout\<close>

definition verified_paths :: "string \<Rightarrow> string list" where
  "verified_paths base = map (\<lambda>p. base @ ''/'' @ p) [''data'', ''models/production'', ''artifacts'', ''logs'', ''backups'']"

definition cmd_verify :: "string \<Rightarrow> (string \<Rightarrow> bool) \<Rightarrow> string list \<times> nat" where
  "cmd_verify base exists = (let missing = filter (\<lambda>p. \<not> exists p) (verified_paths base) in (missing, if missing = [] then 0 else 1))"


section \<open>Lemmas\<close>

definition archived :: "('d, 't) backup_folder \<Rightarrow> string \<Rightarrow> 't option" where
  "archived f t = (case map_of f (archive_name t) of Some (Archive (Some c)) \<Rightarrow> Some c | _ \<Rightarrow> None)"

text \<open>A backup that has a manifest has a whole dump, and the archives it has are whole.\<close>

definition honest :: "('d, 't) backup_folder \<Rightarrow> bool" where
  "honest f \<longleftrightarrow> (has_key f MANIFEST_NAME \<longrightarrow> (\<exists>d. map_of f DB_DUMP_NAME = Some (Dump (Some d))) \<and>
     (\<forall>t \<in> set BACKED_UP_TREES. map_of f (archive_name t) = map_option (\<lambda>c. Archive (Some c)) (archived f t)))"

definition honest_host :: "('d, 't) host \<Rightarrow> bool" where
  "honest_host h \<longleftrightarrow> (\<forall>name f. map_of (ho_backups h) name = Some f \<longrightarrow> honest f)"

lemma archive_inj [simp]: "archive_name t = archive_name u \<longleftrightarrow> t = u"
  by (simp add: archive_name_def)

lemma archive_mem [simp]: "archive_name t \<in> archive_name ` A \<longleftrightarrow> t \<in> A"
  by auto

lemma archive_distinct:
  "t \<in> set BACKED_UP_TREES \<Longrightarrow> archive_name t \<noteq> DB_DUMP_NAME \<and> archive_name t \<noteq> MANIFEST_NAME"
  by (auto simp: BACKED_UP_TREES_def archive_name_def DB_DUMP_NAME_def MANIFEST_NAME_def)

lemma no_archives: "DB_DUMP_NAME \<notin> archive_name ` set BACKED_UP_TREES" "MANIFEST_NAME \<notin> archive_name ` set BACKED_UP_TREES"
  by (auto simp: BACKED_UP_TREES_def archive_name_def DB_DUMP_NAME_def MANIFEST_NAME_def)

lemma names_differ [simp]: "DB_DUMP_NAME \<noteq> MANIFEST_NAME" "MANIFEST_NAME \<noteq> DB_DUMP_NAME"
  by (simp_all add: DB_DUMP_NAME_def MANIFEST_NAME_def)

lemma archive_trees_ok:
  assumes "archive_trees steps trees ts f = (f', r)"
  shows "(\<forall>n. n \<notin> archive_name ` set ts \<longrightarrow> map_of f' n = map_of f n) \<and>
    (r = Done \<and> distinct ts \<longrightarrow> (\<forall>t \<in> set ts. map_of f' (archive_name t) =
       (case map_of trees t of None \<Rightarrow> map_of f (archive_name t) | Some c \<Rightarrow> Some (Archive (Some c)))))"
  using assms
proof (induction ts arbitrary: f)
  case (Cons t ts)
  show ?case
  proof (cases "map_of trees t")
    case None
    with Cons.prems Cons.IH [of f] show ?thesis by auto
  next
    case (Some c)
    show ?thesis
    proof (cases "steps (archive_name t) = Done")
      case True
      let ?f = "AList.update (archive_name t) (Archive (Some c)) f"
      have "archive_trees steps trees ts ?f = (f', r)" using Cons.prems Some True by (simp add: write_step_def)
      from Cons.IH [OF this] show ?thesis using Some by (auto simp: dict_simps split: option.splits)
    next
      case False
      then show ?thesis using Cons.prems Some by (cases "steps (archive_name t)") (auto simp: write_step_def dict_simps)
    qed
  qed
qed simp

text \<open>What a backup contains when its last step completed, and what it lacks when an earlier one did not.\<close>

lemma fill_backup_ok:
  assumes "fill_backup vars steps name now h = (f, r)"
  shows "(has_key f MANIFEST_NAME \<longrightarrow> map_of f DB_DUMP_NAME = Some (Dump (Some (ho_database h))) \<and>
      (\<forall>t \<in> set BACKED_UP_TREES. map_of f (archive_name t) = map_option (\<lambda>c. Archive (Some c)) (map_of (ho_trees h) t))) \<and>
    (r = Done \<longrightarrow> has_key f MANIFEST_NAME)"
proof (cases "steps DB_DUMP_NAME = Done")
  case False
  then have "f = AList.update DB_DUMP_NAME (Dump None) [] \<and> r \<noteq> Done"
    using assms by (cases "steps DB_DUMP_NAME") (auto simp: fill_backup_def write_step_def)
  then show ?thesis by (auto simp: has_key_iff)
next
  case True
  let ?f0 = "AList.update DB_DUMP_NAME (Dump (Some (ho_database h))) []"
  obtain f1 r1 where a: "archive_trees steps (ho_trees h) BACKED_UP_TREES ?f0 = (f1, r1)" by fastforce
  note ok = archive_trees_ok [OF a]
  have dump: "map_of f1 DB_DUMP_NAME = Some (Dump (Some (ho_database h)))" and none: "map_of f1 MANIFEST_NAME = None"
    using conjunct1 [OF ok] no_archives by (simp_all add: dict_simps)
  show ?thesis
  proof (cases "r1 = Done")
    case False
    then have "f = f1 \<and> r = r1" using assms True a by (cases r1) (auto simp: fill_backup_def write_step_def)
    then show ?thesis using none False by (simp add: has_key_def)
  next
    case r1: True
    then obtain m where f: "f = AList.update MANIFEST_NAME (Manifest m) f1"
      using assms True a that by (cases "steps MANIFEST_NAME = Done") (auto simp: fill_backup_def write_step_def)
    have trees: "map_of f1 (archive_name t) = map_option (\<lambda>c. Archive (Some c)) (map_of (ho_trees h) t)" if "t \<in> set BACKED_UP_TREES" for t
    proof -
      have "distinct BACKED_UP_TREES" by (simp add: BACKED_UP_TREES_def)
      moreover have "map_of ?f0 (archive_name t) = None" using archive_distinct [OF that] by (simp add: dict_simps)
      ultimately show ?thesis using ok r1 that by (auto split: option.splits)
    qed
    then show ?thesis using dump archive_distinct by (simp add: f map_of_update has_key_def)
  qed
qed

lemma archived_option: "map_of f (archive_name t) = map_option (\<lambda>c. Archive (Some c)) x \<Longrightarrow> archived f t = x"
  by (cases x) (simp_all add: archived_def)

lemma fill_backup_honest: "fill_backup vars steps name now h = (f, r) \<Longrightarrow> honest f"
  using fill_backup_ok [of vars steps name now h f r] archived_option [of f] by (auto simp: honest_def)

lemma restore_trees_ok:
  assumes "\<forall>t \<in> set ts. map_of f (archive_name t) = map_option (\<lambda>c. Archive (Some c)) (archived f t)"
  shows "\<exists>h'. restore_trees (\<lambda>_. Done) f ts h = (h', Done) \<and> ho_database h' = ho_database h \<and> ho_backups h' = ho_backups h \<and>
    (\<forall>t. map_of (ho_trees h') t = (if t \<in> set ts \<and> archived f t \<noteq> None then archived f t else map_of (ho_trees h) t))"
  using assms
proof (induction ts arbitrary: h)
  case (Cons t ts)
  show ?case
  proof (cases "archived f t")
    case None
    with Cons.prems Cons.IH [of h] show ?thesis by auto
  next
    case (Some c)
    with Cons.prems Cons.IH [of "h\<lparr>ho_trees := AList.update t c (ho_trees h)\<rparr>"] show ?thesis by (auto simp: map_of_update)
  qed
qed simp

lemma restore_ok:
  assumes "map_of (ho_backups h) name = Some f" "has_key f MANIFEST_NAME" "honest f" "map_of f DB_DUMP_NAME = Some (Dump (Some d))"
  shows "\<exists>h'. cmd_restore pg (\<lambda>_. Done) name True h = (h', Some 0) \<and> ho_database h' = pg (Some d) (ho_database h) \<and>
    ho_backups h' = ho_backups h \<and> (\<forall>t. map_of (ho_trees h') t =
      (if t \<in> set BACKED_UP_TREES \<and> archived f t \<noteq> None then archived f t else map_of (ho_trees h) t))"
proof -
  let ?h = "h\<lparr>ho_database := pg (Some d) (ho_database h)\<rparr>"
  have "\<forall>t \<in> set BACKED_UP_TREES. map_of f (archive_name t) = map_option (\<lambda>c. Archive (Some c)) (archived f t)"
    using assms(2,3) by (simp add: honest_def)
  from restore_trees_ok [OF this, of ?h] obtain h' where "restore_trees (\<lambda>_. Done) f BACKED_UP_TREES ?h = (h', Done) \<and>
      ho_database h' = ho_database ?h \<and> ho_backups h' = ho_backups ?h \<and> (\<forall>t. map_of (ho_trees h') t =
        (if t \<in> set BACKED_UP_TREES \<and> archived f t \<noteq> None then archived f t else map_of (ho_trees ?h) t))"
    by blast
  then show ?thesis using assms by (intro exI [of _ h']) (simp add: cmd_restore_def restore_database_def cong: if_cong)
qed

section \<open>Complete backups\<close>

lemma map_of_members: "distinct ns \<Longrightarrow>
    map_of (List.map_filter (\<lambda>n. map_option (Pair n) (map_of f n)) ns) n = (if n \<in> set ns then map_of f n else None)"
  by (induction ns) (auto simp: List.map_filter_simps split: option.splits)

lemma map_of_fold_update: "distinct (keys ms) \<Longrightarrow> map_of (fold (\<lambda>m. AList.update (fst m) (snd m)) ms d) n =
    (case map_of ms n of None \<Rightarrow> map_of d n | Some v \<Rightarrow> Some v)"
proof (induction ms arbitrary: d)
  case (Cons m ms)
  then have "n = fst m \<Longrightarrow> map_of ms n = None" by (simp add: map_of_eq_None_iff)
  with Cons show ?case by (auto simp: map_of_update split: option.split)
qed simp

inductive manage_step :: "('d, 't) host \<Rightarrow> ('d, 't) host \<Rightarrow> bool" where
  backed_up: "cmd_backup vars steps stuck given stamp now h = (h', r) \<Longrightarrow> \<not> stuck MANIFEST_NAME \<Longrightarrow> manage_step h h'"
| restored: "cmd_restore pg steps name yes h = (h', r) \<Longrightarrow> manage_step h h'"
| imported: "honest_host source \<Longrightarrow> cmd_export name source = (bundle, code) \<Longrightarrow> \<not> has_key (ho_backups h) name \<Longrightarrow>
    cmd_import None bundle h = (h', r) \<Longrightarrow> manage_step h h'"

inductive managed :: "('d, 't) host \<Rightarrow> bool" where
  fresh: "ho_backups h = [] \<Longrightarrow> managed h"
| running: "managed h \<Longrightarrow> ho_backups h' = ho_backups h \<Longrightarrow> managed h'"
| step: "managed h \<Longrightarrow> manage_step h h' \<Longrightarrow> managed h'"

lemma restore_trees_backups: "restore_trees steps f ts h = (h', r) \<Longrightarrow> ho_backups h' = ho_backups h"
  by (induction ts arbitrary: h) (auto split: option.splits backup_file.splits step_result.splits)

lemma restore_backups: "cmd_restore pg steps name yes h = (h', r) \<Longrightarrow> ho_backups h' = ho_backups h"
  by (auto simp: cmd_restore_def restore_database_def dest!: restore_trees_backups
      split: option.splits if_splits prod.splits backup_file.splits step_result.splits)

lemma import_honest:
  assumes "honest_host source" "cmd_export name source = (Some (name', ms), code)" "\<not> has_key (ho_backups h) name'" "honest_host h"
    "cmd_import None (Some (name', ms)) h = (h', r)"
  shows "honest_host h'"
proof -
  obtain f where f: "map_of (ho_backups source) name = Some f" "name' = name"
    "ms = List.map_filter (\<lambda>n. map_option (Pair n) (map_of f n)) member_order"
    using assms(2) by (auto simp: cmd_export_def split: option.splits)
  have d: "distinct member_order"
    by (simp add: member_order_def archive_name_def MANIFEST_NAME_def DB_DUMP_NAME_def)
  have ms: "map_of ms n = (if n \<in> set member_order then map_of f n else None)" for n
    unfolding f(3) by (rule map_of_members [OF d])
  have sub: "set (keys (List.map_filter (\<lambda>n. map_option (Pair n) (map_of f n)) ns)) \<subseteq> set ns" for ns
    by (induction ns) (auto simp: List.map_filter_simps split: option.splits)
  have "distinct (keys (List.map_filter (\<lambda>n. map_option (Pair n) (map_of f n)) ns))" if "distinct ns" for ns
    using that sub by (induction ns) (auto simp: List.map_filter_simps split: option.splits)
  then have dk: "distinct (keys ms)" using d by (simp add: f(3))
  let ?g = "fold (\<lambda>m. AList.update (fst m) (snd m)) ms []"
  have g: "map_of ?g n = (if n \<in> set member_order then map_of f n else None)" for n
    by (simp add: map_of_fold_update [OF dk] ms split: option.split)
  have "honest f" using assms(1) f(1) by (simp add: honest_host_def)
  moreover have "MANIFEST_NAME \<in> set member_order" "DB_DUMP_NAME \<in> set member_order"
    "\<forall>t \<in> set BACKED_UP_TREES. archive_name t \<in> set member_order"
    by (simp_all add: member_order_def BACKED_UP_TREES_def)
  ultimately have "honest ?g" by (simp add: honest_def has_key_def archived_def g)
  moreover have "dict_get (ho_backups h) name' [] = []" using assms(3) by (simp add: has_key_def dict_get_def)
  ultimately show ?thesis using assms(4,5)
    by (auto simp: cmd_import_def unpacked_def honest_host_def map_of_update split: if_splits)
qed

lemma step_honest: "manage_step h h' \<Longrightarrow> honest_host h \<Longrightarrow> honest_host h'"
proof (induction rule: manage_step.induct)
  case (backed_up vars steps stuck given stamp now h h' r)
  obtain f q where f: "fill_backup vars steps (backup_name given stamp) now h = (f, q)" by fastforce
  have left: "honest (filter (\<lambda>nf. stuck (fst nf)) f)"
    using backed_up(2) by (auto simp: honest_def has_key_def map_of_eq_None_iff)
  show ?case
  proof (cases q)
    case (Fails c)
    with f backed_up left show ?thesis
      by (auto simp: cmd_backup_def left_behind_def Let_def honest_host_def map_of_update split: if_splits)
  qed (use f backed_up fill_backup_honest [OF f] in
      \<open>auto simp: cmd_backup_def Let_def honest_host_def map_of_update split: if_splits\<close>)
next
  case (restored pg steps name yes h h' r)
  then show ?case using restore_backups [OF restored(1)] by (simp add: honest_host_def)
next
  case (imported origin name archive status h h' r)
  show ?case
  proof (cases archive)
    case None
    with imported show ?thesis by (simp add: cmd_import_def)
  next
    case (Some b)
    obtain name' ms where b: "b = (name', ms)" by (cases b)
    have "name' = name" using imported(2) Some b by (auto simp: cmd_export_def split: option.splits)
    with imported Some b show ?thesis by (intro import_honest [of origin name name' ms status h h' r]) simp_all
  qed
qed

lemma managed_honest: "managed h \<Longrightarrow> honest_host h"
  by (induction rule: managed.induct) (auto simp: honest_host_def dest: step_honest [unfolded honest_host_def])

section \<open>Properties\<close>

text \<open>
  C29: the manifest marks a backup as complete. Take any sequence of backups, restores and finished imports of exported backups,
  whatever fails and wherever a process is killed, in which every import brings a name that is not there yet (\<open>cmd_import\<close> does not
  check it; see \<open>import_over_partial\<close>), none is interrupted (see \<open>interrupted_import_looks_complete\<close>), and the removal after a
  failed backup does not leave its manifest. Then a backup with a manifest holds a whole dump and whole archives and can be restored;
  one without is refused, and the refusal changes nothing.
\<close>

theorem manifest_marks_complete:
  assumes "managed h" "map_of (ho_backups h) name = Some f"
  shows "if has_key f MANIFEST_NAME
    then (\<forall>t \<in> set BACKED_UP_TREES. map_of f (archive_name t) \<noteq> Some (Archive None)) \<and>
      (\<exists>d h'. map_of f DB_DUMP_NAME = Some (Dump (Some d)) \<and> cmd_restore pg (\<lambda>_. Done) name True h = (h', Some 0) \<and>
      ho_database h' = pg (Some d) (ho_database h))
    else cmd_restore pg steps name yes h = (h, Some 1)"
proof (cases "has_key f MANIFEST_NAME")
  case True
  have "honest f" using managed_honest [OF assms(1)] assms(2) by (simp add: honest_host_def)
  with True obtain d where d: "map_of f DB_DUMP_NAME = Some (Dump (Some d))"
    and whole: "\<forall>t \<in> set BACKED_UP_TREES. map_of f (archive_name t) = map_option (\<lambda>c. Archive (Some c)) (archived f t)"
    by (auto simp: honest_def)
  have "\<forall>t \<in> set BACKED_UP_TREES. map_of f (archive_name t) \<noteq> Some (Archive None)"
  proof
    fix t assume "t \<in> set BACKED_UP_TREES"
    with whole show "map_of f (archive_name t) \<noteq> Some (Archive None)" by (cases "archived f t") simp_all
  qed
  with restore_ok [OF assms(2) True \<open>honest f\<close> d, of pg] True d show ?thesis by auto
next
  case False
  then show ?thesis using assms(2) by (simp add: cmd_restore_def split: option.split)
qed

text \<open>
  C28: a backup that reported success brings everything back. Restored on whatever the host has become, the database is what
  \<open>pg_restore\<close> makes of the dump, each directory that existed at the time of the backup has its content of then, any other is left alone,
  and so are all backups. A backup that reported failure left nothing behind but, where its removal failed, files that could not
  be removed; and no backup touches the database or the directories.
\<close>

theorem backup_restore_roundtrip:
  assumes "cmd_backup vars steps stuck given stamp now h = (h1, status)" "name = backup_name given stamp"
    "map_of (ho_backups h2) name = map_of (ho_backups h1) name"
  shows "ho_database h1 = ho_database h \<and> ho_trees h1 = ho_trees h \<and>
    (case status of
       Some 0 \<Rightarrow> \<exists>h3. cmd_restore pg (\<lambda>_. Done) name True h2 = (h3, Some 0) \<and>
         ho_database h3 = pg (Some (ho_database h)) (ho_database h2) \<and> ho_backups h3 = ho_backups h2 \<and>
         (\<forall>t. map_of (ho_trees h3) t =
           (if t \<in> set BACKED_UP_TREES \<and> map_of (ho_trees h) t \<noteq> None then map_of (ho_trees h) t else map_of (ho_trees h2) t))
     | Some _ \<Rightarrow> h1 = h \<or> map_of (ho_backups h) name = None \<and>
         (\<exists>f. f \<noteq> [] \<and> list_all (\<lambda>nf. stuck (fst nf)) f \<and> h1 = h\<lparr>ho_backups := AList.update name f (ho_backups h)\<rparr>)
     | None \<Rightarrow> map_of (ho_backups h) name = None)"
proof (cases "has_key (ho_backups h) name")
  case True
  then show ?thesis using assms(1,2) by (auto simp: cmd_backup_def Let_def)
next
  case False
  obtain f q where f: "fill_backup vars steps name now h = (f, q)" by fastforce
  show ?thesis
  proof (cases q)
    case Done
    with assms(1,2) False f have h1: "h1 = h\<lparr>ho_backups := AList.update name f (ho_backups h)\<rparr>" "status = Some 0"
      by (simp_all add: cmd_backup_def Let_def)
    have ok: "has_key f MANIFEST_NAME" "map_of f DB_DUMP_NAME = Some (Dump (Some (ho_database h)))"
      "\<forall>t \<in> set BACKED_UP_TREES. archived f t = map_of (ho_trees h) t"
      using fill_backup_ok [OF f] Done archived_option [of f] by auto
    have "map_of (ho_backups h2) name = Some f" using assms(3) by (simp add: h1 map_of_update)
    from restore_ok [OF this ok(1) fill_backup_honest [OF f] ok(2), of pg] obtain h3 where h3:
      "cmd_restore pg (\<lambda>_. Done) name True h2 = (h3, Some 0)" "ho_database h3 = pg (Some (ho_database h)) (ho_database h2)"
      "ho_backups h3 = ho_backups h2" "\<forall>t. map_of (ho_trees h3) t =
        (if t \<in> set BACKED_UP_TREES \<and> archived f t \<noteq> None then archived f t else map_of (ho_trees h2) t)" by blast
    have "map_of (ho_trees h3) t =
        (if t \<in> set BACKED_UP_TREES \<and> map_of (ho_trees h) t \<noteq> None then map_of (ho_trees h) t else map_of (ho_trees h2) t)" for t
      using h3(4) ok(3) by (cases "t \<in> set BACKED_UP_TREES") simp_all
    then have "\<exists>h3. cmd_restore pg (\<lambda>_. Done) name True h2 = (h3, Some 0) \<and>
        ho_database h3 = pg (Some (ho_database h)) (ho_database h2) \<and> ho_backups h3 = ho_backups h2 \<and>
        (\<forall>t. map_of (ho_trees h3) t =
          (if t \<in> set BACKED_UP_TREES \<and> map_of (ho_trees h) t \<noteq> None then map_of (ho_trees h) t else map_of (ho_trees h2) t))"
      using h3(1-3) by blast
    then show ?thesis by (simp add: h1)
  next
    case (Fails c)
    let ?rest = "filter (\<lambda>nf. stuck (fst nf)) f"
    have "h1 = left_behind stuck name f h" "status = Some (c + 1)"
      using Fails assms(1,2) False f by (simp_all add: cmd_backup_def Let_def)
    moreover have "list_all (\<lambda>nf. stuck (fst nf)) ?rest" by (simp add: list_all_iff)
    ultimately show ?thesis using False by (auto simp: left_behind_def Let_def has_key_def)
  next
    case Killed
    with assms(1,2) False f show ?thesis by (auto simp: cmd_backup_def Let_def has_key_def)
  qed
qed

definition small_host :: "(nat, string) host" where
  "small_host = \<lparr>ho_database = 7, ho_trees = [(''models'', ''m1''), (''config'', ''c1'')], ho_backups = []\<rparr>"

theorem backup_restore_roundtrip_witness:
  "\<exists>h1 h3. cmd_backup [] (\<lambda>_. Done) (\<lambda>_. False) (Some ''before'') ''t'' ''now'' small_host = (h1, Some 0) \<and>
     cmd_restore (\<lambda>d c. case d of None \<Rightarrow> 0 | Some x \<Rightarrow> x) (\<lambda>_. Done) ''before'' True
       (h1\<lparr>ho_database := 9, ho_trees := [(''models'', ''m2''), (''artifacts'', ''a2'')]\<rparr>) = (h3, Some 0) \<and>
     ho_database h3 = 7 \<and> map_of (ho_trees h3) ''models'' = Some ''m1'' \<and> map_of (ho_trees h3) ''artifacts'' = Some ''a2''"
proof -
  obtain f where f: "fill_backup [] (\<lambda>_. Done) ''before'' ''now'' small_host = (f, Done)"
    by (auto simp: fill_backup_def write_step_def small_host_def BACKED_UP_TREES_def archive_name_def)
  let ?h1 = "small_host\<lparr>ho_backups := AList.update ''before'' f (ho_backups small_host)\<rparr>"
  let ?h2 = "?h1\<lparr>ho_database := 9, ho_trees := [(''models'', ''m2''), (''artifacts'', ''a2'')]\<rparr>"
  have b: "cmd_backup [] (\<lambda>_. Done) (\<lambda>_. False) (Some ''before'') ''t'' ''now'' small_host = (?h1, Some 0)"
    using f by (simp add: cmd_backup_def backup_name_def small_host_def has_key_def)
  have "map_of (ho_backups ?h2) ''before'' = map_of (ho_backups ?h1) ''before''" by simp
  from backup_restore_roundtrip [OF b _ this, where pg = "\<lambda>d c. case d of None \<Rightarrow> 0 | Some x \<Rightarrow> x"]
  obtain h3 where r: "cmd_restore (\<lambda>d c. case d of None \<Rightarrow> 0 | Some x \<Rightarrow> x) (\<lambda>_. Done) ''before'' True ?h2 = (h3, Some 0)"
    "ho_database h3 = 7" and trees: "\<And>t. map_of (ho_trees h3) t =
      (if t \<in> set BACKED_UP_TREES \<and> map_of (ho_trees small_host) t \<noteq> None then map_of (ho_trees small_host) t else map_of (ho_trees ?h2) t)"
    by (auto simp: backup_name_def small_host_def)
  have "map_of (ho_trees h3) ''models'' = Some ''m1''" "map_of (ho_trees h3) ''artifacts'' = Some ''a2''"
    unfolding trees by (simp_all add: small_host_def BACKED_UP_TREES_def)
  then show ?thesis using b r by (intro exI [of _ ?h1] exI [of _ h3] conjI) simp_all
qed

text \<open>A backup that was killed while it archived the models, and one that completed.\<close>

definition cut_folder :: "(nat, string) backup_folder" where
  "cut_folder = [(DB_DUMP_NAME, Dump (Some 7)), (archive_name ''models'', Archive None)]"

lemma cut_host:
  "managed (small_host\<lparr>ho_backups := [(''cut'', cut_folder)]\<rparr>)" "\<not> has_key cut_folder MANIFEST_NAME"
proof -
  let ?steps = "\<lambda>n. if n = archive_name ''models'' then Killed else Done"
  have n: "DB_DUMP_NAME \<noteq> archive_name ''models''" "MANIFEST_NAME \<noteq> archive_name ''models''"
    by (simp_all add: DB_DUMP_NAME_def MANIFEST_NAME_def archive_name_def)
  have b: "cmd_backup [] ?steps (\<lambda>_. False) (Some ''cut'') ''t'' ''now'' small_host = (small_host\<lparr>ho_backups := [(''cut'', cut_folder)]\<rparr>, None)"
    using n by (simp add: cmd_backup_def backup_name_def fill_backup_def write_step_def small_host_def BACKED_UP_TREES_def has_key_def
        cut_folder_def)
  have "manage_step small_host (small_host\<lparr>ho_backups := [(''cut'', cut_folder)]\<rparr>)"
    by (rule manage_step.backed_up [OF b]) simp
  then show "managed (small_host\<lparr>ho_backups := [(''cut'', cut_folder)]\<rparr>)"
    by (intro managed.step [OF managed.fresh]) (simp_all add: small_host_def)
  show "\<not> has_key cut_folder MANIFEST_NAME" using n by (simp add: has_key_def cut_folder_def)
qed

theorem manifest_marks_complete_witness:
  "managed (small_host\<lparr>ho_backups := [(''cut'', cut_folder)]\<rparr>) \<and>
   cmd_restore (\<lambda>d c. 0) (\<lambda>_. Done) ''cut'' True (small_host\<lparr>ho_backups := [(''cut'', cut_folder)]\<rparr>) =
     (small_host\<lparr>ho_backups := [(''cut'', cut_folder)]\<rparr>, Some 1) \<and>
   (\<exists>h1 f d h2. cmd_backup [] (\<lambda>_. Done) (\<lambda>_. False) (Some ''full'') ''t'' ''now'' small_host = (h1, Some 0) \<and> managed h1 \<and>
     map_of (ho_backups h1) ''full'' = Some f \<and> has_key f MANIFEST_NAME \<and> map_of f DB_DUMP_NAME = Some (Dump (Some d)) \<and>
     cmd_restore (\<lambda>d c. 0) (\<lambda>_. Done) ''full'' True h1 = (h2, Some 0))"
proof -
  let ?h = "small_host\<lparr>ho_backups := [(''cut'', cut_folder)]\<rparr>" and ?pg = "\<lambda>d c :: nat. 0 :: nat"
  have "map_of (ho_backups ?h) ''cut'' = Some cut_folder" by simp
  from manifest_marks_complete [OF cut_host(1) this, of ?pg "\<lambda>_. Done"] cut_host(2)
  have cut: "cmd_restore ?pg (\<lambda>_. Done) ''cut'' True ?h = (?h, Some 1)" by simp
  obtain f where f: "fill_backup [] (\<lambda>_. Done) ''full'' ''now'' small_host = (f, Done)" "has_key f MANIFEST_NAME"
    using fill_backup_ok [of "[]" "\<lambda>_. Done" "''full''" "''now''" small_host]
    by (auto simp: fill_backup_def write_step_def small_host_def BACKED_UP_TREES_def archive_name_def)
  let ?h1 = "small_host\<lparr>ho_backups := [(''full'', f)]\<rparr>"
  have b: "cmd_backup [] (\<lambda>_. Done) (\<lambda>_. False) (Some ''full'') ''t'' ''now'' small_host = (?h1, Some 0)"
    using f by (simp add: cmd_backup_def backup_name_def small_host_def has_key_def)
  have "manage_step small_host ?h1" by (rule manage_step.backed_up [OF b]) simp
  then have m: "managed ?h1" by (intro managed.step [OF managed.fresh]) (simp_all add: small_host_def)
  have "map_of (ho_backups ?h1) ''full'' = Some f" by simp
  from manifest_marks_complete [OF m this, of ?pg "\<lambda>_. Done"] f(2) b m cut cut_host(1) show ?thesis by auto
qed

text \<open>
  An import does not ask whether its name is taken. Over a killed backup of the same name, a bundle that lacks one
  of the archives leaves the truncated one in place under a manifest.
\<close>

lemma import_over_partial:
  "\<exists>(source :: (nat, string) host) archive h h' f. managed h \<and> honest_host source \<and> cmd_export ''cut'' source = (archive, 0) \<and>
     cmd_import None archive h = (h', Some 0) \<and> map_of (ho_backups h') ''cut'' = Some f \<and> has_key f MANIFEST_NAME \<and>
     map_of f (archive_name ''models'') = Some (Archive None)"
proof -
  let ?h = "small_host\<lparr>ho_backups := [(''cut'', cut_folder)]\<rparr>"
  let ?f = "[(MANIFEST_NAME, Manifest ''m''), (DB_DUMP_NAME, Dump (Some 8))] :: (nat, string) backup_folder"
  let ?source = "small_host\<lparr>ho_backups := [(''cut'', ?f)]\<rparr>"
  have n: "DB_DUMP_NAME \<noteq> archive_name t" "MANIFEST_NAME \<noteq> archive_name t" if "t \<in> set BACKED_UP_TREES" for t
    using archive_distinct [OF that] by auto
  have "honest ?f" using archive_distinct by (auto simp: honest_def archived_def)
  then have "honest_host ?source" by (simp add: honest_host_def)
  moreover have "cmd_export ''cut'' ?source = (Some (''cut'', ?f), 0)"
    using n [of "''artifacts''"] n [of "''config''"] n [of "''models''"]
    by (simp add: cmd_export_def member_order_def List.map_filter_simps BACKED_UP_TREES_def)
  moreover obtain g where "cmd_import None (Some (''cut'', ?f)) ?h = (?h\<lparr>ho_backups := [(''cut'', g)]\<rparr>, Some 0)"
    "has_key g MANIFEST_NAME" "map_of g (archive_name ''models'') = Some (Archive None)"
    using n [of "''models''"] by (auto simp: cmd_import_def unpacked_def cut_folder_def has_key_def dict_get_def BACKED_UP_TREES_def)
  ultimately show ?thesis using cut_host(1)
    by - (rule exI [of _ ?source], rule exI [of _ "Some (''cut'', ?f)"], rule exI [of _ ?h],
        rule exI [of _ "?h\<lparr>ho_backups := [(''cut'', g)]\<rparr>"], rule exI [of _ g], simp)
qed

text \<open>
  The manifest is the first file of an exported archive, so an import that is killed leaves a backup that reads as finished: its
  restore is not refused, and ends with the database replaced and the models removed.
\<close>

lemma interrupted_import_looks_complete:
  assumes "map_of (ho_backups source) name = Some f" "map_of f MANIFEST_NAME = Some (Manifest m)"
    "map_of f (archive_name ''artifacts'') = Some (Archive (Some a))" "map_of f (archive_name ''config'') = Some (Archive (Some c))"
    "map_of f DB_DUMP_NAME = Some (Dump (Some d))" "map_of f (archive_name ''models'') = Some (Archive (Some x))"
    "\<not> has_key (ho_backups h) name"
  shows "\<exists>h1 h2. cmd_import (Some 4) (fst (cmd_export name source)) h = (h1, None) \<and>
    cmd_restore pg (\<lambda>_. Done) name True h1 = (h2, Some 1) \<and>
    ho_database h2 = pg (Some d) (ho_database h) \<and> map_of (ho_trees h2) ''models'' = None"
proof -
  let ?ms = "[(MANIFEST_NAME, Manifest m), (archive_name ''artifacts'', Archive (Some a)), (archive_name ''config'', Archive (Some c)),
    (DB_DUMP_NAME, Dump (Some d)), (archive_name ''models'', Archive (Some x))]"
  have e: "fst (cmd_export name source) = Some (name, ?ms)"
    using assms by (simp add: cmd_export_def member_order_def List.map_filter_simps)
  have old: "dict_get (ho_backups h) name [] = []" using assms(7) by (simp add: has_key_def dict_get_def)
  let ?g = "[(MANIFEST_NAME, Manifest m), (archive_name ''artifacts'', Archive (Some a)), (archive_name ''config'', Archive (Some c)),
    (DB_DUMP_NAME, Dump (Some d)), (archive_name ''models'', Archive None)]"
  have names: "archive_name t \<noteq> DB_DUMP_NAME" "archive_name t \<noteq> MANIFEST_NAME" if "t \<in> set BACKED_UP_TREES" for t
    using archive_distinct [OF that] by simp_all
  have "cmd_import (Some 4) (Some (name, ?ms)) h = (h\<lparr>ho_backups := AList.update name ?g (ho_backups h)\<rparr>, None)"
    using names [of "''artifacts''"] names [of "''config''"] names [of "''models''"]
    by (simp add: cmd_import_def unpacked_def old BACKED_UP_TREES_def)
  moreover have "\<exists>h2. cmd_restore pg (\<lambda>_. Done) name True (h\<lparr>ho_backups := AList.update name ?g (ho_backups h)\<rparr>) = (h2, Some 1) \<and>
      ho_database h2 = pg (Some d) (ho_database h) \<and> map_of (ho_trees h2) ''models'' = None"
    using names [of "''artifacts''"] names [of "''config''"] names [of "''models''"]
    by (simp add: cmd_restore_def map_of_update has_key_def restore_database_def BACKED_UP_TREES_def map_of_delete eq_commute)
  ultimately show ?thesis unfolding e by blast
qed

end
