(* ===== verification/Spec2Isabelle.thy ===== *)
theory Spec2Isabelle
  imports SignalService Integrity BacktestService ServerConfig Lifespan MarketApi ModelApi Schema Backup
begin

text \<open>
  Verification of the backend of a Binance Spot trading system (\<open>src/backend/app\<close>, Python).

  \<^bold>\<open>The program.\<close> Candles are fetched from the exchange, in bulk and from a stream, and stored;
  features are computed from them; a technical score and a trained model give components that
  are fused into a signal; a person may open a paper trade over the API, which the risk engine sizes
  and may refuse; a scheduler watches the open positions; a backtest runs the same engine over
  stored history; an event bus tells the browsers; startup puts all of it together.

  \<^bold>\<open>How it is modelled.\<close> Shallowly: a function of the source is a HOL function, a class or table
  row is a record, an enumeration a datatype, a table a list of rows, a \<open>dict\<close> an association
  list, a raised exception the left side of a sum, and a mutable object a state that is passed
  and returned. \<open>Decimal\<close> is a rational rounded to 28 digits and \<open>float\<close> a rational rounded to 53
  bits after every operation (\<open>Rounding\<close>: \<open>dec\<close> and \<open>flt\<close>, their order and error laws in the locale
  \<open>rounding\<close>). A \<open>datetime\<close> is its microseconds since the epoch. The clock, the network and the
  exchange are arguments.

  \<^bold>\<open>Theories.\<close>
  \<^item> \<open>Prelude\<close>: dictionaries, exceptions, the locale \<open>invariant_run\<close>. \<open>Table\<close>: upserts under a unique
    key (locale \<open>keyed_table\<close>, interpreted for predictions, signals and candles). \<open>Rounding\<close>,
    \<open>Enums\<close> (\<open>models/enums.py\<close>), \<open>Json\<close>, \<open>TimeUtils\<close> (\<open>core/time_utils.py\<close>).
  \<^item> Risk: \<open>RiskConfig\<close>, \<open>PositionSizing\<close>, \<open>RiskEngine\<close> (\<open>config/risk_config.py\<close>, \<open>risk/\<close>). An approved size
    respects every limit, the decision is the conjunction of the documented predicates, the
    rule named really holds, and the exposure stays below its limits but for the last of 28 digits.
  \<^item> Paper trading: \<open>Fills\<close>, \<open>Portfolio\<close>, \<open>Simulator\<close> (\<open>paper_trading/\<close>): fills never flatter, the
    books do not drift, the account stays sound over every sequence of calls, entries need an
    approval, stops never loosen, liquidation is complete. \<open>Account\<close> (\<open>paper_trading/account.py\<close>):
    the same engine rebuilt from database rows on every request; the ledger stays consistent
    over every sequence of requests and ticks that run one after the other, an entry passes the account and
    trade rules (not the system rules, which the code runs on a fresh state), the tables refine a book of
    positions, and a tick only protects.
  \<^item> Backtesting: \<open>BacktestMetrics\<close>, \<open>BacktestEngine\<close>, \<open>BacktestService\<close> (\<open>backtesting/\<close>): no lookahead,
    closed books, the meaning of the figures, what a request leaves behind.
  \<^item> Signals: \<open>TechnicalScore\<close>, \<open>Fusion\<close>, \<open>SignalService\<close> (\<open>signals/\<close>): scores are honest, fusion decides
    by confidence, margin and side, every evaluated bar is on record once with both of its components.
  \<^item> Learning: \<open>Dataset\<close>, \<open>ModelRegistry\<close> (\<open>ml/\<close>): no label leaks across a split, no job promotes a
    model, broken artifacts leave production, stored predictions are complete.
  \<^item> Exchange: \<open>RateLimiter\<close>, \<open>RestClient\<close>, \<open>ExchangeMetadata\<close>, \<open>Klines\<close>, \<open>BinanceService\<close>, \<open>StreamClient\<close>
    (\<open>binance/\<close>): a declared limit is never exceeded and waiting suffices, responses are classified,
    retries are bounded, the clock error is bounded, filters are sound, the reconnecting stream
    backs off as documented, and the health of the exchange is not made to look better than it is.
  \<^item> Market data: \<open>Market\<close> (\<open>models/market.py\<close>), \<open>Ingestion\<close> (\<open>services/historical_ingestion.py\<close>),
    \<open>Integrity\<close> (\<open>services/data_integrity.py\<close>): the coverage row is a function of the stored candles
    in whatever order calls are made, a backfill is complete, the report counts exactly the holes.
    \<open>MarketStream\<close> (\<open>workers/market_stream.py\<close>): a candle is stored exactly when it has closed, and
    what is published does not depend on the database.
  \<^item> Features: \<open>Causal\<close> (the locale \<open>causal_series\<close>: no value depends on a later bar), \<open>Indicators\<close>,
    \<open>FeatureEngine\<close> (\<open>technical/\<close>), \<open>MarketStructure\<close> (\<open>engines/market_structure.py\<close>): stored features have no
    lookahead, the swing fields are those of a reference definition, and breakouts are held against the confirmed level
    (on the bar that confirms a new one, the code and its comment disagree about which).
  \<^item> Events: \<open>EventBus\<close> (\<open>core/events.py\<close>, \<open>websocket/event_bus.py\<close>, the locale \<open>lossy_queue\<close>),
    \<open>ConnectionManager\<close> (\<open>websocket/manager.py\<close>): a slow browser loses its oldest events only, and every
    entry of the table has one subscriber whatever the order of its tasks; an entry whose client left before the
    greeting stays.
  \<^item> Operation: \<open>Settings\<close> and \<open>ServerConfig\<close> (\<open>config/settings.py\<close>: sections, validation; URLs,
    directories), \<open>Schema\<close> (the migration as a list of operations on a database schema),
    \<open>AppState\<close> (\<open>services/app_state.py\<close>), \<open>Scheduler\<close> (\<open>scheduler/service.py\<close>), \<open>Health\<close> (\<open>monitoring/health.py\<close>) and
    \<open>Lifespan\<close> (\<open>lifespan.py\<close>): startup never goes live by itself, reports what was wrong and loses no
    state over a restart; only an interruption ends the scheduler's loop, whatever its ticks raise; credentials do not spill into a database URL; health is the worst of its parts.
  \<^item> Administration: \<open>Backup\<close> (\<open>scripts/manage.py\<close>): a backup brings everything back, and a manifest marks it
    as complete as long as imports are not interrupted and bring new names.
  \<^item> API: \<open>Queries\<close> (what the lists share), \<open>MarketApi\<close> (\<open>api/v1/market.py\<close>), \<open>TradingApi\<close> (\<open>orders\<close>, \<open>positions\<close>,
    \<open>trades\<close>, \<open>risk\<close>, \<open>settings\<close>, \<open>system\<close>), \<open>ModelApi\<close> (\<open>models\<close>, \<open>signals\<close>, \<open>backtests\<close>)
    and \<open>ApiErrors\<close> (\<open>core/errors.py\<close>, \<open>api/middleware.py\<close>): an answer says what the account or the database did, a backfill has one result per pair, no request puts a
    model into production, errors have one envelope and no credential is served.

  \<^bold>\<open>Bounds and fuel.\<close> The retry loop of \<open>RestClient\<close> takes the list of responses as its
  environment and one unit of fuel more than that list is long, so it only ends for a reason of
  its own; a backfill has the bound \<open>max_pages\<close> of the source as its fuel, and \<open>backfill_complete\<close>
  says how many pages are enough. Instants are exact up to the year 2096 (\<open>TimeUtils.in_era\<close>);
  beyond, a float no longer holds microseconds. Exponents of \<open>Decimal\<close> and \<open>float\<close> are unbounded.
  The reconnecting stream runs over the list of its attempts; the scheduler's loop tests its flag in each round and takes
  the environment of each from a list, at whose end its task is still pending.

  \<^bold>\<open>Parameters.\<close> \<open>qz\<close> is the rounding of a \<open>Numeric\<close> column to its scale (\<open>numeric_column\<close> is PostgreSQL's); \<open>fetch\<close> and \<open>get\<close> are HTTP
  calls; the learner, the model files and the disk of \<open>ModelRegistry\<close> are LightGBM's and the file
  system's; \<open>P\<close> (record \<open>pandas\<close>) is what pandas and numpy do to a column. An outage, a tick, startup and
  the probes have an environment that says which call is answered; \<open>pg\<close> is \<open>pg_restore\<close>; \<open>cors\<close> and the layer that answers
  an exception are Starlette's; \<open>lazy\<close> is how SQLAlchemy reads a relationship that was not loaded.
  Hypotheses about them say what their documentation does: a page holds candles of one symbol in ascending order, rounding is monotone, a window looks back
  (\<open>causal_pandas\<close>), the handler for \<open>Exception\<close> runs outside the middleware (\<open>starlette_order\<close>).

  \<^bold>\<open>Not modelled.\<close> Model fitting and its metrics are LightGBM's and scikit-learn's;
  \<open>binance/mock.py\<close> is a test double; connection objects, log
  formatting and the frontend are plumbing. Packages that are empty at this commit (\<open>llm\<close>, \<open>news\<close>, \<open>patterns\<close>,
  \<open>trading\<close>) have nothing to model, nor have tables no code fills. A request is atomic: two requests
  that interleave at an \<open>await\<close> are only treated where a lemma says so (\<open>Account.double_open_never_closes\<close>,
  \<open>ConnectionManager\<close>).
\<close>

end
